(* ===== verification/Rtdb_Prelude.thy ===== *)
theory Rtdb_Prelude
  imports Complex_Main "HOL-Library.Word"
begin

text \<open>
  Shared vocabulary of the development: the truncating conversions between the C integer
  types, fixed-size character arrays with the C string functions the database uses on
  them, linear search in the fixed-size tables of the shared segment, and the error codes
  of \<open>include/kogmo_rtdb_funcs.h\<close>.
\<close>

named_theorems cint \<open>range facts about the C integer conversions\<close>
named_theorems frame \<open>what an operation leaves unchanged\<close>

section \<open>C integers\<close>

text \<open>Conversion to \<open>int32_t\<close>, \<open>int64_t\<close>, \<open>uint32_t\<close> and \<open>uint64_t\<close> (gcc, two's complement).\<close>

definition int32 :: "int \<Rightarrow> int" where
  "int32 x = signed_take_bit 31 x"

definition int64 :: "int \<Rightarrow> int" where
  "int64 x = signed_take_bit 63 x"

definition uint32 :: "int \<Rightarrow> int" where
  "uint32 x = take_bit 32 x"

definition uint64 :: "int \<Rightarrow> int" where
  "uint64 x = take_bit 64 x"

definition in_int32 :: "int \<Rightarrow> bool" where
  "in_int32 x \<longleftrightarrow> - (2 ^ 31) \<le> x \<and> x < 2 ^ 31"

definition in_int64 :: "int \<Rightarrow> bool" where
  "in_int64 x \<longleftrightarrow> - (2 ^ 63) \<le> x \<and> x < 2 ^ 63"

lemma int32_id [simp]: "in_int32 x \<Longrightarrow> int32 x = x"
  by (simp add: int32_def in_int32_def signed_take_bit_int_eq_self)

lemma int64_id [simp]: "in_int64 x \<Longrightarrow> int64 x = x"
  by (simp add: int64_def in_int64_def signed_take_bit_int_eq_self)

lemma in_int32_int32 [simp, cint]: "in_int32 (int32 x)"
  using signed_take_bit_int_greater_eq_minus_exp [of 31 x] signed_take_bit_int_less_exp [of 31 x]
  by (simp add: in_int32_def int32_def)

lemma in_int64_int64 [simp, cint]: "in_int64 (int64 x)"
  using signed_take_bit_int_greater_eq_minus_exp [of 63 x] signed_take_bit_int_less_exp [of 63 x]
  by (simp add: in_int64_def int64_def)

lemma uint32_id [simp]: "0 \<le> x \<Longrightarrow> x < 2 ^ 32 \<Longrightarrow> uint32 x = x"
  by (simp add: uint32_def take_bit_int_eq_self)

lemma uint64_id [simp]: "0 \<le> x \<Longrightarrow> x < 2 ^ 64 \<Longrightarrow> uint64 x = x"
  by (simp add: uint64_def take_bit_int_eq_self)

lemma uint64_nonneg [simp, cint]: "0 \<le> uint64 x"
  by (simp add: uint64_def)

text \<open>C's remainder truncates towards zero; for a non-negative dividend it is \<open>mod\<close>.\<close>

definition c_rem :: "int \<Rightarrow> int \<Rightarrow> int" where
  "c_rem a b = sgn a * (\<bar>a\<bar> mod \<bar>b\<bar>)"

definition c_div :: "int \<Rightarrow> int \<Rightarrow> int" where
  "c_div a b = sgn a * sgn b * (\<bar>a\<bar> div \<bar>b\<bar>)"

lemma c_rem_nonneg [simp]: "0 \<le> a \<Longrightarrow> 0 < b \<Longrightarrow> c_rem a b = a mod b"
  by (cases "a = 0") (simp_all add: c_rem_def)

lemma c_div_nonneg [simp]: "0 \<le> a \<Longrightarrow> 0 < b \<Longrightarrow> c_div a b = a div b"
  by (cases "a = 0") (simp_all add: c_div_def)

lemma c_rem_bounds: "0 < b \<Longrightarrow> - b < c_rem a b \<and> c_rem a b < b"
proof -
  assume b: "0 < b"
  have "0 \<le> \<bar>a\<bar> mod b" "\<bar>a\<bar> mod b < b" using b by simp_all
  with b show ?thesis by (auto simp: c_rem_def sgn_if)
qed

lemma c_rem_cong: "0 < b \<Longrightarrow> (c_rem a b) mod b = a mod b"
proof -
  assume b: "0 < b"
  show ?thesis
  proof (cases "0 \<le> a")
    case True with b show ?thesis by simp
  next
    case False
    then have "c_rem a b = - ((- a) mod b)" using b by (simp add: c_rem_def)
    then show ?thesis by (metis minus_minus mod_minus_eq)
  qed
qed

section \<open>Character arrays\<close>

abbreviation NUL :: char where
  "NUL \<equiv> char_of (0::nat)"

text \<open>The string that starts at an array: everything before the first NUL.\<close>

definition cstr :: "char list \<Rightarrow> char list" where
  "cstr xs = takeWhile (\<lambda>c. c \<noteq> NUL) xs"

text \<open>\<open>strncpy(dest,src,n)\<close> for an array of exactly \<open>n\<close> characters: copies and pads with NUL.\<close>

definition strncpy :: "nat \<Rightarrow> char list \<Rightarrow> char list" where
  "strncpy n src = take n (cstr src @ replicate n NUL)"

text \<open>\<open>strncmp(a,b,n)==0\<close>.\<close>

definition strncmp_eq :: "nat \<Rightarrow> char list \<Rightarrow> char list \<Rightarrow> bool" where
  "strncmp_eq n a b \<longleftrightarrow> take n (cstr a) = take n (cstr b)"

lemma strncmp_eq_refl [simp]: "strncmp_eq n a a"
  by (simp add: strncmp_eq_def)

lemma strncmp_eq_sym: "strncmp_eq n a b = strncmp_eq n b a"
  by (auto simp: strncmp_eq_def)

lemma strncmp_eq_trans: "strncmp_eq n a b \<Longrightarrow> strncmp_eq n b c \<Longrightarrow> strncmp_eq n a c"
  by (simp add: strncmp_eq_def)

lemma length_strncpy [simp]: "length (strncpy n s) = n"
  by (simp add: strncpy_def)

lemma takeWhile_replicate_bad [simp]: "\<not> P x \<Longrightarrow> takeWhile P (replicate n x) = []"
  by (cases n) simp_all

lemma takeWhile_append_bad: "takeWhile P (takeWhile P xs @ replicate n x) = takeWhile P xs"
  if "\<not> P x"
  using that by (induction xs) auto

lemma take_takeWhile_swap: "take n (takeWhile P xs) = takeWhile P (take n xs)"
  by (induction xs arbitrary: n) (auto simp: take_Cons split: nat.splits)

lemma cstr_strncpy: "cstr (strncpy n s) = take n (cstr s)"
proof -
  have "cstr (strncpy n s) = take n (cstr (cstr s @ replicate n NUL))"
    by (simp add: strncpy_def cstr_def take_takeWhile_swap)
  also have "cstr (cstr s @ replicate n NUL) = cstr s"
    unfolding cstr_def by (rule takeWhile_append_bad) simp
  finally show ?thesis .
qed

lemma strncmp_eq_strncpy: "strncmp_eq n (strncpy n s) s"
  by (simp add: strncmp_eq_def cstr_strncpy)

section \<open>Linear search in a fixed table\<close>

text \<open>
  The shared tables (objects, processes, the player's id map) are arrays scanned from
  index 0. \<open>scan_first\<close> is that scan: the first index whose entry satisfies the test.
\<close>

fun scan_first :: "('a \<Rightarrow> bool) \<Rightarrow> 'a list \<Rightarrow> nat option" where
  "scan_first P [] = None"
| "scan_first P (x # xs) = (if P x then Some 0 else map_option Suc (scan_first P xs))"

lemma scan_first_None: "scan_first P xs = None \<longleftrightarrow> (\<forall>x \<in> set xs. \<not> P x)"
  by (induction xs) auto

lemma scan_first_Some:
  "scan_first P xs = Some i \<longleftrightarrow> i < length xs \<and> P (xs ! i) \<and> (\<forall>j < i. \<not> P (xs ! j))"
proof (induction xs arbitrary: i)
  case Nil then show ?case by simp
next
  case (Cons x xs)
  show ?case
  proof (cases "P x")
    case True
    then show ?thesis by (auto simp: nth_Cons split: nat.splits)
  next
    case False
    show ?thesis
    proof (cases i)
      case 0 with False show ?thesis by auto
    next
      case (Suc k)
      have "(\<forall>j < Suc k. \<not> P ((x # xs) ! j)) = (\<forall>j < k. \<not> P (xs ! j))"
        using False by (auto simp: less_Suc_eq_0_disj)
      with False Suc Cons.IH [of k] show ?thesis by auto
    qed
  qed
qed

lemma scan_first_lt [dest]: "scan_first P xs = Some i \<Longrightarrow> i < length xs"
  by (simp add: scan_first_Some)

lemma scan_first_sat: "scan_first P xs = Some i \<Longrightarrow> P (xs ! i)"
  by (simp add: scan_first_Some)

lemma scan_first_unique:
  assumes "i < length xs" "P (xs ! i)" "\<And>j. j < length xs \<Longrightarrow> P (xs ! j) \<Longrightarrow> j = i"
  shows "scan_first P xs = Some i"
proof -
  have "\<not> P (xs ! j)" if "j < i" for j
  proof
    assume "P (xs ! j)"
    with that assms(1) have "j = i" by (intro assms(3)) simp_all
    with that show False by simp
  qed
  with assms(1,2) show ?thesis by (simp add: scan_first_Some)
qed

lemma scan_first_cong_set:
  "(\<And>x. x \<in> set xs \<Longrightarrow> P x = Q x) \<Longrightarrow> scan_first P xs = scan_first Q xs"
  by (induction xs) auto

lemma nth_list_update_if: "i < length xs \<Longrightarrow> xs[i := v] ! j = (if i = j then v else xs ! j)"
  by auto

lemma length_filter_update:
  assumes "i < length xs" "P (xs ! i)" "\<not> P v"
  shows "Suc (length (filter P (xs[i := v]))) = length (filter P xs)"
  using assms
proof (induction xs arbitrary: i)
  case Nil then show ?case by simp
next
  case (Cons x xs) then show ?case by (cases i) auto
qed

lemma length_filter_update_same:
  assumes "i < length xs" "P (xs ! i) = P v"
  shows "length (filter P (xs[i := v])) = length (filter P xs)"
  using assms
proof (induction xs arbitrary: i)
  case Nil then show ?case by simp
next
  case (Cons x xs) then show ?case by (cases i) auto
qed

lemma length_filter_update_le:
  assumes "P v \<Longrightarrow> P (xs ! i)"
  shows "length (filter P (xs[i := v])) \<le> length (filter P xs)"
proof (cases "i < length xs")
  case False then show ?thesis by (simp add: list_update_beyond)
next
  case True
  show ?thesis
  proof (cases "P (xs ! i) = P v")
    case True with \<open>i < length xs\<close> show ?thesis by (simp add: length_filter_update_same)
  next
    case False
    with assms have "P (xs ! i)" "\<not> P v" by auto
    from length_filter_update [OF \<open>i < length xs\<close> this] show ?thesis by simp
  qed
qed

section \<open>Error codes\<close>

text \<open>
  The functions return a negative \<open>errno\<close> value; the model returns \<open>Inl\<close> of a constructor
  and \<open>Inr\<close> of the non-negative result. \<open>errno_of\<close> is the number behind each name.
\<close>

datatype rtdb_error = ERR_NOPERM | ERR_NOTFOUND | ERR_NOMEMORY | ERR_INVALID | ERR_OUTOFOBJ
  | ERR_NOTUNIQ | ERR_UNKNOWN | ERR_CONNDENY | ERR_NOCONN | ERR_HISTWRAP | ERR_TOOFAST
  | ERR_TIMEOUT

fun errno_of :: "rtdb_error \<Rightarrow> int" where
  "errno_of ERR_NOPERM = 13"
| "errno_of ERR_NOTFOUND = 2"
| "errno_of ERR_NOMEMORY = 12"
| "errno_of ERR_INVALID = 22"
| "errno_of ERR_OUTOFOBJ = 24"
| "errno_of ERR_NOTUNIQ = 17"
| "errno_of ERR_UNKNOWN = 1"
| "errno_of ERR_CONNDENY = 111"
| "errno_of ERR_NOCONN = 107"
| "errno_of ERR_HISTWRAP = 116"
| "errno_of ERR_TOOFAST = 11"
| "errno_of ERR_TIMEOUT = 110"

lemma errno_of_inj: "errno_of a = errno_of b \<Longrightarrow> a = b"
  by (cases a; cases b) simp_all

text \<open>The C return value of an operation that returns an integer.\<close>

fun c_ret :: "rtdb_error + int \<Rightarrow> int" where
  "c_ret (Inl e) = - errno_of e"
| "c_ret (Inr v) = v"

lemma c_ret_neg: "c_ret (Inl e) < 0"
  by (cases e) simp_all

section \<open>Ends of a call\<close>

text \<open>
  How a call can end: it returns, the process exits (\<open>DIE\<close>), or it does what C leaves undefined
  or the hardware refuses.
\<close>

datatype 'a outcome = Returned 'a | Died | Faulted

end
