(* ===== verification/C_Memory.thy ===== *)
theory C_Memory
  imports Rtdb_Prelude
begin

text \<open>
  The byte memory behind the shared data segment, and the layout of the base header that
  every data block starts with (\<open>kogmo_rtdb_subobj_base_t\<close>, packed, little endian). Blocks
  held by a caller are byte lists; the segment is a function from an index relative to
  \<open>localdata_p->heap\<close> to a byte. \<open>ldb\<close> and \<open>stb\<close> are \<open>memcpy\<close> out of and into the segment.
\<close>

type_synonym byte = "8 word"
type_synonym mem = "int \<Rightarrow> byte"

section \<open>Integers as bytes\<close>

definition enc :: "nat \<Rightarrow> int \<Rightarrow> byte list" where
  "enc n v = map (\<lambda>i. word_of_int (v div 256 ^ i)) [0..<n]"

fun udec :: "byte list \<Rightarrow> int" where
  "udec [] = 0"
| "udec (b # bs) = uint b + 256 * udec bs"

definition sdec :: "byte list \<Rightarrow> int" where
  "sdec bs = signed_take_bit (8 * length bs - 1) (udec bs)"

lemma length_enc [simp]: "length (enc n v) = n"
  by (simp add: enc_def)

lemma enc_Suc: "enc (Suc n) v = word_of_int v # enc n (v div 256)"
proof -
  have "v div 256 ^ Suc i = v div 256 div 256 ^ i" for i
    by (simp add: zdiv_zmult2_eq)
  then show ?thesis
    by (simp add: enc_def upt_conv_Cons map_Suc_upt [symmetric] del: upt_Suc)
qed

lemma udec_enc: "udec (enc n v) = v mod 256 ^ n"
proof (induction n arbitrary: v)
  case 0 then show ?case by (simp add: enc_def)
next
  case (Suc n)
  have "uint (word_of_int v :: byte) = v mod 256"
    by (simp add: uint_word_of_int take_bit_eq_mod)
  then show ?case
    by (simp add: enc_Suc Suc.IH mod_mult2_eq' zmod_zmult2_eq)
qed

lemma udec_nonneg: "0 \<le> udec bs"
  by (induction bs) auto

lemma udec_bound: "udec bs < 256 ^ length bs"
proof (induction bs)
  case Nil then show ?case by simp
next
  case (Cons b bs)
  have "uint b \<le> 255" using uint_lt2p [of b] by simp
  with Cons show ?case by simp
qed

lemma sdec_enc:
  assumes "0 < n" "- (2 ^ (8 * n - 1)) \<le> v" "v < 2 ^ (8 * n - 1)"
  shows "sdec (enc n v) = v"
proof -
  have p: "(256::int) ^ n = 2 ^ (8 * n)" by (simp add: power_mult)
  have "sdec (enc n v) = signed_take_bit (8 * n - 1) (take_bit (8 * n) v)"
    by (simp add: sdec_def udec_enc p take_bit_eq_mod)
  also have "\<dots> = signed_take_bit (8 * n - 1) v"
  proof -
    have "\<not> 8 * n \<le> 8 * n - 1" using assms(1) by linarith
    then show ?thesis by (simp only: signed_take_bit_take_bit if_False)
  qed
  also have "\<dots> = v"
    using assms by (simp add: signed_take_bit_int_eq_self)
  finally show ?thesis .
qed

lemma sdec_replicate_0 [simp]: "sdec (replicate n 0) = 0"
proof -
  have "udec (replicate n 0) = 0" by (induction n) auto
  then show ?thesis by (simp add: sdec_def)
qed

text \<open>Encoding is the inverse of decoding, signed or not.\<close>

lemma enc_udec: "enc (length bs) (udec bs) = bs"
proof (induction bs)
  case Nil then show ?case by (simp add: enc_def)
next
  case (Cons b bs)
  have b: "0 \<le> uint b" "uint b < 256" using uint_lt2p [of b] by simp_all
  have "uint (word_of_int (uint b + 256 * udec bs) :: byte) = uint b"
    unfolding uint_word_of_int take_bit_eq_mod using b by simp
  from arg_cong [OF this, of "word_of_int :: int \<Rightarrow> byte"]
  have "(word_of_int (uint b + 256 * udec bs) :: byte) = b"
    by (simp only: word_of_int_uint)
  moreover have "(uint b + 256 * udec bs) div 256 = udec bs" using b by simp
  ultimately show ?case by (simp add: enc_Suc Cons.IH)
qed

lemma enc_cong: "v mod 256 ^ n = w mod 256 ^ n \<Longrightarrow> enc n v = enc n w"
proof (induction n arbitrary: v w)
  case 0 then show ?case by (simp add: enc_def)
next
  case (Suc n)
  have "v mod 256 = w mod 256"
  proof -
    have "v mod 256 ^ Suc n mod 256 = v mod 256" "w mod 256 ^ Suc n mod 256 = w mod 256"
      by (simp_all add: mod_mod_cancel)
    with Suc.prems show ?thesis by simp
  qed
  then have "(word_of_int v :: byte) = word_of_int w"
    by (simp add: word_of_int_eq_iff take_bit_eq_mod)
  moreover have "v div 256 mod 256 ^ n = w div 256 mod 256 ^ n"
  proof -
    have "x mod 256 ^ Suc n div 256 = x div 256 mod 256 ^ n" for x :: int
    proof -
      have "x mod (256 * 256 ^ n) = 256 * (x div 256 mod 256 ^ n) + x mod 256"
        by (rule zmod_zmult2_eq) simp
      then show ?thesis by simp
    qed
    then show ?thesis using arg_cong [OF Suc.prems, of "\<lambda>z. z div 256"] by (simp only:)
  qed
  ultimately show ?case unfolding enc_Suc using Suc.IH [of "v div 256" "w div 256"] by simp
qed

lemma enc_sdec [simp]: "length bs = n \<Longrightarrow> 0 < n \<Longrightarrow> enc n (sdec bs) = bs"
proof -
  assume n: "length bs = n" "0 < n"
  have p: "(256::int) ^ n = 2 ^ (8 * n)" by (simp add: power_mult)
  have "take_bit (8 * n) (signed_take_bit (8 * n - 1) (udec bs)) = take_bit (8 * n) (udec bs)"
    using n(2) by (simp add: take_bit_signed_take_bit)
  then have "sdec bs mod 256 ^ n = udec bs mod 256 ^ n"
    by (simp add: sdec_def n(1) p take_bit_eq_mod)
  then have "enc n (sdec bs) = enc n (udec bs)" by (rule enc_cong)
  with n(1) show ?thesis using enc_udec [of bs] by simp
qed

section \<open>Characters as bytes\<close>

definition string_bytes :: "char list \<Rightarrow> byte list" where
  "string_bytes s = map of_char s"

definition bytes_string :: "byte list \<Rightarrow> char list" where
  "bytes_string bs = map (\<lambda>b. char_of (unat b)) bs"

lemma length_string_bytes [simp]: "length (string_bytes s) = length s" "length (bytes_string bs) = length bs"
  by (simp_all add: string_bytes_def bytes_string_def)

lemma bytes_string_bytes [simp]: "bytes_string (string_bytes s) = s"
proof -
  have "unat (of_char c :: byte) = of_char c" for c
  proof -
    have "(of_char c :: nat) < 2 ^ 8" by simp
    then have "unat (of_nat (of_char c) :: byte) = of_char c" by (simp add: unat_of_nat take_bit_nat_eq_self)
    then show ?thesis by (simp only: of_nat_of_char)
  qed
  then show ?thesis by (simp add: string_bytes_def bytes_string_def comp_def)
qed

section \<open>Reading and writing the segment\<close>

definition ldb :: "mem \<Rightarrow> int \<Rightarrow> nat \<Rightarrow> byte list" where
  "ldb m a n = map (\<lambda>i. m (a + int i)) [0..<n]"

definition stb :: "mem \<Rightarrow> int \<Rightarrow> byte list \<Rightarrow> mem" where
  "stb m a bs = (\<lambda>x. if a \<le> x \<and> x < a + int (length bs) then bs ! nat (x - a) else m x)"

lemma length_ldb [simp]: "length (ldb m a n) = n"
  by (simp add: ldb_def)

lemma nth_ldb [simp]: "i < n \<Longrightarrow> ldb m a n ! i = m (a + int i)"
  by (simp add: ldb_def)

lemma ldb_stb_same [simp]: "length bs = n \<Longrightarrow> ldb (stb m a bs) a n = bs"
  by (rule nth_equalityI) (auto simp: ldb_def stb_def)

lemma stb_outside: "x < a \<or> a + int (length bs) \<le> x \<Longrightarrow> stb m a bs x = m x"
  by (auto simp: stb_def)

lemma stb_inside: "i < length bs \<Longrightarrow> stb m a bs (a + int i) = bs ! i"
  by (simp add: stb_def)

lemma ldb_stb_disjoint [simp]:
  "a' + int n \<le> a \<or> a + int (length bs) \<le> a' \<Longrightarrow> ldb (stb m a bs) a' n = ldb m a' n"
  by (rule nth_equalityI) (auto simp: stb_def)

lemma ldb_append: "ldb m a (n + k) = ldb m a n @ ldb m (a + int n) k"
proof (rule nth_equalityI)
  fix i assume "i < length (ldb m a (n + k))"
  then show "ldb m a (n + k) ! i = (ldb m a n @ ldb m (a + int n) k) ! i"
    by (auto simp: nth_append add.assoc)
qed simp

lemma take_ldb [simp]: "take k (ldb m a n) = ldb m a (min k n)"
  by (rule nth_equalityI) auto

lemma drop_ldb [simp]: "drop k (ldb m a n) = ldb m (a + int k) (n - k)"
  by (rule nth_equalityI) (auto simp: add.assoc)

lemma ldb_cong: "(\<And>x. a \<le> x \<Longrightarrow> x < a + int n \<Longrightarrow> m x = m' x) \<Longrightarrow> ldb m a n = ldb m' a n"
  by (rule nth_equalityI) auto

text \<open>A later write of a part of a freshly written block.\<close>

lemma stb_stb_same: "length bs = length bs' \<Longrightarrow> stb (stb m a bs) a bs' = stb m a bs'"
  by (rule ext) (auto simp: stb_def)

section \<open>Fields of a block\<close>

definition get :: "nat \<Rightarrow> nat \<Rightarrow> byte list \<Rightarrow> byte list" where
  "get off n bs = take n (drop off bs)"

definition put :: "nat \<Rightarrow> byte list \<Rightarrow> byte list \<Rightarrow> byte list" where
  "put off xs bs = take off bs @ xs @ drop (off + length xs) bs"

lemma length_put [simp]: "off + length xs \<le> length bs \<Longrightarrow> length (put off xs bs) = length bs"
  by (simp add: put_def)

lemma get_put_same [simp]:
  "off + length xs \<le> length bs \<Longrightarrow> n = length xs \<Longrightarrow> get off n (put off xs bs) = xs"
  by (simp add: get_def put_def)

lemma get_put_before [simp]:
  "off' + n \<le> off \<Longrightarrow> off + length xs \<le> length bs \<Longrightarrow> get off' n (put off xs bs) = get off' n bs"
  by (simp add: get_def put_def drop_take)

lemma get_put_after [simp]:
  "off + length xs \<le> off' \<Longrightarrow> off + length xs \<le> length bs \<Longrightarrow>
   get off' n (put off xs bs) = get off' n bs"
  by (simp add: get_def put_def add.commute)

lemma get_ldb [simp]: "off + n \<le> k \<Longrightarrow> get off n (ldb m a k) = ldb m (a + int off) n"
  by (simp add: get_def)

text \<open>A write inside a block, seen through the block.\<close>

lemma ldb_stb_put:
  assumes "off + length xs \<le> n"
  shows "ldb (stb m (a + int off) xs) a n = put off xs (ldb m a n)"
proof (rule nth_equalityI)
  show "length (ldb (stb m (a + int off) xs) a n) = length (put off xs (ldb m a n))"
    using assms by simp
next
  fix i assume "i < length (ldb (stb m (a + int off) xs) a n)"
  then have i: "i < n" by simp
  consider "i < off" | "off \<le> i" "i < off + length xs" | "off + length xs \<le> i" by linarith
  then show "ldb (stb m (a + int off) xs) a n ! i = put off xs (ldb m a n) ! i"
  proof cases
    case 1 then show ?thesis using i assms by (simp add: put_def stb_def nth_append)
  next
    case 2
    then have "nat (int i - int off) = i - off" "i - off < length xs" by linarith+
    with 2 show ?thesis using i assms by (simp add: put_def stb_def nth_append)
  next
    case 3
    then have n: "\<not> i < off" "\<not> i - off < length xs" "\<not> (a + int i < a + int off + int (length xs))"
      by linarith+
    have "a + int (off + length xs) + int (i - off - length xs) = a + int i" using 3 by simp
    with n 3 i assms show ?thesis
      by (simp add: put_def stb_def nth_append)
  qed
qed

lemma length_get [simp]: "off + n \<le> length bs \<Longrightarrow> length (get off n bs) = n"
  by (simp add: get_def)

lemma put_get_same [simp]: "off + n \<le> length bs \<Longrightarrow> put off (get off n bs) bs = bs"
  by (simp add: put_def get_def) (metis append_take_drop_id drop_drop add.commute)

section \<open>The base header of a data block\<close>

text \<open>
  \<open>kogmo_rtdb_subobj_base_t\<close>: \<open>committed_ts\<close> (8 bytes at 0), \<open>committed_proc\<close> (4 at 8),
  \<open>data_ts\<close> (8 at 12), \<open>size\<close> (4 at 20), packed: 24 bytes.
\<close>

definition base_size :: nat where
  "base_size = 24"

definition b_committed_ts :: "byte list \<Rightarrow> int" where
  "b_committed_ts bs = sdec (get 0 8 bs)"

definition b_committed_proc :: "byte list \<Rightarrow> int" where
  "b_committed_proc bs = sdec (get 8 4 bs)"

definition b_data_ts :: "byte list \<Rightarrow> int" where
  "b_data_ts bs = sdec (get 12 8 bs)"

definition b_size :: "byte list \<Rightarrow> int" where
  "b_size bs = sdec (get 20 4 bs)"

definition set_committed_ts :: "int \<Rightarrow> byte list \<Rightarrow> byte list" where
  "set_committed_ts v bs = put 0 (enc 8 v) bs"

definition set_committed_proc :: "int \<Rightarrow> byte list \<Rightarrow> byte list" where
  "set_committed_proc v bs = put 8 (enc 4 v) bs"

definition set_data_ts :: "int \<Rightarrow> byte list \<Rightarrow> byte list" where
  "set_data_ts v bs = put 12 (enc 8 v) bs"

definition set_size :: "int \<Rightarrow> byte list \<Rightarrow> byte list" where
  "set_size v bs = put 20 (enc 4 v) bs"

text \<open>The user data behind the header.\<close>

definition b_payload :: "byte list \<Rightarrow> byte list" where
  "b_payload bs = drop base_size bs"

lemmas header_defs = b_committed_ts_def b_committed_proc_def b_data_ts_def b_size_def
  set_committed_ts_def set_committed_proc_def set_data_ts_def set_size_def base_size_def

lemma length_set_header [simp]:
  "base_size \<le> length bs \<Longrightarrow> length (set_committed_ts v bs) = length bs"
  "base_size \<le> length bs \<Longrightarrow> length (set_committed_proc v bs) = length bs"
  "base_size \<le> length bs \<Longrightarrow> length (set_data_ts v bs) = length bs"
  "base_size \<le> length bs \<Longrightarrow> length (set_size v bs) = length bs"
  by (simp_all add: header_defs)

lemma sdec_enc8 [simp]: "in_int64 v \<Longrightarrow> sdec (enc 8 v) = v"
  by (rule sdec_enc) (simp_all add: in_int64_def)

lemma sdec_enc4 [simp]: "in_int32 v \<Longrightarrow> sdec (enc 4 v) = v"
  by (rule sdec_enc) (simp_all add: in_int32_def)

lemma header_set_committed_ts [simp]:
  assumes "base_size \<le> length bs"
  shows "in_int64 v \<Longrightarrow> b_committed_ts (set_committed_ts v bs) = v"
    and "b_committed_proc (set_committed_ts v bs) = b_committed_proc bs"
    and "b_data_ts (set_committed_ts v bs) = b_data_ts bs"
    and "b_size (set_committed_ts v bs) = b_size bs"
  using assms by (simp_all add: header_defs)

lemma header_set_committed_proc [simp]:
  assumes "base_size \<le> length bs"
  shows "b_committed_ts (set_committed_proc v bs) = b_committed_ts bs"
    and "in_int32 v \<Longrightarrow> b_committed_proc (set_committed_proc v bs) = v"
    and "b_data_ts (set_committed_proc v bs) = b_data_ts bs"
    and "b_size (set_committed_proc v bs) = b_size bs"
  using assms by (simp_all add: header_defs)

lemma header_set_data_ts [simp]:
  assumes "base_size \<le> length bs"
  shows "b_committed_ts (set_data_ts v bs) = b_committed_ts bs"
    and "b_committed_proc (set_data_ts v bs) = b_committed_proc bs"
    and "in_int64 v \<Longrightarrow> b_data_ts (set_data_ts v bs) = v"
    and "b_size (set_data_ts v bs) = b_size bs"
  using assms by (simp_all add: header_defs)

lemma header_set_size [simp]:
  assumes "base_size \<le> length bs"
  shows "b_committed_ts (set_size v bs) = b_committed_ts bs"
    and "b_committed_proc (set_size v bs) = b_committed_proc bs"
    and "b_data_ts (set_size v bs) = b_data_ts bs"
    and "in_int32 v \<Longrightarrow> b_size (set_size v bs) = v"
  using assms by (simp_all add: header_defs)

lemma payload_set_header [simp]:
  assumes "base_size \<le> length bs"
  shows "b_payload (set_committed_ts v bs) = b_payload bs"
    and "b_payload (set_committed_proc v bs) = b_payload bs"
    and "b_payload (set_data_ts v bs) = b_payload bs"
    and "b_payload (set_size v bs) = b_payload bs"
  using assms by (simp_all add: b_payload_def header_defs put_def)

lemma get_take [simp]: "off + n \<le> k \<Longrightarrow> get off n (take k bs) = get off n bs"
  by (simp add: get_def drop_take min_absorb1)

lemma header_take [simp]:
  assumes "base_size \<le> k"
  shows "b_committed_ts (take k bs) = b_committed_ts bs"
    and "b_committed_proc (take k bs) = b_committed_proc bs"
    and "b_data_ts (take k bs) = b_data_ts bs"
    and "b_size (take k bs) = b_size bs"
  using assms by (simp_all add: header_defs)

text \<open>Writing back what is there changes nothing.\<close>

lemma set_header_same [simp]:
  assumes "base_size \<le> length bs"
  shows "set_committed_ts (b_committed_ts bs) bs = bs" "set_size (b_size bs) bs = bs"
  using assms by (simp_all add: header_defs)

text \<open>Header fields read directly from the segment.\<close>

definition m_committed_ts :: "mem \<Rightarrow> int \<Rightarrow> int" where
  "m_committed_ts m p = sdec (ldb m p 8)"

definition m_data_ts :: "mem \<Rightarrow> int \<Rightarrow> int" where
  "m_data_ts m p = sdec (ldb m (p + 12) 8)"

definition m_size :: "mem \<Rightarrow> int \<Rightarrow> int" where
  "m_size m p = sdec (ldb m (p + 20) 4)"

lemma m_fields:
  assumes "base_size \<le> n"
  shows "m_committed_ts m p = b_committed_ts (ldb m p n)"
    and "m_data_ts m p = b_data_ts (ldb m p n)"
    and "m_size m p = b_size (ldb m p n)"
  using assms by (simp_all add: header_defs m_committed_ts_def m_data_ts_def m_size_def)

end
