(* ===== verification/C_Float.thy ===== *)
theory C_Float
  imports Rtdb_Prelude "HOL-Library.Log_Nat"
begin

text \<open>
  The C types \<open>float\<close> and \<open>double\<close> (IEEE binary32 and binary64, round to nearest, ties to
  even) on their finite values: a value is a rational, and every arithmetic operation is
  the exact result rounded to the format by \<open>f32\<close> or \<open>f64\<close>. Subnormals are included;
  infinities and NaN are not, the durations of the database stay far below the overflow
  threshold.
\<close>

type_synonym cfloat = rat

section \<open>Rounding\<close>

text \<open>The binary exponent: the \<open>e\<close> with \<open>2 ^ e \<le> |x| < 2 ^ (e + 1)\<close>.\<close>

definition fexp :: "rat \<Rightarrow> int" where
  "fexp x = (case quotient_of \<bar>x\<bar> of (n, d) \<Rightarrow>
     let e = bitlen n - bitlen d in if 2 powi e \<le> \<bar>x\<bar> then e else e - 1)"

text \<open>Round half to even.\<close>

definition rne :: "rat \<Rightarrow> int" where
  "rne q = (let f = \<lfloor>q\<rfloor>; r = q - of_int f
            in if r < 1/2 then f else if 1/2 < r then f + 1 else if even f then f else f + 1)"

definition ulp_exp :: "nat \<Rightarrow> int \<Rightarrow> rat \<Rightarrow> int" where
  "ulp_exp p emin x = max (fexp x - (int p - 1)) emin"

definition rnd :: "nat \<Rightarrow> int \<Rightarrow> rat \<Rightarrow> rat" where
  "rnd p emin x = (if x = 0 then 0
     else let u = 2 powi (ulp_exp p emin x) in of_int (rne (x / u)) * u)"

definition f32 :: "rat \<Rightarrow> rat" where
  "f32 x = rnd 24 (-149) x"

definition f64 :: "rat \<Rightarrow> rat" where
  "f64 x = rnd 53 (-1074) x"

text \<open>Conversion of a floating value to an integer type: truncation towards zero.\<close>

definition c_trunc :: "rat \<Rightarrow> int" where
  "c_trunc x = (if 0 \<le> x then \<lfloor>x\<rfloor> else \<lceil>x\<rceil>)"

section \<open>Facts\<close>

lemma powi2_pos [simp]: "(0::rat) < 2 powi e"
  by simp

lemma quotient_bounds:
  assumes "0 < x" "quotient_of x = (n, d)"
  shows "0 < n" "0 < d" "x = of_int n / of_int d"
proof -
  show "x = of_int n / of_int d" using assms(2) by (rule quotient_of_div)
  show d: "0 < d" using assms(2) by (rule quotient_of_denom_pos)
  show "0 < n"
  proof (rule ccontr)
    assume "\<not> 0 < n"
    then have "(of_int n :: rat) / of_int d \<le> 0"
      using d by (simp add: divide_nonpos_pos)
    with assms(1) quotient_of_div [OF assms(2)] show False by simp
  qed
qed

lemma bitlen_powi:
  assumes "0 < (n::int)"
  shows "(2::rat) powi (bitlen n - 1) \<le> of_int n" "of_int n < (2::rat) powi (bitlen n)"
proof -
  have b: "2 ^ nat (bitlen n - 1) \<le> n \<and> n < 2 ^ nat (bitlen n)"
    using assms by (rule bitlen_bounds)
  have pos: "0 < bitlen n"
  proof (rule ccontr)
    assume "\<not> 0 < bitlen n"
    with b have "n < 1" by simp
    with assms show False by simp
  qed
  have e1: "(2::rat) powi (bitlen n - 1) = of_int (2 ^ nat (bitlen n - 1))"
    using pos by (simp add: power_int_def)
  have e2: "(2::rat) powi (bitlen n) = of_int (2 ^ nat (bitlen n))"
    using pos by (simp add: power_int_def)
  show "(2::rat) powi (bitlen n - 1) \<le> of_int n"
    unfolding e1 using b by (simp only: of_int_le_iff)
  show "of_int n < (2::rat) powi (bitlen n)"
    unfolding e2 using b by (simp only: of_int_less_iff)
qed

lemma fexp_bounds:
  assumes "x \<noteq> 0"
  shows "2 powi (fexp x) \<le> \<bar>x\<bar>" "\<bar>x\<bar> < 2 powi (fexp x + 1)"
proof -
  obtain n d where q: "quotient_of \<bar>x\<bar> = (n, d)" by fastforce
  have x: "0 < \<bar>x\<bar>" using assms by simp
  note nd = quotient_bounds [OF x q]
  define e where "e = bitlen n - bitlen d"
  have dpos: "(0::rat) < of_int d" and npos: "(0::rat) < of_int n" using nd by simp_all
  have dpow: "of_int d < (2::rat) powi (bitlen d)" "(2::rat) powi (bitlen d - 1) \<le> of_int d"
    using bitlen_powi [OF nd(2)] by simp_all
  have npow: "of_int n < (2::rat) powi (bitlen n)" "(2::rat) powi (bitlen n - 1) \<le> of_int n"
    using bitlen_powi [OF nd(1)] by simp_all
  have up: "\<bar>x\<bar> < 2 powi (e + 1)"
  proof -
    have "of_int n / of_int d < (2::rat) powi (bitlen n) / of_int d"
      using npow dpos by (simp add: divide_strict_right_mono)
    also have "\<dots> \<le> 2 powi (bitlen n) / 2 powi (bitlen d - 1)"
      using dpow dpos by (intro divide_left_mono) simp_all
    also have "\<dots> = 2 powi (e + 1)"
      by (simp add: e_def power_int_diff power_int_add)
    finally show ?thesis using nd by simp
  qed
  have lo: "2 powi (e - 1) \<le> \<bar>x\<bar>"
  proof -
    have "(2::rat) powi (e - 1) = 2 powi (bitlen n - 1) / 2 powi (bitlen d)"
      by (simp add: e_def power_int_diff power_int_add)
    also have "\<dots> \<le> of_int n / 2 powi (bitlen d)"
      using npow by (simp add: divide_right_mono)
    also have "\<dots> \<le> of_int n / of_int d"
      using dpow dpos npos by (intro divide_left_mono) simp_all
    finally show ?thesis using nd by simp
  qed
  have fe: "fexp x = (if 2 powi e \<le> \<bar>x\<bar> then e else e - 1)"
    by (simp add: fexp_def q e_def Let_def)
  show "2 powi (fexp x) \<le> \<bar>x\<bar>" using lo fe by simp
  show "\<bar>x\<bar> < 2 powi (fexp x + 1)" using up fe by auto
qed

lemma rne_int [simp]: "rne (of_int n) = n"
  by (simp add: rne_def)

lemma rne_error: "\<bar>of_int (rne q) - q\<bar> \<le> 1/2"
proof -
  define r where "r = q - of_int \<lfloor>q\<rfloor>"
  have r: "0 \<le> r" "r < 1" unfolding r_def by linarith+
  consider "r < 1/2" | "1/2 < r" | "r = 1/2" by linarith
  then show ?thesis
  proof cases
    case 1
    then have "rne q = \<lfloor>q\<rfloor>" by (simp add: rne_def r_def Let_def)
    with 1 r show ?thesis by (simp add: r_def)
  next
    case 2
    then have "rne q = \<lfloor>q\<rfloor> + 1" by (simp add: rne_def r_def Let_def)
    with 2 r show ?thesis unfolding r_def by (simp add: abs_le_iff)
  next
    case 3
    define F where "F = \<lfloor>q\<rfloor>"
    from 3 have "rne q = F \<or> rne q = F + 1" by (simp add: rne_def r_def Let_def F_def)
    moreover have qF: "q = of_int F + 1/2" using 3 by (simp add: r_def F_def)
    have "\<bar>of_int F - q\<bar> = 1/2" "\<bar>of_int (F + 1) - q\<bar> = 1/2"
      by (simp_all add: qF)
    ultimately show ?thesis by fastforce
  qed
qed

lemma rne_ge_int: "of_int a \<le> q \<Longrightarrow> a \<le> rne q"
proof -
  assume "of_int a \<le> q"
  then have "a \<le> \<lfloor>q\<rfloor>" by (simp add: le_floor_iff)
  moreover have "\<lfloor>q\<rfloor> \<le> rne q" by (simp add: rne_def Let_def)
  ultimately show ?thesis by simp
qed

lemma rnd_0 [simp]: "rnd p emin 0 = 0"
  by (simp add: rnd_def)

lemma rnd_error: "\<bar>rnd p emin x - x\<bar> \<le> 2 powi (ulp_exp p emin x) / 2"
proof (cases "x = 0")
  case True then show ?thesis by simp
next
  case False
  define u where "u = (2::rat) powi (ulp_exp p emin x)"
  have u: "0 < u" by (simp add: u_def)
  have "rnd p emin x - x = (of_int (rne (x / u)) - x / u) * u"
    using False u by (simp add: rnd_def u_def [symmetric] left_diff_distrib)
  then have "\<bar>rnd p emin x - x\<bar> = \<bar>of_int (rne (x / u)) - x / u\<bar> * u"
    using u by (simp add: abs_mult)
  also have "\<dots> \<le> 1/2 * u"
    using rne_error [of "x / u"] u by (intro mult_right_mono) simp_all
  finally show ?thesis by (simp add: u_def)
qed

lemma rnd_nonneg: "0 \<le> x \<Longrightarrow> 0 \<le> rnd p emin x"
proof -
  assume x: "0 \<le> x"
  define u where "u = (2::rat) powi (ulp_exp p emin x)"
  have "0 \<le> rne (x / u)" using x by (intro rne_ge_int) (simp add: u_def)
  then show ?thesis by (simp add: rnd_def Let_def u_def)
qed

text \<open>Rounding keeps a power of two below the value below it.\<close>

lemma rnd_ge_powi:
  assumes "2 powi k \<le> x" "emin \<le> k" "0 < p"
  shows "2 powi k \<le> rnd p emin x"
proof -
  have x: "0 < x" using assms(1) powi2_pos [of k] by linarith
  then have nz: "x \<noteq> 0" by simp
  have "(2::rat) powi k < 2 powi (fexp x + 1)"
    using fexp_bounds(2) [OF nz] assms(1) x by simp
  have kf: "k \<le> fexp x"
  proof (rule ccontr)
    assume "\<not> k \<le> fexp x"
    then have "(2::rat) powi (fexp x + 1) \<le> 2 powi k" by (intro power_int_increasing) simp_all
    with \<open>2 powi k < 2 powi (fexp x + 1)\<close> show False by simp
  qed
  define e where "e = ulp_exp p emin x"
  have efx: "e \<le> fexp x" using assms(2,3) kf by (simp add: e_def ulp_exp_def)
  define m where "m = (2::int) ^ nat (fexp x - e)"
  have m: "of_int m * (2::rat) powi e = 2 powi (fexp x)"
  proof -
    have "of_int m = (2::rat) powi (fexp x - e)"
      using efx by (simp add: m_def power_int_def)
    then show ?thesis by (simp add: power_int_diff)
  qed
  have "of_int m \<le> x / 2 powi e"
    using fexp_bounds(1) [OF nz] x m by (simp add: pos_le_divide_eq)
  then have "m \<le> rne (x / 2 powi e)" by (rule rne_ge_int)
  then have "of_int m * (2::rat) powi e \<le> of_int (rne (x / 2 powi e)) * 2 powi e"
    by (intro mult_right_mono) simp_all
  moreover have "rnd p emin x = of_int (rne (x / 2 powi e)) * 2 powi e"
    using nz by (simp add: rnd_def e_def Let_def)
  ultimately have "2 powi (fexp x) \<le> rnd p emin x" by (simp only: m)
  moreover have "(2::rat) powi k \<le> 2 powi (fexp x)"
    using kf by (intro power_int_increasing) simp_all
  ultimately show ?thesis by linarith
qed

lemma rnd_ge_1: "1 \<le> x \<Longrightarrow> emin \<le> 0 \<Longrightarrow> 0 < p \<Longrightarrow> 1 \<le> rnd p emin x"
  using rnd_ge_powi [of 0 x emin p] by simp

text \<open>Rounding is monotone.\<close>

lemma rne_le_int: "q \<le> of_int a \<Longrightarrow> rne q \<le> a"
proof -
  assume q: "q \<le> of_int a"
  then have f: "\<lfloor>q\<rfloor> \<le> a" by linarith
  show ?thesis
  proof (cases "\<lfloor>q\<rfloor> = a")
    case True
    then have "q = of_int a" using q by linarith
    then show ?thesis by simp
  next
    case False
    with f have "\<lfloor>q\<rfloor> + 1 \<le> a" by simp
    then show ?thesis by (simp add: rne_def Let_def)
  qed
qed

lemma rne_mono: "q \<le> q' \<Longrightarrow> rne q \<le> rne q'"
proof -
  assume le: "q \<le> q'"
  show ?thesis
  proof (cases "\<lfloor>q\<rfloor> = \<lfloor>q'\<rfloor>")
    case True
    then show ?thesis using le by (simp add: rne_def Let_def)
  next
    case False
    then have "\<lfloor>q\<rfloor> + 1 \<le> \<lfloor>q'\<rfloor>" using floor_mono [OF le] by simp
    moreover have "rne q \<le> \<lfloor>q\<rfloor> + 1" "\<lfloor>q'\<rfloor> \<le> rne q'" by (simp_all add: rne_def Let_def)
    ultimately show ?thesis by simp
  qed
qed

lemma fexp_mono: "0 < x \<Longrightarrow> x \<le> y \<Longrightarrow> fexp x \<le> fexp y"
proof -
  assume x: "0 < x" "x \<le> y"
  then have "(2::rat) powi fexp x \<le> y" "y < 2 powi (fexp y + 1)"
    using fexp_bounds [of x] fexp_bounds [of y] by auto
  then have lt: "(2::rat) powi fexp x < 2 powi (fexp y + 1)" by linarith
  show ?thesis
  proof (rule ccontr)
    assume "\<not> ?thesis"
    then have "(2::rat) powi (fexp y + 1) \<le> 2 powi fexp x" by (intro power_int_increasing) simp_all
    with lt show False by simp
  qed
qed

lemma rnd_mono:
  assumes "0 \<le> x" "x \<le> y" "0 < p"
  shows "rnd p emin x \<le> rnd p emin y"
proof (cases "x = 0")
  case True then show ?thesis using rnd_nonneg assms by simp
next
  case False
  then have x: "0 < x" "0 < y" using assms by simp_all
  note f = fexp_mono [OF x(1) assms(2)]
  let ?e = "ulp_exp p emin x" and ?e' = "ulp_exp p emin y"
  have r: "rnd p emin x = of_int (rne (x / 2 powi ?e)) * 2 powi ?e" "rnd p emin y = of_int (rne (y / 2 powi ?e')) * 2 powi ?e'"
    using x by (simp_all add: rnd_def Let_def)
  show ?thesis
  proof (cases "?e = ?e'")
    case True
    have "rne (x / 2 powi ?e) \<le> rne (y / 2 powi ?e)" by (rule rne_mono) (simp add: divide_right_mono assms(2))
    then show ?thesis unfolding r True by (simp add: mult_right_mono)
  next
    case False
    with f have k: "?e < fexp y" "emin \<le> fexp y" "fexp x + 1 \<le> fexp y" using assms(3) by (auto simp: ulp_exp_def max_def split: if_splits)
    have "(2::rat) powi fexp y \<le> y" using fexp_bounds(1) [of y] x by simp
    from rnd_ge_powi [OF this k(2) assms(3)] have ge: "2 powi fexp y \<le> rnd p emin y" .
    have "x < 2 powi (fexp x + 1)" using fexp_bounds(2) [of x] x by simp
    also have "(2::rat) powi (fexp x + 1) \<le> 2 powi fexp y" using k(3) by (intro power_int_increasing) simp_all
    finally have lt: "x < 2 powi fexp y" .
    define m where "m = (2::int) ^ nat (fexp y - ?e)"
    have m: "of_int m * (2::rat) powi ?e = 2 powi fexp y"
    proof -
      have "of_int m = (2::rat) powi (fexp y - ?e)" using k(1) by (simp add: m_def power_int_def)
      then show ?thesis by (simp add: power_int_diff)
    qed
    then have "x / 2 powi ?e \<le> of_int m" using lt by (simp add: pos_divide_le_eq)
    then have "rne (x / 2 powi ?e) \<le> m" by (rule rne_le_int)
    then have "of_int (rne (x / 2 powi ?e)) * 2 powi ?e \<le> of_int m * (2::rat) powi ?e" by (intro mult_right_mono) simp_all
    then show ?thesis using ge unfolding r(1) m by linarith
  qed
qed

lemma f64_mono: "0 \<le> x \<Longrightarrow> x \<le> y \<Longrightarrow> f64 x \<le> f64 y"
  by (simp add: f64_def rnd_mono)

lemma f32_mono: "0 \<le> x \<Longrightarrow> x \<le> y \<Longrightarrow> f32 x \<le> f32 y"
  by (simp add: f32_def rnd_mono)

text \<open>Integers below \<open>2 ^ p\<close> are representable.\<close>

lemma rnd_int:
  assumes n: "\<bar>n\<bar> < 2 ^ p" and emin: "emin \<le> 0"
  shows "rnd p emin (of_int n) = of_int n"
proof (cases "n = 0")
  case True then show ?thesis by simp
next
  case False
  define x where "x = (of_int n :: rat)"
  define e where "e = ulp_exp p emin x"
  have nz: "x \<noteq> 0" using False by (simp add: x_def)
  have "(2::rat) powi (fexp x) \<le> \<bar>x\<bar>" using fexp_bounds(1) [OF nz] .
  also have "\<bar>x\<bar> < 2 powi (int p)"
  proof -
    have "\<bar>x\<bar> = of_int \<bar>n\<bar>" by (simp add: x_def)
    also have "\<dots> < of_int (2 ^ p)" using n by (simp only: of_int_less_iff)
    finally show ?thesis by simp
  qed
  finally have "fexp x < int p"
    by (metis linorder_not_less power_int_increasing one_le_numeral)
  then have e0: "e \<le> 0" using emin by (simp add: e_def ulp_exp_def)
  have "x / 2 powi e = of_int (n * 2 ^ nat (- e))"
    using e0 by (simp add: x_def power_int_def field_simps)
  then have "of_int (rne (x / 2 powi e)) = x / 2 powi e" by (metis rne_int)
  then show ?thesis
    using nz by (simp add: rnd_def e_def [symmetric] x_def [symmetric] Let_def)
qed

lemma f32_nonneg [simp]: "0 \<le> x \<Longrightarrow> 0 \<le> f32 x"
  by (simp add: f32_def rnd_nonneg)

lemma f32_0 [simp]: "f32 0 = 0"
  by (simp add: f32_def)

lemma f64_0 [simp]: "f64 0 = 0"
  by (simp add: f64_def)

lemma f64_nonneg [simp]: "0 \<le> x \<Longrightarrow> 0 \<le> f64 x"
  by (simp add: f64_def rnd_nonneg)

lemma f32_ge_1 [simp]: "1 \<le> x \<Longrightarrow> 1 \<le> f32 x"
  by (simp add: f32_def rnd_ge_1)

lemma f64_int [simp]: "\<bar>n\<bar> < 2 ^ 53 \<Longrightarrow> f64 (of_int n) = of_int n"
  by (simp add: f64_def rnd_int)

text \<open>The error of one \<open>double\<close> operation with a result below \<open>2 ^ k\<close>.\<close>

lemma f64_error:
  assumes "\<bar>x\<bar> < 2 powi k" "-1000 \<le> k"
  shows "\<bar>f64 x - x\<bar> \<le> 2 powi (k - 54)"
proof (cases "x = 0")
  case True then show ?thesis by simp
next
  case False
  have "(2::rat) powi (fexp x) < 2 powi k"
    using fexp_bounds(1) [OF False] assms(1) by linarith
  then have "fexp x < k"
    by (metis linorder_not_less power_int_increasing one_le_numeral)
  then have "ulp_exp 53 (-1074) x \<le> k - 53"
    using assms(2) by (simp add: ulp_exp_def)
  then have "(2::rat) powi (ulp_exp 53 (-1074) x) \<le> 2 powi (k - 53)"
    by (intro power_int_increasing) simp_all
  then have "(2::rat) powi (ulp_exp 53 (-1074) x) / 2 \<le> 2 powi (k - 54)"
    by (simp add: power_int_diff)
  with rnd_error [of 53 "-1074" x] show ?thesis by (simp add: f64_def)
qed

lemma c_trunc_error: "\<bar>of_int (c_trunc x) - x\<bar> < 1"
  unfolding c_trunc_def by (cases "0 \<le> x"; simp; linarith)

lemma c_trunc_int [simp]: "c_trunc (of_int n) = n"
  by (simp add: c_trunc_def)

lemma c_trunc_ge_1: "1 \<le> x \<Longrightarrow> 1 \<le> c_trunc x"
  by (simp add: c_trunc_def le_floor_iff)

end
