(* ===== verification/Kogmo_Time.thy ===== *)
theory Kogmo_Time
  imports C_Float
begin

text \<open>
  Timestamps (\<open>rtdb/kogmo_time.c\<close>, \<open>include/kogmo_time.h\<close>): signed 64-bit nanoseconds
  since 1970. The clock is read through \<open>clock_gettime\<close>; a reading is \<open>None\<close> when the call
  fails, otherwise \<open>(tv_sec, tv_nsec)\<close>.
\<close>

type_synonym timestamp = int
type_synonym clock_reading = "(int \<times> int) option"

definition TICKSPERSECOND :: int where
  "TICKSPERSECOND = 1000000000"

definition NANOSECONDSPERTICK :: int where
  "NANOSECONDSPERTICK = 1000000000 div TICKSPERSECOND"

definition kogmo_timestamp_now :: "clock_reading \<Rightarrow> timestamp" where
  "kogmo_timestamp_now r = (case r of None \<Rightarrow> 0
     | Some (tv_sec, tv_nsec) \<Rightarrow>
         int64 (tv_sec * TICKSPERSECOND + c_div tv_nsec NANOSECONDSPERTICK))"

definition kogmo_timestamp_diff_ns :: "timestamp \<Rightarrow> timestamp \<Rightarrow> int" where
  "kogmo_timestamp_diff_ns ts_begin ts_end = int64 ((ts_end - ts_begin) * NANOSECONDSPERTICK)"

text \<open>A \<open>double\<close>: the difference is converted, then divided.\<close>

definition kogmo_timestamp_diff_secs :: "timestamp \<Rightarrow> timestamp \<Rightarrow> cfloat" where
  "kogmo_timestamp_diff_secs ts_begin ts_end =
     f64 (f64 (of_int (int64 (ts_end - ts_begin))) / of_int TICKSPERSECOND)"

definition kogmo_timestamp_add_ns :: "timestamp \<Rightarrow> int \<Rightarrow> timestamp" where
  "kogmo_timestamp_add_ns ts ns = int64 (ts + c_div ns NANOSECONDSPERTICK)"

text \<open>
  \<open>ts + secs * TICKSPERSECOND\<close> is evaluated in \<open>double\<close>: the timestamp itself is rounded
  to 53 bits before the sum, and the sum is truncated back to 64 bits.
\<close>

definition kogmo_timestamp_add_secs :: "timestamp \<Rightarrow> cfloat \<Rightarrow> timestamp" where
  "kogmo_timestamp_add_secs ts secs =
     int64 (c_trunc (f64 (f64 (of_int ts) + f64 (secs * of_int TICKSPERSECOND))))"

lemmas time_defs = TICKSPERSECOND_def NANOSECONDSPERTICK_def

lemma nanosecondspertick [simp]: "NANOSECONDSPERTICK = 1"
  by (simp add: time_defs)

lemma in_int64_now [simp, cint]: "in_int64 (kogmo_timestamp_now r)"
  by (auto simp: kogmo_timestamp_now_def in_int64_def[of 0] split: option.splits prod.splits)

lemma diff_ns_add_ns:
  assumes "in_int64 ts" "in_int64 ns" "in_int64 (ts + ns)"
  shows "kogmo_timestamp_diff_ns ts (kogmo_timestamp_add_ns ts ns) = ns"
proof -
  have "c_div ns 1 = ns" by (simp add: c_div_def mult_sgn_abs)
  with assms show ?thesis
    by (simp add: kogmo_timestamp_diff_ns_def kogmo_timestamp_add_ns_def)
qed

text \<open>
  The precision of \<open>kogmo_timestamp_add_secs\<close>: for timestamps up to 2043 and offsets up to
  thirty years the result is within 512 ns of the exact sum, and no better in general.
\<close>

lemma add_secs_error:
  assumes ts: "0 \<le> ts" "ts < 2 ^ 61" and s: "0 \<le> secs" "secs < 1000000000"
  shows "\<bar>of_int (kogmo_timestamp_add_secs ts secs)
           - (of_int ts + secs * of_int TICKSPERSECOND)\<bar> < (512::rat)"
proof -
  define a where "a = f64 (of_int ts)"
  define b where "b = f64 (secs * of_int TICKSPERSECOND)"
  have tsr: "\<bar>of_int ts :: rat\<bar> < 2 powi 61"
  proof -
    have "(of_int ts :: rat) < of_int (2 ^ 61)" using ts(2) by (simp only: of_int_less_iff)
    then show ?thesis using ts(1) by simp
  qed
  have sr: "\<bar>secs * of_int TICKSPERSECOND\<bar> < 2 powi 60"
    using s by (simp add: TICKSPERSECOND_def)
  have ea: "\<bar>a - of_int ts\<bar> \<le> 2 powi 7"
    using f64_error [OF tsr] by (simp add: a_def)
  have eb: "\<bar>b - secs * of_int TICKSPERSECOND\<bar> \<le> 2 powi 6"
    using f64_error [OF sr] by (simp add: b_def)
  have tsr': "(of_int ts :: rat) < 2 ^ 61" using tsr by simp
  have sr': "secs * of_int TICKSPERSECOND < 2 ^ 60" using sr by (simp add: abs_less_iff)
  have a0: "0 \<le> a" "a \<le> 2 ^ 61 + 128"
    using ea tsr' ts(1) by (simp_all add: a_def abs_le_iff)
  have b0: "0 \<le> b" "b \<le> 2 ^ 60 + 64"
    using eb sr' s by (simp_all add: b_def abs_le_iff TICKSPERSECOND_def)
  have ab: "\<bar>a + b\<bar> < 2 powi 62" using a0 b0 by simp
  have ec: "\<bar>f64 (a + b) - (a + b)\<bar> \<le> 2 powi 8"
    using f64_error [OF ab] by simp
  define t where "t = c_trunc (f64 (a + b))"
  have et: "\<bar>of_int t - f64 (a + b)\<bar> < 1" by (simp add: t_def c_trunc_error)
  have c0: "0 \<le> f64 (a + b)" using a0 b0 by simp
  then have t0: "0 \<le> t" by (simp add: t_def c_trunc_def)
  have "(of_int t :: rat) < 2 ^ 62 + 2 ^ 8 + 1"
    using et ec ab by (simp add: abs_less_iff abs_le_iff)
  then have "(of_int t :: rat) < of_int (2 ^ 62 + 2 ^ 8 + 1)" by simp
  then have "t < 2 ^ 62 + 2 ^ 8 + 1" by (simp only: of_int_less_iff)
  then have "kogmo_timestamp_add_secs ts secs = t"
    using t0 unfolding kogmo_timestamp_add_secs_def a_def [symmetric] b_def [symmetric]
      t_def [symmetric]
    by (intro int64_id) (simp add: in_int64_def)
  moreover have "\<bar>of_int t - (of_int ts + secs * of_int TICKSPERSECOND)\<bar> < (512::rat)"
    using ea eb ec et by (simp add: abs_less_iff abs_le_iff)
  ultimately show ?thesis by simp
qed

end
