(* ===== verification/Rtdb_Types.thy ===== *)
theory Rtdb_Types
  imports C_Memory Kogmo_Time
begin

text \<open>
  The data of the database: object metadata (\<open>include/kogmo_rtdb_types.h\<close>), the shared
  segment (\<open>rtdb/kogmo_rtdb_obj_local.h\<close>), the process-local handle, the trace messages
  (\<open>rtdb/kogmo_rtdb_trace.c\<close>) and the lock and notification calls
  (\<open>rtdb/kogmo_rtdb_proc_obj_notify.h\<close>), which the model records in a log, newest first.
  \<open>KOGMO_RTDB_OBJ_MAX\<close>, a compile-time setting, is the length of the metadata table.
\<close>

section \<open>Object metadata\<close>

record obj_flags =
  read_deny :: bool
  write_allow :: bool
  keep_alloc :: bool
  unique :: bool
  cycle_watch :: bool
  persistent :: bool
  parent_delete :: bool
  no_notifies :: bool
  immediately_delete :: bool
  withhold_stale :: bool

definition NAME_MAXLEN :: nat where
  "NAME_MAXLEN = 32"

definition OBJIDLIST_MAX :: nat where
  "OBJIDLIST_MAX = 1000"

record obj_info =
  oid :: int
  name :: "char list"
  created_ts :: timestamp
  created_proc :: int
  lastmodified_ts :: timestamp
  lastmodified_proc :: int
  deleted_ts :: timestamp
  deleted_proc :: int
  parent_oid :: int
  otype :: int
  size_max :: int
  history_interval :: cfloat
  min_cycletime :: cfloat
  max_cycletime :: cfloat
  flags :: obj_flags
  history_size :: int
  history_slot :: int
  buffer_idx :: int

definition no_flags :: obj_flags where
  "no_flags = \<lparr>read_deny = False, write_allow = False, keep_alloc = False, unique = False,
     cycle_watch = False, persistent = False, parent_delete = False, no_notifies = False,
     immediately_delete = False, withhold_stale = False\<rparr>"

text \<open>\<open>memset(..,0,sizeof(kogmo_rtdb_obj_info_t))\<close>\<close>

definition zero_info :: obj_info where
  "zero_info = \<lparr>oid = 0, name = replicate NAME_MAXLEN NUL, created_ts = 0, created_proc = 0,
     lastmodified_ts = 0, lastmodified_proc = 0, deleted_ts = 0, deleted_proc = 0,
     parent_oid = 0, otype = 0, size_max = 0, history_interval = 0, min_cycletime = 0,
     max_cycletime = 0, flags = no_flags, history_size = 0, history_slot = 0, buffer_idx = 0\<rparr>"

text \<open>\<open>kogmo_rtdb_obj_slot_t\<close>: a reader's position in an object's history.\<close>

record obj_slot =
  s_oid :: int
  s_committed_ts :: timestamp
  s_object_slot :: int
  s_history_slot :: int

definition MIN_CYCLETIME :: "cfloat \<Rightarrow> cfloat \<Rightarrow> cfloat" where
  "MIN_CYCLETIME mn mx = (if mn < mx then mn else mx)"

definition MAX_CYCLETIME :: "cfloat \<Rightarrow> cfloat \<Rightarrow> cfloat" where
  "MAX_CYCLETIME mn mx = (if mn < mx then mx else mn)"

text \<open>
  The conversion of a \<open>float\<close> to \<open>int\<close>; out of range it is undefined in C and gives
  \<open>INT_MIN\<close> on x86.
\<close>

definition float_to_int :: "cfloat \<Rightarrow> int" where
  "float_to_int x = (let t = c_trunc x in if in_int32 t then t else - (2 ^ 31))"

definition UNSIGNED_CEIL :: "cfloat \<Rightarrow> int" where
  "UNSIGNED_CEIL x = (if f32 (x - f32 (of_int (float_to_int x))) > 0
     then float_to_int (f32 (x + 1)) else float_to_int x)"

section \<open>Locks, notifications and trace messages\<close>

datatype lock = Objmeta_lock | Heap_lock | Obj_lock nat | Changenotify_lock nat | Proc_lock

datatype trace_event = TRACE_INSERTED | TRACE_DELETED | TRACE_UPDATED | TRACE_CHANGED

text \<open>
  \<open>tm_obj_slot\<close> is \<open>None\<close> where the code computes the slot number of a pointer that does not
  point into the metadata table.
\<close>

record trace_msg =
  tm_oid :: int
  tm_ts :: timestamp
  tm_event :: trace_event
  tm_obj_slot :: "int option"
  tm_hist_slot :: int

text \<open>
  \<open>Wait\<close> is a wait on the condition variable that goes with the lock; it gives the lock back and
  takes it again. \<open>Kill\<close> is a signal sent to a process.
\<close>

datatype ipc_call = Lock lock | Unlock lock | Wait lock | Signal_objmeta | Signal_obj nat
  | Mq_send trace_msg | Kill int int

section \<open>The shared segment\<close>

record rtdb =
  objmeta_oid_next :: int
  objmeta :: "obj_info list"
  objmeta_free :: int
  rtdb_trace :: int
  rtdb_tracebufsize :: int
  simmode :: bool
  db_no_notifies :: bool
  sim_ts :: timestamp
  default_history_interval :: cfloat
  default_max_cycletime :: cfloat
  default_keep_deleted_interval :: cfloat
  heap_size :: int
  heap_free :: int
  heap_used :: int
  heap :: mem
  clock :: "nat \<Rightarrow> clock_reading"
  ticks :: nat
  ipc_log :: "ipc_call list"

text \<open>
  \<open>clock\<close> is the environment: what the successive calls of \<open>clock_gettime\<close> return;
  \<open>ticks\<close> counts the calls made so far.
\<close>

definition emit :: "ipc_call \<Rightarrow> rtdb \<Rightarrow> rtdb" where
  "emit c db = db\<lparr>ipc_log := c # ipc_log db\<rparr>"

definition upd_meta :: "nat \<Rightarrow> obj_info \<Rightarrow> rtdb \<Rightarrow> rtdb" where
  "upd_meta i m db = db\<lparr>objmeta := (objmeta db)[i := m]\<rparr>"

section \<open>The handle\<close>

text \<open>
  The dynamic storage allocator chosen at compile time (\<open>RTMALLOC_suba\<close>, \<open>RTMALLOC_tlsf\<close>
  or the built-in static one); the accounting flag says whether a release is booked.
\<close>

record dsa =
  dsa_alloc :: "int \<Rightarrow> rtdb \<Rightarrow> int option \<times> rtdb"
  dsa_release :: "int \<Rightarrow> rtdb \<Rightarrow> rtdb"
  dsa_accounts :: bool

text \<open>
  The process-local part of a connection that the operations read. \<open>h_stack\<close> is what an
  uninitialised local \<open>kogmo_rtdb_objid_list_t\<close> array holds. \<open>h_regcomp\<close> is
  \<open>regcomp\<close>/\<open>regexec\<close> of the C library; \<open>h_nameremap\<close>, \<open>h_minhist\<close> and \<open>h_maxhist\<close> are the
  values of the environment variables \<open>KOGMO_RTDB_NAMEREMAP\<close>, \<open>KOGMO_RTDB_MINHIST\<close> and
  \<open>KOGMO_RTDB_MAXHIST\<close> (the latter two after \<open>strtof\<close> and \<open>strtol\<close>).
\<close>

record handle =
  h_dsa :: dsa
  h_proc_oid :: int
  h_flags :: "32 word"
  h_procobj_cycletime :: cfloat
  h_debug :: int
  h_regcomp :: "char list \<Rightarrow> (char list \<Rightarrow> bool) option"
  h_stack :: "int list"
  h_nameremap :: "char list option"
  h_minhist :: "(cfloat \<times> int) option"
  h_maxhist :: "(cfloat \<times> int) option"

definition FLAG_MANAGER :: "32 word" where
  "FLAG_MANAGER = 0x1000"

definition FLAG_ADMIN :: "32 word" where
  "FLAG_ADMIN = 0x2000"

definition FLAG_SPECTATOR :: "32 word" where
  "FLAG_SPECTATOR = 0x0002"

definition FLAG_SIMULATION :: "32 word" where
  "FLAG_SIMULATION = 0x4000"

definition FLAG_DO_POLLING :: "32 word" where
  "FLAG_DO_POLLING = 0x8000"

definition FLAG_NOHANDLERS :: "32 word" where
  "FLAG_NOHANDLERS = 0x0001"

definition FLAG_TRYNOWAIT :: "32 word" where
  "FLAG_TRYNOWAIT = 0x0004"

definition FLAG_LIVEONERR :: "32 word" where
  "FLAG_LIVEONERR = 0x0010"

definition FLAG_REALTIME :: "32 word" where
  "FLAG_REALTIME = 0x0100"

definition has_flag :: "32 word \<Rightarrow> 32 word \<Rightarrow> bool" where
  "has_flag w f \<longleftrightarrow> and w f \<noteq> 0"

definition FLAG_IMMEDIATELYDELETE :: "32 word" where
  "FLAG_IMMEDIATELYDELETE = 0x20"

definition this_process_is_manager :: "handle \<Rightarrow> bool" where
  "this_process_is_manager h \<longleftrightarrow> and (h_flags h) FLAG_MANAGER \<noteq> 0"

definition this_process_is_admin :: "handle \<Rightarrow> bool" where
  "this_process_is_admin h \<longleftrightarrow> and (h_flags h) (or FLAG_MANAGER FLAG_ADMIN) \<noteq> 0"

section \<open>Time of the database\<close>

definition kogmo_rtdb_timestamp_now :: "rtdb \<Rightarrow> timestamp \<times> rtdb" where
  "kogmo_rtdb_timestamp_now db =
     (if simmode db \<and> sim_ts db \<noteq> 0 then (sim_ts db, db)
      else (kogmo_timestamp_now (clock db (ticks db)), db\<lparr>ticks := Suc (ticks db)\<rparr>))"

definition kogmo_rtdb_timestamp_set :: "timestamp \<Rightarrow> rtdb \<Rightarrow> (rtdb_error + int) \<times> rtdb" where
  "kogmo_rtdb_timestamp_set new_ts db =
     (let db' = db\<lparr>sim_ts := new_ts\<rparr>
      in (if \<not> simmode db' then Inl ERR_NOPERM else Inr 0, db'))"

section \<open>Finding an object\<close>

definition kogmo_rtdb_obj_findmeta_byid :: "int \<Rightarrow> rtdb \<Rightarrow> nat option" where
  "kogmo_rtdb_obj_findmeta_byid i db = scan_first (\<lambda>m. oid m = i) (objmeta db)"

section \<open>Locking and notification primitives\<close>

definition kogmo_rtdb_objmeta_lock :: "rtdb \<Rightarrow> rtdb" where
  "kogmo_rtdb_objmeta_lock = emit (Lock Objmeta_lock)"

definition kogmo_rtdb_objmeta_unlock :: "rtdb \<Rightarrow> rtdb" where
  "kogmo_rtdb_objmeta_unlock = emit (Unlock Objmeta_lock)"

definition kogmo_rtdb_objmeta_unlock_notify :: "rtdb \<Rightarrow> rtdb" where
  "kogmo_rtdb_objmeta_unlock_notify db = emit (Unlock Objmeta_lock) (emit Signal_objmeta db)"

definition kogmo_rtdb_obj_lock :: "nat \<Rightarrow> rtdb \<Rightarrow> rtdb" where
  "kogmo_rtdb_obj_lock i = emit (Lock (Obj_lock i))"

definition kogmo_rtdb_obj_unlock :: "nat \<Rightarrow> rtdb \<Rightarrow> rtdb" where
  "kogmo_rtdb_obj_unlock i = emit (Unlock (Obj_lock i))"

definition kogmo_rtdb_obj_do_notify_prepare :: "nat \<Rightarrow> rtdb \<Rightarrow> rtdb" where
  "kogmo_rtdb_obj_do_notify_prepare i = emit (Lock (Changenotify_lock i))"

definition kogmo_rtdb_obj_do_notify :: "nat \<Rightarrow> rtdb \<Rightarrow> rtdb" where
  "kogmo_rtdb_obj_do_notify i db = emit (Unlock (Changenotify_lock i)) (emit (Signal_obj i) db)"

definition kogmo_rtdb_obj_trace_send ::
    "int \<Rightarrow> timestamp \<Rightarrow> trace_event \<Rightarrow> int option \<Rightarrow> int \<Rightarrow> rtdb \<Rightarrow> rtdb" where
  "kogmo_rtdb_obj_trace_send i ts event obj_slot hist_slot db =
     (if rtdb_tracebufsize db = 0 \<or> rtdb_trace db = 0 then db
      else emit (Mq_send \<lparr>tm_oid = i, tm_ts = ts, tm_event = event,
                           tm_obj_slot = obj_slot, tm_hist_slot = hist_slot\<rparr>) db)"

lemmas ipc_defs = kogmo_rtdb_objmeta_lock_def kogmo_rtdb_objmeta_unlock_def
  kogmo_rtdb_objmeta_unlock_notify_def kogmo_rtdb_obj_lock_def kogmo_rtdb_obj_unlock_def
  kogmo_rtdb_obj_do_notify_prepare_def kogmo_rtdb_obj_do_notify_def

section \<open>Lock discipline\<close>

text \<open>
  The locks a process holds after a sequence of calls (oldest first): \<open>None\<close> when it takes a
  lock it already holds or releases one it does not hold.
\<close>

fun run_locks :: "lock set \<Rightarrow> ipc_call list \<Rightarrow> lock set option" where
  "run_locks L [] = Some L"
| "run_locks L (Lock l # cs) = (if l \<in> L then None else run_locks (insert l L) cs)"
| "run_locks L (Unlock l # cs) = (if l \<in> L then run_locks (L - {l}) cs else None)"
| "run_locks L (Wait l # cs) = (if l \<in> L then run_locks L cs else None)"
| "run_locks L (_ # cs) = run_locks L cs"

lemma run_locks_append:
  "run_locks L (xs @ ys) = (case run_locks L xs of None \<Rightarrow> None | Some L' \<Rightarrow> run_locks L' ys)"
  by (induction L xs rule: run_locks.induct) auto

text \<open>
  \<open>calls_between db db'\<close> are the calls made on the way from \<open>db\<close> to \<open>db'\<close>;
  \<open>locks_after L db db'\<close> the locks held at the end when \<open>L\<close> was held at the start.
\<close>

definition calls_between :: "rtdb \<Rightarrow> rtdb \<Rightarrow> ipc_call list" where
  "calls_between db db' = rev (take (length (ipc_log db') - length (ipc_log db)) (ipc_log db'))"

definition locks_after :: "lock set \<Rightarrow> rtdb \<Rightarrow> rtdb \<Rightarrow> lock set option" where
  "locks_after L db db' = run_locks L (calls_between db db')"

text \<open>\<open>log_ext db db' cs\<close>: exactly the calls \<open>cs\<close> (oldest first) separate the two states.\<close>

definition log_ext :: "rtdb \<Rightarrow> rtdb \<Rightarrow> ipc_call list \<Rightarrow> bool" where
  "log_ext db db' cs \<longleftrightarrow> ipc_log db' = rev cs @ ipc_log db"

lemma log_ext_calls: "log_ext db db' cs \<Longrightarrow> calls_between db db' = cs"
  by (simp add: log_ext_def calls_between_def)

lemma log_ext_refl: "ipc_log db' = ipc_log db \<Longrightarrow> log_ext db db' []"
  by (simp add: log_ext_def)

lemma log_ext_trans: "log_ext a b xs \<Longrightarrow> log_ext b c ys \<Longrightarrow> log_ext a c (xs @ ys)"
  by (simp add: log_ext_def)

text \<open>A step that takes no lock for good: from the held locks \<open>L\<close> back to \<open>L\<close>.\<close>

definition lock_step :: "lock set \<Rightarrow> rtdb \<Rightarrow> rtdb \<Rightarrow> lock set \<Rightarrow> bool" where
  "lock_step L db db' L' \<longleftrightarrow> (\<exists>cs. log_ext db db' cs \<and> run_locks L cs = Some L')"

lemma lock_step_after: "lock_step L db db' L' \<Longrightarrow> locks_after L db db' = Some L'"
  by (auto simp: lock_step_def locks_after_def log_ext_calls)

lemma lock_step_trans [trans]:
  assumes "lock_step L a b L'" "lock_step L' b c L''" shows "lock_step L a c L''"
proof -
  from assms obtain xs ys where "log_ext a b xs" "run_locks L xs = Some L'"
    "log_ext b c ys" "run_locks L' ys = Some L''" by (auto simp: lock_step_def)
  then have "log_ext a c (xs @ ys)" "run_locks L (xs @ ys) = Some L''"
    by (auto intro: log_ext_trans simp: run_locks_append)
  then show ?thesis by (auto simp: lock_step_def)
qed

lemma lock_step_same: "ipc_log db' = ipc_log db \<Longrightarrow> lock_step L db db' L"
  unfolding lock_step_def by (rule exI [of _ "[]"]) (simp add: log_ext_def)

lemma lock_step_emit:
  "run_locks L [c] = Some L' \<Longrightarrow> lock_step L db (emit c db) L'"
  unfolding lock_step_def by (rule exI [of _ "[c]"]) (simp add: log_ext_def emit_def)

lemma lock_step_log: "lock_step L db db' L' \<Longrightarrow> ipc_log db'' = ipc_log db' \<Longrightarrow> lock_step L db db'' L'"
  by (auto simp: lock_step_def log_ext_def)

lemma lock_step_log1: "lock_step L db db' L' \<Longrightarrow> ipc_log db0 = ipc_log db \<Longrightarrow> lock_step L db0 db' L'"
  by (auto simp: lock_step_def log_ext_def)

section \<open>Projections\<close>

lemma emit_simps [simp]:
  "objmeta (emit c db) = objmeta db" "objmeta_free (emit c db) = objmeta_free db"
  "objmeta_oid_next (emit c db) = objmeta_oid_next db" "heap (emit c db) = heap db"
  "heap_free (emit c db) = heap_free db" "heap_used (emit c db) = heap_used db"
  "heap_size (emit c db) = heap_size db" "simmode (emit c db) = simmode db"
  "sim_ts (emit c db) = sim_ts db" "clock (emit c db) = clock db" "ticks (emit c db) = ticks db"
  "rtdb_trace (emit c db) = rtdb_trace db"
  "rtdb_tracebufsize (emit c db) = rtdb_tracebufsize db"
  "db_no_notifies (emit c db) = db_no_notifies db"
  "default_keep_deleted_interval (emit c db) = default_keep_deleted_interval db"
  "default_history_interval (emit c db) = default_history_interval db"
  "default_max_cycletime (emit c db) = default_max_cycletime db"
  "ipc_log (emit c db) = c # ipc_log db"
  by (simp_all add: emit_def)

lemma trace_send_simps [simp]:
  "objmeta (kogmo_rtdb_obj_trace_send i ts ev os hs db) = objmeta db"
  "objmeta_free (kogmo_rtdb_obj_trace_send i ts ev os hs db) = objmeta_free db"
  "objmeta_oid_next (kogmo_rtdb_obj_trace_send i ts ev os hs db) = objmeta_oid_next db"
  "heap (kogmo_rtdb_obj_trace_send i ts ev os hs db) = heap db"
  "heap_free (kogmo_rtdb_obj_trace_send i ts ev os hs db) = heap_free db"
  "heap_used (kogmo_rtdb_obj_trace_send i ts ev os hs db) = heap_used db"
  "heap_size (kogmo_rtdb_obj_trace_send i ts ev os hs db) = heap_size db"
  "simmode (kogmo_rtdb_obj_trace_send i ts ev os hs db) = simmode db"
  "sim_ts (kogmo_rtdb_obj_trace_send i ts ev os hs db) = sim_ts db"
  "clock (kogmo_rtdb_obj_trace_send i ts ev os hs db) = clock db"
  "rtdb_trace (kogmo_rtdb_obj_trace_send i ts ev os hs db) = rtdb_trace db"
  "rtdb_tracebufsize (kogmo_rtdb_obj_trace_send i ts ev os hs db) = rtdb_tracebufsize db"
  "db_no_notifies (kogmo_rtdb_obj_trace_send i ts ev os hs db) = db_no_notifies db"
  "default_keep_deleted_interval (kogmo_rtdb_obj_trace_send i ts ev os hs db) = default_keep_deleted_interval db"
  "default_history_interval (kogmo_rtdb_obj_trace_send i ts ev os hs db) = default_history_interval db"
  "default_max_cycletime (kogmo_rtdb_obj_trace_send i ts ev os hs db) = default_max_cycletime db"
  "ticks (kogmo_rtdb_obj_trace_send i ts ev os hs db) = ticks db"
  by (simp_all add: kogmo_rtdb_obj_trace_send_def)

lemma now_simps [simp]:
  "objmeta (snd (kogmo_rtdb_timestamp_now db)) = objmeta db"
  "objmeta_free (snd (kogmo_rtdb_timestamp_now db)) = objmeta_free db"
  "objmeta_oid_next (snd (kogmo_rtdb_timestamp_now db)) = objmeta_oid_next db"
  "heap (snd (kogmo_rtdb_timestamp_now db)) = heap db"
  "heap_free (snd (kogmo_rtdb_timestamp_now db)) = heap_free db"
  "heap_used (snd (kogmo_rtdb_timestamp_now db)) = heap_used db"
  "heap_size (snd (kogmo_rtdb_timestamp_now db)) = heap_size db"
  "simmode (snd (kogmo_rtdb_timestamp_now db)) = simmode db"
  "sim_ts (snd (kogmo_rtdb_timestamp_now db)) = sim_ts db"
  "clock (snd (kogmo_rtdb_timestamp_now db)) = clock db"
  "rtdb_trace (snd (kogmo_rtdb_timestamp_now db)) = rtdb_trace db"
  "rtdb_tracebufsize (snd (kogmo_rtdb_timestamp_now db)) = rtdb_tracebufsize db"
  "db_no_notifies (snd (kogmo_rtdb_timestamp_now db)) = db_no_notifies db"
  "default_keep_deleted_interval (snd (kogmo_rtdb_timestamp_now db)) = default_keep_deleted_interval db"
  "default_history_interval (snd (kogmo_rtdb_timestamp_now db)) = default_history_interval db"
  "default_max_cycletime (snd (kogmo_rtdb_timestamp_now db)) = default_max_cycletime db"
  "ipc_log (snd (kogmo_rtdb_timestamp_now db)) = ipc_log db"
  by (simp_all add: kogmo_rtdb_timestamp_now_def)

lemma upd_meta_simps [simp]:
  "objmeta (upd_meta k m db) = (objmeta db)[k := m]"
  "objmeta_free (upd_meta k m db) = objmeta_free db"
  "objmeta_oid_next (upd_meta k m db) = objmeta_oid_next db"
  "heap (upd_meta k m db) = heap db"
  "heap_free (upd_meta k m db) = heap_free db"
  "heap_used (upd_meta k m db) = heap_used db"
  "heap_size (upd_meta k m db) = heap_size db"
  "simmode (upd_meta k m db) = simmode db"
  "sim_ts (upd_meta k m db) = sim_ts db"
  "clock (upd_meta k m db) = clock db"
  "rtdb_trace (upd_meta k m db) = rtdb_trace db"
  "rtdb_tracebufsize (upd_meta k m db) = rtdb_tracebufsize db"
  "db_no_notifies (upd_meta k m db) = db_no_notifies db"
  "default_keep_deleted_interval (upd_meta k m db) = default_keep_deleted_interval db"
  "default_history_interval (upd_meta k m db) = default_history_interval db"
  "default_max_cycletime (upd_meta k m db) = default_max_cycletime db"
  "ticks (upd_meta k m db) = ticks db"
  "ipc_log (upd_meta k m db) = ipc_log db"
  by (simp_all add: upd_meta_def)

text \<open>A field of a conditional state.\<close>

lemma if_proj:
  "objmeta (if c then a else b) = (if c then objmeta a else objmeta b)"
  "objmeta_free (if c then a else b) = (if c then objmeta_free a else objmeta_free b)"
  "objmeta_oid_next (if c then a else b) = (if c then objmeta_oid_next a else objmeta_oid_next b)"
  "heap (if c then a else b) = (if c then heap a else heap b)"
  "heap_free (if c then a else b) = (if c then heap_free a else heap_free b)"
  "heap_used (if c then a else b) = (if c then heap_used a else heap_used b)"
  "heap_size (if c then a else b) = (if c then heap_size a else heap_size b)"
  "simmode (if c then a else b) = (if c then simmode a else simmode b)"
  "sim_ts (if c then a else b) = (if c then sim_ts a else sim_ts b)"
  "clock (if c then a else b) = (if c then clock a else clock b)"
  "rtdb_trace (if c then a else b) = (if c then rtdb_trace a else rtdb_trace b)"
  "rtdb_tracebufsize (if c then a else b) = (if c then rtdb_tracebufsize a else rtdb_tracebufsize b)"
  "db_no_notifies (if c then a else b) = (if c then db_no_notifies a else db_no_notifies b)"
  "default_keep_deleted_interval (if c then a else b) = (if c then default_keep_deleted_interval a else default_keep_deleted_interval b)"
  "default_history_interval (if c then a else b) = (if c then default_history_interval a else default_history_interval b)"
  "default_max_cycletime (if c then a else b) = (if c then default_max_cycletime a else default_max_cycletime b)"
  "ticks (if c then a else b) = (if c then ticks a else ticks b)"
  "ipc_log (if c then a else b) = (if c then ipc_log a else ipc_log b)"
  by simp_all

text \<open>The clock does not fail: every time stamp the database takes is non-zero.\<close>

definition clock_ok :: "rtdb \<Rightarrow> bool" where
  "clock_ok db \<longleftrightarrow> (simmode db \<and> sim_ts db \<noteq> 0) \<or> (\<forall>t. kogmo_timestamp_now (clock db t) \<noteq> 0)"

lemma now_nonzero: "clock_ok db \<Longrightarrow> fst (kogmo_rtdb_timestamp_now db) \<noteq> 0"
  by (auto simp: clock_ok_def kogmo_rtdb_timestamp_now_def)

lemma clock_ok_cong:
  "clock db' = clock db \<Longrightarrow> simmode db' = simmode db \<Longrightarrow> sim_ts db' = sim_ts db
    \<Longrightarrow> clock_ok db' = clock_ok db"
  by (simp add: clock_ok_def)

text \<open>Everything but the call log and the number of clock readings.\<close>

definition same_data :: "rtdb \<Rightarrow> rtdb \<Rightarrow> bool" where
  "same_data db db' \<longleftrightarrow> db' = db\<lparr>ipc_log := ipc_log db', ticks := ticks db'\<rparr>"

lemma same_data_refl [simp]: "same_data db db"
  by (simp add: same_data_def)

lemma same_data_trans [trans]: "same_data a b \<Longrightarrow> same_data b c \<Longrightarrow> same_data a c"
  by (cases a, cases b, cases c) (simp add: same_data_def)

lemma same_data_emit [simp]: "same_data db (emit c db)"
  by (simp add: same_data_def emit_def)

end
