(* ===== verification/Rtmalloc.thy ===== *)
theory Rtmalloc
  imports Rtdb_Types
begin

text \<open>
  The data heap of the segment (\<open>rtdb/kogmo_rtdb_rtmalloc.c\<close>): allocation and release of
  object blocks with their bookkeeping, over the storage allocator selected at build time,
  the interface \<open>heap_allocator\<close> the object operations rely on, and the built-in static
  allocator that provides it.
\<close>

section \<open>Operations\<close>

definition kogmo_rtdb_heap_lock :: "rtdb \<Rightarrow> rtdb" where
  "kogmo_rtdb_heap_lock = emit (Lock Heap_lock)"

definition kogmo_rtdb_heap_unlock :: "rtdb \<Rightarrow> rtdb" where
  "kogmo_rtdb_heap_unlock = emit (Unlock Heap_lock)"

text \<open>The result is the index of the block relative to the heap, \<open>-1\<close> on failure.\<close>

definition kogmo_rtdb_obj_mem_alloc :: "handle \<Rightarrow> int \<Rightarrow> rtdb \<Rightarrow> int \<times> rtdb" where
  "kogmo_rtdb_obj_mem_alloc h sz db =
     (if sz \<le> 0 then (- 1, db)
      else
        let db = kogmo_rtdb_heap_lock db;
            (ptr, db) = dsa_alloc (h_dsa h) sz db
        in case ptr of
             None \<Rightarrow> (- 1, kogmo_rtdb_heap_unlock db)
           | Some p \<Rightarrow>
               let db = db\<lparr>heap_free := uint64 (heap_free db - sz),
                           heap_used := uint64 (heap_used db + sz)\<rparr>;
                   db = kogmo_rtdb_heap_unlock db;
                   db = db\<lparr>heap := stb (heap db) p (replicate (nat sz) 0)\<rparr>
               in (int32 p, db))"

definition kogmo_rtdb_obj_mem_free :: "handle \<Rightarrow> int \<Rightarrow> int \<Rightarrow> rtdb \<Rightarrow> rtdb" where
  "kogmo_rtdb_obj_mem_free h idx sz db =
     (let db = kogmo_rtdb_heap_lock db;
          db = dsa_release (h_dsa h) idx db;
          db = (if dsa_accounts (h_dsa h)
                then db\<lparr>heap_free := uint64 (heap_free db + sz),
                        heap_used := uint64 (heap_used db - sz)\<rparr>
                else db)
      in kogmo_rtdb_heap_unlock db)"

text \<open>\<open>dsa_init\<close> is the part of \<open>kogmo_rtdb_obj_mem_init\<close> chosen at build time.\<close>

definition kogmo_rtdb_obj_mem_init :: "(int \<Rightarrow> rtdb \<Rightarrow> int \<times> rtdb) \<Rightarrow> rtdb \<Rightarrow> int \<times> rtdb" where
  "kogmo_rtdb_obj_mem_init dsa_init db =
     (let sz = int32 (heap_size db);
          (free, db) = dsa_init sz db
      in (int32 free, db\<lparr>heap_free := uint64 (int32 free), heap_used := 0\<rparr>))"

subsection \<open>The built-in static allocator\<close>

text \<open>
  The allocator used when neither \<open>RTMALLOC_tlsf\<close> nor \<open>RTMALLOC_suba\<close> is defined: blocks are
  cut off the front of the free part, a release does nothing.
\<close>

definition static_alloc :: "int \<Rightarrow> rtdb \<Rightarrow> int option \<times> rtdb" where
  "static_alloc sz db = (if uint64 sz \<le> heap_free db then Some (heap_used db) else None, db)"

definition static_dsa :: dsa where
  "static_dsa = \<lparr>dsa_alloc = static_alloc, dsa_release = (\<lambda>_ db. db), dsa_accounts = False\<rparr>"

definition static_init :: "int \<Rightarrow> rtdb \<Rightarrow> int \<times> rtdb" where
  "static_init sz db = (sz, db)"

section \<open>What the rest of the database relies on\<close>

text \<open>A block is an index and a length.\<close>

type_synonym block = "int \<times> int"

definition block_bytes :: "block \<Rightarrow> int set" where
  "block_bytes b = {fst b ..< fst b + snd b}"

definition disjoint_blocks :: "block set \<Rightarrow> bool" where
  "disjoint_blocks B \<longleftrightarrow> (\<forall>a \<in> B. \<forall>b \<in> B. a \<noteq> b \<longrightarrow> block_bytes a \<inter> block_bytes b = {})"

text \<open>Everything outside the heap and its bookkeeping, the call log aside.\<close>

definition same_meta :: "rtdb \<Rightarrow> rtdb \<Rightarrow> bool" where
  "same_meta db db' \<longleftrightarrow> db' = db\<lparr>heap_free := heap_free db', heap_used := heap_used db',
      heap := heap db', ipc_log := ipc_log db'\<rparr>"

lemma same_meta_refl [simp]: "same_meta db db"
  by (simp add: same_meta_def)

lemma same_meta_trans [trans]: "same_meta a b \<Longrightarrow> same_meta b c \<Longrightarrow> same_meta a c"
  by (cases a, cases b, cases c) (simp add: same_meta_def)

lemma same_meta_emit [simp]: "same_meta db (emit c db)"
  by (cases db) (simp add: same_meta_def emit_def)

lemma same_metaD:
  assumes "same_meta db db'"
  shows "objmeta db' = objmeta db" "objmeta_free db' = objmeta_free db"
    "objmeta_oid_next db' = objmeta_oid_next db" "ticks db' = ticks db" "clock db' = clock db"
    "simmode db' = simmode db" "sim_ts db' = sim_ts db" "heap_size db' = heap_size db"
    "rtdb_trace db' = rtdb_trace db" "rtdb_tracebufsize db' = rtdb_tracebufsize db"
    "db_no_notifies db' = db_no_notifies db"
    "default_keep_deleted_interval db' = default_keep_deleted_interval db"
    "default_history_interval db' = default_history_interval db"
  using assms by (cases db; cases db'; simp add: same_meta_def)+

text \<open>
  The first half of the contract: an allocator works on the heap only. For the vendored
  allocators (\<open>rtmalloc/suba.c\<close>, \<open>rtmalloc/tlsf.c\<close>) it is the assumption the rest of the
  development makes; it also bounds the index they return.
\<close>

definition dsa_frame_ok :: "dsa \<Rightarrow> bool" where
  "dsa_frame_ok d \<longleftrightarrow>
     (\<forall>n db. same_meta db (snd (dsa_alloc d n db)) \<and> ipc_log (snd (dsa_alloc d n db)) = ipc_log db)
     \<and> (\<forall>p db. same_meta db (dsa_release d p db) \<and> ipc_log (dsa_release d p db) = ipc_log db)"

locale storage =
  fixes d :: dsa
  assumes frame_ok: "dsa_frame_ok d"

text \<open>
  The whole contract. \<open>inv B db\<close> says that \<open>B\<close> are the blocks handed out and the allocator's
  own data is intact. It may not depend on anything but the heap, and clients may write to
  the blocks they own.
\<close>

locale heap_allocator = storage d for d :: dsa +
  fixes inv :: "block set \<Rightarrow> rtdb \<Rightarrow> bool"
  assumes alloc_fail:
    "\<lbrakk>inv B db; h_dsa h = d; in_int32 n; kogmo_rtdb_obj_mem_alloc h n db = (p, db'); p < 0\<rbrakk>
      \<Longrightarrow> inv B db' \<and> (\<forall>b \<in> B. \<forall>x \<in> block_bytes b. heap db' x = heap db x)"
  and alloc_ok:
    "\<lbrakk>inv B db; h_dsa h = d; in_int32 n; kogmo_rtdb_obj_mem_alloc h n db = (p, db'); 0 \<le> p\<rbrakk>
      \<Longrightarrow> inv (insert (p, n) B) db' \<and> (\<forall>b \<in> B. block_bytes b \<inter> block_bytes (p, n) = {})
          \<and> (\<forall>b \<in> B. \<forall>x \<in> block_bytes b. heap db' x = heap db x)
          \<and> ldb (heap db') p (nat n) = replicate (nat n) 0"
  and free_ok:
    "\<lbrakk>inv B db; h_dsa h = d; (p, n) \<in> B\<rbrakk>
      \<Longrightarrow> inv (B - {(p, n)}) (kogmo_rtdb_obj_mem_free h p n db)
          \<and> (\<forall>b \<in> B - {(p, n)}. \<forall>x \<in> block_bytes b.
               heap (kogmo_rtdb_obj_mem_free h p n db) x = heap db x)"
  and inv_frame:
    "\<lbrakk>inv B db; heap_free db' = heap_free db; heap_used db' = heap_used db;
      heap_size db' = heap_size db;
      \<forall>x. (\<forall>b \<in> B. x \<notin> block_bytes b) \<longrightarrow> heap db' x = heap db x\<rbrakk> \<Longrightarrow> inv B db'"
  and inv_disjoint: "inv B db \<Longrightarrow> disjoint_blocks B"
  and inv_range: "inv B db \<Longrightarrow> b \<in> B \<Longrightarrow> 0 \<le> fst b \<and> 0 < snd b \<and> fst b + snd b < 2 ^ 31"

section \<open>Frame and locks\<close>

lemma mem_alloc_frame:
  assumes "dsa_frame_ok (h_dsa h)" "kogmo_rtdb_obj_mem_alloc h n db = (p, db')"
  shows "same_meta db db'"
proof (cases "n \<le> 0")
  case True
  with assms(2) show ?thesis by (simp add: kogmo_rtdb_obj_mem_alloc_def)
next
  case False
  obtain r db1 where a: "dsa_alloc (h_dsa h) n (kogmo_rtdb_heap_lock db) = (r, db1)"
    by (metis prod.exhaust)
  have "same_meta (kogmo_rtdb_heap_lock db) db1"
    using assms(1) a unfolding dsa_frame_ok_def by (metis snd_conv)
  then have 1: "same_meta db db1"
    using same_meta_trans [OF same_meta_emit] by (simp add: kogmo_rtdb_heap_lock_def)
  have "same_meta db1 db'"
    using assms(2) False a
    by (cases db1) (auto simp: kogmo_rtdb_obj_mem_alloc_def kogmo_rtdb_heap_unlock_def Let_def
        same_meta_def emit_def split: option.splits)
  with 1 show ?thesis by (rule same_meta_trans)
qed

lemma mem_free_frame:
  assumes "dsa_frame_ok (h_dsa h)"
  shows "same_meta db (kogmo_rtdb_obj_mem_free h p n db)"
proof -
  let ?db = "dsa_release (h_dsa h) p (kogmo_rtdb_heap_lock db)"
  have "same_meta (kogmo_rtdb_heap_lock db) ?db"
    using assms by (simp add: dsa_frame_ok_def)
  then have 1: "same_meta db ?db"
    using same_meta_trans [OF same_meta_emit] by (simp add: kogmo_rtdb_heap_lock_def)
  have "same_meta ?db (kogmo_rtdb_obj_mem_free h p n db)"
    by (cases ?db) (auto simp: kogmo_rtdb_obj_mem_free_def kogmo_rtdb_heap_unlock_def Let_def
        same_meta_def emit_def)
  with 1 show ?thesis by (rule same_meta_trans)
qed

lemma mem_alloc_locks:
  assumes "dsa_frame_ok (h_dsa h)" "Heap_lock \<notin> L" "kogmo_rtdb_obj_mem_alloc h n db = (p, db')"
  shows "lock_step L db db' L"
proof (cases "n \<le> 0")
  case True
  with assms(3) show ?thesis by (auto simp: kogmo_rtdb_obj_mem_alloc_def intro: lock_step_same)
next
  case False
  have l: "ipc_log (snd (dsa_alloc (h_dsa h) n (emit (Lock Heap_lock) db))) = Lock Heap_lock # ipc_log db"
    using assms(1) by (simp add: dsa_frame_ok_def)
  have "ipc_log db' = Unlock Heap_lock # Lock Heap_lock # ipc_log db"
    using assms(3) False l
    by (auto simp: kogmo_rtdb_obj_mem_alloc_def kogmo_rtdb_heap_lock_def kogmo_rtdb_heap_unlock_def
          Let_def split: prod.splits option.splits)
  then have "log_ext db db' [Lock Heap_lock, Unlock Heap_lock]" by (simp add: log_ext_def)
  moreover have "run_locks L [Lock Heap_lock, Unlock Heap_lock] = Some L"
    using assms(2) by auto
  ultimately show ?thesis by (auto simp: lock_step_def)
qed

lemma mem_free_locks:
  assumes "dsa_frame_ok (h_dsa h)" "Heap_lock \<notin> L"
  shows "lock_step L db (kogmo_rtdb_obj_mem_free h p n db) L"
proof -
  have "ipc_log (kogmo_rtdb_obj_mem_free h p n db) = Unlock Heap_lock # Lock Heap_lock # ipc_log db"
    using assms(1)
    by (simp add: dsa_frame_ok_def kogmo_rtdb_obj_mem_free_def kogmo_rtdb_heap_lock_def
          kogmo_rtdb_heap_unlock_def Let_def)
  then have "log_ext db (kogmo_rtdb_obj_mem_free h p n db) [Lock Heap_lock, Unlock Heap_lock]"
    by (simp add: log_ext_def)
  moreover have "run_locks L [Lock Heap_lock, Unlock Heap_lock] = Some L"
    using assms(2) by auto
  ultimately show ?thesis by (auto simp: lock_step_def)
qed

section \<open>The static allocator meets the contract\<close>

text \<open>
  Its blocks lie in the used part of the heap; used and free part together never exceed
  the heap, whose size is below 2 GB so that every index fits \<open>int\<close>.
\<close>

definition static_inv :: "block set \<Rightarrow> rtdb \<Rightarrow> bool" where
  "static_inv B db \<longleftrightarrow>
     0 \<le> heap_used db \<and> 0 \<le> heap_free db \<and> heap_used db + heap_free db = heap_size db
     \<and> heap_size db < 2 ^ 31
     \<and> (\<forall>b \<in> B. 0 \<le> fst b \<and> 0 < snd b \<and> fst b + snd b \<le> heap_used db)
     \<and> disjoint_blocks B"

lemma disjoint_blocks_subset: "disjoint_blocks B \<Longrightarrow> C \<subseteq> B \<Longrightarrow> disjoint_blocks C"
  unfolding disjoint_blocks_def by (meson subsetD)

lemma static_alloc_cases:
  assumes inv: "static_inv B db" and h: "h_dsa h = static_dsa" and n: "in_int32 n"
    and al: "kogmo_rtdb_obj_mem_alloc h n db = (p, db')"
  shows "(0 < n \<and> n \<le> heap_free db \<and> p = heap_used db
           \<and> db' = db\<lparr>heap_free := heap_free db - n, heap_used := heap_used db + n,
                heap := stb (heap db) p (replicate (nat n) 0),
                ipc_log := Unlock Heap_lock # Lock Heap_lock # ipc_log db\<rparr>)
       \<or> ((n \<le> 0 \<or> heap_free db < n) \<and> p = - 1 \<and> (\<exists>l. db' = db\<lparr>ipc_log := l\<rparr>))"
proof (cases "0 < n")
  case False
  with al show ?thesis by (auto simp: kogmo_rtdb_obj_mem_alloc_def intro!: exI[of _ "ipc_log db"])
next
  case True
  then have u: "uint64 n = n" using n by (simp add: in_int32_def)
  have i: "int32 (heap_used db) = heap_used db" if "n \<le> heap_free db"
    using inv True that by (intro int32_id) (auto simp: static_inv_def in_int32_def)
  have u1: "uint64 (heap_free db - n) = heap_free db - n" if "n \<le> heap_free db"
    using inv True that by (intro uint64_id) (auto simp: static_inv_def)
  have u2: "uint64 (heap_used db + n) = heap_used db + n" if "n \<le> heap_free db"
    using inv True that by (intro uint64_id) (auto simp: static_inv_def)
  show ?thesis
    using True al h u i u1 u2
    by (auto simp: kogmo_rtdb_obj_mem_alloc_def static_dsa_def static_alloc_def Let_def
          kogmo_rtdb_heap_lock_def kogmo_rtdb_heap_unlock_def emit_def split: if_splits)
qed

lemma static_disjoint_new:
  assumes "static_inv B db" "b \<in> B"
  shows "block_bytes b \<inter> block_bytes (heap_used db, n) = {}"
  using assms by (force simp: static_inv_def block_bytes_def)

lemma static_frame_ok: "dsa_frame_ok static_dsa"
  by (simp add: dsa_frame_ok_def static_dsa_def static_alloc_def)

interpretation static_storage: storage static_dsa
  by unfold_locales (rule static_frame_ok)

interpretation static: heap_allocator static_dsa static_inv
proof (unfold_locales, goal_cases)
  case (1 B db h n p db')
  from static_alloc_cases [OF 1(1-4)] 1(5) obtain l where "db' = db\<lparr>ipc_log := l\<rparr>"
    using 1(1) by (auto simp: static_inv_def)
  with 1(1) show ?case by (simp add: static_inv_def)
next
  case (2 B db h n p db')
  from static_alloc_cases [OF 2(1-4)] 2(5)
  have n: "0 < n" "n \<le> heap_free db" "p = heap_used db"
    and db': "db' = db\<lparr>heap_free := heap_free db - n, heap_used := heap_used db + n,
        heap := stb (heap db) p (replicate (nat n) 0),
        ipc_log := Unlock Heap_lock # Lock Heap_lock # ipc_log db\<rparr>" by auto
  have d: "\<forall>b \<in> B. block_bytes b \<inter> block_bytes (p, n) = {}"
    using static_disjoint_new [OF 2(1)] n(3) by auto
  have "disjoint_blocks (insert (p, n) B)"
    using d 2(1) unfolding disjoint_blocks_def static_inv_def by (metis Int_commute insert_iff)
  then have "static_inv (insert (p, n) B) db'"
    using 2(1) n by (auto simp: static_inv_def db')
  moreover have "heap db' x = heap db x" if "b \<in> B" "x \<in> block_bytes b" for b x
  proof -
    have "x \<notin> block_bytes (p, n)" using d that by blast
    then show ?thesis using n(1) by (auto simp: db' block_bytes_def stb_outside)
  qed
  ultimately show ?case using d by (simp add: db')
next
  case (3 B db h p n)
  have "kogmo_rtdb_obj_mem_free h p n db =
      db\<lparr>ipc_log := Unlock Heap_lock # Lock Heap_lock # ipc_log db\<rparr>"
    using 3(2) by (simp add: kogmo_rtdb_obj_mem_free_def static_dsa_def kogmo_rtdb_heap_lock_def
        kogmo_rtdb_heap_unlock_def emit_def)
  moreover have "disjoint_blocks (B - {(p, n)})"
    using 3(1) disjoint_blocks_subset by (auto simp: static_inv_def)
  ultimately show ?case
    using 3(1) by (simp add: static_inv_def)
next
  case (4 B db db')
  then show ?case by (simp add: static_inv_def)
next
  case (5 B db)
  then show ?case by (simp add: static_inv_def)
next
  case (6 B db b)
  then have "fst b + snd b \<le> heap_used db" "heap_used db \<le> heap_size db" "heap_size db < 2 ^ 31"
    "0 \<le> fst b" "0 < snd b" unfolding static_inv_def by auto
  then show ?case by linarith
qed

lemma static_init_inv:
  assumes "0 \<le> heap_size db" "heap_size db < 2 ^ 31"
    "kogmo_rtdb_obj_mem_init static_init db = (r, db')"
  shows "static_inv {} db' \<and> r = heap_size db"
proof -
  have "int32 (heap_size db) = heap_size db" "uint64 (heap_size db) = heap_size db"
    using assms(1,2) by (auto simp: in_int32_def)
  with assms show ?thesis
    by (auto simp: kogmo_rtdb_obj_mem_init_def static_init_def static_inv_def disjoint_blocks_def
        Let_def)
qed

end
