(* ===== verification/Objmeta_Search.thy ===== *)
theory Objmeta_Search
  imports Rtmalloc
begin

text \<open>
  Finding objects by name, type, parent, creator and time, and reading their metadata
  (\<open>rtdb/kogmo_rtdb_objmeta.c\<close>, first part).
\<close>

section \<open>Preparing metadata\<close>

definition kogmo_rtdb_obj_initinfo :: "handle \<Rightarrow> char list \<Rightarrow> int \<Rightarrow> int \<Rightarrow> rtdb \<Rightarrow> obj_info" where
  "kogmo_rtdb_obj_initinfo h name_ot ot sz db =
     zero_info\<lparr>name := strncpy NAME_MAXLEN name_ot, otype := ot,
       max_cycletime := h_procobj_cycletime h, min_cycletime := h_procobj_cycletime h,
       history_interval := default_history_interval db, size_max := sz\<rparr>"

section \<open>What the name argument asks for\<close>

definition is_dec_digit :: "char \<Rightarrow> bool" where
  "is_dec_digit c \<longleftrightarrow> 48 \<le> (of_char c :: nat) \<and> (of_char c :: nat) \<le> 57"

definition digit_value :: "char \<Rightarrow> nat option" where
  "digit_value c = (let n = (of_char c :: nat) in
     if 48 \<le> n \<and> n \<le> 57 then Some (n - 48)
     else if 97 \<le> n \<and> n \<le> 102 then Some (n - 87)
     else if 65 \<le> n \<and> n \<le> 70 then Some (n - 55) else None)"

definition is_hex_digit :: "char \<Rightarrow> bool" where
  "is_hex_digit c \<longleftrightarrow> digit_value c \<noteq> None"

text \<open>The expression \<open>[0-9][0-9]*|0[xX]([0-9a-fA-F][0-9a-fA-F]*)\<close>.\<close>

definition is_number :: "char list \<Rightarrow> bool" where
  "is_number s \<longleftrightarrow> (s \<noteq> [] \<and> list_all is_dec_digit s)
     \<or> (2 < length s \<and> s ! 0 = CHR ''0'' \<and> s ! 1 \<in> {CHR ''x'', CHR ''X''}
        \<and> list_all is_hex_digit (drop 2 s))"

definition strip_spaces :: "char list \<Rightarrow> char list" where
  "strip_spaces s = rev (dropWhile (\<lambda>c. c = CHR '' '') (rev s))"

text \<open>The two expressions for the tail of a name: \<open>\(..\) *$\<close> and \<open>\#.. *$\<close>.\<close>

definition oid_tail :: "char list \<Rightarrow> bool" where
  "oid_tail s = (case s of [] \<Rightarrow> False | c # r \<Rightarrow> c = CHR ''('' \<and>
     (let b = strip_spaces r in b \<noteq> [] \<and> last b = CHR '')'' \<and> is_number (butlast b)))"

definition type_tail :: "char list \<Rightarrow> bool" where
  "type_tail s = (case s of [] \<Rightarrow> False | c # r \<Rightarrow> c = CHR ''#'' \<and> is_number (strip_spaces r))"

text \<open>\<open>regexec\<close> reports the leftmost match: the first position whose tail matches.\<close>

fun match_tail :: "(char list \<Rightarrow> bool) \<Rightarrow> char list \<Rightarrow> nat option" where
  "match_tail P [] = (if P [] then Some 0 else None)"
| "match_tail P (c # s) = (if P (c # s) then Some 0 else map_option Suc (match_tail P s))"

text \<open>\<open>strtoll(s,NULL,0)\<close> on a string that starts with a digit: base by prefix, saturating.\<close>

fun digits_in_base :: "nat \<Rightarrow> char list \<Rightarrow> int \<Rightarrow> int" where
  "digits_in_base b [] acc = acc"
| "digits_in_base b (c # s) acc = (case digit_value c of
     Some d \<Rightarrow> if d < b then digits_in_base b s (int b * acc + int d) else acc
   | None \<Rightarrow> acc)"

definition strtoll0 :: "char list \<Rightarrow> int" where
  "strtoll0 s = min (2 ^ 63 - 1)
     (if 2 < length s \<and> s ! 0 = CHR ''0'' \<and> s ! 1 \<in> {CHR ''x'', CHR ''X''} \<and> is_hex_digit (s ! 2)
      then digits_in_base 16 (drop 2 s) 0
      else if s \<noteq> [] \<and> s ! 0 = CHR ''0'' then digits_in_base 8 s 0
      else digits_in_base 10 s 0)"

text \<open>\<open>KOGMO_RTDB_NAMEREMAP\<close>: \<open>orig=new,orig2=new2,...\<close>\<close>

function name_remap :: "char list \<Rightarrow> char list \<Rightarrow> char list" where
  "name_remap n p =
     (if p = [] \<or> CHR ''='' \<notin> set p then n
      else let k = takeWhile (\<lambda>c. c \<noteq> CHR ''='') p;
               q = tl (dropWhile (\<lambda>c. c \<noteq> CHR ''='') p)
           in if k = n then take NAME_MAXLEN (takeWhile (\<lambda>c. c \<noteq> CHR '','') q)
              else name_remap n (tl (dropWhile (\<lambda>c. c \<noteq> CHR '','') q)))"
  by pat_completeness auto

lemma length_dropWhile_le2: "length (dropWhile P (tl (dropWhile Q xs))) \<le> length xs - 1"
  using length_dropWhile_le [of P "tl (dropWhile Q xs)"] length_dropWhile_le [of Q xs] by simp

termination name_remap
proof (relation "measure (\<lambda>(n, p). length p)", goal_cases)
  case (2 n p k q)
  have "length (tl (dropWhile (\<lambda>c. c \<noteq> CHR '','') q)) \<le> length p - 1"
    using length_dropWhile_le2 [of "\<lambda>c. c \<noteq> CHR '',''" "\<lambda>c. c \<noteq> CHR ''=''" p] 2(3) by simp
  moreover have "0 < length p" using 2(1) by auto
  ultimately have "length (tl (dropWhile (\<lambda>c. c \<noteq> CHR '','') q)) < length p" by linarith
  then show ?case by simp
qed simp

declare name_remap.simps [simp del]

text \<open>A direct object id, an invalid pattern, or a test of names together with the type.\<close>

datatype name_query = Query_oid int | Query_invalid | Query "char list \<Rightarrow> bool" int

definition parse_name :: "handle \<Rightarrow> char list option \<Rightarrow> int \<Rightarrow> name_query" where
  "parse_name h nm ot =
     (case map_option cstr nm of
        None \<Rightarrow> Query (\<lambda>_. True) ot
      | Some n \<Rightarrow>
          if n \<noteq> [] \<and> hd n = CHR ''~'' then
            let i = (case match_tail oid_tail n of None \<Rightarrow> 0
                     | Some k \<Rightarrow> int32 (strtoll0 (drop (Suc k) n)))
            in if i \<noteq> 0 then Query_oid i
               else let (ot, n) = (case match_tail type_tail n of None \<Rightarrow> (ot, n)
                          | Some k \<Rightarrow> (int32 (strtoll0 (drop (Suc k) n)), take (min k NAME_MAXLEN) n))
                    in (case h_regcomp h (tl n) of None \<Rightarrow> Query_invalid | Some rx \<Rightarrow> Query rx ot)
          else
            let n = (case h_nameremap h of
                       Some p \<Rightarrow> if h_debug h \<noteq> 0 then name_remap n p else n
                     | None \<Rightarrow> n)
            in Query (\<lambda>s. n = [] \<or> strncmp_eq NAME_MAXLEN n s) ot)"

section \<open>The scan\<close>

definition search_match ::
    "(char list \<Rightarrow> bool) \<Rightarrow> int \<Rightarrow> int \<Rightarrow> int \<Rightarrow> timestamp \<Rightarrow> bool \<Rightarrow> obj_info \<Rightarrow> bool" where
  "search_match nm ot parent proc ts includedeleted m =
     (if oid m = 0 \<or> created_ts m = 0 then False
      else if otype m \<noteq> ot \<and> ot \<noteq> 0 then False
      else if parent_oid m \<noteq> parent \<and> parent \<noteq> 0 then False
      else if created_proc m \<noteq> proc \<and> proc \<noteq> 0 then False
      else if deleted_ts m \<noteq> 0 \<and> \<not> includedeleted \<and> (deleted_ts m < ts \<or> ts = 0) then False
      else if created_ts m > ts \<and> ts \<noteq> 0 then False
      else nm (cstr (name m)))"

text \<open>\<open>idlist\<close> is the caller's array of \<open>OBJIDLIST_MAX+1\<close> ids, \<open>None\<close> for a NULL pointer.\<close>

fun search_loop :: "(obj_info \<Rightarrow> bool) \<Rightarrow> int \<Rightarrow> obj_info list
    \<Rightarrow> int \<times> int \<times> int list option \<Rightarrow> int \<times> int \<times> int list option" where
  "search_loop P nth_ob [] st = st"
| "search_loop P nth_ob (m # ms) (nfound, found, idlist) =
     (if \<not> P m then search_loop P nth_ob ms (nfound, found, idlist)
      else let found = oid m;
               nfound = nfound + 1;
               idlist = map_option (\<lambda>l. if nfound < int OBJIDLIST_MAX
                                        then l[nat (nfound - 1) := found] else l) idlist
           in if nth_ob = nfound then (nfound, found, idlist)
              else search_loop P nth_ob ms (nfound, found, idlist))"

definition kogmo_rtdb_obj_searchinfo_internal ::
    "handle \<Rightarrow> char list option \<Rightarrow> int \<Rightarrow> int \<Rightarrow> int \<Rightarrow> timestamp \<Rightarrow> int list option \<Rightarrow> int
      \<Rightarrow> bool \<Rightarrow> bool \<Rightarrow> rtdb \<Rightarrow> (rtdb_error + int) \<times> int list option \<times> rtdb" where
  "kogmo_rtdb_obj_searchinfo_internal h nm ot parent proc ts idlist nth_ob nolock includedeleted db =
     (case parse_name h nm ot of
        Query_invalid \<Rightarrow> (Inl ERR_INVALID, idlist, db)
      | Query_oid i \<Rightarrow>
          if kogmo_rtdb_obj_findmeta_byid i db = None then (Inl ERR_NOTFOUND, idlist, db)
          else (case idlist of
             None \<Rightarrow> (if nth_ob = 1 then Inr i else Inl ERR_NOTFOUND, None, db)
           | Some l \<Rightarrow> (Inr 1, Some (l[0 := i, 1 := 0]), db))
      | Query rx ot \<Rightarrow>
          let db = (if nolock then db else kogmo_rtdb_objmeta_lock db);
              (nfound, found, idlist) =
                search_loop (search_match rx ot parent proc ts includedeleted) nth_ob (objmeta db)
                  (0, 0, idlist);
              db = (if nolock then db else kogmo_rtdb_objmeta_unlock db)
          in if nfound = 0 then
               let idlist = map_option (\<lambda>l. l[0 := 0]) idlist
               in if parent \<noteq> 0 then
                    (case kogmo_rtdb_obj_findmeta_byid parent db of
                       None \<Rightarrow> (Inl ERR_INVALID, idlist, db)
                     | Some i \<Rightarrow>
                         let m = objmeta db ! i
                         in if deleted_ts m \<noteq> 0 \<and> (deleted_ts m > ts \<or> ts = 0)
                            then (Inl ERR_INVALID, idlist, db)
                            else (Inl ERR_NOTFOUND, idlist, db))
                  else (Inl ERR_NOTFOUND, idlist, db)
             else (case idlist of
                None \<Rightarrow> (if nth_ob = nfound then Inr found else Inl ERR_NOTFOUND, None, db)
              | Some l \<Rightarrow>
                  (Inr nfound,
                   Some (l[nat (if nfound > int OBJIDLIST_MAX then int OBJIDLIST_MAX else nfound) := 0]),
                   db)))"

definition kogmo_rtdb_obj_searchinfo ::
    "handle \<Rightarrow> char list option \<Rightarrow> int \<Rightarrow> int \<Rightarrow> int \<Rightarrow> timestamp \<Rightarrow> int list option \<Rightarrow> int
      \<Rightarrow> rtdb \<Rightarrow> (rtdb_error + int) \<times> int list option \<times> rtdb" where
  "kogmo_rtdb_obj_searchinfo h nm ot parent proc ts idlist nth_ob =
     kogmo_rtdb_obj_searchinfo_internal h nm ot parent proc ts idlist nth_ob False False"

definition kogmo_rtdb_obj_searchinfo_nolock ::
    "handle \<Rightarrow> char list option \<Rightarrow> int \<Rightarrow> int \<Rightarrow> int \<Rightarrow> timestamp \<Rightarrow> int list option \<Rightarrow> int
      \<Rightarrow> rtdb \<Rightarrow> (rtdb_error + int) \<times> int list option \<times> rtdb" where
  "kogmo_rtdb_obj_searchinfo_nolock h nm ot parent proc ts idlist nth_ob =
     kogmo_rtdb_obj_searchinfo_internal h nm ot parent proc ts idlist nth_ob True False"

definition kogmo_rtdb_obj_searchinfo_deleted ::
    "handle \<Rightarrow> char list option \<Rightarrow> int \<Rightarrow> int \<Rightarrow> int \<Rightarrow> timestamp \<Rightarrow> int list option \<Rightarrow> int
      \<Rightarrow> rtdb \<Rightarrow> (rtdb_error + int) \<times> int list option \<times> rtdb" where
  "kogmo_rtdb_obj_searchinfo_deleted h nm ot parent proc ts idlist nth_ob =
     kogmo_rtdb_obj_searchinfo_internal h nm ot parent proc ts idlist nth_ob False True"

section \<open>Reading metadata\<close>

text \<open>The result is the copy made in the caller's buffer, unchanged on an error.\<close>

definition kogmo_rtdb_obj_readinfo ::
    "handle \<Rightarrow> int \<Rightarrow> timestamp \<Rightarrow> obj_info \<Rightarrow> rtdb \<Rightarrow> (rtdb_error + int) \<times> obj_info \<times> rtdb" where
  "kogmo_rtdb_obj_readinfo h i ts buf db =
     (let db = kogmo_rtdb_objmeta_lock db
      in case kogmo_rtdb_obj_findmeta_byid i db of
           None \<Rightarrow> (Inl ERR_NOTFOUND, buf, kogmo_rtdb_objmeta_unlock db)
         | Some k \<Rightarrow>
             let m = objmeta db ! k
             in if created_ts m > ts \<and> ts \<noteq> 0
                then (Inl ERR_NOTFOUND, buf, kogmo_rtdb_objmeta_unlock db)
                else if deleted_ts m \<noteq> 0 \<and> (deleted_ts m < ts \<or> ts = 0)
                then (Inl ERR_NOTFOUND, buf, kogmo_rtdb_objmeta_unlock db)
                else (Inr 0, m, kogmo_rtdb_objmeta_unlock db))"

section \<open>What the scan finds\<close>

lemma search_loop_nth:
  assumes "k < nth_ob"
  shows "search_loop P nth_ob ms (k, i, None) =
    (let M = filter P ms in
     if nth_ob - k \<le> int (length M) then (nth_ob, oid (M ! nat (nth_ob - k - 1)), None)
     else (k + int (length M), if M = [] then i else oid (last M), None))"
  using assms
proof (induction ms arbitrary: k i)
  case Nil then show ?case by simp
next
  case (Cons m ms)
  show ?case
  proof (cases "P m")
    case False with Cons show ?thesis by (simp add: Let_def)
  next
    case True
    show ?thesis
    proof (cases "nth_ob = k + 1")
      case eq: True
      from eq True show ?thesis by simp
    next
      case False
      then have k: "k + 1 < nth_ob" using Cons.prems by linarith
      then have n: "nat (nth_ob - k - 1) = Suc (nat (nth_ob - (k + 1) - 1))" by linarith
      from Cons.IH [OF k, of "oid m"] True False k show ?thesis
        unfolding n by (auto simp: Let_def)
    qed
  qed
qed

lemma search_loop_all:
  assumes "0 \<le> k" "nth_ob \<le> 0" "length l = Suc OBJIDLIST_MAX"
  shows "\<exists>i' l'. search_loop P nth_ob ms (k, i, Some l) = (k + int (length (filter P ms)), i', Some l')
    \<and> length l' = length l
    \<and> (\<forall>j. l' ! j = (if nat k \<le> j \<and> j < nat k + length (filter P ms) \<and> j < OBJIDLIST_MAX - 1
                     then oid (filter P ms ! (j - nat k)) else l ! j))"
  using assms
proof (induction ms arbitrary: k i l)
  case Nil then show ?case by auto
next
  case (Cons m ms)
  show ?case
  proof (cases "P m")
    case False
    then have eq: "search_loop P nth_ob (m # ms) (k, i, Some l) = search_loop P nth_ob ms (k, i, Some l)"
      "filter P (m # ms) = filter P ms" by simp_all
    show ?thesis unfolding eq by (rule Cons.IH [OF Cons.prems])
  next
    case True
    let ?l = "if k + 1 < int OBJIDLIST_MAX then l[nat k := oid m] else l"
    have len: "length ?l = Suc OBJIDLIST_MAX" using Cons.prems by simp
    have nk: "nat (k + 1) = Suc (nat k)" using Cons.prems by simp
    from Cons.IH [of "k + 1" ?l "oid m"] Cons.prems len obtain i' l' where
      s: "search_loop P nth_ob ms (k + 1, oid m, Some ?l) = (k + 1 + int (length (filter P ms)), i', Some l')"
      and l: "length l' = length ?l"
      and v: "\<And>j. l' ! j = (if Suc (nat k) \<le> j \<and> j < Suc (nat k) + length (filter P ms) \<and> j < OBJIDLIST_MAX - 1
                     then oid (filter P ms ! (j - Suc (nat k))) else ?l ! j)"
      by (auto simp: nk)
    have "l' ! j = (if nat k \<le> j \<and> j < nat k + Suc (length (filter P ms)) \<and> j < OBJIDLIST_MAX - 1
                     then oid ((m # filter P ms) ! (j - nat k)) else l ! j)" for j
    proof (cases "j = nat k")
      case True
      then show ?thesis using v [of j] Cons.prems by (auto simp: nth_list_update_if)
    next
      case False
      then have "?l ! j = l ! j" by simp
      moreover have "j - nat k = Suc (j - Suc (nat k))" if "nat k \<le> j" using False that by simp
      ultimately show ?thesis using v [of j] False by auto
    qed
    moreover have "search_loop P nth_ob (m # ms) (k, i, Some l)
        = search_loop P nth_ob ms (k + 1, oid m, Some ?l)"
      using True Cons.prems by (auto simp: Let_def)
    ultimately show ?thesis using s l len True Cons.prems(3) by auto
  qed
qed

text \<open>A search changes nothing but the call log.\<close>

lemma search_same_data:
  "kogmo_rtdb_obj_searchinfo_internal h nm ot parent proc ts idl n nolock incl db = (r, l, db')
    \<Longrightarrow> db' = db\<lparr>ipc_log := ipc_log db'\<rparr>"
  by (cases db) (auto simp: kogmo_rtdb_obj_searchinfo_internal_def Let_def
      kogmo_rtdb_objmeta_lock_def kogmo_rtdb_objmeta_unlock_def emit_def
      split: name_query.splits option.splits if_splits prod.splits)

lemma search_nolock_db:
  "kogmo_rtdb_obj_searchinfo_nolock h nm ot parent proc ts idl n db = (r, l, db') \<Longrightarrow> db' = db"
  by (auto simp: kogmo_rtdb_obj_searchinfo_nolock_def kogmo_rtdb_obj_searchinfo_internal_def Let_def
      split: name_query.splits option.splits if_splits prod.splits)

lemma search_locks:
  assumes "kogmo_rtdb_obj_searchinfo_internal h nm ot parent proc ts idl n nolock incl db = (r, l, db')"
    and "Objmeta_lock \<notin> L"
  shows "lock_step L db db' L"
proof (cases "ipc_log db' = ipc_log db")
  case True then show ?thesis by (rule lock_step_same)
next
  case False
  then have "ipc_log db' = Unlock Objmeta_lock # Lock Objmeta_lock # ipc_log db"
    using assms(1) by (auto simp: kogmo_rtdb_obj_searchinfo_internal_def Let_def
      kogmo_rtdb_objmeta_lock_def kogmo_rtdb_objmeta_unlock_def
      split: name_query.splits option.splits if_splits prod.splits)
  then have "log_ext db db' [Lock Objmeta_lock, Unlock Objmeta_lock]" by (simp add: log_ext_def)
  moreover have "run_locks L [Lock Objmeta_lock, Unlock Objmeta_lock] = Some L"
    using assms(2) by auto
  ultimately show ?thesis by (auto simp: lock_step_def)
qed

text \<open>The objects a query selects, in table order.\<close>

definition matching ::
    "(char list \<Rightarrow> bool) \<Rightarrow> int \<Rightarrow> int \<Rightarrow> int \<Rightarrow> timestamp \<Rightarrow> bool \<Rightarrow> rtdb \<Rightarrow> obj_info list" where
  "matching rx ot parent proc ts incl db =
     filter (search_match rx ot parent proc ts incl) (objmeta db)"

text \<open>The parent named in the search is missing or counts as deleted.\<close>

definition parent_missing :: "int \<Rightarrow> timestamp \<Rightarrow> rtdb \<Rightarrow> bool" where
  "parent_missing parent ts db \<longleftrightarrow> parent \<noteq> 0 \<and>
     (case kogmo_rtdb_obj_findmeta_byid parent db of None \<Rightarrow> True
      | Some i \<Rightarrow> deleted_ts (objmeta db ! i) \<noteq> 0 \<and> (deleted_ts (objmeta db ! i) > ts \<or> ts = 0))"

lemma findmeta_lock [simp]:
  "kogmo_rtdb_obj_findmeta_byid i (kogmo_rtdb_objmeta_lock db) = kogmo_rtdb_obj_findmeta_byid i db"
  "kogmo_rtdb_obj_findmeta_byid i (kogmo_rtdb_objmeta_unlock db) = kogmo_rtdb_obj_findmeta_byid i db"
  "objmeta (kogmo_rtdb_objmeta_lock db) = objmeta db"
  "objmeta (kogmo_rtdb_objmeta_unlock db) = objmeta db"
  by (simp_all add: kogmo_rtdb_obj_findmeta_byid_def kogmo_rtdb_objmeta_lock_def
      kogmo_rtdb_objmeta_unlock_def)

lemma search_nth:
  assumes q: "parse_name h nm ot = Query rx ot'" and n: "1 \<le> n"
  shows "fst (kogmo_rtdb_obj_searchinfo_internal h nm ot parent proc ts None n nolock incl db) =
    (let M = matching rx ot' parent proc ts incl db in
     if nat n \<le> length M then Inr (oid (M ! nat (n - 1)))
     else if M = [] \<and> parent_missing parent ts db then Inl ERR_INVALID
     else Inl ERR_NOTFOUND)"
proof -
  have k: "(0::int) < n" using n by simp
  show ?thesis
    using n q by (auto simp: kogmo_rtdb_obj_searchinfo_internal_def search_loop_nth [OF k] Let_def
        matching_def parent_missing_def split: option.splits)
qed

lemma search_list:
  assumes q: "parse_name h nm ot = Query rx ot'" and l: "length l = Suc OBJIDLIST_MAX"
    and M: "M = matching rx ot' parent proc ts incl db" "M \<noteq> []"
  shows "\<exists>l' db'. kogmo_rtdb_obj_searchinfo_internal h nm ot parent proc ts (Some l) 0 nolock incl db
      = (Inr (int (length M)), Some l', db')
    \<and> take (min (length M) (OBJIDLIST_MAX - 1)) l'
        = map oid (take (OBJIDLIST_MAX - 1) M)
    \<and> l' ! min (length M) OBJIDLIST_MAX = 0 \<and> length l' = Suc OBJIDLIST_MAX"
proof -
  let ?P = "search_match rx ot' parent proc ts incl"
  have len: "length l = Suc OBJIDLIST_MAX" by (rule l)
  obtain i' l' where
    s: "search_loop ?P 0 (objmeta db) (0, 0, Some l) = (int (length M), i', Some l')"
    and ll: "length l' = length l"
    and v: "\<And>j. l' ! j = (if j < length M \<and> j < OBJIDLIST_MAX - 1 then oid (M ! j) else l ! j)"
    using search_loop_all [of 0 0 l ?P "objmeta db" 0] len M(1) by (auto simp: matching_def)
  let ?k = "min (length M) OBJIDLIST_MAX"
  have k: "nat (if int (length M) > int OBJIDLIST_MAX then int OBJIDLIST_MAX else int (length M)) = ?k"
    by auto
  have "take (min (length M) (OBJIDLIST_MAX - 1)) (l'[?k := 0]) = map oid (take (OBJIDLIST_MAX - 1) M)"
  proof (rule nth_equalityI)
    fix j assume "j < length (take (min (length M) (OBJIDLIST_MAX - 1)) (l'[?k := 0]))"
    then have j: "j < length M" "j < OBJIDLIST_MAX - 1" by auto
    then show "take (min (length M) (OBJIDLIST_MAX - 1)) (l'[?k := 0]) ! j
        = map oid (take (OBJIDLIST_MAX - 1) M) ! j"
      using v [of j] by auto
  qed (use ll len in auto)
  moreover have "l'[?k := 0] ! ?k = 0" using ll len by simp
  moreover have "length (l'[?k := 0]) = Suc OBJIDLIST_MAX" using ll len by simp
  ultimately show ?thesis
    using q s k M(2) by (auto simp: kogmo_rtdb_obj_searchinfo_internal_def Let_def)
qed

end
