(* ===== verification/Slot_Table.thy ===== *)
theory Slot_Table
  imports Rtdb_Prelude
begin

text \<open>
  Fixed tables of slots with an integer key, key 0 meaning free. The objects' metadata, the
  process list and the player's id map are such tables; the locale states what their
  operations share and each of them interprets it.
\<close>

section \<open>Vocabulary\<close>

definition unique_keys :: "('a \<Rightarrow> int) \<Rightarrow> 'a list \<Rightarrow> bool" where
  "unique_keys key xs \<longleftrightarrow>
     (\<forall>i < length xs. \<forall>j < length xs. key (xs ! i) \<noteq> 0 \<and> key (xs ! i) = key (xs ! j) \<longrightarrow> i = j)"

definition free_slots :: "('a \<Rightarrow> int) \<Rightarrow> 'a list \<Rightarrow> nat" where
  "free_slots key xs = length (filter (\<lambda>x. key x = 0) xs)"

lemma free_slots_le: "free_slots key xs \<le> length xs"
  by (simp add: free_slots_def)

definition used_keys :: "('a \<Rightarrow> int) \<Rightarrow> 'a list \<Rightarrow> int set" where
  "used_keys key xs = key ` set xs - {0}"

definition lookup_key :: "('a \<Rightarrow> int) \<Rightarrow> int \<Rightarrow> 'a list \<Rightarrow> nat option" where
  "lookup_key key k xs = scan_first (\<lambda>x. key x = k) xs"

section \<open>The contract\<close>

text \<open>\<open>release\<close> is how the table frees an entry.\<close>

locale slot_table =
  fixes key :: "'a \<Rightarrow> int"
    and release :: "'a \<Rightarrow> 'a"
  assumes release_free: "key (release x) = 0"
begin

lemma unique_update:
  assumes "unique_keys key xs"
    and "key v \<noteq> 0 \<Longrightarrow> \<forall>j < length xs. j \<noteq> i \<longrightarrow> key (xs ! j) \<noteq> key v"
  shows "unique_keys key (xs[i := v])"
proof (cases "i < length xs")
  case False with assms(1) show ?thesis by (simp add: list_update_beyond)
next
  case True
  show ?thesis
    unfolding unique_keys_def
  proof (intro allI impI)
    fix a b
    assume "a < length (xs[i := v])" "b < length (xs[i := v])"
      "key (xs[i := v] ! a) \<noteq> 0 \<and> key (xs[i := v] ! a) = key (xs[i := v] ! b)"
    then show "a = b"
      using assms True
      by (cases "a = i"; cases "b = i") (auto simp: unique_keys_def nth_list_update_if)
  qed
qed

lemma unique_insert:
  assumes "unique_keys key xs" "key v \<notin> used_keys key xs"
  shows "unique_keys key (xs[i := v])"
proof (rule unique_update [OF assms(1)])
  assume "key v \<noteq> 0"
  with assms(2) show "\<forall>j<length xs. j \<noteq> i \<longrightarrow> key (xs ! j) \<noteq> key v"
    by (auto simp: used_keys_def image_iff) (metis nth_mem)
qed

lemma unique_same_key:
  assumes "unique_keys key xs" "i < length xs" "key v = key (xs ! i)"
  shows "unique_keys key (xs[i := v])"
  by (rule unique_update [OF assms(1)])
    (use assms in \<open>auto simp: unique_keys_def\<close>)

lemma unique_release:
  assumes "unique_keys key xs"
  shows "unique_keys key (xs[i := release (xs ! i)])"
  by (rule unique_update [OF assms]) (simp add: release_free)

lemma lookup_unique:
  assumes "unique_keys key xs" "k \<noteq> 0"
  shows "lookup_key key k xs = Some i \<longleftrightarrow> i < length xs \<and> key (xs ! i) = k"
proof
  assume "lookup_key key k xs = Some i"
  then show "i < length xs \<and> key (xs ! i) = k"
    unfolding lookup_key_def by (simp add: scan_first_Some)
next
  assume i: "i < length xs \<and> key (xs ! i) = k"
  show "lookup_key key k xs = Some i"
    unfolding lookup_key_def
    by (rule scan_first_unique) (use i assms in \<open>auto simp: unique_keys_def\<close>)
qed

lemma lookup_insert:
  assumes "unique_keys key xs" "i < length xs" "key v \<noteq> 0" "key v \<notin> used_keys key xs"
  shows "lookup_key key (key v) (xs[i := v]) = Some i"
  using lookup_unique [OF unique_insert [OF assms(1,4), of i] assms(3), of i] assms(2) by simp

lemma lookup_insert_other:
  assumes u: "unique_keys key xs" and i: "i < length xs" "key (xs ! i) = 0"
    and v: "key v \<notin> used_keys key xs" "k \<noteq> key v" and k: "k \<noteq> 0"
  shows "lookup_key key k (xs[i := v]) = lookup_key key k xs"
proof -
  have "lookup_key key k (xs[i := v]) = Some j \<longleftrightarrow> lookup_key key k xs = Some j" for j
    unfolding lookup_unique [OF unique_insert [OF u v(1)] k] lookup_unique [OF u k]
    using i v(2) k by (cases "j = i") (auto simp: nth_list_update_if)
  then show ?thesis by (metis not_None_eq)
qed

lemma lookup_release:
  assumes u: "unique_keys key xs" and i: "i < length xs" and k: "k \<noteq> 0"
  shows "lookup_key key k (xs[i := release (xs ! i)])
    = (if key (xs ! i) = k then None else lookup_key key k xs)"
proof (cases "key (xs ! i) = k")
  case True
  have "\<not> key (xs[i := release (xs ! i)] ! j) = k" if "j < length xs" for j
    using u i k True that by (cases "j = i") (auto simp: release_free unique_keys_def)
  then show ?thesis
    using True by (auto simp: lookup_key_def scan_first_None in_set_conv_nth)
next
  case False
  have "lookup_key key k (xs[i := release (xs ! i)]) = Some j \<longleftrightarrow> lookup_key key k xs = Some j" for j
    unfolding lookup_unique [OF unique_release [OF u] k] lookup_unique [OF u k]
    using False k i by (cases "j = i") (auto simp: nth_list_update_if release_free)
  then show ?thesis using False by (metis not_None_eq)
qed

lemma free_insert:
  assumes "i < length xs" "key (xs ! i) = 0" "key v \<noteq> 0"
  shows "Suc (free_slots key (xs[i := v])) = free_slots key xs"
  unfolding free_slots_def by (rule length_filter_update) (use assms in auto)

lemma free_release:
  assumes "i < length xs" "key (xs ! i) \<noteq> 0"
  shows "free_slots key (xs[i := release (xs ! i)]) = Suc (free_slots key xs)"
proof -
  have "Suc (length (filter (\<lambda>x. key x = 0) ((xs[i := release (xs ! i)])[i := xs ! i])))
      = length (filter (\<lambda>x. key x = 0) (xs[i := release (xs ! i)]))"
    by (rule length_filter_update) (use assms in \<open>auto simp: release_free\<close>)
  then show ?thesis by (simp add: free_slots_def)
qed

lemma free_same_key:
  assumes "i < length xs" "key v = key (xs ! i)"
  shows "free_slots key (xs[i := v]) = free_slots key xs"
  unfolding free_slots_def by (rule length_filter_update_same) (use assms in auto)

lemma used_insert:
  assumes "i < length xs" "key (xs ! i) = 0"
  shows "used_keys key (xs[i := v]) \<subseteq> insert (key v) (used_keys key xs)"
  using set_update_subset_insert [of xs i v] by (force simp: used_keys_def)

end

end
