(* ===== verification/Objmeta.thy ===== *)
theory Objmeta
  imports Objmeta_Search Slot_Table
begin

text \<open>
  Inserting, deleting and changing objects (\<open>rtdb/kogmo_rtdb_objmeta.c\<close>, second part): the
  state transitions of the metadata table and of the heap behind it.
\<close>

section \<open>Insert\<close>

text \<open>The constant \<open>0.001\<close>, a \<open>double\<close> stored into a \<open>float\<close>.\<close>

definition min_interval :: cfloat where
  "min_interval = f32 (f64 (1 / 1000))"

definition apply_minhist :: "handle \<Rightarrow> obj_info \<Rightarrow> obj_info" where
  "apply_minhist h m = (case h_minhist h of None \<Rightarrow> m | Some (minhist, maxosize) \<Rightarrow>
     if h_debug h \<noteq> 0 \<and> history_interval m < minhist \<and> (maxosize = 0 \<or> size_max m \<le> maxosize)
     then m\<lparr>history_interval := minhist\<rparr> else m)"

definition apply_maxhist :: "handle \<Rightarrow> obj_info \<Rightarrow> obj_info" where
  "apply_maxhist h m = (case h_maxhist h of None \<Rightarrow> m | Some (maxhist, maxosize) \<Rightarrow>
     if h_debug h \<noteq> 0 \<and> history_interval m > maxhist \<and> (maxosize = 0 \<or> size_max m \<ge> maxosize)
     then m\<lparr>history_interval := maxhist\<rparr> else m)"

definition cycle_time :: "obj_info \<Rightarrow> cfloat" where
  "cycle_time m = MIN_CYCLETIME (min_cycletime m) (max_cycletime m)"

text \<open>Lines 349-376: the metadata of the new object, its oid still 0.\<close>

definition insert_init :: "handle \<Rightarrow> timestamp \<Rightarrow> obj_info \<Rightarrow> obj_info" where
  "insert_init h ts m =
     (let m = m\<lparr>oid := 0, created_ts := ts, lastmodified_ts := ts, created_proc := h_proc_oid h,
                lastmodified_proc := h_proc_oid h, deleted_ts := 0, deleted_proc := 0\<rparr>;
          m = (if history_interval m \<le> 0 then m\<lparr>history_interval := min_interval\<rparr> else m);
          m = (if max_cycletime m \<le> 0 then m\<lparr>max_cycletime := min_interval\<rparr> else m);
          m = (if min_cycletime m \<le> 0 then m\<lparr>min_cycletime := min_interval\<rparr> else m);
          m = m\<lparr>history_size := UNSIGNED_CEIL (f32 (f32 (history_interval m / cycle_time m) + 1))\<rparr>;
          m = (if size_max m = 0 then m\<lparr>history_size := 0\<rparr> else m);
          m = m\<lparr>history_slot := - 1, buffer_idx := 0\<rparr>
      in if odd (size_max m) then m\<lparr>size_max := int32 (size_max m + 1)\<rparr> else m)"

text \<open>The size of an object's data block, computed in \<open>int\<close>.\<close>

definition block_size :: "obj_info \<Rightarrow> int" where
  "block_size m = int32 (size_max m * history_size m)"

definition purge_time :: "obj_info \<Rightarrow> rtdb \<Rightarrow> timestamp" where
  "purge_time s db = kogmo_timestamp_add_secs (deleted_ts s)
     (if history_interval s > default_keep_deleted_interval db
      then history_interval s else default_keep_deleted_interval db)"

text \<open>Lines 384-417: a deleted slot of this process that keeps its memory.\<close>

definition reusable :: "handle \<Rightarrow> rtdb \<Rightarrow> timestamp \<Rightarrow> obj_info \<Rightarrow> obj_info \<Rightarrow> bool" where
  "reusable h db ts m s =
     (if oid s = 0 then False
      else if deleted_ts s = 0 then False
      else if created_proc s \<noteq> h_proc_oid h then False
      else if \<not> keep_alloc (flags s) then False
      else if block_size s \<noteq> block_size m then False
      else purge_time s db < ts)"

text \<open>
  Lines 438-461: the data block, allocated with the metadata lock released. The result is
  \<open>new_allocated_heap_idx\<close>, the metadata, and the state with the lock held again.
\<close>

definition insert_memory :: "handle \<Rightarrow> obj_info \<Rightarrow> rtdb \<Rightarrow> int \<times> obj_info \<times> rtdb" where
  "insert_memory h m db =
     (if size_max m \<noteq> 0 then
        let db = kogmo_rtdb_objmeta_unlock db;
            (p, db) = kogmo_rtdb_obj_mem_alloc h (block_size m) db;
            db = kogmo_rtdb_objmeta_lock db
        in (p, if p < 0 then m else m\<lparr>buffer_idx := p\<rparr>, db)
      else (0, m, db))"

text \<open>
  Lines 421-496, entered with the lock held: allocate the data block and take a free slot.
  The \<open>continue\<close> statements meant to retry leave the \<open>do ... while(0)\<close> loop.
\<close>

definition insert_alloc ::
    "handle \<Rightarrow> obj_info \<Rightarrow> rtdb \<Rightarrow> nat option \<times> obj_info \<times> int \<times> rtdb" where
  "insert_alloc h m db =
     (case insert_memory h m db of (new_idx, m, db) \<Rightarrow>
        if new_idx < 0 then (None, m, new_idx, db)
        else case scan_first (\<lambda>s. oid s = 0) (objmeta db) of
               Some i \<Rightarrow> (Some i, m, new_idx, db\<lparr>objmeta_free := uint32 (objmeta_free db - 1)\<rparr>)
             | None \<Rightarrow> (None, m, new_idx, db))"

text \<open>Lines 501-519: is there a clash with a unique object of this type and name?\<close>

fun unique_loop :: "handle \<Rightarrow> obj_info \<Rightarrow> rtdb \<Rightarrow> nat list \<Rightarrow> bool" where
  "unique_loop h m db [] = False"
| "unique_loop h m db (i # is) =
     (case fst (kogmo_rtdb_obj_searchinfo_nolock h None (otype m) 0 0 0 None (int i + 1) db) of
        Inl e \<Rightarrow> False
      | Inr tmp_oid \<Rightarrow>
          if tmp_oid \<le> 0 then False
          else case kogmo_rtdb_obj_findmeta_byid tmp_oid db of
                 None \<Rightarrow> unique_loop h m db is
               | Some k \<Rightarrow>
                   if strncmp_eq NAME_MAXLEN (name m) (name (objmeta db ! k))
                      \<and> (unique (flags (objmeta db ! k)) \<or> unique (flags m))
                   then True else unique_loop h m db is)"

text \<open>Lines 521-570.\<close>

definition insert_commit ::
    "handle \<Rightarrow> nat \<Rightarrow> obj_info \<Rightarrow> rtdb \<Rightarrow> (rtdb_error + int) \<times> obj_info \<times> rtdb" where
  "insert_commit h slot m db =
     (let db = upd_meta slot m db;
          free_oid = int32 (objmeta_oid_next db);
          db = db\<lparr>objmeta_oid_next := uint64 (objmeta_oid_next db + 1)\<rparr>
      in if free_oid \<le> 0 then
           let db = (if buffer_idx m \<noteq> 0
                     then kogmo_rtdb_obj_mem_free h (buffer_idx m) (block_size m) db else db)
           in (Inl ERR_OUTOFOBJ, m, kogmo_rtdb_objmeta_unlock db)
         else
           let m = (if parent_oid m = 0 \<and> free_oid > 1 then m\<lparr>parent_oid := 1\<rparr> else m);
               m = m\<lparr>oid := free_oid\<rparr>;
               db = upd_meta slot m db;
               db = kogmo_rtdb_objmeta_unlock_notify db;
               db = kogmo_rtdb_obj_trace_send (oid m) (created_ts m) TRACE_INSERTED None (- 1) db
           in (Inr (oid m), m, db))"

text \<open>Lines 381-496: the slot, the metadata with its block, and the memory just allocated.\<close>

definition insert_slot ::
    "handle \<Rightarrow> timestamp \<Rightarrow> obj_info \<Rightarrow> rtdb \<Rightarrow> nat option \<times> obj_info \<times> int \<times> rtdb" where
  "insert_slot h ts m db =
     (case scan_first (reusable h db ts m) (objmeta db) of
        Some i \<Rightarrow> (Some i, m\<lparr>buffer_idx := buffer_idx (objmeta db ! i)\<rparr>, 0, db)
      | None \<Rightarrow> insert_alloc h m db)"

text \<open>Lines 499-570.\<close>

fun insert_finish ::
    "handle \<Rightarrow> nat option \<times> obj_info \<times> int \<times> rtdb \<Rightarrow> (rtdb_error + int) \<times> obj_info \<times> rtdb" where
  "insert_finish h (slot, m, new_idx, db) =
     (if unique_loop h m db [0..<length (objmeta db)] then
        let db = kogmo_rtdb_objmeta_unlock db;
            db = (if new_idx \<noteq> 0 then kogmo_rtdb_obj_mem_free h new_idx (block_size m) db else db)
        in (Inl ERR_NOTUNIQ, m, db)
      else case slot of
             None \<Rightarrow> (Inl ERR_OUTOFOBJ, m, db)
           | Some i \<Rightarrow> insert_commit h i m db)"

definition kogmo_rtdb_obj_insert ::
    "handle \<Rightarrow> obj_info \<Rightarrow> rtdb \<Rightarrow> (rtdb_error + int) \<times> obj_info \<times> rtdb" where
  "kogmo_rtdb_obj_insert h m db =
     (let (ts, db) = kogmo_rtdb_timestamp_now db
      in if size_max m \<noteq> 0 \<and> size_max m < int base_size then (Inl ERR_INVALID, m, db)
         else
           let m = m\<lparr>name := (name m)[NAME_MAXLEN - 1 := NUL]\<rparr>
           in if cstr (name m) = [] then (Inl ERR_INVALID, m, db)
              else
                let m = insert_init h ts (apply_maxhist h (apply_minhist h m))
                in insert_finish h (insert_slot h ts m (kogmo_rtdb_objmeta_lock db)))"

section \<open>Delete\<close>

definition kogmo_rtdb_obj_purgeslot :: "handle \<Rightarrow> nat \<Rightarrow> rtdb \<Rightarrow> rtdb" where
  "kogmo_rtdb_obj_purgeslot h slot db =
     (let m = objmeta db ! slot;
          db = (if buffer_idx m \<noteq> 0
                then kogmo_rtdb_obj_mem_free h (buffer_idx m) (block_size m) db else db);
          db = upd_meta slot (m\<lparr>oid := 0\<rparr>) db
      in db\<lparr>objmeta_free := uint32 (objmeta_free db + 1)\<rparr>)"

text \<open>The loop over the ids of the depending objects; \<open>del\<close> is the recursive call.\<close>

fun delete_children ::
    "(obj_info \<Rightarrow> rtdb \<Rightarrow> rtdb option) \<Rightarrow> handle \<Rightarrow> int list \<Rightarrow> rtdb \<Rightarrow> rtdb option" where
  "delete_children del h [] db = Some db"
| "delete_children del h (c # cs) db =
     (if c = 0 then Some db
      else let (err, child, db) = kogmo_rtdb_obj_readinfo h c 0 zero_info db
           in case err of
                Inl _ \<Rightarrow> delete_children del h cs db
              | Inr _ \<Rightarrow>
                  if parent_delete (flags child)
                  then case del child db of None \<Rightarrow> None | Some db \<Rightarrow> delete_children del h cs db
                  else delete_children del h cs db)"

text \<open>Lines 626-641: may this process delete the object, and is it still there to delete?\<close>

definition delete_check :: "handle \<Rightarrow> obj_info \<Rightarrow> bool \<Rightarrow> rtdb_error option" where
  "delete_check h used imm =
     (if \<not> write_allow (flags used) \<and> created_proc used \<noteq> h_proc_oid h
         \<and> \<not> this_process_is_admin h then Some ERR_NOPERM
      else if deleted_ts used \<noteq> 0 \<and> \<not> immediately_delete (flags used) \<and> \<not> imm then Some ERR_NOTFOUND
      else None)"

text \<open>Lines 643-647: the array of the ids of the depending objects.\<close>

definition child_ids :: "handle \<Rightarrow> int \<Rightarrow> rtdb \<Rightarrow> int list" where
  "child_ids h i db =
     (case kogmo_rtdb_obj_searchinfo_nolock h (Some []) 0 i 0 0 (Some ((h_stack h)[0 := 0])) 0 db of
        (Inl _, idlist, _) \<Rightarrow> (the idlist)[0 := 0]
      | (Inr _, idlist, _) \<Rightarrow> the idlist)"

text \<open>Lines 649-674: mark the object as deleted, purge its slot if asked to, and notify.\<close>

definition delete_mark :: "handle \<Rightarrow> nat \<Rightarrow> bool \<Rightarrow> rtdb \<Rightarrow> obj_info \<times> rtdb" where
  "delete_mark h k imm db =
     (let (now, db) = kogmo_rtdb_timestamp_now db;
          used = (objmeta db ! k)\<lparr>deleted_proc := h_proc_oid h, deleted_ts := now\<rparr>;
          db = upd_meta k used db;
          m = used;
          db = (if immediately_delete (flags used) \<or> imm then kogmo_rtdb_obj_purgeslot h k db else db);
          db = kogmo_rtdb_objmeta_unlock_notify db;
          db = kogmo_rtdb_obj_do_notify_prepare k db;
          db = kogmo_rtdb_obj_do_notify k db;
          db = kogmo_rtdb_obj_trace_send (oid m) (deleted_ts m) TRACE_DELETED None (- 1) db
      in (m, db))"

text \<open>
  The first argument bounds the depth of the recursion; \<open>None\<close> means the bound was not
  enough.
\<close>

fun kogmo_rtdb_obj_delete_imm ::
    "nat \<Rightarrow> handle \<Rightarrow> obj_info \<Rightarrow> bool \<Rightarrow> rtdb \<Rightarrow> ((rtdb_error + int) \<times> obj_info \<times> rtdb) option" where
  "kogmo_rtdb_obj_delete_imm 0 h m imm db = None"
| "kogmo_rtdb_obj_delete_imm (Suc fuel) h m imm db =
     (let db = kogmo_rtdb_objmeta_lock db
      in case kogmo_rtdb_obj_findmeta_byid (oid m) db of
           None \<Rightarrow> Some (Inl ERR_NOTFOUND, m, kogmo_rtdb_objmeta_unlock db)
         | Some k \<Rightarrow>
             (case delete_check h (objmeta db ! k) imm of
                Some e \<Rightarrow> Some (Inl e, m, kogmo_rtdb_objmeta_unlock db)
              | None \<Rightarrow>
                  let idlist = child_ids h (oid m) db;
                      (m, db) = delete_mark h k imm db
                  in map_option (\<lambda>db. (Inr 0, m, db))
                       (delete_children
                          (\<lambda>child db. map_option (\<lambda>(_, _, db). db)
                                        (kogmo_rtdb_obj_delete_imm fuel h child False db))
                          h idlist db)))"

definition kogmo_rtdb_obj_delete ::
    "nat \<Rightarrow> handle \<Rightarrow> obj_info \<Rightarrow> rtdb \<Rightarrow> ((rtdb_error + int) \<times> obj_info \<times> rtdb) option" where
  "kogmo_rtdb_obj_delete fuel h m db = kogmo_rtdb_obj_delete_imm fuel h m False db"

section \<open>Changing metadata\<close>

definition changed_info :: "handle \<Rightarrow> timestamp \<Rightarrow> obj_info \<Rightarrow> obj_info \<Rightarrow> obj_info" where
  "changed_info h ts m used =
     (let used = used\<lparr>lastmodified_proc := h_proc_oid h, lastmodified_ts := ts\<rparr>;
          used = (if cstr (name m) \<noteq> [] then used\<lparr>name := strncpy NAME_MAXLEN (name m)\<rparr> else used);
          used = (if otype m \<noteq> 0 then used\<lparr>otype := otype m\<rparr> else used);
          used = (if parent_oid m \<noteq> 0 then used\<lparr>parent_oid := parent_oid m\<rparr> else used);
          used = (if max_cycletime m > 0 then used\<lparr>max_cycletime := max_cycletime m\<rparr> else used);
          used = (if min_cycletime m > 0 then used\<lparr>min_cycletime := min_cycletime m\<rparr> else used)
      in if history_interval m > 0 then used\<lparr>history_interval := history_interval m\<rparr> else used)"

definition kogmo_rtdb_obj_changeinfo ::
    "handle \<Rightarrow> int \<Rightarrow> obj_info \<Rightarrow> rtdb \<Rightarrow> (rtdb_error + int) \<times> obj_info \<times> rtdb" where
  "kogmo_rtdb_obj_changeinfo h i m db =
     (if \<not> this_process_is_admin h then (Inl ERR_NOPERM, m, db)
      else
        let (ts, db) = kogmo_rtdb_timestamp_now db;
            db = kogmo_rtdb_objmeta_lock db
        in case kogmo_rtdb_obj_findmeta_byid i db of
             None \<Rightarrow> (Inl ERR_NOTFOUND, m, kogmo_rtdb_objmeta_unlock db)
           | Some k \<Rightarrow>
               let m = m\<lparr>name := (name m)[NAME_MAXLEN - 1 := NUL]\<rparr>;
                   used = changed_info h ts m (objmeta db ! k);
                   db = upd_meta k used db;
                   db = kogmo_rtdb_objmeta_unlock_notify db;
                   db = kogmo_rtdb_obj_trace_send (oid used) (lastmodified_ts used) TRACE_CHANGED
                          (Some (int k)) (- 1) db
               in (Inr (oid used), m, db))"

end
