(* ===== verification/Objmeta_Inv.thy ===== *)
theory Objmeta_Inv
  imports Objmeta
begin

text \<open>
  The invariants of the metadata table and their preservation by insert, delete and change;
  what a successful insert does; the uniqueness of names.
\<close>

section \<open>The table invariant\<close>

interpretation objtab: slot_table oid "\<lambda>m. m\<lparr>oid := 0\<rparr>"
  by unfold_locales simp

lemma findmeta_lookup: "kogmo_rtdb_obj_findmeta_byid i db = lookup_key oid i (objmeta db)"
  by (simp add: kogmo_rtdb_obj_findmeta_byid_def lookup_key_def)

text \<open>
  Object ids are unique and below the counter, and the counter of free slots is right.
\<close>

definition table_ok :: "rtdb \<Rightarrow> bool" where
  "table_ok db \<longleftrightarrow> unique_keys oid (objmeta db)
     \<and> (\<forall>m \<in> set (objmeta db). 0 \<le> oid m \<and> oid m < objmeta_oid_next db)
     \<and> 1 \<le> objmeta_oid_next db
     \<and> objmeta_free db = int (free_slots oid (objmeta db))
     \<and> int (length (objmeta db)) < 2 ^ 32"

lemma table_ok_cong:
  "objmeta db' = objmeta db \<Longrightarrow> objmeta_oid_next db' = objmeta_oid_next db \<Longrightarrow>
   objmeta_free db' = objmeta_free db \<Longrightarrow> table_ok db' = table_ok db"
  by (simp add: table_ok_def)

lemma table_ok_same_meta: "same_meta db db' \<Longrightarrow> table_ok db' = table_ok db"
  by (rule table_ok_cong) (simp_all add: same_metaD)

lemma free_slots_pos: "i < length xs \<Longrightarrow> key (xs ! i) = 0 \<Longrightarrow> 0 < free_slots key xs"
  by (auto simp: free_slots_def length_greater_0_conv filter_empty_conv)

text \<open>An update that keeps the id keeps the invariant.\<close>

lemma table_ok_upd:
  assumes "table_ok db" "k < length (objmeta db)" "oid m = oid (objmeta db ! k)"
  shows "table_ok (upd_meta k m db)"
proof -
  have "\<forall>x \<in> set ((objmeta db)[k := m]). 0 \<le> oid x \<and> oid x < objmeta_oid_next db"
    using assms set_update_subset_insert [of "objmeta db" k m]
    by (auto simp: table_ok_def)
  with assms show ?thesis
    by (simp add: table_ok_def objtab.unique_same_key objtab.free_same_key)
qed

lemma purgeslot_objmeta:
  assumes "dsa_frame_ok (h_dsa h)"
  shows "objmeta (kogmo_rtdb_obj_purgeslot h k db) = (objmeta db)[k := (objmeta db ! k)\<lparr>oid := 0\<rparr>]"
    "objmeta_oid_next (kogmo_rtdb_obj_purgeslot h k db) = objmeta_oid_next db"
    "objmeta_free (kogmo_rtdb_obj_purgeslot h k db) = uint32 (objmeta_free db + 1)"
    "ticks (kogmo_rtdb_obj_purgeslot h k db) = ticks db"
    "clock (kogmo_rtdb_obj_purgeslot h k db) = clock db"
    "simmode (kogmo_rtdb_obj_purgeslot h k db) = simmode db"
    "sim_ts (kogmo_rtdb_obj_purgeslot h k db) = sim_ts db"
  using same_metaD [OF mem_free_frame [OF assms, of db "buffer_idx (objmeta db ! k)"
      "block_size (objmeta db ! k)"]]
  by (simp_all add: kogmo_rtdb_obj_purgeslot_def Let_def)

lemma purgeslot_table_ok:
  assumes "table_ok db" "dsa_frame_ok (h_dsa h)" "k < length (objmeta db)" "oid (objmeta db ! k) \<noteq> 0"
  shows "table_ok (kogmo_rtdb_obj_purgeslot h k db)"
proof -
  let ?xs = "objmeta db"
  have f: "free_slots oid (?xs[k := (?xs ! k)\<lparr>oid := 0\<rparr>]) = Suc (free_slots oid ?xs)"
    using objtab.free_release [of k ?xs] assms by simp
  have "free_slots oid (?xs[k := (?xs ! k)\<lparr>oid := 0\<rparr>]) \<le> length ?xs"
    using free_slots_le [of oid "?xs[k := (?xs ! k)\<lparr>oid := 0\<rparr>]"] by simp
  then have "uint32 (objmeta_free db + 1) = int (Suc (free_slots oid ?xs))"
    using assms(1) f by (subst uint32_id) (auto simp: table_ok_def)
  moreover have "\<forall>x \<in> set (?xs[k := (?xs ! k)\<lparr>oid := 0\<rparr>]). 0 \<le> oid x \<and> oid x < objmeta_oid_next db"
    using assms(1) set_update_subset_insert [of ?xs k "(?xs ! k)\<lparr>oid := 0\<rparr>"]
    by (auto simp: table_ok_def)
  ultimately show ?thesis
    using assms(1) f objtab.unique_release [of ?xs k]
    by (simp add: table_ok_def purgeslot_objmeta [OF assms(2)])
qed

section \<open>Insert, step by step\<close>

text \<open>What the steps before the commit leave alone.\<close>

definition same_table :: "rtdb \<Rightarrow> rtdb \<Rightarrow> bool" where
  "same_table db db' \<longleftrightarrow> objmeta db' = objmeta db \<and> objmeta_oid_next db' = objmeta_oid_next db
     \<and> clock db' = clock db \<and> simmode db' = simmode db \<and> sim_ts db' = sim_ts db"

lemma buf_ex: "\<exists>b. m = m\<lparr>buffer_idx := b\<rparr>"
  by (rule exI [of _ "buffer_idx m"]) simp

lemma insert_memory_cases:
  assumes "dsa_frame_ok (h_dsa h)" "insert_memory h m db = (p, m', db')"
  shows "same_meta db db' \<and> (\<exists>b. m' = m\<lparr>buffer_idx := b\<rparr>)"
proof (cases "size_max m = 0")
  case True
  with assms(2) show ?thesis using buf_ex by (auto simp: insert_memory_def)
next
  case False
  let ?al = "kogmo_rtdb_obj_mem_alloc h (block_size m) (kogmo_rtdb_objmeta_unlock db)"
  have "same_meta (kogmo_rtdb_objmeta_unlock db) (snd ?al)"
    using mem_alloc_frame [OF assms(1)] by (metis prod.collapse)
  then have "same_meta db (snd ?al)"
    using same_meta_trans [OF same_meta_emit] by (simp add: kogmo_rtdb_objmeta_unlock_def)
  then have "same_meta db db'"
    using assms(2) False same_meta_trans [OF _ same_meta_emit]
    by (auto simp: insert_memory_def Let_def split_beta kogmo_rtdb_objmeta_lock_def)
  moreover have "m' = (if fst ?al < 0 then m else m\<lparr>buffer_idx := fst ?al\<rparr>)"
    using assms(2) False by (auto simp: insert_memory_def Let_def split_beta)
  then have "\<exists>b. m' = m\<lparr>buffer_idx := b\<rparr>" using buf_ex by (cases "fst ?al < 0") auto
  ultimately show ?thesis by blast
qed

lemma insert_alloc_cases:
  assumes "dsa_frame_ok (h_dsa h)" "insert_alloc h m db = (slot, m', p, db')"
  shows "same_table db db'
    \<and> (case slot of None \<Rightarrow> objmeta_free db' = objmeta_free db
       | Some i \<Rightarrow> i < length (objmeta db) \<and> oid (objmeta db ! i) = 0
           \<and> objmeta_free db' = uint32 (objmeta_free db - 1))
    \<and> (\<exists>b. m' = m\<lparr>buffer_idx := b\<rparr>)"
proof -
  obtain p1 m1 db1 where a: "insert_memory h m db = (p1, m1, db1)" by (metis prod_cases3)
  have f: "same_meta db db1" and b: "\<exists>b. m1 = m\<lparr>buffer_idx := b\<rparr>"
    using insert_memory_cases [OF assms(1) a] by blast+
  have "m' = m1" using assms(2) a by (auto simp: insert_alloc_def split: if_splits option.splits)
  with b show ?thesis
    using assms(2) a same_metaD [OF f]
    by (simp add: insert_alloc_def same_table_def scan_first_Some split: if_splits option.splits)
      (auto simp: same_table_def scan_first_Some)
qed

lemma insert_init_fields [simp]:
  "oid (insert_init h ts m) = 0" "name (insert_init h ts m) = name m"
  "otype (insert_init h ts m) = otype m" "parent_oid (insert_init h ts m) = parent_oid m"
  "created_ts (insert_init h ts m) = ts" "created_proc (insert_init h ts m) = h_proc_oid h"
  "deleted_ts (insert_init h ts m) = 0" "flags (insert_init h ts m) = flags m"
  "history_slot (insert_init h ts m) = - 1"
  by (simp_all add: insert_init_def Let_def)

lemma apply_hist_fields [simp]:
  "name (apply_minhist h m) = name m" "name (apply_maxhist h m) = name m"
  "otype (apply_minhist h m) = otype m" "otype (apply_maxhist h m) = otype m"
  "parent_oid (apply_minhist h m) = parent_oid m" "parent_oid (apply_maxhist h m) = parent_oid m"
  "flags (apply_minhist h m) = flags m" "flags (apply_maxhist h m) = flags m"
  "size_max (apply_minhist h m) = size_max m" "size_max (apply_maxhist h m) = size_max m"
  by (simp_all add: apply_minhist_def apply_maxhist_def split: option.splits)

text \<open>The metadata that goes into the table, apart from the place of its data block.\<close>

definition insert_info :: "handle \<Rightarrow> timestamp \<Rightarrow> obj_info \<Rightarrow> obj_info" where
  "insert_info h ts m = insert_init h ts (apply_maxhist h (apply_minhist h
     (m\<lparr>name := (name m)[NAME_MAXLEN - 1 := NUL]\<rparr>)))"

lemma insert_slot_cases:
  assumes d: "dsa_frame_ok (h_dsa h)" and R: "insert_slot h ts m0 db0 = (slot, m1, p, db1)"
    and st0: "same_table db db0" "objmeta_free db0 = objmeta_free db"
  shows "same_table db db1 \<and> (\<exists>b. m1 = m0\<lparr>buffer_idx := b\<rparr>)
      \<and> (case slot of None \<Rightarrow> objmeta_free db1 = objmeta_free db
         | Some i \<Rightarrow> i < length (objmeta db) \<and>
           ((oid (objmeta db ! i) = 0 \<and> objmeta_free db1 = uint32 (objmeta_free db - 1))
            \<or> (oid (objmeta db ! i) \<noteq> 0 \<and> deleted_ts (objmeta db ! i) \<noteq> 0
               \<and> created_proc (objmeta db ! i) = h_proc_oid h \<and> keep_alloc (flags (objmeta db ! i))
               \<and> objmeta_free db1 = objmeta_free db)))"
proof (cases "scan_first (reusable h db0 ts m0) (objmeta db0)")
  case None
  then have "insert_alloc h m0 db0 = (slot, m1, p, db1)" using R by (simp add: insert_slot_def)
  from insert_alloc_cases [OF d this] st0 show ?thesis
    by (auto simp: same_table_def split: option.splits)
next
  case (Some i)
  then have "i < length (objmeta db)" "reusable h db0 ts m0 (objmeta db ! i)"
    using st0 by (auto simp: scan_first_Some same_table_def)
  moreover from R Some have "slot = Some i" "db1 = db0"
    "m1 = m0\<lparr>buffer_idx := buffer_idx (objmeta db0 ! i)\<rparr>" by (auto simp: insert_slot_def)
  ultimately show ?thesis
    using st0 by (auto simp: reusable_def split: if_splits)
qed

text \<open>
  The ways an insert ends. \<open>db1\<close> is the state before the last step, \<open>m1\<close> the metadata then.
\<close>

lemma insert_cases:
  assumes ins: "kogmo_rtdb_obj_insert h m db = (r, m', db')" and d: "dsa_frame_ok (h_dsa h)"
  obtains
    (invalid) "r = Inl ERR_INVALID" "same_table db db'" "objmeta_free db' = objmeta_free db"
  | (clash) b m1 db1 where "r = Inl ERR_NOTUNIQ"
      "m1 = (insert_info h (fst (kogmo_rtdb_timestamp_now db)) m)\<lparr>buffer_idx := b\<rparr>"
      "same_table db db1" "unique_loop h m1 db1 [0..<length (objmeta db)]"
      "objmeta db' = objmeta db1" "objmeta_oid_next db' = objmeta_oid_next db1"
  | (noslot) b m1 where "r = Inl ERR_OUTOFOBJ" "same_table db db'" "objmeta_free db' = objmeta_free db"
      "m1 = (insert_info h (fst (kogmo_rtdb_timestamp_now db)) m)\<lparr>buffer_idx := b\<rparr>"
      "\<not> unique_loop h m1 db' [0..<length (objmeta db)]"
  | (commit) b m1 db1 i where "insert_commit h i m1 db1 = (r, m', db')"
      "m1 = (insert_info h (fst (kogmo_rtdb_timestamp_now db)) m)\<lparr>buffer_idx := b\<rparr>"
      "same_table db db1" "i < length (objmeta db)"
      "\<not> unique_loop h m1 db1 [0..<length (objmeta db)]"
      "(oid (objmeta db ! i) = 0 \<and> objmeta_free db1 = uint32 (objmeta_free db - 1))
        \<or> (oid (objmeta db ! i) \<noteq> 0 \<and> deleted_ts (objmeta db ! i) \<noteq> 0
            \<and> created_proc (objmeta db ! i) = h_proc_oid h \<and> keep_alloc (flags (objmeta db ! i))
            \<and> objmeta_free db1 = objmeta_free db)"
proof -
  let ?ts = "fst (kogmo_rtdb_timestamp_now db)"
  let ?db0 = "kogmo_rtdb_objmeta_lock (snd (kogmo_rtdb_timestamp_now db))"
  let ?m0 = "insert_info h ?ts m"
  have st0: "same_table db ?db0" "objmeta_free ?db0 = objmeta_free db"
    by (simp_all add: same_table_def ipc_defs)
  show thesis
  proof (cases "size_max m \<noteq> 0 \<and> size_max m < int base_size
      \<or> cstr ((name m)[NAME_MAXLEN - 1 := NUL]) = []")
    case True
    with ins show thesis
      by (intro invalid) (auto simp: kogmo_rtdb_obj_insert_def Let_def split_beta same_table_def
          split: if_splits)
  next
    case False
    obtain slot m1 p db1 where R: "insert_slot h ?ts ?m0 ?db0 = (slot, m1, p, db1)"
      by (metis prod_cases4)
    have "kogmo_rtdb_obj_insert h m db = insert_finish h (insert_slot h ?ts ?m0 ?db0)"
      using False unfolding kogmo_rtdb_obj_insert_def insert_info_def Let_def split_beta
      by (simp del: insert_finish.simps) blast
    with ins R have res: "insert_finish h (slot, m1, p, db1) = (r, m', db')" by simp
    have props: "same_table db db1 \<and> (\<exists>b. m1 = ?m0\<lparr>buffer_idx := b\<rparr>)
      \<and> (case slot of None \<Rightarrow> objmeta_free db1 = objmeta_free db
         | Some i \<Rightarrow> i < length (objmeta db) \<and>
           ((oid (objmeta db ! i) = 0 \<and> objmeta_free db1 = uint32 (objmeta_free db - 1))
            \<or> (oid (objmeta db ! i) \<noteq> 0 \<and> deleted_ts (objmeta db ! i) \<noteq> 0
               \<and> created_proc (objmeta db ! i) = h_proc_oid h \<and> keep_alloc (flags (objmeta db ! i))
               \<and> objmeta_free db1 = objmeta_free db)))"
      using R st0 by (rule insert_slot_cases [OF d])
    then obtain b where m1: "m1 = ?m0\<lparr>buffer_idx := b\<rparr>" and st: "same_table db db1" by auto
    have len: "length (objmeta db1) = length (objmeta db)" using st by (simp add: same_table_def)
    show thesis
    proof (cases "unique_loop h m1 db1 [0..<length (objmeta db)]")
      case True
      have "same_meta db1 db'"
        using res True len same_meta_trans [OF same_meta_emit mem_free_frame [OF d]]
        by (auto simp: Let_def kogmo_rtdb_objmeta_unlock_def)
      from same_metaD [OF this] res True len m1 st show thesis
        by (intro clash) (auto simp: Let_def)
    next
      case False
      show thesis
      proof (cases slot)
        case None
        with res False len props m1 show thesis by (intro noslot) (auto simp: Let_def)
      next
        case (Some i)
        with res False len props m1 st show thesis by (intro commit) (auto simp: Let_def)
      qed
    qed
  qed
qed

section \<open>What the commit does\<close>

definition commit_info :: "int \<Rightarrow> obj_info \<Rightarrow> obj_info" where
  "commit_info i m = (if parent_oid m = 0 \<and> i > 1 then m\<lparr>parent_oid := 1\<rparr> else m)\<lparr>oid := i\<rparr>"

lemma commit_info_fields [simp]:
  "oid (commit_info i m) = i" "name (commit_info i m) = name m" "otype (commit_info i m) = otype m"
  "created_ts (commit_info i m) = created_ts m" "created_proc (commit_info i m) = created_proc m"
  "deleted_ts (commit_info i m) = deleted_ts m" "flags (commit_info i m) = flags m"
  "size_max (commit_info i m) = size_max m" "history_size (commit_info i m) = history_size m"
  "history_slot (commit_info i m) = history_slot m" "buffer_idx (commit_info i m) = buffer_idx m"
  "parent_oid (commit_info i m) = (if parent_oid m = 0 \<and> i > 1 then 1 else parent_oid m)"
  by (simp_all add: commit_info_def)

lemma insert_commit_ok:
  assumes "insert_commit h i m db = (r, m', db')" "1 \<le> objmeta_oid_next db" "objmeta_oid_next db < 2 ^ 31"
  shows "r = Inr (objmeta_oid_next db) \<and> m' = commit_info (objmeta_oid_next db) m
    \<and> objmeta db' = (objmeta db)[i := m'] \<and> objmeta_oid_next db' = objmeta_oid_next db + 1
    \<and> objmeta_free db' = objmeta_free db"
proof -
  have "int32 (objmeta_oid_next db) = objmeta_oid_next db"
    using assms(2,3) by (intro int32_id) (simp add: in_int32_def)
  moreover have "uint64 (objmeta_oid_next db + 1) = objmeta_oid_next db + 1"
    using assms(2,3) by (intro uint64_id) simp_all
  ultimately show ?thesis
    using assms by (auto simp: insert_commit_def Let_def ipc_defs commit_info_def)
qed

section \<open>Insert keeps the table invariant\<close>

lemma used_keys_next: "table_ok db \<Longrightarrow> objmeta_oid_next db \<notin> used_keys oid (objmeta db)"
  by (auto simp: table_ok_def used_keys_def)

lemma table_ok_new:
  assumes ok: "table_ok db" and i: "i < length (objmeta db)" and v: "oid v = objmeta_oid_next db"
    and xs: "objmeta db' = (objmeta db)[i := v]" "objmeta_oid_next db' = objmeta_oid_next db + 1"
    and f: "(oid (objmeta db ! i) = 0 \<and> objmeta_free db' = uint32 (objmeta_free db - 1))
      \<or> (oid (objmeta db ! i) \<noteq> 0 \<and> objmeta_free db' = objmeta_free db)"
  shows "table_ok db'"
proof -
  let ?xs = "objmeta db"
  have nz: "oid v \<noteq> 0" using ok v by (auto simp: table_ok_def)
  have u: "unique_keys oid (?xs[i := v])"
    using ok used_keys_next [OF ok] v by (auto simp: table_ok_def intro: objtab.unique_insert)
  have b: "\<forall>x \<in> set (?xs[i := v]). 0 \<le> oid x \<and> oid x < objmeta_oid_next db + 1"
    using ok v set_update_subset_insert [of ?xs i v] by (fastforce simp: table_ok_def)
  have "objmeta_free db' = int (free_slots oid (?xs[i := v]))"
    using f
  proof
    assume a: "oid (?xs ! i) = 0 \<and> objmeta_free db' = uint32 (objmeta_free db - 1)"
    then have "Suc (free_slots oid (?xs[i := v])) = free_slots oid ?xs"
      using objtab.free_insert [of i ?xs v] i nz by simp
    moreover have "free_slots oid (?xs[i := v]) \<le> length ?xs"
      using free_slots_le [of oid "?xs[i := v]"] by simp
    ultimately show ?thesis
      using a ok by (auto simp: table_ok_def)
  next
    assume a: "oid (?xs ! i) \<noteq> 0 \<and> objmeta_free db' = objmeta_free db"
    have "length (filter (\<lambda>x. oid x = 0) (?xs[i := v])) = length (filter (\<lambda>x. oid x = 0) ?xs)"
      by (rule length_filter_update_same) (use a i nz in auto)
    with a ok show ?thesis by (simp add: table_ok_def free_slots_def)
  qed
  with u b ok xs show ?thesis by (simp add: table_ok_def)
qed

lemma insert_table_ok:
  assumes "table_ok db" "objmeta_oid_next db < 2 ^ 31" "dsa_frame_ok (h_dsa h)"
    and ins: "kogmo_rtdb_obj_insert h m db = (r, m', db')" and r: "r \<noteq> Inl ERR_NOTUNIQ"
  shows "table_ok db'"
  using ins assms(3)
proof (cases rule: insert_cases)
  case invalid
  with assms(1) show ?thesis using table_ok_cong [of db' db] by (simp add: same_table_def)
next
  case clash with r show ?thesis by simp
next
  case noslot
  with assms(1) show ?thesis using table_ok_cong [of db' db] by (simp add: same_table_def)
next
  case (commit b m1 db1 i)
  have n: "objmeta_oid_next db1 = objmeta_oid_next db" "objmeta db1 = objmeta db"
    using commit(3) by (simp_all add: same_table_def)
  have "1 \<le> objmeta_oid_next db" using assms(1) by (simp add: table_ok_def)
  then have c: "m' = commit_info (objmeta_oid_next db) m1" "objmeta db' = (objmeta db)[i := m']"
    "objmeta_oid_next db' = objmeta_oid_next db + 1" "objmeta_free db' = objmeta_free db1"
    using insert_commit_ok [OF commit(1)] assms(2) n by simp_all
  show ?thesis
    by (rule table_ok_new [OF assms(1) commit(4), of m']) (use c commit(6) in auto)
qed

section \<open>Unique names\<close>

text \<open>
  A live object of the requested type (any type if it is 0) has the same name, and one of
  the two wants to be the only one.
\<close>

definition name_clash :: "obj_info \<Rightarrow> obj_info list \<Rightarrow> bool" where
  "name_clash m xs \<longleftrightarrow> (\<exists>s \<in> set xs. search_match (\<lambda>_. True) (otype m) 0 0 0 False s
      \<and> strncmp_eq NAME_MAXLEN (name m) (name s) \<and> (unique (flags s) \<or> unique (flags m)))"

lemma unique_loop_step:
  assumes ok: "unique_keys oid (objmeta db)" "\<forall>m \<in> set (objmeta db). 0 \<le> oid m"
  shows "unique_loop h m db (i # is) =
    (let M = filter (search_match (\<lambda>_. True) (otype m) 0 0 0 False) (objmeta db) in
     if i < length M
     then (strncmp_eq NAME_MAXLEN (name m) (name (M ! i)) \<and> (unique (flags (M ! i)) \<or> unique (flags m)))
          \<or> unique_loop h m db is
     else False)"
proof -
  define M where "M = filter (search_match (\<lambda>_. True) (otype m) 0 0 0 False) (objmeta db)"
  have q: "parse_name h None (otype m) = Query (\<lambda>_. True) (otype m)" by (simp add: parse_name_def)
  have r: "fst (kogmo_rtdb_obj_searchinfo_nolock h None (otype m) 0 0 0 None (int i + 1) db) =
      (if i < length M then Inr (oid (M ! i)) else Inl ERR_NOTFOUND)"
    using search_nth [OF q, of "int i + 1" 0 0 0 True False db]
    by (auto simp: kogmo_rtdb_obj_searchinfo_nolock_def M_def matching_def parent_missing_def
        Let_def nat_add_distrib)
  show ?thesis
  proof (cases "i < length M")
    case False with r show ?thesis by (simp add: M_def)
  next
    case True
    then have s: "M ! i \<in> set (objmeta db)" "search_match (\<lambda>_. True) (otype m) 0 0 0 False (M ! i)"
      using nth_mem [OF True] unfolding M_def by auto
    then have "oid (M ! i) \<noteq> 0" by (auto simp: search_match_def split: if_splits)
    moreover from s(1) ok(2) have "0 \<le> oid (M ! i)" by simp
    ultimately have p: "0 < oid (M ! i)" by simp
    obtain k where k: "k < length (objmeta db)" "objmeta db ! k = M ! i"
      using s(1) by (auto simp: in_set_conv_nth)
    then have "kogmo_rtdb_obj_findmeta_byid (oid (M ! i)) db = Some k"
      unfolding findmeta_lookup using p by (subst objtab.lookup_unique [OF ok(1)]) auto
    with r True p k show ?thesis unfolding M_def [symmetric] Let_def by auto
  qed
qed

lemma unique_loop_iff:
  assumes ok: "unique_keys oid (objmeta db)" "\<forall>m \<in> set (objmeta db). 0 \<le> oid m"
  shows "unique_loop h m db [0..<length (objmeta db)] \<longleftrightarrow> name_clash m (objmeta db)"
proof -
  define M where "M = filter (search_match (\<lambda>_. True) (otype m) 0 0 0 False) (objmeta db)"
  let ?c = "\<lambda>s. strncmp_eq NAME_MAXLEN (name m) (name s) \<and> (unique (flags s) \<or> unique (flags m))"
  define C where "C i \<longleftrightarrow> i < length M \<and> ?c (M ! i)" for i
  have ex: "(\<exists>i. a \<le> i \<and> i < n \<and> C i) \<longleftrightarrow> C a \<or> (\<exists>i. Suc a \<le> i \<and> i < n \<and> C i)" if "a < n" for a n
    using that by (metis Suc_le_eq le_less)
  have C: "C i \<Longrightarrow> i < length M" for i by (simp add: C_def)
  have "unique_loop h m db [a..<n] \<longleftrightarrow> (\<exists>i. a \<le> i \<and> i < n \<and> C i)" for a n
  proof (induction "n - a" arbitrary: a)
    case 0 then show ?case by simp
  next
    case (Suc d)
    then have u: "[a..<n] = a # [Suc a..<n]" and d: "d = n - Suc a" and an: "a < n"
      by (simp_all add: upt_conv_Cons)
    have s: "unique_loop h m db (a # [Suc a..<n]) =
        (if a < length M then C a \<or> unique_loop h m db [Suc a..<n] else False)"
      unfolding unique_loop_step [OF ok] M_def [symmetric] Let_def C_def by auto
    show ?case
    proof (cases "a < length M")
      case True with s u Suc(1) [OF d] ex [OF an] show ?thesis by simp
    next
      case False
      then have "\<not> (\<exists>i. a \<le> i \<and> i < n \<and> C i)" using C by fastforce
      with False s u show ?thesis by simp
    qed
  qed
  then have "unique_loop h m db [0..<length (objmeta db)] \<longleftrightarrow> (\<exists>i. i < length (objmeta db) \<and> C i)"
    by simp
  also have "\<dots> \<longleftrightarrow> (\<exists>i < length M. ?c (M ! i))"
  proof -
    have "length M \<le> length (objmeta db)" by (simp add: M_def)
    then show ?thesis unfolding C_def by (meson less_le_trans)
  qed
  also have "\<dots> \<longleftrightarrow> (\<exists>s \<in> set M. ?c s)" by (metis in_set_conv_nth)
  finally show ?thesis by (auto simp: name_clash_def M_def)
qed

lemma unique_loop_table:
  "table_ok db \<Longrightarrow> objmeta db' = objmeta db \<Longrightarrow>
    unique_loop h m db' [0..<length (objmeta db)] \<longleftrightarrow> name_clash m (objmeta db)"
  using unique_loop_iff [of db' h m] by (simp add: table_ok_def)

section \<open>What a successful insert does\<close>

lemma insert_ok:
  assumes ok: "table_ok db" "objmeta_oid_next db < 2 ^ 31" "dsa_frame_ok (h_dsa h)"
    and ins: "kogmo_rtdb_obj_insert h m db = (Inr i, m', db')"
  obtains k b where "i = objmeta_oid_next db" "k < length (objmeta db)"
    "objmeta db' = (objmeta db)[k := m']"
    "oid (objmeta db ! k) = 0 \<or> deleted_ts (objmeta db ! k) \<noteq> 0"
    "m' = commit_info i ((insert_info h (fst (kogmo_rtdb_timestamp_now db)) m)\<lparr>buffer_idx := b\<rparr>)"
    "\<not> name_clash m' (objmeta db)"
  using ins ok(3)
proof (cases rule: insert_cases)
  case (commit b m1 db1 k)
  have n: "objmeta_oid_next db1 = objmeta_oid_next db" "objmeta db1 = objmeta db"
    using commit(3) by (simp_all add: same_table_def)
  have "1 \<le> objmeta_oid_next db" using ok(1) by (simp add: table_ok_def)
  then have c: "i = objmeta_oid_next db" "m' = commit_info (objmeta_oid_next db) m1"
    "objmeta db' = (objmeta db)[k := m']"
    using insert_commit_ok [OF commit(1)] ok(2) n by simp_all
  have "\<not> name_clash m' (objmeta db)"
    using commit(5) unique_loop_table [OF ok(1) n(2)] c(2) by (simp add: name_clash_def)
  with commit c show thesis by (intro that [of k b]) auto
qed simp_all

text \<open>An object that a search without a time finds.\<close>

definition live :: "obj_info \<Rightarrow> bool" where
  "live m \<longleftrightarrow> oid m \<noteq> 0 \<and> created_ts m \<noteq> 0 \<and> deleted_ts m = 0"

lemma search_match_live:
  "search_match (\<lambda>_. True) ot 0 0 0 False s \<longleftrightarrow> live s \<and> (otype s = ot \<or> ot = 0)"
  by (auto simp: search_match_def live_def)

text \<open>No two live objects of the same type and name, one of which is flagged unique.\<close>

definition names_ok :: "obj_info list \<Rightarrow> bool" where
  "names_ok xs \<longleftrightarrow> (\<forall>i < length xs. \<forall>j < length xs. i \<noteq> j \<and> live (xs ! i) \<and> live (xs ! j)
     \<and> otype (xs ! i) = otype (xs ! j) \<and> strncmp_eq NAME_MAXLEN (name (xs ! i)) (name (xs ! j))
     \<longrightarrow> \<not> unique (flags (xs ! i)))"

lemma names_ok_update:
  assumes "names_ok xs" "i < length xs"
    and "live v \<Longrightarrow> \<forall>j < length xs. j \<noteq> i \<and> live (xs ! j) \<and> otype (xs ! j) = otype v
           \<and> strncmp_eq NAME_MAXLEN (name v) (name (xs ! j))
           \<longrightarrow> \<not> unique (flags v) \<and> \<not> unique (flags (xs ! j))"
  shows "names_ok (xs[i := v])"
  unfolding names_ok_def
proof (intro allI impI)
  fix a b
  assume "a < length (xs[i := v])" "b < length (xs[i := v])"
    and h: "a \<noteq> b \<and> live (xs[i := v] ! a) \<and> live (xs[i := v] ! b)
      \<and> otype (xs[i := v] ! a) = otype (xs[i := v] ! b)
      \<and> strncmp_eq NAME_MAXLEN (name (xs[i := v] ! a)) (name (xs[i := v] ! b))"
  then have ab: "a < length xs" "b < length xs" by simp_all
  consider "a = i" "b \<noteq> i" | "a \<noteq> i" "b = i" | "a \<noteq> i" "b \<noteq> i" using h by auto
  then show "\<not> unique (flags (xs[i := v] ! a))"
  proof cases
    case 1 then show ?thesis using h ab assms by (auto simp: nth_list_update_if)
  next
    case 2
    then show ?thesis using h ab assms strncmp_eq_sym by (auto simp: nth_list_update_if)
  next
    case 3 then show ?thesis using h ab assms(1) by (auto simp: names_ok_def)
  qed
qed

lemma insert_names_ok:
  assumes "table_ok db" "objmeta_oid_next db < 2 ^ 31" "dsa_frame_ok (h_dsa h)" "names_ok (objmeta db)"
    and ins: "kogmo_rtdb_obj_insert h m db = (r, m', db')"
  shows "names_ok (objmeta db')"
proof (cases r)
  case (Inr i)
  with ins have "kogmo_rtdb_obj_insert h m db = (Inr i, m', db')" by simp
  then show ?thesis
  proof (rule insert_ok [OF assms(1-3)])
    fix k b
    assume k: "k < length (objmeta db)" "objmeta db' = (objmeta db)[k := m']"
      and c: "\<not> name_clash m' (objmeta db)"
    have "names_ok ((objmeta db)[k := m'])"
      by (rule names_ok_update [OF assms(4) k(1)])
        (use c in \<open>auto simp: name_clash_def search_match_live\<close>)
    with k(2) show ?thesis by simp
  qed
next
  case (Inl e)
  have "objmeta db' = objmeta db"
    using ins assms(3)
  proof (cases rule: insert_cases)
    case (commit b m1 db1 i)
    have "r = Inr (objmeta_oid_next db1)"
      using insert_commit_ok [OF commit(1)] assms(1,2) commit(3)
      by (simp add: same_table_def table_ok_def)
    with Inl show ?thesis by simp
  qed (simp_all add: same_table_def)
  with assms(4) show ?thesis by simp
qed

end
