(* ===== verification/Objmeta_Delete.thy ===== *)
theory Objmeta_Delete
  imports Objmeta_Inv
begin

text \<open>
  Deleting objects: the recursion over depending objects returns, keeps the invariants, and
  leaves no depending object behind that this process may delete.
\<close>

section \<open>Marking one object\<close>

lemma delete_mark_objmeta:
  assumes "dsa_frame_ok (h_dsa h)" "k < length (objmeta db)"
  shows "objmeta (snd (delete_mark h k imm db)) = (objmeta db)[k :=
      (objmeta db ! k)\<lparr>deleted_proc := h_proc_oid h, deleted_ts := fst (kogmo_rtdb_timestamp_now db),
        oid := (if immediately_delete (flags (objmeta db ! k)) \<or> imm then 0 else oid (objmeta db ! k))\<rparr>]"
    "clock (snd (delete_mark h k imm db)) = clock db"
    "simmode (snd (delete_mark h k imm db)) = simmode db"
    "sim_ts (snd (delete_mark h k imm db)) = sim_ts db"
    "objmeta_oid_next (snd (delete_mark h k imm db)) = objmeta_oid_next db"
  using assms by (simp_all add: delete_mark_def Let_def split_beta ipc_defs purgeslot_objmeta)

lemma delete_mark_table_ok:
  assumes "table_ok db" "dsa_frame_ok (h_dsa h)" "k < length (objmeta db)" "oid (objmeta db ! k) \<noteq> 0"
  shows "table_ok (snd (delete_mark h k imm db))"
proof -
  let ?db = "snd (kogmo_rtdb_timestamp_now db)"
  let ?u = "(objmeta ?db ! k)\<lparr>deleted_proc := h_proc_oid h,
      deleted_ts := fst (kogmo_rtdb_timestamp_now db)\<rparr>"
  let ?db1 = "upd_meta k ?u ?db"
  let ?db2 = "if immediately_delete (flags ?u) \<or> imm then kogmo_rtdb_obj_purgeslot h k ?db1 else ?db1"
  have "table_ok ?db" using assms(1) table_ok_cong [of ?db db] by simp
  then have 1: "table_ok ?db1" using assms by (intro table_ok_upd) simp_all
  have 2: "table_ok ?db2" using 1 purgeslot_table_ok [OF 1 assms(2), of k] assms by simp
  have "objmeta (snd (delete_mark h k imm db)) = objmeta ?db2"
    "objmeta_oid_next (snd (delete_mark h k imm db)) = objmeta_oid_next ?db2"
    "objmeta_free (snd (delete_mark h k imm db)) = objmeta_free ?db2"
    by (simp_all add: delete_mark_def Let_def split_beta ipc_defs)
  from table_ok_cong [OF this] 2 show ?thesis by simp
qed

section \<open>What every step of a deletion satisfies, the deletion satisfies\<close>

text \<open>
  \<open>R\<close> relates the states around a deletion: it is closed under sequencing, under taking and
  releasing the metadata lock, and under marking an object that passed the checks.
\<close>

locale delete_steps =
  fixes h :: handle and R :: "rtdb \<Rightarrow> rtdb \<Rightarrow> bool"
  assumes refl: "R db db"
    and trans: "R a b \<Longrightarrow> R b c \<Longrightarrow> R a c"
    and lock_unlock: "R db (kogmo_rtdb_objmeta_unlock (kogmo_rtdb_objmeta_lock db))"
    and mark: "kogmo_rtdb_obj_findmeta_byid i db = Some k \<Longrightarrow> i \<noteq> 0 \<Longrightarrow>
      delete_check h (objmeta db ! k) imm = None \<Longrightarrow>
      R db (snd (delete_mark h k imm (kogmo_rtdb_objmeta_lock db)))"
begin

lemma readinfo_step: "R db (snd (snd (kogmo_rtdb_obj_readinfo h i ts buf db)))"
  by (auto simp: kogmo_rtdb_obj_readinfo_def Let_def lock_unlock split: option.splits)

lemma children_steps:
  assumes "\<And>child db db'. oid child \<noteq> 0 \<Longrightarrow> del child db = Some db' \<Longrightarrow> R db db'"
    and "delete_children del h cs db = Some db'"
  shows "R db db'"
  using assms(2)
proof (induction cs arbitrary: db)
  case Nil then show ?case by (simp add: refl)
next
  case (Cons c cs)
  show ?case
  proof (cases "c = 0")
    case True with Cons.prems show ?thesis by (simp add: refl)
  next
    case False
    obtain err child db1 where r: "kogmo_rtdb_obj_readinfo h c 0 zero_info db = (err, child, db1)"
      by (metis prod_cases3)
    have 1: "R db db1" using readinfo_step [of db c 0 zero_info] r by simp
    show ?thesis
    proof (cases err)
      case (Inl e)
      with Cons.prems False r have "delete_children del h cs db1 = Some db'" by simp
      from Cons.IH [OF this] 1 show ?thesis by (rule trans [rotated])
    next
      case (Inr v)
      have "oid child = c"
        using r Inr by (auto simp: kogmo_rtdb_obj_readinfo_def Let_def kogmo_rtdb_obj_findmeta_byid_def
            scan_first_Some split: option.splits if_splits)
      with False have c: "oid child \<noteq> 0" by simp
      show ?thesis
      proof (cases "parent_delete (flags child)")
        case True
        with Cons.prems False r Inr obtain db2 where d: "del child db1 = Some db2"
          and n: "delete_children del h cs db2 = Some db'" by (auto split: option.splits)
        from assms(1) [OF c d] Cons.IH [OF n] 1 show ?thesis by (blast intro: trans)
      next
        case pd: False
        with Cons.prems False r Inr have "delete_children del h cs db1 = Some db'" by simp
        from Cons.IH [OF this] 1 show ?thesis by (rule trans [rotated])
      qed
    qed
  qed
qed

lemma delete_rel:
  assumes "kogmo_rtdb_obj_delete_imm fuel h m imm db = Some (r, m', db')" "oid m \<noteq> 0"
  shows "R db db'"
  using assms
proof (induction fuel arbitrary: m imm db r m' db')
  case 0 then show ?case by simp
next
  case (Suc fuel)
  show ?case
  proof (cases "kogmo_rtdb_obj_findmeta_byid (oid m) db")
    case None
    with Suc.prems show ?thesis by (auto simp: Let_def lock_unlock)
  next
    case (Some k)
    show ?thesis
    proof (cases "delete_check h (objmeta db ! k) imm")
      case (Some e)
      with \<open>_ = Some k\<close> Suc.prems show ?thesis by (auto simp: Let_def lock_unlock)
    next
      case None
      let ?mk = "delete_mark h k imm (kogmo_rtdb_objmeta_lock db)"
      from None Some Suc.prems have
        "delete_children (\<lambda>child db. map_option (\<lambda>(_, _, db). db)
            (kogmo_rtdb_obj_delete_imm fuel h child False db)) h
          (child_ids h (oid m) (kogmo_rtdb_objmeta_lock db)) (snd ?mk) = Some db'"
        by (auto simp: Let_def split_beta)
      then have "R (snd ?mk) db'"
        by (rule children_steps [rotated]) (use Suc.IH in \<open>auto split: prod.splits\<close>)
      with mark [OF Some Suc.prems(2) None] show ?thesis by (rule trans)
    qed
  qed
qed

end

section \<open>The table invariant\<close>

interpretation del_table: delete_steps h "\<lambda>db db'. dsa_frame_ok (h_dsa h) \<longrightarrow> table_ok db \<longrightarrow> table_ok db'"
  for h
proof (unfold_locales, goal_cases)
  case (3 db)
  show ?case using table_ok_cong [of "kogmo_rtdb_objmeta_unlock (kogmo_rtdb_objmeta_lock db)" db]
    by (simp add: ipc_defs)
next
  case (4 i db k imm)
  have k: "k < length (objmeta db)" "oid (objmeta db ! k) \<noteq> 0"
    using 4 by (auto simp: kogmo_rtdb_obj_findmeta_byid_def scan_first_Some)
  have "table_ok (kogmo_rtdb_objmeta_lock db) = table_ok db"
    by (rule table_ok_cong) (simp_all add: ipc_defs)
  with k show ?case using delete_mark_table_ok [of "kogmo_rtdb_objmeta_lock db" h k imm] by simp
qed simp_all

section \<open>What a deletion keeps\<close>

text \<open>
  Slots keep their contents, apart from the id (which may become 0) and the deletion stamp;
  what was deleted or purged stays so.
\<close>

definition undeleted :: "obj_info \<Rightarrow> bool" where
  "undeleted m \<longleftrightarrow> oid m \<noteq> 0 \<and> deleted_ts m = 0"

definition slot_keeps :: "obj_info \<Rightarrow> obj_info \<Rightarrow> bool" where
  "slot_keeps a b \<longleftrightarrow>
     name b = name a \<and> created_ts b = created_ts a \<and> created_proc b = created_proc a
     \<and> lastmodified_ts b = lastmodified_ts a \<and> lastmodified_proc b = lastmodified_proc a
     \<and> parent_oid b = parent_oid a \<and> otype b = otype a \<and> size_max b = size_max a
     \<and> history_interval b = history_interval a \<and> min_cycletime b = min_cycletime a
     \<and> max_cycletime b = max_cycletime a \<and> flags b = flags a \<and> history_size b = history_size a
     \<and> history_slot b = history_slot a \<and> buffer_idx b = buffer_idx a
     \<and> (oid b = oid a \<or> oid b = 0) \<and> (undeleted b \<longrightarrow> undeleted a)"

definition keeps :: "rtdb \<Rightarrow> rtdb \<Rightarrow> bool" where
  "keeps db db' \<longleftrightarrow> length (objmeta db') = length (objmeta db)
     \<and> (\<forall>k < length (objmeta db). slot_keeps (objmeta db ! k) (objmeta db' ! k))
     \<and> clock db' = clock db \<and> simmode db' = simmode db \<and> sim_ts db' = sim_ts db"

lemma slot_keeps_refl [simp]: "slot_keeps a a"
  by (simp add: slot_keeps_def)

lemma slot_keeps_trans: "slot_keeps a b \<Longrightarrow> slot_keeps b c \<Longrightarrow> slot_keeps a c"
  unfolding slot_keeps_def by auto

lemma slot_keepsD:
  assumes "slot_keeps a b"
  shows "name b = name a" "parent_oid b = parent_oid a" "flags b = flags a" "otype b = otype a"
    "created_ts b = created_ts a" "created_proc b = created_proc a" "size_max b = size_max a"
    "history_size b = history_size a" "history_slot b = history_slot a" "buffer_idx b = buffer_idx a"
    "oid b = oid a \<or> oid b = 0" "undeleted b \<Longrightarrow> undeleted a"
  using assms by (simp_all add: slot_keeps_def)

lemma keeps_refl [simp]: "keeps db db"
  by (simp add: keeps_def)

lemma keeps_trans: "keeps a b \<Longrightarrow> keeps b c \<Longrightarrow> keeps a c"
proof -
  assume ab: "keeps a b" and bc: "keeps b c"
  have "slot_keeps (objmeta a ! k) (objmeta c ! k)" if "k < length (objmeta a)" for k
  proof (rule slot_keeps_trans)
    show "slot_keeps (objmeta a ! k) (objmeta b ! k)" using ab that by (simp add: keeps_def)
    show "slot_keeps (objmeta b ! k) (objmeta c ! k)" using ab bc that by (simp add: keeps_def)
  qed
  with ab bc show "keeps a c" by (simp add: keeps_def)
qed

lemma keeps_objmeta:
  "objmeta db' = objmeta db \<Longrightarrow> clock db' = clock db \<Longrightarrow> simmode db' = simmode db \<Longrightarrow>
   sim_ts db' = sim_ts db \<Longrightarrow> keeps db db'"
  by (simp add: keeps_def)

lemma keeps_clock_ok: "keeps db db' \<Longrightarrow> clock_ok db' = clock_ok db"
  by (rule clock_ok_cong) (simp_all add: keeps_def)

lemma delete_mark_keeps:
  assumes "dsa_frame_ok (h_dsa h)" "k < length (objmeta db)" "clock_ok db"
  shows "keeps db (snd (delete_mark h k imm db))"
    "\<not> undeleted (objmeta (snd (delete_mark h k imm db)) ! k)"
proof -
  have t: "fst (kogmo_rtdb_timestamp_now db) \<noteq> 0" using assms(3) by (rule now_nonzero)
  have "slot_keeps (objmeta db ! k) (objmeta (snd (delete_mark h k imm db)) ! k)"
    using assms(2) t
    by (auto simp: delete_mark_objmeta [OF assms(1,2)] slot_keeps_def undeleted_def)
  then show "keeps db (snd (delete_mark h k imm db))"
    using assms(2) unfolding keeps_def
    by (auto simp: delete_mark_objmeta [OF assms(1,2)] nth_list_update)
  show "\<not> undeleted (objmeta (snd (delete_mark h k imm db)) ! k)"
    using assms(2) t by (simp add: delete_mark_objmeta [OF assms(1,2)] undeleted_def)
qed

interpretation del_keeps: delete_steps h
    "\<lambda>db db'. dsa_frame_ok (h_dsa h) \<longrightarrow> clock_ok db \<longrightarrow> keeps db db'" for h
proof (unfold_locales, goal_cases)
  case (2 a b c) then show ?case using keeps_trans keeps_clock_ok by blast
next
  case (3 db) show ?case by (simp add: keeps_def ipc_defs)
next
  case (4 i db k imm)
  show ?case
  proof (intro impI)
    assume d: "dsa_frame_ok (h_dsa h)" "clock_ok db"
    let ?db = "kogmo_rtdb_objmeta_lock db"
    have "k < length (objmeta ?db)" "clock_ok ?db"
      using 4 d(2) by (auto simp: kogmo_rtdb_obj_findmeta_byid_def scan_first_Some ipc_defs clock_ok_def)
    from delete_mark_keeps(1) [OF d(1) this]
    have "keeps ?db (snd (delete_mark h k imm ?db))" .
    moreover have "keeps db ?db" by (rule keeps_objmeta) (simp_all add: ipc_defs)
    ultimately show "keeps db (snd (delete_mark h k imm ?db))" by (rule keeps_trans [rotated])
  qed
qed simp

text \<open>Names stay unique.\<close>

lemma keeps_names_ok:
  assumes "keeps db db'" "names_ok (objmeta db)"
  shows "names_ok (objmeta db')"
proof -
  have s: "slot_keeps (objmeta db ! i) (objmeta db' ! i)" if "i < length (objmeta db)" for i
    using assms(1) that by (simp add: keeps_def)
  have l: "live (objmeta db ! i)" if "i < length (objmeta db)" "live (objmeta db' ! i)" for i
    using slot_keepsD [OF s [OF that(1)]] that(2) by (simp add: live_def undeleted_def)
  have len: "length (objmeta db') = length (objmeta db)" using assms(1) by (simp add: keeps_def)
  show ?thesis
    unfolding names_ok_def
  proof (intro allI impI)
    fix i j
    assume ij: "i < length (objmeta db')" "j < length (objmeta db')"
      and h: "i \<noteq> j \<and> live (objmeta db' ! i) \<and> live (objmeta db' ! j) \<and>
       otype (objmeta db' ! i) = otype (objmeta db' ! j) \<and>
       strncmp_eq NAME_MAXLEN (name (objmeta db' ! i)) (name (objmeta db' ! j))"
    have i: "i < length (objmeta db)" and j: "j < length (objmeta db)" using ij len by simp_all
    from slot_keepsD [OF s [OF i]] slot_keepsD [OF s [OF j]] l [OF i] l [OF j] h assms(2) i j
    show "\<not> unique (flags (objmeta db' ! i))" by (auto simp: names_ok_def)
  qed
qed

section \<open>Locks\<close>

text \<open>The locks a deletion takes and gives back.\<close>

definition delete_locks :: "lock set" where
  "delete_locks = {Objmeta_lock, Heap_lock} \<union> range Changenotify_lock"

lemma purgeslot_locks:
  assumes "dsa_frame_ok (h_dsa h)" "Heap_lock \<notin> L"
  shows "lock_step L db (kogmo_rtdb_obj_purgeslot h k db) L"
proof (cases "buffer_idx (objmeta db ! k) = 0")
  case True
  then show ?thesis by (intro lock_step_same) (simp add: kogmo_rtdb_obj_purgeslot_def)
next
  case False
  have "ipc_log (kogmo_rtdb_obj_purgeslot h k db) = ipc_log (kogmo_rtdb_obj_mem_free h
      (buffer_idx (objmeta db ! k)) (block_size (objmeta db ! k)) db)"
    using False by (simp add: kogmo_rtdb_obj_purgeslot_def Let_def)
  with mem_free_locks [OF assms] show ?thesis by (rule lock_step_log)
qed

lemma trace_send_locks: "lock_step L db (kogmo_rtdb_obj_trace_send i ts ev os hs db) L"
  unfolding kogmo_rtdb_obj_trace_send_def
  by (auto intro: lock_step_same lock_step_emit)

text \<open>The notifications at the end of a deletion, with the metadata lock held before.\<close>

lemma notify_locks:
  assumes "L \<inter> delete_locks = {}"
  shows "lock_step (insert Objmeta_lock L) db
    (kogmo_rtdb_obj_do_notify k (kogmo_rtdb_obj_do_notify_prepare k
      (kogmo_rtdb_objmeta_unlock_notify db))) L"
proof -
  have n: "Objmeta_lock \<notin> L" "Changenotify_lock k \<notin> L" using assms by (auto simp: delete_locks_def)
  then have "run_locks (insert Objmeta_lock L) [Signal_objmeta, Unlock Objmeta_lock,
      Lock (Changenotify_lock k), Signal_obj k, Unlock (Changenotify_lock k)] = Some L" by simp
  then show ?thesis
    unfolding lock_step_def log_ext_def
    by (intro exI [of _ "[Signal_objmeta, Unlock Objmeta_lock, Lock (Changenotify_lock k),
          Signal_obj k, Unlock (Changenotify_lock k)]"]) (simp add: ipc_defs)
qed

lemma delete_mark_locks:
  assumes d: "dsa_frame_ok (h_dsa h)" and L: "L \<inter> delete_locks = {}"
  shows "lock_step (insert Objmeta_lock L) db (snd (delete_mark h k imm db)) L"
proof -
  let ?O = "insert Objmeta_lock L"
  define db1 where "db1 = upd_meta k ((objmeta db ! k)\<lparr>deleted_proc := h_proc_oid h,
      deleted_ts := fst (kogmo_rtdb_timestamp_now db)\<rparr>) (snd (kogmo_rtdb_timestamp_now db))"
  define db2 where "db2 = (if immediately_delete (flags (objmeta db ! k)) \<or> imm
      then kogmo_rtdb_obj_purgeslot h k db1 else db1)"
  define db3 where "db3 = kogmo_rtdb_obj_do_notify k (kogmo_rtdb_obj_do_notify_prepare k
      (kogmo_rtdb_objmeta_unlock_notify db2))"
  have 1: "lock_step ?O db db1 ?O" by (rule lock_step_same) (simp add: db1_def)
  have 2: "lock_step ?O db1 db2 ?O"
    using purgeslot_locks [OF d, of ?O db1 k] L
    by (auto simp: db2_def delete_locks_def intro: lock_step_same)
  have 3: "lock_step ?O db2 db3 L" unfolding db3_def by (rule notify_locks [OF L])
  have 4: "snd (delete_mark h k imm db) = kogmo_rtdb_obj_trace_send (oid (objmeta db ! k))
      (fst (kogmo_rtdb_timestamp_now db)) TRACE_DELETED None (- 1) db3"
    by (simp add: delete_mark_def Let_def split_beta db1_def db2_def db3_def)
  show ?thesis unfolding 4
    by (rule lock_step_trans [OF lock_step_trans [OF lock_step_trans [OF 1 2] 3] trace_send_locks])
qed

lemma lock_unlock_locks:
  assumes "Objmeta_lock \<notin> L"
  shows "lock_step L db (kogmo_rtdb_objmeta_unlock (kogmo_rtdb_objmeta_lock db)) L"
  unfolding lock_step_def log_ext_def
  by (rule exI [of _ "[Lock Objmeta_lock, Unlock Objmeta_lock]"]) (use assms in \<open>auto simp: ipc_defs\<close>)

interpretation del_locks: delete_steps h "\<lambda>db db'. dsa_frame_ok (h_dsa h) \<longrightarrow>
    (\<forall>L. L \<inter> delete_locks = {} \<longrightarrow> lock_step L db db' L)" for h
proof (unfold_locales, goal_cases)
  case (1 db) show ?case by (simp add: lock_step_same)
next
  case (2 a b c)
  show ?case
  proof (intro impI allI)
    fix L assume "dsa_frame_ok (h_dsa h)" "L \<inter> delete_locks = {}"
    with 2 have "lock_step L a b L" "lock_step L b c L" by simp_all
    then show "lock_step L a c L" by (rule lock_step_trans)
  qed
next
  case (3 db) show ?case using lock_unlock_locks by (auto simp: delete_locks_def)
next
  case (4 i db k imm)
  show ?case
  proof (intro impI allI)
    fix L assume d: "dsa_frame_ok (h_dsa h)" and L: "L \<inter> delete_locks = {}"
    have "Objmeta_lock \<notin> L" using L by (auto simp: delete_locks_def)
    then have "lock_step L db (kogmo_rtdb_objmeta_lock db) (insert Objmeta_lock L)"
      unfolding kogmo_rtdb_objmeta_lock_def by (intro lock_step_emit) simp
    from lock_step_trans [OF this delete_mark_locks [OF d L]]
    show "lock_step L db (snd (delete_mark h k imm (kogmo_rtdb_objmeta_lock db))) L" .
  qed
qed

section \<open>The recursion ends\<close>

definition undeleted_count :: "rtdb \<Rightarrow> nat" where
  "undeleted_count db = length (filter undeleted (objmeta db))"

lemma filter_length_mono:
  "length xs = length ys \<Longrightarrow> (\<And>i. i < length xs \<Longrightarrow> P (xs ! i) \<Longrightarrow> Q (ys ! i))
    \<Longrightarrow> length (filter P xs) \<le> length (filter Q ys)"
proof (induction xs ys rule: list_induct2)
  case Nil then show ?case by simp
next
  case (Cons x xs y ys)
  have "length (filter P xs) \<le> length (filter Q ys)"
    by (rule Cons.IH) (use Cons.prems [of "Suc _"] in auto)
  with Cons.prems [of 0] show ?case by auto
qed

lemma keeps_count: "keeps db db' \<Longrightarrow> undeleted_count db' \<le> undeleted_count db"
  unfolding undeleted_count_def
  by (rule filter_length_mono) (auto simp: keeps_def dest: slot_keepsD)

lemma delete_mark_count:
  assumes "dsa_frame_ok (h_dsa h)" "k < length (objmeta db)" "undeleted (objmeta db ! k)" "clock_ok db"
  shows "Suc (undeleted_count (snd (delete_mark h k imm db))) = undeleted_count db"
  unfolding undeleted_count_def delete_mark_objmeta [OF assms(1,2)]
  by (rule length_filter_update) (use assms now_nonzero in \<open>auto simp: undeleted_def\<close>)

lemma readinfo_Inr:
  assumes "kogmo_rtdb_obj_readinfo h i 0 buf db = (Inr v, m, db')"
  shows "\<exists>k < length (objmeta db). kogmo_rtdb_obj_findmeta_byid i db = Some k \<and> objmeta db ! k = m
    \<and> oid m = i \<and> deleted_ts m = 0"
  using assms by (auto simp: kogmo_rtdb_obj_readinfo_def Let_def kogmo_rtdb_obj_findmeta_byid_def
      scan_first_Some split: option.splits if_splits)

lemma readinfo_db:
  "objmeta (snd (snd (kogmo_rtdb_obj_readinfo h i ts buf db))) = objmeta db"
  "clock (snd (snd (kogmo_rtdb_obj_readinfo h i ts buf db))) = clock db"
  "simmode (snd (snd (kogmo_rtdb_obj_readinfo h i ts buf db))) = simmode db"
  "sim_ts (snd (snd (kogmo_rtdb_obj_readinfo h i ts buf db))) = sim_ts db"
  "objmeta_free (snd (snd (kogmo_rtdb_obj_readinfo h i ts buf db))) = objmeta_free db"
  "objmeta_oid_next (snd (snd (kogmo_rtdb_obj_readinfo h i ts buf db))) = objmeta_oid_next db"
  by (auto simp: kogmo_rtdb_obj_readinfo_def Let_def ipc_defs split: option.splits)

lemma readinfo_keeps: "keeps db (snd (snd (kogmo_rtdb_obj_readinfo h i ts buf db)))"
  by (rule keeps_objmeta) (simp_all add: readinfo_db)

lemma delete_keeps:
  assumes "kogmo_rtdb_obj_delete_imm fuel h m imm db = Some (r, m', db')" "oid m \<noteq> 0"
    "dsa_frame_ok (h_dsa h)" "clock_ok db"
  shows "keeps db db'"
  using del_keeps.delete_rel [OF assms(1,2)] assms(3,4) by blast

text \<open>
  The loop returns if the recursive call returns on every object that is still there when
  at most \<open>n\<close> objects are.
\<close>

lemma delete_children_returns:
  assumes del: "\<And>child db. oid child \<noteq> 0 \<Longrightarrow> clock_ok db \<Longrightarrow> undeleted_count db \<le> n \<Longrightarrow>
      (\<exists>k. kogmo_rtdb_obj_findmeta_byid (oid child) db = Some k \<and> undeleted (objmeta db ! k)) \<Longrightarrow>
      \<exists>db'. del child db = Some db' \<and> keeps db db'"
    and "clock_ok db" "undeleted_count db \<le> n"
  shows "\<exists>db'. delete_children del h cs db = Some db'"
  using assms(2,3)
proof (induction cs arbitrary: db)
  case Nil then show ?case by simp
next
  case (Cons c cs)
  obtain err child db1 where r: "kogmo_rtdb_obj_readinfo h c 0 zero_info db = (err, child, db1)"
    by (metis prod_cases3)
  have k1: "keeps db db1" using readinfo_keeps [of db h c 0 zero_info] r by simp
  have 1: "clock_ok db1" "undeleted_count db1 \<le> n"
    using keeps_clock_ok [OF k1] keeps_count [OF k1] Cons.prems by auto
  show ?case
  proof (cases "c = 0 \<or> (\<exists>e. err = Inl e) \<or> \<not> parent_delete (flags child)")
    case True
    with Cons.IH [OF 1] r show ?thesis by (auto split: sum.splits)
  next
    case False
    then obtain v where v: "err = Inr v" by (cases err) auto
    from readinfo_Inr [OF r [unfolded v]] obtain k where k: "k < length (objmeta db)"
      "kogmo_rtdb_obj_findmeta_byid c db = Some k" "objmeta db ! k = child" "oid child = c"
      "deleted_ts child = 0" by blast
    have o: "objmeta db1 = objmeta db" using readinfo_db(1) [of h c 0 zero_info db] r by simp
    have "\<exists>k. kogmo_rtdb_obj_findmeta_byid (oid child) db1 = Some k \<and> undeleted (objmeta db1 ! k)"
      using k o False by (auto simp: kogmo_rtdb_obj_findmeta_byid_def undeleted_def)
    moreover have "oid child \<noteq> 0" using k False by simp
    ultimately obtain db2 where d: "del child db1 = Some db2" "keeps db1 db2"
      using del 1 by blast
    have "clock_ok db2" "undeleted_count db2 \<le> n"
      using keeps_clock_ok [OF d(2)] keeps_count [OF d(2)] 1 by auto
    from Cons.IH [OF this] d r v False show ?thesis by auto
  qed
qed

lemma delete_returns_aux:
  assumes d: "dsa_frame_ok (h_dsa h)"
  shows "oid m \<noteq> 0 \<Longrightarrow> clock_ok db \<Longrightarrow> undeleted_count db \<le> n \<Longrightarrow> n < fuel \<or>
     (n = fuel \<and> (\<exists>k. kogmo_rtdb_obj_findmeta_byid (oid m) db = Some k \<and> undeleted (objmeta db ! k)))
    \<Longrightarrow> \<exists>r m' db'. kogmo_rtdb_obj_delete_imm fuel h m imm db = Some (r, m', db')"
proof (induction fuel arbitrary: m imm db n)
  case 0
  then obtain k where "kogmo_rtdb_obj_findmeta_byid (oid m) db = Some k" "undeleted (objmeta db ! k)"
    by auto
  then have "objmeta db ! k \<in> set (filter undeleted (objmeta db))"
    by (auto simp: kogmo_rtdb_obj_findmeta_byid_def)
  then have "0 < undeleted_count db"
    unfolding undeleted_count_def by (rule length_pos_if_in_set)
  with 0 show ?case by auto
next
  case (Suc fuel)
  show ?case
  proof (cases "kogmo_rtdb_obj_findmeta_byid (oid m) db")
    case None then show ?thesis by (simp add: Let_def)
  next
    case (Some k)
    show ?thesis
    proof (cases "delete_check h (objmeta db ! k) imm")
      case (Some e)
      with \<open>_ = Some k\<close> show ?thesis by (simp add: Let_def)
    next
      case None
      let ?db0 = "kogmo_rtdb_objmeta_lock db"
      let ?db1 = "snd (delete_mark h k imm ?db0)"
      let ?del = "\<lambda>child db. map_option (\<lambda>(_, _, db). db)
            (kogmo_rtdb_obj_delete_imm fuel h child False db)"
      have k: "k < length (objmeta ?db0)"
        using Some by (auto simp: kogmo_rtdb_obj_findmeta_byid_def)
      have k0: "keeps db ?db0" by (rule keeps_objmeta) (simp_all add: ipc_defs)
      have c0: "clock_ok ?db0" using keeps_clock_ok [OF k0] Suc.prems by simp
      have n0: "undeleted_count ?db0 = undeleted_count db" by (simp add: undeleted_count_def)
      have k1: "keeps ?db0 ?db1" by (rule delete_mark_keeps(1) [OF d k c0])
      have c1: "clock_ok ?db1" using keeps_clock_ok [OF k1] c0 by simp
      have n1: "undeleted_count ?db1 \<le> fuel"
        using Suc.prems(3,4) keeps_count [OF k1] n0 Some
          delete_mark_count [OF d k _ c0, of imm] by auto
      have "\<exists>db'. delete_children ?del h (child_ids h (oid m) ?db0) ?db1 = Some db'"
      proof (rule delete_children_returns [OF _ c1 n1])
        fix child :: obj_info and db2 :: rtdb
        assume a: "oid child \<noteq> 0" "clock_ok db2" "undeleted_count db2 \<le> fuel"
          "\<exists>k. kogmo_rtdb_obj_findmeta_byid (oid child) db2 = Some k \<and> undeleted (objmeta db2 ! k)"
        from Suc.IH [OF a(1,2,3)] a(4) obtain r m' db' where
          e: "kogmo_rtdb_obj_delete_imm fuel h child False db2 = Some (r, m', db')" by blast
        from delete_keeps [OF e a(1) d a(2)] e
        show "\<exists>db'. ?del child db2 = Some db' \<and> keeps db2 db'" by simp
      qed
      with Some None show ?thesis by (auto simp: Let_def split_beta)
    qed
  qed
qed

lemma delete_returns:
  assumes "dsa_frame_ok (h_dsa h)" "oid m \<noteq> 0" "clock_ok db" "undeleted_count db < fuel"
  shows "\<exists>r m' db'. kogmo_rtdb_obj_delete_imm fuel h m imm db = Some (r, m', db')"
  using delete_returns_aux [OF assms(1-3) order_refl] assms(4) by blast

section \<open>Depending objects\<close>

text \<open>What the permission check allows.\<close>

definition may_delete :: "handle \<Rightarrow> obj_info \<Rightarrow> bool" where
  "may_delete h m \<longleftrightarrow> write_allow (flags m) \<or> created_proc m = h_proc_oid h \<or> this_process_is_admin h"

lemma delete_check_None:
  "delete_check h m imm = None \<longleftrightarrow>
    may_delete h m \<and> (deleted_ts m = 0 \<or> immediately_delete (flags m) \<or> imm)"
  by (auto simp: delete_check_def may_delete_def)

text \<open>\<open>b\<close> depends on \<open>a\<close>: it is to be deleted with its parent, and this process may do it.\<close>

definition dep_child :: "handle \<Rightarrow> obj_info \<Rightarrow> obj_info \<Rightarrow> bool" where
  "dep_child h a b \<longleftrightarrow> live b \<and> parent_oid b = oid a \<and> parent_delete (flags b) \<and> may_delete h b"

text \<open>Nothing that depends on an object deleted meanwhile is left.\<close>

definition cascaded :: "handle \<Rightarrow> rtdb \<Rightarrow> rtdb \<Rightarrow> bool" where
  "cascaded h db db' \<longleftrightarrow> (\<forall>i < length (objmeta db). \<forall>j < length (objmeta db).
     undeleted (objmeta db ! i) \<and> \<not> undeleted (objmeta db' ! i) \<and> dep_child h (objmeta db ! i) (objmeta db ! j)
     \<longrightarrow> \<not> undeleted (objmeta db' ! j))"

lemma cascaded_refl [simp]: "cascaded h db db"
  by (auto simp: cascaded_def)

lemma cascadedD:
  assumes "cascaded h db db'" "i < length (objmeta db)" "j < length (objmeta db)"
    "undeleted (objmeta db ! i)" "\<not> undeleted (objmeta db' ! i)"
    "dep_child h (objmeta db ! i) (objmeta db ! j)"
  shows "\<not> undeleted (objmeta db' ! j)"
  using assms unfolding cascaded_def by blast

lemma keeps_nth:
  "keeps db db' \<Longrightarrow> i < length (objmeta db) \<Longrightarrow> slot_keeps (objmeta db ! i) (objmeta db' ! i)"
  by (simp add: keeps_def)

lemma keeps_length: "keeps db db' \<Longrightarrow> length (objmeta db') = length (objmeta db)"
  by (simp add: keeps_def)

lemma keeps_undeleted:
  "keeps db db' \<Longrightarrow> i < length (objmeta db) \<Longrightarrow> undeleted (objmeta db' ! i) \<Longrightarrow> undeleted (objmeta db ! i)"
  by (drule (1) keeps_nth) (rule slot_keepsD(12))

lemma keeps_dep_child:
  assumes "keeps db db'" "i < length (objmeta db)" "j < length (objmeta db)"
    "undeleted (objmeta db' ! i)" "undeleted (objmeta db' ! j)"
    "dep_child h (objmeta db ! i) (objmeta db ! j)"
  shows "dep_child h (objmeta db' ! i) (objmeta db' ! j)"
  using slot_keepsD(1-11) [OF keeps_nth [OF assms(1,2)]] slot_keepsD(1-11) [OF keeps_nth [OF assms(1,3)]]
    assms(4-6)
  by (auto simp: dep_child_def may_delete_def live_def undeleted_def)

lemma cascaded_trans:
  assumes "keeps a b" "keeps b c" "cascaded h a b" "cascaded h b c"
  shows "cascaded h a c"
  unfolding cascaded_def
proof (intro allI impI, elim conjE)
  fix i j
  assume i: "i < length (objmeta a)" and j: "j < length (objmeta a)"
    and u: "undeleted (objmeta a ! i)" "\<not> undeleted (objmeta c ! i)"
    and dep: "dep_child h (objmeta a ! i) (objmeta a ! j)"
  have ij: "i < length (objmeta b)" "j < length (objmeta b)"
    using i j keeps_length [OF assms(1)] by simp_all
  show "\<not> undeleted (objmeta c ! j)"
  proof
    assume uc: "undeleted (objmeta c ! j)"
    then have ub: "undeleted (objmeta b ! j)" by (rule keeps_undeleted [OF assms(2) ij(2)])
    show False
    proof (cases "undeleted (objmeta b ! i)")
      case False
      from cascadedD [OF assms(3) i j u(1) this dep] ub show False by simp
    next
      case True
      have "dep_child h (objmeta b ! i) (objmeta b ! j)"
        by (rule keeps_dep_child [OF assms(1) i j True ub dep])
      from cascadedD [OF assms(4) ij True u(2) this] uc show False by simp
    qed
  qed
qed

text \<open>The ids in the array of depending objects.\<close>

definition children :: "int \<Rightarrow> rtdb \<Rightarrow> obj_info list" where
  "children i db = filter (\<lambda>s. live s \<and> parent_oid s = i) (objmeta db)"

text \<open>No object has more depending objects than the array has room for.\<close>

definition few_children :: "rtdb \<Rightarrow> bool" where
  "few_children db \<longleftrightarrow> (\<forall>i. length (children i db) < OBJIDLIST_MAX)"

definition plain_names :: "handle \<Rightarrow> bool" where
  "plain_names h \<longleftrightarrow> h_nameremap h = None \<or> h_debug h = 0"

lemma parse_empty_name: "plain_names h \<Longrightarrow> parse_name h (Some []) ot = Query (\<lambda>_. True) ot"
  by (auto simp: parse_name_def plain_names_def cstr_def split: option.splits)

lemma takeWhile_prefix:
  assumes "n < length xs" "\<forall>x \<in> set (take n xs). P x" "\<not> P (xs ! n)"
  shows "takeWhile P xs = take n xs"
proof -
  have "xs = take n xs @ xs ! n # drop (Suc n) xs" using assms(1) by (simp add: id_take_nth_drop)
  then have "takeWhile P xs = takeWhile P (take n xs @ xs ! n # drop (Suc n) xs)" by simp
  also have "\<dots> = take n xs" using assms(2,3) by (simp add: takeWhile_append2)
  finally show ?thesis .
qed

lemma child_ids_spec:
  assumes "plain_names h" "length (h_stack h) = Suc OBJIDLIST_MAX" "i \<noteq> 0"
    "length (children i db) < OBJIDLIST_MAX"
  shows "takeWhile (\<lambda>x. x \<noteq> 0) (child_ids h i db) = map oid (children i db)"
proof -
  let ?l = "(h_stack h)[0 := 0]"
  have q: "parse_name h (Some []) 0 = Query (\<lambda>_. True) 0" by (rule parse_empty_name [OF assms(1)])
  have M: "matching (\<lambda>_. True) 0 i 0 0 False db = children i db"
    unfolding matching_def children_def
    by (rule filter_cong) (use assms(3) in \<open>auto simp: search_match_def live_def\<close>)
  have l: "length ?l = Suc OBJIDLIST_MAX" using assms(2) by simp
  have O: "OBJIDLIST_MAX = 1000" by (simp add: OBJIDLIST_MAX_def)
  show ?thesis
  proof (cases "children i db = []")
    case True
    then have e: "filter (search_match (\<lambda>_. True) 0 i 0 0 False) (objmeta db) = []"
      using M by (simp add: matching_def)
    obtain i' l' where s: "search_loop (search_match (\<lambda>_. True) 0 i 0 0 False) 0 (objmeta db)
        (0, 0, Some ?l) = (0, i', Some l')" and len: "length l' = length ?l"
      using search_loop_all [OF order_refl order_refl l, of "search_match (\<lambda>_. True) 0 i 0 0 False"
          "objmeta db" 0] e by auto
    have ne: "l' \<noteq> []" using len l O by auto
    have "child_ids h i db = l'[0 := 0]"
      using s assms(3) q by (simp add: child_ids_def kogmo_rtdb_obj_searchinfo_nolock_def
          kogmo_rtdb_obj_searchinfo_internal_def Let_def split: option.splits)
    with True ne show ?thesis by (cases l') simp_all
  next
    case False
    from search_list [OF q l M [symmetric] False, of True] obtain l' db' where
      s: "kogmo_rtdb_obj_searchinfo_internal h (Some []) 0 i 0 0 (Some ?l) 0 True False db
        = (Inr (int (length (children i db))), Some l', db')"
      and t: "take (min (length (children i db)) (OBJIDLIST_MAX - 1)) l'
        = map oid (take (OBJIDLIST_MAX - 1) (children i db))"
      and z: "l' ! min (length (children i db)) OBJIDLIST_MAX = 0"
      and len: "length l' = Suc OBJIDLIST_MAX" by blast
    have c: "child_ids h i db = l'"
      using s by (simp add: child_ids_def kogmo_rtdb_obj_searchinfo_nolock_def)
    have t': "take (length (children i db)) l' = map oid (children i db)"
      using t assms(4) by (simp add: O min_absorb1)
    have z': "l' ! length (children i db) = 0" using z assms(4) by (simp add: min_absorb1)
    have n: "length (children i db) < length l'" using len assms(4) by simp
    have nz: "\<forall>x \<in> set (take (length (children i db)) l'). x \<noteq> 0"
      unfolding t' by (auto simp: children_def live_def)
    show ?thesis unfolding c t' [symmetric]
      by (rule takeWhile_prefix [OF n nz]) (simp add: z')
  qed
qed

text \<open>What the cascade needs; a deletion keeps it.\<close>

definition delete_pre :: "handle \<Rightarrow> rtdb \<Rightarrow> bool" where
  "delete_pre h db \<longleftrightarrow> dsa_frame_ok (h_dsa h) \<and> plain_names h \<and> length (h_stack h) = Suc OBJIDLIST_MAX
     \<and> clock_ok db \<and> unique_keys oid (objmeta db) \<and> few_children db"

lemma keeps_delete_pre:
  assumes "keeps db db'" "delete_pre h db" shows "delete_pre h db'"
proof -
  have len: "length (objmeta db') = length (objmeta db)" by (rule keeps_length [OF assms(1)])
  have u: "unique_keys oid (objmeta db')"
    unfolding unique_keys_def
  proof (intro allI impI, elim conjE)
    fix i j assume i: "i < length (objmeta db')" and j: "j < length (objmeta db')"
      and e: "oid (objmeta db' ! i) \<noteq> 0" "oid (objmeta db' ! i) = oid (objmeta db' ! j)"
    have "oid (objmeta db ! i) \<noteq> 0 \<and> oid (objmeta db ! i) = oid (objmeta db ! j)"
      using slot_keepsD(11) [OF keeps_nth [OF assms(1), of i]]
        slot_keepsD(11) [OF keeps_nth [OF assms(1), of j]] i j e len by auto
    with assms(2) i j len show "i = j" by (auto simp: delete_pre_def unique_keys_def)
  qed
  have "length (children p db') \<le> length (children p db)" for p
    unfolding children_def
  proof (rule filter_length_mono)
    fix i assume i: "i < length (objmeta db')" and h: "live (objmeta db' ! i) \<and> parent_oid (objmeta db' ! i) = p"
    from i len have k: "slot_keeps (objmeta db ! i) (objmeta db' ! i)" by (simp add: keeps_nth [OF assms(1)])
    from slot_keepsD(1-11) [OF k] slot_keepsD(12) [OF k] h
    show "live (objmeta db ! i) \<and> parent_oid (objmeta db ! i) = p" by (auto simp: live_def undeleted_def)
  qed (use len in simp)
  then have "few_children db'"
    using assms(2) unfolding few_children_def delete_pre_def by (meson le_less_trans)
  with u assms keeps_clock_ok [OF assms(1)] show ?thesis by (simp add: delete_pre_def)
qed

text \<open>What one deletion has achieved for the object it was asked to delete.\<close>

definition gone :: "handle \<Rightarrow> int \<Rightarrow> rtdb \<Rightarrow> rtdb \<Rightarrow> bool" where
  "gone h i db db' \<longleftrightarrow> (\<forall>k < length (objmeta db). oid (objmeta db ! k) = i \<and> undeleted (objmeta db ! k)
     \<and> may_delete h (objmeta db ! k) \<longrightarrow> \<not> undeleted (objmeta db' ! k))"

lemma delete_children_cascade:
  assumes del: "\<And>child db db'. oid child \<noteq> 0 \<Longrightarrow> delete_pre h db \<Longrightarrow> del child db = Some db' \<Longrightarrow>
      keeps db db' \<and> cascaded h db db' \<and> gone h (oid child) db db'"
    and "delete_pre h db" "delete_children del h cs db = Some db'"
  shows "keeps db db' \<and> cascaded h db db'
    \<and> (\<forall>c \<in> set (takeWhile (\<lambda>x. x \<noteq> 0) cs). \<forall>k < length (objmeta db). oid (objmeta db ! k) = c
         \<and> undeleted (objmeta db ! k) \<and> parent_delete (flags (objmeta db ! k))
         \<and> may_delete h (objmeta db ! k) \<longrightarrow> \<not> undeleted (objmeta db' ! k))"
  using assms(2,3)
proof (induction cs arbitrary: db)
  case Nil then show ?case by simp
next
  case (Cons c cs)
  show ?case
  proof (cases "c = 0")
    case True with Cons.prems show ?thesis by simp
  next
    case c: False
    obtain err child db1 where r: "kogmo_rtdb_obj_readinfo h c 0 zero_info db = (err, child, db1)"
      by (metis prod_cases3)
    have o: "objmeta db1 = objmeta db" using readinfo_db(1) [of h c 0 zero_info db] r by simp
    have k1: "keeps db db1" using readinfo_keeps [of db h c 0 zero_info] r by simp
    have p1: "delete_pre h db1" by (rule keeps_delete_pre [OF k1 Cons.prems(1)])
    have c1: "cascaded h db db1" by (auto simp: cascaded_def o)
    show ?thesis
    proof (cases "(\<exists>e. err = Inl e) \<or> \<not> parent_delete (flags child)")
      case True
      with Cons.prems c r have "delete_children del h cs db1 = Some db'" by (auto split: sum.splits)
      from Cons.IH [OF p1 this] have IH: "keeps db1 db'" "cascaded h db1 db'"
        "\<forall>c \<in> set (takeWhile (\<lambda>x. x \<noteq> 0) cs). \<forall>k < length (objmeta db). oid (objmeta db ! k) = c
         \<and> undeleted (objmeta db ! k) \<and> parent_delete (flags (objmeta db ! k))
         \<and> may_delete h (objmeta db ! k) \<longrightarrow> \<not> undeleted (objmeta db' ! k)" by (simp_all add: o)
      have "False" if "k < length (objmeta db)" "oid (objmeta db ! k) = c" "undeleted (objmeta db ! k)"
        "parent_delete (flags (objmeta db ! k))" for k
      proof -
        have "kogmo_rtdb_obj_findmeta_byid c db = Some k"
          unfolding findmeta_lookup using Cons.prems(1) that c
          by (subst objtab.lookup_unique) (auto simp: delete_pre_def)
        then have "err = Inr 0 \<and> child = objmeta db ! k"
          using r that by (auto simp: kogmo_rtdb_obj_readinfo_def Let_def undeleted_def)
        with True that show False by simp
      qed
      then show ?thesis
        using IH keeps_trans [OF k1 IH(1)] cascaded_trans [OF k1 IH(1) c1 IH(2)] c by auto
    next
      case False
      then obtain v where v: "err = Inr v" and pd: "parent_delete (flags child)" by (cases err) auto
      have oc: "oid child = c" using readinfo_Inr [OF r [unfolded v]] by blast
      from Cons.prems c r v pd obtain db2 where d: "del child db1 = Some db2"
        and n: "delete_children del h cs db2 = Some db'" by (auto split: option.splits)
      have g: "keeps db1 db2" "cascaded h db1 db2" "gone h c db1 db2"
        using del [OF _ p1 d] oc c by simp_all
      have p2: "delete_pre h db2" by (rule keeps_delete_pre [OF g(1) p1])
      from Cons.IH [OF p2 n] have IH: "keeps db2 db'" "cascaded h db2 db'"
        "\<forall>c \<in> set (takeWhile (\<lambda>x. x \<noteq> 0) cs). \<forall>k < length (objmeta db2). oid (objmeta db2 ! k) = c
         \<and> undeleted (objmeta db2 ! k) \<and> parent_delete (flags (objmeta db2 ! k))
         \<and> may_delete h (objmeta db2 ! k) \<longrightarrow> \<not> undeleted (objmeta db' ! k)" by simp_all
      have k2: "keeps db db2" by (rule keeps_trans [OF k1 g(1)])
      have c2: "cascaded h db db2" by (rule cascaded_trans [OF k1 g(1) c1 g(2)])
      have "\<not> undeleted (objmeta db' ! k)"
        if x: "x = c \<or> x \<in> set (takeWhile (\<lambda>x. x \<noteq> 0) cs)" and k: "k < length (objmeta db)"
          "oid (objmeta db ! k) = x" "undeleted (objmeta db ! k)"
          "parent_delete (flags (objmeta db ! k))" "may_delete h (objmeta db ! k)" for x k
      proof
        assume u: "undeleted (objmeta db' ! k)"
        have len: "k < length (objmeta db2)" using k(1) keeps_length [OF k2] by simp
        have u2: "undeleted (objmeta db2 ! k)" by (rule keeps_undeleted [OF IH(1) len u])
        from x show False
        proof
          assume "x = c" with g(3) k u2 o show False by (simp add: gone_def)
        next
          assume "x \<in> set (takeWhile (\<lambda>x. x \<noteq> 0) cs)"
          moreover have "oid (objmeta db2 ! k) = x" "parent_delete (flags (objmeta db2 ! k))"
            "may_delete h (objmeta db2 ! k)"
            using u2 k slot_keepsD(1-11) [OF keeps_nth [OF k2 k(1)]]
            by (auto simp: may_delete_def undeleted_def)
          ultimately show False using IH(3) len u2 u by blast
        qed
      qed
      then show ?thesis
        using keeps_trans [OF k2 IH(1)] cascaded_trans [OF k2 IH(1) c2 IH(2)] c by auto
    qed
  qed
qed

lemma delete_cascade_aux:
  assumes "kogmo_rtdb_obj_delete_imm fuel h m imm db = Some (r, m', db')" "oid m \<noteq> 0" "delete_pre h db"
  shows "keeps db db' \<and> cascaded h db db' \<and> gone h (oid m) db db'
    \<and> (r = Inr 0 \<longrightarrow> (\<exists>k < length (objmeta db). oid (objmeta db ! k) = oid m \<and> \<not> undeleted (objmeta db' ! k)
          \<and> (\<forall>j < length (objmeta db). dep_child h (objmeta db ! k) (objmeta db ! j)
                \<longrightarrow> \<not> undeleted (objmeta db' ! j))))"
  using assms
proof (induction fuel arbitrary: m imm db r m' db')
  case 0 then show ?case by simp
next
  case (Suc fuel)
  let ?db0 = "kogmo_rtdb_objmeta_lock db"
  have same: "keeps db x \<and> cascaded h db x" if "x = kogmo_rtdb_objmeta_unlock ?db0" for x
    using that by (auto simp: keeps_def cascaded_def ipc_defs)
  have d: "dsa_frame_ok (h_dsa h)" and cl: "clock_ok db" and uq: "unique_keys oid (objmeta db)"
    and st: "plain_names h" "length (h_stack h) = Suc OBJIDLIST_MAX"
    and few: "length (children (oid m) ?db0) < OBJIDLIST_MAX"
    using Suc.prems(3) by (simp_all add: delete_pre_def few_children_def children_def)
  have found: "kogmo_rtdb_obj_findmeta_byid (oid m) db = Some k"
    if "k < length (objmeta db)" "oid (objmeta db ! k) = oid m" for k
    unfolding findmeta_lookup using that Suc.prems(2) by (subst objtab.lookup_unique [OF uq]) auto
  show ?case
  proof (cases "kogmo_rtdb_obj_findmeta_byid (oid m) db")
    case None
    then have e: "r = Inl ERR_NOTFOUND" "db' = kogmo_rtdb_objmeta_unlock ?db0"
      using Suc.prems(1) by (auto simp: Let_def)
    have "gone h (oid m) db db'" using None found by (auto simp: gone_def)
    with same [OF e(2)] e(1) show ?thesis by simp
  next
    case (Some k)
    have k: "k < length (objmeta db)" "oid (objmeta db ! k) = oid m"
      using Some by (auto simp: kogmo_rtdb_obj_findmeta_byid_def scan_first_Some)
    have only: "j = k" if "j < length (objmeta db)" "oid (objmeta db ! j) = oid m" for j
      using uq that k Suc.prems(2) by (auto simp: unique_keys_def)
    show ?thesis
    proof (cases "delete_check h (objmeta db ! k) imm")
      case (Some e)
      then have e: "r = Inl e" "db' = kogmo_rtdb_objmeta_unlock ?db0"
        using Suc.prems(1) \<open>_ = Some k\<close> by (auto simp: Let_def)
      have "gone h (oid m) db db'"
        unfolding gone_def using only Some delete_check_None [of h "objmeta db ! k" imm]
        by (auto simp: undeleted_def)
      with same [OF e(2)] e(1) show ?thesis by simp
    next
      case None
      let ?db1 = "snd (delete_mark h k imm ?db0)"
      let ?cs = "child_ids h (oid m) ?db0"
      have k0: "keeps db ?db0" by (rule keeps_objmeta) (simp_all add: ipc_defs)
      have k': "k < length (objmeta ?db0)" using k by simp
      have cl': "clock_ok ?db0" using keeps_clock_ok [OF k0] cl by simp
      from delete_mark_keeps [OF d k' cl', of imm]
      have m1: "keeps ?db0 ?db1" "\<not> undeleted (objmeta ?db1 ! k)" by simp_all
      have k1: "keeps db ?db1" by (rule keeps_trans [OF k0 m1(1)])
      have p1: "delete_pre h ?db1" by (rule keeps_delete_pre [OF k1 Suc.prems(3)])
      have ch: "delete_children (\<lambda>child db. map_option (\<lambda>(_, _, db). db)
            (kogmo_rtdb_obj_delete_imm fuel h child False db)) h ?cs ?db1 = Some db'"
        and r: "r = Inr 0"
        using Suc.prems(1) Some None by (auto simp: Let_def split_beta)
      have step: "keeps ?db1 db' \<and> cascaded h ?db1 db'
        \<and> (\<forall>c \<in> set (takeWhile (\<lambda>x. x \<noteq> 0) ?cs). \<forall>k < length (objmeta ?db1). oid (objmeta ?db1 ! k) = c
             \<and> undeleted (objmeta ?db1 ! k) \<and> parent_delete (flags (objmeta ?db1 ! k))
             \<and> may_delete h (objmeta ?db1 ! k) \<longrightarrow> \<not> undeleted (objmeta db' ! k))"
        by (rule delete_children_cascade [OF _ p1 ch]) (use Suc.IH in \<open>auto split: prod.splits\<close>)
      have kk: "keeps db db'" by (rule keeps_trans [OF k1]) (use step in blast)
      have dead: "\<not> undeleted (objmeta db' ! k)"
        using m1(2) step keeps_undeleted [of ?db1 db' k] keeps_length [OF k1] k(1) by auto
      have deps: "\<not> undeleted (objmeta db' ! j)"
        if j: "j < length (objmeta db)" "dep_child h (objmeta db ! k) (objmeta db ! j)" for j
      proof
        assume u: "undeleted (objmeta db' ! j)"
        have lj: "j < length (objmeta ?db1)" using j(1) keeps_length [OF k1] by simp
        have u1: "undeleted (objmeta ?db1 ! j)"
          by (rule keeps_undeleted [OF _ lj u]) (use step in blast)
        have f: "parent_delete (flags (objmeta ?db1 ! j))" "may_delete h (objmeta ?db1 ! j)"
          "oid (objmeta ?db1 ! j) = oid (objmeta db ! j)"
          using slot_keepsD(1-11) [OF keeps_nth [OF k1 j(1)]] j(2) u1
          by (auto simp: dep_child_def may_delete_def undeleted_def)
        have "oid (objmeta db ! j) \<in> set (map oid (children (oid m) ?db0))"
          using j k by (auto simp: children_def dep_child_def)
        then have "oid (objmeta db ! j) \<in> set (takeWhile (\<lambda>x. x \<noteq> 0) ?cs)"
          unfolding child_ids_spec [OF st Suc.prems(2) few] .
        with step lj u1 f u show False by auto
      qed
      have other: "objmeta ?db1 ! i = objmeta db ! i" if "i \<noteq> k" for i
        using that by (simp add: delete_mark_objmeta [OF d k'])
      have "cascaded h db db'"
        unfolding cascaded_def
      proof (intro allI impI, elim conjE)
        fix i j
        assume i: "i < length (objmeta db)" and j: "j < length (objmeta db)"
          and u: "undeleted (objmeta db ! i)" "\<not> undeleted (objmeta db' ! i)"
          and dep: "dep_child h (objmeta db ! i) (objmeta db ! j)"
        have l: "i < length (objmeta ?db1)" "j < length (objmeta ?db1)"
          using i j keeps_length [OF k1] by simp_all
        have c: "cascaded h ?db1 db'" using step by blast
        show "\<not> undeleted (objmeta db' ! j)"
        proof (cases "i = k \<or> j = k")
          case True then show ?thesis using deps [OF j] dep dead by auto
        next
          case False
          with cascadedD [OF c l] u dep other [of i] other [of j] show ?thesis by simp
        qed
      qed
      moreover have "gone h (oid m) db db'"
        using dead only by (auto simp: gone_def)
      ultimately show ?thesis using kk r k dead deps by blast
    qed
  qed
qed

end
