(* ===== verification/Objmeta_Cascade.thy ===== *)
theory Objmeta_Cascade
  imports Objmeta_Delete
begin

text \<open>
  The deletion of an object reaches the objects that depend on it, directly or through others,
  and touches no other object.
\<close>

definition depends :: "handle \<Rightarrow> rtdb \<Rightarrow> nat \<Rightarrow> nat \<Rightarrow> bool" where
  "depends h db i j \<longleftrightarrow> i < length (objmeta db) \<and> j < length (objmeta db) \<and> oid (objmeta db ! i) \<noteq> 0
     \<and> dep_child h (objmeta db ! i) (objmeta db ! j)"

text \<open>The slots of an object and of all that depend on it.\<close>

abbreviation dependents :: "handle \<Rightarrow> rtdb \<Rightarrow> nat \<Rightarrow> nat \<Rightarrow> bool" where
  "dependents h db \<equiv> (depends h db)\<^sup>*\<^sup>*"

lemma depends_lt: "dependents h db i j \<Longrightarrow> i < length (objmeta db) \<Longrightarrow> j < length (objmeta db)"
  by (induction rule: rtranclp_induct) (auto simp: depends_def)

text \<open>What depends on an object later depended on it from the start.\<close>

lemma keeps_depends:
  assumes k: "keeps db db'" and d: "depends h db' i j" shows "depends h db i j"
proof -
  have l: "i < length (objmeta db)" "j < length (objmeta db)"
    using d keeps_length [OF k] by (simp_all add: depends_def)
  have u: "undeleted (objmeta db' ! j)" using d by (simp add: depends_def dep_child_def live_def undeleted_def)
  note I = slot_keepsD(1-11) [OF keeps_nth [OF k l(1)]] and J = slot_keepsD(1-11) [OF keeps_nth [OF k l(2)]]
  have v: "undeleted (objmeta db ! j)" by (rule keeps_undeleted [OF k l(2) u])
  show ?thesis
    using d l I J u v by (auto simp: depends_def dep_child_def live_def may_delete_def undeleted_def)
qed

lemma keeps_dependents: "keeps db db' \<Longrightarrow> dependents h db' i j \<Longrightarrow> dependents h db i j"
  using keeps_depends by (metis (no_types, opaque_lifting) mono_rtranclp)

text \<open>A slot that a deletion of object \<open>i\<close> changes is that of \<open>i\<close> or of a dependent.\<close>

definition only_dependents :: "handle \<Rightarrow> int \<Rightarrow> rtdb \<Rightarrow> rtdb \<Rightarrow> bool" where
  "only_dependents h i db db' \<longleftrightarrow> (\<forall>j < length (objmeta db). objmeta db' ! j \<noteq> objmeta db ! j \<longrightarrow>
     (\<exists>k < length (objmeta db). oid (objmeta db ! k) = i \<and> may_delete h (objmeta db ! k) \<and> dependents h db k j))"

lemma only_dependents_keeps:
  assumes k: "keeps a b" and o: "only_dependents h i b c" and same: "\<And>j. j < length (objmeta a) \<Longrightarrow> objmeta b ! j \<noteq> objmeta a ! j \<Longrightarrow>
      \<exists>k < length (objmeta a). oid (objmeta a ! k) = i \<and> may_delete h (objmeta a ! k) \<and> dependents h a k j"
    and i: "i \<noteq> 0"
  shows "only_dependents h i a c"
  unfolding only_dependents_def
proof (intro allI impI)
  fix j assume j: "j < length (objmeta a)" "objmeta c ! j \<noteq> objmeta a ! j"
  have len: "length (objmeta b) = length (objmeta a)" by (rule keeps_length [OF k])
  show "\<exists>k < length (objmeta a). oid (objmeta a ! k) = i \<and> may_delete h (objmeta a ! k) \<and> dependents h a k j"
  proof (cases "objmeta b ! j = objmeta a ! j")
    case False then show ?thesis using same j(1) by blast
  next
    case True
    with j len o obtain l where l: "l < length (objmeta a)" "oid (objmeta b ! l) = i"
      "may_delete h (objmeta b ! l)" "dependents h b l j" by (auto simp: only_dependents_def)
    have "oid (objmeta a ! l) = i" "may_delete h (objmeta a ! l)"
      using slot_keepsD(1-11) [OF keeps_nth [OF k l(1)]] l(2,3) i by (auto simp: may_delete_def)
    with l(1) keeps_dependents [OF k l(4)] show ?thesis by blast
  qed
qed

lemma delete_children_only:
  assumes del: "\<And>child db db'. oid child \<noteq> 0 \<Longrightarrow> delete_pre h db \<Longrightarrow> del child db = Some db' \<Longrightarrow>
      keeps db db' \<and> only_dependents h (oid child) db db'"
    and "delete_pre h db" "delete_children del h cs db = Some db'"
  shows "keeps db db' \<and> (\<forall>j < length (objmeta db). objmeta db' ! j \<noteq> objmeta db ! j \<longrightarrow>
     (\<exists>k < length (objmeta db). oid (objmeta db ! k) \<in> set (takeWhile (\<lambda>x. x \<noteq> 0) cs)
        \<and> undeleted (objmeta db ! k) \<and> parent_delete (flags (objmeta db ! k)) \<and> may_delete h (objmeta db ! k)
        \<and> dependents h db k j))"
  using assms(2,3)
proof (induction cs arbitrary: db)
  case Nil then show ?case by simp
next
  case (Cons c cs)
  show ?case
  proof (cases "c = 0")
    case True with Cons.prems show ?thesis by simp
  next
    case c: False
    obtain err child db1 where r: "kogmo_rtdb_obj_readinfo h c 0 zero_info db = (err, child, db1)"
      by (metis prod_cases3)
    have o: "objmeta db1 = objmeta db" using readinfo_db(1) [of h c 0 zero_info db] r by simp
    have k1: "keeps db db1" using readinfo_keeps [of db h c 0 zero_info] r by simp
    have p1: "delete_pre h db1" by (rule keeps_delete_pre [OF k1 Cons.prems(1)])
    have dp: "depends h db1 = depends h db" by (simp add: fun_eq_iff depends_def o)
    show ?thesis
    proof (cases "(\<exists>e. err = Inl e) \<or> \<not> parent_delete (flags child)")
      case True
      with Cons.prems c r have "delete_children del h cs db1 = Some db'" by (auto split: sum.splits)
      from Cons.IH [OF p1 this] c show ?thesis using keeps_trans [OF k1] by (auto simp: o dp)
    next
      case False
      then obtain v where v: "err = Inr v" and pd: "parent_delete (flags child)" by (cases err) auto
      from readinfo_Inr [OF r [unfolded v]] obtain kc where kc: "kc < length (objmeta db)"
        "objmeta db ! kc = child" "oid child = c" "deleted_ts child = 0" by blast
      from Cons.prems c r v pd obtain db2 where d: "del child db1 = Some db2"
        and n: "delete_children del h cs db2 = Some db'" by (auto split: option.splits)
      have g: "keeps db1 db2" "only_dependents h c db1 db2"
        using del [OF _ p1 d] kc c by simp_all
      have p2: "delete_pre h db2" by (rule keeps_delete_pre [OF g(1) p1])
      have k2: "keeps db db2" by (rule keeps_trans [OF k1 g(1)])
      note IH = Cons.IH [OF p2 n]
      have only_c: "k = kc" if "k < length (objmeta db)" "oid (objmeta db ! k) = c" for k
        using Cons.prems(1) that kc c by (auto simp: delete_pre_def unique_keys_def)
      have "\<exists>k < length (objmeta db). oid (objmeta db ! k) \<in> set (takeWhile (\<lambda>x. x \<noteq> 0) (c # cs))
          \<and> undeleted (objmeta db ! k) \<and> parent_delete (flags (objmeta db ! k)) \<and> may_delete h (objmeta db ! k)
          \<and> dependents h db k j"
        if j: "j < length (objmeta db)" "objmeta db' ! j \<noteq> objmeta db ! j" for j
      proof (cases "objmeta db2 ! j = objmeta db ! j")
        case False
        with g(2) j(1) obtain k where k: "k < length (objmeta db)" "oid (objmeta db ! k) = c"
          "may_delete h (objmeta db ! k)" "dependents h db k j" by (auto simp: only_dependents_def o dp)
        with kc pd c only_c [OF k(1,2)] show ?thesis by (auto simp: undeleted_def)
      next
        case True
        with IH j keeps_length [OF k2] obtain k where k: "k < length (objmeta db)"
          "oid (objmeta db2 ! k) \<in> set (takeWhile (\<lambda>x. x \<noteq> 0) cs)" "undeleted (objmeta db2 ! k)"
          "parent_delete (flags (objmeta db2 ! k))" "may_delete h (objmeta db2 ! k)" "dependents h db2 k j"
          by auto
        have "undeleted (objmeta db ! k)" by (rule keeps_undeleted [OF k2 k(1,3)])
        with slot_keepsD(1-11) [OF keeps_nth [OF k2 k(1)]] k keeps_dependents [OF k2 k(6)] c
        show ?thesis by (intro exI [of _ k]) (auto simp: may_delete_def undeleted_def)
      qed
      then show ?thesis using keeps_trans [OF k2] IH by blast
    qed
  qed
qed

lemma delete_only_aux:
  assumes "kogmo_rtdb_obj_delete_imm fuel h m imm db = Some (r, m', db')" "oid m \<noteq> 0" "delete_pre h db"
  shows "keeps db db' \<and> only_dependents h (oid m) db db'"
  using assms
proof (induction fuel arbitrary: m imm db r m' db')
  case 0 then show ?case by simp
next
  case (Suc fuel)
  let ?db0 = "kogmo_rtdb_objmeta_lock db"
  have same: ?case if "db' = kogmo_rtdb_objmeta_unlock ?db0"
    using that by (auto simp: keeps_def only_dependents_def ipc_defs)
  have d: "dsa_frame_ok (h_dsa h)" and cl: "clock_ok db" and uq: "unique_keys oid (objmeta db)"
    and st: "plain_names h" "length (h_stack h) = Suc OBJIDLIST_MAX"
    and few: "length (children (oid m) ?db0) < OBJIDLIST_MAX"
    using Suc.prems(3) by (simp_all add: delete_pre_def few_children_def children_def)
  show ?case
  proof (cases "kogmo_rtdb_obj_findmeta_byid (oid m) db")
    case None with Suc.prems(1) same show ?thesis by (auto simp: Let_def)
  next
    case (Some k)
    have k: "k < length (objmeta db)" "oid (objmeta db ! k) = oid m"
      using Some by (auto simp: kogmo_rtdb_obj_findmeta_byid_def scan_first_Some)
    show ?thesis
    proof (cases "delete_check h (objmeta db ! k) imm")
      case (Some e) with Suc.prems(1) same \<open>_ = Some k\<close> show ?thesis by (auto simp: Let_def)
    next
      case None
      then have may: "may_delete h (objmeta db ! k)" by (simp add: delete_check_None)
      let ?db1 = "snd (delete_mark h k imm ?db0)"
      let ?cs = "child_ids h (oid m) ?db0"
      have k0: "keeps db ?db0" by (rule keeps_objmeta) (simp_all add: ipc_defs)
      have k': "k < length (objmeta ?db0)" using k by simp
      have cl': "clock_ok ?db0" using keeps_clock_ok [OF k0] cl by simp
      have k1: "keeps db ?db1" by (rule keeps_trans [OF k0 delete_mark_keeps(1) [OF d k' cl']])
      have p1: "delete_pre h ?db1" by (rule keeps_delete_pre [OF k1 Suc.prems(3)])
      have ch: "delete_children (\<lambda>child db. map_option (\<lambda>(_, _, db). db)
            (kogmo_rtdb_obj_delete_imm fuel h child False db)) h ?cs ?db1 = Some db'"
        using Suc.prems(1) Some None by (auto simp: Let_def split_beta)
      have step: "keeps ?db1 db' \<and> (\<forall>j < length (objmeta ?db1). objmeta db' ! j \<noteq> objmeta ?db1 ! j \<longrightarrow>
         (\<exists>l < length (objmeta ?db1). oid (objmeta ?db1 ! l) \<in> set (takeWhile (\<lambda>x. x \<noteq> 0) ?cs)
            \<and> undeleted (objmeta ?db1 ! l) \<and> parent_delete (flags (objmeta ?db1 ! l))
            \<and> may_delete h (objmeta ?db1 ! l) \<and> dependents h ?db1 l j))"
        by (rule delete_children_only [OF _ p1 ch]) (use Suc.IH in \<open>auto split: prod.splits\<close>)
      have "\<exists>l < length (objmeta db). oid (objmeta db ! l) = oid m \<and> may_delete h (objmeta db ! l) \<and> dependents h db l j"
        if j: "j < length (objmeta db)" "objmeta db' ! j \<noteq> objmeta db ! j" for j
      proof (cases "objmeta ?db1 ! j = objmeta db ! j")
        case False
        then have "j = k" by (cases "j = k") (simp_all add: delete_mark_objmeta(1) [OF d k'])
        with k may show ?thesis by blast
      next
        case True
        with step j keeps_length [OF k1] obtain l where l: "l < length (objmeta db)"
          "oid (objmeta ?db1 ! l) \<in> set (takeWhile (\<lambda>x. x \<noteq> 0) ?cs)" "undeleted (objmeta ?db1 ! l)"
          "parent_delete (flags (objmeta ?db1 ! l))" "may_delete h (objmeta ?db1 ! l)" "dependents h ?db1 l j"
          by auto
        have u: "undeleted (objmeta db ! l)" by (rule keeps_undeleted [OF k1 l(1,3)])
        note K = slot_keepsD(1-11) [OF keeps_nth [OF k1 l(1)]]
        have e: "oid (objmeta ?db1 ! l) = oid (objmeta db ! l)" using K l(3) by (auto simp: undeleted_def)
        from l(2) have "oid (objmeta db ! l) \<in> set (map oid (children (oid m) ?db0))"
          unfolding child_ids_spec [OF st Suc.prems(2) few] e .
        then obtain s where s: "s \<in> set (objmeta db)" "live s" "parent_oid s = oid m" "oid s = oid (objmeta db ! l)"
          by (auto simp: children_def)
        then obtain i where i: "i < length (objmeta db)" "objmeta db ! i = s" by (auto simp: in_set_conv_nth)
        have "i = l" using uq i s l(1) by (auto simp: unique_keys_def live_def)
        then have "depends h db k l"
          using k Suc.prems(2) i s l K by (auto simp: depends_def dep_child_def may_delete_def)
        with keeps_dependents [OF k1 l(6)] k may show ?thesis
          by (meson converse_rtranclp_into_rtranclp)
      qed
      then show ?thesis using keeps_trans [OF k1] step by (auto simp: only_dependents_def)
    qed
  qed
qed

text \<open>All dependents are gone.\<close>

lemma delete_reaches:
  assumes c: "cascaded h db db'" and k: "k < length (objmeta db)"
    and dir: "\<And>j. j < length (objmeta db) \<Longrightarrow> dep_child h (objmeta db ! k) (objmeta db ! j) \<Longrightarrow> \<not> undeleted (objmeta db' ! j)"
    and self: "\<not> undeleted (objmeta db' ! k)" and j: "dependents h db k j"
  shows "\<not> undeleted (objmeta db' ! j)"
  using j
proof (induction rule: rtranclp_induct)
  case base then show ?case by (rule self)
next
  case (step i j)
  show ?case
  proof (cases "i = k")
    case True with step(2) dir show ?thesis by (simp add: depends_def)
  next
    case False
    with step(1) obtain l where "depends h db l i" by (metis rtranclp.cases)
    then have "undeleted (objmeta db ! i)" by (simp add: depends_def dep_child_def live_def undeleted_def)
    with step(2,3) show ?thesis using cascadedD [OF c] by (auto simp: depends_def)
  qed
qed

end
