(* ===== verification/Objdata.thy ===== *)
theory Objdata
  imports Rtmalloc
begin

text \<open>
  Reading and writing object data (\<open>rtdb/kogmo_rtdb_objdata.c\<close>): every object owns a ring of
  \<open>history_size\<close> blocks of \<open>size_max\<close> bytes in the heap; a commit fills the next block, a read
  scans backwards from the latest one. Pointers into the heap are indices.
\<close>

definition invalid_ts :: timestamp where
  "invalid_ts = 0"

definition kogmo_rtdb_obj_initdata :: "obj_info \<Rightarrow> byte list" where
  "kogmo_rtdb_obj_initdata m = set_size (size_max m) (replicate (nat (size_max m)) 0)"

text \<open>\<open>&heap[buffer_idx + slot * size_max]\<close>\<close>

definition slot_addr :: "obj_info \<Rightarrow> int \<Rightarrow> int" where
  "slot_addr m s = int32 (buffer_idx m + s * size_max m)"

text \<open>\<open>CMP_INT64_HIGH(ts, invalid_ts)\<close>: the upper 32 bits are those of \<open>invalid_ts\<close>.\<close>

definition CMP_INT64_HIGH :: "timestamp \<Rightarrow> timestamp \<Rightarrow> bool" where
  "CMP_INT64_HIGH a b \<longleftrightarrow> uint32 (a div 2 ^ 32) = uint32 (b div 2 ^ 32)"

section \<open>Scanning the history\<close>

text \<open>
  The arguments \<open>currslot\<close> and \<open>firstslot\<close> are \<open>None\<close> for NULL pointers. The test
  \<open>currslot_p < 0\<close> of the code compares a pointer and is never true.
\<close>

definition kogmo_rtdb_obj_histscan ::
    "mem \<Rightarrow> int \<Rightarrow> obj_info \<Rightarrow> int option \<Rightarrow> int option \<Rightarrow> int option \<times> int option \<times> int option" where
  "kogmo_rtdb_obj_histscan hp adj m currslot firstslot =
     (if history_size m = 0 then (None, currslot, firstslot)
      else
        let curr = (case currslot of Some c \<Rightarrow> c | None \<Rightarrow> history_slot m);
            (curr, firstslot) = (if adj = 0
               then (history_slot m, map_option (\<lambda>_. history_slot m) firstslot)
               else (int32 (curr + adj), firstslot));
            curr = c_rem (int32 (curr + history_size m)) (history_size m);
            currslot = map_option (\<lambda>_. curr) currslot
        in if firstslot = Some curr \<and> adj \<noteq> 0 then (None, currslot, firstslot)
           else let objbase = slot_addr m curr
                in if CMP_INT64_HIGH (m_committed_ts hp objbase) invalid_ts
                   then (None, currslot, firstslot)
                   else (Some objbase, currslot, firstslot))"

section \<open>Writing\<close>

definition next_slot :: "obj_info \<Rightarrow> int" where
  "next_slot m = (if history_slot m < 0 then 0 else c_rem (int32 (history_slot m + 1)) (history_size m))"

text \<open>Lines 87-105: was the last commit too recent?\<close>

definition too_fast :: "mem \<Rightarrow> obj_info \<Rightarrow> timestamp \<Rightarrow> bool" where
  "too_fast hp m committed_ts =
     (if cycle_watch (flags m) then
        (case fst (kogmo_rtdb_obj_histscan hp 0 m None None) of
           None \<Rightarrow> False
         | Some p \<Rightarrow> f32 (kogmo_timestamp_diff_secs (m_committed_ts hp p) committed_ts)
                      < MIN_CYCLETIME (min_cycletime m) (max_cycletime m))
      else False)"

text \<open>Lines 133-160: the heap after the block at \<open>p\<close> has been filled and made valid.\<close>

definition write_block :: "int \<Rightarrow> byte list \<Rightarrow> timestamp \<Rightarrow> mem \<Rightarrow> mem" where
  "write_block p bs committed_ts hp =
     (let hp = stb hp p (enc 8 invalid_ts);
          hp = stb hp p bs;
          hp = (if m_data_ts hp p = invalid_ts then stb hp (p + 12) (enc 8 committed_ts) else hp)
      in stb hp p (enc 8 committed_ts))"

definition commit_ts :: "rtdb \<Rightarrow> int \<Rightarrow> timestamp \<Rightarrow> timestamp" where
  "commit_ts db p ts =
     (if ts = m_committed_ts (heap db) p \<and> \<not> simmode db then int64 (ts + 1) else ts)"

text \<open>Lines 62-74.\<close>

definition writedata_check :: "handle \<Rightarrow> obj_info \<Rightarrow> int \<Rightarrow> rtdb_error option" where
  "writedata_check h m sz =
     (if buffer_idx m = 0 then Some ERR_NOTFOUND
      else if sz > size_max m then Some ERR_INVALID
      else if sz < int base_size then Some ERR_INVALID
      else if \<not> write_allow (flags m) \<and> created_proc m \<noteq> h_proc_oid h \<and> \<not> this_process_is_admin h
      then Some ERR_NOPERM
      else None)"

text \<open>Lines 107-193.\<close>

definition writedata_commit ::
    "handle \<Rightarrow> int \<Rightarrow> nat \<Rightarrow> byte list \<Rightarrow> timestamp \<Rightarrow> rtdb \<Rightarrow> byte list \<times> rtdb" where
  "writedata_commit h i k data committed_ts db =
     (let m = objmeta db ! k;
          sz = b_size data;
          no_not = no_notifies (flags m) \<or> db_no_notifies db;
          slot = next_slot m;
          p = slot_addr m slot;
          data = set_committed_ts invalid_ts data;
          committed_ts = commit_ts db p committed_ts;
          db = db\<lparr>heap := write_block p (take (nat sz) data) committed_ts (heap db)\<rparr>;
          db = (if no_not then db else kogmo_rtdb_obj_do_notify_prepare k db);
          db = upd_meta k (m\<lparr>history_slot := slot\<rparr>) db;
          db = (if write_allow (flags m) then kogmo_rtdb_obj_unlock k db else db);
          db = (if no_not then db else kogmo_rtdb_obj_do_notify k db);
          data = set_committed_ts committed_ts data;
          db = kogmo_rtdb_obj_trace_send i committed_ts TRACE_UPDATED (Some (int k)) slot db
      in (data, db))"

definition kogmo_rtdb_obj_writedata ::
    "handle \<Rightarrow> int \<Rightarrow> byte list \<Rightarrow> rtdb \<Rightarrow> (rtdb_error + int) \<times> byte list \<times> rtdb" where
  "kogmo_rtdb_obj_writedata h i data db =
     (let (committed_ts, db) = kogmo_rtdb_timestamp_now db
      in case kogmo_rtdb_obj_findmeta_byid i db of
           None \<Rightarrow> (Inl ERR_NOTFOUND, data, db)
         | Some k \<Rightarrow>
             (case writedata_check h (objmeta db ! k) (b_size data) of
                Some e \<Rightarrow> (Inl e, data, db)
              | None \<Rightarrow>
                  let wa = write_allow (flags (objmeta db ! k));
                      data = set_committed_proc (h_proc_oid h) data;
                      db = (if wa then kogmo_rtdb_obj_lock k db else db)
                  in if too_fast (heap db) (objmeta db ! k) committed_ts
                     then (Inl ERR_TOOFAST, data, if wa then kogmo_rtdb_obj_unlock k db else db)
                     else let (data, db) = writedata_commit h i k data committed_ts db
                          in (Inr 0, data, db)))"

text \<open>Writing in place: the caller gets the next block, fills it, and commits.\<close>

definition kogmo_rtdb_obj_writedata_ptr_begin ::
    "handle \<Rightarrow> int \<Rightarrow> rtdb \<Rightarrow> (rtdb_error + int) \<times> int option \<times> rtdb" where
  "kogmo_rtdb_obj_writedata_ptr_begin h i db =
     (case kogmo_rtdb_obj_findmeta_byid i db of
        None \<Rightarrow> (Inl ERR_NOTFOUND, None, db)
      | Some k \<Rightarrow>
          let m = objmeta db ! k
          in if buffer_idx m = 0 then (Inl ERR_NOTFOUND, None, db)
             else if write_allow (flags m) \<or> created_proc m \<noteq> h_proc_oid h
             then (Inl ERR_INVALID, None, db)
             else let p = slot_addr m (next_slot m)
                  in (Inr 0, Some p, db\<lparr>heap := stb (heap db) p (enc 8 invalid_ts)\<rparr>))"

definition kogmo_rtdb_obj_writedata_ptr_commit ::
    "handle \<Rightarrow> int \<Rightarrow> int \<Rightarrow> rtdb \<Rightarrow> (rtdb_error + int) \<times> rtdb" where
  "kogmo_rtdb_obj_writedata_ptr_commit h i data_p db =
     (let (committed_ts, db) = kogmo_rtdb_timestamp_now db;
          sz = m_size (heap db) data_p
      in case kogmo_rtdb_obj_findmeta_byid i db of
           None \<Rightarrow> (Inl ERR_NOTFOUND, db)
         | Some k \<Rightarrow>
             let m = objmeta db ! k
             in if buffer_idx m = 0 then (Inl ERR_NOTFOUND, db)
                else if sz > size_max m then (Inl ERR_INVALID, db)
                else if sz < int base_size then (Inl ERR_INVALID, db)
                else if write_allow (flags m) \<or> created_proc m \<noteq> h_proc_oid h
                then (Inl ERR_INVALID, db)
                else if too_fast (heap db) m committed_ts then (Inl ERR_TOOFAST, db)
                else
                  let no_not = no_notifies (flags m) \<or> db_no_notifies db;
                      slot = next_slot m;
                      p = slot_addr m slot
                  in if data_p \<noteq> p then (Inl ERR_INVALID, db)
                     else
                       let hp = stb (heap db) (p + 8) (enc 4 (h_proc_oid h));
                           hp = (if m_data_ts hp p = invalid_ts
                                 then stb hp (p + 12) (enc 8 committed_ts) else hp);
                           db = (if no_not then db else kogmo_rtdb_obj_do_notify_prepare k db);
                           db = db\<lparr>heap := stb hp p (enc 8 committed_ts)\<rparr>;
                           db = upd_meta k (m\<lparr>history_slot := slot\<rparr>) db;
                           db = (if no_not then db else kogmo_rtdb_obj_do_notify k db);
                           db = kogmo_rtdb_obj_trace_send i committed_ts TRACE_UPDATED (Some (int k)) slot db
                       in (Inr 0, db))"

section \<open>Reading\<close>

datatype read_mode = RTDBSEL_LAST | RTDBSEL_OLDER | RTDBSEL_YOUNGER
  | RTDBSEL_DATATIME | RTDBSEL_DATAOLDER | RTDBSEL_DATAYOUNGER

text \<open>
  The loop of the modes \<open>LAST\<close>, \<open>OLDER\<close>, \<open>DATATIME\<close> and \<open>DATAOLDER\<close>: go back until \<open>stop\<close> holds of
  the block. The outer \<open>None\<close> means that the bound on the number of rounds was reached, the
  inner one the end of the history.
\<close>

fun scan_back ::
    "nat \<Rightarrow> mem \<Rightarrow> obj_info \<Rightarrow> (int \<Rightarrow> bool) \<Rightarrow> int \<Rightarrow> int \<Rightarrow> int \<Rightarrow> int option option" where
  "scan_back 0 hp m stop p sl fsl = None"
| "scan_back (Suc fuel) hp m stop p sl fsl =
     (if stop p then Some (Some p)
      else case kogmo_rtdb_obj_histscan hp (- 1) m (Some sl) (Some fsl) of
             (Some p', sl', fsl') \<Rightarrow> scan_back fuel hp m stop p' (the sl') (the fsl')
           | (None, _, _) \<Rightarrow> Some None)"

text \<open>The loop of \<open>YOUNGER\<close> and \<open>DATAYOUNGER\<close>: the last block before \<open>stop\<close> holds or the end.\<close>

fun scan_young ::
    "nat \<Rightarrow> mem \<Rightarrow> obj_info \<Rightarrow> (int \<Rightarrow> bool) \<Rightarrow> int \<Rightarrow> int \<Rightarrow> int \<Rightarrow> int \<Rightarrow> int option" where
  "scan_young 0 hp m stop p next_p sl fsl = None"
| "scan_young (Suc fuel) hp m stop p next_p sl fsl =
     (if stop next_p then Some p
      else case kogmo_rtdb_obj_histscan hp (- 1) m (Some sl) (Some fsl) of
             (Some p', sl', fsl') \<Rightarrow> scan_young fuel hp m stop next_p p' (the sl') (the fsl')
           | (None, _, _) \<Rightarrow> Some next_p)"

definition stop_at :: "read_mode \<Rightarrow> mem \<Rightarrow> timestamp \<Rightarrow> int \<Rightarrow> bool" where
  "stop_at mode hp ts p = (case mode of
     RTDBSEL_LAST \<Rightarrow> m_committed_ts hp p \<le> ts
   | RTDBSEL_OLDER \<Rightarrow> m_committed_ts hp p < ts
   | RTDBSEL_YOUNGER \<Rightarrow> m_committed_ts hp p \<le> ts
   | RTDBSEL_DATATIME \<Rightarrow> m_data_ts hp p \<le> ts
   | RTDBSEL_DATAOLDER \<Rightarrow> m_data_ts hp p < ts
   | RTDBSEL_DATAYOUNGER \<Rightarrow> m_data_ts hp p \<le> ts)"

text \<open>Lines 592-751: the block to be read. \<open>None\<close>: the bound was reached.\<close>

definition readdata_select ::
    "nat \<Rightarrow> handle \<Rightarrow> read_mode \<Rightarrow> int \<Rightarrow> timestamp \<Rightarrow> rtdb \<Rightarrow> (rtdb_error + nat \<times> int) option" where
  "readdata_select fuel h mode i ts db =
     (case kogmo_rtdb_obj_findmeta_byid i db of
        None \<Rightarrow> Some (Inl ERR_NOTFOUND)
      | Some k \<Rightarrow>
          let m = objmeta db ! k;
              hp = heap db
          in if buffer_idx m = 0 then Some (Inl ERR_NOTFOUND)
             else if read_deny (flags m) \<and> created_proc m \<noteq> h_proc_oid h
                     \<and> \<not> this_process_is_admin h then Some (Inl ERR_NOPERM)
             else case kogmo_rtdb_obj_histscan hp 0 m (Some 0) (Some 0) of
                    (None, _, _) \<Rightarrow> Some (Inl ERR_NOTFOUND)
                  | (Some p, sl, fsl) \<Rightarrow>
                      let back = map_option (\<lambda>r. case r of None \<Rightarrow> Inl ERR_NOTFOUND | Some p \<Rightarrow> Inr (k, p))
                                   (scan_back fuel hp m (stop_at mode hp ts) p (the sl) (the fsl));
                          young = (if stop_at mode hp ts p then Some (Inl ERR_NOTFOUND)
                                   else map_option (\<lambda>p. Inr (k, p))
                                     (scan_young fuel hp m (stop_at mode hp ts) p p (the sl) (the fsl)))
                      in (case mode of
                            RTDBSEL_LAST \<Rightarrow>
                              if ts = invalid_ts \<and> deleted_ts m \<noteq> invalid_ts
                              then Some (Inl ERR_NOTFOUND)
                              else if ts = invalid_ts then Some (Inr (k, p))
                              else back
                          | RTDBSEL_OLDER \<Rightarrow> back
                          | RTDBSEL_YOUNGER \<Rightarrow> young
                          | RTDBSEL_DATATIME \<Rightarrow> back
                          | RTDBSEL_DATAOLDER \<Rightarrow> back
                          | RTDBSEL_DATAYOUNGER \<Rightarrow> young))"

text \<open>With \<open>RTDBSEL_PTR\<close>: the size, and the pointer.\<close>

definition kogmo_rtdb_obj_readdata_mode_ptr ::
    "nat \<Rightarrow> handle \<Rightarrow> read_mode \<Rightarrow> int \<Rightarrow> timestamp \<Rightarrow> rtdb \<Rightarrow> ((rtdb_error + int) \<times> int option) option" where
  "kogmo_rtdb_obj_readdata_mode_ptr fuel h mode i ts db =
     map_option (\<lambda>r. case r of Inl e \<Rightarrow> (Inl e, None)
                     | Inr (k, p) \<Rightarrow> (Inr (m_size (heap db) p), Some p))
       (readdata_select fuel h mode i ts db)"

text \<open>Without: copy the block into the caller's buffer \<open>buf\<close>, of which \<open>sz\<close> bytes may be used.\<close>

definition kogmo_rtdb_obj_readdata_mode ::
    "nat \<Rightarrow> handle \<Rightarrow> read_mode \<Rightarrow> int \<Rightarrow> timestamp \<Rightarrow> byte list \<Rightarrow> int \<Rightarrow> rtdb
      \<Rightarrow> ((rtdb_error + int) \<times> byte list \<times> rtdb) option" where
  "kogmo_rtdb_obj_readdata_mode fuel h mode i ts buf sz db =
     map_option (\<lambda>r. case r of
         Inl e \<Rightarrow> (Inl e, buf, db)
       | Inr (k, p) \<Rightarrow>
           let m = objmeta db ! k;
               scan_ts = m_committed_ts (heap db) p;
               avail = (if m_size (heap db) p \<le> sz then m_size (heap db) p else sz);
               buf = ldb (heap db) p (nat avail) @ drop (nat avail) buf;
               buf = set_size avail buf;
               final_ts = m_committed_ts (heap db) p;
               buf = set_committed_ts final_ts buf
           in if final_ts \<noteq> scan_ts then (Inl ERR_HISTWRAP, buf, db)
              else if withhold_stale (flags m) then
                let (now, db) = kogmo_rtdb_timestamp_now db
                in if f32 (kogmo_timestamp_diff_secs (m_committed_ts (heap db) p) now)
                        > MAX_CYCLETIME (min_cycletime m) (max_cycletime m)
                   then (Inl ERR_TOOFAST, buf, db)
                   else (Inr (m_size (heap db) p), buf, db)
              else (Inr (m_size (heap db) p), buf, db))
       (readdata_select fuel h mode i ts db)"

definition kogmo_rtdb_obj_readdata where
  "kogmo_rtdb_obj_readdata fuel h = kogmo_rtdb_obj_readdata_mode fuel h RTDBSEL_LAST"

definition kogmo_rtdb_obj_readdata_older where
  "kogmo_rtdb_obj_readdata_older fuel h = kogmo_rtdb_obj_readdata_mode fuel h RTDBSEL_OLDER"

definition kogmo_rtdb_obj_readdata_younger where
  "kogmo_rtdb_obj_readdata_younger fuel h = kogmo_rtdb_obj_readdata_mode fuel h RTDBSEL_YOUNGER"

definition kogmo_rtdb_obj_readdata_datatime where
  "kogmo_rtdb_obj_readdata_datatime fuel h = kogmo_rtdb_obj_readdata_mode fuel h RTDBSEL_DATATIME"

definition kogmo_rtdb_obj_readdata_dataolder where
  "kogmo_rtdb_obj_readdata_dataolder fuel h = kogmo_rtdb_obj_readdata_mode fuel h RTDBSEL_DATAOLDER"

definition kogmo_rtdb_obj_readdata_datayounger where
  "kogmo_rtdb_obj_readdata_datayounger fuel h = kogmo_rtdb_obj_readdata_mode fuel h RTDBSEL_DATAYOUNGER"

definition kogmo_rtdb_obj_readdata_ptr where
  "kogmo_rtdb_obj_readdata_ptr fuel h = kogmo_rtdb_obj_readdata_mode_ptr fuel h RTDBSEL_LAST"

definition kogmo_rtdb_obj_readdata_older_ptr where
  "kogmo_rtdb_obj_readdata_older_ptr fuel h = kogmo_rtdb_obj_readdata_mode_ptr fuel h RTDBSEL_OLDER"

definition kogmo_rtdb_obj_readdata_younger_ptr where
  "kogmo_rtdb_obj_readdata_younger_ptr fuel h = kogmo_rtdb_obj_readdata_mode_ptr fuel h RTDBSEL_YOUNGER"

definition kogmo_rtdb_obj_readdata_datatime_ptr where
  "kogmo_rtdb_obj_readdata_datatime_ptr fuel h = kogmo_rtdb_obj_readdata_mode_ptr fuel h RTDBSEL_DATATIME"

definition kogmo_rtdb_obj_readdata_dataolder_ptr where
  "kogmo_rtdb_obj_readdata_dataolder_ptr fuel h = kogmo_rtdb_obj_readdata_mode_ptr fuel h RTDBSEL_DATAOLDER"

definition kogmo_rtdb_obj_readdata_datayounger_ptr where
  "kogmo_rtdb_obj_readdata_datayounger_ptr fuel h = kogmo_rtdb_obj_readdata_mode_ptr fuel h RTDBSEL_DATAYOUNGER"

end
