(* ===== verification/Objdata_Ring.thy ===== *)
theory Objdata_Ring
  imports Objdata
begin

text \<open>
  The history of an object as a list of committed entries, newest first, and the proof that
  the ring buffer implements it: a commit puts its entry in front and drops what no longer
  fits, a read selects an entry by commit time or data time.
\<close>

section \<open>The ring\<close>

text \<open>The block of an object has room for its ring, below 2 GB.\<close>

definition ring_ok :: "obj_info \<Rightarrow> bool" where
  "ring_ok m \<longleftrightarrow> int base_size \<le> size_max m \<and> 1 \<le> history_size m \<and> - 1 \<le> history_slot m
     \<and> history_slot m < history_size m \<and> 0 \<le> buffer_idx m
     \<and> buffer_idx m + size_max m * history_size m < 2 ^ 31"

text \<open>The slot and the address of the entry \<open>i\<close> commits back.\<close>

definition ring_slot :: "obj_info \<Rightarrow> nat \<Rightarrow> int" where
  "ring_slot m i = (history_slot m - int i) mod history_size m"

definition ring_addr :: "obj_info \<Rightarrow> nat \<Rightarrow> int" where
  "ring_addr m i = buffer_idx m + ring_slot m i * size_max m"

lemma ring_okD:
  assumes "ring_ok m"
  shows "24 \<le> size_max m" "1 \<le> history_size m" "- 1 \<le> history_slot m"
    "history_slot m < history_size m" "0 \<le> buffer_idx m"
    "buffer_idx m + size_max m * history_size m < 2 ^ 31" "24 * history_size m < 2 ^ 31"
proof -
  show *: "24 \<le> size_max m" "1 \<le> history_size m" "- 1 \<le> history_slot m"
    "history_slot m < history_size m" "0 \<le> buffer_idx m"
    "buffer_idx m + size_max m * history_size m < 2 ^ 31"
    using assms by (simp_all add: ring_ok_def base_size_def)
  have "24 * history_size m \<le> size_max m * history_size m" using * by (intro mult_right_mono) auto
  with * show "24 * history_size m < 2 ^ 31" by linarith
qed

lemma ring_slot_bounds: "ring_ok m \<Longrightarrow> 0 \<le> ring_slot m i \<and> ring_slot m i < history_size m"
  by (simp add: ring_slot_def ring_ok_def)

lemma slot_bytes_bound:
  assumes "ring_ok m" "0 \<le> s" "s < history_size m"
  shows "0 \<le> s * size_max m" "s * size_max m + size_max m \<le> size_max m * history_size m"
proof -
  have "0 < size_max m" using ring_okD [OF assms(1)] by simp
  then show "0 \<le> s * size_max m" using assms(2) by simp
  have "(s + 1) * size_max m \<le> history_size m * size_max m"
    using assms(3) \<open>0 < size_max m\<close> by (intro mult_right_mono) auto
  then show "s * size_max m + size_max m \<le> size_max m * history_size m"
    by (simp add: algebra_simps)
qed

lemma slot_addr_ring:
  assumes "ring_ok m" shows "slot_addr m (ring_slot m i) = ring_addr m i"
  unfolding slot_addr_def ring_addr_def
proof (rule int32_id)
  note b = slot_bytes_bound [OF assms, of "ring_slot m i"] and s = ring_slot_bounds [OF assms, of i]
    and d = ring_okD [OF assms]
  show "in_int32 (buffer_idx m + ring_slot m i * size_max m)"
    unfolding in_int32_def using b s d by linarith
qed

lemma ring_slot_0: "ring_ok m \<Longrightarrow> ring_slot m 0 = c_rem (int32 (history_slot m + history_size m)) (history_size m)"
proof -
  assume r: "ring_ok m"
  note d = ring_okD [OF r]
  have "int32 (history_slot m + history_size m) = history_slot m + history_size m"
    using d by (intro int32_id) (simp add: in_int32_def)
  with d show ?thesis by (simp add: ring_slot_def)
qed

lemma ring_slot_Suc:
  assumes r: "ring_ok m"
  shows "c_rem (int32 (int32 (ring_slot m i + - 1) + history_size m)) (history_size m) = ring_slot m (Suc i)"
proof -
  note d = ring_okD [OF r] and b = ring_slot_bounds [OF r, of i]
  have 1: "int32 (ring_slot m i + - 1) = ring_slot m i - 1"
    using d b by (subst int32_id) (auto simp: in_int32_def)
  have 2: "int32 (ring_slot m i - 1 + history_size m) = ring_slot m i - 1 + history_size m"
    using d b by (intro int32_id) (simp add: in_int32_def)
  have "(ring_slot m i - 1 + history_size m) mod history_size m = (ring_slot m i - 1) mod history_size m"
    by simp
  also have "\<dots> = (history_slot m - int i - 1) mod history_size m"
    by (simp add: ring_slot_def mod_diff_left_eq)
  also have "\<dots> = ring_slot m (Suc i)" by (simp add: ring_slot_def algebra_simps)
  finally show ?thesis using 1 2 d b by simp
qed

lemma ring_slot_wrap:
  assumes r: "ring_ok m" and h: "0 \<le> history_slot m" and i: "int i < history_size m"
  shows "ring_slot m i = history_slot m \<longleftrightarrow> i = 0"
proof -
  note d = ring_okD [OF r]
  show ?thesis
  proof (cases "int i \<le> history_slot m")
    case True with d show ?thesis by (simp add: ring_slot_def)
  next
    case False
    then have "ring_slot m i = history_slot m - int i + history_size m"
      using d h i unfolding ring_slot_def
      by (smt (verit) mod_add_self2 mod_pos_pos_trivial)
    with False d h i show ?thesis by auto
  qed
qed

lemma ring_slot_period: "ring_ok m \<Longrightarrow> ring_slot m (nat (history_size m)) = ring_slot m 0"
  by (simp add: ring_slot_def ring_ok_def)

lemma ring_slot_inj:
  assumes r: "ring_ok m" and "int i < history_size m" "int j < history_size m" "ring_slot m i = ring_slot m j"
  shows "i = j"
proof -
  have "(history_slot m - int i) mod history_size m = (history_slot m - int j) mod history_size m"
    using assms(4) by (simp add: ring_slot_def)
  then have "history_size m dvd (history_slot m - int i) - (history_slot m - int j)"
    by (simp add: mod_eq_dvd_iff)
  then have "history_size m dvd int j - int i" by simp
  moreover have "\<bar>int j - int i\<bar> < history_size m" using assms(2,3) by linarith
  ultimately show "i = j" using zdvd_not_zless [of "\<bar>int j - int i\<bar>" "history_size m"] by auto
qed

section \<open>Valid entries\<close>

text \<open>A block counts as filled when the upper half of its commit time is not zero.\<close>

definition valid :: "mem \<Rightarrow> int \<Rightarrow> bool" where
  "valid hp p \<longleftrightarrow> \<not> CMP_INT64_HIGH (m_committed_ts hp p) invalid_ts"

lemma valid_ts_ge: "2 ^ 32 \<le> t \<Longrightarrow> t < 2 ^ 63 \<Longrightarrow> \<not> CMP_INT64_HIGH t invalid_ts"
proof -
  assume t: "2 ^ 32 \<le> t" "t < 2 ^ 63"
  have "1 \<le> t div 2 ^ 32" using t(1) by (simp add: zdiv_mono1 [of "2 ^ 32" t "2 ^ 32", simplified])
  moreover have "t div 2 ^ 32 < 2 ^ 32"
    using t(2) by (simp add: div_less_iff_less_mult)
  ultimately have "uint32 (t div 2 ^ 32) = t div 2 ^ 32" by (intro uint32_id) auto
  with \<open>1 \<le> t div 2 ^ 32\<close> show ?thesis
    by (simp add: CMP_INT64_HIGH_def invalid_ts_def uint32_def)
qed

definition hist_addrs :: "mem \<Rightarrow> obj_info \<Rightarrow> int list" where
  "hist_addrs hp m = takeWhile (valid hp) (map (ring_addr m) [0..<nat (history_size m)])"

lemma hist_addrs_nth:
  assumes "i < length (hist_addrs hp m)"
  shows "hist_addrs hp m ! i = ring_addr m i" "valid hp (ring_addr m i)" "int i < history_size m"
proof -
  have l: "i < nat (history_size m)"
    using assms length_takeWhile_le [of "valid hp" "map (ring_addr m) [0..<nat (history_size m)]"]
    by (simp add: hist_addrs_def)
  show "hist_addrs hp m ! i = ring_addr m i"
    using assms l by (simp add: hist_addrs_def takeWhile_nth)
  then show "valid hp (ring_addr m i)"
    using assms set_takeWhileD nth_mem unfolding hist_addrs_def by metis
  show "int i < history_size m" using l by linarith
qed

lemma hist_addrs_next:
  assumes "i = 0 \<or> i - 1 < length (hist_addrs hp m)" "int i < history_size m" "valid hp (ring_addr m i)"
  shows "i < length (hist_addrs hp m)"
proof (rule ccontr)
  let ?xs = "map (ring_addr m) [0..<nat (history_size m)]"
  assume "\<not> ?thesis"
  with assms(1) have e: "length (hist_addrs hp m) = i"
    by (cases i) auto
  have "i < length ?xs" using assms(2) by simp
  with e have "\<not> valid hp (?xs ! i)"
    using nth_length_takeWhile [of "valid hp" ?xs] by (simp add: hist_addrs_def)
  with assms(2,3) show False by simp
qed

section \<open>The scan walks the list\<close>

lemma histscan_0:
  assumes "ring_ok m"
  shows "kogmo_rtdb_obj_histscan hp 0 m (Some a) (Some b) =
    (if hist_addrs hp m = [] then None else Some (hd (hist_addrs hp m)), Some (ring_slot m 0),
     Some (history_slot m))"
proof -
  have "history_size m \<noteq> 0" using ring_okD [OF assms] by simp
  moreover have "hist_addrs hp m = [] \<longleftrightarrow> \<not> valid hp (ring_addr m 0)"
    using hist_addrs_next [of 0 hp m] hist_addrs_nth [of 0 hp m] ring_okD(2) [OF assms] by auto
  moreover have "hist_addrs hp m \<noteq> [] \<Longrightarrow> hd (hist_addrs hp m) = ring_addr m 0"
    using hist_addrs_nth(1) [of 0 hp m] by (simp add: hd_conv_nth)
  ultimately show ?thesis
    using slot_addr_ring [OF assms, of 0]
    by (simp add: kogmo_rtdb_obj_histscan_def Let_def ring_slot_0 [OF assms, symmetric] valid_def)
qed

lemma histscan_0_NULL:
  assumes "ring_ok m"
  shows "fst (kogmo_rtdb_obj_histscan hp 0 m None None) =
    (if hist_addrs hp m = [] then None else Some (hd (hist_addrs hp m)))"
proof -
  have "fst (kogmo_rtdb_obj_histscan hp 0 m None None) = fst (kogmo_rtdb_obj_histscan hp 0 m (Some 0) (Some 0))"
    by (simp add: kogmo_rtdb_obj_histscan_def Let_def)
  then show ?thesis by (simp add: histscan_0 [OF assms])
qed

lemma histscan_back:
  assumes r: "ring_ok m" and h: "0 \<le> history_slot m" and i: "i < length (hist_addrs hp m)"
  shows "kogmo_rtdb_obj_histscan hp (- 1) m (Some (ring_slot m i)) (Some (history_slot m)) =
    (if Suc i < length (hist_addrs hp m) then Some (hist_addrs hp m ! Suc i) else None,
     Some (ring_slot m (Suc i)), Some (history_slot m))"
proof -
  have hs: "history_size m \<noteq> 0" using ring_okD [OF r] by simp
  have ii: "int i < history_size m" using hist_addrs_nth(3) [OF i] .
  note st = ring_slot_Suc [OF r, of i]
  show ?thesis
  proof (cases "int (Suc i) < history_size m")
    case False
    then have e: "Suc i = nat (history_size m)" using ii by linarith
    have "ring_slot m (Suc i) = history_slot m"
      unfolding e ring_slot_period [OF r] using r h by (simp add: ring_slot_def ring_ok_def)
    moreover have "\<not> Suc i < length (hist_addrs hp m)"
      using hist_addrs_nth(3) [of "Suc i" hp m] False by auto
    ultimately show ?thesis using hs st by (simp add: kogmo_rtdb_obj_histscan_def Let_def)
  next
    case True
    have nw: "ring_slot m (Suc i) \<noteq> history_slot m" using ring_slot_wrap [OF r h True] by simp
    have v: "Suc i < length (hist_addrs hp m) \<longleftrightarrow> valid hp (ring_addr m (Suc i))"
      using hist_addrs_next [of "Suc i" hp m] hist_addrs_nth(2) [of "Suc i" hp m] i True by auto
    show ?thesis
      using hs st nw v slot_addr_ring [OF r, of "Suc i"] hist_addrs_nth(1) [of "Suc i" hp m]
      by (auto simp: kogmo_rtdb_obj_histscan_def Let_def valid_def)
  qed
qed

lemma drop_find:
  "i < length xs \<Longrightarrow> find P (drop i xs) = (if P (xs ! i) then Some (xs ! i) else find P (drop (Suc i) xs))"
  by (simp add: Cons_nth_drop_Suc [symmetric])

lemma scan_back_find:
  assumes r: "ring_ok m" and h: "0 \<le> history_slot m"
  shows "i < length (hist_addrs hp m) \<Longrightarrow> length (hist_addrs hp m) - i \<le> fuel \<Longrightarrow>
    scan_back fuel hp m stop (hist_addrs hp m ! i) (ring_slot m i) (history_slot m)
      = Some (find stop (drop i (hist_addrs hp m)))"
proof (induction fuel arbitrary: i)
  case 0 then show ?case by simp
next
  case (Suc fuel)
  show ?case
  proof (cases "Suc i < length (hist_addrs hp m)")
    case True
    from Suc.IH [OF True] Suc.prems show ?thesis
      using True by (simp add: histscan_back [OF r h Suc.prems(1)] drop_find)
  next
    case False
    then have "drop (Suc i) (hist_addrs hp m) = []" by simp
    with False Suc.prems show ?thesis
      by (simp add: histscan_back [OF r h Suc.prems(1)] drop_find)
  qed
qed

lemma drop_takeWhile:
  "i < length xs \<Longrightarrow> takeWhile P (drop i xs) =
    (if P (xs ! i) then xs ! i # takeWhile P (drop (Suc i) xs) else [])"
  by (simp add: Cons_nth_drop_Suc [symmetric])

lemma scan_young_last:
  assumes r: "ring_ok m" and h: "0 \<le> history_slot m"
  shows "i < length (hist_addrs hp m) \<Longrightarrow> length (hist_addrs hp m) - i \<le> fuel \<Longrightarrow>
    scan_young fuel hp m stop p (hist_addrs hp m ! i) (ring_slot m i) (history_slot m)
      = Some (last (p # takeWhile (\<lambda>a. \<not> stop a) (drop i (hist_addrs hp m))))"
proof (induction fuel arbitrary: i p)
  case 0 then show ?case by simp
next
  case (Suc fuel)
  show ?case
  proof (cases "Suc i < length (hist_addrs hp m)")
    case True
    from Suc.IH [OF True, of "hist_addrs hp m ! i"] Suc.prems show ?thesis
      using True by (simp add: histscan_back [OF r h Suc.prems(1)] drop_takeWhile)
  next
    case False
    then have "drop (Suc i) (hist_addrs hp m) = []" by simp
    with False Suc.prems show ?thesis
      by (simp add: histscan_back [OF r h Suc.prems(1)] drop_takeWhile)
  qed
qed

section \<open>The abstract history\<close>

text \<open>A committed entry: header and data, as many bytes as its header says.\<close>

definition entry :: "mem \<Rightarrow> int \<Rightarrow> byte list" where
  "entry hp p = ldb hp p (nat (m_size hp p))"

definition history :: "mem \<Rightarrow> obj_info \<Rightarrow> byte list list" where
  "history hp m = map (entry hp) (hist_addrs hp m)"

definition sizes_ok :: "mem \<Rightarrow> obj_info \<Rightarrow> bool" where
  "sizes_ok hp m \<longleftrightarrow> (\<forall>p \<in> set (hist_addrs hp m). int base_size \<le> m_size hp p \<and> m_size hp p \<le> size_max m)"

lemma length_history: "length (history hp m) = length (hist_addrs hp m)"
  by (simp add: history_def)

text \<open>
  What the six modes select from a list, newest first: \<open>stop\<close> is the condition on the
  time stamp, \<open>z\<close> says that no time was given, \<open>d\<close> that the object is deleted.
\<close>

definition pick :: "read_mode \<Rightarrow> bool \<Rightarrow> bool \<Rightarrow> ('a \<Rightarrow> bool) \<Rightarrow> 'a list \<Rightarrow> 'a option" where
  "pick mode z d stop xs = (if xs = [] then None else case mode of
     RTDBSEL_LAST \<Rightarrow> if z then (if d then None else Some (hd xs)) else find stop xs
   | RTDBSEL_OLDER \<Rightarrow> find stop xs
   | RTDBSEL_YOUNGER \<Rightarrow> if stop (hd xs) then None else Some (last (takeWhile (\<lambda>x. \<not> stop x) xs))
   | RTDBSEL_DATATIME \<Rightarrow> find stop xs
   | RTDBSEL_DATAOLDER \<Rightarrow> find stop xs
   | RTDBSEL_DATAYOUNGER \<Rightarrow> if stop (hd xs) then None else Some (last (takeWhile (\<lambda>x. \<not> stop x) xs)))"

lemma find_map: "find P (map f xs) = map_option f (find (\<lambda>x. P (f x)) xs)"
  by (induction xs) auto

lemma pick_map: "pick mode z d stop (map f xs) = map_option f (pick mode z d (\<lambda>x. stop (f x)) xs)"
proof (cases xs)
  case Nil then show ?thesis by (simp add: pick_def)
next
  case (Cons x ys)
  have t: "takeWhile (\<lambda>x. \<not> stop x) (map f ys) = map f (takeWhile (\<lambda>x. \<not> stop (f x)) ys)"
    by (simp add: takeWhile_map comp_def)
  show ?thesis using Cons
    by (auto simp: pick_def t find_map last_map split: read_mode.split)
qed

lemma find_cong_set: "(\<And>x. x \<in> set xs \<Longrightarrow> P x = Q x) \<Longrightarrow> find P xs = find Q xs"
  by (induction xs) auto

lemma pick_cong:
  assumes "\<And>x. x \<in> set xs \<Longrightarrow> P x = Q x" shows "pick mode z d P xs = pick mode z d Q xs"
proof -
  have "takeWhile (\<lambda>x. \<not> P x) xs = takeWhile (\<lambda>x. \<not> Q x) xs"
    using assms by (intro takeWhile_cong) auto
  moreover have "find P xs = find Q xs" by (rule find_cong_set) (rule assms)
  moreover have "xs \<noteq> [] \<Longrightarrow> P (hd xs) = Q (hd xs)" using assms by simp
  ultimately show ?thesis by (auto simp: pick_def split: read_mode.split)
qed

lemma pick_in: "pick mode z d stop xs = Some x \<Longrightarrow> x \<in> set xs"
proof -
  assume a: "pick mode z d stop xs = Some x"
  have f: "find stop xs = Some x \<Longrightarrow> x \<in> set xs" by (auto simp: find_Some_iff)
  have t: "last (takeWhile (\<lambda>x. \<not> stop x) xs) \<in> set xs" if "\<not> stop (hd xs)" "xs \<noteq> []"
  proof -
    have "takeWhile (\<lambda>x. \<not> stop x) xs \<noteq> []" using that by (cases xs) simp_all
    from last_in_set [OF this] show ?thesis by (rule set_takeWhileD [THEN conjunct1])
  qed
  show ?thesis
    using a f t by (auto simp: pick_def split: if_splits read_mode.splits)
qed

text \<open>The condition in terms of an entry.\<close>

definition entry_stop :: "read_mode \<Rightarrow> timestamp \<Rightarrow> byte list \<Rightarrow> bool" where
  "entry_stop mode ts e = (case mode of
     RTDBSEL_LAST \<Rightarrow> b_committed_ts e \<le> ts
   | RTDBSEL_OLDER \<Rightarrow> b_committed_ts e < ts
   | RTDBSEL_YOUNGER \<Rightarrow> b_committed_ts e \<le> ts
   | RTDBSEL_DATATIME \<Rightarrow> b_data_ts e \<le> ts
   | RTDBSEL_DATAOLDER \<Rightarrow> b_data_ts e < ts
   | RTDBSEL_DATAYOUNGER \<Rightarrow> b_data_ts e \<le> ts)"

lemma entry_fields:
  assumes "int base_size \<le> m_size hp p"
  shows "b_committed_ts (entry hp p) = m_committed_ts hp p" "b_data_ts (entry hp p) = m_data_ts hp p"
    "b_size (entry hp p) = m_size hp p" "length (entry hp p) = nat (m_size hp p)"
proof -
  have "base_size \<le> nat (m_size hp p)" using assms by simp
  from m_fields [OF this, of hp p] show "b_committed_ts (entry hp p) = m_committed_ts hp p"
    "b_data_ts (entry hp p) = m_data_ts hp p" "b_size (entry hp p) = m_size hp p"
    by (simp_all add: entry_def)
qed (simp add: entry_def)

lemma entry_stop_at: "int base_size \<le> m_size hp p \<Longrightarrow> entry_stop mode ts (entry hp p) = stop_at mode hp ts p"
  by (simp add: entry_stop_def stop_at_def entry_fields split: read_mode.split)

section \<open>Reads select from the history\<close>

definition may_read :: "handle \<Rightarrow> obj_info \<Rightarrow> bool" where
  "may_read h m \<longleftrightarrow> \<not> read_deny (flags m) \<or> created_proc m = h_proc_oid h \<or> this_process_is_admin h"

lemma last_Cons_takeWhile: "\<not> P x \<Longrightarrow> last (y # takeWhile (\<lambda>a. \<not> P a) (x # xs)) = last (takeWhile (\<lambda>a. \<not> P a) (x # xs))"
  by simp

lemma readdata_select_pick:
  assumes k: "kogmo_rtdb_obj_findmeta_byid i db = Some k" "buffer_idx (objmeta db ! k) \<noteq> 0"
    and p: "may_read h (objmeta db ! k)" and r: "ring_ok (objmeta db ! k)"
    and h: "0 \<le> history_slot (objmeta db ! k)" and f: "nat (history_size (objmeta db ! k)) \<le> fuel"
  shows "readdata_select fuel h mode i ts db = Some
    (case pick mode (ts = invalid_ts) (deleted_ts (objmeta db ! k) \<noteq> invalid_ts) (stop_at mode (heap db) ts)
            (hist_addrs (heap db) (objmeta db ! k)) of
       None \<Rightarrow> Inl ERR_NOTFOUND | Some p \<Rightarrow> Inr (k, p))"
proof -
  let ?m = "objmeta db ! k"
  let ?H = "hist_addrs (heap db) ?m"
  have len: "length ?H \<le> fuel"
    using f length_takeWhile_le [of "valid (heap db)" "map (ring_addr ?m) [0..<nat (history_size ?m)]"]
    by (simp add: hist_addrs_def)
  have np: "\<not> (read_deny (flags ?m) \<and> created_proc ?m \<noteq> h_proc_oid h \<and> \<not> this_process_is_admin h)"
    using p by (auto simp: may_read_def)
  show ?thesis
  proof (cases "?H = []")
    case True
    with k np show ?thesis
      by (simp add: readdata_select_def Let_def histscan_0 [OF r] pick_def)
  next
    case False
    then have i0: "0 < length ?H" by simp
    have h0: "hd ?H = ?H ! 0" using False by (simp add: hd_conv_nth)
    have b: "scan_back fuel (heap db) ?m stop (hd ?H) (ring_slot ?m 0) (history_slot ?m) = Some (find stop ?H)"
      for stop using scan_back_find [OF r h i0, of fuel stop] len by (simp add: h0)
    have y: "scan_young fuel (heap db) ?m stop (hd ?H) (hd ?H) (ring_slot ?m 0) (history_slot ?m)
        = Some (last (takeWhile (\<lambda>a. \<not> stop a) ?H))" if "\<not> stop (hd ?H)" for stop
      using scan_young_last [OF r h i0, of fuel stop "hd ?H"] len that False
      by (cases ?H) (simp_all add: h0)
    show ?thesis
      using k np False b y
      by (cases mode) (auto simp: readdata_select_def Let_def histscan_0 [OF r] pick_def split: option.split)
  qed
qed

text \<open>The result of a read, in terms of the history alone.\<close>

definition picked :: "read_mode \<Rightarrow> timestamp \<Rightarrow> mem \<Rightarrow> obj_info \<Rightarrow> byte list option" where
  "picked mode ts hp m =
     pick mode (ts = invalid_ts) (deleted_ts m \<noteq> invalid_ts) (entry_stop mode ts) (history hp m)"

lemma picked_addr:
  assumes "sizes_ok hp m"
  shows "picked mode ts hp m = map_option (entry hp)
    (pick mode (ts = invalid_ts) (deleted_ts m \<noteq> invalid_ts) (stop_at mode hp ts) (hist_addrs hp m))"
  unfolding picked_def history_def pick_map
  by (rule arg_cong [of _ _ "map_option (entry hp)"], rule pick_cong)
    (use assms in \<open>auto simp: sizes_ok_def entry_stop_at\<close>)

lemma readdata_picked:
  assumes k: "kogmo_rtdb_obj_findmeta_byid i db = Some k" "buffer_idx (objmeta db ! k) \<noteq> 0"
    and p: "may_read h (objmeta db ! k)" and r: "ring_ok (objmeta db ! k)"
    and h: "0 \<le> history_slot (objmeta db ! k)" and f: "nat (history_size (objmeta db ! k)) \<le> fuel"
    and s: "sizes_ok (heap db) (objmeta db ! k)" and sz: "size_max (objmeta db ! k) \<le> sz"
    and w: "\<not> withhold_stale (flags (objmeta db ! k))"
  shows "kogmo_rtdb_obj_readdata_mode fuel h mode i ts buf sz db = Some
    (case picked mode ts (heap db) (objmeta db ! k) of
       None \<Rightarrow> (Inl ERR_NOTFOUND, buf, db)
     | Some e \<Rightarrow> (Inr (int (length e)), e @ drop (length e) buf, db))"
proof (cases "pick mode (ts = invalid_ts) (deleted_ts (objmeta db ! k) \<noteq> invalid_ts)
    (stop_at mode (heap db) ts) (hist_addrs (heap db) (objmeta db ! k))")
  case None
  then show ?thesis
    by (simp add: kogmo_rtdb_obj_readdata_mode_def readdata_select_pick [OF k p r h f] picked_addr [OF s])
next
  case (Some a)
  let ?m = "objmeta db ! k" and ?hp = "heap db"
  have b: "int base_size \<le> m_size ?hp a" "m_size ?hp a \<le> size_max ?m"
    using s pick_in [OF Some] by (auto simp: sizes_ok_def)
  let ?e = "entry ?hp a"
  have le: "base_size \<le> length ?e" "length ?e = nat (m_size ?hp a)" using b by (simp_all add: entry_fields)
  let ?buf = "?e @ drop (length ?e) buf"
  have hd: "b_committed_ts ?buf = m_committed_ts ?hp a" "b_size ?buf = m_size ?hp a"
  proof -
    have "b_committed_ts ?buf = b_committed_ts (take (length ?e) ?buf)" "b_size ?buf = b_size (take (length ?e) ?buf)"
      using header_take [OF le(1)] by metis+
    then show "b_committed_ts ?buf = m_committed_ts ?hp a" "b_size ?buf = m_size ?hp a"
      using b by (simp_all add: entry_fields)
  qed
  have lb: "base_size \<le> length ?buf" using le(1) by simp
  have av: "(if m_size ?hp a \<le> sz then m_size ?hp a else sz) = m_size ?hp a" using b sz by simp
  have "set_size (m_size ?hp a) ?buf = ?buf" using set_header_same(2) [OF lb] hd by simp
  moreover have "set_committed_ts (m_committed_ts ?hp a) ?buf = ?buf"
    using set_header_same(1) [OF lb] hd by simp
  ultimately show ?thesis
    using Some w b le
    by (simp add: kogmo_rtdb_obj_readdata_mode_def readdata_select_pick [OF k p r h f] picked_addr [OF s]
        Let_def av entry_def [symmetric])
qed

end
