(* ===== verification/Bounded_History.thy ===== *)
theory Bounded_History
  imports Rtdb_Prelude
begin

text \<open>
  The contract of an object's history: a bounded list of entries, newest first, to which
  entries are pushed. Readers and players rely on it; the ring buffer in the heap provides it.
\<close>

locale bounded_history =
  fixes inv :: "'s \<Rightarrow> bool"
    and fits :: "'w \<Rightarrow> 's \<Rightarrow> bool"
    and capacity :: "'s \<Rightarrow> nat"
    and entries :: "'s \<Rightarrow> 'e list"
    and push :: "'w \<Rightarrow> 's \<Rightarrow> 's"
    and stored :: "'w \<Rightarrow> 'e"
  assumes inv_push: "inv s \<Longrightarrow> fits w s \<Longrightarrow> inv (push w s)"
    and fits_push: "inv s \<Longrightarrow> fits w s \<Longrightarrow> fits v s \<Longrightarrow> fits v (push w s)"
    and capacity_push: "inv s \<Longrightarrow> fits w s \<Longrightarrow> capacity (push w s) = capacity s"
    and entries_push: "inv s \<Longrightarrow> fits w s \<Longrightarrow> entries (push w s) = take (capacity s) (stored w # entries s)"
    and entries_le: "inv s \<Longrightarrow> length (entries s) \<le> capacity s"
    and capacity_pos: "inv s \<Longrightarrow> 0 < capacity s"
begin

text \<open>After a sequence of pushes (oldest first) the newest ones that fit are there, in order.\<close>

lemma entries_pushes:
  assumes "inv s" "\<And>w. w \<in> set ws \<Longrightarrow> fits w s"
  shows "entries (fold push ws s) = take (capacity s) (map stored (rev ws) @ entries s)
    \<and> inv (fold push ws s) \<and> capacity (fold push ws s) = capacity s"
  using assms
proof (induction ws arbitrary: s)
  case Nil then show ?case using entries_le by simp
next
  case (Cons w ws)
  have w: "fits w s" using Cons.prems by simp
  have IH: "entries (fold push ws (push w s)) = take (capacity (push w s)) (map stored (rev ws) @ entries (push w s))
    \<and> inv (fold push ws (push w s)) \<and> capacity (fold push ws (push w s)) = capacity (push w s)"
    by (rule Cons.IH) (use Cons.prems inv_push fits_push in auto)
  have "take c (xs @ take c (y # ys)) = take c (xs @ y # ys)" for c :: nat and xs ys :: "'e list" and y
    by (simp add: min_absorb2)
  with IH show ?case
    using capacity_push [OF Cons.prems(1) w] entries_push [OF Cons.prems(1) w] by simp
qed

text \<open>The entry pushed last is the newest.\<close>

lemma hd_push: "inv s \<Longrightarrow> fits w s \<Longrightarrow> hd (entries (push w s)) = stored w \<and> entries (push w s) \<noteq> []"
  using entries_push [of s w] capacity_pos [of s] by (cases "capacity s") auto

text \<open>An entry survives as long as fewer than \<open>capacity\<close> entries were pushed after it.\<close>

lemma pushed_stays:
  assumes s: "inv s" "\<And>v. v \<in> set (w # ws) \<Longrightarrow> fits v s" and l: "length ws < capacity s"
  shows "length ws < length (entries (fold push (w # ws) s))"
    "entries (fold push (w # ws) s) ! length ws = stored w"
proof -
  have "entries (fold push (w # ws) s) = take (capacity s) (map stored (rev (w # ws)) @ entries s)"
    using entries_pushes [OF s] by blast
  then have e: "entries (fold push (w # ws) s) =
      take (capacity s) (map stored (rev ws) @ stored w # entries s)" by simp
  show "length ws < length (entries (fold push (w # ws) s))" unfolding e using l by simp
  show "entries (fold push (w # ws) s) ! length ws = stored w"
    unfolding e using l by (simp add: nth_append)
qed

text \<open>Pushing in the order of a key keeps the entries sorted by it, newest first.\<close>

lemma sorted_push:
  assumes "inv s" "fits w s" "sorted_wrt (\<lambda>a b. (key :: 'e \<Rightarrow> int) b \<le> key a) (entries s)"
    "entries s \<noteq> [] \<Longrightarrow> key (hd (entries s)) \<le> key (stored w)"
  shows "sorted_wrt (\<lambda>a b. key b \<le> key a) (entries (push w s))"
proof -
  have "key e \<le> key (stored w)" if "e \<in> set (entries s)" for e
    using assms(3,4) that by (cases "entries s") auto
  then have "sorted_wrt (\<lambda>a b. key b \<le> key a) (stored w # entries s)" using assms(3) by simp
  then show ?thesis unfolding entries_push [OF assms(1,2)] by (rule sorted_wrt_take)
qed

end

end
