(* ===== verification/Objdata_Write.thy ===== *)
theory Objdata_Write
  imports Objdata_Ring Bounded_History
begin

text \<open>
  A commit pushes an entry to the object's history and touches nothing outside the object's
  block.
\<close>

section \<open>Filling a block\<close>

text \<open>What is stored for the bytes \<open>bs\<close> committed at \<open>ts\<close>.\<close>

definition committed :: "timestamp \<Rightarrow> byte list \<Rightarrow> byte list" where
  "committed ts bs = set_committed_ts ts
     (if b_data_ts bs = invalid_ts then set_data_ts ts bs else bs)"

lemma length_committed [simp]: "base_size \<le> length bs \<Longrightarrow> length (committed ts bs) = length bs"
  by (simp add: committed_def)

lemma committed_fields:
  assumes "base_size \<le> length bs" "in_int64 ts"
  shows "b_committed_ts (committed ts bs) = ts" "b_size (committed ts bs) = b_size bs"
    "b_committed_proc (committed ts bs) = b_committed_proc bs" "b_payload (committed ts bs) = b_payload bs"
    "b_data_ts (committed ts bs) = (if b_data_ts bs = invalid_ts then ts else b_data_ts bs)"
  using assms by (simp_all add: committed_def)

lemma stb_absorb:
  assumes "length xs \<le> length bs" shows "stb (stb m p xs) p bs = stb m p bs"
  by (rule ext) (use assms in \<open>auto simp: stb_def\<close>)

lemma write_block_ldb:
  assumes "base_size \<le> length bs"
  shows "ldb (write_block p bs ts hp) p (length bs) = committed ts bs"
proof -
  have l: "24 \<le> length bs" using assms by (simp add: base_size_def)
  let ?h = "stb hp p bs"
  have h: "stb (stb hp p (enc 8 invalid_ts)) p bs = ?h" using l by (intro stb_absorb) simp
  have d: "m_data_ts ?h p = b_data_ts bs"
    using m_fields(2) [OF assms, of ?h p] by simp
  have 1: "ldb (stb ?h (p + 12) (enc 8 ts)) p (length bs) = set_data_ts ts bs"
    using ldb_stb_put [of 12 "enc 8 ts" "length bs" ?h p] l by (simp add: set_data_ts_def)
  have 2: "ldb (stb g p (enc 8 ts)) p (length bs) = set_committed_ts ts (ldb g p (length bs))" for g
    using ldb_stb_put [of 0 "enc 8 ts" "length bs" g p] l by (simp add: set_committed_ts_def)
  show ?thesis
    by (simp add: write_block_def Let_def h d 1 2 committed_def)
qed

lemma write_block_outside:
  assumes "base_size \<le> length bs" "x < p \<or> p + int (length bs) \<le> x"
  shows "write_block p bs ts hp x = hp x"
  using assms by (auto simp: write_block_def Let_def stb_def base_size_def)

lemma write_block_outside_ldb:
  assumes "base_size \<le> length bs" "a + int n \<le> p \<or> p + int (length bs) \<le> a"
  shows "ldb (write_block p bs ts hp) a n = ldb hp a n"
  by (rule ldb_cong) (use assms write_block_outside in auto)

lemma write_block_m:
  assumes "base_size \<le> length bs" "in_int64 ts"
  shows "m_committed_ts (write_block p bs ts hp) p = ts" "m_size (write_block p bs ts hp) p = b_size bs"
  using m_fields(1,3) [OF assms(1), of "write_block p bs ts hp" p] committed_fields [OF assms]
  by (simp_all add: write_block_ldb [OF assms(1)])

section \<open>The ring after a commit\<close>

definition advanced :: "obj_info \<Rightarrow> obj_info" where
  "advanced m = m\<lparr>history_slot := next_slot m\<rparr>"

lemma next_slot_mod:
  assumes "ring_ok m"
  shows "next_slot m = (history_slot m + 1) mod history_size m"
proof (cases "history_slot m < 0")
  case True
  then have "history_slot m = - 1" using ring_okD [OF assms] by simp
  then show ?thesis by (simp add: next_slot_def)
next
  case False
  note d = ring_okD [OF assms]
  have "int32 (history_slot m + 1) = history_slot m + 1"
    using d False by (intro int32_id) (simp add: in_int32_def)
  with False d show ?thesis by (simp add: next_slot_def)
qed

lemma advanced_fields [simp]:
  "history_slot (advanced m) = next_slot m" "history_size (advanced m) = history_size m"
  "size_max (advanced m) = size_max m" "buffer_idx (advanced m) = buffer_idx m"
  "flags (advanced m) = flags m" "oid (advanced m) = oid m" "deleted_ts (advanced m) = deleted_ts m"
  by (simp_all add: advanced_def)

lemma advanced_ok:
  assumes "ring_ok m" shows "ring_ok (advanced m)" "0 \<le> next_slot m" "next_slot m < history_size m"
proof -
  note d = ring_okD [OF assms]
  show 1: "0 \<le> next_slot m" "next_slot m < history_size m" using d by (simp_all add: next_slot_mod [OF assms])
  show "ring_ok (advanced m)" using assms 1 by (simp add: ring_ok_def)
qed

lemma ring_slot_advanced_0: "ring_ok m \<Longrightarrow> ring_slot (advanced m) 0 = next_slot m"
  using advanced_ok [of m] by (simp add: ring_slot_def)

lemma ring_slot_advanced_Suc:
  assumes "ring_ok m" shows "ring_slot (advanced m) (Suc i) = ring_slot m i"
proof -
  have "(next_slot m - int (Suc i)) mod history_size m
      = ((history_slot m + 1) mod history_size m - int (Suc i)) mod history_size m"
    by (simp add: next_slot_mod [OF assms])
  also have "\<dots> = (history_slot m + 1 - int (Suc i)) mod history_size m" by (simp only: mod_diff_left_eq)
  finally show ?thesis by (simp add: ring_slot_def algebra_simps)
qed

lemma ring_addr_advanced:
  assumes "ring_ok m"
  shows "ring_addr (advanced m) 0 = slot_addr m (next_slot m)" "ring_addr (advanced m) (Suc i) = ring_addr m i"
proof -
  have "slot_addr (advanced m) (ring_slot (advanced m) 0) = slot_addr m (next_slot m)"
    by (simp add: slot_addr_def ring_slot_advanced_0 [OF assms])
  then show "ring_addr (advanced m) 0 = slot_addr m (next_slot m)"
    using slot_addr_ring [OF advanced_ok(1) [OF assms], of 0] by simp
qed (simp add: ring_addr_def ring_slot_advanced_Suc [OF assms])

lemma ring_addrs_disjoint:
  assumes r: "ring_ok m" and "int i < history_size m" "int j < history_size m" "i \<noteq> j"
  shows "ring_addr m i + size_max m \<le> ring_addr m j \<or> ring_addr m j + size_max m \<le> ring_addr m i"
proof -
  have z: "0 \<le> size_max m" using ring_okD [OF r] by simp
  have "ring_slot m i \<noteq> ring_slot m j" using ring_slot_inj [OF assms(1-3)] assms(4) by blast
  then consider "ring_slot m i + 1 \<le> ring_slot m j" | "ring_slot m j + 1 \<le> ring_slot m i" by linarith
  then show ?thesis
  proof cases
    case 1
    from mult_right_mono [OF this z] show ?thesis by (simp add: ring_addr_def algebra_simps)
  next
    case 2
    from mult_right_mono [OF this z] show ?thesis by (simp add: ring_addr_def algebra_simps)
  qed
qed

lemma ring_addr_bounds:
  assumes "ring_ok m"
  shows "buffer_idx m \<le> ring_addr m i" "ring_addr m i + size_max m \<le> buffer_idx m + size_max m * history_size m"
  using slot_bytes_bound [OF assms, of "ring_slot m i"] ring_slot_bounds [OF assms, of i]
  by (simp_all add: ring_addr_def)

lemma takeWhile_take: "takeWhile P (take n xs) = take n (takeWhile P xs)"
  by (induction xs arbitrary: n) (auto simp: take_Cons split: nat.splits)

lemma write_history:
  assumes r: "ring_ok m" and s: "sizes_ok hp m"
    and bs: "base_size \<le> length bs" "int (length bs) \<le> size_max m" "b_size bs = int (length bs)"
    and ts: "2 ^ 32 \<le> ts" "ts < 2 ^ 63"
    and hp': "hp' = write_block (slot_addr m (next_slot m)) bs ts hp"
  shows "history hp' (advanced m) = take (nat (history_size m)) (committed ts bs # history hp m)"
    "sizes_ok hp' (advanced m)"
    "x < buffer_idx m \<or> buffer_idx m + size_max m * history_size m \<le> x \<Longrightarrow> hp' x = hp x"
proof -
  let ?m = "advanced m" and ?p = "slot_addr m (next_slot m)" and ?n = "nat (history_size m)"
  note r' = advanced_ok(1) [OF r]
  have p: "?p = ring_addr ?m 0" by (simp add: ring_addr_advanced [OF r])
  have ts64: "in_int64 ts" using ts by (simp add: in_int64_def)
  obtain n where n: "?n = Suc n" using ring_okD(2) [OF r] by (cases ?n) auto
  let ?xs = "map (ring_addr m) [0..<?n]"
  have xs': "map (ring_addr ?m) [0..<?n] = ?p # take n ?xs"
  proof -
    have "map (ring_addr ?m) [0..<Suc n] = ring_addr ?m 0 # map (ring_addr m) [0..<n]"
      by (simp add: upt_conv_Cons map_Suc_upt [symmetric] ring_addr_advanced(2) [OF r] del: upt_Suc)
    then show ?thesis by (simp add: n p take_map take_upt del: upt_Suc)
  qed
  have far: "a + int k \<le> ?p \<or> ?p + int (length bs) \<le> a"
    if "a \<in> set (take n ?xs)" "int k \<le> size_max m" for a k
  proof -
    from that(1) n obtain i where i: "i < n" "a = ring_addr m i"
      by (auto simp: take_map take_upt simp del: upt_Suc)
    then have "a = ring_addr ?m (Suc i)" by (simp add: ring_addr_advanced(2) [OF r])
    moreover have "int (Suc i) < history_size m" "0 < history_size m" using i(1) n by linarith+
    ultimately show ?thesis
      using ring_addrs_disjoint [OF r', of 0 "Suc i"] bs(2) that(2) unfolding p by auto
  qed
  have vp: "valid hp' ?p"
    unfolding valid_def hp' write_block_m(1) [OF bs(1) ts64] using ts by (rule valid_ts_ge)
  have cm: "m_committed_ts hp' a = m_committed_ts hp a" "m_size hp' a = m_size hp a"
    if "a \<in> set (take n ?xs)" for a
  proof -
    have "ldb hp' a 24 = ldb hp a 24"
      unfolding hp' using far [OF that, of 24] ring_okD(1) [OF r]
      by (intro write_block_outside_ldb [OF bs(1)]) auto
    then show "m_committed_ts hp' a = m_committed_ts hp a" "m_size hp' a = m_size hp a"
      using m_fields [of 24 hp' a] m_fields [of 24 hp a] by (simp_all add: base_size_def)
  qed
  have H: "hist_addrs hp' ?m = ?p # take n (hist_addrs hp m)"
  proof -
    have "hist_addrs hp' ?m = takeWhile (valid hp') (?p # take n ?xs)"
      by (simp add: hist_addrs_def xs' del: upt_Suc)
    also have "\<dots> = ?p # takeWhile (valid hp') (take n ?xs)" using vp by simp
    also have "takeWhile (valid hp') (take n ?xs) = takeWhile (valid hp) (take n ?xs)"
      by (rule takeWhile_cong) (simp_all add: valid_def cm(1) del: upt_Suc)
    also have "\<dots> = take n (hist_addrs hp m)" by (simp only: takeWhile_take hist_addrs_def)
    finally show ?thesis .
  qed
  have sub: "set (take n (hist_addrs hp m)) \<subseteq> set (take n ?xs)"
    unfolding hist_addrs_def takeWhile_take [symmetric] by (meson set_takeWhileD subsetI)
  have sz: "int base_size \<le> m_size hp a \<and> m_size hp a \<le> size_max m"
    if "a \<in> set (take n (hist_addrs hp m))" for a
    using s in_set_takeD [OF that] by (simp add: sizes_ok_def)
  have ent: "entry hp' a = entry hp a" if "a \<in> set (take n (hist_addrs hp m))" for a
  proof -
    have a: "a \<in> set (take n ?xs)" using that sub by blast
    have "ldb hp' a (nat (m_size hp a)) = ldb hp a (nat (m_size hp a))"
      unfolding hp' using far [OF a, of "nat (m_size hp a)"] sz [OF that]
      by (intro write_block_outside_ldb [OF bs(1)]) auto
    then show ?thesis by (simp add: entry_def cm(2) [OF a])
  qed
  have e0: "entry hp' ?p = committed ts bs"
    using write_block_ldb [OF bs(1), of ?p ts hp] write_block_m(2) [OF bs(1) ts64, of ?p hp] bs(3)
    by (simp add: entry_def hp')
  show "history hp' ?m = take ?n (committed ts bs # history hp m)"
    using ent by (simp add: history_def H n e0 take_map cong: map_cong)
  show "sizes_ok hp' ?m"
    unfolding sizes_ok_def H
  proof
    fix a assume "a \<in> set (?p # take n (hist_addrs hp m))"
    then consider "a = ?p" | "a \<in> set (take n (hist_addrs hp m))" by auto
    then show "int base_size \<le> m_size hp' a \<and> m_size hp' a \<le> size_max ?m"
    proof cases
      case 1
      then show ?thesis using write_block_m(2) [OF bs(1) ts64, of ?p hp] bs by (simp add: hp')
    next
      case 2
      then show ?thesis using sz cm(2) sub by (metis advanced_fields(3) subsetD)
    qed
  qed
  show "x < buffer_idx m \<or> buffer_idx m + size_max m * history_size m \<le> x \<Longrightarrow> hp' x = hp x"
    unfolding hp' using ring_addr_bounds [OF r', of 0] bs(2)
    by (intro write_block_outside [OF bs(1)]) (auto simp: p [symmetric])
qed

section \<open>The ring buffer is a bounded history\<close>

definition ring_inv :: "mem \<times> obj_info \<Rightarrow> bool" where
  "ring_inv s \<longleftrightarrow> ring_ok (snd s) \<and> sizes_ok (fst s) (snd s)"

definition ring_fits :: "byte list \<times> timestamp \<Rightarrow> mem \<times> obj_info \<Rightarrow> bool" where
  "ring_fits w s \<longleftrightarrow> base_size \<le> length (fst w) \<and> int (length (fst w)) \<le> size_max (snd s)
     \<and> b_size (fst w) = int (length (fst w)) \<and> 2 ^ 32 \<le> snd w \<and> snd w < 2 ^ 63"

definition ring_push :: "byte list \<times> timestamp \<Rightarrow> mem \<times> obj_info \<Rightarrow> mem \<times> obj_info" where
  "ring_push w s = (write_block (slot_addr (snd s) (next_slot (snd s))) (fst w) (snd w) (fst s), advanced (snd s))"

interpretation ring: bounded_history ring_inv ring_fits "\<lambda>s. nat (history_size (snd s))"
    "\<lambda>s. history (fst s) (snd s)" ring_push "\<lambda>w. committed (snd w) (fst w)"
proof (unfold_locales, goal_cases)
  case (1 s w)
  with write_history(2) [of "snd s" "fst s" "fst w" "snd w"] advanced_ok(1) [of "snd s"] show ?case
    by (simp add: ring_inv_def ring_fits_def ring_push_def)
next
  case (4 s w)
  with write_history(1) [of "snd s" "fst s" "fst w" "snd w"] show ?case
    by (simp add: ring_inv_def ring_fits_def ring_push_def)
next
  case (5 s)
  show ?case
    using length_takeWhile_le [of "valid (fst s)" "map (ring_addr (snd s)) [0..<nat (history_size (snd s))]"]
    by (simp add: length_history hist_addrs_def)
next
  case (6 s)
  then show ?case using ring_okD(2) by (simp add: ring_inv_def ring_ok_def)
qed (simp_all add: ring_fits_def ring_push_def)

end
