(* ===== verification/Objdata_Ops.thy ===== *)
theory Objdata_Ops
  imports Objdata_Write Objmeta_Delete
begin

text \<open>
  The data operations on the shared state: what \<open>writedata\<close> and the in-place write do to the
  table and the heap, their errors and locks, and the isolation of the objects' histories.
\<close>

section \<open>Committing\<close>

definition may_write :: "handle \<Rightarrow> obj_info \<Rightarrow> bool" where
  "may_write h m \<longleftrightarrow> write_allow (flags m) \<or> created_proc m = h_proc_oid h \<or> this_process_is_admin h"

text \<open>The bytes a commit of \<open>data\<close> copies, and their time stamp.\<close>

definition commit_bytes :: "handle \<Rightarrow> byte list \<Rightarrow> byte list" where
  "commit_bytes h data = take (nat (b_size data)) (set_committed_ts invalid_ts (set_committed_proc (h_proc_oid h) data))"

definition commit_time :: "rtdb \<Rightarrow> obj_info \<Rightarrow> timestamp" where
  "commit_time db m = commit_ts (snd (kogmo_rtdb_timestamp_now db)) (slot_addr m (next_slot m))
     (fst (kogmo_rtdb_timestamp_now db))"

lemma commit_bytes_fields:
  assumes "int base_size \<le> b_size data" "b_size data \<le> int (length data)"
  shows "length (commit_bytes h data) = nat (b_size data)" "b_size (commit_bytes h data) = b_size data"
    "b_data_ts (commit_bytes h data) = b_data_ts data"
    "b_payload (commit_bytes h data) = b_payload (take (nat (b_size data)) data)"
    "in_int32 (h_proc_oid h) \<Longrightarrow> b_committed_proc (commit_bytes h data) = h_proc_oid h"
proof -
  have l: "base_size \<le> length data" "base_size \<le> nat (b_size data)" "nat (b_size data) \<le> length data"
    using assms by linarith+
  show "length (commit_bytes h data) = nat (b_size data)" using l by (simp add: commit_bytes_def)
  show "b_size (commit_bytes h data) = b_size data" "b_data_ts (commit_bytes h data) = b_data_ts data"
    "in_int32 (h_proc_oid h) \<Longrightarrow> b_committed_proc (commit_bytes h data) = h_proc_oid h"
    using l by (simp_all add: commit_bytes_def)
  have "b_payload (commit_bytes h data) = take (nat (b_size data) - base_size)
      (b_payload (set_committed_ts invalid_ts (set_committed_proc (h_proc_oid h) data)))"
    by (simp add: commit_bytes_def b_payload_def drop_take)
  also have "\<dots> = take (nat (b_size data) - base_size) (b_payload data)" using l(1) by simp
  also have "\<dots> = b_payload (take (nat (b_size data)) data)" by (simp add: b_payload_def drop_take)
  finally show "b_payload (commit_bytes h data) = b_payload (take (nat (b_size data)) data)" .
qed

text \<open>What a commit comes to, by the outcome.\<close>

lemma findmeta_now [simp]:
  "kogmo_rtdb_obj_findmeta_byid i (snd (kogmo_rtdb_timestamp_now db)) = kogmo_rtdb_obj_findmeta_byid i db"
  by (simp add: kogmo_rtdb_obj_findmeta_byid_def)

lemma writedata_check_None:
  "writedata_check h m sz = None \<longleftrightarrow>
     buffer_idx m \<noteq> 0 \<and> sz \<le> size_max m \<and> int base_size \<le> sz \<and> may_write h m"
  by (auto simp: writedata_check_def may_write_def)

lemma writedata_commit_db:
  assumes "writedata_commit h i k data ts db = (data', db')"
  shows "data' = set_committed_ts (commit_ts db (slot_addr (objmeta db ! k) (next_slot (objmeta db ! k))) ts)
      (set_committed_ts invalid_ts data)"
    "objmeta db' = (objmeta db)[k := advanced (objmeta db ! k)]"
    "heap db' = write_block (slot_addr (objmeta db ! k) (next_slot (objmeta db ! k)))
      (take (nat (b_size data)) (set_committed_ts invalid_ts data))
      (commit_ts db (slot_addr (objmeta db ! k) (next_slot (objmeta db ! k))) ts) (heap db)"
    "objmeta_free db' = objmeta_free db" "objmeta_oid_next db' = objmeta_oid_next db"
    "heap_free db' = heap_free db" "heap_used db' = heap_used db" "heap_size db' = heap_size db"
    "clock db' = clock db" "simmode db' = simmode db" "sim_ts db' = sim_ts db" "ticks db' = ticks db"
  using assms by (auto simp: writedata_commit_def Let_def ipc_defs advanced_def if_proj cong: if_cong)

text \<open>The state in which the commit starts.\<close>

definition commit_start :: "nat \<Rightarrow> rtdb \<Rightarrow> rtdb" where
  "commit_start k db = (let db = snd (kogmo_rtdb_timestamp_now db)
     in if write_allow (flags (objmeta db ! k)) then kogmo_rtdb_obj_lock k db else db)"

lemma commit_start_simps [simp]:
  "objmeta (commit_start k db) = objmeta db" "heap (commit_start k db) = heap db"
  "objmeta_free (commit_start k db) = objmeta_free db"
  "objmeta_oid_next (commit_start k db) = objmeta_oid_next db"
  "heap_free (commit_start k db) = heap_free db" "heap_used (commit_start k db) = heap_used db"
  "heap_size (commit_start k db) = heap_size db" "clock (commit_start k db) = clock db"
  "simmode (commit_start k db) = simmode db" "sim_ts (commit_start k db) = sim_ts db"
  "db_no_notifies (commit_start k db) = db_no_notifies db"
  by (simp_all add: commit_start_def Let_def ipc_defs)

lemma writedata_unfold:
  assumes "kogmo_rtdb_obj_findmeta_byid i db = Some k"
  shows "kogmo_rtdb_obj_writedata h i data db =
    (case writedata_check h (objmeta db ! k) (b_size data) of
       Some e \<Rightarrow> (Inl e, data, snd (kogmo_rtdb_timestamp_now db))
     | None \<Rightarrow>
         if too_fast (heap db) (objmeta db ! k) (fst (kogmo_rtdb_timestamp_now db))
         then (Inl ERR_TOOFAST, set_committed_proc (h_proc_oid h) data,
               if write_allow (flags (objmeta db ! k)) then kogmo_rtdb_obj_unlock k (commit_start k db)
               else commit_start k db)
         else case writedata_commit h i k (set_committed_proc (h_proc_oid h) data)
                     (fst (kogmo_rtdb_timestamp_now db)) (commit_start k db) of
                (data, db) \<Rightarrow> (Inr 0, data, db))"
  using assms
  by (cases "writedata_check h (objmeta db ! k) (b_size data)")
    (simp_all add: kogmo_rtdb_obj_writedata_def Let_def split_beta commit_start_def ipc_defs)

lemma writedata_ok:
  assumes "kogmo_rtdb_obj_writedata h i data db = (Inr v, data', db')"
    and k: "kogmo_rtdb_obj_findmeta_byid i db = Some k"
  shows "v = 0" "buffer_idx (objmeta db ! k) \<noteq> 0" "may_write h (objmeta db ! k)"
    "b_size data \<le> size_max (objmeta db ! k)" "int base_size \<le> b_size data"
    "\<not> too_fast (heap db) (objmeta db ! k) (fst (kogmo_rtdb_timestamp_now db))"
    "writedata_commit h i k (set_committed_proc (h_proc_oid h) data)
       (fst (kogmo_rtdb_timestamp_now db)) (commit_start k db) = (data', db')"
proof -
  note u = assms(1) [unfolded writedata_unfold [OF k]]
  have n: "writedata_check h (objmeta db ! k) (b_size data) = None"
    using u by (cases "writedata_check h (objmeta db ! k) (b_size data)") simp_all
  then show "buffer_idx (objmeta db ! k) \<noteq> 0" "may_write h (objmeta db ! k)"
    "b_size data \<le> size_max (objmeta db ! k)" "int base_size \<le> b_size data"
    by (simp_all add: writedata_check_None)
  from u n show "v = 0" "\<not> too_fast (heap db) (objmeta db ! k) (fst (kogmo_rtdb_timestamp_now db))"
    "writedata_commit h i k (set_committed_proc (h_proc_oid h) data)
       (fst (kogmo_rtdb_timestamp_now db)) (commit_start k db) = (data', db')"
    by (auto split: if_splits prod.splits)
qed

lemma writedata_db:
  assumes "kogmo_rtdb_obj_writedata h i data db = (Inr v, data', db')"
    and k: "kogmo_rtdb_obj_findmeta_byid i db = Some k" and l: "base_size \<le> length data"
  shows "objmeta db' = (objmeta db)[k := advanced (objmeta db ! k)]"
    "heap db' = write_block (slot_addr (objmeta db ! k) (next_slot (objmeta db ! k)))
       (commit_bytes h data) (commit_time db (objmeta db ! k)) (heap db)"
    "data' = set_committed_ts (commit_time db (objmeta db ! k))
       (set_committed_ts invalid_ts (set_committed_proc (h_proc_oid h) data))"
    "objmeta_free db' = objmeta_free db" "objmeta_oid_next db' = objmeta_oid_next db"
    "heap_free db' = heap_free db" "heap_used db' = heap_used db" "heap_size db' = heap_size db"
    "clock db' = clock db" "simmode db' = simmode db" "sim_ts db' = sim_ts db"
proof -
  have c: "commit_ts (commit_start k db) p t = commit_ts (snd (kogmo_rtdb_timestamp_now db)) p t" for p t
    by (simp add: commit_ts_def)
  note w = writedata_commit_db [OF writedata_ok(7) [OF assms(1) k]]
  show "objmeta db' = (objmeta db)[k := advanced (objmeta db ! k)]"
    "objmeta_free db' = objmeta_free db" "objmeta_oid_next db' = objmeta_oid_next db"
    "heap_free db' = heap_free db" "heap_used db' = heap_used db" "heap_size db' = heap_size db"
    "clock db' = clock db" "simmode db' = simmode db" "sim_ts db' = sim_ts db"
    using w(2,4-11) by simp_all
  show "heap db' = write_block (slot_addr (objmeta db ! k) (next_slot (objmeta db ! k)))
       (commit_bytes h data) (commit_time db (objmeta db ! k)) (heap db)"
    "data' = set_committed_ts (commit_time db (objmeta db ! k))
       (set_committed_ts invalid_ts (set_committed_proc (h_proc_oid h) data))"
    using w(1,3) l by (simp_all add: c commit_time_def commit_bytes_def)
qed

text \<open>The result code, by the first check that fails.\<close>

lemma writedata_result:
  "fst (kogmo_rtdb_obj_writedata h i data db) =
    (case kogmo_rtdb_obj_findmeta_byid i db of
       None \<Rightarrow> Inl ERR_NOTFOUND
     | Some k \<Rightarrow>
         let m = objmeta db ! k
         in if buffer_idx m = 0 then Inl ERR_NOTFOUND
            else if b_size data > size_max m \<or> b_size data < int base_size then Inl ERR_INVALID
            else if \<not> may_write h m then Inl ERR_NOPERM
            else if too_fast (heap db) m (fst (kogmo_rtdb_timestamp_now db)) then Inl ERR_TOOFAST
            else Inr 0)"
proof (cases "kogmo_rtdb_obj_findmeta_byid i db")
  case None then show ?thesis by (simp add: kogmo_rtdb_obj_writedata_def split_beta)
next
  case (Some k)
  show ?thesis
    unfolding writedata_unfold [OF Some] Some
    by (auto simp: writedata_check_def may_write_def Let_def split: prod.split)
qed

lemma writedata_error:
  assumes "kogmo_rtdb_obj_writedata h i data db = (Inl e, data', db')"
  shows "objmeta db' = objmeta db" "heap db' = heap db" "objmeta_free db' = objmeta_free db"
    "objmeta_oid_next db' = objmeta_oid_next db" "heap_free db' = heap_free db"
    "heap_used db' = heap_used db"
proof -
  have "objmeta db' = objmeta db \<and> heap db' = heap db \<and> objmeta_free db' = objmeta_free db
    \<and> objmeta_oid_next db' = objmeta_oid_next db \<and> heap_free db' = heap_free db \<and> heap_used db' = heap_used db"
  proof (cases "kogmo_rtdb_obj_findmeta_byid i db")
    case None with assms show ?thesis by (auto simp: kogmo_rtdb_obj_writedata_def split_beta)
  next
    case (Some k)
    from assms show ?thesis
      unfolding writedata_unfold [OF Some]
      by (auto simp: ipc_defs split: option.splits if_splits prod.splits)
  qed
  then show "objmeta db' = objmeta db" "heap db' = heap db" "objmeta_free db' = objmeta_free db"
    "objmeta_oid_next db' = objmeta_oid_next db" "heap_free db' = heap_free db"
    "heap_used db' = heap_used db" by simp_all
qed

text \<open>Locks: the object's lock, if others may write, and the notification lock, both given back.\<close>

lemma lock_step_emits:
  assumes "ipc_log db' = rev cs @ ipc_log db" "run_locks L cs = Some L'"
  shows "lock_step L db db' L'"
  using assms unfolding lock_step_def log_ext_def by blast

lemma writedata_commit_locks:
  assumes L: "Changenotify_lock k \<notin> L" "Obj_lock k \<notin> L"
  shows "lock_step (if write_allow (flags (objmeta db ! k)) then insert (Obj_lock k) L else L)
    db (snd (writedata_commit h i k data ts db)) L"
proof -
  let ?m = "objmeta db ! k"
  define t where "t = commit_ts db (slot_addr ?m (next_slot ?m)) ts"
  define nn where "nn = (no_notifies (flags ?m) \<or> db_no_notifies db)"
  define wa where "wa = write_allow (flags ?m)"
  define d0 where "d0 = db\<lparr>heap := write_block (slot_addr ?m (next_slot ?m))
      (take (nat (b_size data)) (set_committed_ts invalid_ts data)) t (heap db)\<rparr>"
  define d1 where "d1 = (if nn then d0 else kogmo_rtdb_obj_do_notify_prepare k d0)"
  define d2 where "d2 = upd_meta k (?m\<lparr>history_slot := next_slot ?m\<rparr>) d1"
  define d3 where "d3 = (if wa then kogmo_rtdb_obj_unlock k d2 else d2)"
  define d4 where "d4 = (if nn then d3 else kogmo_rtdb_obj_do_notify k d3)"
  let ?L0 = "if wa then insert (Obj_lock k) L else L"
  let ?L1 = "if nn then ?L0 else insert (Changenotify_lock k) ?L0"
  let ?L2 = "if nn then L else insert (Changenotify_lock k) L"
  have "lock_step ?L0 db d0 ?L0" by (simp add: d0_def lock_step_same)
  also have "lock_step ?L0 d0 d1 ?L1"
    using L by (auto simp: d1_def ipc_defs intro: lock_step_same lock_step_emit)
  also have "lock_step ?L1 d1 d2 ?L1" by (rule lock_step_same) (simp add: d2_def)
  also have "lock_step ?L1 d2 d3 ?L2"
    using L by (auto simp: d3_def ipc_defs insert_Diff_if intro!: lock_step_same lock_step_emit)
  also have "lock_step ?L2 d3 d4 L"
  proof (cases nn)
    case True then show ?thesis by (simp add: d4_def lock_step_same)
  next
    case False
    with L have "run_locks ?L2 [Signal_obj k, Unlock (Changenotify_lock k)] = Some L" by simp
    moreover have "ipc_log d4 = rev [Signal_obj k, Unlock (Changenotify_lock k)] @ ipc_log d3"
      using False by (simp add: d4_def ipc_defs)
    ultimately show ?thesis by (intro lock_step_emits)
  qed
  also have "lock_step L d4 (kogmo_rtdb_obj_trace_send i t TRACE_UPDATED (Some (int k)) (next_slot ?m) d4) L"
    by (rule trace_send_locks)
  also have "kogmo_rtdb_obj_trace_send i t TRACE_UPDATED (Some (int k)) (next_slot ?m) d4
      = snd (writedata_commit h i k data ts db)"
    unfolding writedata_commit_def Let_def d4_def d3_def d2_def d1_def d0_def nn_def wa_def t_def snd_conv ..
  finally show ?thesis unfolding wa_def .
qed

lemma writedata_locks:
  assumes w: "kogmo_rtdb_obj_writedata h i data db = (r, data', db')"
    and L: "\<And>k. Obj_lock k \<notin> L \<and> Changenotify_lock k \<notin> L"
  shows "lock_step L db db' L"
proof (cases "kogmo_rtdb_obj_findmeta_byid i db")
  case None
  with w show ?thesis by (intro lock_step_same) (auto simp: kogmo_rtdb_obj_writedata_def split_beta)
next
  case (Some k)
  let ?wa = "write_allow (flags (objmeta db ! k))"
  let ?L0 = "if ?wa then insert (Obj_lock k) L else L"
  have s: "lock_step L db (commit_start k db) ?L0"
  proof (cases ?wa)
    case False then show ?thesis by (simp add: commit_start_def Let_def lock_step_same)
  next
    case True
    then have "lock_step L (snd (kogmo_rtdb_timestamp_now db)) (commit_start k db) ?L0"
      using L by (auto simp: commit_start_def Let_def ipc_defs intro!: lock_step_emit)
    then show ?thesis by (rule lock_step_log1) simp
  qed
  show ?thesis
  proof (cases "writedata_check h (objmeta db ! k) (b_size data)")
    case (Some e)
    with w show ?thesis
      unfolding writedata_unfold [OF \<open>_ = Some k\<close>] by (auto intro: lock_step_same)
  next
    case None
    show ?thesis
    proof (cases "too_fast (heap db) (objmeta db ! k) (fst (kogmo_rtdb_timestamp_now db))")
      case False
      with w None have d: "db' = snd (writedata_commit h i k (set_committed_proc (h_proc_oid h) data)
          (fst (kogmo_rtdb_timestamp_now db)) (commit_start k db))"
        unfolding writedata_unfold [OF Some] by (auto split: prod.splits)
      show ?thesis unfolding d
        by (rule lock_step_trans [OF s writedata_commit_locks [of k L "commit_start k db", simplified]])
          (use L in auto)
    next
      case True
      with w None have d: "db' = (if ?wa then kogmo_rtdb_obj_unlock k (commit_start k db) else commit_start k db)"
        unfolding writedata_unfold [OF Some] by auto
      have "lock_step ?L0 (commit_start k db) db' L"
        using L by (auto simp: d ipc_defs insert_Diff_if intro!: lock_step_emit lock_step_same)
      with s show ?thesis by (rule lock_step_trans)
    qed
  qed
qed

section \<open>The history of the object\<close>

text \<open>Time stamps the ring can hold: after 4.3 s past the epoch, before the end of \<open>int64\<close>.\<close>

definition time_ok :: "timestamp \<Rightarrow> bool" where
  "time_ok t \<longleftrightarrow> 2 ^ 32 \<le> t \<and> t + 1 < 2 ^ 63"

definition obj_ok :: "rtdb \<Rightarrow> nat \<Rightarrow> bool" where
  "obj_ok db k \<longleftrightarrow> ring_ok (objmeta db ! k) \<and> sizes_ok (heap db) (objmeta db ! k)"

definition obj_history :: "rtdb \<Rightarrow> nat \<Rightarrow> byte list list" where
  "obj_history db k = history (heap db) (objmeta db ! k)"

lemma commit_time_ok:
  assumes "time_ok (fst (kogmo_rtdb_timestamp_now db))"
  shows "2 ^ 32 \<le> commit_time db m" "commit_time db m < 2 ^ 63"
    "fst (kogmo_rtdb_timestamp_now db) \<le> commit_time db m"
    "commit_time db m \<le> fst (kogmo_rtdb_timestamp_now db) + 1"
proof -
  let ?t = "fst (kogmo_rtdb_timestamp_now db)"
  have "int64 (?t + 1) = ?t + 1" using assms by (intro int64_id) (simp add: time_ok_def in_int64_def)
  moreover have "commit_time db m = ?t \<or> commit_time db m = int64 (?t + 1)"
    unfolding commit_time_def commit_ts_def by (simp only: if_cancel split: if_split) blast
  ultimately have "commit_time db m = ?t \<or> commit_time db m = ?t + 1" by simp
  then show "2 ^ 32 \<le> commit_time db m" "commit_time db m < 2 ^ 63" "?t \<le> commit_time db m"
    "commit_time db m \<le> ?t + 1"
    using assms by (auto simp: time_ok_def)
qed

lemma writedata_history:
  assumes w: "kogmo_rtdb_obj_writedata h i data db = (Inr v, data', db')"
    and k: "kogmo_rtdb_obj_findmeta_byid i db = Some k" and ok: "obj_ok db k"
    and t: "time_ok (fst (kogmo_rtdb_timestamp_now db))" and l: "b_size data \<le> int (length data)"
  shows "obj_history db' k = take (nat (history_size (objmeta db ! k)))
      (committed (commit_time db (objmeta db ! k)) (commit_bytes h data) # obj_history db k)"
    "obj_ok db' k" "0 \<le> history_slot (objmeta db' ! k)"
    "\<And>x. x < buffer_idx (objmeta db ! k) \<or> buffer_idx (objmeta db ! k)
        + size_max (objmeta db ! k) * history_size (objmeta db ! k) \<le> x \<Longrightarrow> heap db' x = heap db x"
proof -
  let ?m = "objmeta db ! k"
  have kl: "k < length (objmeta db)" using k by (auto simp: kogmo_rtdb_obj_findmeta_byid_def)
  note W = writedata_ok [OF w k]
  have r: "ring_ok ?m" and s: "sizes_ok (heap db) ?m" using ok by (simp_all add: obj_ok_def)
  have bl: "base_size \<le> length data" using W(5) l by simp
  note D = writedata_db [OF w k bl]
  note cb = commit_bytes_fields [OF W(5) l, of h]
  have bs: "base_size \<le> length (commit_bytes h data)" "int (length (commit_bytes h data)) \<le> size_max ?m"
    "b_size (commit_bytes h data) = int (length (commit_bytes h data))"
    using cb W(4,5) by simp_all
  note H = write_history [OF r s bs commit_time_ok(1,2) [OF t, of ?m] D(2)]
  have m': "objmeta db' ! k = advanced ?m" using D(1) kl by simp
  show "obj_history db' k = take (nat (history_size ?m))
      (committed (commit_time db ?m) (commit_bytes h data) # obj_history db k)"
    using H(1) by (simp add: obj_history_def m')
  show "obj_ok db' k" using H(2) advanced_ok(1) [OF r] by (simp add: obj_ok_def m')
  show "0 \<le> history_slot (objmeta db' ! k)" using advanced_ok(2) [OF r] by (simp add: m')
  show "\<And>x. x < buffer_idx ?m \<or> buffer_idx ?m + size_max ?m * history_size ?m \<le> x \<Longrightarrow> heap db' x = heap db x"
    by (rule H(3))
qed

text \<open>A ring depends on its own block only.\<close>

lemma history_cong:
  assumes r: "ring_ok m" and s: "sizes_ok hp m"
    and e: "\<And>x. buffer_idx m \<le> x \<Longrightarrow> x < buffer_idx m + size_max m * history_size m \<Longrightarrow> hp' x = hp x"
  shows "history hp' m = history hp m" "sizes_ok hp' m"
proof -
  have ld: "ldb hp' (ring_addr m i) n = ldb hp (ring_addr m i) n" if "int n \<le> size_max m" for i n
    by (rule ldb_cong) (use ring_addr_bounds [OF r, of i] that in \<open>auto intro!: e\<close>)
  have f: "m_committed_ts hp' (ring_addr m i) = m_committed_ts hp (ring_addr m i)"
    "m_size hp' (ring_addr m i) = m_size hp (ring_addr m i)" for i
    using ld [of 24 i] ring_okD(1) [OF r] m_fields(1,3) [of 24 hp' "ring_addr m i"]
      m_fields(1,3) [of 24 hp "ring_addr m i"] by (simp_all add: base_size_def)
  have H: "hist_addrs hp' m = hist_addrs hp m"
    unfolding hist_addrs_def by (rule takeWhile_cong) (auto simp: valid_def f)
  have in_ring: "\<exists>i. p = ring_addr m i" if "p \<in> set (hist_addrs hp m)" for p
  proof -
    have "p \<in> set (map (ring_addr m) [0..<nat (history_size m)])"
      using that unfolding hist_addrs_def by (rule set_takeWhileD [THEN conjunct1])
    then show ?thesis by auto
  qed
  have "entry hp' p = entry hp p" if p: "p \<in> set (hist_addrs hp m)" for p
  proof -
    obtain i where i: "p = ring_addr m i" using in_ring [OF p] by blast
    have "m_size hp p \<le> size_max m" "int base_size \<le> m_size hp p" using s p by (simp_all add: sizes_ok_def)
    then show ?thesis using ld [of "nat (m_size hp p)" i] by (simp add: entry_def i f)
  qed
  then show "history hp' m = history hp m" by (simp add: history_def H)
  show "sizes_ok hp' m"
    unfolding sizes_ok_def H
  proof
    fix p assume p: "p \<in> set (hist_addrs hp m)"
    then obtain i where "p = ring_addr m i" using in_ring by blast
    with s p show "int base_size \<le> m_size hp' p \<and> m_size hp' p \<le> size_max m"
      by (auto simp: sizes_ok_def f)
  qed
qed

definition ring_bytes :: "obj_info \<Rightarrow> int set" where
  "ring_bytes m = {buffer_idx m ..< buffer_idx m + size_max m * history_size m}"

lemma writedata_others:
  assumes w: "kogmo_rtdb_obj_writedata h i data db = (r, data', db')"
    and k: "kogmo_rtdb_obj_findmeta_byid i db = Some k" and ok: "obj_ok db k"
    and t: "time_ok (fst (kogmo_rtdb_timestamp_now db))" and l: "b_size data \<le> int (length data)"
    and j: "j \<noteq> k" "obj_ok db j" "ring_bytes (objmeta db ! j) \<inter> ring_bytes (objmeta db ! k) = {}"
  shows "obj_history db' j = obj_history db j" "obj_ok db' j" "objmeta db' ! j = objmeta db ! j"
proof -
  have e: "objmeta db' ! j = objmeta db ! j \<and> (\<forall>x \<in> ring_bytes (objmeta db ! j). heap db' x = heap db x)"
  proof (cases r)
    case (Inl e)
    with writedata_error [of h i data db e data' db'] w show ?thesis by simp
  next
    case (Inr v)
    from w have w': "kogmo_rtdb_obj_writedata h i data db = (Inr v, data', db')" by (simp add: Inr)
    have "heap db' x = heap db x" if "x \<in> ring_bytes (objmeta db ! j)" for x
    proof -
      have "x \<notin> ring_bytes (objmeta db ! k)" using that j(3) by blast
      then show ?thesis by (intro writedata_history(4) [OF w' k ok t l]) (auto simp: ring_bytes_def)
    qed
    then show ?thesis using writedata_db(1) [OF w' k] writedata_ok(5) [OF w' k] l j(1) by simp
  qed
  from j(2) have r: "ring_ok (objmeta db ! j)" "sizes_ok (heap db) (objmeta db ! j)" by (simp_all add: obj_ok_def)
  note c = history_cong [OF r, of "heap db'"]
  show "objmeta db' ! j = objmeta db ! j" using e by simp
  show "obj_history db' j = obj_history db j" "obj_ok db' j"
    using c e r by (auto simp: obj_history_def obj_ok_def ring_bytes_def)
qed

section \<open>Write, then read\<close>

lemma readdata_history:
  assumes k: "kogmo_rtdb_obj_findmeta_byid i db = Some k" "buffer_idx (objmeta db ! k) \<noteq> 0"
    and p: "may_read h (objmeta db ! k)" and ok: "obj_ok db k"
    and h: "0 \<le> history_slot (objmeta db ! k)" and f: "nat (history_size (objmeta db ! k)) \<le> fuel"
    and sz: "size_max (objmeta db ! k) \<le> sz" and w: "\<not> withhold_stale (flags (objmeta db ! k))"
  shows "kogmo_rtdb_obj_readdata_mode fuel h mode i ts buf sz db = Some
    (case pick mode (ts = invalid_ts) (deleted_ts (objmeta db ! k) \<noteq> invalid_ts) (entry_stop mode ts)
            (obj_history db k) of
       None \<Rightarrow> (Inl ERR_NOTFOUND, buf, db)
     | Some e \<Rightarrow> (Inr (int (length e)), e @ drop (length e) buf, db))"
  using readdata_picked [OF k p _ h f _ sz w, of mode ts buf] ok
  by (simp add: obj_ok_def picked_def obj_history_def)

end
