(* ===== verification/Heap_Safety.thy ===== *)
theory Heap_Safety
  imports Objdata_Ops
begin

text \<open>
  Memory safety of the objects' data: the blocks of the objects in the table are blocks the
  allocator has handed out, one for each object, so their rings do not overlap. Insert and
  delete keep this for every allocator that meets the contract \<open>heap_allocator\<close>.
\<close>

section \<open>The invariant\<close>

definition has_block :: "obj_info \<Rightarrow> bool" where
  "has_block m \<longleftrightarrow> oid m \<noteq> 0 \<and> size_max m \<noteq> 0"

definition obj_block :: "obj_info \<Rightarrow> block" where
  "obj_block m = (buffer_idx m, block_size m)"

definition blocks_in :: "block set \<Rightarrow> obj_info list \<Rightarrow> bool" where
  "blocks_in B xs \<longleftrightarrow>
     (\<forall>k < length xs. has_block (xs ! k) \<longrightarrow> ring_ok (xs ! k) \<and> obj_block (xs ! k) \<in> B)
     \<and> (\<forall>j < length xs. \<forall>k < length xs. j \<noteq> k \<and> has_block (xs ! j) \<and> has_block (xs ! k)
           \<longrightarrow> obj_block (xs ! j) \<noteq> obj_block (xs ! k))
     \<and> (\<forall>k < length xs. size_max (xs ! k) = 0 \<longrightarrow> buffer_idx (xs ! k) = 0)"

definition heap_ok :: "(block set \<Rightarrow> rtdb \<Rightarrow> bool) \<Rightarrow> rtdb \<Rightarrow> bool" where
  "heap_ok I db \<longleftrightarrow> (\<exists>B. I B db \<and> blocks_in B (objmeta db))"

lemma block_size_ring:
  assumes "ring_ok m" shows "block_size m = size_max m * history_size m" "0 < block_size m"
proof -
  note d = ring_okD [OF assms]
  have p: "0 < size_max m * history_size m" using d by simp
  show "block_size m = size_max m * history_size m"
    unfolding block_size_def using d p by (intro int32_id) (unfold in_int32_def, linarith)
  with p show "0 < block_size m" by simp
qed

lemma ring_bytes_block: "ring_ok m \<Longrightarrow> ring_bytes m = block_bytes (obj_block m)"
  by (simp add: ring_bytes_def block_bytes_def obj_block_def block_size_ring)

lemma blocks_in_mono: "blocks_in B xs \<Longrightarrow> B \<subseteq> C \<Longrightarrow> blocks_in C xs"
  unfolding blocks_in_def by blast

text \<open>Replacing a slot by one with a block of its own, or with none.\<close>

lemma blocks_in_update:
  assumes b: "blocks_in B xs" and k: "k < length xs"
    and v: "has_block v \<Longrightarrow> ring_ok v \<and> obj_block v \<in> B
      \<and> (\<forall>j < length xs. j \<noteq> k \<and> has_block (xs ! j) \<longrightarrow> obj_block (xs ! j) \<noteq> obj_block v)"
    and z: "size_max v = 0 \<Longrightarrow> buffer_idx v = 0"
  shows "blocks_in B (xs[k := v])"
  unfolding blocks_in_def
proof (intro conjI allI impI)
  fix j assume j: "j < length (xs[k := v])"
  show "ring_ok (xs[k := v] ! j)" if "has_block (xs[k := v] ! j)"
    using that b v j k by (cases "j = k") (auto simp: blocks_in_def)
  show "obj_block (xs[k := v] ! j) \<in> B" if "has_block (xs[k := v] ! j)"
    using that b v j k by (cases "j = k") (auto simp: blocks_in_def)
  show "buffer_idx (xs[k := v] ! j) = 0" if "size_max (xs[k := v] ! j) = 0"
    using that b z j k by (cases "j = k") (auto simp: blocks_in_def)
next
  fix i j
  assume l: "i < length (xs[k := v])" "j < length (xs[k := v])"
    and h: "i \<noteq> j \<and> has_block (xs[k := v] ! i) \<and> has_block (xs[k := v] ! j)"
  consider "i = k" "j \<noteq> k" | "i \<noteq> k" "j = k" | "i \<noteq> k" "j \<noteq> k" using h by auto
  then show "obj_block (xs[k := v] ! i) \<noteq> obj_block (xs[k := v] ! j)"
  proof cases
    case 1
    then have "obj_block (xs ! j) \<noteq> obj_block v" using h l v k by auto
    with 1 k show ?thesis by auto
  next
    case 2
    then have "obj_block (xs ! i) \<noteq> obj_block v" using h l v k by auto
    with 2 k show ?thesis by auto
  next
    case 3
    with h l b show ?thesis by (auto simp: blocks_in_def)
  qed
qed

text \<open>The same blocks, whatever else changes in a slot.\<close>

lemma blocks_in_same:
  assumes "blocks_in B xs" "k < length xs" "obj_block v = obj_block (xs ! k)"
    "size_max v = size_max (xs ! k)" "oid v = oid (xs ! k) \<or> oid v = 0"
    "history_size v = history_size (xs ! k)" "history_slot v = history_slot (xs ! k)"
  shows "blocks_in B (xs[k := v])"
proof (rule blocks_in_update [OF assms(1,2)])
  have bi: "buffer_idx v = buffer_idx (xs ! k)" using assms(3) by (simp add: obj_block_def)
  assume h: "has_block v"
  then have hk: "has_block (xs ! k)" using assms(4,5) by (auto simp: has_block_def)
  with assms(1,2) have r: "ring_ok (xs ! k)" "obj_block (xs ! k) \<in> B" by (auto simp: blocks_in_def)
  then have "ring_ok v" using bi assms(4,6,7) by (simp add: ring_ok_def)
  with r assms hk show "ring_ok v \<and> obj_block v \<in> B
      \<and> (\<forall>j < length xs. j \<noteq> k \<and> has_block (xs ! j) \<longrightarrow> obj_block (xs ! j) \<noteq> obj_block v)"
    unfolding blocks_in_def by metis
next
  assume "size_max v = 0"
  with assms show "buffer_idx v = 0" by (auto simp: blocks_in_def obj_block_def)
qed

lemma blocks_in_remove:
  assumes "blocks_in B xs" "k < length xs" "has_block (xs ! k)"
  shows "blocks_in (B - {obj_block (xs ! k)}) (xs[k := (xs ! k)\<lparr>oid := 0\<rparr>])"
proof -
  have "blocks_in B (xs[k := (xs ! k)\<lparr>oid := 0\<rparr>])"
    by (rule blocks_in_same [OF assms(1,2)]) (simp_all add: obj_block_def block_size_def)
  moreover have "obj_block (xs ! j) \<noteq> obj_block (xs ! k)"
    if "j < length xs" "j \<noteq> k" "has_block (xs ! j)" for j
    using assms that by (auto simp: blocks_in_def)
  ultimately show ?thesis
    using assms(2) by (auto simp: blocks_in_def nth_list_update_if has_block_def)
qed

section \<open>Preservation\<close>

text \<open>What the new object has to satisfy: the product of size and history does not overflow.\<close>

definition size_ok :: "obj_info \<Rightarrow> bool" where
  "size_ok m \<longleftrightarrow> size_max m = 0
     \<or> (int base_size \<le> size_max m \<and> 1 \<le> history_size m \<and> size_max m * history_size m < 2 ^ 31)"

context heap_allocator
begin

lemma heap_ok_cong:
  assumes "heap_ok inv db" "objmeta db' = objmeta db" "heap db' = heap db" "heap_free db' = heap_free db"
    "heap_used db' = heap_used db" "heap_size db' = heap_size db"
  shows "heap_ok inv db'"
  using assms inv_frame [of _ db db'] unfolding heap_ok_def by auto

lemma blocks_distinct:
  assumes "heap_ok inv db" "j < length (objmeta db)" "k < length (objmeta db)" "j \<noteq> k"
    "has_block (objmeta db ! j)" "has_block (objmeta db ! k)"
  shows "ring_bytes (objmeta db ! j) \<inter> ring_bytes (objmeta db ! k) = {}"
proof -
  obtain B where B: "inv B db" "blocks_in B (objmeta db)" using assms(1) by (auto simp: heap_ok_def)
  then have "obj_block (objmeta db ! j) \<noteq> obj_block (objmeta db ! k)"
    "obj_block (objmeta db ! j) \<in> B" "obj_block (objmeta db ! k) \<in> B"
    "ring_ok (objmeta db ! j)" "ring_ok (objmeta db ! k)"
    using assms(2-6) by (auto simp: blocks_in_def)
  with inv_disjoint [OF B(1)] show ?thesis
    by (simp add: ring_bytes_block disjoint_blocks_def)
qed

lemma purgeslot_heap_ok:
  assumes h: "h_dsa h = d" and ok: "heap_ok inv db" and k: "k < length (objmeta db)" "oid (objmeta db ! k) \<noteq> 0"
  shows "heap_ok inv (kogmo_rtdb_obj_purgeslot h k db)"
proof -
  let ?m = "objmeta db ! k"
  obtain B where B: "inv B db" "blocks_in B (objmeta db)" using ok by (auto simp: heap_ok_def)
  show ?thesis
  proof (cases "buffer_idx ?m = 0")
    case True
    have "blocks_in B ((objmeta db)[k := ?m\<lparr>oid := 0\<rparr>])"
      by (rule blocks_in_same [OF B(2) k(1)]) (simp_all add: obj_block_def block_size_def)
    moreover have "inv B (kogmo_rtdb_obj_purgeslot h k db)"
      by (rule inv_frame [OF B(1)]) (simp_all add: kogmo_rtdb_obj_purgeslot_def True)
    ultimately show ?thesis
      using purgeslot_objmeta(1) [of h k db] h frame_ok by (auto simp: heap_ok_def)
  next
    case False
    then have hb: "has_block ?m" using B(2) k by (auto simp: blocks_in_def has_block_def)
    then have "(buffer_idx ?m, block_size ?m) \<in> B" using B(2) k by (auto simp: blocks_in_def obj_block_def)
    from free_ok [OF B(1) h this]
    have "inv (B - {obj_block ?m}) (kogmo_rtdb_obj_mem_free h (buffer_idx ?m) (block_size ?m) db)"
      by (simp add: obj_block_def)
    then have "inv (B - {obj_block ?m}) (kogmo_rtdb_obj_purgeslot h k db)"
      by (rule inv_frame) (simp_all add: kogmo_rtdb_obj_purgeslot_def False Let_def)
    moreover have "blocks_in (B - {obj_block ?m}) (objmeta (kogmo_rtdb_obj_purgeslot h k db))"
      using blocks_in_remove [OF B(2) k(1) hb] purgeslot_objmeta(1) [of h k db] h frame_ok by simp
    ultimately show ?thesis by (auto simp: heap_ok_def)
  qed
qed

lemma delete_mark_heap_ok:
  assumes h: "h_dsa h = d" and ok: "heap_ok inv db" and k: "k < length (objmeta db)" "oid (objmeta db ! k) \<noteq> 0"
  shows "heap_ok inv (snd (delete_mark h k imm db))"
proof -
  let ?db = "snd (kogmo_rtdb_timestamp_now db)"
  let ?u = "(objmeta ?db ! k)\<lparr>deleted_proc := h_proc_oid h,
      deleted_ts := fst (kogmo_rtdb_timestamp_now db)\<rparr>"
  let ?db1 = "upd_meta k ?u ?db"
  let ?db2 = "if immediately_delete (flags ?u) \<or> imm then kogmo_rtdb_obj_purgeslot h k ?db1 else ?db1"
  obtain B where B: "inv B db" "blocks_in B (objmeta db)" using ok by (auto simp: heap_ok_def)
  have "blocks_in B ((objmeta db)[k := ?u])"
    by (rule blocks_in_same [OF B(2) k(1)]) (simp_all add: obj_block_def block_size_def)
  moreover have "inv B ?db1" by (rule inv_frame [OF B(1)]) simp_all
  ultimately have 1: "heap_ok inv ?db1" by (auto simp: heap_ok_def)
  have 2: "heap_ok inv ?db2" using 1 purgeslot_heap_ok [OF h 1, of k] k by simp
  show ?thesis
    by (rule heap_ok_cong [OF 2]) (simp_all add: delete_mark_def Let_def split_beta ipc_defs)
qed

end

sublocale heap_allocator \<subseteq> del_heap: delete_steps h
    "\<lambda>db db'. h_dsa h = d \<longrightarrow> heap_ok inv db \<longrightarrow> heap_ok inv db'" for h
proof (unfold_locales, goal_cases)
  case (3 db)
  show ?case by (auto intro: heap_ok_cong simp: ipc_defs)
next
  case (4 i db k imm)
  show ?case
  proof (intro impI)
    assume h: "h_dsa h = d" and ok: "heap_ok inv db"
    have k: "k < length (objmeta db)" "oid (objmeta db ! k) \<noteq> 0"
      using 4 by (auto simp: kogmo_rtdb_obj_findmeta_byid_def scan_first_Some)
    have ok': "heap_ok inv (kogmo_rtdb_objmeta_lock db)"
      by (rule heap_ok_cong [OF ok]) (simp_all add: ipc_defs)
    show "heap_ok inv (snd (delete_mark h k imm (kogmo_rtdb_objmeta_lock db)))"
      using k by (intro delete_mark_heap_ok [OF h ok']) simp_all
  qed
qed simp_all

section \<open>Insert\<close>

context heap_allocator
begin

lemma delete_heap_ok:
  assumes "kogmo_rtdb_obj_delete_imm fuel h m imm db = Some (r, m', db')" "oid m \<noteq> 0" "h_dsa h = d" "heap_ok inv db"
  shows "heap_ok inv db'"
  using del_heap.delete_rel [OF assms(1,2)] assms(3,4) by blast

text \<open>After the allocation step: the new block, if any, is fresh.\<close>

lemma insert_memory_heap:
  assumes h: "h_dsa h = d" and B: "inv B db"
    and im: "insert_memory h m db = (p, m', db')" and b0: "buffer_idx m = 0"
  shows "(p < 0 \<longrightarrow> inv B db' \<and> m' = m)
    \<and> (0 \<le> p \<and> size_max m \<noteq> 0 \<longrightarrow> inv (insert (p, block_size m) B) db' \<and> m' = m\<lparr>buffer_idx := p\<rparr>
         \<and> 0 < block_size m \<and> (p, block_size m) \<notin> B \<and> p + block_size m < 2 ^ 31
         \<and> ldb (heap db') p (nat (block_size m)) = replicate (nat (block_size m)) 0)
    \<and> (size_max m = 0 \<longrightarrow> inv B db' \<and> m' = m \<and> p = 0)
    \<and> (\<forall>b \<in> B. \<forall>x \<in> block_bytes b. heap db' x = heap db x)"
proof (cases "size_max m = 0")
  case True
  with im B show ?thesis by (auto simp: insert_memory_def)
next
  case False
  let ?u = "kogmo_rtdb_objmeta_unlock db"
  obtain q db1 where al: "kogmo_rtdb_obj_mem_alloc h (block_size m) ?u = (q, db1)" by (metis prod.exhaust)
  have r: "p = q" "m' = (if q < 0 then m else m\<lparr>buffer_idx := q\<rparr>)" "db' = kogmo_rtdb_objmeta_lock db1"
    using im False al by (auto simp: insert_memory_def Let_def)
  have hp: "heap db' = heap db1" "heap_free db' = heap_free db1" "heap_used db' = heap_used db1"
    "heap_size db' = heap_size db1" by (simp_all add: r(3) ipc_defs)
  have u: "inv B ?u" by (rule inv_frame [OF B]) (simp_all add: ipc_defs)
  have hu: "heap ?u = heap db" by (simp add: ipc_defs)
  have i32: "in_int32 (block_size m)" by (simp add: block_size_def)
  show ?thesis
  proof (cases "q < 0")
    case True
    from alloc_fail [OF u h i32 al True] have "inv B db1"
      "\<forall>b \<in> B. \<forall>x \<in> block_bytes b. heap db1 x = heap db x" by (simp_all add: hu)
    moreover from this(1) have "inv B db'" by (rule inv_frame) (simp_all add: hp)
    ultimately show ?thesis using True False r(1,2) by (simp add: hp(1))
  next
    case q: False
    then have q0: "0 \<le> q" by simp
    from alloc_ok [OF u h i32 al q0] have a: "inv (insert (q, block_size m) B) db1"
      "\<forall>b \<in> B. block_bytes b \<inter> block_bytes (q, block_size m) = {}"
      "\<forall>b \<in> B. \<forall>x \<in> block_bytes b. heap db1 x = heap db x"
      "ldb (heap db1) q (nat (block_size m)) = replicate (nat (block_size m)) 0" by (simp_all add: hu)
    have pos: "0 < block_size m" "q + block_size m < 2 ^ 31"
      using inv_range [OF a(1), of "(q, block_size m)"] by simp_all
    have "(q, block_size m) \<notin> B"
    proof
      assume "(q, block_size m) \<in> B"
      with a(2) have "block_bytes (q, block_size m) = {}" by blast
      with pos show False by (simp add: block_bytes_def)
    qed
    moreover have "inv (insert (q, block_size m) B) db'"
      by (rule inv_frame [OF a(1)]) (simp_all add: hp)
    ultimately show ?thesis using q False r(1,2) a pos by (simp add: hp(1))
  qed
qed

lemma insert_slot_heap:
  assumes h: "h_dsa h = d" and ok: "heap_ok inv db" and f: "size_ok m"
    and isl: "insert_slot h ts m db = (Some i, m', p, db')" and m: "buffer_idx m = 0" "history_slot m = - 1"
  shows "\<exists>B. inv B db' \<and> blocks_in B (objmeta db) \<and> objmeta db' = objmeta db
    \<and> (size_max m' \<noteq> 0 \<longrightarrow> ring_ok m' \<and> obj_block m' \<in> B
       \<and> (\<forall>j < length (objmeta db). j \<noteq> i \<and> has_block (objmeta db ! j)
             \<longrightarrow> obj_block (objmeta db ! j) \<noteq> obj_block m'))
    \<and> (size_max m' = 0 \<longrightarrow> buffer_idx m' = 0)
    \<and> (oid (objmeta db ! i) = 0 \<and> size_max m' \<noteq> 0 \<longrightarrow>
        ldb (heap db') (buffer_idx m') (nat (block_size m')) = replicate (nat (block_size m')) 0)
    \<and> (\<forall>j < length (objmeta db). has_block (objmeta db ! j)
         \<longrightarrow> (\<forall>x \<in> ring_bytes (objmeta db ! j). heap db' x = heap db x))"
proof -
  obtain B where B: "inv B db" "blocks_in B (objmeta db)" using ok by (auto simp: heap_ok_def)
  have rb: "ring_bytes (objmeta db ! j) = block_bytes (obj_block (objmeta db ! j)) \<and> obj_block (objmeta db ! j) \<in> B"
    if "j < length (objmeta db)" "has_block (objmeta db ! j)" for j
    using B(2) that by (auto simp: blocks_in_def ring_bytes_block)
  show ?thesis
  proof (cases "scan_first (reusable h db ts m) (objmeta db)")
    case (Some k)
    then have r: "k = i" "m' = m\<lparr>buffer_idx := buffer_idx (objmeta db ! i)\<rparr>" "db' = db"
      using isl by (auto simp: insert_slot_def)
    have i: "i < length (objmeta db)" "oid (objmeta db ! i) \<noteq> 0"
      "block_size (objmeta db ! i) = block_size m"
      using Some r(1) by (auto simp: scan_first_Some reusable_def split: if_splits)
    have bs': "block_size m' = block_size m" by (simp add: r block_size_def)
    show ?thesis
    proof (cases "size_max m = 0")
      case True
      have "size_max (objmeta db ! i) = 0"
      proof (rule ccontr)
        assume "size_max (objmeta db ! i) \<noteq> 0"
        then have "ring_ok (objmeta db ! i)" using i B(2) by (auto simp: blocks_in_def has_block_def)
        from block_size_ring(2) [OF this] i(3) True show False by (simp add: block_size_def int32_def)
      qed
      then have "buffer_idx (objmeta db ! i) = 0" using i B(2) by (auto simp: blocks_in_def)
      with B True r show ?thesis by auto
    next
      case False
      have pm: "24 \<le> size_max m" "1 \<le> history_size m" "size_max m * history_size m < 2 ^ 31"
        using f False by (simp_all add: size_ok_def base_size_def)
      have bm: "block_size m = size_max m * history_size m"
        unfolding block_size_def using pm
        by (intro int32_id) (smt (verit) in_int32_def mult_nonneg_nonneg)
      have "0 < block_size m" using pm by (simp add: bm)
      then have "size_max (objmeta db ! i) \<noteq> 0" using i(3) by (auto simp: block_size_def int32_def)
      then have hb: "has_block (objmeta db ! i)" using i by (simp add: has_block_def)
      with i B(2) have ri: "ring_ok (objmeta db ! i)" "obj_block (objmeta db ! i) \<in> B"
        by (auto simp: blocks_in_def)
      have "buffer_idx (objmeta db ! i) + block_size m < 2 ^ 31" "0 \<le> buffer_idx (objmeta db ! i)"
        using ring_okD(5,6) [OF ri(1)] block_size_ring(1) [OF ri(1)] i(3) by simp_all
      then have "ring_ok m'" using pm m by (simp add: ring_ok_def r base_size_def bm)
      moreover have "obj_block m' = obj_block (objmeta db ! i)"
        using i(3) bs' by (simp add: obj_block_def r)
      ultimately show ?thesis
        using B ri hb i False r by (auto simp: blocks_in_def)
    qed
  next
    case None
    obtain q m1 db1 where im: "insert_memory h m db = (q, m1, db1)" by (metis prod_cases3)
    have ia: "insert_alloc h m db = (Some i, m', p, db')" using isl None by (simp add: insert_slot_def)
    have st: "same_meta db db1" using insert_memory_cases [OF _ im] h frame_ok by simp
    have om: "objmeta db1 = objmeta db" using same_metaD [OF st] by simp
    have r: "0 \<le> q" "p = q" "m' = m1" "scan_first (\<lambda>s. oid s = 0) (objmeta db) = Some i"
      "db' = db1\<lparr>objmeta_free := uint32 (objmeta_free db1 - 1)\<rparr>"
      using ia im om by (auto simp: insert_alloc_def split: if_splits option.splits)
    have i: "oid (objmeta db ! i) = 0" using r(4) by (simp add: scan_first_Some)
    note M = insert_memory_heap [OF h B(1) im m(1)]
    have hp: "heap db' = heap db1" by (simp add: r(5))
    have keep: "\<forall>j < length (objmeta db). has_block (objmeta db ! j)
         \<longrightarrow> (\<forall>x \<in> ring_bytes (objmeta db ! j). heap db' x = heap db x)"
      using M rb hp by auto
    show ?thesis
    proof (cases "size_max m = 0")
      case True
      with M have "inv B db1" "m1 = m" by simp_all
      moreover from this(1) have "inv B db'" by (rule inv_frame) (simp_all add: r(5))
      ultimately show ?thesis using B(2) True m keep r om by auto
    next
      case False
      with M r(1) have a: "inv (insert (q, block_size m) B) db1" "m1 = m\<lparr>buffer_idx := q\<rparr>"
        "0 < block_size m" "(q, block_size m) \<notin> B" "q + block_size m < 2 ^ 31"
        "ldb (heap db1) q (nat (block_size m)) = replicate (nat (block_size m)) 0" by simp_all
      have pm: "24 \<le> size_max m" "1 \<le> history_size m" "size_max m * history_size m < 2 ^ 31"
        using f False by (simp_all add: size_ok_def base_size_def)
      have bm: "block_size m = size_max m * history_size m"
        unfolding block_size_def using pm
        by (intro int32_id) (smt (verit) in_int32_def mult_nonneg_nonneg)
      have bs': "block_size m' = block_size m" "obj_block m' = (q, block_size m)"
        by (simp_all add: r(3) a(2) block_size_def obj_block_def)
      have "ring_ok m'" using pm m r(1) a(5) by (simp add: ring_ok_def r(3) a(2) base_size_def bm)
      moreover have "inv (insert (q, block_size m) B) db'"
        by (rule inv_frame [OF a(1)]) (simp_all add: r(5))
      moreover have "blocks_in (insert (q, block_size m) B) (objmeta db)"
        using B(2) by (rule blocks_in_mono) blast
      moreover have "obj_block (objmeta db ! j) \<noteq> obj_block m'"
        if "j < length (objmeta db)" "has_block (objmeta db ! j)" for j
        using rb [OF that] a(4) bs' by auto
      moreover have "size_max m' \<noteq> 0" "buffer_idx m' = q" using False by (simp_all add: r(3) a(2))
      ultimately show ?thesis
        using bs' keep a(6) om by (intro exI [of _ "insert (q, block_size m) B"]) (simp add: r(5) hp)
    qed
  qed
qed

end

section \<open>The whole insert\<close>

lemma insert_unfold:
  "kogmo_rtdb_obj_insert h m db =
    (if size_max m \<noteq> 0 \<and> size_max m < int base_size then (Inl ERR_INVALID, m, snd (kogmo_rtdb_timestamp_now db))
     else if cstr ((name m)[NAME_MAXLEN - 1 := NUL]) = []
     then (Inl ERR_INVALID, m\<lparr>name := (name m)[NAME_MAXLEN - 1 := NUL]\<rparr>, snd (kogmo_rtdb_timestamp_now db))
     else insert_finish h (insert_slot h (fst (kogmo_rtdb_timestamp_now db))
            (insert_info h (fst (kogmo_rtdb_timestamp_now db)) m)
            (kogmo_rtdb_objmeta_lock (snd (kogmo_rtdb_timestamp_now db)))))"
  by (simp add: kogmo_rtdb_obj_insert_def insert_info_def Let_def split_beta del: insert_finish.simps)

lemma insert_info_fields [simp]:
  "oid (insert_info h ts m) = 0" "history_slot (insert_info h ts m) = - 1" "buffer_idx (insert_info h ts m) = 0"
  "deleted_ts (insert_info h ts m) = 0" "created_ts (insert_info h ts m) = ts"
  "created_proc (insert_info h ts m) = h_proc_oid h" "otype (insert_info h ts m) = otype m"
  "flags (insert_info h ts m) = flags m" "parent_oid (insert_info h ts m) = parent_oid m"
  "name (insert_info h ts m) = (name m)[NAME_MAXLEN - 1 := NUL]"
  by (simp_all add: insert_info_def) (simp_all add: insert_init_def Let_def)

text \<open>The bytes of the rings of all objects are those they were.\<close>

definition rings_kept :: "rtdb \<Rightarrow> rtdb \<Rightarrow> bool" where
  "rings_kept db db' \<longleftrightarrow> (\<forall>j < length (objmeta db). has_block (objmeta db ! j)
     \<longrightarrow> (\<forall>x \<in> ring_bytes (objmeta db ! j). heap db' x = heap db x))"

context heap_allocator
begin

lemma insert_noslot_heap:
  assumes h: "h_dsa h = d" and ok: "heap_ok inv db"
    and isl: "insert_slot h ts m db = (None, m', p, db')" and m: "buffer_idx m = 0"
  shows "heap_ok inv db' \<and> rings_kept db db'"
proof -
  obtain B where B: "inv B db" "blocks_in B (objmeta db)" using ok by (auto simp: heap_ok_def)
  obtain q m1 db1 where im: "insert_memory h m db = (q, m1, db1)" by (metis prod_cases3)
  have ia: "insert_alloc h m db = (None, m', p, db')"
    using isl by (auto simp: insert_slot_def split: option.splits)
  then have e: "db' = db1" using im by (auto simp: insert_alloc_def split: if_splits option.splits)
  have st: "same_meta db db1" using insert_memory_cases [OF _ im] h frame_ok by simp
  have om: "objmeta db1 = objmeta db" using same_metaD [OF st] by simp
  note M = insert_memory_heap [OF h B(1) im m]
  have "inv B db1 \<or> inv (insert (q, block_size m) B) db1" using M by (cases "q < 0") auto
  moreover have "blocks_in (insert (q, block_size m) B) (objmeta db)"
    using B(2) by (rule blocks_in_mono) blast
  moreover have "rings_kept db db1"
    unfolding rings_kept_def
  proof (intro allI impI)
    fix j assume j: "j < length (objmeta db)" "has_block (objmeta db ! j)"
    then have "ring_ok (objmeta db ! j)" "obj_block (objmeta db ! j) \<in> B" using B(2) by (simp_all add: blocks_in_def)
    then show "\<forall>x \<in> ring_bytes (objmeta db ! j). heap db1 x = heap db x" using M by (simp add: ring_bytes_block)
  qed
  ultimately show ?thesis using B(2) om by (auto simp: heap_ok_def e)
qed

lemma insert_heap:
  assumes t: "table_ok db" "objmeta_oid_next db < 2 ^ 31" and h: "h_dsa h = d" and ok: "heap_ok inv db"
    and f: "size_ok (insert_info h (fst (kogmo_rtdb_timestamp_now db)) m)"
    and ins: "kogmo_rtdb_obj_insert h m db = (r, m', db')" and r: "r \<noteq> Inl ERR_NOTUNIQ"
  shows "heap_ok inv db' \<and> rings_kept db db'
    \<and> (\<forall>v. r = Inr v \<longrightarrow> (\<exists>i < length (objmeta db). objmeta db' = (objmeta db)[i := m']
         \<and> (oid (objmeta db ! i) = 0 \<and> size_max m' \<noteq> 0 \<longrightarrow>
              ldb (heap db') (buffer_idx m') (nat (block_size m')) = replicate (nat (block_size m')) 0)))"
proof -
  let ?ts = "fst (kogmo_rtdb_timestamp_now db)"
  let ?db0 = "kogmo_rtdb_objmeta_lock (snd (kogmo_rtdb_timestamp_now db))"
  let ?m0 = "insert_info h ?ts m"
  have ok0: "heap_ok inv ?db0" "heap_ok inv (snd (kogmo_rtdb_timestamp_now db))"
    by (rule heap_ok_cong [OF ok]; simp add: ipc_defs)+
  obtain slot m1 p db1 where R: "insert_slot h ?ts ?m0 ?db0 = (slot, m1, p, db1)" by (metis prod_cases4)
  show ?thesis
  proof (cases "size_max m \<noteq> 0 \<and> size_max m < int base_size \<or> cstr ((name m)[NAME_MAXLEN - 1 := NUL]) = []")
    case True
    then have "db' = snd (kogmo_rtdb_timestamp_now db)" "r = Inl ERR_INVALID"
      using ins by (auto simp: insert_unfold split: if_splits)
    with ok0 show ?thesis by (simp add: rings_kept_def)
  next
    case False
    then have fin: "insert_finish h (slot, m1, p, db1) = (r, m', db')"
      using ins unfolding insert_unfold R by (auto simp del: insert_finish.simps split: if_splits)
    show ?thesis
    proof (cases slot)
      case None
      have "heap_ok inv db1 \<and> rings_kept ?db0 db1"
        using insert_noslot_heap [OF h ok0(1), of ?ts ?m0 m1 p db1] R None by simp
      with fin r None show ?thesis by (auto simp: Let_def rings_kept_def ipc_defs split: if_splits)
    next
      case (Some i)
      have R': "insert_slot h ?ts ?m0 ?db0 = (Some i, m1, p, db1)" using R Some by simp
      obtain B where B: "inv B db1" "blocks_in B (objmeta db)" "objmeta db1 = objmeta db"
        "size_max m1 \<noteq> 0 \<Longrightarrow> ring_ok m1 \<and> obj_block m1 \<in> B
          \<and> (\<forall>j < length (objmeta db). j \<noteq> i \<and> has_block (objmeta db ! j)
                \<longrightarrow> obj_block (objmeta db ! j) \<noteq> obj_block m1)"
        "size_max m1 = 0 \<Longrightarrow> buffer_idx m1 = 0"
        "oid (objmeta db ! i) = 0 \<and> size_max m1 \<noteq> 0
          \<Longrightarrow> ldb (heap db1) (buffer_idx m1) (nat (block_size m1)) = replicate (nat (block_size m1)) 0"
        "rings_kept db db1"
        using insert_slot_heap [OF h ok0(1) f R'] by (auto simp: rings_kept_def ipc_defs)
      have d: "dsa_frame_ok (h_dsa h)" using h frame_ok by simp
      have st0: "same_table db ?db0" "objmeta_free ?db0 = objmeta_free db"
        by (simp_all add: same_table_def ipc_defs)
      from insert_slot_cases [OF d R' st0] have c: "same_table db db1" "i < length (objmeta db)" by auto
      have com: "insert_commit h i m1 db1 = (r, m', db')" using fin r Some by (auto simp: Let_def split: if_splits)
      have nx: "1 \<le> objmeta_oid_next db1" "objmeta_oid_next db1 < 2 ^ 31"
        using c(1) t by (simp_all add: same_table_def table_ok_def)
      from insert_commit_ok [OF com nx] have e: "m' = commit_info (objmeta_oid_next db1) m1"
        "objmeta db' = (objmeta db1)[i := m']" by simp_all
      have hp: "heap db' = heap db1" "heap_free db' = heap_free db1" "heap_used db' = heap_used db1"
        "heap_size db' = heap_size db1"
      proof -
        have "\<not> int32 (objmeta_oid_next db1) \<le> 0"
          using nx by (subst int32_id) (simp_all add: in_int32_def)
        with com show "heap db' = heap db1" "heap_free db' = heap_free db1" "heap_used db' = heap_used db1"
          "heap_size db' = heap_size db1" by (auto simp: insert_commit_def Let_def ipc_defs)
      qed
      have "inv B db'" by (rule inv_frame [OF B(1)]) (simp_all add: hp)
      moreover have "blocks_in B ((objmeta db)[i := m'])"
      proof (rule blocks_in_update [OF B(2) c(2)])
        assume "has_block m'"
        then have "size_max m1 \<noteq> 0" by (simp add: has_block_def e(1))
        with B(4) have *: "ring_ok m1" "obj_block m1 \<in> B"
          "\<forall>j < length (objmeta db). j \<noteq> i \<and> has_block (objmeta db ! j)
             \<longrightarrow> obj_block (objmeta db ! j) \<noteq> obj_block m1" by auto
        have "ring_ok m' = ring_ok m1" "obj_block m' = obj_block m1"
          by (simp_all add: ring_ok_def obj_block_def block_size_def e(1))
        with * show "ring_ok m' \<and> obj_block m' \<in> B \<and> (\<forall>j < length (objmeta db).
            j \<noteq> i \<and> has_block (objmeta db ! j) \<longrightarrow> obj_block (objmeta db ! j) \<noteq> obj_block m')" by simp
      next
        assume "size_max m' = 0"
        with B(5) show "buffer_idx m' = 0" by (simp add: e(1))
      qed
      ultimately have "heap_ok inv db'" using e(2) B(3) by (auto simp: heap_ok_def)
      moreover have "rings_kept db db'" using B(7) by (simp add: rings_kept_def hp)
      moreover have "block_size m' = block_size m1" by (simp add: block_size_def e(1))
      ultimately show ?thesis using B(3,6) c(2) e hp(1) by auto
    qed
  qed
qed

lemma insert_heap_ok:
  assumes "table_ok db" "objmeta_oid_next db < 2 ^ 31" "h_dsa h = d" "heap_ok inv db"
    and "size_ok (insert_info h (fst (kogmo_rtdb_timestamp_now db)) m)"
    and "kogmo_rtdb_obj_insert h m db = (r, m', db')" "r \<noteq> Inl ERR_NOTUNIQ"
  shows "heap_ok inv db'"
  using insert_heap [OF assms] by blast

text \<open>Commits do not disturb the allocator.\<close>

lemma writedata_heap_ok:
  assumes ok: "heap_ok inv db" and k: "kogmo_rtdb_obj_findmeta_byid i db = Some k" "i \<noteq> 0"
    and w: "kogmo_rtdb_obj_writedata h i data db = (r, data', db')"
    and o: "obj_ok db k" and t: "time_ok (fst (kogmo_rtdb_timestamp_now db))"
    and l: "b_size data \<le> int (length data)"
  shows "heap_ok inv db'"
proof -
  obtain B where B: "inv B db" "blocks_in B (objmeta db)" using ok by (auto simp: heap_ok_def)
  have kl: "k < length (objmeta db)" "oid (objmeta db ! k) \<noteq> 0"
    using k by (auto simp: kogmo_rtdb_obj_findmeta_byid_def scan_first_Some)
  have ro: "ring_ok (objmeta db ! k)" using o by (simp add: obj_ok_def)
  have hb: "has_block (objmeta db ! k)" using kl ring_okD(1) [OF ro] by (simp add: has_block_def)
  show ?thesis
  proof (cases r)
    case (Inl e)
    have e: "objmeta db' = objmeta db" "heap db' = heap db" "heap_free db' = heap_free db"
      "heap_used db' = heap_used db"
      using writedata_error [of h i data db e data' db'] w Inl by simp_all
    have hs: "heap_size db' = heap_size db"
      using w unfolding writedata_unfold [OF k(1)] Inl
      by (auto simp: ipc_defs split: option.splits if_splits prod.splits)
    from e hs show ?thesis by (intro heap_ok_cong [OF ok]) simp_all
  next
    case (Inr v)
    with w have w': "kogmo_rtdb_obj_writedata h i data db = (Inr v, data', db')" by simp
    have bl: "base_size \<le> length data" using writedata_ok(5) [OF w' k(1)] l by simp
    note D = writedata_db [OF w' k(1) bl]
    have in_B: "obj_block (objmeta db ! k) \<in> B" using B(2) kl hb by (auto simp: blocks_in_def)
    have "inv B db'"
    proof (rule inv_frame [OF B(1)])
      show "\<forall>x. (\<forall>b\<in>B. x \<notin> block_bytes b) \<longrightarrow> heap db' x = heap db x"
      proof (intro allI impI)
        fix x assume "\<forall>b\<in>B. x \<notin> block_bytes b"
        with in_B have "x \<notin> ring_bytes (objmeta db ! k)" by (simp add: ring_bytes_block [OF ro])
        then show "heap db' x = heap db x"
          by (intro writedata_history(4) [OF w' k(1) o t l]) (auto simp: ring_bytes_def)
      qed
    qed (simp_all add: D)
    moreover have "blocks_in B ((objmeta db)[k := advanced (objmeta db ! k)])"
    proof (rule blocks_in_update [OF B(2) kl(1)])
      have e: "obj_block (advanced (objmeta db ! k)) = obj_block (objmeta db ! k)"
        by (simp add: obj_block_def block_size_def)
      show "ring_ok (advanced (objmeta db ! k)) \<and> obj_block (advanced (objmeta db ! k)) \<in> B \<and>
        (\<forall>j<length (objmeta db). j \<noteq> k \<and> has_block (objmeta db ! j) \<longrightarrow>
          obj_block (objmeta db ! j) \<noteq> obj_block (advanced (objmeta db ! k)))"
        unfolding e using advanced_ok(1) [OF ro] in_B B(2) kl hb by (auto simp: blocks_in_def)
    qed (use hb in \<open>simp add: has_block_def\<close>)
    ultimately show ?thesis using D(1) by (auto simp: heap_ok_def)
  qed
qed

end

end
