(* ===== verification/Sample_State.thy ===== *)
theory Sample_State
  imports Objdata_Ops
begin

text \<open>
  A small concrete database on which the theorems of the development are instantiated: four
  metadata slots with a root object, a data object with a ring of three blocks of 32 bytes, a
  dependent object without data, and a free slot; a zeroed heap under the static allocator; a
  clock that stands at ten seconds.
\<close>

definition ex_flags :: obj_flags where
  "ex_flags = no_flags\<lparr>parent_delete := True\<rparr>"

definition ex_root :: obj_info where
  "ex_root = zero_info\<lparr>oid := 1, name := strncpy NAME_MAXLEN ''root'', created_ts := 5000000000,
     created_proc := 7, otype := 1\<rparr>"

definition ex_obj :: obj_info where
  "ex_obj = zero_info\<lparr>oid := 2, name := strncpy NAME_MAXLEN ''speed'', created_ts := 6000000000,
     created_proc := 7, parent_oid := 1, otype := 9, size_max := 32, history_size := 3,
     history_slot := - 1, buffer_idx := 64, flags := ex_flags\<rparr>"

definition ex_child :: obj_info where
  "ex_child = zero_info\<lparr>oid := 3, name := strncpy NAME_MAXLEN ''sub'', created_ts := 7000000000,
     created_proc := 7, parent_oid := 2, otype := 8, flags := ex_flags\<rparr>"

definition ex_db :: rtdb where
  "ex_db = \<lparr>objmeta_oid_next = 4, objmeta = [ex_root, ex_obj, ex_child, zero_info], objmeta_free = 1,
     rtdb_trace = 0, rtdb_tracebufsize = 0, simmode = False, db_no_notifies = False, sim_ts = 0,
     default_history_interval = 1, default_max_cycletime = 1, default_keep_deleted_interval = 1,
     heap_size = 1024, heap_free = 864, heap_used = 160, heap = (\<lambda>_. 0),
     clock = (\<lambda>_. Some (10, 0)), ticks = 0, ipc_log = []\<rparr>"

definition ex_h :: handle where
  "ex_h = \<lparr>h_dsa = static_dsa, h_proc_oid = 7, h_flags = 0, h_procobj_cycletime = 1, h_debug = 0,
     h_regcomp = (\<lambda>_. None), h_stack = replicate (Suc OBJIDLIST_MAX) 0, h_nameremap = None,
     h_minhist = None, h_maxhist = None\<rparr>"

definition ex_data :: "byte list" where
  "ex_data = set_size 28 (replicate 24 0 @ [1, 2, 3, 4])"

section \<open>Facts about it\<close>

lemma ex_now [simp]: "kogmo_rtdb_timestamp_now ex_db = (10000000000, ex_db\<lparr>ticks := 1\<rparr>)"
  by (simp add: kogmo_rtdb_timestamp_now_def ex_db_def kogmo_timestamp_now_def TICKSPERSECOND_def
      in_int64_def)

lemma ex_objmeta [simp]: "objmeta ex_db = [ex_root, ex_obj, ex_child, zero_info]"
  by (simp add: ex_db_def)

lemma ex_fields [simp]:
  "oid ex_root = 1" "oid ex_obj = 2" "oid ex_child = 3" "oid zero_info = 0"
  "created_ts ex_root = 5000000000" "created_ts ex_obj = 6000000000" "created_ts ex_child = 7000000000"
  "deleted_ts ex_root = 0" "deleted_ts ex_obj = 0" "deleted_ts ex_child = 0"
  "created_proc ex_root = 7" "created_proc ex_obj = 7" "created_proc ex_child = 7"
  "parent_oid ex_root = 0" "parent_oid ex_obj = 1" "parent_oid ex_child = 2"
  "otype ex_root = 1" "otype ex_obj = 9" "otype ex_child = 8"
  "flags ex_root = no_flags" "flags ex_obj = ex_flags" "flags ex_child = ex_flags"
  "size_max ex_obj = 32" "history_size ex_obj = 3" "history_slot ex_obj = - 1" "buffer_idx ex_obj = 64"
  "size_max ex_root = 0" "size_max ex_child = 0" "size_max zero_info = 0"
  "buffer_idx ex_root = 0" "buffer_idx ex_child = 0" "buffer_idx zero_info = 0"
  "created_ts zero_info = 0" "deleted_ts zero_info = 0" "parent_oid zero_info = 0"
  "flags zero_info = no_flags" "history_slot ex_root = 0" "history_slot ex_child = 0"
  "history_slot zero_info = 0" "history_size ex_root = 0" "history_size ex_child = 0"
  "history_size zero_info = 0" "created_proc zero_info = 0" "otype zero_info = 0"
  by (simp_all add: ex_root_def ex_obj_def ex_child_def zero_info_def)

lemma ex_flag_fields [simp]:
  "parent_delete ex_flags" "\<not> write_allow ex_flags" "\<not> read_deny ex_flags" "\<not> unique ex_flags"
  "\<not> keep_alloc ex_flags" "\<not> cycle_watch ex_flags" "\<not> withhold_stale ex_flags" "\<not> no_notifies ex_flags"
  "\<not> immediately_delete ex_flags" "\<not> persistent ex_flags"
  "\<not> parent_delete no_flags" "\<not> write_allow no_flags" "\<not> read_deny no_flags" "\<not> unique no_flags"
  "\<not> keep_alloc no_flags" "\<not> cycle_watch no_flags" "\<not> withhold_stale no_flags" "\<not> no_notifies no_flags"
  "\<not> immediately_delete no_flags" "\<not> persistent no_flags"
  by (simp_all add: ex_flags_def no_flags_def)

lemma ex_db_fields [simp]:
  "objmeta_oid_next ex_db = 4" "objmeta_free ex_db = 1" "heap ex_db = (\<lambda>_. 0)" "heap_size ex_db = 1024"
  "heap_free ex_db = 864" "heap_used ex_db = 160" "\<not> simmode ex_db" "ipc_log ex_db = []"
  "clock ex_db = (\<lambda>_. Some (10, 0))" "sim_ts ex_db = 0" "rtdb_trace ex_db = 0"
  "\<not> db_no_notifies ex_db"
  by (simp_all add: ex_db_def)

lemma ex_h_fields [simp]:
  "h_dsa ex_h = static_dsa" "h_proc_oid ex_h = 7" "h_flags ex_h = 0" "h_debug ex_h = 0"
  "h_nameremap ex_h = None" "h_stack ex_h = replicate (Suc OBJIDLIST_MAX) 0"
  "h_minhist ex_h = None" "h_maxhist ex_h = None"
  by (simp_all add: ex_h_def)

lemma ex_not_admin [simp]: "\<not> this_process_is_admin ex_h"
  by (simp add: this_process_is_admin_def)

lemma ex_find [simp]:
  "kogmo_rtdb_obj_findmeta_byid 1 ex_db = Some 0" "kogmo_rtdb_obj_findmeta_byid 2 ex_db = Some 1"
  "kogmo_rtdb_obj_findmeta_byid 3 ex_db = Some 2"
  by (simp_all add: kogmo_rtdb_obj_findmeta_byid_def)

lemma ex_frame_ok [simp]: "dsa_frame_ok (h_dsa ex_h)"
  by (simp add: static_frame_ok)

lemma ex_table_ok: "table_ok ex_db"
proof -
  have "unique_keys oid [ex_root, ex_obj, ex_child, zero_info]"
    unfolding unique_keys_def
  proof (intro allI impI)
    fix i j
    assume "i < length [ex_root, ex_obj, ex_child, zero_info]"
      "j < length [ex_root, ex_obj, ex_child, zero_info]"
      and e: "oid ([ex_root, ex_obj, ex_child, zero_info] ! i) \<noteq> 0
        \<and> oid ([ex_root, ex_obj, ex_child, zero_info] ! i) = oid ([ex_root, ex_obj, ex_child, zero_info] ! j)"
    then have "i \<in> {0, 1, 2, 3}" "j \<in> {0, 1, 2, 3}" by auto
    with e show "i = j" by (elim insertE emptyE) simp_all
  qed
  then show ?thesis by (simp add: table_ok_def free_slots_def)
qed

lemma ex_clock_ok: "clock_ok ex_db"
  by (simp add: clock_ok_def kogmo_timestamp_now_def TICKSPERSECOND_def in_int64_def)

lemma ex_time_ok: "time_ok (fst (kogmo_rtdb_timestamp_now ex_db))"
  by (simp add: time_ok_def)

lemma ldb_zero [simp]: "ldb (\<lambda>_. 0) a n = replicate n 0"
  by (rule nth_equalityI) auto

lemma invalid_zero: "\<not> valid (\<lambda>_. 0) p"
  by (simp add: valid_def CMP_INT64_HIGH_def m_committed_ts_def invalid_ts_def)

lemma hist_addrs_zero [simp]: "hist_addrs (\<lambda>_. 0) m = []"
  by (simp add: hist_addrs_def takeWhile_eq_Nil_iff invalid_zero)

lemma ex_obj_ok: "obj_ok ex_db 1"
  by (simp add: obj_ok_def ring_ok_def sizes_ok_def base_size_def)

lemma ex_data_fields [simp]: "b_size ex_data = 28" "length ex_data = 28" "b_data_ts ex_data = 0"
proof -
  have "base_size \<le> length (replicate 24 (0::byte) @ [1, 2, 3, 4])" by (simp add: base_size_def)
  from header_set_size [OF this] show "b_size ex_data = 28" by (simp add: ex_data_def in_int32_def)
  show "length ex_data = 28" by (simp add: ex_data_def header_defs)
  show "b_data_ts ex_data = 0"
    unfolding ex_data_def header_set_size(3) [OF \<open>base_size \<le> _\<close>]
    by (simp add: b_data_ts_def get_def)
qed

lemma ex_may_write [simp]: "may_write ex_h ex_obj" "may_read ex_h ex_obj" "may_delete ex_h ex_obj"
  "may_delete ex_h ex_child"
  by (simp_all add: may_write_def may_read_def may_delete_def)

lemma ex_plain_names: "plain_names ex_h"
  by (simp add: plain_names_def)

end
