(* ===== verification/Objmeta_Props.thy ===== *)
theory Objmeta_Props
  imports Objmeta_Cascade Heap_Safety Sample_State
begin

text \<open>
  The properties of inserting, deleting and searching objects, and of the metadata table as a
  whole.
\<close>

section \<open>Samples\<close>

definition new_info :: obj_info where
  "new_info = zero_info\<lparr>name := strncpy NAME_MAXLEN ''pos'', otype := 9, size_max := 32,
     history_interval := 1, min_cycletime := 1/2, max_cycletime := 1\<rparr>"

lemma ex_insert: "fst (kogmo_rtdb_obj_insert ex_h new_info ex_db) = Inr 4"
  by code_simp

lemma ex_heap_ok: "heap_ok static_inv ex_db"
  unfolding heap_ok_def
proof (intro exI conjI)
  have b: "block_size ex_obj = 96" by (simp add: block_size_def in_int32_def)
  have r: "ring_ok ex_obj" by (simp add: ring_ok_def base_size_def)
  show "static_inv {(64, 96)} ex_db"
    by (simp add: static_inv_def disjoint_blocks_def)
  have four: "(\<forall>k < length [ex_root, ex_obj, ex_child, zero_info]. P k) \<longleftrightarrow> P 0 \<and> P 1 \<and> P 2 \<and> P 3" for P
    by (auto simp: less_Suc_eq numeral_2_eq_2 numeral_3_eq_3)
  show "blocks_in {(64, 96)} (objmeta ex_db)"
    unfolding blocks_in_def ex_objmeta four
    using b r by (simp add: has_block_def obj_block_def)
qed

lemma ex_names_ok: "names_ok (objmeta ex_db)"
  unfolding names_ok_def
proof (intro allI impI)
  fix i j assume "i < length (objmeta ex_db)"
  then have "i \<in> {0, 1, 2, 3}" by auto
  then show "\<not> unique (flags (objmeta ex_db ! i))" by (elim insertE emptyE) simp_all
qed

section \<open>Insert\<close>

text \<open>
  Insert keeps the table well formed: object ids stay unique and below the next id to be
  given out, and \<open>objmeta_free\<close> stays the number of free slots, unless the object is rejected
  because its name is taken.
\<close>
theorem insert_keeps_table:
  assumes "table_ok db" "objmeta_oid_next db < 2 ^ 31" "dsa_frame_ok (h_dsa h)"
    and "fst (kogmo_rtdb_obj_insert h m db) \<noteq> Inl ERR_NOTUNIQ"
  shows "table_ok (snd (snd (kogmo_rtdb_obj_insert h m db)))"
proof -
  obtain r m' db' where i: "kogmo_rtdb_obj_insert h m db = (r, m', db')" by (metis prod_cases3)
  from insert_table_ok [OF assms(1-3) i] assms(4) show ?thesis by (simp add: i)
qed

theorem insert_keeps_table_witness:
  "table_ok (snd (snd (kogmo_rtdb_obj_insert ex_h new_info ex_db)))"
  using insert_keeps_table [OF ex_table_ok _ ex_frame_ok] by (simp add: ex_insert)



text \<open>
  C10: Unique names: with sound arguments, insert is rejected as not unique exactly when a live
  object of the same type has the same name and one of the two asks for uniqueness.
\<close>
theorem insert_notuniq_iff:
  assumes t: "table_ok db" and d: "dsa_frame_ok (h_dsa h)"
    and a: "size_max m = 0 \<or> int base_size \<le> size_max m" "cstr ((name m)[NAME_MAXLEN - 1 := NUL]) \<noteq> []"
  shows "fst (kogmo_rtdb_obj_insert h m db) = Inl ERR_NOTUNIQ \<longleftrightarrow>
    (\<exists>s \<in> set (objmeta db). live s \<and> (otype s = otype m \<or> otype m = 0)
       \<and> strncmp_eq NAME_MAXLEN ((name m)[NAME_MAXLEN - 1 := NUL]) (name s)
       \<and> (unique (flags s) \<or> unique (flags m)))"
proof -
  let ?i = "insert_info h (fst (kogmo_rtdb_timestamp_now db)) m"
  let ?db0 = "kogmo_rtdb_objmeta_lock (snd (kogmo_rtdb_timestamp_now db))"
  obtain slot m1 p db1 where s: "insert_slot h (fst (kogmo_rtdb_timestamp_now db)) ?i ?db0 = (slot, m1, p, db1)"
    by (metis prod_cases4)
  have st: "same_table db ?db0" "objmeta_free ?db0 = objmeta_free db"
    by (simp_all add: same_table_def ipc_defs)
  from insert_slot_cases [OF d s st] obtain b where o: "objmeta db1 = objmeta db" and m1: "m1 = ?i\<lparr>buffer_idx := b\<rparr>"
    by (auto simp: same_table_def)
  have u: "unique_loop h m1 db1 [0..<length (objmeta db)] = name_clash m1 (objmeta db)"
    by (rule unique_loop_table [OF t o])
  have e: "kogmo_rtdb_obj_insert h m db = insert_finish h (slot, m1, p, db1)"
    unfolding insert_unfold using a s by auto
  have "fst (insert_finish h (slot, m1, p, db1)) = Inl ERR_NOTUNIQ \<longleftrightarrow> name_clash m1 (objmeta db)"
    using u o by (auto simp: insert_commit_def Let_def split: option.splits)
  then show ?thesis
    unfolding e by (auto simp: name_clash_def search_match_live m1)
qed

theorem insert_notuniq_iff_witness:
  "fst (kogmo_rtdb_obj_insert ex_h (new_info\<lparr>name := name ex_obj, flags := ex_flags\<lparr>unique := True\<rparr>\<rparr>) ex_db)
    = Inl ERR_NOTUNIQ"
proof -
  let ?m = "new_info\<lparr>name := name ex_obj, flags := ex_flags\<lparr>unique := True\<rparr>\<rparr>"
  have c: "cstr ((name ?m)[NAME_MAXLEN - 1 := NUL]) \<noteq> []"
    "strncmp_eq NAME_MAXLEN ((name ?m)[NAME_MAXLEN - 1 := NUL]) (name ex_obj)" "otype ?m = 9"
    "size_max ?m = 32" "unique (flags ?m)"
    by code_simp+
  have "fst (kogmo_rtdb_obj_insert ex_h ?m ex_db) = Inl ERR_NOTUNIQ \<longleftrightarrow>
    (\<exists>s \<in> set (objmeta ex_db). live s \<and> (otype s = otype ?m \<or> otype ?m = 0)
       \<and> strncmp_eq NAME_MAXLEN ((name ?m)[NAME_MAXLEN - 1 := NUL]) (name s)
       \<and> (unique (flags s) \<or> unique (flags ?m)))"
    by (rule insert_notuniq_iff [OF ex_table_ok ex_frame_ok]) (use c in \<open>simp_all add: base_size_def\<close>)
  also have \<dots> using c by (intro bexI [of _ ex_obj]) (simp_all add: live_def)
  finally show ?thesis .
qed

text \<open>
  Insert never breaks the uniqueness of names: if no two live objects of a type share a
  name that one of them claims for itself, that is so afterwards, whatever insert returns.
\<close>
theorem insert_keeps_names:
  assumes "table_ok db" "objmeta_oid_next db < 2 ^ 31" "dsa_frame_ok (h_dsa h)" "names_ok (objmeta db)"
  shows "names_ok (objmeta (snd (snd (kogmo_rtdb_obj_insert h m db))))"
proof -
  obtain r m' db' where i: "kogmo_rtdb_obj_insert h m db = (r, m', db')" by (metis prod_cases3)
  from insert_names_ok [OF assms i] show ?thesis by (simp add: i)
qed

theorem insert_keeps_names_witness:
  "names_ok (objmeta (snd (snd (kogmo_rtdb_obj_insert ex_h new_info ex_db))))"
  by (rule insert_keeps_names [OF ex_table_ok _ ex_frame_ok ex_names_ok]) simp

text \<open>
  Insert keeps the memory safe, for every allocator that meets the contract: the ring of
  the new object is a block of its own, and those of the others are untouched.
\<close>
theorem insert_keeps_heap:
  assumes "heap_allocator (h_dsa h) I" "heap_ok I db" "table_ok db" "objmeta_oid_next db < 2 ^ 31"
    and "size_ok (insert_info h (fst (kogmo_rtdb_timestamp_now db)) m)"
    and "fst (kogmo_rtdb_obj_insert h m db) \<noteq> Inl ERR_NOTUNIQ"
  shows "heap_ok I (snd (snd (kogmo_rtdb_obj_insert h m db)))"
proof -
  obtain r m' db' where i: "kogmo_rtdb_obj_insert h m db = (r, m', db')" by (metis prod_cases3)
  from heap_allocator.insert_heap_ok [OF assms(1,3,4) refl assms(2,5) i] assms(6) show ?thesis by (simp add: i)
qed

theorem insert_keeps_heap_witness:
  "heap_ok static_inv (snd (snd (kogmo_rtdb_obj_insert ex_h new_info ex_db)))"
proof -
  have "heap_allocator (h_dsa ex_h) static_inv" using static.heap_allocator_axioms by simp
  moreover have "size_ok (insert_info ex_h 10000000000 new_info)"
    unfolding size_ok_def base_size_def by code_simp
  ultimately show ?thesis
    using insert_keeps_heap [of ex_h static_inv ex_db new_info] ex_heap_ok ex_table_ok by (simp add: ex_insert)
qed

section \<open>The locks of insert\<close>

lemma insert_memory_locks:
  assumes d: "dsa_frame_ok (h_dsa h)" and L: "Objmeta_lock \<notin> L" "Heap_lock \<notin> L"
    and i: "insert_memory h m db = (p, m', db')"
  shows "lock_step (insert Objmeta_lock L) db db' (insert Objmeta_lock L)"
proof (cases "size_max m = 0")
  case True with i show ?thesis by (auto simp: insert_memory_def intro: lock_step_same)
next
  case False
  let ?u = "kogmo_rtdb_objmeta_unlock db"
  obtain q db1 where a: "kogmo_rtdb_obj_mem_alloc h (block_size m) ?u = (q, db1)" by fastforce
  have "lock_step (insert Objmeta_lock L) db ?u L"
    unfolding kogmo_rtdb_objmeta_unlock_def using L by (intro lock_step_emit) simp
  also have "lock_step L ?u db1 L" by (rule mem_alloc_locks [OF d L(2) a])
  also have "lock_step L db1 (kogmo_rtdb_objmeta_lock db1) (insert Objmeta_lock L)"
    unfolding kogmo_rtdb_objmeta_lock_def using L by (intro lock_step_emit) simp
  also have "kogmo_rtdb_objmeta_lock db1 = db'" using i False a by (simp add: insert_memory_def Let_def)
  finally show ?thesis .
qed

lemma insert_slot_locks:
  assumes d: "dsa_frame_ok (h_dsa h)" and L: "Objmeta_lock \<notin> L" "Heap_lock \<notin> L"
    and i: "insert_slot h ts m db = (slot, m', p, db')"
  shows "lock_step (insert Objmeta_lock L) db db' (insert Objmeta_lock L)"
proof (cases "scan_first (reusable h db ts m) (objmeta db)")
  case (Some k) with i show ?thesis by (auto simp: insert_slot_def intro: lock_step_same)
next
  case None
  obtain q m1 db1 where im: "insert_memory h m db = (q, m1, db1)" by (metis prod_cases3)
  have "ipc_log db' = ipc_log db1"
    using i None im by (auto simp: insert_slot_def insert_alloc_def split: if_splits option.splits)
  with insert_memory_locks [OF d L im] show ?thesis by (rule lock_step_log)
qed

text \<open>The end of an insert gives the metadata lock back, unless there was no slot.\<close>

lemma insert_commit_locks:
  assumes c: "insert_commit h k m1 db1 = (r, m', db')" and n: "1 \<le> objmeta_oid_next db1" "objmeta_oid_next db1 < 2 ^ 31"
    and L: "Objmeta_lock \<notin> L"
  shows "r = Inr (objmeta_oid_next db1)" "lock_step (insert Objmeta_lock L) db1 db' L"
proof -
  have i: "int32 (objmeta_oid_next db1) = objmeta_oid_next db1"
    using n by (intro int32_id) (simp add: in_int32_def)
  then show "r = Inr (objmeta_oid_next db1)" using c n by (auto simp: insert_commit_def Let_def)
  define m2 where "m2 = (if parent_oid m1 = 0 \<and> objmeta_oid_next db1 > 1 then m1\<lparr>parent_oid := 1\<rparr> else m1)
      \<lparr>oid := objmeta_oid_next db1\<rparr>"
  define d2 where "d2 = upd_meta k m2 ((upd_meta k m1 db1)\<lparr>objmeta_oid_next := uint64 (objmeta_oid_next db1 + 1)\<rparr>)"
  have db': "db' = kogmo_rtdb_obj_trace_send (oid m2) (created_ts m2) TRACE_INSERTED None (- 1)
      (kogmo_rtdb_objmeta_unlock_notify d2)"
    using c i n by (auto simp: insert_commit_def Let_def d2_def m2_def)
  have d2: "ipc_log d2 = ipc_log db1" by (simp add: d2_def)
  have "lock_step (insert Objmeta_lock L) db1 (kogmo_rtdb_objmeta_unlock_notify d2) L"
    by (rule lock_step_emits [of _ "[Signal_objmeta, Unlock Objmeta_lock]"])
      (use L d2 in \<open>simp_all add: kogmo_rtdb_objmeta_unlock_notify_def\<close>)
  from lock_step_trans [OF this trace_send_locks] db' show "lock_step (insert Objmeta_lock L) db1 db' L" by simp
qed

lemma insert_finish_locks:
  assumes d: "dsa_frame_ok (h_dsa h)" and n: "1 \<le> objmeta_oid_next db1" "objmeta_oid_next db1 < 2 ^ 31"
    and L: "Objmeta_lock \<notin> L" "Heap_lock \<notin> L"
  shows "lock_step (insert Objmeta_lock L) db1 (snd (snd (insert_finish h (slot, m1, p, db1))))
      (if fst (insert_finish h (slot, m1, p, db1)) = Inl ERR_OUTOFOBJ then insert Objmeta_lock L else L)"
proof (cases "unique_loop h m1 db1 [0..<length (objmeta db1)]")
  case True
  let ?u = "kogmo_rtdb_objmeta_unlock db1"
  have u: "lock_step (insert Objmeta_lock L) db1 ?u L"
    unfolding kogmo_rtdb_objmeta_unlock_def using L by (intro lock_step_emit) simp
  from True lock_step_trans [OF u mem_free_locks [OF d L(2)]] u show ?thesis by (simp add: Let_def)
next
  case False
  show ?thesis
  proof (cases slot)
    case None with False show ?thesis by (simp add: lock_step_same)
  next
    case (Some k)
    obtain r m' db' where c: "insert_commit h k m1 db1 = (r, m', db')" by (metis prod_cases3)
    from insert_commit_locks [OF c n L(1)] False Some c show ?thesis by simp
  qed
qed

text \<open>
  The locks of an insert: it returns with the locks it was called with, except when it
  runs out of slots or memory, where it returns with the metadata lock still held.
\<close>
theorem insert_locks:
  assumes d: "dsa_frame_ok (h_dsa h)" and n: "1 \<le> objmeta_oid_next db" "objmeta_oid_next db < 2 ^ 31"
    and L: "Objmeta_lock \<notin> L" "Heap_lock \<notin> L"
  shows "locks_after L db (snd (snd (kogmo_rtdb_obj_insert h m db)))
    = Some (if fst (kogmo_rtdb_obj_insert h m db) = Inl ERR_OUTOFOBJ then insert Objmeta_lock L else L)"
proof -
  let ?now = "kogmo_rtdb_timestamp_now db"
  let ?i = "insert_info h (fst ?now) m" and ?db0 = "kogmo_rtdb_objmeta_lock (snd ?now)"
  obtain slot m1 p db1 where s: "insert_slot h (fst ?now) ?i ?db0 = (slot, m1, p, db1)" by (metis prod_cases4)
  have now: "lock_step L db (snd ?now) L" by (rule lock_step_same) simp
  have "lock_step L db ?db0 (insert Objmeta_lock L)"
    unfolding kogmo_rtdb_objmeta_lock_def using L by (intro lock_step_log1 [OF lock_step_emit]) simp_all
  from lock_step_trans [OF this insert_slot_locks [OF d L s]]
  have 1: "lock_step L db db1 (insert Objmeta_lock L)" .
  have st: "same_table db ?db0" "objmeta_free ?db0 = objmeta_free db" by (simp_all add: same_table_def ipc_defs)
  from insert_slot_cases [OF d s st] have nx: "objmeta_oid_next db1 = objmeta_oid_next db"
    by (simp add: same_table_def)
  note 2 = insert_finish_locks [OF d n [folded nx] L, of slot m1 p]
  show ?thesis
  proof (cases "(size_max m \<noteq> 0 \<and> size_max m < int base_size) \<or> cstr ((name m)[NAME_MAXLEN - 1 := NUL]) = []")
    case True
    then have "kogmo_rtdb_obj_insert h m db = (Inl ERR_INVALID, fst (snd (kogmo_rtdb_obj_insert h m db)), snd ?now)"
      unfolding insert_unfold by auto
    then have "fst (kogmo_rtdb_obj_insert h m db) = Inl ERR_INVALID"
      "snd (snd (kogmo_rtdb_obj_insert h m db)) = snd ?now" by (metis fst_conv snd_conv)+
    with lock_step_after [OF now] show ?thesis by simp
  next
    case False
    then have "kogmo_rtdb_obj_insert h m db = insert_finish h (slot, m1, p, db1)"
      unfolding insert_unfold using s by auto
    with lock_step_after [OF lock_step_trans [OF 1 2]] show ?thesis by simp
  qed
qed

definition ex_full :: rtdb where
  "ex_full = ex_db\<lparr>objmeta := [ex_root, ex_obj, ex_child], objmeta_free := 0\<rparr>"

theorem insert_locks_witness:
  "locks_after {} ex_db (snd (snd (kogmo_rtdb_obj_insert ex_h new_info ex_db))) = Some {}
  \<and> locks_after {} ex_full (snd (snd (kogmo_rtdb_obj_insert ex_h new_info ex_full))) = Some {Objmeta_lock}"
proof -
  have f: "fst (kogmo_rtdb_obj_insert ex_h new_info ex_full) = Inl ERR_OUTOFOBJ" by code_simp
  show ?thesis
    using insert_locks [OF ex_frame_ok, of ex_db "{}" new_info] insert_locks [OF ex_frame_ok, of ex_full "{}" new_info]
      ex_insert f by (simp add: ex_full_def)
qed

section \<open>Delete\<close>

text \<open>
  C16: Deleting ends: the recursion over depending objects, which may form a cycle, returns
  after at most as many levels as there are undeleted objects, for any object id but 0.
\<close>
theorem delete_ends:
  assumes "dsa_frame_ok (h_dsa h)" "oid m \<noteq> 0" "clock_ok db" "undeleted_count db < fuel"
  shows "kogmo_rtdb_obj_delete fuel h m db \<noteq> None"
  using delete_returns [OF assms] by (auto simp: kogmo_rtdb_obj_delete_def)

theorem delete_ends_witness: "kogmo_rtdb_obj_delete 4 ex_h ex_obj ex_db \<noteq> None"
  by (rule delete_ends [OF ex_frame_ok _ ex_clock_ok]) (simp_all add: undeleted_count_def undeleted_def)

text \<open>
  C2: What a successful delete deletes: the object itself and, transitively, every live
  object that names it as parent, asks to be deleted with its parent and may be deleted by this
  process; and no other slot of the table changes.
\<close>
theorem delete_cascade:
  assumes d: "kogmo_rtdb_obj_delete fuel h m db = Some (Inr 0, m', db')" "oid m \<noteq> 0" "delete_pre h db"
  shows "\<exists>k < length (objmeta db). oid (objmeta db ! k) = oid m
    \<and> (\<forall>j < length (objmeta db). (dependents h db k j \<longrightarrow> \<not> undeleted (objmeta db' ! j))
         \<and> (\<not> dependents h db k j \<longrightarrow> objmeta db' ! j = objmeta db ! j))"
proof -
  note d' = d(1) [unfolded kogmo_rtdb_obj_delete_def]
  note A = delete_cascade_aux [OF d' d(2,3)] and O = delete_only_aux [OF d' d(2,3)]
  from A obtain k where k: "k < length (objmeta db)" "oid (objmeta db ! k) = oid m"
    "\<not> undeleted (objmeta db' ! k)"
    "\<And>j. j < length (objmeta db) \<Longrightarrow> dep_child h (objmeta db ! k) (objmeta db ! j) \<Longrightarrow> \<not> undeleted (objmeta db' ! j)"
    by auto
  have c: "cascaded h db db'" using A by simp
  have "l = k" if "l < length (objmeta db)" "oid (objmeta db ! l) = oid m" for l
    using d(2,3) that k(1,2) by (auto simp: delete_pre_def unique_keys_def)
  then have "objmeta db' ! j = objmeta db ! j" if "j < length (objmeta db)" "\<not> dependents h db k j" for j
    using O that by (auto simp: only_dependents_def)
  with k delete_reaches [OF c k(1) k(4,3)] show ?thesis by blast
qed

lemma ex_delete: "map_option fst (kogmo_rtdb_obj_delete 4 ex_h ex_obj ex_db) = Some (Inr 0)"
  by code_simp

lemma ex_delete_pre: "delete_pre ex_h ex_db"
proof -
  have "length (children i ex_db) \<le> 4" for i
    using length_filter_le [of "\<lambda>s. live s \<and> parent_oid s = i" "objmeta ex_db"] by (simp add: children_def)
  then have "few_children ex_db" unfolding few_children_def OBJIDLIST_MAX_def by (meson le_less_trans numeral_less_iff semiring_norm(76,78,80))
  then show ?thesis using ex_table_ok ex_plain_names ex_clock_ok static_frame_ok
    by (simp add: delete_pre_def table_ok_def)
qed

theorem delete_cascade_witness:
  "\<exists>m' db'. kogmo_rtdb_obj_delete 4 ex_h ex_obj ex_db = Some (Inr 0, m', db')
    \<and> \<not> undeleted (objmeta db' ! 2) \<and> objmeta db' ! 0 = ex_root"
proof -
  obtain m' db' where e: "kogmo_rtdb_obj_delete 4 ex_h ex_obj ex_db = Some (Inr 0, m', db')"
    using ex_delete by (metis (no_types, lifting) map_option_eq_Some prod.collapse)
  have l: "length (objmeta ex_db) = 4" by simp
  have o: "oid ex_obj \<noteq> 0" by simp
  from delete_cascade [OF e o ex_delete_pre, unfolded l] obtain k where k: "k < 4" "oid (objmeta ex_db ! k) = 2"
    "\<And>j. j < 4 \<Longrightarrow> dependents ex_h ex_db k j \<Longrightarrow> \<not> undeleted (objmeta db' ! j)"
    "\<And>j. j < 4 \<Longrightarrow> \<not> dependents ex_h ex_db k j \<Longrightarrow> objmeta db' ! j = objmeta ex_db ! j" by (metis ex_fields(2))
  have k1: "k = 1"
  proof -
    have "k \<in> {0, 1, 2, 3}" using k(1) by auto
    with k(2) show ?thesis by (elim insertE emptyE) simp_all
  qed
  have "depends ex_h ex_db 1 2" by (simp add: depends_def dep_child_def live_def)
  then have 2: "dependents ex_h ex_db k 2" using k1 by blast
  have "\<not> depends ex_h ex_db i 0" for i by (simp add: depends_def dep_child_def)
  then have "\<not> dependents ex_h ex_db k 0" using k1 by (metis rtranclp.cases zero_neq_one)
  with e k(3) [OF _ 2] k(4) [of 0] show ?thesis by simp
qed

text \<open>
  C11: Delete keeps the table well formed and the memory safe: ids stay unique, the number of
  free slots stays right, and the rings of the remaining objects are untouched, separate blocks,
  for every allocator that meets the contract.
\<close>
theorem delete_keeps_table:
  assumes "kogmo_rtdb_obj_delete fuel h m db = Some (r, m', db')" "oid m \<noteq> 0"
    and "heap_allocator (h_dsa h) I" "table_ok db" "heap_ok I db"
  shows "table_ok db' \<and> heap_ok I db'"
proof
  have s: "storage (h_dsa h)" using assms(3) by (simp add: heap_allocator_def)
  note d = assms(1) [unfolded kogmo_rtdb_obj_delete_def]
  show "table_ok db'" using del_table.delete_rel [OF d assms(2)] storage.frame_ok [OF s] assms(4) by simp
  show "heap_ok I db'" by (rule heap_allocator.delete_heap_ok [OF assms(3) d assms(2) refl assms(5)])
qed

theorem delete_keeps_table_witness:
  "\<exists>m' db'. kogmo_rtdb_obj_delete 4 ex_h ex_obj ex_db = Some (Inr 0, m', db') \<and> table_ok db' \<and> heap_ok static_inv db'"
proof -
  obtain m' db' where e: "kogmo_rtdb_obj_delete 4 ex_h ex_obj ex_db = Some (Inr 0, m', db')"
    using ex_delete by (metis (no_types, lifting) map_option_eq_Some prod.collapse)
  have "heap_allocator (h_dsa ex_h) static_inv" using static.heap_allocator_axioms by simp
  from delete_keeps_table [OF e _ this ex_table_ok ex_heap_ok] e show ?thesis by simp
qed

text \<open>
  Delete gives back every lock it takes, on every path and through the whole cascade, and
  takes none twice.
\<close>
theorem delete_balances_locks:
  assumes "kogmo_rtdb_obj_delete fuel h m db = Some (r, m', db')" "oid m \<noteq> 0"
    and "dsa_frame_ok (h_dsa h)" "Objmeta_lock \<notin> L" "Heap_lock \<notin> L" "\<And>k. Changenotify_lock k \<notin> L"
  shows "locks_after L db db' = Some L"
proof -
  have "L \<inter> delete_locks = {}" using assms(4-6) by (auto simp: delete_locks_def)
  with del_locks.delete_rel [OF assms(1) [unfolded kogmo_rtdb_obj_delete_def] assms(2)] assms(3)
  show ?thesis by (auto intro: lock_step_after)
qed

theorem delete_balances_locks_witness:
  "\<exists>m' db'. kogmo_rtdb_obj_delete 4 ex_h ex_obj ex_db = Some (Inr 0, m', db') \<and> locks_after {} ex_db db' = Some {}"
proof -
  obtain m' db' where e: "kogmo_rtdb_obj_delete 4 ex_h ex_obj ex_db = Some (Inr 0, m', db')"
    using ex_delete by (metis (no_types, lifting) map_option_eq_Some prod.collapse)
  from delete_balances_locks [OF e _ ex_frame_ok, of "{}"] e show ?thesis by simp
qed

text \<open>
  Who may delete: deleting fails with not-found for an unknown id or an object already
  deleted, with no-permission for a process that is neither the creator nor an administrator of a
  protected object, and then neither table nor heap changes; otherwise it succeeds.
\<close>
theorem delete_errors:
  assumes d: "kogmo_rtdb_obj_delete fuel h m db = Some (r, m', db')"
  shows "r = (case kogmo_rtdb_obj_findmeta_byid (oid m) db of
       None \<Rightarrow> Inl ERR_NOTFOUND
     | Some k \<Rightarrow>
         if \<not> may_delete h (objmeta db ! k) then Inl ERR_NOPERM
         else if deleted_ts (objmeta db ! k) \<noteq> 0 \<and> \<not> immediately_delete (flags (objmeta db ! k))
         then Inl ERR_NOTFOUND else Inr 0)
    \<and> (r \<noteq> Inr 0 \<longrightarrow> objmeta db' = objmeta db \<and> heap db' = heap db)"
proof -
  obtain f where f: "fuel = Suc f" using d by (cases fuel) (auto simp: kogmo_rtdb_obj_delete_def)
  note d' = d [unfolded kogmo_rtdb_obj_delete_def f]
  show ?thesis
  proof (cases "kogmo_rtdb_obj_findmeta_byid (oid m) db")
    case None
    then have "r = Inl ERR_NOTFOUND" "db' = kogmo_rtdb_objmeta_unlock (kogmo_rtdb_objmeta_lock db)"
      using d' by (auto simp: Let_def)
    with None show ?thesis by (simp add: ipc_defs)
  next
    case (Some k)
    show ?thesis
    proof (cases "delete_check h (objmeta db ! k) False")
      case (Some e)
      then have "r = Inl e" "db' = kogmo_rtdb_objmeta_unlock (kogmo_rtdb_objmeta_lock db)"
        using d' \<open>_ = Some k\<close> by (auto simp: Let_def)
      with Some \<open>kogmo_rtdb_obj_findmeta_byid _ _ = Some k\<close> show ?thesis
        by (auto simp: delete_check_def may_delete_def ipc_defs split: if_splits)
    next
      case None
      with d' Some have "r = Inr 0" by (auto simp: Let_def split_beta)
      with None Some show ?thesis by (auto simp: delete_check_None)
    qed
  qed
qed

theorem delete_errors_witness:
  "\<exists>m' db'. kogmo_rtdb_obj_delete 4 (ex_h\<lparr>h_proc_oid := 8\<rparr>) ex_obj ex_db = Some (Inl ERR_NOPERM, m', db')
    \<and> objmeta db' = objmeta ex_db"
proof -
  let ?h = "ex_h\<lparr>h_proc_oid := 8\<rparr>"
  have "kogmo_rtdb_obj_delete 4 ?h ex_obj ex_db \<noteq> None" by code_simp
  then obtain r m' db' where e: "kogmo_rtdb_obj_delete 4 ?h ex_obj ex_db = Some (r, m', db')"
    by (metis not_None_eq prod_cases3)
  have "\<not> may_delete ?h ex_obj" by (simp add: may_delete_def this_process_is_admin_def)
  with delete_errors [OF e] e show ?thesis by simp
qed

section \<open>Search\<close>



text \<open>
  The list of objects: with a result array, a search returns the number of matching objects,
  the array holds their ids in slot order, up to its capacity, and a zero behind the last one.
\<close>
theorem search_returns_list:
  assumes q: "parse_name h nm ot = Query rx ot'" and l: "length l = Suc OBJIDLIST_MAX"
    and M: "M = filter (search_match rx ot' parent proc ts False) (objmeta db)" "M \<noteq> []" "length M < OBJIDLIST_MAX"
  shows "\<exists>l' db'. kogmo_rtdb_obj_searchinfo h nm ot parent proc ts (Some l) 0 db
      = (Inr (int (length M)), Some l', db')
    \<and> take (length M) l' = map oid M \<and> l' ! length M = 0"
proof -
  have m: "M = matching rx ot' parent proc ts False db" using M(1) by (simp add: matching_def)
  from search_list [OF q l m M(2), of False] obtain l' db' where
    s: "kogmo_rtdb_obj_searchinfo_internal h nm ot parent proc ts (Some l) 0 False False db
      = (Inr (int (length M)), Some l', db')"
      "take (min (length M) (OBJIDLIST_MAX - 1)) l' = map oid (take (OBJIDLIST_MAX - 1) M)"
      "l' ! min (length M) OBJIDLIST_MAX = 0" by blast
  have "length M \<le> OBJIDLIST_MAX - 1" using M(3) by simp
  with s M(3) show ?thesis by (intro exI [of _ l'] exI [of _ db'])
    (simp add: kogmo_rtdb_obj_searchinfo_def min_absorb1)
qed

theorem search_returns_list_witness:
  "\<exists>l' db'. kogmo_rtdb_obj_searchinfo ex_h None 0 2 0 0 (Some (replicate (Suc OBJIDLIST_MAX) 5)) 0 ex_db
      = (Inr 1, Some l', db') \<and> take 1 l' = [3] \<and> l' ! 1 = 0"
proof -
  have q: "parse_name ex_h None 0 = Query (\<lambda>_. True) 0" by (simp add: parse_name_def)
  have M: "[ex_child] = filter (search_match (\<lambda>_. True) 0 2 0 0 False) (objmeta ex_db)"
    by (simp add: search_match_def)
  show ?thesis
    using search_returns_list [OF q _ M, of "replicate (Suc OBJIDLIST_MAX) 5"] by (simp add: OBJIDLIST_MAX_def)
qed

text \<open>
  Reading metadata returns the object's slot when the object exists at the time asked for:
  created at or before it and not deleted before it; time zero means now. It changes nothing.
\<close>
theorem readinfo_visible:
  "fst (kogmo_rtdb_obj_readinfo h i ts buf db) = (case kogmo_rtdb_obj_findmeta_byid i db of
      None \<Rightarrow> Inl ERR_NOTFOUND
    | Some k \<Rightarrow>
        let m = objmeta db ! k
        in if (ts = 0 \<or> created_ts m \<le> ts) \<and> (deleted_ts m = 0 \<or> (ts \<noteq> 0 \<and> ts \<le> deleted_ts m))
           then Inr 0 else Inl ERR_NOTFOUND)
    \<and> fst (snd (kogmo_rtdb_obj_readinfo h i ts buf db)) =
      (if fst (kogmo_rtdb_obj_readinfo h i ts buf db) = Inr 0
       then objmeta db ! the (kogmo_rtdb_obj_findmeta_byid i db) else buf)
    \<and> objmeta (snd (snd (kogmo_rtdb_obj_readinfo h i ts buf db))) = objmeta db"
  by (auto simp: kogmo_rtdb_obj_readinfo_def Let_def split: option.split)

text \<open>
  Changing metadata is for administrators only; it changes the one slot, and there only the
  modification stamp and the fields for which a value is given.
\<close>
theorem changeinfo_admin_only:
  "fst (kogmo_rtdb_obj_changeinfo h i m db) =
      (if \<not> this_process_is_admin h then Inl ERR_NOPERM
       else case kogmo_rtdb_obj_findmeta_byid i db of None \<Rightarrow> Inl ERR_NOTFOUND | Some k \<Rightarrow> Inr i)
    \<and> objmeta (snd (snd (kogmo_rtdb_obj_changeinfo h i m db))) =
      (if this_process_is_admin h then
         (case kogmo_rtdb_obj_findmeta_byid i db of None \<Rightarrow> objmeta db
          | Some k \<Rightarrow> (objmeta db)[k := changed_info h (fst (kogmo_rtdb_timestamp_now db))
               (m\<lparr>name := (name m)[NAME_MAXLEN - 1 := NUL]\<rparr>) (objmeta db ! k)])
       else objmeta db)"
proof (cases "kogmo_rtdb_obj_findmeta_byid i db")
  case None
  then show ?thesis by (simp add: kogmo_rtdb_obj_changeinfo_def Let_def split_beta)
next
  case (Some k)
  then have "oid (objmeta db ! k) = i" by (auto simp: kogmo_rtdb_obj_findmeta_byid_def scan_first_Some)
  with Some show ?thesis
    by (simp add: kogmo_rtdb_obj_changeinfo_def Let_def split_beta changed_info_def
        kogmo_rtdb_objmeta_unlock_notify_def)
qed

end
