(* ===== verification/Objdata_Props.thy ===== *)
theory Objdata_Props
  imports Sample_State Heap_Safety
begin

text \<open>
  The properties of the data operations: refinement of the bounded history, the six ways of
  reading it, isolation, errors, locks, and a read that does not end.
\<close>

section \<open>The sample object after one commit\<close>

definition ex_db1 :: rtdb where
  "ex_db1 = snd (snd (kogmo_rtdb_obj_writedata ex_h 2 ex_data ex_db))"

lemma ex_write_result: "fst (kogmo_rtdb_obj_writedata ex_h 2 ex_data ex_db) = Inr 0"
  by (simp add: writedata_result Let_def too_fast_def base_size_def)

lemma ex_write: "kogmo_rtdb_obj_writedata ex_h 2 ex_data ex_db
    = (Inr 0, fst (snd (kogmo_rtdb_obj_writedata ex_h 2 ex_data ex_db)), ex_db1)"
  using ex_write_result by (simp add: ex_db1_def prod_eq_iff)

lemma ex_commit_time: "commit_time ex_db ex_obj = 10000000000"
  by (simp add: commit_time_def commit_ts_def m_committed_ts_def)

lemma ex_data_len: "b_size ex_data \<le> int (length ex_data)"
  by simp

lemmas ex_write_facts =
  writedata_history [OF ex_write ex_find(2) ex_obj_ok ex_time_ok ex_data_len]
  writedata_db [OF ex_write ex_find(2)]

definition ex_entry :: "byte list" where
  "ex_entry = committed 10000000000 (commit_bytes ex_h ex_data)"

lemma ex_db1_objmeta: "objmeta ex_db1 = [ex_root, advanced ex_obj, ex_child, zero_info]"
  using ex_write_facts(5) by (simp add: base_size_def)

lemma ex_db1_facts [simp]:
  "obj_history ex_db1 1 = [ex_entry]" "obj_ok ex_db1 1" "0 \<le> history_slot (objmeta ex_db1 ! 1)"
  "kogmo_rtdb_obj_findmeta_byid 2 ex_db1 = Some 1"
proof -
  show "obj_history ex_db1 1 = [ex_entry]"
    using ex_write_facts(1) by (simp add: obj_history_def history_def ex_entry_def ex_commit_time)
  show "obj_ok ex_db1 1" "0 \<le> history_slot (objmeta ex_db1 ! 1)" by (rule ex_write_facts)+
  show "kogmo_rtdb_obj_findmeta_byid 2 ex_db1 = Some 1"
    by (simp add: kogmo_rtdb_obj_findmeta_byid_def ex_db1_objmeta)
qed

lemma ex_entry_ts: "b_committed_ts ex_entry = 10000000000"
proof -
  have "base_size \<le> length (commit_bytes ex_h ex_data)"
    using commit_bytes_fields(1) [of ex_data ex_h] by (simp add: base_size_def)
  from committed_fields(1) [OF this, of 10000000000] show ?thesis by (simp add: ex_entry_def in_int64_def)
qed

section \<open>Commit and read\<close>

text \<open>
  C1: A commit refines the abstract history: when \<open>kogmo_rtdb_obj_writedata\<close> succeeds, the
  object's history is the old one with the committed entry in front, cut to
  \<open>history_size\<close> entries; when it fails, the history is unchanged.
\<close>
theorem commit_refines_history:
  assumes k: "kogmo_rtdb_obj_findmeta_byid i db = Some k" and ok: "obj_ok db k"
    and t: "time_ok (fst (kogmo_rtdb_timestamp_now db))" and l: "b_size data \<le> int (length data)"
  shows "obj_history (snd (snd (kogmo_rtdb_obj_writedata h i data db))) k =
    (case fst (kogmo_rtdb_obj_writedata h i data db) of
       Inl e \<Rightarrow> obj_history db k
     | Inr v \<Rightarrow> take (nat (history_size (objmeta db ! k)))
         (committed (commit_time db (objmeta db ! k)) (commit_bytes h data) # obj_history db k))"
proof -
  obtain r data' db' where w: "kogmo_rtdb_obj_writedata h i data db = (r, data', db')" by (metis prod_cases3)
  show ?thesis
  proof (cases r)
    case (Inl e)
    with writedata_error [of h i data db e data' db'] w show ?thesis by (simp add: obj_history_def)
  next
    case (Inr v)
    with writedata_history(1) [OF _ k ok t l, of h v data' db'] w show ?thesis by simp
  qed
qed

theorem commit_refines_history_witness:
  "obj_history (snd (snd (kogmo_rtdb_obj_writedata ex_h 2 ex_data ex_db))) 1 = [ex_entry]"
  using commit_refines_history [OF ex_find(2) ex_obj_ok ex_time_ok ex_data_len, of ex_h]
  by (simp add: ex_write_result obj_history_def history_def ex_entry_def ex_commit_time)

text \<open>
  A commit leaves the object well formed: the ring position stays in range, the ring stays
  inside its block, and every readable entry has a size the block can hold.
\<close>
theorem commit_keeps_ring:
  assumes k: "kogmo_rtdb_obj_findmeta_byid i db = Some k" and ok: "obj_ok db k"
    and t: "time_ok (fst (kogmo_rtdb_timestamp_now db))" and l: "b_size data \<le> int (length data)"
  shows "obj_ok (snd (snd (kogmo_rtdb_obj_writedata h i data db))) k"
proof -
  obtain r data' db' where w: "kogmo_rtdb_obj_writedata h i data db = (r, data', db')" by (metis prod_cases3)
  show ?thesis
  proof (cases r)
    case (Inl e)
    with writedata_error [of h i data db e data' db'] w ok show ?thesis by (simp add: obj_ok_def)
  next
    case (Inr v)
    with writedata_history(2) [OF _ k ok t l, of h v data' db'] w show ?thesis by simp
  qed
qed

theorem commit_keeps_ring_witness:
  "obj_ok (snd (snd (kogmo_rtdb_obj_writedata ex_h 2 ex_data ex_db))) 1"
  using commit_keeps_ring [OF ex_find(2) ex_obj_ok ex_time_ok ex_data_len, of ex_h] .



text \<open>
  What was committed last is what is read: after a successful commit, reading the latest
  data returns the size and the payload of the committed data, the writer as committing
  process, the commit's time stamp, and the writer's data time if it gave one.
\<close>
theorem commit_then_read:
  assumes k: "kogmo_rtdb_obj_findmeta_byid i db = Some k" and ok: "obj_ok db k"
    and t: "time_ok (fst (kogmo_rtdb_timestamp_now db))" and l: "b_size data \<le> int (length data)"
    and w: "fst (kogmo_rtdb_obj_writedata h i data db) = Inr 0"
    and r: "may_read h2 (objmeta db ! k)" "\<not> withhold_stale (flags (objmeta db ! k))"
      "deleted_ts (objmeta db ! k) = 0" "in_int32 (h_proc_oid h)"
    and f: "nat (history_size (objmeta db ! k)) \<le> fuel" "size_max (objmeta db ! k) \<le> sz"
  shows "\<exists>e. kogmo_rtdb_obj_readdata fuel h2 i 0 [] sz (snd (snd (kogmo_rtdb_obj_writedata h i data db)))
      = Some (Inr (b_size data), e, snd (snd (kogmo_rtdb_obj_writedata h i data db)))
    \<and> int (length e) = b_size data \<and> b_payload e = b_payload (take (nat (b_size data)) data)
    \<and> b_committed_proc e = h_proc_oid h \<and> b_committed_ts e = commit_time db (objmeta db ! k)
    \<and> b_data_ts e = (if b_data_ts data = 0 then commit_time db (objmeta db ! k) else b_data_ts data)"
proof -
  let ?m = "objmeta db ! k"
  obtain data' db' where W: "kogmo_rtdb_obj_writedata h i data db = (Inr 0, data', db')"
    using w by (metis prod.collapse)
  note O = writedata_ok [OF W k] and H = writedata_history [OF W k ok t l]
  have kl: "k < length (objmeta db)" using k by (auto simp: kogmo_rtdb_obj_findmeta_byid_def)
  have bl: "base_size \<le> length data" using O(5) l by simp
  have m': "objmeta db' ! k = advanced ?m" using writedata_db(1) [OF W k bl] kl by simp
  have k': "kogmo_rtdb_obj_findmeta_byid i db' = Some k"
  proof -
    have "map oid (objmeta db') = map oid (objmeta db)"
      using writedata_db(1) [OF W k bl] kl by (simp add: map_update list_update_same_conv)
    then have "scan_first (\<lambda>x. x = i) (map oid (objmeta db')) = scan_first (\<lambda>x. x = i) (map oid (objmeta db))"
      by simp
    moreover have "scan_first (\<lambda>x. x = i) (map oid xs) = scan_first (\<lambda>m. oid m = i) xs" for xs :: "obj_info list"
      by (induction xs) simp_all
    ultimately show ?thesis using k by (simp add: kogmo_rtdb_obj_findmeta_byid_def)
  qed
  let ?c = "committed (commit_time db ?m) (commit_bytes h data)"
  have cap: "0 < nat (history_size ?m)" using ok ring_okD(2) [of ?m] by (simp add: obj_ok_def)
  have hd: "obj_history db' k \<noteq> []" "hd (obj_history db' k) = ?c"
    using H(1) cap by (cases "nat (history_size ?m)"; simp)+
  note C = commit_bytes_fields [OF O(5) l, of h]
  have lb: "base_size \<le> length (commit_bytes h data)" using C(1) O(5) by simp
  have t64: "in_int64 (commit_time db ?m)" using commit_time_ok [OF t, of ?m] by (simp add: in_int64_def)
  note F = committed_fields [OF lb t64]
  have len: "int (length ?c) = b_size data" using C(1) lb O(5) by simp
  have "kogmo_rtdb_obj_readdata_mode fuel h2 RTDBSEL_LAST i 0 [] sz db' = Some (Inr (int (length ?c)), ?c, db')"
    using readdata_history [OF k', of h2 fuel sz RTDBSEL_LAST 0 "[]"] O(2) H(2,3) r f hd
    by (simp add: m' invalid_ts_def pick_def may_read_def advanced_def)
  with W F C r(4) len show ?thesis
    by (intro exI [of _ ?c]) (simp add: kogmo_rtdb_obj_readdata_def invalid_ts_def)
qed

theorem commit_then_read_witness:
  "\<exists>e. kogmo_rtdb_obj_readdata 3 ex_h 2 0 [] 32 ex_db1 = Some (Inr 28, e, ex_db1) \<and> b_committed_proc e = 7"
  using commit_then_read [OF ex_find(2) ex_obj_ok ex_time_ok ex_data_len ex_write_result, of ex_h 3 32]
  by (auto simp: in_int32_def ex_db1_def)

section \<open>What a sequence of writes does\<close>

text \<open>A process writes one after the other, whatever the results.\<close>

definition write_all :: "handle \<Rightarrow> int \<Rightarrow> byte list list \<Rightarrow> rtdb \<Rightarrow> rtdb" where
  "write_all h i ds db = fold (\<lambda>d db. snd (snd (kogmo_rtdb_obj_writedata h i d db))) ds db"

text \<open>Every time stamp the database takes from now on fits the ring.\<close>

definition times_ok :: "rtdb \<Rightarrow> bool" where
  "times_ok db \<longleftrightarrow> (simmode db \<and> time_ok (sim_ts db)) \<or> (\<not> simmode db \<and> (\<forall>t. time_ok (kogmo_timestamp_now (clock db t))))"

lemma times_ok_now: "times_ok db \<Longrightarrow> time_ok (fst (kogmo_rtdb_timestamp_now db))"
  by (auto simp: times_ok_def kogmo_rtdb_timestamp_now_def time_ok_def)

lemma writedata_env:
  assumes "kogmo_rtdb_obj_findmeta_byid i db = Some k" "b_size data \<le> int (length data)"
    "kogmo_rtdb_obj_writedata h i data db = (r, data', db')"
  shows "times_ok db' = times_ok db" "kogmo_rtdb_obj_findmeta_byid i db' = Some k"
    "history_size (objmeta db' ! k) = history_size (objmeta db ! k)"
    "flags (objmeta db' ! k) = flags (objmeta db ! k)"
proof -
  have kl: "k < length (objmeta db)" "oid (objmeta db ! k) = i"
    using assms(1) by (auto simp: kogmo_rtdb_obj_findmeta_byid_def scan_first_Some)
  have "times_ok db' = times_ok db \<and> kogmo_rtdb_obj_findmeta_byid i db' = Some k
    \<and> history_size (objmeta db' ! k) = history_size (objmeta db ! k)
    \<and> flags (objmeta db' ! k) = flags (objmeta db ! k)"
  proof (cases r)
    case (Inl e)
    with assms(3) have w: "kogmo_rtdb_obj_writedata h i data db = (Inl e, data', db')" by simp
    have "clock db' = clock db \<and> simmode db' = simmode db \<and> sim_ts db' = sim_ts db"
      using w unfolding writedata_unfold [OF assms(1)]
      by (auto simp: ipc_defs split: option.splits if_splits prod.splits)
    then show ?thesis
      using writedata_error(1) [OF w] assms(1) by (simp add: times_ok_def kogmo_rtdb_obj_findmeta_byid_def)
  next
    case (Inr v)
    with assms(3) have w: "kogmo_rtdb_obj_writedata h i data db = (Inr v, data', db')" by simp
    have l: "base_size \<le> length data" using writedata_ok(5) [OF w assms(1)] assms(2) by simp
    note D = writedata_db [OF w assms(1) l]
    have "kogmo_rtdb_obj_findmeta_byid i db' = Some k"
      using assms(1) kl unfolding kogmo_rtdb_obj_findmeta_byid_def D(1) scan_first_Some
      by (auto simp: nth_list_update)
    then show ?thesis using D(1,9-11) kl by (simp add: times_ok_def)
  qed
  then show "times_ok db' = times_ok db" "kogmo_rtdb_obj_findmeta_byid i db' = Some k"
    "history_size (objmeta db' ! k) = history_size (objmeta db ! k)"
    "flags (objmeta db' ! k) = flags (objmeta db ! k)" by simp_all
qed

lemma write_step:
  assumes k: "kogmo_rtdb_obj_findmeta_byid i db = Some k" and ok: "obj_ok db k" and t: "times_ok db"
    and l: "b_size data \<le> int (length data)" and w: "kogmo_rtdb_obj_writedata h i data db = (r, data', db')"
  shows "obj_ok db' k \<and> (\<exists>es. length es \<le> 1
    \<and> obj_history db' k = take (nat (history_size (objmeta db ! k))) (es @ obj_history db k))"
proof (cases r)
  case (Inl e)
  with w have w': "kogmo_rtdb_obj_writedata h i data db = (Inl e, data', db')" by simp
  have "length (obj_history db k) \<le> nat (history_size (objmeta db ! k))"
    using ring.entries_le [of "(heap db, objmeta db ! k)"] ok
    by (simp add: ring_inv_def obj_ok_def obj_history_def)
  with writedata_error(1,2) [OF w'] ok show ?thesis
    by (intro conjI exI [of _ "[]"]) (simp_all add: obj_ok_def obj_history_def)
next
  case (Inr v)
  with w have w': "kogmo_rtdb_obj_writedata h i data db = (Inr v, data', db')" by simp
  note H = writedata_history(1,2) [OF w' k ok times_ok_now [OF t] l]
  show ?thesis
    using H by (intro conjI exI [of _ "[committed (commit_time db (objmeta db ! k)) (commit_bytes h data)]"]) simp_all
qed

lemma write_all_history:
  assumes "kogmo_rtdb_obj_findmeta_byid i db = Some k" "obj_ok db k" "times_ok db"
    "\<forall>d \<in> set ds. b_size d \<le> int (length d)"
  shows "obj_ok (write_all h i ds db) k \<and> (\<exists>es. length es \<le> length ds \<and> obj_history (write_all h i ds db) k
    = take (nat (history_size (objmeta db ! k))) (es @ obj_history db k))"
  using assms
proof (induction ds arbitrary: db)
  case Nil
  have "length (obj_history db k) \<le> nat (history_size (objmeta db ! k))"
    using ring.entries_le [of "(heap db, objmeta db ! k)"] Nil.prems(2)
    by (simp add: ring_inv_def obj_ok_def obj_history_def)
  with Nil.prems show ?case by (simp add: write_all_def)
next
  case (Cons d ds)
  obtain r d' db' where w: "kogmo_rtdb_obj_writedata h i d db = (r, d', db')" by (metis prod_cases3)
  have l: "b_size d \<le> int (length d)" using Cons.prems(4) by simp
  note E = writedata_env [OF Cons.prems(1) l w]
  from write_step [OF Cons.prems(1-3) l w] obtain es1 where
    1: "obj_ok db' k" "length es1 \<le> 1"
      "obj_history db' k = take (nat (history_size (objmeta db ! k))) (es1 @ obj_history db k)" by blast
  from Cons.IH [OF E(2) 1(1)] E(1) Cons.prems(3,4) obtain es2 where
    2: "obj_ok (write_all h i ds db') k" "length es2 \<le> length ds" "obj_history (write_all h i ds db') k
      = take (nat (history_size (objmeta db' ! k))) (es2 @ obj_history db' k)" by auto
  have a: "write_all h i (d # ds) db = write_all h i ds db'" by (simp add: write_all_def w)
  have "take n (es2 @ take n (es1 @ xs)) = take n ((es2 @ es1) @ xs)" for n :: nat and xs
    by (cases "length es1 \<le> n") (simp_all add: min_def)
  with 1 2 E(3) show ?case unfolding a by (intro conjI exI [of _ "es2 @ es1"]) simp_all
qed

text \<open>
  C12: A committed entry stays readable: the entry that is \<open>n\<close> commits old is still in the
  history, with the same bytes, after \<open>w\<close> further write attempts, as long as \<open>n + w\<close> is below
  \<open>history_size\<close>; it is then at most \<open>w\<close> places further back.
\<close>
theorem entry_survives:
  assumes "kogmo_rtdb_obj_findmeta_byid i db = Some k" "obj_ok db k" "times_ok db"
    and "\<forall>d \<in> set ds. b_size d \<le> int (length d)"
    and n: "n < length (obj_history db k)" "int (n + length ds) < history_size (objmeta db ! k)"
  shows "\<exists>w \<le> length ds. n + w < length (obj_history (write_all h i ds db) k)
    \<and> obj_history (write_all h i ds db) k ! (n + w) = obj_history db k ! n"
proof -
  from write_all_history [OF assms(1-4)] obtain es where e: "length es \<le> length ds"
    "obj_history (write_all h i ds db) k = take (nat (history_size (objmeta db ! k))) (es @ obj_history db k)"
    by blast
  then have "n + length es < nat (history_size (objmeta db ! k))" using n(2) by linarith
  with e n(1) show ?thesis by (intro exI [of _ "length es"]) (simp add: nth_append)
qed

theorem entry_survives_witness:
  "\<exists>w \<le> 2. 0 + w < length (obj_history (write_all ex_h 2 [ex_data, ex_data] ex_db1) 1)
    \<and> obj_history (write_all ex_h 2 [ex_data, ex_data] ex_db1) 1 ! (0 + w) = ex_entry"
proof -
  have t: "times_ok ex_db1"
    using writedata_env(1) [OF ex_find(2) ex_data_len ex_write]
    by (simp add: times_ok_def time_ok_def kogmo_timestamp_now_def TICKSPERSECOND_def in_int64_def)
  show ?thesis
    using entry_survives [of 2 ex_db1 1 "[ex_data, ex_data]" 0 ex_h] t ex_db1_facts [unfolded One_nat_def]
    by (simp add: ex_db1_objmeta numeral_2_eq_2)
qed

section \<open>Time\<close>

definition newest_first :: "byte list list \<Rightarrow> bool" where
  "newest_first xs \<longleftrightarrow> sorted_wrt (\<lambda>a b. b_committed_ts b \<le> b_committed_ts a) xs"

lemma newest_first_find:
  assumes "newest_first xs" "find (\<lambda>e. b_committed_ts e \<le> ts) xs = Some e" "e' \<in> set xs" "b_committed_ts e' \<le> ts"
  shows "b_committed_ts e' \<le> b_committed_ts e"
  using assms
proof (induction xs)
  case (Cons x xs)
  show ?case
  proof (cases "b_committed_ts x \<le> ts")
    case True
    with Cons.prems show ?thesis by (auto simp: newest_first_def)
  next
    case False
    with Cons show ?thesis by (auto simp: newest_first_def)
  qed
qed simp

lemma newest_first_last:
  assumes "newest_first xs" "e' \<in> set xs" "ts < b_committed_ts e'"
  shows "takeWhile (\<lambda>e. \<not> b_committed_ts e \<le> ts) xs \<noteq> []
    \<and> ts < b_committed_ts (last (takeWhile (\<lambda>e. \<not> b_committed_ts e \<le> ts) xs))
    \<and> b_committed_ts (last (takeWhile (\<lambda>e. \<not> b_committed_ts e \<le> ts) xs)) \<le> b_committed_ts e'"
  using assms
proof (induction xs arbitrary: e')
  case (Cons x xs)
  have x: "ts < b_committed_ts x" using Cons.prems by (auto simp: newest_first_def)
  have s: "newest_first xs" using Cons.prems(1) by (simp add: newest_first_def)
  show ?case
  proof (cases "\<exists>e \<in> set xs. ts < b_committed_ts e")
    case False
    then have "takeWhile (\<lambda>e. \<not> b_committed_ts e \<le> ts) xs = []" by (cases xs) auto
    moreover have "e' = x" using False Cons.prems by auto
    ultimately show ?thesis using x by simp
  next
    case True
    then obtain e where e: "e \<in> set xs" "ts < b_committed_ts e" by blast
    show ?thesis
    proof (cases "e' \<in> set xs")
      case True
      from Cons.IH [OF s this Cons.prems(3)] x show ?thesis by simp
    next
      case False
      then have "e' = x" using Cons.prems(2) by simp
      moreover have "b_committed_ts e \<le> b_committed_ts x" using Cons.prems(1) e by (simp add: newest_first_def)
      ultimately show ?thesis using Cons.IH [OF s e] x by simp
    qed
  qed
qed simp

text \<open>
  Commits keep the history in the order of the commit times, newest first, when the clock
  does not run backwards: when the time taken for the write is not before the newest entry.
\<close>
theorem commit_keeps_order:
  assumes k: "kogmo_rtdb_obj_findmeta_byid i db = Some k" and ok: "obj_ok db k"
    and t: "time_ok (fst (kogmo_rtdb_timestamp_now db))" and l: "b_size data \<le> int (length data)"
    and s: "newest_first (obj_history db k)"
    and n: "obj_history db k \<noteq> [] \<Longrightarrow> b_committed_ts (hd (obj_history db k)) \<le> fst (kogmo_rtdb_timestamp_now db)"
  shows "newest_first (obj_history (snd (snd (kogmo_rtdb_obj_writedata h i data db))) k)"
proof -
  obtain r data' db' where w: "kogmo_rtdb_obj_writedata h i data db = (r, data', db')" by (metis prod_cases3)
  show ?thesis
  proof (cases r)
    case (Inl e)
    with writedata_error [of h i data db e data' db'] w s show ?thesis by (simp add: obj_history_def)
  next
    case (Inr v)
    with w have w': "kogmo_rtdb_obj_writedata h i data db = (Inr v, data', db')" by simp
    let ?m = "objmeta db ! k"
    note O = writedata_ok [OF w' k] and C = commit_bytes_fields [of data h, OF writedata_ok(5) [OF w' k] l]
    note T = commit_time_ok [OF t, of ?m]
    have lb: "base_size \<le> length (commit_bytes h data)" using C(1) O(5) by simp
    have f: "b_committed_ts (committed (commit_time db ?m) (commit_bytes h data)) = commit_time db ?m"
      using committed_fields(1) [OF lb] T by (simp add: in_int64_def)
    have inv: "ring_inv (heap db, ?m)" using ok by (simp add: ring_inv_def obj_ok_def)
    have fits: "ring_fits (commit_bytes h data, commit_time db ?m) (heap db, ?m)"
      using C(1,2) O(4,5) T lb by (simp add: ring_fits_def)
    have kl: "k < length (objmeta db)" using k by (auto simp: kogmo_rtdb_obj_findmeta_byid_def)
    have bl: "base_size \<le> length data" using O(5) l by simp
    have p: "(heap db', objmeta db' ! k) = ring_push (commit_bytes h data, commit_time db ?m) (heap db, ?m)"
      using writedata_db(1,2) [OF w' k bl] kl by (simp add: ring_push_def)
    have "sorted_wrt (\<lambda>a b. b_committed_ts b \<le> b_committed_ts a)
        (history (fst (heap db', objmeta db' ! k)) (snd (heap db', objmeta db' ! k)))"
      unfolding p
      by (rule ring.sorted_push [OF inv fits]) (use s n T(3) f in \<open>auto simp: newest_first_def obj_history_def\<close>)
    then show ?thesis by (simp add: w newest_first_def obj_history_def)
  qed
qed

theorem commit_keeps_order_witness:
  "newest_first (obj_history (snd (snd (kogmo_rtdb_obj_writedata ex_h 2 ex_data ex_db))) 1)"
  using commit_keeps_order [OF ex_find(2) ex_obj_ok ex_time_ok ex_data_len, of ex_h]
  by (simp add: obj_history_def history_def newest_first_def)

lemma read_by_time:
  assumes k: "kogmo_rtdb_obj_findmeta_byid i db = Some k" "buffer_idx (objmeta db ! k) \<noteq> 0"
    and a: "may_read h (objmeta db ! k)" "obj_ok db k" "0 \<le> history_slot (objmeta db ! k)"
      "nat (history_size (objmeta db ! k)) \<le> fuel" "size_max (objmeta db ! k) \<le> sz"
      "\<not> withhold_stale (flags (objmeta db ! k))"
    and s: "newest_first (obj_history db k)" and ts: "ts \<noteq> 0"
  shows "case kogmo_rtdb_obj_readdata fuel h i ts [] sz db of
      Some (Inr n, e, db') \<Rightarrow> db' = db \<and> n = int (length e) \<and> e \<in> set (obj_history db k) \<and> b_committed_ts e \<le> ts
        \<and> (\<forall>e' \<in> set (obj_history db k). b_committed_ts e' \<le> ts \<longrightarrow> b_committed_ts e' \<le> b_committed_ts e)
    | Some (Inl err, e, db') \<Rightarrow> err = ERR_NOTFOUND \<and> (\<forall>e' \<in> set (obj_history db k). ts < b_committed_ts e')
    | None \<Rightarrow> False"
    and "case kogmo_rtdb_obj_readdata_younger fuel h i ts [] sz db of
      Some (Inr n, e, db') \<Rightarrow> db' = db \<and> n = int (length e) \<and> e \<in> set (obj_history db k) \<and> ts < b_committed_ts e
        \<and> (\<forall>e' \<in> set (obj_history db k). ts < b_committed_ts e' \<longrightarrow> b_committed_ts e \<le> b_committed_ts e')
    | Some (Inl err, e, db') \<Rightarrow> err = ERR_NOTFOUND \<and> (\<forall>e' \<in> set (obj_history db k). b_committed_ts e' \<le> ts)
    | None \<Rightarrow> False"
proof -
  let ?xs = "obj_history db k"
  note R = readdata_history [OF k a(1-3) a(4-6), of _ ts "[]"]
  have st: "entry_stop RTDBSEL_LAST ts = (\<lambda>e. b_committed_ts e \<le> ts)"
    "entry_stop RTDBSEL_YOUNGER ts = (\<lambda>e. b_committed_ts e \<le> ts)"
    by (simp_all add: entry_stop_def fun_eq_iff)
  show "case kogmo_rtdb_obj_readdata fuel h i ts [] sz db of
      Some (Inr n, e, db') \<Rightarrow> db' = db \<and> n = int (length e) \<and> e \<in> set ?xs \<and> b_committed_ts e \<le> ts
        \<and> (\<forall>e' \<in> set ?xs. b_committed_ts e' \<le> ts \<longrightarrow> b_committed_ts e' \<le> b_committed_ts e)
    | Some (Inl err, e, db') \<Rightarrow> err = ERR_NOTFOUND \<and> (\<forall>e' \<in> set ?xs. ts < b_committed_ts e')
    | None \<Rightarrow> False"
  proof (cases "find (\<lambda>e. b_committed_ts e \<le> ts) ?xs")
    case None
    then have "pick RTDBSEL_LAST False d (\<lambda>e. b_committed_ts e \<le> ts) ?xs = None" for d
      by (simp add: pick_def)
    with None ts show ?thesis
      by (simp add: kogmo_rtdb_obj_readdata_def R st invalid_ts_def find_None_iff not_le)
  next
    case (Some e)
    then have "?xs \<noteq> []" by auto
    with Some have "pick RTDBSEL_LAST False d (\<lambda>e. b_committed_ts e \<le> ts) ?xs = Some e" for d
      by (simp add: pick_def)
    moreover have "e \<in> set ?xs" "b_committed_ts e \<le> ts" using Some by (auto simp: find_Some_iff)
    ultimately show ?thesis using ts newest_first_find [OF s Some]
      by (simp add: kogmo_rtdb_obj_readdata_def R st invalid_ts_def)
  qed
  show "case kogmo_rtdb_obj_readdata_younger fuel h i ts [] sz db of
      Some (Inr n, e, db') \<Rightarrow> db' = db \<and> n = int (length e) \<and> e \<in> set ?xs \<and> ts < b_committed_ts e
        \<and> (\<forall>e' \<in> set ?xs. ts < b_committed_ts e' \<longrightarrow> b_committed_ts e \<le> b_committed_ts e')
    | Some (Inl err, e, db') \<Rightarrow> err = ERR_NOTFOUND \<and> (\<forall>e' \<in> set ?xs. b_committed_ts e' \<le> ts)
    | None \<Rightarrow> False"
  proof (cases "\<exists>e \<in> set ?xs. ts < b_committed_ts e")
    case False
    then have "pick RTDBSEL_YOUNGER False d (\<lambda>e. b_committed_ts e \<le> ts) ?xs = None" for d
      by (cases ?xs) (auto simp: pick_def not_less)
    with False ts show ?thesis
      by (simp add: kogmo_rtdb_obj_readdata_younger_def R st invalid_ts_def not_less)
  next
    case True
    then obtain e where e: "e \<in> set ?xs" "ts < b_committed_ts e" by blast
    let ?t = "takeWhile (\<lambda>e. \<not> b_committed_ts e \<le> ts) ?xs"
    note L = newest_first_last [OF s e]
    have ne: "?xs \<noteq> []" "\<not> b_committed_ts (hd ?xs) \<le> ts" using L by (cases ?xs; auto split: if_splits)+
    then have p: "pick RTDBSEL_YOUNGER False d (\<lambda>e. b_committed_ts e \<le> ts) ?xs = Some (last ?t)" for d
      by (simp add: pick_def)
    have "last ?t \<in> set ?xs" using L last_in_set set_takeWhileD by metis
    moreover have "\<forall>e' \<in> set ?xs. ts < b_committed_ts e' \<longrightarrow> b_committed_ts (last ?t) \<le> b_committed_ts e'"
      using newest_first_last [OF s] by blast
    ultimately show ?thesis using ts L p
      by (simp add: kogmo_rtdb_obj_readdata_younger_def R st invalid_ts_def)
  qed
qed

text \<open>
  Reading by time, on a history in time order: \<open>readdata\<close> with a time returns the entry that
  was current then, the youngest one committed at or before it, and \<open>readdata_younger\<close> returns
  the oldest one committed after it. Each says not-found only when there is no such entry.
\<close>
theorem read_as_of_time:
  assumes k: "kogmo_rtdb_obj_findmeta_byid i db = Some k" "buffer_idx (objmeta db ! k) \<noteq> 0"
    and a: "may_read h (objmeta db ! k)" "obj_ok db k" "0 \<le> history_slot (objmeta db ! k)"
      "nat (history_size (objmeta db ! k)) \<le> fuel" "size_max (objmeta db ! k) \<le> sz"
      "\<not> withhold_stale (flags (objmeta db ! k))"
    and s: "newest_first (obj_history db k)" and ts: "ts \<noteq> 0"
  shows "(case kogmo_rtdb_obj_readdata fuel h i ts [] sz db of
      Some (Inr n, e, db') \<Rightarrow> db' = db \<and> n = int (length e) \<and> e \<in> set (obj_history db k) \<and> b_committed_ts e \<le> ts
        \<and> (\<forall>e' \<in> set (obj_history db k). b_committed_ts e' \<le> ts \<longrightarrow> b_committed_ts e' \<le> b_committed_ts e)
    | Some (Inl err, e, db') \<Rightarrow> err = ERR_NOTFOUND \<and> (\<forall>e' \<in> set (obj_history db k). ts < b_committed_ts e')
    | None \<Rightarrow> False)
    \<and> (case kogmo_rtdb_obj_readdata_younger fuel h i ts [] sz db of
      Some (Inr n, e, db') \<Rightarrow> db' = db \<and> n = int (length e) \<and> e \<in> set (obj_history db k) \<and> ts < b_committed_ts e
        \<and> (\<forall>e' \<in> set (obj_history db k). ts < b_committed_ts e' \<longrightarrow> b_committed_ts e \<le> b_committed_ts e')
    | Some (Inl err, e, db') \<Rightarrow> err = ERR_NOTFOUND \<and> (\<forall>e' \<in> set (obj_history db k). b_committed_ts e' \<le> ts)
    | None \<Rightarrow> False)"
  by (rule conjI; rule read_by_time [OF assms])

theorem read_as_of_time_witness:
  "(case kogmo_rtdb_obj_readdata 3 ex_h 2 10000000005 [] 32 ex_db1 of
      Some (Inr n, e, db') \<Rightarrow> db' = ex_db1 \<and> e = ex_entry | _ \<Rightarrow> False)
  \<and> (case kogmo_rtdb_obj_readdata_younger 3 ex_h 2 10000000005 [] 32 ex_db1 of
      Some (Inl err, e, db') \<Rightarrow> err = ERR_NOTFOUND | _ \<Rightarrow> False)"
  using read_as_of_time [of 2 ex_db1 1 ex_h 3 32 10000000005] ex_db1_facts [unfolded One_nat_def]
  by (auto simp: ex_db1_objmeta advanced_def may_read_def newest_first_def ex_entry_ts
      split: option.splits sum.splits prod.splits)

end
