(* ===== verification/Objdata_Safety.thy ===== *)
theory Objdata_Safety
  imports Objdata_Props
begin

text \<open>
  Properties of the data operations that concern the rest of the database: isolation of the
  objects from each other, the errors of a write, its locks, and a read that does not end.
\<close>

section \<open>A second data object\<close>

definition ex_obj2 :: obj_info where
  "ex_obj2 = ex_obj\<lparr>oid := 3, buffer_idx := 160\<rparr>"

definition ex_two :: rtdb where
  "ex_two = ex_db\<lparr>objmeta := [ex_root, ex_obj, ex_obj2, zero_info], heap_used := 256, heap_free := 768\<rparr>"

lemma ex_two_fields [simp]:
  "objmeta ex_two = [ex_root, ex_obj, ex_obj2, zero_info]" "heap ex_two = (\<lambda>_. 0)"
  "kogmo_rtdb_obj_findmeta_byid 2 ex_two = Some 1"
  "fst (kogmo_rtdb_timestamp_now ex_two) = 10000000000"
  "size_max ex_obj2 = 32" "buffer_idx ex_obj2 = 160" "history_size ex_obj2 = 3" "history_slot ex_obj2 = - 1"
  "oid ex_obj2 = 3"
  by (simp_all add: ex_two_def kogmo_rtdb_obj_findmeta_byid_def kogmo_rtdb_timestamp_now_def ex_obj2_def
      kogmo_timestamp_now_def TICKSPERSECOND_def in_int64_def)

lemma ex_two_ok [simp]: "obj_ok ex_two (Suc 0)" "obj_ok ex_two 2"
  by (simp_all add: obj_ok_def ring_ok_def sizes_ok_def base_size_def)

lemma ex_two_heap_ok: "heap_ok static_inv ex_two"
  unfolding heap_ok_def
proof (intro exI conjI)
  let ?B = "{(64, 96), (160, 96)}"
  have b: "block_size ex_obj = 96" "block_size ex_obj2 = 96" by (simp_all add: block_size_def int32_id in_int32_def)
  have r: "ring_ok ex_obj" "ring_ok ex_obj2" by (simp_all add: ring_ok_def base_size_def)
  show "static_inv ?B ex_two"
    by (simp add: static_inv_def ex_two_def disjoint_blocks_def block_bytes_def)
  have four: "(\<forall>k < length [ex_root, ex_obj, ex_obj2, zero_info]. P k) \<longleftrightarrow> P 0 \<and> P 1 \<and> P 2 \<and> P 3" for P
    by (auto simp: less_Suc_eq numeral_2_eq_2 numeral_3_eq_3)
  show "blocks_in ?B (objmeta ex_two)"
    unfolding blocks_in_def ex_two_fields(1) four
    using b r by (simp add: has_block_def obj_block_def)
qed

section \<open>Isolation\<close>

text \<open>
  C5: A write to one object leaves every other object alone: whatever allocator meets the
  contract, the metadata and the whole history of an object with data are the same after
  any write attempt to another object.
\<close>
theorem write_isolated:
  assumes a: "heap_allocator d I" and ok: "heap_ok I db"
    and k: "kogmo_rtdb_obj_findmeta_byid i db = Some k" "i \<noteq> 0" "obj_ok db k" "has_block (objmeta db ! k)"
    and j: "j < length (objmeta db)" "j \<noteq> k" "obj_ok db j" "has_block (objmeta db ! j)"
    and t: "time_ok (fst (kogmo_rtdb_timestamp_now db))" and l: "b_size data \<le> int (length data)"
  shows "obj_history (snd (snd (kogmo_rtdb_obj_writedata h i data db))) j = obj_history db j
    \<and> objmeta (snd (snd (kogmo_rtdb_obj_writedata h i data db))) ! j = objmeta db ! j"
proof -
  obtain r data' db' where w: "kogmo_rtdb_obj_writedata h i data db = (r, data', db')" by (metis prod_cases3)
  have kl: "k < length (objmeta db)" using k(1) by (auto simp: kogmo_rtdb_obj_findmeta_byid_def)
  have "ring_bytes (objmeta db ! j) \<inter> ring_bytes (objmeta db ! k) = {}"
    by (rule heap_allocator.blocks_distinct [OF a ok]) (use j k(4) kl in auto)
  from writedata_others [OF w k(1,3) t l j(2,3) this] show ?thesis by (simp add: w)
qed

theorem write_isolated_witness:
  "obj_history (snd (snd (kogmo_rtdb_obj_writedata ex_h 2 ex_data ex_two))) 2 = []"
  using write_isolated [OF static.heap_allocator_axioms ex_two_heap_ok, of 2 1 2 ex_data ex_h]
  by (simp add: has_block_def time_ok_def) (simp add: obj_history_def history_def)

text \<open>
  A write keeps the memory safe: afterwards the objects' rings are still blocks of the
  allocator that do not overlap, for every allocator that meets the contract.
\<close>
theorem write_keeps_heap:
  assumes "heap_allocator d I" "heap_ok I db" "kogmo_rtdb_obj_findmeta_byid i db = Some k" "i \<noteq> 0"
    "obj_ok db k" "time_ok (fst (kogmo_rtdb_timestamp_now db))" "b_size data \<le> int (length data)"
  shows "heap_ok I (snd (snd (kogmo_rtdb_obj_writedata h i data db)))"
proof -
  obtain r data' db' where w: "kogmo_rtdb_obj_writedata h i data db = (r, data', db')" by (metis prod_cases3)
  from heap_allocator.writedata_heap_ok [OF assms(1-4) w assms(5-7)] show ?thesis by (simp add: w)
qed

theorem write_keeps_heap_witness:
  "heap_ok static_inv (snd (snd (kogmo_rtdb_obj_writedata ex_h 2 ex_data ex_two)))"
  using write_keeps_heap [OF static.heap_allocator_axioms ex_two_heap_ok, of 2 1 ex_data ex_h]
  by (simp add: time_ok_def)

section \<open>Errors and locks\<close>


text \<open>
  A write holds no lock when it returns: it gives back the object's lock and the
  notification lock it takes, on every path, and never takes a lock twice.
\<close>
theorem write_balances_locks:
  assumes "\<And>k. Obj_lock k \<notin> L \<and> Changenotify_lock k \<notin> L"
  shows "locks_after L db (snd (snd (kogmo_rtdb_obj_writedata h i data db))) = Some L"
proof -
  obtain r data' db' where "kogmo_rtdb_obj_writedata h i data db = (r, data', db')" by (metis prod_cases3)
  from lock_step_after [OF writedata_locks [OF this assms]] this show ?thesis by simp
qed

theorem write_balances_locks_witness:
  "locks_after {} ex_db (snd (snd (kogmo_rtdb_obj_writedata ex_h 2 ex_data ex_db))) = Some {}"
  using write_balances_locks [of "{}" ex_db ex_h 2 ex_data] by simp

section \<open>A read that does not end\<close>

text \<open>
  The memory of a deleted object can be handed to a new one with the old data still in it
  (flag \<open>keep_alloc\<close>); the position of the new object is then \<open>-1\<close> over a ring full of old
  entries. The wrap-around test of the scan compares with that position and never fires.
\<close>

definition stale_ring :: "mem \<Rightarrow> obj_info \<Rightarrow> (int \<Rightarrow> bool) \<Rightarrow> bool" where
  "stale_ring hp m stop \<longleftrightarrow> history_slot m = - 1
     \<and> (\<forall>s \<in> {0..<history_size m}. valid hp (slot_addr m s) \<and> \<not> stop (slot_addr m s))"

lemma c_rem_pos: "0 \<le> a \<Longrightarrow> 0 < n \<Longrightarrow> c_rem a n = a mod n"
  by simp

lemma stale_step:
  assumes r: "ring_ok m" and st: "stale_ring hp m stop" and s: "0 \<le> s" "s < history_size m"
  shows "\<exists>s'. 0 \<le> s' \<and> s' < history_size m \<and>
    kogmo_rtdb_obj_histscan hp (- 1) m (Some s) (Some (- 1)) = (Some (slot_addr m s'), Some s', Some (- 1))"
proof -
  note d = ring_okD [OF r]
  let ?s = "(s - 1 + history_size m) mod history_size m"
  have "int32 (int32 (s + - 1) + history_size m) = s - 1 + history_size m"
    using d s by (simp add: int32_id in_int32_def)
  then have e: "c_rem (int32 (int32 (s + - 1) + history_size m)) (history_size m) = ?s"
    using d s by (simp add: c_rem_pos)
  have b: "0 \<le> ?s" "?s < history_size m" using d by simp_all
  then have "valid hp (slot_addr m ?s)" using st by (simp add: stale_ring_def)
  then show ?thesis
    using d b e by (intro exI [of _ ?s]) (simp add: kogmo_rtdb_obj_histscan_def Let_def valid_def)
qed

lemma stale_scan:
  assumes r: "ring_ok m" and st: "stale_ring hp m stop" and s: "0 \<le> s" "s < history_size m"
  shows "scan_back fuel hp m stop (slot_addr m s) s (- 1) = None"
  using s
proof (induction fuel arbitrary: s)
  case (Suc fuel)
  obtain s' where s': "0 \<le> s'" "s' < history_size m"
    "kogmo_rtdb_obj_histscan hp (- 1) m (Some s) (Some (- 1)) = (Some (slot_addr m s'), Some s', Some (- 1))"
    using stale_step [OF r st Suc.prems] by blast
  have "\<not> stop (slot_addr m s)" using st Suc.prems by (simp add: stale_ring_def)
  with s' Suc.IH [OF s'(1,2)] show ?case by simp
qed simp

text \<open>
  Reading an object that got the ring of a deleted one and was not written since does not
  end if the ring is full of entries that all are too young: the scan for an older entry runs
  forever, whatever number of rounds it is given.
\<close>
theorem stale_read_diverges:
  assumes k: "kogmo_rtdb_obj_findmeta_byid i db = Some k" "buffer_idx (objmeta db ! k) \<noteq> 0"
    and p: "may_read h (objmeta db ! k)" and r: "ring_ok (objmeta db ! k)"
    and st: "stale_ring (heap db) (objmeta db ! k) (stop_at RTDBSEL_OLDER (heap db) ts)"
  shows "kogmo_rtdb_obj_readdata_older fuel h i ts buf sz db = None"
proof -
  let ?m = "objmeta db ! k"
  note d = ring_okD [OF r]
  have h: "history_slot ?m = - 1" using st by (simp add: stale_ring_def)
  let ?s = "history_size ?m - 1"
  have "int32 (- 1 + history_size ?m) = ?s" using d by (simp add: int32_id in_int32_def)
  moreover have "c_rem ?s (history_size ?m) = ?s mod history_size ?m" by (rule c_rem_pos) (use d in simp_all)
  moreover have "?s mod history_size ?m = ?s" by (rule mod_pos_pos_trivial) (use d in simp_all)
  ultimately have c: "c_rem (int32 (- 1 + history_size ?m)) (history_size ?m) = ?s" by metis
  have v: "valid (heap db) (slot_addr ?m ?s)" using st d by (simp add: stale_ring_def)
  have "kogmo_rtdb_obj_histscan (heap db) 0 ?m (Some 0) (Some 0)
      = (Some (slot_addr ?m ?s), Some ?s, Some (- 1))"
    using d c v by (simp add: kogmo_rtdb_obj_histscan_def Let_def h valid_def)
  moreover have "scan_back fuel (heap db) ?m (stop_at RTDBSEL_OLDER (heap db) ts) (slot_addr ?m ?s) ?s (- 1) = None"
    using d by (intro stale_scan [OF r st]) simp_all
  moreover have "\<not> (read_deny (flags ?m) \<and> created_proc ?m \<noteq> h_proc_oid h \<and> \<not> this_process_is_admin h)"
    using p by (auto simp: may_read_def)
  ultimately show ?thesis
    using k by (simp add: kogmo_rtdb_obj_readdata_older_def kogmo_rtdb_obj_readdata_mode_def
        readdata_select_def Let_def)
qed

definition ex_stale :: rtdb where
  "ex_stale = ex_db\<lparr>heap := (\<lambda>x. if x \<in> {64..<160} then 1 else 0)\<rparr>"

theorem stale_read_diverges_witness:
  "\<forall>fuel. kogmo_rtdb_obj_readdata_older fuel ex_h 2 5 [] 32 ex_stale = None"
proof -
  have b: "m_committed_ts (heap ex_stale) a = 72340172838076673" if "a = 64 \<or> a = 96 \<or> a = 128" for a
  proof -
    have "ldb (heap ex_stale) a 8 = replicate 8 1"
      using that by (intro nth_equalityI) (auto simp: ex_stale_def)
    then show ?thesis by (simp add: m_committed_ts_def sdec_def numeral_eq_Suc)
  qed
  have s: "slot_addr ex_obj s = 64 + 32 * s" if "0 \<le> s" "s < 3" for s
    using that by (simp add: slot_addr_def int32_id in_int32_def)
  have three: "(\<forall>s \<in> {0..<3}. P s) \<longleftrightarrow> P 0 \<and> P 1 \<and> P (2::int)" for P
  proof -
    have "{0..<3::int} = {0, 1, 2}" by auto
    then show ?thesis by simp
  qed
  have "stale_ring (heap ex_stale) ex_obj (stop_at RTDBSEL_OLDER (heap ex_stale) 5)"
    by (simp add: stale_ring_def three s valid_def b CMP_INT64_HIGH_def invalid_ts_def stop_at_def)
  then show ?thesis
    using stale_read_diverges [of 2 ex_stale 1 ex_h 5 _ "[]" 32]
    by (simp add: ex_stale_def kogmo_rtdb_obj_findmeta_byid_def ring_ok_def base_size_def)
qed

end
