(* ===== verification/Objdata_Inplace.thy ===== *)
theory Objdata_Inplace
  imports Objdata_Safety
begin

text \<open>
  Writing in place: \<open>ptr_begin\<close>, the caller's stores into the block, and \<open>ptr_commit\<close> together
  push the same entry to the history as \<open>writedata\<close> of the same bytes.
\<close>

lemma stb_put:
  assumes "off + length xs \<le> length bs"
  shows "stb (stb hp p bs) (p + int off) xs = stb hp p (put off xs bs)"
proof
  fix x
  consider "x < p \<or> p + int (length bs) \<le> x" | i where "i < length bs" "x = p + int i"
  proof (cases "x < p \<or> p + int (length bs) \<le> x")
    case False
    then show ?thesis by (intro that(2) [of "nat (x - p)"]) auto
  qed (use that(1) in blast)
  then show "stb (stb hp p bs) (p + int off) xs x = stb hp p (put off xs bs) x"
  proof cases
    case 1
    then show ?thesis using assms by (auto simp: stb_def)
  next
    case (2 i)
    show ?thesis
    proof (cases "off \<le> i \<and> i < off + length xs")
      case True
      then have "nat (x - (p + int off)) = i - off" using 2 by simp
      moreover have "put off xs bs ! i = xs ! (i - off)"
      proof -
        have "i - off < length xs" "\<not> i < off" using True by linarith+
        with assms show ?thesis by (simp add: put_def nth_append)
      qed
      ultimately show ?thesis using True 2 assms by (simp add: stb_def)
    next
      case False
      then have "put off xs bs ! i = bs ! i"
        using 2 assms by (auto simp: put_def nth_append)
      with False 2 assms show ?thesis by (auto simp: stb_def)
    qed
  qed
qed

text \<open>The caller's stores between begin and commit.\<close>

definition fill_block :: "int \<Rightarrow> byte list \<Rightarrow> rtdb \<Rightarrow> rtdb" where
  "fill_block p bs db = db\<lparr>heap := stb (heap db) p bs\<rparr>"

lemma inplace_heap:
  assumes "base_size \<le> length bs"
  shows "(let hp = stb (stb (stb hp p (enc 8 invalid_ts)) p bs) (p + 8) (enc 4 proc);
              hp = (if m_data_ts hp p = invalid_ts then stb hp (p + 12) (enc 8 ts) else hp)
          in stb hp p (enc 8 ts)) = write_block p (set_committed_proc proc bs) ts hp"
proof -
  let ?h = "stb hp p (enc 8 invalid_ts)"
  have "stb (stb ?h p bs) (p + 8) (enc 4 proc) = stb ?h p (set_committed_proc proc bs)"
    using stb_put [of 8 "enc 4 proc" bs ?h p] assms by (simp add: set_committed_proc_def base_size_def)
  then show ?thesis unfolding write_block_def Let_def by simp
qed

lemma ptr_begin_ok:
  assumes "kogmo_rtdb_obj_findmeta_byid i db = Some k"
    and "kogmo_rtdb_obj_writedata_ptr_begin h i db = (Inr v, p, db')"
  shows "p = Some (slot_addr (objmeta db ! k) (next_slot (objmeta db ! k)))"
    "db' = db\<lparr>heap := stb (heap db) (slot_addr (objmeta db ! k) (next_slot (objmeta db ! k))) (enc 8 invalid_ts)\<rparr>"
    "created_proc (objmeta db ! k) = h_proc_oid h" "\<not> write_allow (flags (objmeta db ! k))"
    "buffer_idx (objmeta db ! k) \<noteq> 0"
  using assms by (auto simp: kogmo_rtdb_obj_writedata_ptr_begin_def Let_def split: if_splits)

lemma ptr_commit_ok:
  assumes k: "kogmo_rtdb_obj_findmeta_byid i db = Some k"
    and c: "kogmo_rtdb_obj_writedata_ptr_commit h i p db = (Inr v, db')"
  shows "p = slot_addr (objmeta db ! k) (next_slot (objmeta db ! k))"
    "m_size (heap db) p \<le> size_max (objmeta db ! k)" "int base_size \<le> m_size (heap db) p"
    "objmeta db' = (objmeta db)[k := advanced (objmeta db ! k)]"
    "heap db' = (let hp = stb (heap db) (p + 8) (enc 4 (h_proc_oid h));
              hp = (if m_data_ts hp p = invalid_ts
                    then stb hp (p + 12) (enc 8 (fst (kogmo_rtdb_timestamp_now db))) else hp)
          in stb hp p (enc 8 (fst (kogmo_rtdb_timestamp_now db))))"
  using k c by (auto simp: kogmo_rtdb_obj_writedata_ptr_commit_def Let_def split_beta ipc_defs if_proj
      advanced_def split: if_splits)

text \<open>
  C17: An in-place write refines the same abstract history as a copying one: when begin and
  commit succeed around the caller's stores of an entry \<open>bs\<close> that fits the object, the history is
  the old one with \<open>bs\<close> in front, stamped with the writer and the time of the commit, cut to
  \<open>history_size\<close> entries.
\<close>
theorem inplace_write_refines_history:
  assumes k: "kogmo_rtdb_obj_findmeta_byid i db = Some k" and ok: "obj_ok db k"
    and b: "kogmo_rtdb_obj_writedata_ptr_begin h i db = (Inr v, Some p, db1)"
    and bs: "b_size bs = int (length bs)" "base_size \<le> length bs" "int (length bs) \<le> size_max (objmeta db ! k)"
    and c: "kogmo_rtdb_obj_writedata_ptr_commit h i p (fill_block p bs db1) = (Inr u, db2)"
    and t: "time_ok (fst (kogmo_rtdb_timestamp_now db))"
  shows "obj_history db2 k = take (nat (history_size (objmeta db ! k)))
      (committed (fst (kogmo_rtdb_timestamp_now db)) (set_committed_proc (h_proc_oid h) bs) # obj_history db k)
    \<and> obj_ok db2 k"
proof -
  let ?m = "objmeta db ! k" and ?t = "fst (kogmo_rtdb_timestamp_now db)" and ?d = "fill_block p bs db1"
  have kl: "k < length (objmeta db)" using k by (auto simp: kogmo_rtdb_obj_findmeta_byid_def)
  note B = ptr_begin_ok [OF k b]
  have d: "objmeta ?d = objmeta db" "kogmo_rtdb_obj_findmeta_byid i ?d = Some k"
    "fst (kogmo_rtdb_timestamp_now ?d) = ?t"
    "heap ?d = stb (stb (heap db) p (enc 8 invalid_ts)) p bs"
    using B(1,2) k by (simp_all add: fill_block_def kogmo_rtdb_obj_findmeta_byid_def kogmo_rtdb_timestamp_now_def)
  note C = ptr_commit_ok [OF d(2) c]
  have p: "p = slot_addr ?m (next_slot ?m)" using B(1) by simp
  let ?bs = "set_committed_proc (h_proc_oid h) bs"
  have hp: "heap db2 = write_block (slot_addr ?m (next_slot ?m)) ?bs ?t (heap db)"
    using C(5) unfolding d(3,4) inplace_heap [OF bs(2)] p [symmetric] .
  have lb: "base_size \<le> length ?bs" "int (length ?bs) \<le> size_max ?m" "b_size ?bs = int (length ?bs)"
    using bs by simp_all
  have ts: "2 ^ 32 \<le> ?t" "?t < 2 ^ 63" using t by (simp_all add: time_ok_def)
  have r: "ring_ok ?m" "sizes_ok (heap db) ?m" using ok by (simp_all add: obj_ok_def)
  note H = write_history [OF r lb ts hp]
  have m: "objmeta db2 ! k = advanced ?m" using C(4) kl by (simp add: d)
  show ?thesis
    using H(1,2) advanced_ok(1) [OF r(1)] by (simp add: obj_history_def obj_ok_def m)
qed

theorem inplace_write_refines_history_witness:
  "\<exists>p db1 db2. kogmo_rtdb_obj_writedata_ptr_begin ex_h 2 ex_db = (Inr 0, Some p, db1)
    \<and> kogmo_rtdb_obj_writedata_ptr_commit ex_h 2 p (fill_block p ex_data db1) = (Inr 0, db2)
    \<and> obj_history db2 1 = [committed 10000000000 (set_committed_proc 7 ex_data)]"
proof -
  obtain db1 where b: "kogmo_rtdb_obj_writedata_ptr_begin ex_h 2 ex_db = (Inr 0, Some 64, db1)"
    by (simp add: kogmo_rtdb_obj_writedata_ptr_begin_def next_slot_def slot_addr_def in_int32_def)
  have d: "fill_block 64 ex_data db1 = ex_db\<lparr>heap := stb (\<lambda>_. 0) 64 ex_data\<rparr>"
    using ptr_begin_ok(2) [OF ex_find(2) b]
    by (simp add: fill_block_def next_slot_def slot_addr_def in_int32_def stb_absorb)
  have m: "m_size (heap (fill_block 64 ex_data db1)) 64 = 28"
    using m_fields(3) [of 28 "stb (\<lambda>_. 0) 64 ex_data" 64] by (simp add: d base_size_def)
  have now: "fst (kogmo_rtdb_timestamp_now (fill_block 64 ex_data db1)) = 10000000000"
    by (simp add: d kogmo_rtdb_timestamp_now_def kogmo_timestamp_now_def TICKSPERSECOND_def in_int64_def)
  have f: "kogmo_rtdb_obj_findmeta_byid 2 (fill_block 64 ex_data db1) = Some 1"
    by (simp add: d kogmo_rtdb_obj_findmeta_byid_def)
  let ?d = "fill_block 64 ex_data db1"
  have o: "objmeta ?d ! 1 = ex_obj" by (simp add: d)
  have "fst (kogmo_rtdb_obj_writedata_ptr_commit ex_h 2 64 ?d) = Inr 0"
    using m f o
    by (cases "kogmo_rtdb_timestamp_now ?d")
      (simp add: kogmo_rtdb_obj_writedata_ptr_commit_def kogmo_rtdb_timestamp_now_def too_fast_def
        base_size_def next_slot_def slot_addr_def in_int32_def Let_def kogmo_rtdb_obj_findmeta_byid_def d)
  then obtain db2 where c: "kogmo_rtdb_obj_writedata_ptr_commit ex_h 2 64 ?d = (Inr 0, db2)"
    by (metis prod.collapse)
  from inplace_write_refines_history [OF ex_find(2) ex_obj_ok b _ _ _ c ex_time_ok]
  have "obj_history db2 1 = [committed 10000000000 (set_committed_proc 7 ex_data)]"
    by (simp add: base_size_def obj_history_def history_def)
  with b c show ?thesis by blast
qed

end
