(* ===== verification/Objdata_Slot.thy ===== *)
theory Objdata_Slot
  imports Objdata_Props
begin

text \<open>
  Direct access to history slots (\<open>rtdb/kogmo_rtdb_objdata_slot.c\<close>): a reader keeps its position
  in an object's ring and moves relative to it; the commit time it remembers tells whether the
  position was overwritten meanwhile. The outer \<open>None\<close> is the division by zero of line 71, which
  ends the process.
\<close>

section \<open>Operations\<close>

text \<open>Lines 60-107: move from the position in \<open>s\<close> and look at the block found there.\<close>

definition slot_step ::
    "int \<Rightarrow> int \<Rightarrow> obj_info \<Rightarrow> obj_slot \<Rightarrow> mem \<Rightarrow> ((rtdb_error + int) \<times> obj_slot \<times> int option) option" where
  "slot_step mode offset m s hp =
     (if history_size m = 0 then None
      else
        let last_p = slot_addr m (s_history_slot s);
            s = s\<lparr>s_history_slot := c_rem (int32 (int32 (s_history_slot s + c_rem offset (history_size m))
                                               + history_size m)) (history_size m)\<rparr>;
            p = slot_addr m (s_history_slot s);
            scan_ts = m_committed_ts hp p
        in if scan_ts = invalid_ts then Some (Inl ERR_NOTFOUND, s, None)
           else if mode = 1 \<and> m_committed_ts hp last_p \<noteq> s_committed_ts s
           then Some (Inl ERR_HISTWRAP, s, None)
           else if mode = 1 \<and> offset < 0 \<and> scan_ts > s_committed_ts s
           then Some (Inl ERR_HISTWRAP, s, None)
           else if mode = 1 \<and> offset > 0 \<and> scan_ts < s_committed_ts s
           then Some (Inl ERR_TOOFAST, s, None)
           else Some (Inr (m_size hp p), s\<lparr>s_committed_ts := scan_ts\<rparr>, Some p))"

text \<open>Mode 0 goes to the latest block, mode 1 moves and checks the old position, mode -1 only moves.\<close>

definition kogmo_rtdb_obj_readdataslot_ptr ::
    "int \<Rightarrow> int \<Rightarrow> obj_slot \<Rightarrow> rtdb \<Rightarrow> ((rtdb_error + int) \<times> obj_slot \<times> int option) option" where
  "kogmo_rtdb_obj_readdataslot_ptr mode offset s db =
     (if mode = 0 then
        (case kogmo_rtdb_obj_findmeta_byid (s_oid s) db of
           None \<Rightarrow> Some (Inl ERR_NOTFOUND, s, None)
         | Some k \<Rightarrow>
             let m = objmeta db ! k;
                 s = s\<lparr>s_object_slot := int k, s_history_slot := history_slot m\<rparr>
             in if s_history_slot s < 0 then Some (Inl ERR_NOTFOUND, s, None)
                else slot_step mode 0 m (s\<lparr>s_committed_ts := invalid_ts\<rparr>) (heap db))
      else if s_object_slot s < 0 \<or> s_object_slot s \<ge> int (length (objmeta db))
      then Some (Inl ERR_INVALID, s, None)
      else
        let m = objmeta db ! nat (s_object_slot s)
        in if s_oid s \<noteq> oid m then Some (Inl ERR_NOTFOUND, s, None)
           else slot_step mode offset m s (heap db))"

definition kogmo_rtdb_obj_readdataslot_init ::
    "obj_slot \<Rightarrow> int \<Rightarrow> rtdb \<Rightarrow> ((rtdb_error + int) \<times> obj_slot) option" where
  "kogmo_rtdb_obj_readdataslot_init s i db =
     map_option (\<lambda>(r, s, _). (r, s)) (kogmo_rtdb_obj_readdataslot_ptr 0 0 (s\<lparr>s_oid := i\<rparr>) db)"

text \<open>After an error the position is set to the latest block again.\<close>

definition slot_reinit :: "(rtdb_error + int) \<Rightarrow> byte list \<Rightarrow> obj_slot \<Rightarrow> rtdb
    \<Rightarrow> ((rtdb_error + int) \<times> byte list \<times> obj_slot) option" where
  "slot_reinit r buf s db =
     map_option (\<lambda>(_, s, _). (r, buf, s)) (kogmo_rtdb_obj_readdataslot_ptr 0 0 s db)"

text \<open>\<open>olen < 0\<close>: an error, or a block whose header has a negative size.\<close>

definition kogmo_rtdb_obj_readdataslot_relative ::
    "obj_slot \<Rightarrow> int \<Rightarrow> byte list \<Rightarrow> int \<Rightarrow> rtdb \<Rightarrow> ((rtdb_error + int) \<times> byte list \<times> obj_slot) option" where
  "kogmo_rtdb_obj_readdataslot_relative s offset buf sz db =
     (case kogmo_rtdb_obj_readdataslot_ptr 1 offset s db of
        None \<Rightarrow> None
      | Some (r, s, p) \<Rightarrow>
          if c_ret r < 0 then slot_reinit r buf s db
          else
            let realsize = c_ret r;
                n = nat (if realsize < sz then realsize else sz);
                buf = ldb (heap db) (the p) n @ drop n buf
            in (case kogmo_rtdb_obj_readdataslot_ptr 1 0 s db of
                  None \<Rightarrow> None
                | Some (r, s, _) \<Rightarrow>
                    if c_ret r < 0 then slot_reinit r buf s db else Some (Inr realsize, buf, s)))"

definition kogmo_rtdb_obj_readdataslot_relative_ptr ::
    "obj_slot \<Rightarrow> int \<Rightarrow> rtdb \<Rightarrow> ((rtdb_error + int) \<times> int option \<times> obj_slot) option" where
  "kogmo_rtdb_obj_readdataslot_relative_ptr s offset db =
     (case kogmo_rtdb_obj_readdataslot_ptr 1 offset s db of
        None \<Rightarrow> None
      | Some (r, s, p) \<Rightarrow>
          if c_ret r < 0
          then map_option (\<lambda>(_, s, _). (r, None, s)) (kogmo_rtdb_obj_readdataslot_ptr 0 0 s db)
          else Some (r, p, s))"

definition kogmo_rtdb_obj_readdataslot_check ::
    "obj_slot \<Rightarrow> rtdb \<Rightarrow> ((rtdb_error + int) \<times> obj_slot) option" where
  "kogmo_rtdb_obj_readdataslot_check s db =
     map_option (\<lambda>(r, s, _). (r, s)) (kogmo_rtdb_obj_readdataslot_ptr 1 0 s db)"

section \<open>Positions in the history\<close>

text \<open>The reader stands at the entry \<open>i\<close> commits back, of object slot \<open>k\<close>.\<close>

definition at_entry :: "rtdb \<Rightarrow> nat \<Rightarrow> nat \<Rightarrow> obj_slot \<Rightarrow> bool" where
  "at_entry db k i s \<longleftrightarrow> k < length (objmeta db) \<and> s_object_slot s = int k \<and> s_oid s = oid (objmeta db ! k)
     \<and> i < length (obj_history db k) \<and> s_history_slot s = ring_slot (objmeta db ! k) i
     \<and> s_committed_ts s = b_committed_ts (obj_history db k ! i)"

lemma c_rem_small: "\<bar>a\<bar> < n \<Longrightarrow> c_rem a n = a"
  by (simp add: c_rem_def mult_sgn_abs)

lemma ring_slot_move:
  assumes r: "ring_ok m" and off: "\<bar>off\<bar> < history_size m" and j: "int j mod history_size m = (int i - off) mod history_size m"
  shows "c_rem (int32 (int32 (ring_slot m i + c_rem off (history_size m)) + history_size m)) (history_size m) = ring_slot m j"
proof -
  note d = ring_okD [OF r] and b = ring_slot_bounds [OF r, of i]
  have n: "3 * history_size m < 2 ^ 31" "0 < history_size m" using d by simp_all
  have 1: "int32 (ring_slot m i + off) = ring_slot m i + off"
    using b off n by (intro int32_id) (simp add: in_int32_def abs_less_iff)
  have 2: "int32 (ring_slot m i + off + history_size m) = ring_slot m i + off + history_size m"
    using b off n by (intro int32_id) (simp add: in_int32_def abs_less_iff)
  have "0 \<le> ring_slot m i + off + history_size m" using b off by linarith
  then have 3: "c_rem (ring_slot m i + off + history_size m) (history_size m)
      = (ring_slot m i + off + history_size m) mod history_size m" using n by simp
  have "(ring_slot m i + off + history_size m) mod history_size m = (ring_slot m i + off) mod history_size m" by simp
  also have "\<dots> = (history_slot m - (int i - off)) mod history_size m"
    unfolding ring_slot_def mod_add_left_eq by (simp add: algebra_simps)
  also have "\<dots> = (history_slot m - (int i - off) mod history_size m) mod history_size m"
    by (simp only: mod_diff_right_eq)
  also have "\<dots> = (history_slot m - int j mod history_size m) mod history_size m" by (simp only: j)
  also have "\<dots> = ring_slot m j" by (simp add: ring_slot_def mod_diff_right_eq)
  finally show ?thesis unfolding c_rem_small [OF off] 1 2 3 .
qed

lemma history_entry:
  assumes ok: "obj_ok db k" and i: "i < length (obj_history db k)"
  shows "m_committed_ts (heap db) (ring_addr (objmeta db ! k) i) = b_committed_ts (obj_history db k ! i)"
    "m_size (heap db) (ring_addr (objmeta db ! k) i) = int (length (obj_history db k ! i))"
    "m_committed_ts (heap db) (ring_addr (objmeta db ! k) i) \<noteq> invalid_ts"
    "obj_history db k ! i = entry (heap db) (ring_addr (objmeta db ! k) i)"
    "int (length (obj_history db k ! i)) \<le> size_max (objmeta db ! k)"
    "int i < history_size (objmeta db ! k)"
proof -
  let ?m = "objmeta db ! k" and ?hp = "heap db"
  have l: "i < length (hist_addrs ?hp ?m)" using i by (simp add: obj_history_def length_history)
  note A = hist_addrs_nth [OF l]
  show e: "obj_history db k ! i = entry ?hp (ring_addr ?m i)"
    using l A(1) by (simp add: obj_history_def history_def)
  have "ring_addr ?m i \<in> set (hist_addrs ?hp ?m)" using l A(1) by (metis nth_mem)
  then have s: "int base_size \<le> m_size ?hp (ring_addr ?m i)" "m_size ?hp (ring_addr ?m i) \<le> size_max ?m"
    using ok by (simp_all add: obj_ok_def sizes_ok_def)
  then show "m_committed_ts ?hp (ring_addr ?m i) = b_committed_ts (obj_history db k ! i)"
    "m_size ?hp (ring_addr ?m i) = int (length (obj_history db k ! i))"
    "int (length (obj_history db k ! i)) \<le> size_max ?m" by (simp_all add: e entry_fields)
  show "m_committed_ts ?hp (ring_addr ?m i) \<noteq> invalid_ts"
    using A(2) by (auto simp: valid_def CMP_INT64_HIGH_def)
  show "int i < history_size ?m" by (rule A(3))
qed

text \<open>A move to an entry of the history.\<close>

lemma step_to_entry:
  assumes ok: "obj_ok db k" and s: "at_entry db k i s" and j: "j < length (obj_history db k)"
    and off: "\<bar>off\<bar> < history_size (objmeta db ! k)"
    and ij: "int j mod history_size (objmeta db ! k) = (int i - off) mod history_size (objmeta db ! k)"
  shows "kogmo_rtdb_obj_readdataslot_ptr 1 off s db =
    (let ti = b_committed_ts (obj_history db k ! i); tj = b_committed_ts (obj_history db k ! j);
         s' = s\<lparr>s_history_slot := ring_slot (objmeta db ! k) j\<rparr>
     in if off < 0 \<and> tj > ti then Some (Inl ERR_HISTWRAP, s', None)
        else if off > 0 \<and> tj < ti then Some (Inl ERR_TOOFAST, s', None)
        else Some (Inr (int (length (obj_history db k ! j))), s'\<lparr>s_committed_ts := tj\<rparr>,
                   Some (ring_addr (objmeta db ! k) j)))"
proof -
  let ?m = "objmeta db ! k"
  have r: "ring_ok ?m" using ok by (simp add: obj_ok_def)
  have i: "i < length (obj_history db k)" using s by (simp add: at_entry_def)
  have hs: "history_size ?m \<noteq> 0" using ring_okD(2) [OF r] by simp
  note I = history_entry [OF ok i] and J = history_entry [OF ok j]
  show ?thesis
    using s hs I J ring_slot_move [OF r off ij] slot_addr_ring [OF r, of i] slot_addr_ring [OF r, of j]
    by (simp add: kogmo_rtdb_obj_readdataslot_ptr_def slot_step_def at_entry_def Let_def)
qed

text \<open>
  A reader that stands at an entry of the history and moves by an offset reads exactly the
  entry that many commits newer (or older), and then stands there, as long as the target is
  in the history.
\<close>
theorem slot_relative_reads:
  assumes ok: "obj_ok db k" and s: "at_entry db k i s" and n: "newest_first (obj_history db k)"
    and j: "j < length (obj_history db k)" and sz: "size_max (objmeta db ! k) \<le> sz"
  shows "\<exists>s'. kogmo_rtdb_obj_readdataslot_relative s (int i - int j) buf sz db
      = Some (Inr (int (length (obj_history db k ! j))),
              obj_history db k ! j @ drop (length (obj_history db k ! j)) buf, s')
    \<and> at_entry db k j s'"
proof -
  let ?m = "objmeta db ! k" and ?off = "int i - int j" and ?e = "obj_history db k ! j"
  have i: "i < length (obj_history db k)" using s by (simp add: at_entry_def)
  note I = history_entry [OF ok i] and J = history_entry [OF ok j]
  have off: "\<bar>?off\<bar> < history_size ?m" using I(6) J(6) by linarith
  have ord: "b_committed_ts (obj_history db k ! b) \<le> b_committed_ts (obj_history db k ! a)"
    if "a < b" "b < length (obj_history db k)" for a b
    using sorted_wrt_nth_less [OF n [unfolded newest_first_def] that] by simp
  have no: "\<not> (?off < 0 \<and> b_committed_ts ?e > b_committed_ts (obj_history db k ! i))"
    "\<not> (?off > 0 \<and> b_committed_ts ?e < b_committed_ts (obj_history db k ! i))"
    using ord [of i j] ord [of j i] i j by auto
  define s' where "s' = s\<lparr>s_history_slot := ring_slot ?m j, s_committed_ts := b_committed_ts ?e\<rparr>"
  have 1: "kogmo_rtdb_obj_readdataslot_ptr 1 ?off s db = Some (Inr (int (length ?e)), s', Some (ring_addr ?m j))"
    using step_to_entry [OF ok s j off] no by (simp add: Let_def s'_def)
  have s': "at_entry db k j s'" using s j by (simp add: at_entry_def s'_def)
  have z: "\<bar>0\<bar> < history_size ?m" using off by linarith
  have 2: "kogmo_rtdb_obj_readdataslot_ptr 1 0 s' db = Some (Inr (int (length ?e)), s', Some (ring_addr ?m j))"
    using step_to_entry [OF ok s' j z] by (simp add: Let_def) (simp add: s'_def)
  have n: "nat (if int (length ?e) < sz then int (length ?e) else sz) = length ?e"
    using J(5) sz by auto
  have c: "ldb (heap db) (ring_addr ?m j) (length ?e) = ?e"
    using J(2,4) by (simp add: entry_def)
  show ?thesis
    using s' by (intro exI [of _ s']) (simp add: kogmo_rtdb_obj_readdataslot_relative_def 1 2 Let_def n c)
qed

text \<open>Going back to the latest block.\<close>

lemma reinit_latest:
  assumes ok: "obj_ok db k" and k: "kogmo_rtdb_obj_findmeta_byid (s_oid s) db = Some k"
    and h: "0 \<le> history_slot (objmeta db ! k)" "obj_history db k \<noteq> []"
  shows "\<exists>s' p. kogmo_rtdb_obj_readdataslot_ptr 0 0 s db = Some (Inr (int (length (hd (obj_history db k)))), s', p)
    \<and> at_entry db k 0 s'"
proof -
  let ?m = "objmeta db ! k"
  have r: "ring_ok ?m" using ok by (simp add: obj_ok_def)
  have l: "0 < length (obj_history db k)" using h(2) by simp
  have kl: "k < length (objmeta db)" "oid ?m = s_oid s"
    using k by (auto simp: kogmo_rtdb_obj_findmeta_byid_def scan_first_Some)
  note H = history_entry [OF ok l]
  have hs: "history_size ?m \<noteq> 0" "\<bar>0\<bar> < history_size ?m" using ring_okD(2) [OF r] by simp_all
  have 0: "ring_slot ?m 0 = history_slot ?m" using r h(1) by (simp add: ring_slot_def ring_ok_def)
  have "c_rem 0 (history_size ?m) = 0" by (simp add: c_rem_def)
  with ring_slot_move [OF r hs(2), of 0 0]
  have "c_rem (int32 (int32 (ring_slot ?m 0) + history_size ?m)) (history_size ?m) = ring_slot ?m 0" by simp
  with hs(1) h l kl k H 0 slot_addr_ring [OF r, of 0] \<open>c_rem 0 _ = 0\<close> show ?thesis
    by (simp add: kogmo_rtdb_obj_readdataslot_ptr_def slot_step_def at_entry_def Let_def hd_conv_nth)
qed

text \<open>
  A reader cannot run off the ends of a full ring unnoticed: moving past the oldest entry is
  reported as a history wrap, moving past the newest one as too fast, and either way the
  reader is set back to the newest entry.
\<close>
theorem slot_wrap_detected:
  assumes ok: "obj_ok db k" and s: "at_entry db k i s" and k: "kogmo_rtdb_obj_findmeta_byid (s_oid s) db = Some k"
    and h: "0 \<le> history_slot (objmeta db ! k)"
    and n: "sorted_wrt (\<lambda>a b. b_committed_ts b < b_committed_ts a) (obj_history db k)"
    and full: "int (length (obj_history db k)) = history_size (objmeta db ! k)"
    and off: "\<bar>off\<bar> < history_size (objmeta db ! k)" "int i - off < 0 \<or> history_size (objmeta db ! k) \<le> int i - off"
  shows "\<exists>s'. kogmo_rtdb_obj_readdataslot_relative s off buf sz db
      = Some (Inl (if off < 0 then ERR_HISTWRAP else ERR_TOOFAST), buf, s') \<and> at_entry db k 0 s'"
proof -
  let ?m = "objmeta db ! k" and ?xs = "obj_history db k"
  have i: "i < length ?xs" using s by (simp add: at_entry_def)
  have ord: "b_committed_ts (?xs ! b) < b_committed_ts (?xs ! a)" if "a < b" "b < length ?xs" for a b
    using sorted_wrt_nth_less [OF n that] .
  define j where "j = (if off < 0 then nat (int i - off - history_size ?m) else nat (int i - off + history_size ?m))"
  have c: "(off < 0 \<and> history_size ?m \<le> int i - off) \<or> (off > 0 \<and> int i - off < 0)"
    using off(2) i full by linarith
  have jj: "int j = (if off < 0 then int i - off - history_size ?m else int i - off + history_size ?m)"
    using c off(1) by (auto simp: j_def)
  have j: "j < length ?xs" using jj c off(1) i full by (auto split: if_splits)
  have m: "int j mod history_size ?m = (int i - off) mod history_size ?m" by (simp add: jj)
  have e: "(off < 0 \<and> b_committed_ts (?xs ! j) > b_committed_ts (?xs ! i))
      \<or> (off > 0 \<and> b_committed_ts (?xs ! j) < b_committed_ts (?xs ! i))"
    using c jj ord [of j i] ord [of i j] i j off(1) by auto
  let ?s = "s\<lparr>s_history_slot := ring_slot ?m j\<rparr>" and ?e = "if off < 0 then ERR_HISTWRAP else ERR_TOOFAST"
  have p: "kogmo_rtdb_obj_readdataslot_ptr 1 off s db = Some (Inl ?e, ?s, None)"
    unfolding step_to_entry [OF ok s j off(1) m] using e by (auto simp: Let_def)
  have k': "kogmo_rtdb_obj_findmeta_byid (s_oid ?s) db = Some k" using k by simp
  have ne: "?xs \<noteq> []" using i by auto
  from reinit_latest [OF ok k' h ne] obtain s' q where
    r: "kogmo_rtdb_obj_readdataslot_ptr 0 0 ?s db = Some (Inr (int (length (hd ?xs))), s', q)" "at_entry db k 0 s'"
    by blast
  have "c_ret (Inl ?e) < 0" by (rule c_ret_neg)
  with p r show ?thesis
    by (intro exI [of _ s']) (simp add: kogmo_rtdb_obj_readdataslot_relative_def slot_reinit_def)
qed

text \<open>
  C20: A reader notices when the entry it stands at is overwritten: after a commit to a full ring,
  the check of a position at the oldest entry reports a history wrap.
\<close>
theorem slot_overwrite_detected:
  assumes k: "kogmo_rtdb_obj_findmeta_byid i db = Some k" and ok: "obj_ok db k" and s: "at_entry db k n s"
    and full: "int (Suc n) = history_size (objmeta db ! k)"
    and t: "time_ok (fst (kogmo_rtdb_timestamp_now db))" and l: "b_size data \<le> int (length data)"
    and w: "kogmo_rtdb_obj_writedata h i data db = (Inr v, data', db')"
    and new: "s_committed_ts s < fst (kogmo_rtdb_timestamp_now db)"
  shows "\<exists>s'. kogmo_rtdb_obj_readdataslot_check s db' = Some (Inl ERR_HISTWRAP, s')"
proof -
  let ?m = "objmeta db ! k" and ?m' = "objmeta db' ! k"
  have r: "ring_ok ?m" using ok by (simp add: obj_ok_def)
  note H = writedata_history [OF w k ok t l]
  have bl: "base_size \<le> length data" using writedata_ok(5) [OF w k] l by simp
  have kl: "k < length (objmeta db)" "oid ?m = i"
    using k by (auto simp: kogmo_rtdb_obj_findmeta_byid_def scan_first_Some)
  note D = writedata_db(1,2) [OF w k bl]
  have m': "?m' = advanced ?m" using D(1) kl by simp
  note C = commit_bytes_fields(1) [OF writedata_ok(5) [OF w k] l, of h]
  have cap: "0 < nat (history_size ?m)" using ring_okD(2) [OF r] by simp
  have l0: "0 < length (obj_history db' k)" using H(1) cap by simp
  have h0: "obj_history db' k ! 0 = committed (commit_time db ?m) (commit_bytes h data)" using H(1) cap by simp
  have lb: "base_size \<le> length (commit_bytes h data)" using C writedata_ok(5) [OF w k] by simp
  have "b_committed_ts (obj_history db' k ! 0) = commit_time db ?m"
    using committed_fields(1) [OF lb, of "commit_time db ?m"] commit_time_ok [OF t, of ?m] h0
    by (simp add: in_int64_def)
  moreover have "ring_slot ?m n = ring_slot ?m' 0"
  proof -
    have "ring_slot ?m n = (history_slot ?m - (history_size ?m - 1)) mod history_size ?m"
    proof -
      have "int n = history_size ?m - 1" using full by simp
      then show ?thesis by (simp only: ring_slot_def)
    qed
    also have "history_slot ?m - (history_size ?m - 1) = history_slot ?m + 1 - history_size ?m" by simp
    also have "(history_slot ?m + 1 - history_size ?m) mod history_size ?m = next_slot ?m"
      by (simp only: next_slot_mod [OF r] minus_mod_self2)
    finally show ?thesis by (simp add: m' ring_slot_advanced_0 [OF r])
  qed
  moreover note E = history_entry(1,3) [OF H(2) l0]
  moreover have r': "ring_ok ?m'" using H(2) by (simp add: obj_ok_def)
  have z: "\<bar>0\<bar> < history_size ?m'" using ring_okD(2) [OF r'] by simp
  have "c_rem (int32 (int32 (ring_slot ?m' 0 + c_rem 0 (history_size ?m')) + history_size ?m')) (history_size ?m')
      = ring_slot ?m' 0" using ring_slot_move [OF r' z, of 0 0] by simp
  moreover have "history_size ?m' \<noteq> 0" "oid ?m' = s_oid s" "k < length (objmeta db')"
    using z s kl D(1) by (simp_all add: m' at_entry_def)
  moreover have "s_committed_ts s \<noteq> commit_time db ?m" using new commit_time_ok(3) [OF t, of ?m] by simp
  ultimately show ?thesis
    using s slot_addr_ring [OF r', of 0]
    by (simp add: kogmo_rtdb_obj_readdataslot_check_def kogmo_rtdb_obj_readdataslot_ptr_def slot_step_def
        at_entry_def Let_def)
qed

section \<open>A reader of the sample object after three commits\<close>

definition ex_clock :: rtdb where
  "ex_clock = ex_db\<lparr>clock := (\<lambda>t. Some (10 + int (min t 9), 0))\<rparr>"

definition ex_three :: rtdb where
  "ex_three = write_all ex_h 2 [ex_data, ex_data, ex_data] ex_clock"

definition ex_reader :: "nat \<Rightarrow> obj_slot" where
  "ex_reader i = \<lparr>s_oid = 2, s_committed_ts = 12000000000 - 1000000000 * int i, s_object_slot = 1,
     s_history_slot = 2 - int i\<rparr>"

lemma ex_clock_times: "times_ok ex_clock"
proof -
  have "time_ok (kogmo_timestamp_now (Some (10 + int (min t 9), 0)))" for t
    by (simp add: time_ok_def kogmo_timestamp_now_def TICKSPERSECOND_def in_int64_def)
  then show ?thesis by (simp add: times_ok_def ex_clock_def)
qed
lemma ex_three_times: "map b_committed_ts (obj_history ex_three 1) = [12000000000, 11000000000, 10000000000]"
  by code_simp

lemma ex_three_slot: "history_slot (objmeta ex_three ! 1) = 2" "history_size (objmeta ex_three ! 1) = 3"
  "size_max (objmeta ex_three ! 1) = 32" "oid (objmeta ex_three ! 1) = 2"
  "length (objmeta ex_three) = 4" "kogmo_rtdb_obj_findmeta_byid 2 ex_three = Some 1"
  by code_simp+

lemma ex_three_ok: "obj_ok ex_three 1"
proof -
  have "obj_ok ex_clock 1" using ex_obj_ok by (simp add: ex_clock_def obj_ok_def)
  moreover have "kogmo_rtdb_obj_findmeta_byid 2 ex_clock = Some 1"
    using ex_find(2) by (simp add: ex_clock_def kogmo_rtdb_obj_findmeta_byid_def)
  ultimately show ?thesis
    using write_all_history [of 2 ex_clock 1 "[ex_data, ex_data, ex_data]" ex_h] ex_clock_times
    by (simp add: ex_three_def)
qed

lemma ex_three_nth: "i < 3 \<Longrightarrow> b_committed_ts (obj_history ex_three 1 ! i) = 12000000000 - 1000000000 * int i"
  "length (obj_history ex_three 1) = 3"
proof -
  show l: "length (obj_history ex_three 1) = 3" using ex_three_times by (metis length_map length_Cons list.size(3) numeral_3_eq_3)
  assume "i < 3"
  then have "b_committed_ts (obj_history ex_three 1 ! i) = map b_committed_ts (obj_history ex_three 1) ! i"
    using l by simp
  with \<open>i < 3\<close> show "b_committed_ts (obj_history ex_three 1 ! i) = 12000000000 - 1000000000 * int i"
    unfolding ex_three_times by (auto simp: less_Suc_eq numeral_3_eq_3)
qed

lemma ex_reader_at: "i < 3 \<Longrightarrow> at_entry ex_three 1 i (ex_reader i)"
  using ex_three_nth(1) [of i] ex_three_nth(2) ex_three_slot
  by (simp add: at_entry_def ex_reader_def ring_slot_def)

lemma ex_three_sorted: "sorted_wrt (\<lambda>a b. b_committed_ts b < b_committed_ts a) (obj_history ex_three 1)"
proof -
  have "sorted_wrt (\<lambda>a b. b < a) (map b_committed_ts (obj_history ex_three 1))" unfolding ex_three_times by simp
  then show ?thesis by (simp add: sorted_wrt_map)
qed

theorem slot_relative_reads_witness:
  "\<exists>s'. kogmo_rtdb_obj_readdataslot_relative (ex_reader 2) 1 [] 32 ex_three
      = Some (Inr (int (length (obj_history ex_three 1 ! 1))), obj_history ex_three 1 ! 1, s')
    \<and> at_entry ex_three 1 1 s'"
proof -
  have "newest_first (obj_history ex_three 1)"
    using ex_three_sorted by (simp add: newest_first_def sorted_wrt_iff_nth_less less_imp_le)
  then show ?thesis
    using slot_relative_reads [OF ex_three_ok ex_reader_at [of 2], of 1 32 "[]"] ex_three_nth(2) ex_three_slot(3)
    by simp
qed

theorem slot_wrap_detected_witness:
  "\<exists>s'. kogmo_rtdb_obj_readdataslot_relative (ex_reader 2) (- 1) [] 32 ex_three = Some (Inl ERR_HISTWRAP, [], s')
    \<and> at_entry ex_three 1 0 s'"
  using slot_wrap_detected [OF ex_three_ok ex_reader_at [of 2] _ _ ex_three_sorted, of "- 1" "[]" 32]
    ex_three_nth(2) ex_three_slot
  by (simp add: ex_reader_def)

lemma ex_three_now: "fst (kogmo_rtdb_timestamp_now ex_three) = 13000000000"
  by code_simp

lemma ex_three_write: "fst (kogmo_rtdb_obj_writedata ex_h 2 ex_data ex_three) = Inr 0"
  by code_simp

theorem slot_overwrite_detected_witness:
  "\<exists>s'. kogmo_rtdb_obj_readdataslot_check (ex_reader 2)
      (snd (snd (kogmo_rtdb_obj_writedata ex_h 2 ex_data ex_three))) = Some (Inl ERR_HISTWRAP, s')"
proof -
  have w: "kogmo_rtdb_obj_writedata ex_h 2 ex_data ex_three = (Inr 0,
      fst (snd (kogmo_rtdb_obj_writedata ex_h 2 ex_data ex_three)),
      snd (snd (kogmo_rtdb_obj_writedata ex_h 2 ex_data ex_three)))"
    using ex_three_write by (simp add: prod_eq_iff)
  show ?thesis
    using slot_overwrite_detected [OF ex_three_slot(6) ex_three_ok ex_reader_at [of 2] _ _ _ w]
      ex_three_slot(2) ex_three_now ex_data_len
    by (simp add: time_ok_def ex_reader_def)
qed

end
