(* ===== verification/Ipc_Process.thy ===== *)
theory Ipc_Process
  imports Slot_Table Rtdb_Types
begin

text \<open>
  The shared segment and its process table (\<open>rtdb/kogmo_rtdb_ipc_posix.c\<close>): connecting to the
  segment, entering a process into a free slot, leaving it again. What the operating system
  answers is the record \<open>ipc_env\<close>.
\<close>

section \<open>State\<close>

record ipc_process =
  proc_oid :: int
  connected_ts :: timestamp
  disconnected_ts :: timestamp
  cycletime :: cfloat
  pid :: int
  tid :: int
  p_flags :: "32 word"
  p_name :: "char list"

definition zero_process :: ipc_process where
  "zero_process = \<lparr>proc_oid = 0, connected_ts = 0, disconnected_ts = 0, cycletime = 0, pid = 0, tid = 0,
     p_flags = 0, p_name = replicate NAME_MAXLEN NUL\<rparr>"

text \<open>The segment; the data of the database follows the process table.\<close>

record ipc_shm =
  revision :: int
  manager_pid :: int
  manager_alive_ts :: timestamp
  proc :: "ipc_process list"
  proc_free :: int
  proc_oid_next :: int
  data_size :: int
  local_data :: rtdb

text \<open>The process-local handle; \<open>mapped\<close>: \<open>shm_p\<close> is not NULL.\<close>

record ipc_handle =
  shmid :: "char list"
  mapped :: bool
  shm_size :: int
  this_process :: ipc_process
  this_process_slot :: int

text \<open>One attempt of a client to open the segment.\<close>

datatype shm_probe = Shm_missing | Shm_error | Shm_stat_failed | Shm_uninitialised | Shm_open

text \<open>\<open>e_rev\<close> is \<open>KOGMO_RTDB_REV\<close>, which the build writes into a header.\<close>

record ipc_env =
  e_rev :: int
  e_pid :: int
  e_tid :: int
  e_start :: clock_reading
  e_attach :: clock_reading
  e_nohandlers :: bool
  e_handlers_ok :: bool
  e_shm_created :: bool
  e_shm_sized :: bool
  e_shm_probes :: "shm_probe list"
  e_premapped :: bool
  e_mapped :: bool
  e_sizeof_shm :: int
  e_proc_max :: nat
  e_obj_max :: nat

definition MANAGER_ALIVE_INTERVAL :: cfloat where
  "MANAGER_ALIVE_INTERVAL = 1 / 4"

definition on_error :: "32 word \<Rightarrow> rtdb_error \<Rightarrow> (rtdb_error + 'a) outcome" where
  "on_error fl e = (if has_flag fl FLAG_LIVEONERR then Returned (Inl e) else Died)"

definition shm_emit :: "ipc_call \<Rightarrow> ipc_shm \<Rightarrow> ipc_shm" where
  "shm_emit c s = s\<lparr>local_data := emit c (local_data s)\<rparr>"

section \<open>Connecting\<close>

text \<open>The name of the segment; \<open>None\<close> when it is too long for its array.\<close>

definition shm_name :: "char list option \<Rightarrow> char list option" where
  "shm_name dbhost =
     (let s = (case dbhost of None \<Rightarrow> ''/kogmo_rtdb''
               | Some d \<Rightarrow> if cstr d = [] then ''/kogmo_rtdb''
                           else ''/kogmo_rtdb'' @ ''.'' @ take NAME_MAXLEN (cstr d))
      in if length s < NAME_MAXLEN then Some s else None)"

definition process_flags :: "32 word \<Rightarrow> 32 word" where
  "process_flags fl = (if has_flag fl FLAG_SPECTATOR
     then and (and fl (not FLAG_MANAGER)) (not FLAG_REALTIME) else fl)"

definition process_info :: "ipc_env \<Rightarrow> char list \<Rightarrow> cfloat \<Rightarrow> 32 word \<Rightarrow> ipc_process \<Rightarrow> ipc_process" where
  "process_info e procname cyc fl p =
     p\<lparr>proc_oid := 0, connected_ts := kogmo_timestamp_now (e_start e), cycletime := cyc, pid := e_pid e,
       tid := e_tid e, p_name := (strncpy NAME_MAXLEN procname)[NAME_MAXLEN - 1 := NUL],
       p_flags := process_flags fl\<rparr>"

text \<open>
  The client's loop until the segment is there and initialised: \<open>Some True\<close> when it is, \<open>Some False\<close>
  when the process does not want to wait, \<open>None\<close> while it goes on waiting.
\<close>

fun await_shm :: "32 word \<Rightarrow> shm_probe list \<Rightarrow> bool option" where
  "await_shm fl [] = None"
| "await_shm fl (a # as) =
     (if a = Shm_open then Some True
      else if has_flag fl FLAG_TRYNOWAIT then Some False
      else await_shm fl as)"

text \<open>\<open>memset\<close> of the segment; the clock and the call log are not part of it.\<close>

definition zero_rtdb :: "nat \<Rightarrow> rtdb \<Rightarrow> rtdb" where
  "zero_rtdb obj_max db = db\<lparr>objmeta_oid_next := 0, objmeta := replicate obj_max zero_info, objmeta_free := 0,
     rtdb_trace := 0, rtdb_tracebufsize := 0, simmode := False, db_no_notifies := False, sim_ts := 0,
     default_history_interval := 0, default_max_cycletime := 0, default_keep_deleted_interval := 0,
     heap_size := 0, heap_free := 0, heap_used := 0, heap := (\<lambda>_. 0)\<rparr>"

definition manager_init :: "ipc_env \<Rightarrow> int \<Rightarrow> ipc_shm \<Rightarrow> ipc_shm" where
  "manager_init e dsize s =
     \<lparr>revision = e_rev e, manager_pid = e_pid e, manager_alive_ts = 0,
      proc = replicate (e_proc_max e) zero_process, proc_free = int (e_proc_max e), proc_oid_next = 2,
      data_size = dsize, local_data = zero_rtdb (e_obj_max e) (local_data s)\<rparr>"

text \<open>A new process id, entered into the first free slot.\<close>

definition proc_enter :: "ipc_process \<Rightarrow> ipc_shm \<Rightarrow> (nat \<times> ipc_process) option \<times> ipc_shm" where
  "proc_enter p s =
     (let s = shm_emit (Lock Proc_lock) s
      in case scan_first (\<lambda>q. proc_oid q = 0) (proc s) of
           None \<Rightarrow> (None, shm_emit (Unlock Proc_lock) s)
         | Some i \<Rightarrow>
             let p = p\<lparr>proc_oid := int32 (proc_oid_next s)\<rparr>;
                 s = s\<lparr>proc_oid_next := uint64 (proc_oid_next s + 1), proc_free := uint32 (proc_free s - 1),
                       proc := (proc s)[i := p]\<rparr>
             in (Some (i, p), shm_emit (Unlock Proc_lock) s))"

definition manager_dead :: "ipc_env \<Rightarrow> ipc_shm \<Rightarrow> bool" where
  "manager_dead e s \<longleftrightarrow>
     f32 (kogmo_timestamp_diff_secs (manager_alive_ts s) (kogmo_timestamp_now (e_attach e)))
       > MANAGER_ALIVE_INTERVAL * 3"

type_synonym connect_result = "(rtdb_error + int \<times> int \<times> ipc_handle) outcome option"

text \<open>The manager: a new segment, mapped and initialised.\<close>

definition connect_manager :: "ipc_env \<Rightarrow> int \<Rightarrow> ipc_handle \<Rightarrow> ipc_shm \<Rightarrow> connect_result \<times> ipc_shm" where
  "connect_manager e dsize ih s =
     (let fl = p_flags (this_process ih)
      in if \<not> e_shm_created e then (Some (on_error fl ERR_UNKNOWN), s)
         else if \<not> e_shm_sized e then (Some (on_error fl ERR_UNKNOWN), s)
         else if \<not> e_mapped e then (Some (on_error fl ERR_UNKNOWN), s)
         else
           let ih = ih\<lparr>shm_size := e_sizeof_shm e + dsize, mapped := True,
                       this_process := (this_process ih)\<lparr>proc_oid := 1\<rparr>\<rparr>
           in (Some (Returned (Inr (1, dsize, ih))), manager_init e dsize s))"

text \<open>A client's checks of the segment: \<open>None\<close> is a wait for the manager to finish.\<close>

definition connect_attach :: "ipc_env \<Rightarrow> 32 word \<Rightarrow> ipc_shm \<Rightarrow> (rtdb_error + unit) outcome option" where
  "connect_attach e fl s =
     (case await_shm fl (e_shm_probes e) of
        None \<Rightarrow> None
      | Some False \<Rightarrow> Some (Returned (Inl ERR_CONNDENY))
      | Some True \<Rightarrow>
          if \<not> e_premapped e then Some (on_error fl ERR_UNKNOWN)
          else if manager_alive_ts s = 0 then None
          else if revision s \<noteq> e_rev e then Some (on_error fl ERR_UNKNOWN)
          else if \<not> e_mapped e then Some (on_error fl ERR_UNKNOWN)
          else if manager_dead e s then Some (on_error fl ERR_UNKNOWN)
          else Some (Returned (Inr ())))"

text \<open>A spectator has mapped the segment for reading only, so taking the lock faults.\<close>

definition connect_client :: "ipc_env \<Rightarrow> ipc_handle \<Rightarrow> ipc_shm \<Rightarrow> connect_result \<times> ipc_shm" where
  "connect_client e ih s =
     (let fl = p_flags (this_process ih)
      in case connect_attach e fl s of
           None \<Rightarrow> (None, s)
         | Some Died \<Rightarrow> (Some Died, s)
         | Some Faulted \<Rightarrow> (Some Faulted, s)
         | Some (Returned (Inl err)) \<Rightarrow> (Some (Returned (Inl err)), s)
         | Some (Returned (Inr _)) \<Rightarrow>
             let ih = ih\<lparr>shm_size := e_sizeof_shm e + data_size s, mapped := True\<rparr>
             in if has_flag fl FLAG_SPECTATOR then (Some Faulted, s)
                else case proc_enter (this_process ih) s of
                       (None, s) \<Rightarrow> (Some (on_error fl ERR_OUTOFOBJ), s)
                     | (Some (i, p), s) \<Rightarrow>
                         (Some (Returned (Inr (proc_oid p, data_size s,
                            ih\<lparr>this_process := p, this_process_slot := int i\<rparr>))), s))"

definition kogmo_rtdb_ipc_connect ::
    "ipc_env \<Rightarrow> ipc_handle \<Rightarrow> char list option \<Rightarrow> char list \<Rightarrow> cfloat \<Rightarrow> 32 word \<Rightarrow> int \<Rightarrow> ipc_shm
      \<Rightarrow> connect_result \<times> ipc_shm" where
  "kogmo_rtdb_ipc_connect e ih dbhost procname cyc fl dsize s =
     (case shm_name dbhost of
        None \<Rightarrow> (Some Faulted, s)
      | Some nm \<Rightarrow>
          if cstr procname = [] then (Some (on_error fl ERR_CONNDENY), s)
          else
            let ih = ih\<lparr>shmid := nm, mapped := False,
                        this_process := process_info e procname cyc fl (this_process ih)\<rparr>;
                fl = p_flags (this_process ih);
                no_handlers = (has_flag fl FLAG_NOHANDLERS \<or> e_nohandlers e)
            in if \<not> no_handlers \<and> \<not> e_handlers_ok e then (Some (on_error fl ERR_UNKNOWN), s)
               else if has_flag fl FLAG_MANAGER then connect_manager e dsize ih s
               else connect_client e ih s)"

section \<open>Disconnecting\<close>

text \<open>\<open>memset\<close> of a slot; \<open>disconnected_ts\<close> is set before, so a clock reading is taken.\<close>

definition proc_clear :: "nat \<Rightarrow> ipc_shm \<Rightarrow> ipc_shm" where
  "proc_clear i s = s\<lparr>proc := (proc s)[i := zero_process], proc_free := uint32 (proc_free s + 1)\<rparr>"

definition proc_leave_slot :: "int \<Rightarrow> nat \<Rightarrow> ipc_shm \<Rightarrow> ipc_shm" where
  "proc_leave_slot p i s =
     (if proc_oid (proc s ! i) = p
      then (proc_clear i s)\<lparr>local_data := (local_data s)\<lparr>ticks := Suc (ticks (local_data s))\<rparr>\<rparr> else s)"

definition proc_leave :: "int \<Rightarrow> ipc_shm \<Rightarrow> ipc_shm" where
  "proc_leave p s =
     (let s = shm_emit (Lock Proc_lock) s;
          s = fold (proc_leave_slot p) [0..<length (proc s)] s
      in shm_emit (Unlock Proc_lock) s)"

definition kogmo_rtdb_ipc_disconnect :: "ipc_handle \<Rightarrow> ipc_shm \<Rightarrow> int \<times> ipc_handle \<times> ipc_shm" where
  "kogmo_rtdb_ipc_disconnect ih s =
     (if \<not> mapped ih then (0, ih, s)
      else
        let s = (if has_flag (p_flags (this_process ih)) FLAG_MANAGER then s
                 else if proc_oid (this_process ih) \<noteq> 0 then proc_leave (proc_oid (this_process ih)) s
                 else s)
        in (0, ih\<lparr>mapped := False\<rparr>, s))"

end
