(* ===== verification/Process_Table.thy ===== *)
theory Process_Table
  imports Ipc_Process
begin

text \<open>
  The process table as a state machine: its invariant over every interleaving of processes that
  enter, leave and are cleared by the manager, and what connecting and disconnecting do to it.
\<close>

section \<open>The table as a slot table\<close>

interpretation procs: slot_table proc_oid "\<lambda>_. zero_process"
  by unfold_locales (simp add: zero_process_def)

definition procs_ok :: "ipc_shm \<Rightarrow> bool" where
  "procs_ok s \<longleftrightarrow> unique_keys proc_oid (proc s) \<and> proc_free s = int (free_slots proc_oid (proc s))
     \<and> (\<forall>p \<in> set (proc s). proc_oid p < proc_oid_next s) \<and> (\<forall>p \<in> set (proc s). proc_oid p = 0 \<longrightarrow> p = zero_process)
     \<and> length (proc s) < 2 ^ 32 \<and> 2 \<le> proc_oid_next s"

lemma zero_process_oid [simp]: "proc_oid zero_process = 0"
  by (simp add: zero_process_def)

lemma shm_emit_simps [simp]:
  "proc (shm_emit c s) = proc s" "proc_free (shm_emit c s) = proc_free s"
  "proc_oid_next (shm_emit c s) = proc_oid_next s" "revision (shm_emit c s) = revision s"
  "manager_alive_ts (shm_emit c s) = manager_alive_ts s" "data_size (shm_emit c s) = data_size s"
  "manager_pid (shm_emit c s) = manager_pid s" "local_data (shm_emit c s) = emit c (local_data s)"
  by (simp_all add: shm_emit_def)

lemma procs_ok_cong:
  "proc s' = proc s \<Longrightarrow> proc_free s' = proc_free s \<Longrightarrow> proc_oid_next s' = proc_oid_next s \<Longrightarrow> procs_ok s' = procs_ok s"
  by (simp add: procs_ok_def)

lemma manager_init_ok: "e_proc_max e < 2 ^ 32 \<Longrightarrow> procs_ok (manager_init e n s)"
  by (simp add: manager_init_def procs_ok_def unique_keys_def free_slots_def)

lemma proc_enter_cases:
  assumes "proc_enter p s = (r, s')"
  obtains "r = None" "\<forall>q \<in> set (proc s). proc_oid q \<noteq> 0" "proc s' = proc s" "proc_free s' = proc_free s"
      "proc_oid_next s' = proc_oid_next s"
  | i p' where "r = Some (i, p')" "scan_first (\<lambda>q. proc_oid q = 0) (proc s) = Some i"
      "p' = p\<lparr>proc_oid := int32 (proc_oid_next s)\<rparr>" "proc s' = (proc s)[i := p']"
      "proc_free s' = uint32 (proc_free s - 1)" "proc_oid_next s' = uint64 (proc_oid_next s + 1)"
proof (cases "scan_first (\<lambda>q. proc_oid q = 0) (proc s)")
  case None
  with assms show ?thesis by (intro that(1)) (auto simp: proc_enter_def scan_first_None)
next
  case (Some i)
  with assms show ?thesis by (intro that(2)) (auto simp: proc_enter_def Let_def)
qed

lemma proc_enter_ok:
  assumes ok: "procs_ok s" and n: "proc_oid_next s < 2 ^ 31" and e: "proc_enter p s = (r, s')"
  shows "procs_ok s'"
  using e
proof (cases rule: proc_enter_cases)
  case 1 then show ?thesis using ok procs_ok_cong by blast
next
  case (2 i p')
  have next31: "int32 (proc_oid_next s) = proc_oid_next s"
    using n ok by (intro int32_id) (simp add: in_int32_def procs_ok_def)
  have k: "proc_oid p' = proc_oid_next s" "proc_oid_next s' = proc_oid_next s + 1"
    using 2 n ok next31 by (simp_all add: procs_ok_def)
  have i: "i < length (proc s)" "proc_oid (proc s ! i) = 0" using 2(2) by (simp_all add: scan_first_Some)
  have nz: "proc_oid p' \<noteq> 0" using k ok by (simp add: procs_ok_def)
  have f: "Suc (free_slots proc_oid (proc s')) = free_slots proc_oid (proc s)"
    unfolding 2(4) by (rule procs.free_insert [OF i nz])
  have "free_slots proc_oid (proc s) < 2 ^ 32" using free_slots_le [of proc_oid "proc s"] ok by (simp add: procs_ok_def)
  then have "proc_free s' = int (free_slots proc_oid (proc s'))"
    using 2(5) ok f by (simp add: procs_ok_def)
  moreover have "proc_oid p' \<notin> used_keys proc_oid (proc s)"
    using k ok by (auto simp: procs_ok_def used_keys_def)
  then have "unique_keys proc_oid (proc s')"
    unfolding 2(4) using ok by (intro procs.unique_insert) (auto simp: procs_ok_def)
  moreover have q: "q = p' \<or> q \<in> set (proc s)" if "q \<in> set (proc s')" for q
    using set_update_subset_insert [of "proc s" i p'] 2(4) that by auto
  have "\<forall>q \<in> set (proc s'). proc_oid q < proc_oid_next s'"
    using q k ok by (fastforce simp: procs_ok_def)
  moreover have "\<forall>q \<in> set (proc s'). proc_oid q = 0 \<longrightarrow> q = zero_process"
    using q nz ok by (auto simp: procs_ok_def)
  ultimately show ?thesis using ok k(2) 2(4) by (simp add: procs_ok_def)
qed

lemma proc_clear_ok:
  assumes ok: "procs_ok s" and i: "i < length (proc s)" "proc_oid (proc s ! i) \<noteq> 0"
  shows "procs_ok (proc_clear i s)"
proof -
  have f: "free_slots proc_oid ((proc s)[i := zero_process]) = Suc (free_slots proc_oid (proc s))"
    by (rule procs.free_release [OF i])
  have "free_slots proc_oid ((proc s)[i := zero_process]) < 2 ^ 32"
    using free_slots_le [of proc_oid "(proc s)[i := zero_process]"] ok by (simp add: procs_ok_def)
  with f ok have "uint32 (proc_free s + 1) = int (free_slots proc_oid ((proc s)[i := zero_process]))"
    by (simp add: procs_ok_def)
  moreover have "unique_keys proc_oid ((proc s)[i := zero_process])"
    using ok procs.unique_release [of "proc s" i] by (simp add: procs_ok_def)
  moreover have "\<forall>q \<in> set ((proc s)[i := zero_process]). q = zero_process \<or> q \<in> set (proc s)"
    using set_update_subset_insert [of "proc s" i zero_process] by auto
  ultimately show ?thesis using ok by (auto simp: procs_ok_def proc_clear_def)
qed

text \<open>The loop of a disconnect clears the slot of the process, if it has one.\<close>

definition left_slot :: "int \<Rightarrow> nat \<Rightarrow> ipc_shm \<Rightarrow> ipc_shm \<Rightarrow> bool" where
  "left_slot p n s s' \<longleftrightarrow> (\<forall>i < n. proc_oid (proc s ! i) \<noteq> p) \<and> s' = s
    \<or> (\<exists>i < n. proc_oid (proc s ! i) = p \<and> proc s' = proc (proc_clear i s) \<and> proc_free s' = proc_free (proc_clear i s)
        \<and> proc_oid_next s' = proc_oid_next s \<and> ipc_log (local_data s') = ipc_log (local_data s))"

lemma left_slot_step:
  assumes u: "unique_keys proc_oid (proc s)" "p \<noteq> 0" "n < length (proc s)" and l: "left_slot p n s s'"
  shows "left_slot p (Suc n) s (proc_leave_slot p n s')"
  using l unfolding left_slot_def [of p n]
proof (elim disjE exE conjE)
  assume a: "\<forall>i < n. proc_oid (proc s ! i) \<noteq> p" "s' = s"
  show ?thesis
  proof (cases "proc_oid (proc s ! n) = p")
    case True
    then have "proc_leave_slot p n s = (proc_clear n s)\<lparr>local_data := (local_data s)\<lparr>ticks := Suc (ticks (local_data s))\<rparr>\<rparr>"
      by (simp add: proc_leave_slot_def)
    with True show ?thesis
      unfolding left_slot_def a(2) by (intro disjI2 exI [of _ n]) (simp add: proc_clear_def)
  next
    case False
    with a show ?thesis by (simp add: left_slot_def proc_leave_slot_def less_Suc_eq)
  qed
next
  fix i assume i: "i < n" "proc_oid (proc s ! i) = p" "proc s' = proc (proc_clear i s)"
    "proc_free s' = proc_free (proc_clear i s)" "proc_oid_next s' = proc_oid_next s"
    "ipc_log (local_data s') = ipc_log (local_data s)"
  have "i = n" if "proc_oid (proc s ! n) = p"
    using u(1) [unfolded unique_keys_def, rule_format, of i n] u(2,3) i(1,2) that by simp
  then have "proc_oid (proc s ! n) \<noteq> p" using i(1) by blast
  with i u have "proc_leave_slot p n s' = s'" by (simp add: proc_leave_slot_def proc_clear_def)
  with i show ?thesis unfolding left_slot_def by (intro disjI2 exI [of _ i]) simp
qed

lemma proc_leave_fold:
  assumes "unique_keys proc_oid (proc s)" "p \<noteq> 0" "n \<le> length (proc s)"
  shows "left_slot p n s (fold (proc_leave_slot p) [0..<n] s)"
  using assms(3)
proof (induction n)
  case 0 show ?case by (simp add: left_slot_def)
next
  case (Suc n)
  then have "left_slot p n s (fold (proc_leave_slot p) [0..<n] s)" "n < length (proc s)" by simp_all
  from left_slot_step [OF assms(1,2) this(2,1)] show ?case by simp
qed

lemma proc_leave_cases:
  assumes ok: "procs_ok s" and p: "p \<noteq> 0"
  obtains "\<forall>q \<in> set (proc s). proc_oid q \<noteq> p" "proc (proc_leave p s) = proc s"
      "proc_free (proc_leave p s) = proc_free s" "proc_oid_next (proc_leave p s) = proc_oid_next s"
  | i where "i < length (proc s)" "proc_oid (proc s ! i) = p" "proc (proc_leave p s) = proc (proc_clear i s)"
      "proc_free (proc_leave p s) = proc_free (proc_clear i s)" "proc_oid_next (proc_leave p s) = proc_oid_next s"
proof -
  let ?s = "shm_emit (Lock Proc_lock) s"
  have u: "unique_keys proc_oid (proc ?s)" using ok by (simp add: procs_ok_def)
  from proc_leave_fold [OF u p order_refl] consider
      "\<forall>i < length (proc s). proc_oid (proc s ! i) \<noteq> p" "fold (proc_leave_slot p) [0..<length (proc s)] ?s = ?s"
    | i where "i < length (proc s)" "proc_oid (proc s ! i) = p"
        "proc (fold (proc_leave_slot p) [0..<length (proc s)] ?s) = proc (proc_clear i ?s)"
        "proc_free (fold (proc_leave_slot p) [0..<length (proc s)] ?s) = proc_free (proc_clear i ?s)"
        "proc_oid_next (fold (proc_leave_slot p) [0..<length (proc s)] ?s) = proc_oid_next ?s"
    unfolding left_slot_def by auto
  then show ?thesis
  proof cases
    case 1
    then show ?thesis by (intro that(1)) (auto simp: proc_leave_def in_set_conv_nth)
  next
    case (2 i)
    then show ?thesis by (intro that(2) [of i]) (simp_all add: proc_leave_def proc_clear_def)
  qed
qed

lemma proc_leave_ok:
  assumes ok: "procs_ok s" and p: "p \<noteq> 0"
  shows "procs_ok (proc_leave p s)"
  using ok p
proof (cases rule: proc_leave_cases)
  case 1 then show ?thesis using ok procs_ok_cong by blast
next
  case (2 i)
  have "procs_ok (proc_clear i s)" using 2 p ok by (intro proc_clear_ok) simp_all
  moreover have "proc_oid_next (proc_clear i s) = proc_oid_next s" by (simp add: proc_clear_def)
  ultimately show ?thesis using 2 procs_ok_cong [of "proc_leave p s" "proc_clear i s"] by simp
qed

section \<open>The state machine\<close>

text \<open>
  The changes of the segment: a client connects, disconnects, or its slot is cleared by the
  manager because it died; the manager sets its life sign, and processes work on the data.
  Connections end with the 32-bit process ids.
\<close>

inductive proc_step :: "ipc_shm \<Rightarrow> ipc_shm \<Rightarrow> bool" where
  connects: "proc_oid_next s < 2 ^ 31 \<Longrightarrow> kogmo_rtdb_ipc_connect e ih dbhost nm cyc fl dsize s = (r, s')
    \<Longrightarrow> \<not> has_flag (process_flags fl) FLAG_MANAGER \<Longrightarrow> proc_step s s'"
| disconnects: "kogmo_rtdb_ipc_disconnect ih s = (r, ih', s') \<Longrightarrow> proc_step s s'"
| cleared: "i < length (proc s) \<Longrightarrow> proc_oid (proc s ! i) \<noteq> 0 \<Longrightarrow> proc_step s (proc_clear i s)"
| works: "proc_step s (s\<lparr>manager_alive_ts := ts, local_data := db\<rparr>)"

inductive proc_reachable :: "ipc_shm \<Rightarrow> ipc_shm \<Rightarrow> bool" for s0 where
  start: "proc_reachable s0 s0"
| step: "proc_reachable s0 s \<Longrightarrow> proc_step s s' \<Longrightarrow> proc_reachable s0 s'"

lemma on_error_fails: "on_error x y \<noteq> Returned (Inr z)"
  by (simp add: on_error_def)

lemma process_flags_spectator: "has_flag (process_flags fl) FLAG_SPECTATOR = has_flag fl FLAG_SPECTATOR"
proof -
  have "and (and (and fl (not FLAG_MANAGER)) (not FLAG_REALTIME)) FLAG_SPECTATOR = and fl FLAG_SPECTATOR"
    by (simp add: FLAG_MANAGER_def FLAG_REALTIME_def FLAG_SPECTATOR_def and.assoc)
  then show ?thesis by (simp add: process_flags_def has_flag_def)
qed

definition client_handle :: "ipc_env \<Rightarrow> ipc_shm \<Rightarrow> nat \<Rightarrow> ipc_process \<Rightarrow> ipc_handle \<Rightarrow> ipc_handle" where
  "client_handle e s i p ih = ih\<lparr>shm_size := e_sizeof_shm e + data_size s, mapped := True,
     this_process := p, this_process_slot := int i\<rparr>"

lemma connect_client_cases:
  assumes c: "connect_client e ih s = (r, s')"
  obtains "s' = s" "\<forall>x. r \<noteq> Some (Returned (Inr x))"
      "connect_attach e (p_flags (this_process ih)) s \<noteq> Some (Returned (Inr ()))
        \<or> has_flag (p_flags (this_process ih)) FLAG_SPECTATOR"
  | q where "proc_enter (this_process ih) s = (q, s')" "\<not> has_flag (p_flags (this_process ih)) FLAG_SPECTATOR"
      "connect_attach e (p_flags (this_process ih)) s = Some (Returned (Inr ()))"
      "r = Some (case q of None \<Rightarrow> on_error (p_flags (this_process ih)) ERR_OUTOFOBJ
         | Some (i, p') \<Rightarrow> Returned (Inr (proc_oid p', data_size s, client_handle e s i p' ih)))"
proof (cases "connect_attach e (p_flags (this_process ih)) s = Some (Returned (Inr ()))
    \<and> \<not> has_flag (p_flags (this_process ih)) FLAG_SPECTATOR")
  case True
  obtain q t where pe: "proc_enter (this_process ih) s = (q, t)" by fastforce
  have ds: "data_size t = data_size s" using pe by (auto simp: proc_enter_def Let_def split: option.splits)
  have "(r, s') = (Some (case q of None \<Rightarrow> on_error (p_flags (this_process ih)) ERR_OUTOFOBJ
         | Some (i, p') \<Rightarrow> Returned (Inr (proc_oid p', data_size s, client_handle e s i p' ih))), t)"
    unfolding c [symmetric] using True ds
    by (simp add: connect_client_def Let_def client_handle_def pe split: option.split)
  with that(2) [of q] pe True show ?thesis by simp
next
  case False
  with c have "s' = s \<and> (\<forall>x. r \<noteq> Some (Returned (Inr x)))"
    unfolding connect_client_def Let_def
    by (cases "connect_attach e (p_flags (this_process ih)) s")
      (auto split: outcome.splits sum.splits if_splits)
  with that(1) False show ?thesis by blast
qed

text \<open>The handle with which a process of these arguments tries to connect.\<close>

definition start_handle :: "ipc_env \<Rightarrow> char list option \<Rightarrow> char list \<Rightarrow> cfloat \<Rightarrow> 32 word \<Rightarrow> ipc_handle \<Rightarrow> ipc_handle" where
  "start_handle e dbhost nm cyc fl ih = ih\<lparr>shmid := the (shm_name dbhost), mapped := False,
     this_process := process_info e nm cyc fl (this_process ih)\<rparr>"

lemma start_handle_flags [simp]: "p_flags (this_process (start_handle e dbhost nm cyc fl ih)) = process_flags fl"
  by (simp add: start_handle_def process_info_def)

lemma connect_unfold:
  assumes "\<not> has_flag (process_flags fl) FLAG_MANAGER" "shm_name dbhost \<noteq> None" "cstr nm \<noteq> []"
    "has_flag (process_flags fl) FLAG_NOHANDLERS \<or> e_nohandlers e \<or> e_handlers_ok e"
  shows "kogmo_rtdb_ipc_connect e ih dbhost nm cyc fl dsize s = connect_client e (start_handle e dbhost nm cyc fl ih) s"
  using assms by (auto simp: kogmo_rtdb_ipc_connect_def Let_def start_handle_def process_info_def)

lemma connect_cases:
  assumes c: "kogmo_rtdb_ipc_connect e ih dbhost nm cyc fl dsize s = (r, s')"
    and m: "\<not> has_flag (process_flags fl) FLAG_MANAGER"
  obtains "s' = s" "\<forall>x. r \<noteq> Some (Returned (Inr x))"
  | "connect_client e (start_handle e dbhost nm cyc fl ih) s = (r, s')"
proof (cases "shm_name dbhost \<noteq> None \<and> cstr nm \<noteq> []
    \<and> (has_flag (process_flags fl) FLAG_NOHANDLERS \<or> e_nohandlers e \<or> e_handlers_ok e)")
  case True
  with connect_unfold [OF m] c that(2) show ?thesis by simp
next
  case False
  have "has_flag (p_flags (process_info e nm cyc fl p)) f = has_flag (process_flags fl) f" for p f
    by (simp add: process_info_def)
  with False c have "s' = s \<and> (\<forall>x. r \<noteq> Some (Returned (Inr x)))"
    unfolding kogmo_rtdb_ipc_connect_def by (cases "shm_name dbhost") (auto simp: Let_def on_error_fails split: if_splits)
  with that(1) show ?thesis by blast
qed

lemma proc_step_ok: "proc_step s s' \<Longrightarrow> procs_ok s \<Longrightarrow> procs_ok s'"
proof (induction rule: proc_step.induct)
  case (connects s e ih dbhost nm cyc fl dsize r s')
  from connects(2,3) show ?case
  proof (cases rule: connect_cases)
    case 1 then show ?thesis using connects by simp
  next
    case 2
    then show ?thesis
      by (cases rule: connect_client_cases) (use connects proc_enter_ok in blast)+
  qed
next
  case (disconnects ih s r ih' s')
  then show ?case
    by (auto simp: kogmo_rtdb_ipc_disconnect_def Let_def split: if_splits intro: proc_leave_ok)
next
  case (cleared i s) then show ?case by (rule proc_clear_ok [rotated])
next
  case (works s ts db) then show ?case by (simp add: procs_ok_def)
qed

lemma proc_reachable_ok: "proc_reachable s0 s \<Longrightarrow> procs_ok s0 \<Longrightarrow> procs_ok s"
  by (induction rule: proc_reachable.induct) (auto intro: proc_step_ok)

section \<open>Samples\<close>

definition ex_env :: ipc_env where
  "ex_env = \<lparr>e_rev = 616, e_pid = 400, e_tid = 1, e_start = Some (20, 0), e_attach = Some (20, 0), e_nohandlers = False,
     e_handlers_ok = True, e_shm_created = True, e_shm_sized = True, e_shm_probes = [Shm_missing, Shm_open],
     e_premapped = True, e_mapped = True, e_sizeof_shm = 9000, e_proc_max = 2, e_obj_max = 4\<rparr>"

definition ex_ih :: ipc_handle where
  "ex_ih = \<lparr>shmid = [], mapped = False, shm_size = 0, this_process = zero_process, this_process_slot = 0\<rparr>"

definition ex_rtdb :: rtdb where
  "ex_rtdb = \<lparr>objmeta_oid_next = 0, objmeta = [], objmeta_free = 0,
     rtdb_trace = 0, rtdb_tracebufsize = 0, simmode = False, db_no_notifies = False, sim_ts = 0,
     default_history_interval = 0, default_max_cycletime = 0, default_keep_deleted_interval = 0,
     heap_size = 0, heap_free = 0, heap_used = 0, heap = (\<lambda>_. 0),
     clock = (\<lambda>_. Some (10, 0)), ticks = 0, ipc_log = []\<rparr>"

text \<open>A new segment, its manager alive.\<close>

definition ex_shm0 :: ipc_shm where
  "ex_shm0 = manager_init ex_env 4096
     \<lparr>revision = 0, manager_pid = 0, manager_alive_ts = 0, proc = [], proc_free = 0, proc_oid_next = 0,
      data_size = 0, local_data = ex_rtdb\<rparr>"

definition ex_shm :: ipc_shm where
  "ex_shm = ex_shm0\<lparr>manager_alive_ts := 20000000000\<rparr>"

lemma ex_shm_ok: "procs_ok ex_shm"
  by (simp add: ex_shm_def ex_shm0_def ex_env_def manager_init_def procs_ok_def unique_keys_def free_slots_def)

lemma ex_connects:
  "connect_attach ex_env (process_flags 0) ex_shm = Some (Returned (Inr ()))"
  "cstr ''writer'' \<noteq> []" "shm_name None \<noteq> None" "proc_oid_next ex_shm = 2"
  "\<not> has_flag (process_flags 0) FLAG_MANAGER" "\<not> has_flag 0 FLAG_SPECTATOR" "e_handlers_ok ex_env"
  "proc ex_shm = [zero_process, zero_process]"
  by code_simp+

section \<open>Properties\<close>

text \<open>
  C21: However processes connect, disconnect and die, from the manager's initialisation on, the
  process table stays well formed: process ids are unique and below the next one to be given out,
  free slots are clear, and \<open>proc_free\<close> is their number.
\<close>
theorem process_table_invariant:
  assumes "e_proc_max e < 2 ^ 32" "proc_reachable (manager_init e n s) s'"
  shows "procs_ok s'"
  using proc_reachable_ok [OF assms(2) manager_init_ok [OF assms(1)]] .

theorem process_table_invariant_witness:
  "procs_ok (proc_clear 0 (snd (kogmo_rtdb_ipc_connect ex_env ex_ih None ''writer'' (1/10) 0 0 ex_shm)))"
proof -
  let ?c = "kogmo_rtdb_ipc_connect ex_env ex_ih None ''writer'' (1/10) 0 0 ex_shm"
  have s: "ex_shm = ex_shm0\<lparr>manager_alive_ts := 20000000000, local_data := local_data ex_shm0\<rparr>"
    by (simp add: ex_shm_def)
  have "proc_reachable ex_shm0 ex_shm"
    by (subst s) (rule proc_reachable.step [OF proc_reachable.start works])
  moreover have "proc_step ex_shm (snd ?c)"
    by (rule connects [where r = "fst ?c"]) (use ex_connects in simp_all)
  moreover have "proc_step (snd ?c) (proc_clear 0 (snd ?c))"
    by (rule cleared) code_simp+
  ultimately have "proc_reachable ex_shm0 (proc_clear 0 (snd ?c))"
    by (blast intro: proc_reachable.step)
  from process_table_invariant [OF _ this [unfolded ex_shm0_def]] show ?thesis by (simp add: ex_env_def)
qed

text \<open>
  Connecting to a running manager gives the process the next id, which no one else has, and
  the first free slot, and changes no other slot; without a free slot it is out of objects (or the
  process exits, if it did not ask to live on) and the table is unchanged.
\<close>
theorem connect_takes_slot:
  assumes ok: "procs_ok s" "proc_oid_next s < 2 ^ 31"
    and args: "\<not> has_flag (process_flags fl) FLAG_MANAGER" "shm_name dbhost \<noteq> None" "cstr nm \<noteq> []"
      "has_flag (process_flags fl) FLAG_NOHANDLERS \<or> e_nohandlers e \<or> e_handlers_ok e"
      "\<not> has_flag fl FLAG_SPECTATOR"
    and up: "connect_attach e (process_flags fl) s = Some (Returned (Inr ()))"
  shows "case kogmo_rtdb_ipc_connect e ih dbhost nm cyc fl dsize s of (r, s') \<Rightarrow>
    (case scan_first (\<lambda>q. proc_oid q = 0) (proc s) of
       None \<Rightarrow> r = Some (on_error (process_flags fl) ERR_OUTOFOBJ) \<and> proc s' = proc s
     | Some i \<Rightarrow> \<exists>ih'. r = Some (Returned (Inr (proc_oid_next s, data_size s, ih')))
         \<and> proc_oid_next s \<notin> used_keys proc_oid (proc s) \<and> proc_oid (this_process ih') = proc_oid_next s
         \<and> this_process_slot ih' = int i \<and> proc s' = (proc s)[i := this_process ih'])"
proof -
  let ?ih = "start_handle e dbhost nm cyc fl ih"
  obtain r s' where c: "connect_client e ?ih s = (r, s')" by fastforce
  have e: "kogmo_rtdb_ipc_connect e ih dbhost nm cyc fl dsize s = (r, s')"
    using connect_unfold [OF args(1-4)] c by simp
  obtain q t where pe: "proc_enter (this_process ?ih) s = (q, t)" by fastforce
  from c show ?thesis
  proof (cases rule: connect_client_cases)
    case 1 then show ?thesis using up args(5) by (simp add: process_flags_spectator)
  next
    case (2 q)
    have id: "int32 (proc_oid_next s) = proc_oid_next s"
      using ok by (intro int32_id) (simp add: in_int32_def procs_ok_def)
    from 2(1) show ?thesis
    proof (cases rule: proc_enter_cases)
      case 1
      then have "scan_first (\<lambda>q. proc_oid q = 0) (proc s) = None" by (simp add: scan_first_None)
      with 1 2 show ?thesis by (simp add: e)
    next
      case (2 i p')
      have "proc_oid_next s \<notin> used_keys proc_oid (proc s)"
        using ok by (auto simp: procs_ok_def used_keys_def)
      with 2 \<open>r = _\<close> id show ?thesis by (simp add: e client_handle_def)
    qed
  qed
qed

theorem connect_takes_slot_witness:
  "\<exists>ih'. fst (kogmo_rtdb_ipc_connect ex_env ex_ih None ''writer'' (1/10) 0 0 ex_shm)
      = Some (Returned (Inr (2, 4096, ih'))) \<and> this_process_slot ih' = 0"
proof -
  have d: "data_size ex_shm = 4096" by code_simp
  show ?thesis
    using connect_takes_slot [OF ex_shm_ok, of 0 None "''writer''" ex_env ex_ih "1/10" 0] ex_connects d
    by (auto split: prod.splits)
qed



text \<open>
  A spectator never gets a connection: with the flag set, every attempt that finds the segment
  ends in an error, an exit or a write to memory mapped for reading only.
\<close>
theorem spectator_never_connects:
  assumes "has_flag fl FLAG_SPECTATOR"
  shows "fst (kogmo_rtdb_ipc_connect e ih dbhost nm cyc fl dsize s) \<noteq> Some (Returned (Inr x))"
proof -
  obtain r s' where c: "kogmo_rtdb_ipc_connect e ih dbhost nm cyc fl dsize s = (r, s')" by fastforce
  have m: "\<not> has_flag (process_flags fl) FLAG_MANAGER"
    using assms by (simp add: process_flags_def has_flag_def and.assoc and.left_commute
        FLAG_MANAGER_def FLAG_REALTIME_def)
  from c m show ?thesis
  proof (cases rule: connect_cases)
    case 1 with c show ?thesis by (cases x) auto
  next
    case 2
    then show ?thesis
    proof (cases rule: connect_client_cases)
      case 1 with c show ?thesis by (cases x) auto
    next
      case (2 q) with assms show ?thesis by (simp add: process_flags_spectator)
    qed
  qed
qed

theorem spectator_never_connects_witness:
  "fst (kogmo_rtdb_ipc_connect ex_env ex_ih None ''viewer'' (1/10) FLAG_SPECTATOR 0 ex_shm)
    \<noteq> Some (Returned (Inr (2, 4096, ex_ih)))"
  by (rule spectator_never_connects) (simp add: has_flag_def FLAG_SPECTATOR_def)

end
