(* ===== verification/Ipc_Sync.thy ===== *)
theory Ipc_Sync
  imports Ipc_Process
begin

text \<open>
  Synchronisation primitives and sleeping (\<open>rtdb/kogmo_rtdb_ipc_posix.c\<close>): the wrappers of the
  error-checking pthread mutexes, the polling mutex used where these are missing, the time
  arguments of the condition variable, and \<open>kogmo_rtdb_sleep_until\<close>.
\<close>

section \<open>Mutexes over pthreads\<close>

text \<open>
  An error-checking mutex is its owner. \<open>pthread_mutex_lock\<close> blocks (\<open>None\<close>) while another thread
  has it and fails with \<open>EDEADLK\<close> when the caller has it; \<open>pthread_mutex_unlock\<close> fails with
  \<open>EPERM\<close> for anyone but the owner.
\<close>

type_synonym mutex = "nat option"

definition EDEADLK :: int where
  "EDEADLK = 35"

definition EPERM :: int where
  "EPERM = 1"

definition pthread_mutex_lock :: "nat \<Rightarrow> mutex \<Rightarrow> (int \<times> mutex) option" where
  "pthread_mutex_lock p m = (case m of None \<Rightarrow> Some (0, Some p)
     | Some q \<Rightarrow> if q = p then Some (EDEADLK, m) else None)"

definition pthread_mutex_unlock :: "nat \<Rightarrow> mutex \<Rightarrow> int \<times> mutex" where
  "pthread_mutex_unlock p m = (if m = Some p then (0, None) else (EPERM, m))"

definition kogmo_rtdb_ipc_mutex_lock :: "nat \<Rightarrow> mutex \<Rightarrow> (int outcome \<times> mutex) option" where
  "kogmo_rtdb_ipc_mutex_lock p m =
     (case pthread_mutex_lock p m of
        None \<Rightarrow> None
      | Some (err, m) \<Rightarrow>
          if err = EDEADLK then Some (Returned 0, m)
          else if err \<noteq> 0 then Some (Died, m)
          else Some (Returned err, m))"

definition kogmo_rtdb_ipc_mutex_unlock :: "nat \<Rightarrow> mutex \<Rightarrow> int outcome \<times> mutex" where
  "kogmo_rtdb_ipc_mutex_unlock p m =
     (let (err, m) = pthread_mutex_unlock p m
      in if err = EPERM then (Returned 0, m)
         else if err \<noteq> 0 then (Died, m)
         else (Returned err, m))"

text \<open>Whole calls of one process on one mutex: \<open>True\<close> locks, \<open>False\<close> unlocks; \<open>None\<close> blocks.\<close>

fun mutex_calls :: "nat \<Rightarrow> bool list \<Rightarrow> mutex \<Rightarrow> mutex option" where
  "mutex_calls p [] m = Some m"
| "mutex_calls p (True # cs) m = (case kogmo_rtdb_ipc_mutex_lock p m of
     Some (Returned _, m) \<Rightarrow> mutex_calls p cs m | _ \<Rightarrow> None)"
| "mutex_calls p (False # cs) m = (case kogmo_rtdb_ipc_mutex_unlock p m of
     (Returned _, m) \<Rightarrow> mutex_calls p cs m | _ \<Rightarrow> None)"

lemmas mutex_defs = kogmo_rtdb_ipc_mutex_lock_def kogmo_rtdb_ipc_mutex_unlock_def pthread_mutex_lock_def
  pthread_mutex_unlock_def EDEADLK_def EPERM_def

text \<open>
  Locking is not counted: a process that has the mutex may lock it again, in vain, and the next
  unlock gives it back whatever came before; an unlock by a process that does not have it does
  nothing. The mutex is held afterwards exactly when the last call was a lock.
\<close>
theorem mutex_not_counted:
  assumes "m = None \<or> m = Some p"
  shows "mutex_calls p cs m = Some (if cs = [] then m else if last cs then Some p else None)"
  using assms
proof (induction cs arbitrary: m)
  case (Cons c cs)
  have s: "mutex_calls p (c # cs) m = mutex_calls p cs (if c then Some p else None)"
    using Cons.prems by (cases c) (auto simp: mutex_defs)
  show ?case unfolding s by (subst Cons.IH) (cases c; simp)+
qed simp

theorem mutex_not_counted_witness: "mutex_calls 7 [True, True, False] None = Some None"
  using mutex_not_counted [of None 7 "[True, True, False]"] by simp

section \<open>The polling mutex\<close>

text \<open>The result is the old value, and the new one.\<close>

definition atomic_cas32 :: "int \<Rightarrow> int \<Rightarrow> int \<Rightarrow> int \<times> int" where
  "atomic_cas32 m with_val cmp = (m, if m = cmp then with_val else m)"

text \<open>
  A process is outside, about to compare and swap, about to look at the result, or inside. Another
  process may run between any two of these steps.
\<close>

datatype poll_pc = Outside | Trying | Swapped int | Inside

record poll_state =
  poll_word :: int
  poll_pc :: "nat \<Rightarrow> poll_pc"

definition poll_init :: poll_state where
  "poll_init = \<lparr>poll_word = 0, poll_pc = (\<lambda>_. Outside)\<rparr>"

definition poll_swap :: "nat \<Rightarrow> poll_state \<Rightarrow> poll_state" where
  "poll_swap p s = (let (prev, w) = atomic_cas32 (poll_word s) 1 0
     in s\<lparr>poll_word := w, poll_pc := (poll_pc s)(p := Swapped prev)\<rparr>)"

definition poll_look :: "nat \<Rightarrow> int \<Rightarrow> poll_state \<Rightarrow> poll_state" where
  "poll_look p prev s = s\<lparr>poll_pc := (poll_pc s)
     (p := if poll_word s = 1 \<and> prev = 0 then Inside else Trying)\<rparr>"

definition poll_unlock :: "nat \<Rightarrow> poll_state \<Rightarrow> poll_state" where
  "poll_unlock p s = s\<lparr>poll_word := snd (atomic_cas32 (poll_word s) 0 1), poll_pc := (poll_pc s)(p := Outside)\<rparr>"

inductive poll_step :: "poll_state \<Rightarrow> poll_state \<Rightarrow> bool" where
  enters: "poll_pc s p = Outside \<Longrightarrow> poll_step s (s\<lparr>poll_pc := (poll_pc s)(p := Trying)\<rparr>)"
| swaps: "poll_pc s p = Trying \<Longrightarrow> poll_step s (poll_swap p s)"
| looks: "poll_pc s p = Swapped prev \<Longrightarrow> poll_step s (poll_look p prev s)"
| unlocks: "poll_pc s p = Inside \<Longrightarrow> poll_step s (poll_unlock p s)"

inductive poll_reachable :: "poll_state \<Rightarrow> bool" where
  poll_start: "poll_reachable poll_init"
| poll_next: "poll_reachable s \<Longrightarrow> poll_step s s' \<Longrightarrow> poll_reachable s'"

text \<open>The process has swapped the word from 0 to 1 and not put it back.\<close>

definition poll_owner :: "poll_state \<Rightarrow> nat \<Rightarrow> bool" where
  "poll_owner s p \<longleftrightarrow> poll_pc s p = Inside \<or> poll_pc s p = Swapped 0"

definition poll_inv :: "poll_state \<Rightarrow> bool" where
  "poll_inv s \<longleftrightarrow> (poll_word s = 0 \<and> (\<forall>p. \<not> poll_owner s p))
     \<or> (poll_word s = 1 \<and> (\<exists>p. \<forall>q. poll_owner s q \<longleftrightarrow> q = p))"

lemmas poll_defs = poll_owner_def poll_swap_def poll_look_def poll_unlock_def atomic_cas32_def

lemma poll_inv_step: "poll_step s s' \<Longrightarrow> poll_inv s \<Longrightarrow> poll_inv s'"
proof (induction rule: poll_step.induct)
  case (enters s p)
  have "poll_owner (s\<lparr>poll_pc := (poll_pc s)(p := Trying)\<rparr>) q = poll_owner s q" for q
    using enters by (simp add: poll_owner_def)
  then show ?case using enters by (simp add: poll_inv_def)
next
  case (swaps s p)
  show ?case
  proof (cases "poll_word s = 0")
    case True
    then have "\<forall>q. \<not> poll_owner s q" using swaps by (simp add: poll_inv_def)
    then have "\<forall>q. poll_owner (poll_swap p s) q \<longleftrightarrow> q = p" using True by (auto simp: poll_defs)
    with True show ?thesis by (auto simp: poll_inv_def poll_swap_def atomic_cas32_def)
  next
    case False
    then have "poll_owner (poll_swap p s) q = poll_owner s q" for q
      using swaps by (auto simp: poll_defs)
    with False swaps show ?thesis by (auto simp: poll_inv_def poll_swap_def atomic_cas32_def)
  qed
next
  case (looks s p prev)
  have "poll_owner (poll_look p prev s) q = poll_owner s q" for q
    using looks by (auto simp: poll_defs poll_inv_def)
  then show ?case using looks by (simp add: poll_inv_def poll_look_def)
next
  case (unlocks s p)
  then have o: "poll_owner s p" by (simp add: poll_owner_def)
  with unlocks have "poll_word s = 1" "\<forall>q. poll_owner s q \<longleftrightarrow> q = p" by (auto simp: poll_inv_def)
  then have "\<forall>q. \<not> poll_owner (poll_unlock p s) q" "poll_word (poll_unlock p s) = 0"
    by (auto simp: poll_defs)
  then show ?case by (simp add: poll_inv_def)
qed

lemma poll_reachable_inv: "poll_reachable s \<Longrightarrow> poll_inv s"
proof (induction rule: poll_reachable.induct)
  case poll_start show ?case by (simp add: poll_inv_def poll_init_def poll_owner_def)
next
  case (poll_next s s') then show ?case by (blast intro: poll_inv_step)
qed

text \<open>
  C29: The polling mutex excludes: whatever the interleaving, no two processes are between a lock
  that returned and the unlock; and while one is, the word is 1.
\<close>
theorem polling_mutex_excludes:
  assumes "poll_reachable s" "poll_pc s p = Inside"
  shows "poll_word s = 1 \<and> (\<forall>q. poll_pc s q = Inside \<longrightarrow> q = p)"
proof -
  have "poll_owner s p" using assms(2) by (simp add: poll_owner_def)
  with poll_reachable_inv [OF assms(1)] have "poll_word s = 1" "\<forall>q. poll_owner s q \<longrightarrow> q = p"
    by (auto simp: poll_inv_def)
  then show ?thesis by (simp add: poll_owner_def)
qed

definition ex_poll :: poll_state where
  "ex_poll = poll_look 1 0 (poll_swap 1 (poll_init\<lparr>poll_pc := (poll_pc poll_init)(1 := Trying)\<rparr>))"

theorem polling_mutex_excludes_witness: "poll_word ex_poll = 1 \<and> poll_pc ex_poll 2 \<noteq> Inside"
proof -
  let ?a = "poll_init\<lparr>poll_pc := (poll_pc poll_init)(1 := Trying)\<rparr>"
  have "poll_step poll_init ?a" by (rule enters) (simp add: poll_init_def)
  moreover have "poll_step ?a (poll_swap 1 ?a)" by (rule swaps) simp
  moreover have "poll_step (poll_swap 1 ?a) ex_poll"
    unfolding ex_poll_def by (rule looks) (simp add: poll_defs poll_init_def)
  ultimately have r: "poll_reachable ex_poll" by (blast intro: poll_reachable.intros)
  have "poll_pc ex_poll 1 = Inside" by (simp add: ex_poll_def poll_defs poll_init_def)
  from polling_mutex_excludes [OF r this] show ?thesis by auto
qed

section \<open>Waiting until a time\<close>

text \<open>The absolute time handed to \<open>pthread_cond_timedwait\<close>: seconds and nanoseconds.\<close>

definition condvar_timespec :: "timestamp \<Rightarrow> int \<times> int" where
  "condvar_timespec wakeup_ts =
     (c_div wakeup_ts TICKSPERSECOND, c_rem (int64 (wakeup_ts * NANOSECONDSPERTICK)) 1000000000)"

text \<open>
  What ends a wait on a condition variable: a signal or the time-out; in between other processes
  have worked on the database. Without a time to wake up there is no time-out.
\<close>

datatype wake = Signalled "rtdb \<Rightarrow> rtdb" | Timed_out "rtdb \<Rightarrow> rtdb"

definition kogmo_rtdb_ipc_condvar_wait :: "lock \<Rightarrow> timestamp \<Rightarrow> wake \<Rightarrow> rtdb \<Rightarrow> (rtdb_error + int) \<times> rtdb" where
  "kogmo_rtdb_ipc_condvar_wait l wakeup_ts w db =
     (let db = emit (Wait l) db
      in case w of
           Signalled f \<Rightarrow> (Inr 0, f db)
         | Timed_out f \<Rightarrow> (if wakeup_ts \<noteq> 0 then Inl ERR_TIMEOUT else Inr 0, f db))"

section \<open>Sleeping\<close>

text \<open>
  One call of \<open>nanosleep\<close> and what the others did to the database meanwhile: it sleeps its time,
  is interrupted with a rest, or fails.
\<close>

datatype nap_end = Slept | Interrupted int int | Nap_failed

type_synonym nap = "nap_end \<times> (rtdb \<Rightarrow> rtdb)"

definition sleep_request :: "int \<Rightarrow> int \<times> int" where
  "sleep_request ts = (if c_div ts TICKSPERSECOND \<ge> 1 then 1 else 0,
     c_rem (int64 (ts * NANOSECONDSPERTICK)) 1000000000)"

text \<open>
  The inner loop: the return value, the requests made, the naps not used, the state. \<open>None\<close>: it
  sleeps on after the given naps.
\<close>

fun nap_loop :: "int \<times> int \<Rightarrow> nap list \<Rightarrow> rtdb \<Rightarrow> (int \<times> (int \<times> int) list \<times> nap list \<times> rtdb) option" where
  "nap_loop r [] db = None"
| "nap_loop r ((Slept, f) # ns) db = Some (0, [r], ns, f db)"
| "nap_loop r ((Nap_failed, f) # ns) db = Some (- 1, [r], ns, f db)"
| "nap_loop r ((Interrupted s n, f) # ns) db =
     map_option (\<lambda>(ret, rs, x). (ret, r # rs, x)) (nap_loop (s, n) ns (f db))"

lemma nap_loop_shorter: "nap_loop r ns db = Some (ret, rs, ns', db') \<Longrightarrow> length ns' < length ns"
  by (induction r ns db arbitrary: rs rule: nap_loop.induct) force+

function sleep_loop :: "timestamp \<Rightarrow> int \<Rightarrow> int \<Rightarrow> nap list \<Rightarrow> rtdb
    \<Rightarrow> (int \<times> (int \<times> int) list \<times> nap list \<times> rtdb) option" where
  "sleep_loop wakeup_ts ts ret ns db =
     (if ts > 0 then
        case nap_loop (sleep_request ts) ns db of
          None \<Rightarrow> None
        | Some (ret, rs, ns, db) \<Rightarrow>
            let (now, db) = kogmo_rtdb_timestamp_now db
            in map_option (\<lambda>(ret, rs', x). (ret, rs @ rs', x))
                 (sleep_loop wakeup_ts (int64 (wakeup_ts - now)) ret ns db)
      else Some (ret, [], ns, db))"
  by pat_completeness auto
termination
  by (relation "measure (\<lambda>(_, _, _, ns, _). length ns)") (auto dest: nap_loop_shorter)

declare sleep_loop.simps [simp del]

definition kogmo_rtdb_sleep_until :: "timestamp \<Rightarrow> nap list \<Rightarrow> rtdb
    \<Rightarrow> (int \<times> (int \<times> int) list \<times> nap list \<times> rtdb) option" where
  "kogmo_rtdb_sleep_until wakeup_ts ns db =
     (let (now, db) = kogmo_rtdb_timestamp_now db;
          ts = int64 (wakeup_ts - now)
      in if ts < 0 then Some (0, [], ns, db) else sleep_loop wakeup_ts ts 0 ns db)"

text \<open>The time of a request in nanoseconds.\<close>

definition request_ns :: "int \<times> int \<Rightarrow> int" where
  "request_ns r = fst r * 1000000000 + snd r"

definition short_request :: "int \<times> int \<Rightarrow> bool" where
  "short_request r \<longleftrightarrow> fst r \<in> {0, 1} \<and> 0 \<le> snd r \<and> snd r < 1000000000"

lemma sleep_request_bounds:
  assumes "0 < ts" "in_int64 ts"
  shows "request_ns (sleep_request ts) \<le> ts" "short_request (sleep_request ts)"
proof -
  have i: "int64 ts = ts" using assms by simp
  have q: "c_div ts TICKSPERSECOND = ts div 1000000000" using assms by (simp add: TICKSPERSECOND_def)
  have m: "ts = ts div 1000000000 * 1000000000 + ts mod 1000000000" by simp
  have "0 \<le> ts div 1000000000" using assms by simp
  then have "(if 1 \<le> ts div 1000000000 then 1 else 0) * 1000000000 + ts mod 1000000000 \<le> ts"
    by (cases "1 \<le> ts div 1000000000") (simp_all, use m in linarith)
  then show "request_ns (sleep_request ts) \<le> ts" "short_request (sleep_request ts)"
    using assms by (simp_all add: short_request_def request_ns_def sleep_request_def i q)
qed

text \<open>The rest an interrupted \<open>nanosleep\<close> reports is a time shorter than two seconds.\<close>

definition naps_ok :: "nap list \<Rightarrow> bool" where
  "naps_ok ns \<longleftrightarrow> (\<forall>(e, f) \<in> set ns. \<forall>s n. e = Interrupted s n \<longrightarrow> short_request (s, n))"

lemma nap_loop_short:
  "nap_loop r ns db = Some (ret, rs, ns', db') \<Longrightarrow> short_request r \<Longrightarrow> naps_ok ns
    \<Longrightarrow> (\<forall>q \<in> set rs. short_request q) \<and> naps_ok ns' \<and> rs \<noteq> []"
proof (induction r ns db arbitrary: rs rule: nap_loop.induct)
  case (4 r s n f ns db)
  then obtain rs1 where "nap_loop (s, n) ns (f db) = Some (ret, rs1, ns', db')" "rs = r # rs1" by auto
  with 4 show ?case by (auto simp: naps_ok_def)
qed (auto simp: naps_ok_def)

definition woke_in_time :: "timestamp \<Rightarrow> rtdb \<Rightarrow> bool" where
  "woke_in_time w db \<longleftrightarrow> (\<exists>db0. db = snd (kogmo_rtdb_timestamp_now db0)
     \<and> (0 \<le> fst (kogmo_rtdb_timestamp_now db0) \<and> fst (kogmo_rtdb_timestamp_now db0) < 2 ^ 63
         \<longrightarrow> w \<le> fst (kogmo_rtdb_timestamp_now db0)))"

lemma reached: "0 \<le> w \<Longrightarrow> w < 2 ^ 63 \<Longrightarrow> 0 \<le> t \<Longrightarrow> t < 2 ^ 63 \<Longrightarrow> int64 (w - t) \<le> 0 \<Longrightarrow> w \<le> t"
  by (subst (asm) int64_id) (auto simp: in_int64_def)

lemma sleep_loop_sound:
  assumes "sleep_loop w ts ret0 ns db = Some (ret, rs, ns', db')" "naps_ok ns" "in_int64 ts" "0 \<le> w" "w < 2 ^ 63"
  shows "(\<forall>q \<in> set rs. short_request q) \<and> (if 0 < ts then woke_in_time w db' else db' = db)"
  using assms
proof (induction w ts ret0 ns db arbitrary: rs rule: sleep_loop.induct)
  case (1 w ts ret0 ns db)
  show ?case
  proof (cases "0 < ts")
    case False
    with "1.prems"(1) show ?thesis by (simp add: sleep_loop.simps [of w ts])
  next
    case True
    then obtain r1 rs1 ns1 db1 where n: "nap_loop (sleep_request ts) ns db = Some (r1, rs1, ns1, db1)"
      using "1.prems"(1) by (auto simp: sleep_loop.simps [of w ts] split: option.splits)
    obtain now db2 where t: "kogmo_rtdb_timestamp_now db1 = (now, db2)" by fastforce
    obtain rs2 where s: "sleep_loop w (int64 (w - now)) r1 ns1 db2 = Some (ret, rs2, ns', db')" "rs = rs1 @ rs2"
      using "1.prems"(1) True n t by (auto simp: sleep_loop.simps [of w ts] Let_def)
    note N = nap_loop_short [OF n sleep_request_bounds(2) [OF True "1.prems"(3)] "1.prems"(2)]
    have IH: "(\<forall>q \<in> set rs2. short_request q) \<and> (if 0 < int64 (w - now) then woke_in_time w db' else db' = db2)"
      using "1.IH" [OF True n refl refl refl t [symmetric] refl s(1)] N "1.prems"(4,5) by simp
    have "woke_in_time w db'"
    proof (cases "0 < int64 (w - now)")
      case True with IH show ?thesis by simp
    next
      case False
      with IH have "db' = snd (kogmo_rtdb_timestamp_now db1)" "int64 (w - fst (kogmo_rtdb_timestamp_now db1)) \<le> 0"
        using t by simp_all
      then show ?thesis using reached "1.prems"(4,5) unfolding woke_in_time_def by blast
    qed
    with True IH N s(2) show ?thesis by auto
  qed
qed

text \<open>
  C28: Sleeping until a time: the call returns only after a look at the clock of the database that
  shows at least that time, so in simulation mode and after interruptions as well, and it never
  asks the system for two seconds or more at once.
\<close>
theorem sleep_until_sound:
  assumes "kogmo_rtdb_sleep_until w ns db = Some (ret, rs, ns', db')" "naps_ok ns" "0 \<le> w" "w < 2 ^ 63"
    and now: "0 \<le> fst (kogmo_rtdb_timestamp_now db)" "fst (kogmo_rtdb_timestamp_now db) < 2 ^ 63"
  shows "woke_in_time w db' \<and> (\<forall>q \<in> set rs. 0 \<le> request_ns q \<and> request_ns q < 2 * 1000000000)"
proof -
  obtain t db1 where n: "kogmo_rtdb_timestamp_now db = (t, db1)" by fastforce
  have i: "in_int64 (w - t)" "int64 (w - t) = w - t"
    using assms(3,4) now n by (simp_all add: in_int64_def)
  show ?thesis
  proof (cases "w - t < 0")
    case True
    with assms(1) n i have "db' = db1" "rs = []" by (simp_all add: kogmo_rtdb_sleep_until_def)
    moreover from this True n have "woke_in_time w db'" unfolding woke_in_time_def by (intro exI [of _ db]) simp
    ultimately show ?thesis by simp
  next
    case False
    with assms(1) n i have s: "sleep_loop w (w - t) 0 ns db1 = Some (ret, rs, ns', db')"
      by (simp add: kogmo_rtdb_sleep_until_def)
    note S = sleep_loop_sound [OF s assms(2) i(1) assms(3,4)]
    have "woke_in_time w db'"
    proof (cases "0 < w - t")
      case True with S show ?thesis by simp
    next
      case False
      with S n \<open>\<not> w - t < 0\<close> show ?thesis unfolding woke_in_time_def by (intro exI [of _ db]) auto
    qed
    moreover have "0 \<le> request_ns q \<and> request_ns q < 2 * 1000000000" if "short_request q" for q
      using that by (auto simp: short_request_def request_ns_def)
    ultimately show ?thesis using S by auto
  qed
qed

definition ex_sleeper :: rtdb where
  "ex_sleeper = \<lparr>objmeta_oid_next = 0, objmeta = [], objmeta_free = 0,
     rtdb_trace = 0, rtdb_tracebufsize = 0, simmode = False, db_no_notifies = False, sim_ts = 0,
     default_history_interval = 0, default_max_cycletime = 0, default_keep_deleted_interval = 0,
     heap_size = 0, heap_free = 0, heap_used = 0, heap = (\<lambda>_. 0),
     clock = (\<lambda>t. Some (10 + int t, 0)), ticks = 0, ipc_log = []\<rparr>"

lemma ex_sleep: "map_option (\<lambda>(ret, rs, ns, db). (ret, rs, ticks db))
    (kogmo_rtdb_sleep_until 11500000000 [(Interrupted 0 300000000, id), (Slept, id), (Slept, id)] ex_sleeper)
  = Some (0, [(1, 500000000), (0, 300000000), (0, 500000000)], 3)"
  by (simp add: kogmo_rtdb_sleep_until_def ex_sleeper_def kogmo_rtdb_timestamp_now_def kogmo_timestamp_now_def
      TICKSPERSECOND_def in_int64_def sleep_loop.simps sleep_request_def Let_def)

theorem sleep_until_sound_witness:
  "\<exists>ret ns db. kogmo_rtdb_sleep_until 11500000000
        [(Interrupted 0 300000000, id), (Slept, id), (Slept, id)] ex_sleeper
      = Some (ret, [(1, 500000000), (0, 300000000), (0, 500000000)], ns, db) \<and> woke_in_time 11500000000 db"
proof -
  let ?ns = "[(Interrupted 0 300000000, id), (Slept, id), (Slept, id)]"
  obtain ret ns db where s: "kogmo_rtdb_sleep_until 11500000000 ?ns ex_sleeper
      = Some (ret, [(1, 500000000), (0, 300000000), (0, 500000000)], ns, db)"
    using ex_sleep by auto
  have n: "fst (kogmo_rtdb_timestamp_now ex_sleeper) = 10000000000"
    by (simp add: kogmo_rtdb_timestamp_now_def ex_sleeper_def kogmo_timestamp_now_def TICKSPERSECOND_def in_int64_def)
  have "naps_ok ?ns" by (auto simp: naps_ok_def short_request_def)
  from sleep_until_sound [OF s this] n s show ?thesis by simp
qed

end
