(* ===== verification/Housekeeping.thy ===== *)
theory Housekeeping
  imports Objmeta_Cascade Heap_Safety Ipc_Process
begin

text \<open>
  The manager's housekeeping (\<open>rtdb/kogmo_rtdb_housekeeping.c\<close>): purging the slots of objects
  deleted long enough ago, deleting what dead processes left behind, signals to the connected
  processes, and the statistics object.
\<close>

section \<open>Purging deleted objects\<close>

definition PURGE_KEEPALLOC_PERCFREE :: int where
  "PURGE_KEEPALLOC_PERCFREE = 20"

definition PURGE_KEEPALLOC_MAXSECS :: int where
  "PURGE_KEEPALLOC_MAXSECS = 10"

text \<open>\<open>(float)heap_free * 100 / heap_size\<close>, stored into an \<open>int\<close>.\<close>

definition percent_free :: "rtdb \<Rightarrow> int" where
  "percent_free db = float_to_int
     (f32 (f32 (f32 (of_int (heap_free db)) * 100) / f32 (of_int (heap_size db))))"

text \<open>Lines 47-63: is it time for this slot, at time \<open>ts\<close>?\<close>

definition purge_due :: "rtdb \<Rightarrow> timestamp \<Rightarrow> bool \<Rightarrow> obj_info \<Rightarrow> bool" where
  "purge_due db ts purge_keep_alloc m =
     (if oid m = 0 \<or> deleted_ts m = 0 then False
      else if \<not> purge_time m db < ts then False
      else if keep_alloc (flags m) \<and> (\<not> purge_keep_alloc
                \<or> kogmo_timestamp_diff_secs (purge_time m db) ts < of_int PURGE_KEEPALLOC_MAXSECS) then False
      else True)"

definition purge_obj :: "handle \<Rightarrow> timestamp \<Rightarrow> bool \<Rightarrow> nat \<Rightarrow> rtdb \<Rightarrow> rtdb" where
  "purge_obj h ts purge_keep_alloc i db =
     (if purge_due db ts purge_keep_alloc (objmeta db ! i)
      then kogmo_rtdb_objmeta_lock (kogmo_rtdb_objmeta_unlock_notify (kogmo_rtdb_obj_purgeslot h i db))
      else db)"

definition kogmo_rtdb_objmeta_purge_objs :: "handle \<Rightarrow> rtdb \<Rightarrow> int \<times> rtdb" where
  "kogmo_rtdb_objmeta_purge_objs h db =
     (let purge_keep_alloc = (percent_free db < PURGE_KEEPALLOC_PERCFREE);
          (ts, db) = kogmo_rtdb_timestamp_now db;
          db = kogmo_rtdb_objmeta_lock db;
          db = fold (purge_obj h ts purge_keep_alloc) [0..<length (objmeta db)] db
      in (0, kogmo_rtdb_objmeta_unlock db))"

section \<open>Dead processes\<close>

text \<open>
  One object of a process: persistent ones are kept. \<open>used\<close> is the local buffer; the first argument
  bounds the recursion of the deletion.
\<close>

definition delete_one :: "nat \<Rightarrow> handle \<Rightarrow> bool \<Rightarrow> int \<Rightarrow> obj_info \<Rightarrow> rtdb \<Rightarrow> (obj_info \<times> rtdb) option" where
  "delete_one fuel h imm o_id used db =
     (let (err, used, db) = kogmo_rtdb_obj_readinfo h o_id 0 used db
      in if c_ret err \<ge> 0 \<and> persistent (flags used) then Some (used, db)
         else map_option (\<lambda>(_, used, db). (used, db))
                (kogmo_rtdb_obj_delete_imm fuel h (used\<lparr>oid := o_id\<rparr>) imm db))"

text \<open>The loop over the ids found, ended by 0.\<close>

fun delete_owned :: "nat \<Rightarrow> handle \<Rightarrow> bool \<Rightarrow> int list \<Rightarrow> obj_info \<Rightarrow> rtdb \<Rightarrow> rtdb option" where
  "delete_owned fuel h imm [] used db = Some db"
| "delete_owned fuel h imm (o_id # objlist) used db =
     (if o_id = 0 then Some db
      else case delete_one fuel h imm o_id used db of
             None \<Rightarrow> None
           | Some (used, db) \<Rightarrow> delete_owned fuel h imm objlist used db)"

text \<open>Lines 108-130; the array of ids is what the stack holds when the search fails.\<close>

definition delete_objects_of :: "nat \<Rightarrow> handle \<Rightarrow> bool \<Rightarrow> int \<Rightarrow> obj_info \<Rightarrow> rtdb \<Rightarrow> rtdb option" where
  "delete_objects_of fuel h imm p used db =
     (case kogmo_rtdb_obj_searchinfo_deleted h (Some []) 0 0 p 0 (Some (h_stack h)) 0 db of
        (Inl _, _, db) \<Rightarrow> Some db
      | (Inr _, objlist, db) \<Rightarrow> delete_owned fuel h imm (the objlist) used db)"

text \<open>Lines 96-135: the process in slot \<open>i\<close> has been found dead. The slot is read again.\<close>

definition purge_dead_proc :: "nat \<Rightarrow> handle \<Rightarrow> obj_info \<Rightarrow> nat \<Rightarrow> ipc_shm \<Rightarrow> ipc_shm option" where
  "purge_dead_proc fuel h used i s =
     (let imm = has_flag (p_flags (proc s ! i)) FLAG_IMMEDIATELYDELETE
      in case delete_objects_of fuel h imm (proc_oid (proc s ! i)) used (local_data s) of
           None \<Rightarrow> None
         | Some db \<Rightarrow>
             let s = s\<lparr>local_data := db\<rparr>;
                 s = shm_emit (Lock Proc_lock) s
             in Some (shm_emit (Unlock Proc_lock) (proc_clear i s)))"

text \<open>
  The body of the loop for slot \<open>i\<close>; \<open>no_proc\<close> tells for which process ids \<open>kill(pid,0)\<close> fails with
  \<open>ESRCH\<close>.
\<close>

definition purge_proc :: "nat \<Rightarrow> handle \<Rightarrow> (int \<Rightarrow> bool) \<Rightarrow> obj_info \<Rightarrow> nat \<Rightarrow> ipc_shm \<Rightarrow> ipc_shm option" where
  "purge_proc fuel h no_proc used i s =
     (if proc_oid (proc s ! i) = 0 then Some s
      else if \<not> no_proc (pid (proc s ! i)) then Some s
      else purge_dead_proc fuel h used i s)"

fun purge_proc_slots :: "nat \<Rightarrow> handle \<Rightarrow> (int \<Rightarrow> bool) \<Rightarrow> obj_info \<Rightarrow> nat list \<Rightarrow> ipc_shm \<Rightarrow> ipc_shm option" where
  "purge_proc_slots fuel h no_proc used [] s = Some s"
| "purge_proc_slots fuel h no_proc used (i # js) s =
     (case purge_proc fuel h no_proc used i s of
        None \<Rightarrow> None
      | Some s \<Rightarrow> purge_proc_slots fuel h no_proc used js s)"

definition kogmo_rtdb_objmeta_purge_procs ::
    "nat \<Rightarrow> handle \<Rightarrow> (int \<Rightarrow> bool) \<Rightarrow> obj_info \<Rightarrow> ipc_shm \<Rightarrow> (int \<times> ipc_shm) option" where
  "kogmo_rtdb_objmeta_purge_procs fuel h no_proc used s =
     map_option (Pair 0) (purge_proc_slots fuel h no_proc used [0..<length (proc s)] s)"

definition kogmo_rtdb_kill_procs :: "int \<Rightarrow> ipc_shm \<Rightarrow> int \<times> ipc_shm" where
  "kogmo_rtdb_kill_procs sig s =
     (0, fold (\<lambda>i s. if proc_oid (proc s ! i) \<noteq> 0 then shm_emit (Kill (pid (proc s ! i)) sig) s else s)
           [0..<length (proc s)] s)"

section \<open>The statistics object\<close>

text \<open>
  \<open>kogmo_rtdb_obj_c3_rtdb_t\<close>, packed: behind the base header \<open>started_ts\<close> (8 bytes at 24),
  \<open>dbhost\<close> (32 at 32), \<open>version_rev\<close> (4 at 64), \<open>version_date\<close> (30 at 68), \<open>version_id\<close> (402 at 98),
  then six 4-byte counters from 500 on.
\<close>

definition C3_RTDB_size :: nat where
  "C3_RTDB_size = 524"

definition OBJTYPE_C3_RTDB :: int where
  "OBJTYPE_C3_RTDB = 0xC30004"

definition set_objects_free :: "int \<Rightarrow> byte list \<Rightarrow> byte list" where
  "set_objects_free v = put 504 (enc 4 v)"

definition set_processes_free :: "int \<Rightarrow> byte list \<Rightarrow> byte list" where
  "set_processes_free v = put 512 (enc 4 v)"

definition set_memory_free :: "int \<Rightarrow> byte list \<Rightarrow> byte list" where
  "set_memory_free v = put 520 (enc 4 v)"

definition objects_free :: "byte list \<Rightarrow> int" where
  "objects_free bs = udec (get 504 4 bs)"

definition processes_free :: "byte list \<Rightarrow> int" where
  "processes_free bs = udec (get 512 4 bs)"

definition memory_free :: "byte list \<Rightarrow> int" where
  "memory_free bs = sdec (get 520 4 bs)"

text \<open>\<open>kogmo_timestamp_now\<close>: the system's clock also in simulation mode.\<close>

definition system_now :: "rtdb \<Rightarrow> timestamp \<times> rtdb" where
  "system_now db = (kogmo_timestamp_now (clock db (ticks db)), db\<lparr>ticks := Suc (ticks db)\<rparr>)"

text \<open>The new statistics, filled into the copy that was read.\<close>

definition fill_stats :: "ipc_shm \<Rightarrow> timestamp \<Rightarrow> byte list \<Rightarrow> byte list" where
  "fill_stats s ts rtdbobj =
     set_memory_free (heap_free (local_data s))
       (set_processes_free (proc_free s)
         (set_objects_free (objmeta_free (local_data s)) (set_data_ts ts rtdbobj)))"

text \<open>\<open>buf\<close> is what the stack holds at the local \<open>rtdbobj\<close>, \<open>fuel\<close> bounds the scan of the read.\<close>

definition kogmo_rtdb_objmeta_upd_stats :: "nat \<Rightarrow> handle \<Rightarrow> byte list \<Rightarrow> ipc_shm
    \<Rightarrow> ((rtdb_error + int) \<times> ipc_shm) option" where
  "kogmo_rtdb_objmeta_upd_stats fuel h buf s =
     (case kogmo_rtdb_obj_searchinfo h (Some ''rtdb'') OBJTYPE_C3_RTDB 0 0 0 None 1 (local_data s) of
        (Inl e, _, db) \<Rightarrow> Some (Inl e, s\<lparr>local_data := db\<rparr>)
      | (Inr o_id, _, db) \<Rightarrow>
          (case kogmo_rtdb_obj_readdata fuel h o_id 0 buf (int C3_RTDB_size) db of
             None \<Rightarrow> None
           | Some (err, rtdbobj, db) \<Rightarrow>
               if c_ret err < 0 then Some (err, s\<lparr>local_data := db\<rparr>)
               else
                 let (ts, db) = system_now db;
                     s = s\<lparr>local_data := db\<rparr>;
                     (err, _, db) = kogmo_rtdb_obj_writedata h o_id (fill_stats s ts rtdbobj) db
                 in Some (if c_ret err < 0 then err else Inr 0, s\<lparr>local_data := db\<rparr>)))"

end
