(* ===== verification/Housekeeping_Sweep.thy ===== *)
theory Housekeeping_Sweep
  imports Housekeeping Process_Table Objmeta_Props
begin

text \<open>
  What the housekeeping does and keeps: which slots a purge frees, that nothing of a dead process
  is left over, that the statistics are those of the database, and a race with a process that
  leaves while the manager looks at its slot.
\<close>

section \<open>Purging\<close>

lemma purgeslot_keepint [simp]:
  assumes "dsa_frame_ok (h_dsa h)"
  shows "default_keep_deleted_interval (kogmo_rtdb_obj_purgeslot h k db) = default_keep_deleted_interval db"
  using same_metaD [OF mem_free_frame [OF assms, of db "buffer_idx (objmeta db ! k)"
      "block_size (objmeta db ! k)"]]
  by (simp add: kogmo_rtdb_obj_purgeslot_def Let_def)

definition purged :: "rtdb \<Rightarrow> timestamp \<Rightarrow> bool \<Rightarrow> obj_info \<Rightarrow> obj_info" where
  "purged db ts pk m = (if purge_due db ts pk m then m\<lparr>oid := 0\<rparr> else m)"

lemma purge_due_cong:
  assumes "default_keep_deleted_interval db' = default_keep_deleted_interval db"
  shows "purge_due db' ts pk m = purge_due db ts pk m"
proof -
  have "purge_time m db' = purge_time m db" using assms by (simp add: purge_time_def)
  then show ?thesis by (simp only: purge_due_def)
qed

lemma purge_obj_fields:
  assumes "dsa_frame_ok (h_dsa h)"
  shows "objmeta (purge_obj h ts pk i db) = (objmeta db)[i := purged db ts pk (objmeta db ! i)]"
    "default_keep_deleted_interval (purge_obj h ts pk i db) = default_keep_deleted_interval db"
    "objmeta_oid_next (purge_obj h ts pk i db) = objmeta_oid_next db"
  using assms by (simp_all add: purge_obj_def purged_def purgeslot_objmeta ipc_defs)

lemma purge_fold:
  assumes d: "dsa_frame_ok (h_dsa h)"
  shows "n \<le> length (objmeta db) \<Longrightarrow>
    objmeta (fold (purge_obj h ts pk) [0..<n] db)
      = map (purged db ts pk) (take n (objmeta db)) @ drop n (objmeta db)
    \<and> default_keep_deleted_interval (fold (purge_obj h ts pk) [0..<n] db) = default_keep_deleted_interval db"
proof (induction n)
  case 0 show ?case by simp
next
  case (Suc n)
  let ?db = "fold (purge_obj h ts pk) [0..<n] db" and ?xs = "objmeta db"
  have n: "n < length ?xs" using Suc.prems by simp
  have IH: "objmeta ?db = map (purged db ts pk) (take n ?xs) @ drop n ?xs"
    "default_keep_deleted_interval ?db = default_keep_deleted_interval db" using Suc by simp_all
  have nth: "objmeta ?db ! n = ?xs ! n" using n by (simp add: IH(1) nth_append)
  have p: "purged ?db ts pk = purged db ts pk"
    using purge_due_cong [OF IH(2)] by (simp add: purged_def fun_eq_iff)
  have "map (purged db ts pk) (take (Suc n) ?xs) @ drop (Suc n) ?xs
      = (map (purged db ts pk) (take n ?xs) @ drop n ?xs)[n := purged db ts pk (?xs ! n)]"
    using n by (simp add: take_Suc_conv_app_nth list_update_append Cons_nth_drop_Suc [symmetric])
  then show ?case using purge_obj_fields [OF d, of ts pk n ?db] nth p by (simp add: IH)
qed

text \<open>The state in which the loop runs, and its result.\<close>

lemma purge_objs_unfold:
  "snd (kogmo_rtdb_objmeta_purge_objs h db) = kogmo_rtdb_objmeta_unlock
     (fold (purge_obj h (fst (kogmo_rtdb_timestamp_now db)) (percent_free db < PURGE_KEEPALLOC_PERCFREE))
        [0..<length (objmeta db)] (kogmo_rtdb_objmeta_lock (snd (kogmo_rtdb_timestamp_now db))))"
  by (simp add: kogmo_rtdb_objmeta_purge_objs_def Let_def split_beta)

lemma purge_objs_objmeta:
  assumes "dsa_frame_ok (h_dsa h)"
  shows "objmeta (snd (kogmo_rtdb_objmeta_purge_objs h db))
    = map (purged db (fst (kogmo_rtdb_timestamp_now db)) (percent_free db < PURGE_KEEPALLOC_PERCFREE)) (objmeta db)"
proof -
  let ?db = "kogmo_rtdb_objmeta_lock (snd (kogmo_rtdb_timestamp_now db))"
  have p: "purged ?db ts pk = purged db ts pk" for ts pk
    using purge_due_cong [of ?db db] by (simp add: purged_def fun_eq_iff kogmo_rtdb_objmeta_lock_def)
  show ?thesis
    unfolding purge_objs_unfold using purge_fold [OF assms, of "length (objmeta db)" ?db] by (simp add: p)
qed

text \<open>What one round keeps, the whole purge keeps.\<close>

lemma purge_fold_rel:
  assumes refl: "R db db" and trans: "\<And>a b c. R a b \<Longrightarrow> R b c \<Longrightarrow> R a c"
    and step: "\<And>i db'. i < n \<Longrightarrow> length (objmeta db') = length (objmeta db) \<Longrightarrow> R db' (purge_obj h ts pk i db')"
    and d: "dsa_frame_ok (h_dsa h)"
  shows "m \<le> n \<Longrightarrow> R db (fold (purge_obj h ts pk) [0..<m] db)
    \<and> length (objmeta (fold (purge_obj h ts pk) [0..<m] db)) = length (objmeta db)"
proof (induction m)
  case 0 show ?case by (simp add: refl)
next
  case (Suc m)
  then have IH: "R db (fold (purge_obj h ts pk) [0..<m] db)"
    "length (objmeta (fold (purge_obj h ts pk) [0..<m] db)) = length (objmeta db)" by simp_all
  with trans [OF IH(1) step [OF _ IH(2)]] Suc.prems show ?case
    by (simp add: purge_obj_fields [OF d])
qed

lemma purge_due_used: "purge_due db ts pk m \<Longrightarrow> oid m \<noteq> 0 \<and> deleted_ts m \<noteq> 0"
  by (auto simp: purge_due_def split: if_splits)

lemma relock_cong:
  "objmeta (kogmo_rtdb_objmeta_lock (kogmo_rtdb_objmeta_unlock_notify db)) = objmeta db"
  "objmeta_free (kogmo_rtdb_objmeta_lock (kogmo_rtdb_objmeta_unlock_notify db)) = objmeta_free db"
  "objmeta_oid_next (kogmo_rtdb_objmeta_lock (kogmo_rtdb_objmeta_unlock_notify db)) = objmeta_oid_next db"
  "heap (kogmo_rtdb_objmeta_lock (kogmo_rtdb_objmeta_unlock_notify db)) = heap db"
  "heap_free (kogmo_rtdb_objmeta_lock (kogmo_rtdb_objmeta_unlock_notify db)) = heap_free db"
  "heap_used (kogmo_rtdb_objmeta_lock (kogmo_rtdb_objmeta_unlock_notify db)) = heap_used db"
  "heap_size (kogmo_rtdb_objmeta_lock (kogmo_rtdb_objmeta_unlock_notify db)) = heap_size db"
  by (simp_all add: ipc_defs)

lemma purge_obj_table_ok:
  assumes "table_ok db" "dsa_frame_ok (h_dsa h)" "i < length (objmeta db)"
  shows "table_ok (purge_obj h ts pk i db)"
proof (cases "purge_due db ts pk (objmeta db ! i)")
  case True
  have "table_ok (kogmo_rtdb_obj_purgeslot h i db)"
    using purgeslot_table_ok [OF assms] purge_due_used [OF True] by simp
  then have "table_ok (kogmo_rtdb_objmeta_lock (kogmo_rtdb_objmeta_unlock_notify (kogmo_rtdb_obj_purgeslot h i db)))"
    by (rule table_ok_cong [THEN iffD2, rotated -1]) (rule relock_cong)+
  with True show ?thesis by (simp only: purge_obj_def if_True)
next
  case False with assms show ?thesis by (simp only: purge_obj_def if_False)
qed

context heap_allocator
begin

lemma purge_obj_heap_ok:
  assumes "h_dsa h = d" "heap_ok inv db" "i < length (objmeta db)"
  shows "heap_ok inv (purge_obj h ts pk i db)"
proof (cases "purge_due db ts pk (objmeta db ! i)")
  case True
  have "heap_ok inv (kogmo_rtdb_obj_purgeslot h i db)"
    using purgeslot_heap_ok [OF assms] purge_due_used [OF True] by simp
  from heap_ok_cong [OF this relock_cong(1,4-7)] True show ?thesis by (simp only: purge_obj_def if_True)
next
  case False with assms show ?thesis by (simp only: purge_obj_def if_False)
qed

lemma purge_objs_heap_ok:
  assumes h: "h_dsa h = d" and ok: "heap_ok inv db"
  shows "heap_ok inv (snd (kogmo_rtdb_objmeta_purge_objs h db))"
proof -
  let ?ts = "fst (kogmo_rtdb_timestamp_now db)" and ?pk = "percent_free db < PURGE_KEEPALLOC_PERCFREE"
  let ?db = "kogmo_rtdb_objmeta_lock (snd (kogmo_rtdb_timestamp_now db))"
  have d: "dsa_frame_ok (h_dsa h)" using h frame_ok by simp
  have 0: "heap_ok inv ?db" by (rule heap_ok_cong [OF ok]) (simp_all add: ipc_defs)
  have "(\<lambda>a b. heap_ok inv a \<longrightarrow> heap_ok inv b) ?db (fold (purge_obj h ?ts ?pk) [0..<length (objmeta db)] ?db)
    \<and> length (objmeta (fold (purge_obj h ?ts ?pk) [0..<length (objmeta db)] ?db)) = length (objmeta ?db)"
    by (rule purge_fold_rel [where n = "length (objmeta db)"])
      (use d purge_obj_heap_ok [OF h] in \<open>simp_all add: kogmo_rtdb_objmeta_lock_def\<close>)
  with 0 have 1: "heap_ok inv (fold (purge_obj h ?ts ?pk) [0..<length (objmeta db)] ?db)" by simp
  show ?thesis
    unfolding purge_objs_unfold by (rule heap_ok_cong [OF 1]) (simp_all add: ipc_defs)
qed

end

lemma purge_objs_table_ok:
  assumes d: "dsa_frame_ok (h_dsa h)" and ok: "table_ok db"
  shows "table_ok (snd (kogmo_rtdb_objmeta_purge_objs h db))"
proof -
  let ?ts = "fst (kogmo_rtdb_timestamp_now db)" and ?pk = "percent_free db < PURGE_KEEPALLOC_PERCFREE"
  let ?db = "kogmo_rtdb_objmeta_lock (snd (kogmo_rtdb_timestamp_now db))"
  have 0: "table_ok ?db" using ok by (rule table_ok_cong [THEN iffD2, rotated -1]) (simp_all add: ipc_defs)
  have "(\<lambda>a b. table_ok a \<longrightarrow> table_ok b) ?db (fold (purge_obj h ?ts ?pk) [0..<length (objmeta db)] ?db)
    \<and> length (objmeta (fold (purge_obj h ?ts ?pk) [0..<length (objmeta db)] ?db)) = length (objmeta ?db)"
    by (rule purge_fold_rel [where n = "length (objmeta db)"])
      (use d purge_obj_table_ok in \<open>simp_all add: kogmo_rtdb_objmeta_lock_def\<close>)
  with 0 have 1: "table_ok (fold (purge_obj h ?ts ?pk) [0..<length (objmeta db)] ?db)" by simp
  show ?thesis
    unfolding purge_objs_unfold by (rule table_ok_cong [THEN iffD2, OF _ _ _ 1]) (simp_all add: ipc_defs)
qed

text \<open>The locks.\<close>

lemma purge_obj_locks:
  assumes d: "dsa_frame_ok (h_dsa h)" and L: "Objmeta_lock \<in> L" "Heap_lock \<notin> L"
  shows "lock_step L db (purge_obj h ts pk i db) L"
proof (cases "purge_due db ts pk (objmeta db ! i)")
  case True
  have "lock_step L db (kogmo_rtdb_obj_purgeslot h i db) L" by (rule purgeslot_locks [OF d L(2)])
  also have "lock_step L (kogmo_rtdb_obj_purgeslot h i db) (kogmo_rtdb_objmeta_lock
      (kogmo_rtdb_objmeta_unlock_notify (kogmo_rtdb_obj_purgeslot h i db))) L"
    by (rule lock_step_emits [of _ "[Signal_objmeta, Unlock Objmeta_lock, Lock Objmeta_lock]"])
      (use L in \<open>auto simp: ipc_defs insert_absorb\<close>)
  finally show ?thesis using True by (simp only: purge_obj_def if_True)
next
  case False then show ?thesis by (simp add: purge_obj_def lock_step_same)
qed

lemma purge_objs_locks:
  assumes d: "dsa_frame_ok (h_dsa h)" and L: "Objmeta_lock \<notin> L" "Heap_lock \<notin> L"
  shows "lock_step L db (snd (kogmo_rtdb_objmeta_purge_objs h db)) L"
proof -
  let ?ts = "fst (kogmo_rtdb_timestamp_now db)" and ?pk = "percent_free db < PURGE_KEEPALLOC_PERCFREE"
  let ?db = "kogmo_rtdb_objmeta_lock (snd (kogmo_rtdb_timestamp_now db))"
  let ?O = "insert Objmeta_lock L"
  let ?f = "fold (purge_obj h ?ts ?pk) [0..<length (objmeta db)] ?db"
  have "lock_step L db ?db ?O"
    unfolding kogmo_rtdb_objmeta_lock_def using L by (intro lock_step_log1 [OF lock_step_emit]) simp_all
  also have "(\<lambda>a b. lock_step ?O a b ?O) ?db ?f \<and> length (objmeta ?f) = length (objmeta ?db)"
    by (rule purge_fold_rel [where n = "length (objmeta db)"])
      (use d L purge_obj_locks in \<open>auto intro: lock_step_same lock_step_trans\<close>)
  then have "lock_step ?O ?db ?f ?O" by simp
  also have "lock_step ?O ?f (kogmo_rtdb_objmeta_unlock ?f) L"
    unfolding kogmo_rtdb_objmeta_unlock_def using L by (intro lock_step_emit) simp
  finally show ?thesis by (simp only: purge_objs_unfold)
qed

section \<open>The objects of a dead process\<close>

context delete_steps
begin

lemma delete_one_rel:
  assumes "delete_one fuel h imm o_id used db = Some (used', db')" "o_id \<noteq> 0"
  shows "R db db'"
proof -
  obtain err u db1 where r: "kogmo_rtdb_obj_readinfo h o_id 0 used db = (err, u, db1)" by (metis prod_cases3)
  have 1: "R db db1" using readinfo_step [of db o_id 0 used] r by simp
  show ?thesis
  proof (cases "c_ret err \<ge> 0 \<and> persistent (flags u)")
    case True with assms r 1 show ?thesis by (simp add: delete_one_def)
  next
    case False
    then obtain v where "kogmo_rtdb_obj_delete_imm fuel h (u\<lparr>oid := o_id\<rparr>) imm db1 = Some (v, used', db')"
      using assms r by (auto simp: delete_one_def)
    from delete_rel [OF this] assms(2) 1 show ?thesis by (auto intro: trans)
  qed
qed

lemma delete_owned_rel: "delete_owned fuel h imm os used db = Some db' \<Longrightarrow> R db db'"
proof (induction os arbitrary: used db)
  case (Cons o_id os)
  show ?case
  proof (cases "o_id = 0")
    case True with Cons.prems show ?thesis by (simp add: refl)
  next
    case False
    with Cons.prems obtain u db1 where s: "delete_one fuel h imm o_id used db = Some (u, db1)"
      "delete_owned fuel h imm os u db1 = Some db'" by (auto split: option.splits)
    from delete_one_rel [OF s(1) False] Cons.IH [OF s(2)] show ?thesis by (rule trans)
  qed
qed (simp add: refl)

end

lemma delete_target:
  assumes s: "kogmo_rtdb_obj_delete_imm fuel h m imm db = Some (r, m', db')"
    and k: "kogmo_rtdb_obj_findmeta_byid (oid m) db = Some k" "delete_check h (objmeta db ! k) imm = None"
    and d: "dsa_frame_ok (h_dsa h)" "clock_ok db" and m: "oid m \<noteq> 0"
  shows "\<not> undeleted (objmeta db' ! k)"
proof -
  obtain f where f: "fuel = Suc f" using s by (cases fuel) auto
  let ?db = "kogmo_rtdb_objmeta_lock db"
  let ?mk = "delete_mark h k imm ?db"
  have kl: "k < length (objmeta ?db)" "clock_ok ?db"
    using k d(2) by (auto simp: kogmo_rtdb_obj_findmeta_byid_def ipc_defs clock_ok_def)
  note M = delete_mark_keeps [OF d(1) kl, of imm]
  from s k have c: "delete_children (\<lambda>child db. map_option (\<lambda>(_, _, db). db)
        (kogmo_rtdb_obj_delete_imm f h child False db)) h (child_ids h (oid m) ?db) (snd ?mk) = Some db'"
    unfolding f by (auto simp: Let_def split_beta)
  have "keeps (snd ?mk) db'"
  proof -
    have "dsa_frame_ok (h_dsa h) \<longrightarrow> clock_ok (snd ?mk) \<longrightarrow> keeps (snd ?mk) db'"
      by (rule del_keeps.children_steps [OF _ c]) (use del_keeps.delete_rel in \<open>auto split: prod.splits\<close>)
    then show ?thesis using d(1) kl(2) keeps_clock_ok [OF M(1)] by simp
  qed
  moreover have "k < length (objmeta (snd ?mk))" using kl(1) keeps_length [OF M(1)] by simp
  ultimately show ?thesis using keeps_undeleted M(2) by blast
qed

lemma readinfo_cases:
  assumes "kogmo_rtdb_obj_readinfo h i 0 buf db = (err, u, db')" "kogmo_rtdb_obj_findmeta_byid i db = Some k"
    "undeleted (objmeta db ! k)"
  shows "err = Inr 0" "u = objmeta db ! k" "objmeta db' = objmeta db" "clock_ok db' = clock_ok db"
proof -
  have "kogmo_rtdb_obj_readinfo h i 0 buf db
      = (Inr 0, objmeta db ! k, kogmo_rtdb_objmeta_unlock (kogmo_rtdb_objmeta_lock db))"
    using assms(2,3) by (simp add: kogmo_rtdb_obj_readinfo_def undeleted_def)
  with assms(1) have e: "err = Inr 0" "u = objmeta db ! k" "db' = kogmo_rtdb_objmeta_unlock (kogmo_rtdb_objmeta_lock db)"
    by simp_all
  from e(1,2) show "err = Inr 0" "u = objmeta db ! k" by simp_all
  show "objmeta db' = objmeta db" by (simp add: e(3))
  show "clock_ok db' = clock_ok db" unfolding e(3) by (rule clock_ok_cong) (simp_all add: ipc_defs)
qed

lemma delete_one_target:
  assumes s: "delete_one fuel h imm o_id used db = Some (used', db')" "o_id \<noteq> 0"
    and k: "kogmo_rtdb_obj_findmeta_byid o_id db = Some k" "undeleted (objmeta db ! k)" "\<not> persistent (flags (objmeta db ! k))"
    and a: "may_delete h (objmeta db ! k)" and d: "dsa_frame_ok (h_dsa h)" "clock_ok db"
  shows "\<not> undeleted (objmeta db' ! k)"
proof -
  obtain err u db1 where r: "kogmo_rtdb_obj_readinfo h o_id 0 used db = (err, u, db1)" by (metis prod_cases3)
  note R = readinfo_cases [OF r k(1,2)]
  obtain v where v: "kogmo_rtdb_obj_delete_imm fuel h (u\<lparr>oid := o_id\<rparr>) imm db1 = Some (v, used', db')"
    using s r R k(3) by (auto simp: delete_one_def)
  show ?thesis
    by (rule delete_target [OF v]) (use R k a d s(2) in
      \<open>auto simp: kogmo_rtdb_obj_findmeta_byid_def delete_check_None undeleted_def\<close>)
qed

lemma keeps_find:
  assumes "keeps db db'" "unique_keys oid (objmeta db')" "kogmo_rtdb_obj_findmeta_byid i db = Some k" "i \<noteq> 0"
    "undeleted (objmeta db' ! k)"
  shows "kogmo_rtdb_obj_findmeta_byid i db' = Some k"
proof -
  have k: "k < length (objmeta db)" "oid (objmeta db ! k) = i"
    using assms(3) by (auto simp: kogmo_rtdb_obj_findmeta_byid_def scan_first_Some)
  have "oid (objmeta db' ! k) = i"
    using slot_keepsD(11) [OF keeps_nth [OF assms(1) k(1)]] assms(5) k(2) by (auto simp: undeleted_def)
  then show ?thesis
    using objtab.lookup_unique [OF assms(2,4)] k(1) keeps_length [OF assms(1)]
    by (simp add: kogmo_rtdb_obj_findmeta_byid_def lookup_key_def)
qed

lemma delete_owned_target:
  assumes "delete_owned fuel h imm os used db = Some db'" "i < length os" "0 \<notin> set (take (Suc i) os)"
    and "kogmo_rtdb_obj_findmeta_byid (os ! i) db = Some k" "\<not> persistent (flags (objmeta db ! k))"
    and "may_delete h (objmeta db ! k)" "table_ok db"
    and d: "dsa_frame_ok (h_dsa h)" and "clock_ok db"
  shows "\<not> undeleted (objmeta db' ! k)"
  using assms(1-7,9)
proof (induction os arbitrary: i used db)
  case (Cons o_id os)
  have nz: "o_id \<noteq> 0" using Cons.prems(3) by auto
  then obtain u db1 where s: "delete_one fuel h imm o_id used db = Some (u, db1)"
    "delete_owned fuel h imm os u db1 = Some db'" using Cons.prems(1) by (auto split: option.splits)
  have K: "keeps db db1" "keeps db1 db'"
    using del_keeps.delete_one_rel [OF s(1) nz] del_keeps.delete_owned_rel [OF s(2)] d Cons.prems(8)
      keeps_clock_ok by blast+
  have t1: "table_ok db1" using del_table.delete_one_rel [OF s(1) nz] d Cons.prems(7) by simp
  have k: "k < length (objmeta db)" using Cons.prems(4) by (auto simp: kogmo_rtdb_obj_findmeta_byid_def)
  have k1: "k < length (objmeta db1)" using k keeps_length [OF K(1)] by simp
  show ?case
  proof
    assume u': "undeleted (objmeta db' ! k)"
    then have u1: "undeleted (objmeta db1 ! k)" by (rule keeps_undeleted [OF K(2) k1])
    then have u0: "undeleted (objmeta db ! k)" by (rule keeps_undeleted [OF K(1) k])
    note S = slot_keepsD [OF keeps_nth [OF K(1) k]]
    show False
    proof (cases i)
      case 0
      have f: "kogmo_rtdb_obj_findmeta_byid o_id db = Some k" using Cons.prems(4) 0 by simp
      from delete_one_target [OF s(1) nz f u0 Cons.prems(5,6) d Cons.prems(8)] u1 show False by simp
    next
      case (Suc j)
      have z: "os ! j \<noteq> 0" using Cons.prems(2,3) Suc by (auto simp: take_Suc_conv_app_nth)
      have "\<not> undeleted (objmeta db' ! k)"
      proof (rule Cons.IH [OF s(2)])
        show "j < length os" "0 \<notin> set (take (Suc j) os)" using Cons.prems(2,3) Suc by auto
        show "kogmo_rtdb_obj_findmeta_byid (os ! j) db1 = Some k"
          using keeps_find [OF K(1) _ _ z u1] t1 Cons.prems(4) Suc by (simp add: table_ok_def)
        show "\<not> persistent (flags (objmeta db1 ! k))" "may_delete h (objmeta db1 ! k)"
          using S(3,6) Cons.prems(5,6) by (simp_all add: may_delete_def)
        show "table_ok db1" by (rule t1)
        show "clock_ok db1" using keeps_clock_ok [OF K(1)] Cons.prems(8) by simp
      qed
      with u' show False by simp
    qed
  qed
qed simp

text \<open>The live objects of a process that go with it; process 0 stands for any.\<close>

definition owned_by :: "int \<Rightarrow> obj_info \<Rightarrow> bool" where
  "owned_by p m \<longleftrightarrow> undeleted m \<and> created_ts m \<noteq> 0 \<and> (p = 0 \<or> created_proc m = p) \<and> \<not> persistent (flags m)"

text \<open>No process has more objects than the array has room for.\<close>

definition few_objects :: "int \<Rightarrow> obj_info list \<Rightarrow> bool" where
  "few_objects p xs \<longleftrightarrow> length (filter (\<lambda>m. p = 0 \<or> created_proc m = p) xs) < OBJIDLIST_MAX"

definition sweep_base :: "handle \<Rightarrow> rtdb \<Rightarrow> bool" where
  "sweep_base h db \<longleftrightarrow> dsa_frame_ok (h_dsa h) \<and> plain_names h
     \<and> length (h_stack h) = Suc OBJIDLIST_MAX \<and> clock_ok db \<and> table_ok db"

definition sweep_pre :: "handle \<Rightarrow> rtdb \<Rightarrow> bool" where
  "sweep_pre h db \<longleftrightarrow> this_process_is_admin h \<and> sweep_base h db"

lemma search_fields:
  assumes "kogmo_rtdb_obj_searchinfo_internal h nm ot parent p ts idl n nolock incl db = (r, l, db')"
  shows "objmeta db' = objmeta db" "objmeta_oid_next db' = objmeta_oid_next db" "objmeta_free db' = objmeta_free db"
    "clock db' = clock db" "simmode db' = simmode db" "sim_ts db' = sim_ts db" "heap db' = heap db"
    "ticks db' = ticks db"
  by (subst search_same_data [OF assms]; simp)+

lemma sweep_pre_base: "sweep_pre h db \<Longrightarrow> sweep_base h db"
  by (simp add: sweep_pre_def)

lemma sweep_search:
  assumes pre: "sweep_base h db" and few: "few_objects p (objmeta db)"
    and s: "kogmo_rtdb_obj_searchinfo_deleted h (Some []) 0 0 p 0 (Some (h_stack h)) 0 db = (r, l, db1)"
  shows "objmeta db1 = objmeta db \<and> clock_ok db1 \<and> table_ok db1
    \<and> (case r of Inl _ \<Rightarrow> \<forall>m \<in> set (objmeta db). \<not> owned_by p m
       | Inr _ \<Rightarrow> l \<noteq> None \<and> takeWhile (\<lambda>x. x \<noteq> 0) (the l) = map oid (matching (\<lambda>_. True) 0 0 p 0 True db))"
proof -
  let ?M = "matching (\<lambda>_. True) 0 0 p 0 True db"
  have q: "parse_name h (Some []) 0 = Query (\<lambda>_. True) 0" using pre by (simp add: sweep_pre_def sweep_base_def parse_empty_name)
  have l: "length (h_stack h) = Suc OBJIDLIST_MAX" using pre by (simp add: sweep_pre_def sweep_base_def)
  note o = search_fields [OF s [unfolded kogmo_rtdb_obj_searchinfo_deleted_def]]
  have ok: "clock_ok db1" "table_ok db1"
    using pre clock_ok_cong [OF o(4-6)] table_ok_cong [OF o(1-3)] by (simp_all add: sweep_pre_def sweep_base_def)
  have sub: "length ?M < OBJIDLIST_MAX"
  proof -
    have e: "?M = filter (\<lambda>m. oid m \<noteq> 0 \<and> created_ts m \<noteq> 0) (filter (\<lambda>m. p = 0 \<or> created_proc m = p) (objmeta db))"
      unfolding matching_def filter_filter by (rule filter_cong) (auto simp: search_match_def)
    have "length ?M \<le> length (filter (\<lambda>m. p = 0 \<or> created_proc m = p) (objmeta db))"
      unfolding e by (rule length_filter_le)
    then show ?thesis using few by (simp add: few_objects_def)
  qed
  have own: "owned_by p m \<Longrightarrow> search_match (\<lambda>_. True) 0 0 p 0 True m" for m
    by (auto simp: owned_by_def search_match_def undeleted_def)
  have nz: "\<forall>m \<in> set ?M. oid m \<noteq> 0" by (auto simp: matching_def search_match_def)
  note sx = s [unfolded kogmo_rtdb_obj_searchinfo_deleted_def]
  show ?thesis
  proof (cases "?M = []")
    case True
    then have e: "filter (search_match (\<lambda>_. True) 0 0 p 0 True) (objmeta db) = []" by (simp add: matching_def)
    then have "\<forall>m \<in> set (objmeta db). \<not> owned_by p m" using own by (auto simp: filter_empty_conv)
    moreover have "\<exists>x. r = Inl x"
      using sx e q search_loop_all [OF order_refl order_refl l, of "search_match (\<lambda>_. True) 0 0 p 0 True" "objmeta db" 0]
      by (auto simp: kogmo_rtdb_obj_searchinfo_internal_def Let_def split_beta)
    ultimately show ?thesis using o ok by auto
  next
    case False
    from search_list [OF q l refl False, of False] obtain l' db' where
      S: "kogmo_rtdb_obj_searchinfo_internal h (Some []) 0 0 p 0 (Some (h_stack h)) 0 False True db
        = (Inr (int (length ?M)), Some l', db')"
      and t: "take (min (length ?M) (OBJIDLIST_MAX - 1)) l' = map oid (take (OBJIDLIST_MAX - 1) ?M)"
      and z: "l' ! min (length ?M) OBJIDLIST_MAX = 0" and len: "length l' = Suc OBJIDLIST_MAX" by blast
    have "min (length ?M) (OBJIDLIST_MAX - 1) = length ?M" "take (OBJIDLIST_MAX - 1) ?M = ?M"
      "min (length ?M) OBJIDLIST_MAX = length ?M" using sub by simp_all
    then have t': "take (length ?M) l' = map oid ?M" and z': "l' ! length ?M = 0" using t z by simp_all
    have "takeWhile (\<lambda>x. x \<noteq> 0) l' = take (length ?M) l'"
      by (rule takeWhile_prefix) (use nz t' z' len sub in auto)
    with S sx o ok t' show ?thesis by auto
  qed
qed

lemma may_delete_admin: "this_process_is_admin h \<Longrightarrow> may_delete h m"
  by (simp add: may_delete_def)

lemma delete_objects_of_gen:
  assumes pre: "sweep_base h db" and few: "few_objects p (objmeta db)"
    and may: "\<And>m. owned_by p m \<Longrightarrow> may_delete h m"
    and s: "delete_objects_of fuel h imm p used db = Some db'"
  shows "keeps db db' \<and> table_ok db' \<and> (\<forall>k < length (objmeta db). owned_by p (objmeta db ! k) \<longrightarrow> \<not> undeleted (objmeta db' ! k))"
proof -
  obtain r l db1 where S: "kogmo_rtdb_obj_searchinfo_deleted h (Some []) 0 0 p 0 (Some (h_stack h)) 0 db = (r, l, db1)"
    by (metis prod_cases3)
  note o = search_fields [OF S [unfolded kogmo_rtdb_obj_searchinfo_deleted_def]]
  note F = sweep_search [OF pre few S]
  have K0: "keeps db db1" using F o by (intro keeps_objmeta) simp_all
  have d: "dsa_frame_ok (h_dsa h)" using pre by (simp add: sweep_pre_def sweep_base_def)
  show ?thesis
  proof (cases r)
    case (Inl e)
    then have "db' = db1" using s S by (simp add: delete_objects_of_def)
    moreover have "\<forall>k < length (objmeta db). \<not> owned_by p (objmeta db ! k)" using F Inl by simp
    ultimately show ?thesis using F K0 by simp
  next
    case (Inr v)
    let ?M = "matching (\<lambda>_. True) 0 0 p 0 True db"
    have D: "delete_owned fuel h imm (the l) used db1 = Some db'" using s S Inr by (simp add: delete_objects_of_def)
    have tw: "takeWhile (\<lambda>x. x \<noteq> 0) (the l) = map oid ?M" using F Inr by simp
    have K1: "keeps db1 db'" "table_ok db'"
      using del_keeps.delete_owned_rel [OF D] del_table.delete_owned_rel [OF D] d F by simp_all
    have "\<not> undeleted (objmeta db' ! k)" if k: "k < length (objmeta db)" "owned_by p (objmeta db ! k)" for k
    proof -
      have "objmeta db ! k \<in> set ?M"
        using k by (auto simp: matching_def search_match_def owned_by_def undeleted_def)
      then obtain i where i: "i < length ?M" "?M ! i = objmeta db ! k" by (auto simp: in_set_conv_nth)
      have il: "i < length (takeWhile (\<lambda>x. x \<noteq> 0) (the l))" using i tw by simp
      have li: "i < length (the l)" using il length_takeWhile_le by (rule less_le_trans)
      have nth: "the l ! i = oid (objmeta db ! k)" using takeWhile_nth [OF il] i tw by simp
      have "take (Suc i) (the l) = take (Suc i) (take (length (takeWhile (\<lambda>x. x \<noteq> 0) (the l))) (the l))"
        using il by (simp add: min_absorb1)
      then have "take (Suc i) (the l) = take (Suc i) (takeWhile (\<lambda>x. x \<noteq> 0) (the l))"
        by (simp only: takeWhile_eq_take [symmetric])
      then have z: "0 \<notin> set (take (Suc i) (the l))"
        using set_takeWhileD [of 0 "\<lambda>x. x \<noteq> 0" "the l"] in_set_takeD by metis
      have "oid (objmeta db ! k) \<noteq> 0" using k by (simp add: owned_by_def undeleted_def)
      then have "kogmo_rtdb_obj_findmeta_byid (the l ! i) db1 = Some k"
        using objtab.lookup_unique [of "objmeta db" "oid (objmeta db ! k)" k] pre k F nth
        by (simp add: sweep_pre_def sweep_base_def table_ok_def kogmo_rtdb_obj_findmeta_byid_def lookup_key_def)
      from delete_owned_target [OF D li z this] show ?thesis
        using F k d pre may [OF k(2)] by (simp add: owned_by_def sweep_base_def)
    qed
    with K0 K1 keeps_trans show ?thesis by blast
  qed
qed

lemma delete_objects_of_effect:
  assumes "sweep_pre h db" "few_objects p (objmeta db)" "delete_objects_of fuel h imm p used db = Some db'"
  shows "keeps db db' \<and> table_ok db' \<and> (\<forall>k < length (objmeta db). owned_by p (objmeta db ! k) \<longrightarrow> \<not> undeleted (objmeta db' ! k))"
  by (rule delete_objects_of_gen) (use assms in \<open>auto simp: sweep_pre_def may_delete_admin\<close>)

section \<open>The sweep returns\<close>

lemma delete_one_returns:
  assumes d: "dsa_frame_ok (h_dsa h)" and o: "o_id \<noteq> 0" and c: "clock_ok db" "undeleted_count db < fuel"
  shows "\<exists>used' db'. delete_one fuel h imm o_id used db = Some (used', db')"
proof -
  obtain err u db1 where r: "kogmo_rtdb_obj_readinfo h o_id 0 used db = (err, u, db1)" by (metis prod_cases3)
  have K: "keeps db db1" using del_keeps.readinfo_step [of h db o_id 0 used] d c(1) r by simp
  have "clock_ok db1" "undeleted_count db1 < fuel"
    using keeps_clock_ok [OF K] c keeps_count [OF K] by simp_all
  with delete_returns [OF d, of "u\<lparr>oid := o_id\<rparr>" db1 fuel imm] o
  show ?thesis by (auto simp: delete_one_def r)
qed

lemma delete_owned_returns:
  assumes d: "dsa_frame_ok (h_dsa h)"
  shows "clock_ok db \<Longrightarrow> undeleted_count db < fuel \<Longrightarrow> \<exists>db'. delete_owned fuel h imm os used db = Some db'"
proof (induction os arbitrary: used db)
  case (Cons o_id os)
  show ?case
  proof (cases "o_id = 0")
    case False
    from delete_one_returns [OF d False Cons.prems] obtain u db1 where
      s: "delete_one fuel h imm o_id used db = Some (u, db1)" by blast
    have K: "keeps db db1" using del_keeps.delete_one_rel [OF s False] d Cons.prems(1) by simp
    have "clock_ok db1" "undeleted_count db1 < fuel"
      using keeps_clock_ok [OF K] Cons.prems keeps_count [OF K] by simp_all
    from Cons.IH [OF this] s False show ?thesis by simp
  qed simp
qed simp

lemma delete_objects_of_returns:
  assumes pre: "sweep_base h db" and few: "few_objects p (objmeta db)" and f: "undeleted_count db < fuel"
  shows "\<exists>db'. delete_objects_of fuel h imm p used db = Some db'"
proof -
  obtain r l db1 where S: "kogmo_rtdb_obj_searchinfo_deleted h (Some []) 0 0 p 0 (Some (h_stack h)) 0 db = (r, l, db1)"
    by (metis prod_cases3)
  note F = sweep_search [OF pre few S]
  have "undeleted_count db1 < fuel" using f F by (simp add: undeleted_count_def)
  then show ?thesis
    using delete_owned_returns [of h db1 fuel imm "the l" used] F S pre
    by (cases r) (auto simp: delete_objects_of_def sweep_pre_def sweep_base_def)
qed

section \<open>All dead processes\<close>

lemma keeps_few_objects: "keeps db db' \<Longrightarrow> few_objects p (objmeta db') = few_objects p (objmeta db)"
proof -
  assume k: "keeps db db'"
  have "map created_proc (objmeta db') = map created_proc (objmeta db)"
    using k by (intro nth_equalityI) (auto simp: keeps_def slot_keeps_def)
  moreover have "few_objects p xs \<longleftrightarrow>
      length (filter (\<lambda>q. p = 0 \<or> q = p) (map created_proc xs)) < OBJIDLIST_MAX" for xs
    by (simp add: few_objects_def filter_map o_def)
  ultimately show ?thesis by (simp only:)
qed

lemma keeps_sweep_pre: "keeps db db' \<Longrightarrow> sweep_pre h db \<Longrightarrow> table_ok db' \<Longrightarrow> sweep_pre h db'"
  using keeps_clock_ok by (simp add: sweep_pre_def sweep_base_def)

text \<open>What is true of slot \<open>i\<close> after the sweep from \<open>s\<close> to \<open>s'\<close>.\<close>

definition swept :: "(int \<Rightarrow> bool) \<Rightarrow> ipc_shm \<Rightarrow> ipc_shm \<Rightarrow> nat \<Rightarrow> bool" where
  "swept no_proc s s' i \<longleftrightarrow>
     (if proc_oid (proc s ! i) \<noteq> 0 \<and> no_proc (pid (proc s ! i))
      then proc s' ! i = zero_process
        \<and> (\<forall>k < length (objmeta (local_data s)). owned_by (proc_oid (proc s ! i)) (objmeta (local_data s) ! k)
             \<longrightarrow> \<not> undeleted (objmeta (local_data s') ! k))
      else proc s' ! i = proc s ! i)"

definition sweep_rel :: "ipc_shm \<Rightarrow> ipc_shm \<Rightarrow> bool" where
  "sweep_rel s s' \<longleftrightarrow> keeps (local_data s) (local_data s') \<and> table_ok (local_data s')
     \<and> length (proc s') = length (proc s) \<and> proc_oid_next s' = proc_oid_next s \<and> (procs_ok s \<longrightarrow> procs_ok s')"

lemma purge_dead_proc_effect:
  assumes pre: "sweep_pre h (local_data s)" and few: "few_objects (proc_oid (proc s ! i)) (objmeta (local_data s))"
    and i: "i < length (proc s)" and s: "purge_dead_proc fuel h used i s = Some s'"
  shows "proc s' = (proc s)[i := zero_process] \<and> proc_free s' = uint32 (proc_free s + 1) \<and> proc_oid_next s' = proc_oid_next s
    \<and> keeps (local_data s) (local_data s') \<and> table_ok (local_data s')
    \<and> (\<forall>k < length (objmeta (local_data s)). owned_by (proc_oid (proc s ! i)) (objmeta (local_data s) ! k)
         \<longrightarrow> \<not> undeleted (objmeta (local_data s') ! k))"
proof -
  obtain db where d: "delete_objects_of fuel h (has_flag (p_flags (proc s ! i)) FLAG_IMMEDIATELYDELETE)
      (proc_oid (proc s ! i)) used (local_data s) = Some db"
    and s': "s' = shm_emit (Unlock Proc_lock) (proc_clear i (shm_emit (Lock Proc_lock) (s\<lparr>local_data := db\<rparr>)))"
    using s by (auto simp: purge_dead_proc_def Let_def split: option.splits)
  note E = delete_objects_of_effect [OF pre few d]
  have o: "objmeta (local_data s') = objmeta db" by (simp add: s' proc_clear_def)
  have "keeps (local_data s) (local_data s')" using E by (simp add: s' proc_clear_def keeps_def)
  moreover have "table_ok (local_data s')"
    using E by (simp add: s' proc_clear_def table_ok_def)
  ultimately show ?thesis using E o by (simp add: s' proc_clear_def)
qed

lemma purge_proc_effect:
  assumes pre: "sweep_pre h (local_data s)" and few: "\<And>p. p \<noteq> 0 \<Longrightarrow> few_objects p (objmeta (local_data s))"
    and i: "i < length (proc s)" and f: "undeleted_count (local_data s) < fuel"
  shows "\<exists>s'. purge_proc fuel h no_proc used i s = Some s' \<and> sweep_rel s s' \<and> swept no_proc s s' i
    \<and> (\<forall>j. j \<noteq> i \<longrightarrow> proc s' ! j = proc s ! j)"
proof (cases "proc_oid (proc s ! i) \<noteq> 0 \<and> no_proc (pid (proc s ! i))")
  case False
  then show ?thesis
    using pre by (intro exI [of _ s]) (auto simp: purge_proc_def sweep_rel_def swept_def sweep_pre_def sweep_base_def)
next
  case True
  have fw: "few_objects (proc_oid (proc s ! i)) (objmeta (local_data s))" using few True by simp
  from delete_objects_of_returns [OF sweep_pre_base [OF pre] fw f] obtain s' where s: "purge_dead_proc fuel h used i s = Some s'"
    by (auto simp: purge_dead_proc_def Let_def) (metis option.simps(5))
  note E = purge_dead_proc_effect [OF pre fw i s]
  have "procs_ok s'" if "procs_ok s"
  proof -
    have "procs_ok (proc_clear i s)" by (rule proc_clear_ok [OF that i]) (use True in simp)
    then show ?thesis using E procs_ok_cong [of s' "proc_clear i s"] by (simp add: proc_clear_def)
  qed
  with True E s i show ?thesis
    by (intro exI [of _ s']) (simp add: purge_proc_def sweep_rel_def swept_def)
qed

lemma purge_slots_effect:
  assumes "sweep_pre h (local_data s)" "\<And>p. p \<noteq> 0 \<Longrightarrow> few_objects p (objmeta (local_data s))"
    and "\<forall>i \<in> set js. i < length (proc s)" "undeleted_count (local_data s) < fuel" "distinct js"
  shows "\<exists>s'. purge_proc_slots fuel h no_proc used js s = Some s' \<and> sweep_rel s s'
    \<and> (\<forall>i \<in> set js. swept no_proc s s' i) \<and> (\<forall>j. j \<notin> set js \<longrightarrow> proc s' ! j = proc s ! j)"
  using assms
proof (induction js arbitrary: s)
  case Nil then show ?case by (auto simp: sweep_rel_def sweep_pre_def sweep_base_def)
next
  case (Cons i js)
  have i: "i < length (proc s)" using Cons.prems(3) by simp
  from purge_proc_effect [OF Cons.prems(1,2) i Cons.prems(4), of no_proc used] obtain s1 where
    s1: "purge_proc fuel h no_proc used i s = Some s1" "sweep_rel s s1" "swept no_proc s s1 i"
      "\<And>j. j \<noteq> i \<Longrightarrow> proc s1 ! j = proc s ! j" by blast
  have K: "keeps (local_data s) (local_data s1)" "table_ok (local_data s1)" "length (proc s1) = length (proc s)"
    using s1(2) by (simp_all add: sweep_rel_def)
  have "\<exists>s'. purge_proc_slots fuel h no_proc used js s1 = Some s' \<and> sweep_rel s1 s'
    \<and> (\<forall>i \<in> set js. swept no_proc s1 s' i) \<and> (\<forall>j. j \<notin> set js \<longrightarrow> proc s' ! j = proc s1 ! j)"
  proof (rule Cons.IH)
    show "sweep_pre h (local_data s1)" by (rule keeps_sweep_pre [OF K(1) Cons.prems(1) K(2)])
    show "few_objects p (objmeta (local_data s1))" if "p \<noteq> 0" for p
      using Cons.prems(2) that keeps_few_objects [OF K(1)] by simp
    show "\<forall>i \<in> set js. i < length (proc s1)" using Cons.prems(3) K(3) by simp
    show "undeleted_count (local_data s1) < fuel" using Cons.prems(4) keeps_count [OF K(1)] by simp
    show "distinct js" using Cons.prems(5) by simp
  qed
  then obtain s' where s': "purge_proc_slots fuel h no_proc used js s1 = Some s'" "sweep_rel s1 s'"
    "\<And>j. j \<in> set js \<Longrightarrow> swept no_proc s1 s' j" "\<And>j. j \<notin> set js \<Longrightarrow> proc s' ! j = proc s1 ! j" by blast
  have R: "sweep_rel s s'" using s1(2) s'(2) keeps_trans by (auto simp: sweep_rel_def)
  have len: "length (objmeta (local_data s1)) = length (objmeta (local_data s))" by (rule keeps_length [OF K(1)])
  have u: "\<not> undeleted (objmeta (local_data s') ! k)" if "k < length (objmeta (local_data s))"
      "\<not> undeleted (objmeta (local_data s1) ! k)" for k
  proof -
    have "keeps (local_data s1) (local_data s')" using s'(2) by (simp add: sweep_rel_def)
    from keeps_undeleted [OF this, of k] that len show ?thesis by auto
  qed
  have "swept no_proc s s' j" if j: "j \<in> set (i # js)" for j
  proof (cases "j = i")
    case True
    then have "proc s' ! j = proc s1 ! j" using s'(4) Cons.prems(5) by simp
    with True s1(3) u show ?thesis by (auto simp: swept_def)
  next
    case False
    then have j': "swept no_proc s1 s' j" "proc s1 ! j = proc s ! j" using j s'(3) s1(4) by simp_all
    have "owned_by p (objmeta (local_data s1) ! k)" if "k < length (objmeta (local_data s))"
        "owned_by p (objmeta (local_data s) ! k)" "undeleted (objmeta (local_data s1) ! k)" for p k
      using slot_keepsD [OF keeps_nth [OF K(1) that(1)]] that(2,3) by (auto simp: owned_by_def)
    then have "\<not> undeleted (objmeta (local_data s') ! k)" if "k < length (objmeta (local_data s))"
        "owned_by (proc_oid (proc s ! j)) (objmeta (local_data s) ! k)"
        "proc_oid (proc s ! j) \<noteq> 0 \<and> no_proc (pid (proc s ! j))" for k
      using that j' u [OF that(1)] len by (cases "undeleted (objmeta (local_data s1) ! k)") (auto simp: swept_def)
    then show ?thesis using j' by (simp add: swept_def)
  qed
  moreover have "proc s' ! j = proc s ! j" if "j \<notin> set (i # js)" for j
    using that s'(4) s1(4) by simp
  ultimately show ?case using s1(1) s'(1) R by auto
qed

end
