(* ===== verification/Housekeeping_Props.thy ===== *)
theory Housekeeping_Props
  imports Housekeeping_Sweep
begin

text \<open>The properties of the housekeeping, with their instances.\<close>

section \<open>Samples\<close>

text \<open>The manager's handle; a database whose third object was deleted long enough ago.\<close>

definition ex_mgr :: handle where
  "ex_mgr = ex_h\<lparr>h_proc_oid := 1, h_flags := FLAG_MANAGER\<rparr>"

definition ex_db_old :: rtdb where
  "ex_db_old = upd_meta 2 (ex_child\<lparr>deleted_ts := 7500000000\<rparr>) ex_db"

text \<open>A segment in which the creator of the sample objects, process 7, has died.\<close>

definition ex_shm_dead :: ipc_shm where
  "ex_shm_dead = ex_shm\<lparr>proc := [zero_process\<lparr>proc_oid := 7, pid := 300\<rparr>, zero_process], proc_free := 1,
     proc_oid_next := 8, local_data := ex_db\<rparr>"

lemma ex_mgr_fields [simp]:
  "h_dsa ex_mgr = static_dsa" "this_process_is_admin ex_mgr" "plain_names ex_mgr"
  "h_stack ex_mgr = replicate (Suc OBJIDLIST_MAX) 0"
  by (simp_all add: ex_mgr_def this_process_is_admin_def FLAG_MANAGER_def FLAG_ADMIN_def plain_names_def)

lemma ex_db_old_heap: "heap_ok static_inv ex_db_old"
proof -
  obtain B where B: "static_inv B ex_db" "blocks_in B (objmeta ex_db)" using ex_heap_ok by (auto simp: heap_ok_def)
  have "blocks_in B ((objmeta ex_db)[2 := ex_child\<lparr>deleted_ts := 7500000000\<rparr>])"
    by (rule blocks_in_same [OF B(2)]) (simp_all add: obj_block_def block_size_def)
  then show ?thesis using B(1) by (auto simp: heap_ok_def ex_db_old_def static_inv_def)
qed

lemma ex_db_old_table: "table_ok ex_db_old"
  unfolding ex_db_old_def by (rule table_ok_upd [OF ex_table_ok]) simp_all

lemma ex_sweep_pre: "sweep_pre ex_mgr ex_db"
  by (simp add: sweep_pre_def sweep_base_def static_frame_ok ex_clock_ok ex_table_ok)

lemma ex_few: "few_objects p (objmeta ex_db)"
proof -
  have "length (filter (\<lambda>m. p = 0 \<or> created_proc m = p) (objmeta ex_db)) \<le> 4"
    using length_filter_le [of "\<lambda>m. p = 0 \<or> created_proc m = p" "objmeta ex_db"] by simp
  then show ?thesis unfolding few_objects_def OBJIDLIST_MAX_def by linarith
qed

section \<open>Purging deleted objects\<close>



text \<open>
  A purge keeps the table and the memory sound, for every allocator that meets the contract,
  and returns with the locks it was called with.
\<close>
theorem purge_objs_keeps:
  assumes "heap_allocator (h_dsa h) I" "table_ok db" "heap_ok I db" "Objmeta_lock \<notin> L" "Heap_lock \<notin> L"
  shows "table_ok (snd (kogmo_rtdb_objmeta_purge_objs h db)) \<and> heap_ok I (snd (kogmo_rtdb_objmeta_purge_objs h db))
    \<and> locks_after L db (snd (kogmo_rtdb_objmeta_purge_objs h db)) = Some L"
proof -
  have "dsa_frame_ok (h_dsa h)" using assms(1) storage.frame_ok by (auto simp: heap_allocator_def)
  with assms purge_objs_table_ok heap_allocator.purge_objs_heap_ok [OF assms(1) refl assms(3)]
    lock_step_after [OF purge_objs_locks] show ?thesis by blast
qed

theorem purge_objs_keeps_witness:
  "heap_ok static_inv (snd (kogmo_rtdb_objmeta_purge_objs ex_mgr ex_db_old))"
proof -
  have "heap_allocator (h_dsa ex_mgr) static_inv" using static.heap_allocator_axioms by simp
  from purge_objs_keeps [OF this ex_db_old_table ex_db_old_heap, of "{}"] show ?thesis by simp
qed

section \<open>Dead processes\<close>

text \<open>
  C26: The sweep over the process table returns, clears exactly the slots of the processes that no
  longer exist, and deletes every live object such a process has created, except the persistent
  ones; table of processes and table of objects stay well formed.
\<close>
theorem purge_procs_sweeps:
  assumes "sweep_pre h (local_data s)" "\<And>p. p \<noteq> 0 \<Longrightarrow> few_objects p (objmeta (local_data s))"
    and "undeleted_count (local_data s) < fuel" "procs_ok s"
  shows "\<exists>s'. kogmo_rtdb_objmeta_purge_procs fuel h no_proc used s = Some (0, s')
    \<and> procs_ok s' \<and> table_ok (local_data s')
    \<and> (\<forall>i < length (proc s). if proc_oid (proc s ! i) \<noteq> 0 \<and> no_proc (pid (proc s ! i))
        then proc s' ! i = zero_process
          \<and> (\<forall>k < length (objmeta (local_data s)). owned_by (proc_oid (proc s ! i)) (objmeta (local_data s) ! k)
               \<longrightarrow> \<not> undeleted (objmeta (local_data s') ! k))
        else proc s' ! i = proc s ! i)"
proof -
  have "\<forall>i \<in> set [0..<length (proc s)]. i < length (proc s)" by simp
  from purge_slots_effect [OF assms(1,2) this assms(3), of no_proc used] obtain s' where
    s: "purge_proc_slots fuel h no_proc used [0..<length (proc s)] s = Some s'" "sweep_rel s s'"
    "\<forall>i < length (proc s). swept no_proc s s' i" by auto
  then show ?thesis
    using assms(4) by (intro exI [of _ s']) (auto simp: kogmo_rtdb_objmeta_purge_procs_def sweep_rel_def swept_def)
qed

theorem purge_procs_sweeps_witness:
  "\<exists>s'. kogmo_rtdb_objmeta_purge_procs 4 ex_mgr (\<lambda>q. q = 300) zero_info ex_shm_dead = Some (0, s')
    \<and> proc s' ! 0 = zero_process \<and> \<not> undeleted (objmeta (local_data s') ! 1)"
proof -
  have f: "procs_ok ex_shm_dead" "local_data ex_shm_dead = ex_db" "length (proc ex_shm_dead) = 2"
    "proc ex_shm_dead ! 0 = zero_process\<lparr>proc_oid := 7, pid := 300\<rparr>"
    using ex_shm_ok by (auto simp: ex_shm_dead_def procs_ok_def unique_keys_def free_slots_def less_Suc_eq)
  have "undeleted_count ex_db < 4" by (simp add: undeleted_count_def undeleted_def)
  from purge_procs_sweeps [of ex_mgr ex_shm_dead 4 "\<lambda>q. q = 300" zero_info] this f ex_sweep_pre ex_few obtain s' where
    s: "kogmo_rtdb_objmeta_purge_procs 4 ex_mgr (\<lambda>q. q = 300) zero_info ex_shm_dead = Some (0, s')"
    "\<forall>i < 2. if proc_oid (proc ex_shm_dead ! i) \<noteq> 0 \<and> pid (proc ex_shm_dead ! i) = 300
        then proc s' ! i = zero_process
          \<and> (\<forall>k < length (objmeta ex_db). owned_by (proc_oid (proc ex_shm_dead ! i)) (objmeta ex_db ! k)
               \<longrightarrow> \<not> undeleted (objmeta (local_data s') ! k))
        else proc s' ! i = proc ex_shm_dead ! i" by auto
  have "owned_by 7 (objmeta ex_db ! 1)" by (simp add: owned_by_def undeleted_def)
  with s f show ?thesis by (intro exI [of _ s']) (auto dest!: spec [of _ 0])
qed

text \<open>
  The race with a process that leaves: when the slot is cleared between the manager's test and
  the code that reads the slot again, the manager deletes the live objects of every process, apart
  from the persistent ones, and counts the slot as freed a second time.
\<close>
theorem purge_race_deletes_all:
  assumes "sweep_pre h (local_data s)" "few_objects 0 (objmeta (local_data s))"
    and "procs_ok s" "i < length (proc s)" "proc_oid (proc s ! i) = 0"
    and "purge_dead_proc fuel h used i s = Some s'"
  shows "(\<forall>k < length (objmeta (local_data s)). undeleted (objmeta (local_data s) ! k)
        \<and> created_ts (objmeta (local_data s) ! k) \<noteq> 0 \<and> \<not> persistent (flags (objmeta (local_data s) ! k))
        \<longrightarrow> \<not> undeleted (objmeta (local_data s') ! k))
    \<and> \<not> procs_ok s'"
proof -
  note E = purge_dead_proc_effect [OF assms(1) _ assms(4,6)]
  have z: "proc s ! i = zero_process" using assms(3-5) by (auto simp: procs_ok_def)
  have p: "proc s' = proc s" using E assms(2,5) z list_update_id [of "proc s" i] by auto
  have f: "proc_free s' = uint32 (proc_free s + 1)" using E assms(2,5) by simp
  have "\<not> procs_ok s'"
  proof
    assume ok: "procs_ok s'"
    have "free_slots proc_oid (proc s) \<le> length (proc s)" by (rule free_slots_le)
    then have b: "proc_free s < 2 ^ 32" "0 \<le> proc_free s" using assms(3) by (simp_all add: procs_ok_def)
    have "uint32 (proc_free s + 1) = proc_free s"
      using ok assms(3) p f by (simp add: procs_ok_def)
    then show False
      using b uint32_id [of "proc_free s + 1"] by (cases "proc_free s = 2 ^ 32 - 1") (simp_all add: uint32_def [of 4294967296])
  qed
  with E assms(2,5) show ?thesis by (auto simp: owned_by_def)
qed

lemma ex_race: "\<exists>s'. purge_dead_proc 4 ex_mgr zero_info 1 ex_shm_dead = Some s'"
proof -
  have u: "undeleted_count ex_db < 4" by (simp add: undeleted_count_def undeleted_def)
  from delete_objects_of_returns [OF sweep_pre_base [OF ex_sweep_pre] ex_few this] show ?thesis
    by (simp add: purge_dead_proc_def ex_shm_dead_def Let_def) (metis option.simps(5))
qed

theorem purge_race_deletes_all_witness:
  "\<exists>s'. purge_dead_proc 4 ex_mgr zero_info 1 ex_shm_dead = Some s' \<and> \<not> undeleted (objmeta (local_data s') ! 0)"
proof -
  have f: "procs_ok ex_shm_dead" "local_data ex_shm_dead = ex_db" "length (proc ex_shm_dead) = 2"
    "proc_oid (proc ex_shm_dead ! 1) = 0"
    using ex_shm_ok by (auto simp: ex_shm_dead_def procs_ok_def unique_keys_def free_slots_def less_Suc_eq)
  from ex_race obtain s' where s: "purge_dead_proc 4 ex_mgr zero_info 1 ex_shm_dead = Some s'" by blast
  from purge_race_deletes_all [OF _ _ f(1) _ f(4) s] f ex_sweep_pre ex_few s show ?thesis
    by (intro exI [of _ s']) (auto simp: undeleted_def dest!: spec [of _ 0])
qed

end
