(* ===== verification/Housekeeping_Stats.thy ===== *)
theory Housekeeping_Stats
  imports Housekeeping Objmeta_Props Objdata_Slot Process_Table
begin

text \<open>
  The statistics object of the database: what \<open>kogmo_rtdb_objmeta_upd_stats\<close> commits is what a reader
  of the object "rtdb" then sees.
\<close>

section \<open>The statistics\<close>

lemma get_payload: "base_size \<le> off \<Longrightarrow> get off n bs = get (off - base_size) n (b_payload bs)"
  by (simp add: get_def b_payload_def)

lemma get_committed:
  assumes "base_size \<le> off" "off + n \<le> length data" "b_size data = int (length data)" "base_size \<le> length data"
  shows "get off n (committed ts (commit_bytes h data)) = get off n data"
proof -
  note C = commit_bytes_fields(1,4) [of data h]
  have l: "base_size \<le> length (commit_bytes h data)" using C assms(3,4) by simp
  have "b_payload (committed ts (commit_bytes h data)) = b_payload (commit_bytes h data)"
    using l by (simp add: committed_def)
  then show ?thesis using C assms by (simp add: get_payload [OF assms(1)])
qed

lemma length_fill_stats [simp]: "C3_RTDB_size \<le> length bs \<Longrightarrow> length (fill_stats s ts bs) = length bs"
  by (simp add: fill_stats_def set_memory_free_def set_processes_free_def set_objects_free_def set_data_ts_def
      C3_RTDB_size_def)

lemma fill_stats_fields:
  assumes "C3_RTDB_size \<le> length bs"
  shows "get 504 4 (fill_stats s ts bs) = enc 4 (objmeta_free (local_data s))"
    "get 512 4 (fill_stats s ts bs) = enc 4 (proc_free s)"
    "get 520 4 (fill_stats s ts bs) = enc 4 (heap_free (local_data s))"
    "b_size (fill_stats s ts bs) = b_size bs"
  using assms by (simp_all add: fill_stats_def set_memory_free_def set_processes_free_def set_objects_free_def
      set_data_ts_def C3_RTDB_size_def b_size_def)

lemma sdec_enc_int32: "sdec (enc 4 v) = int32 v"
proof -
  have "sdec (enc 4 v) = signed_take_bit 31 (take_bit 32 v)"
    by (simp add: sdec_def udec_enc take_bit_eq_mod)
  then show ?thesis by (simp add: int32_def signed_take_bit_take_bit)
qed

lemma udec_enc_uint32: "udec (enc 4 v) = uint32 v"
  by (simp add: udec_enc uint32_def take_bit_eq_mod)

text \<open>The entry that a commit puts at the front keeps the length and the size field of its data.\<close>

lemma newest_entry_size:
  assumes "obj_ok db k" "obj_history db k = e # es"
  shows "b_size e = int (length e)"
proof -
  have i: "0 < length (obj_history db k)" using assms(2) by simp
  note H = history_entry [OF assms(1) i]
  have "int base_size \<le> m_size (heap db) (ring_addr (objmeta db ! k) 0)"
  proof -
    have l: "0 < length (hist_addrs (heap db) (objmeta db ! k))"
      using i by (simp add: obj_history_def length_history)
    have "ring_addr (objmeta db ! k) 0 \<in> set (hist_addrs (heap db) (objmeta db ! k))"
      using l hist_addrs_nth(1) [OF l] by (metis nth_mem)
    then show ?thesis using assms(1) by (simp add: obj_ok_def sizes_ok_def)
  qed
  then have "b_size (obj_history db k ! 0) = int (length (obj_history db k ! 0))"
    by (metis H(2) H(4) entry_fields(3))
  then show ?thesis by (simp add: assms(2))
qed

lemma same_objects:
  assumes "objmeta db' = objmeta db" "heap db' = heap db"
  shows "obj_history db' k = obj_history db k" "obj_ok db' k = obj_ok db k"
    "kogmo_rtdb_obj_findmeta_byid i db' = kogmo_rtdb_obj_findmeta_byid i db"
  using assms by (simp_all add: obj_history_def obj_ok_def kogmo_rtdb_obj_findmeta_byid_def)

text \<open>The update reads the newest entry, fills in the numbers and commits the result.\<close>

lemma search_frame:
  assumes "kogmo_rtdb_obj_searchinfo h nm ot parent pr ts l n db = (r, l', db')"
  shows "objmeta db' = objmeta db" "heap db' = heap db" "clock db' = clock db" "simmode db' = simmode db"
    "sim_ts db' = sim_ts db" "objmeta_free db' = objmeta_free db" "heap_free db' = heap_free db"
proof -
  have "db' = db\<lparr>ipc_log := ipc_log db'\<rparr>"
    using search_same_data [OF assms [unfolded kogmo_rtdb_obj_searchinfo_def]] .
  then show "objmeta db' = objmeta db" "heap db' = heap db" "clock db' = clock db" "simmode db' = simmode db"
    "sim_ts db' = sim_ts db" "objmeta_free db' = objmeta_free db" "heap_free db' = heap_free db"
    by (cases db, cases db', simp)+
qed

lemma system_now_frame [simp]:
  "objmeta (snd (system_now db)) = objmeta db" "heap (snd (system_now db)) = heap db"
  "objmeta_free (snd (system_now db)) = objmeta_free db" "heap_free (snd (system_now db)) = heap_free db"
  "times_ok (snd (system_now db)) = times_ok db"
  by (simp_all add: system_now_def times_ok_def)

lemma upd_stats_writes:
  assumes i: "kogmo_rtdb_obj_searchinfo h (Some ''rtdb'') OBJTYPE_C3_RTDB 0 0 0 None 1 (local_data s) = (Inr i, idl, db1)"
    and k: "kogmo_rtdb_obj_findmeta_byid i (local_data s) = Some k" "buffer_idx (objmeta (local_data s) ! k) \<noteq> 0"
    and p: "may_read h (objmeta (local_data s) ! k)" and ok: "obj_ok (local_data s) k"
    and g: "0 \<le> history_slot (objmeta (local_data s) ! k)" "nat (history_size (objmeta (local_data s) ! k)) \<le> fuel"
      "size_max (objmeta (local_data s) ! k) = int C3_RTDB_size" "\<not> withhold_stale (flags (objmeta (local_data s) ! k))"
      "deleted_ts (objmeta (local_data s) ! k) = 0"
    and e: "obj_history (local_data s) k = e # es" "length e = C3_RTDB_size" and l: "length buf = C3_RTDB_size"
    and w: "kogmo_rtdb_obj_writedata h i
        (fill_stats (s\<lparr>local_data := snd (system_now db1)\<rparr>) (fst (system_now db1)) e) (snd (system_now db1)) = (v, data', db')"
  shows "kogmo_rtdb_objmeta_upd_stats fuel h buf s
      = Some (if c_ret v < 0 then v else Inr 0, s\<lparr>local_data := db'\<rparr>)"
proof -
  note S = same_objects [OF search_frame(1,2) [OF i]]
  have "kogmo_rtdb_obj_readdata fuel h i 0 buf (int C3_RTDB_size) db1 = Some (Inr (int C3_RTDB_size), e, db1)"
    unfolding kogmo_rtdb_obj_readdata_def
    using readdata_history [of i db1 k h fuel "int C3_RTDB_size" RTDBSEL_LAST 0 buf] k p ok g e l
    by (simp add: S search_frame [OF i] invalid_ts_def pick_def)
  with i w show ?thesis
    by (simp add: kogmo_rtdb_objmeta_upd_stats_def split_beta Let_def C3_RTDB_size_def)
qed

lemma fill_stats_size:
  assumes "obj_ok db k" "obj_history db k = e # es" "length e = C3_RTDB_size"
  shows "length (fill_stats s ts e) = C3_RTDB_size" "b_size (fill_stats s ts e) = int C3_RTDB_size"
  using newest_entry_size [OF assms(1,2)] assms(3) by (simp_all add: fill_stats_fields)

text \<open>
  C27: After an update of the statistics the newest entry of the object "rtdb" holds the numbers of
  free objects, free processes and free bytes of the database, in the width of their fields.
\<close>
theorem stats_published:
  assumes u: "kogmo_rtdb_objmeta_upd_stats fuel h buf s = Some (Inr 0, s')"
    and i: "kogmo_rtdb_obj_searchinfo h (Some ''rtdb'') OBJTYPE_C3_RTDB 0 0 0 None 1 (local_data s) = (Inr i, idl, db1)"
    and k: "kogmo_rtdb_obj_findmeta_byid i (local_data s) = Some k" "buffer_idx (objmeta (local_data s) ! k) \<noteq> 0"
    and p: "may_read h (objmeta (local_data s) ! k)" and ok: "obj_ok (local_data s) k"
    and g: "0 \<le> history_slot (objmeta (local_data s) ! k)" "nat (history_size (objmeta (local_data s) ! k)) \<le> fuel"
      "size_max (objmeta (local_data s) ! k) = int C3_RTDB_size" "\<not> withhold_stale (flags (objmeta (local_data s) ! k))"
      "deleted_ts (objmeta (local_data s) ! k) = 0"
    and e: "obj_history (local_data s) k = e # es" "length e = C3_RTDB_size" and l: "length buf = C3_RTDB_size"
    and t: "times_ok (local_data s)"
  shows "obj_history (local_data s') k \<noteq> []
    \<and> objects_free (hd (obj_history (local_data s') k)) = uint32 (objmeta_free (local_data s))
    \<and> processes_free (hd (obj_history (local_data s') k)) = uint32 (proc_free s)
    \<and> memory_free (hd (obj_history (local_data s') k)) = int32 (heap_free (local_data s))"
proof -
  let ?db2 = "snd (system_now db1)" and ?d = "fill_stats (s\<lparr>local_data := snd (system_now db1)\<rparr>) (fst (system_now db1)) e"
  note o = search_frame [OF i] and ld = fill_stats_size [OF ok e]
  have k2: "kogmo_rtdb_obj_findmeta_byid i ?db2 = Some k" "obj_ok ?db2 k"
    using k ok same_objects [of ?db2 "local_data s"] o by simp_all
  have t2: "time_ok (fst (kogmo_rtdb_timestamp_now ?db2))"
    by (rule times_ok_now) (use t o in \<open>simp add: times_ok_def system_now_def\<close>)
  obtain v data' db' where w: "kogmo_rtdb_obj_writedata h i ?d ?db2 = (v, data', db')" by (metis prod_cases3)
  have R: "(if c_ret v < 0 then v else Inr 0) = Inr 0" "s' = s\<lparr>local_data := db'\<rparr>"
    using u upd_stats_writes [OF i k p ok g e l w] by (simp_all only: option.inject prod.inject)
  show ?thesis
  proof (cases v)
    case (Inl x)
    then show ?thesis using R(1) by (cases x) (simp_all split: if_splits)
  next
    case (Inr y)
    have b: "b_size ?d \<le> int (length ?d)" using ld [of "s\<lparr>local_data := ?db2\<rparr>" "fst (system_now db1)"] by simp
    note H = writedata_history [OF w [unfolded Inr] k2 t2 b]
    have cap: "0 < nat (history_size (objmeta ?db2 ! k))"
      using k2 ring_okD(2) [of "objmeta ?db2 ! k"] by (simp add: obj_ok_def)
    have hd: "obj_history db' k \<noteq> []" "hd (obj_history db' k)
        = committed (commit_time ?db2 (objmeta ?db2 ! k)) (commit_bytes h ?d)"
      using H(1) cap by (cases "nat (history_size (objmeta ?db2 ! k))"; simp)+
    have s': "local_data s' = db'" using R by simp
    show ?thesis
      unfolding s' hd(2) objects_free_def processes_free_def memory_free_def
      using hd(1) ld e o
      by (simp add: get_committed fill_stats_fields C3_RTDB_size_def base_size_def udec_enc_uint32 sdec_enc_int32)
  qed
qed

section \<open>An instance\<close>

text \<open>The database with its own object "rtdb", in which the manager committed once.\<close>

definition ex_st_obj :: obj_info where
  "ex_st_obj = zero_info\<lparr>oid := 2, name := strncpy NAME_MAXLEN ''rtdb'', created_ts := 6000000000,
     created_proc := 7, otype := OBJTYPE_C3_RTDB, size_max := int C3_RTDB_size, history_size := 3,
     history_slot := - 1, buffer_idx := 64, flags := no_flags\<rparr>"

definition ex_st_db0 :: rtdb where
  "ex_st_db0 = ex_db\<lparr>objmeta := [ex_st_obj]\<rparr>"

definition ex_st_data :: "byte list" where
  "ex_st_data = set_size (int C3_RTDB_size) (replicate C3_RTDB_size 0)"

definition ex_st_db :: rtdb where
  "ex_st_db = snd (snd (kogmo_rtdb_obj_writedata ex_h 2 ex_st_data ex_st_db0))"

lemma ex_st_obj_fields [simp]:
  "oid ex_st_obj = 2" "created_ts ex_st_obj = 6000000000" "deleted_ts ex_st_obj = 0"
  "created_proc ex_st_obj = 7" "otype ex_st_obj = OBJTYPE_C3_RTDB" "size_max ex_st_obj = 524"
  "history_size ex_st_obj = 3" "history_slot ex_st_obj = - 1" "buffer_idx ex_st_obj = 64"
  "flags ex_st_obj = no_flags" "parent_oid ex_st_obj = 0" "name ex_st_obj = strncpy NAME_MAXLEN ''rtdb''"
  by (simp_all add: ex_st_obj_def C3_RTDB_size_def)

lemma ex_st_data_fields: "b_size ex_st_data = 524" "length ex_st_data = 524"
proof -
  have "base_size \<le> length (replicate C3_RTDB_size (0::byte))" by (simp add: base_size_def C3_RTDB_size_def)
  from header_set_size [OF this, of 524] show "b_size ex_st_data = 524"
    by (simp add: ex_st_data_def in_int32_def C3_RTDB_size_def)
  show "length ex_st_data = 524" by (simp add: ex_st_data_def header_defs C3_RTDB_size_def)
qed

lemma ex_st_find: "kogmo_rtdb_obj_findmeta_byid 2 ex_st_db0 = Some 0"
  by (simp add: kogmo_rtdb_obj_findmeta_byid_def ex_st_db0_def)

lemma ex_st_ok: "obj_ok ex_st_db0 0"
  by (simp add: obj_ok_def ring_ok_def sizes_ok_def base_size_def ex_st_db0_def)

lemma ex_st_times: "times_ok ex_st_db0"
  by (simp add: times_ok_def ex_st_db0_def time_ok_def kogmo_timestamp_now_def TICKSPERSECOND_def in_int64_def)

lemma ex_st_may: "may_write ex_h ex_st_obj" "may_read ex_h ex_st_obj"
  by (simp_all add: may_write_def may_read_def)

lemma write_passes:
  assumes "kogmo_rtdb_obj_findmeta_byid i db = Some k" "writedata_check h (objmeta db ! k) (b_size data) = None"
    and "\<not> cycle_watch (flags (objmeta db ! k))"
  shows "fst (kogmo_rtdb_obj_writedata h i data db) = Inr 0"
  by (simp add: writedata_unfold [OF assms(1)] assms(2,3) too_fast_def split: prod.split)

lemma ex_st_check:
  assumes "m = ex_st_obj \<or> m = advanced ex_st_obj"
  shows "writedata_check ex_h m 524 = None" "\<not> cycle_watch (flags m)" "may_read ex_h m"
    "buffer_idx m = 64" "size_max m = 524" "history_size m = 3" "deleted_ts m = 0" "flags m = no_flags"
  using assms ex_st_may
  by (auto simp: writedata_check_None may_write_def may_read_def advanced_def base_size_def next_slot_def)

lemma ex_st_write: "kogmo_rtdb_obj_writedata ex_h 2 ex_st_data ex_st_db0
    = (Inr 0, fst (snd (kogmo_rtdb_obj_writedata ex_h 2 ex_st_data ex_st_db0)), ex_st_db)"
  using write_passes [OF ex_st_find, of ex_h ex_st_data] ex_st_check(1,2) [of ex_st_obj]
  by (simp add: ex_st_db_def prod_eq_iff ex_st_data_fields ex_st_db0_def)

lemmas ex_st_facts =
  writedata_history [OF ex_st_write ex_st_find ex_st_ok times_ok_now [OF ex_st_times]]
  writedata_db [OF ex_st_write ex_st_find]

lemma ex_st_db_facts:
  "objmeta ex_st_db = [advanced ex_st_obj]" "clock ex_st_db = clock ex_db" "simmode ex_st_db = simmode ex_db"
  "\<exists>e. obj_history ex_st_db 0 = [e] \<and> length e = C3_RTDB_size" "obj_ok ex_st_db 0"
  "0 \<le> history_slot (advanced ex_st_obj)"
proof -
  have l: "b_size ex_st_data \<le> int (length ex_st_data)" "base_size \<le> length ex_st_data"
    by (simp_all add: ex_st_data_fields base_size_def)
  note F = ex_st_facts(1-3) [OF l(1)] ex_st_facts(5-15) [OF l(2)]
  show o: "objmeta ex_st_db = [advanced ex_st_obj]" using F(4) by (simp add: ex_st_db0_def)
  show "clock ex_st_db = clock ex_db" "simmode ex_st_db = simmode ex_db"
    using F(12,13) by (simp_all add: ex_st_db0_def)
  show "obj_ok ex_st_db 0" "0 \<le> history_slot (advanced ex_st_obj)" using F(2,3) o by simp_all
  have "obj_history ex_st_db0 0 = []" by (simp add: obj_history_def history_def ex_st_db0_def)
  then have "obj_history ex_st_db 0 = [committed (commit_time ex_st_db0 ex_st_obj) (commit_bytes ex_h ex_st_data)]"
    using F(1) by (simp add: ex_st_db0_def)
  moreover have "length (commit_bytes ex_h ex_st_data) = C3_RTDB_size"
    using commit_bytes_fields(1) [of ex_st_data ex_h] by (simp add: ex_st_data_fields base_size_def C3_RTDB_size_def)
  then have "length (committed t (commit_bytes ex_h ex_st_data)) = C3_RTDB_size" for t
    by (simp add: base_size_def C3_RTDB_size_def)
  ultimately show "\<exists>e. obj_history ex_st_db 0 = [e] \<and> length e = C3_RTDB_size" by simp
qed

definition ex_st_shm :: ipc_shm where
  "ex_st_shm = ex_shm\<lparr>proc_free := 1, local_data := ex_st_db\<rparr>"

lemma ex_st_search: "\<exists>idl db1. kogmo_rtdb_obj_searchinfo ex_h (Some ''rtdb'') OBJTYPE_C3_RTDB 0 0 0 None 1 ex_st_db
    = (Inr 2, idl, db1)"
proof -
  have c: "cstr ''rtdb'' = ''rtdb''" "hd ''rtdb'' \<noteq> CHR ''~''" by code_simp+
  have q: "parse_name ex_h (Some ''rtdb'') OBJTYPE_C3_RTDB = Query (\<lambda>s. strncmp_eq NAME_MAXLEN ''rtdb'' s) OBJTYPE_C3_RTDB"
    unfolding parse_name_def using c by simp
  have n: "strncmp_eq NAME_MAXLEN ''rtdb'' (cstr (strncpy NAME_MAXLEN ''rtdb''))" by code_simp
  have "filter (search_match (\<lambda>s. strncmp_eq NAME_MAXLEN ''rtdb'' s) OBJTYPE_C3_RTDB 0 0 0 False) (objmeta ex_st_db)
      = [advanced ex_st_obj]"
    unfolding ex_st_db_facts(1) by (simp add: search_match_def n advanced_def)
  then have "fst (kogmo_rtdb_obj_searchinfo ex_h (Some ''rtdb'') OBJTYPE_C3_RTDB 0 0 0 None 1 ex_st_db) = Inr 2"
    using search_nth [OF q, where n = 1 and db = ex_st_db] by (simp add: kogmo_rtdb_obj_searchinfo_def matching_def advanced_def)
  then show ?thesis by (metis prod.collapse)
qed

theorem stats_published_witness:
  "\<exists>s'. kogmo_rtdb_objmeta_upd_stats 3 ex_h (replicate C3_RTDB_size 0) ex_st_shm = Some (Inr 0, s')
     \<and> processes_free (hd (obj_history (local_data s') 0)) = 1"
proof -
  let ?s = ex_st_shm and ?buf = "replicate C3_RTDB_size (0::byte)"
  obtain idl db1 where i: "kogmo_rtdb_obj_searchinfo ex_h (Some ''rtdb'') OBJTYPE_C3_RTDB 0 0 0 None 1 (local_data ?s)
      = (Inr 2, idl, db1)" using ex_st_search by (auto simp: ex_st_shm_def)
  have f: "local_data ?s = ex_st_db" "objmeta (local_data ?s) ! 0 = advanced ex_st_obj" "proc_free ?s = 1"
    by (simp_all add: ex_st_shm_def ex_st_db_facts(1))
  note M = ex_st_check [of "advanced ex_st_obj", OF disjI2 [OF refl]]
  obtain e where e: "obj_history (local_data ?s) 0 = [e]" "length e = C3_RTDB_size"
    using ex_st_db_facts(4) f(1) by auto
  have k: "kogmo_rtdb_obj_findmeta_byid 2 (local_data ?s) = Some 0" "buffer_idx (objmeta (local_data ?s) ! 0) \<noteq> 0"
    by (simp add: f(1) ex_st_db_facts(1) kogmo_rtdb_obj_findmeta_byid_def advanced_def) (simp add: f(2) M(4) del: One_nat_def)
  have ok: "obj_ok (local_data ?s) 0" using ex_st_db_facts(5) f(1) by simp
  have p: "may_read ex_h (objmeta (local_data ?s) ! 0)" using M f(2) by simp
  have g: "0 \<le> history_slot (objmeta (local_data ?s) ! 0)" "nat (history_size (objmeta (local_data ?s) ! 0)) \<le> 3"
      "size_max (objmeta (local_data ?s) ! 0) = int C3_RTDB_size" "\<not> withhold_stale (flags (objmeta (local_data ?s) ! 0))"
      "deleted_ts (objmeta (local_data ?s) ! 0) = 0" unfolding f(2) using M ex_st_db_facts(6) by (simp_all add: C3_RTDB_size_def)
  have t: "times_ok (local_data ?s)"
    using ex_st_times by (simp add: f(1) times_ok_def ex_st_db_facts(2,3) ex_st_db0_def)
  let ?db2 = "snd (system_now db1)" and ?d = "fill_stats (?s\<lparr>local_data := snd (system_now db1)\<rparr>) (fst (system_now db1)) e"
  have k2: "kogmo_rtdb_obj_findmeta_byid 2 ?db2 = Some 0" "objmeta ?db2 ! 0 = advanced ex_st_obj"
    using k(1) f(2) same_objects(3) [of ?db2 "local_data ?s" 2] search_frame(1,2) [OF i] by (simp_all only: system_now_frame)
  have "fst (kogmo_rtdb_obj_writedata ex_h 2 ?d ?db2) = Inr 0"
    by (rule write_passes [OF k2(1)]) (use M k2(2) fill_stats_size(2) [OF ok e] in \<open>simp_all add: C3_RTDB_size_def\<close>)
  then obtain d' db' where w: "kogmo_rtdb_obj_writedata ex_h 2 ?d ?db2 = (Inr 0, d', db')" by (metis prod.collapse)
  have u: "kogmo_rtdb_objmeta_upd_stats 3 ex_h ?buf ?s = Some (Inr 0, ?s\<lparr>local_data := db'\<rparr>)"
    using upd_stats_writes [OF i k p ok g e length_replicate w] by simp
  from stats_published [OF u i k p ok g e length_replicate t] u show ?thesis
    by (auto simp: f(3) uint32_def)
qed

end
