(* ===== verification/Obj_Local.thy ===== *)
theory Obj_Local
  imports Housekeeping
begin

text \<open>
  The life of a connection (\<open>rtdb/kogmo_rtdb_obj_local.c\<close>): the manager's initialisation of the
  database, connecting and disconnecting, and the status a process publishes.
\<close>

section \<open>Constants\<close>

definition DEFAULT_HISTORY_INTERVAL :: cfloat where
  "DEFAULT_HISTORY_INTERVAL = 10"

definition DEFAULT_MAX_CYCLETIME :: cfloat where
  "DEFAULT_MAX_CYCLETIME = f32 (f64 (3 / 100))"

definition KEEP_DELETED_INTERVAL :: cfloat where
  "KEEP_DELETED_INTERVAL = 1 / 4"

definition DEFAULT_HEAP_SIZE :: int where
  "DEFAULT_HEAP_SIZE = 64 * 1024 * 1024"

definition MINIMUM_HEAP_SIZE :: int where
  "MINIMUM_HEAP_SIZE = 512 * 1024"

definition DEFAULT_DBHOST :: "char list" where
  "DEFAULT_DBHOST = ''local:system''"

definition TRACE_BUFSIZES :: "int list" where
  "TRACE_BUFSIZES = [10000, 300, 10]"

definition OBJTYPE_C3_ROOT :: int where
  "OBJTYPE_C3_ROOT = 0xC30001"

definition OBJTYPE_C3_PROCESSLIST :: int where
  "OBJTYPE_C3_PROCESSLIST = 0xC30002"

definition OBJTYPE_C3_PROCESS :: int where
  "OBJTYPE_C3_PROCESS = 0xC30003"

section \<open>The process object\<close>

text \<open>
  \<open>kogmo_rtdb_obj_c3_process_t\<close>, packed: behind the base header \<open>proc_oid\<close> (at 24), \<open>pid\<close> (28),
  \<open>tid\<close> (32), \<open>flags\<close> (36), \<open>status\<close> (40), \<open>statusmsg\<close> (160 bytes at 44), \<open>version\<close> (204), \<open>uid\<close> (208).
\<close>

definition C3_PROCESS_size :: nat where
  "C3_PROCESS_size = 212"

definition PROCSTATUS_MSG_MAXLEN :: nat where
  "PROCSTATUS_MSG_MAXLEN = 160"

definition set_word :: "nat \<Rightarrow> int \<Rightarrow> byte list \<Rightarrow> byte list" where
  "set_word off v = put off (enc 4 v)"

definition pr_proc_oid :: "byte list \<Rightarrow> int" where
  "pr_proc_oid bs = sdec (get 24 4 bs)"

definition pr_pid :: "byte list \<Rightarrow> int" where
  "pr_pid bs = udec (get 28 4 bs)"

definition pr_flags :: "byte list \<Rightarrow> 32 word" where
  "pr_flags bs = word_of_int (udec (get 36 4 bs))"

definition pr_status :: "byte list \<Rightarrow> int" where
  "pr_status bs = udec (get 40 4 bs)"

definition PROCSTATUS_UNKNOWN :: int where
  "PROCSTATUS_UNKNOWN = 0"

definition PROCSTATUS_CYCLEDONE :: int where
  "PROCSTATUS_CYCLEDONE = 1"

section \<open>State\<close>

text \<open>
  The whole handle of a process. \<open>attached\<close>: \<open>localdata_p\<close> is not NULL. \<open>lib\<close> holds what does not
  change during a connection: allocator, environment variables, the stack.
\<close>

record db_conn =
  ipc_h :: ipc_handle
  attached :: bool
  procobjmeta :: obj_info
  procobj :: "byte list"
  rxtrace :: bool
  lib :: handle

text \<open>The part of it that the object operations read.\<close>

definition db_handle :: "db_conn \<Rightarrow> handle" where
  "db_handle c = (lib c)\<lparr>h_proc_oid := proc_oid (this_process (ipc_h c)), h_flags := p_flags (this_process (ipc_h c)),
     h_procobj_cycletime := min_cycletime (procobjmeta c)\<rparr>"

record connect_info =
  procname :: "char list"
  ci_cycletime :: cfloat
  ci_flags :: "32 word"
  dbhost :: "char list option"
  version :: int

text \<open>
  The answers of the system: the size and suffix in \<open>KOGMO_RTDB_HEAPSIZE\<close> after \<open>strtol\<close>,
  \<open>KOGMO_RTDB_DBHOST\<close> and \<open>KOGMO_REV\<close>, whether a message queue of some length can be made and the
  manager's queue be opened, the user,
  the strings the build writes into the version header.
\<close>

record connect_env =
  ce_ipc :: ipc_env
  ce_malloc :: bool
  ce_heapsize :: "(int \<times> char) option"
  ce_dbhost :: "char list option"
  ce_mq :: "int \<Rightarrow> bool"
  ce_mq_client :: bool
  ce_dsa_init :: "int \<Rightarrow> rtdb \<Rightarrow> int \<times> rtdb"
  ce_sizeof_local :: int
  ce_uid :: int
  ce_version_date :: "char list"
  ce_version_id :: "char list"
  ce_chmod :: bool

section \<open>The manager's initialisation\<close>

definition kogmo_rtdb_obj_local_init :: "(int \<Rightarrow> rtdb \<Rightarrow> int \<times> rtdb) \<Rightarrow> handle \<Rightarrow> int \<Rightarrow> rtdb \<Rightarrow> rtdb" where
  "kogmo_rtdb_obj_local_init dsa_init h hsize db =
     (let db = db\<lparr>objmeta_oid_next := 1, default_history_interval := DEFAULT_HISTORY_INTERVAL,
                  default_max_cycletime := DEFAULT_MAX_CYCLETIME,
                  default_keep_deleted_interval := KEEP_DELETED_INTERVAL,
                  heap_size := uint64 (int32 hsize), objmeta_free := uint32 (int (length (objmeta db)))\<rparr>;
          db = snd (kogmo_rtdb_obj_mem_init dsa_init db)
      in snd (kogmo_rtdb_obj_mem_alloc h 2 db))"

text \<open>The trace queue: the longest the system allows, none when it allows none.\<close>

definition trace_setup :: "(int \<Rightarrow> bool) \<Rightarrow> rtdb \<Rightarrow> rtdb" where
  "trace_setup mq db = db\<lparr>rtdb_trace := 0, rtdb_tracebufsize :=
     (case find mq TRACE_BUFSIZES of Some n \<Rightarrow> n | None \<Rightarrow> 0)\<rparr>"

definition manager_modes :: "32 word \<Rightarrow> rtdb \<Rightarrow> rtdb" where
  "manager_modes fl db = db\<lparr>simmode := has_flag fl FLAG_SIMULATION, db_no_notifies := has_flag fl FLAG_DO_POLLING\<rparr>"

definition root_info :: "handle \<Rightarrow> rtdb \<Rightarrow> obj_info" where
  "root_info h db = (let m = kogmo_rtdb_obj_initinfo h ''root'' OBJTYPE_C3_ROOT 0 db
     in m\<lparr>max_cycletime := 1, min_cycletime := 1, history_interval := 1, flags := (flags m)\<lparr>unique := True\<rparr>\<rparr>)"

definition proclist_info :: "handle \<Rightarrow> int \<Rightarrow> rtdb \<Rightarrow> obj_info" where
  "proclist_info h rootoid db = (let m = kogmo_rtdb_obj_initinfo h ''processes'' OBJTYPE_C3_PROCESSLIST 0 db
     in m\<lparr>parent_oid := rootoid, max_cycletime := 1, history_interval := 1, flags := (flags m)\<lparr>unique := True\<rparr>\<rparr>)"

text \<open>Lines 236-270.\<close>

definition local_start :: "(int \<Rightarrow> rtdb \<Rightarrow> int \<times> rtdb) \<Rightarrow> handle \<Rightarrow> int \<Rightarrow> rtdb \<Rightarrow> (rtdb_error + int) \<times> rtdb" where
  "local_start dsa_init h hsize db =
     (let db = kogmo_rtdb_obj_local_init dsa_init h hsize db
      in case kogmo_rtdb_obj_insert h (root_info h db) db of
           (Inl e, _, db) \<Rightarrow> (Inl e, db)
         | (Inr rootoid, _, db) \<Rightarrow>
             (case kogmo_rtdb_obj_insert h (proclist_info h rootoid db) db of (r, _, db) \<Rightarrow> (r, db)))"

section \<open>The process object and the database object\<close>

text \<open>
  \<open>kogmo_rtdb_obj_initinfo\<close> clears the handle's \<open>procobjmeta\<close> before it reads the default cycle time
  from it.
\<close>

definition process_meta :: "handle \<Rightarrow> connect_info \<Rightarrow> int \<Rightarrow> rtdb \<Rightarrow> obj_info" where
  "process_meta h ci proclistoid db =
     (kogmo_rtdb_obj_initinfo (h\<lparr>h_procobj_cycletime := 0\<rparr>) (procname ci) OBJTYPE_C3_PROCESS (int C3_PROCESS_size) db)
       \<lparr>parent_oid := proclistoid, max_cycletime := ci_cycletime ci, min_cycletime := ci_cycletime ci,
        history_interval := default_history_interval db\<rparr>"

definition process_data :: "connect_env \<Rightarrow> connect_info \<Rightarrow> int \<Rightarrow> ipc_process \<Rightarrow> byte list \<Rightarrow> byte list" where
  "process_data e ci connoid p bs =
     set_word 40 PROCSTATUS_UNKNOWN (set_word 204 (version ci) (set_word 208 (ce_uid e)
       (set_word 24 connoid (set_word 36 (uint (p_flags p)) (set_word 32 (tid p) (set_word 28 (pid p)
         (set_size (int C3_PROCESS_size) (set_data_ts (connected_ts p) bs))))))))"

text \<open>Lines 272-320: the list of processes is found, the process object inserted and written.\<close>

definition register_process :: "connect_env \<Rightarrow> connect_info \<Rightarrow> int \<Rightarrow> db_conn \<Rightarrow> rtdb \<Rightarrow> (rtdb_error + db_conn) \<times> rtdb" where
  "register_process e ci connoid c db =
     (case kogmo_rtdb_obj_searchinfo (db_handle c) (Some ''processes'') OBJTYPE_C3_PROCESSLIST 0 0 0 None 1 db of
        (Inl err, _, db) \<Rightarrow> (Inl err, db)
      | (Inr proclistoid, _, db) \<Rightarrow>
          let c = c\<lparr>procobjmeta := process_meta (db_handle c) ci proclistoid db, procobj := set_word 24 connoid (procobj c)\<rparr>
          in case kogmo_rtdb_obj_insert (db_handle c) (procobjmeta c) db of
               (Inl err, _, db) \<Rightarrow> (Inl err, db)
             | (Inr procoid, m, db) \<Rightarrow>
                 let c = c\<lparr>procobjmeta := m, procobj := process_data e ci connoid (this_process (ipc_h c)) (procobj c)\<rparr>
                 in case kogmo_rtdb_obj_writedata (db_handle c) (oid (procobjmeta c)) (procobj c) db of
                      (Inl err, _, db) \<Rightarrow> (Inl err, db)
                    | (Inr _, bs, db) \<Rightarrow> (Inr (c\<lparr>procobj := bs\<rparr>), db))"

definition rtdb_info :: "handle \<Rightarrow> int \<Rightarrow> rtdb \<Rightarrow> obj_info" where
  "rtdb_info h procoid db = (let m = kogmo_rtdb_obj_initinfo h ''rtdb'' OBJTYPE_C3_RTDB 0 db
     in m\<lparr>parent_oid := procoid, max_cycletime := 1, history_interval := 10, size_max := int C3_RTDB_size,
         flags := (flags m)\<lparr>unique := True\<rparr>\<rparr>)"

text \<open>A string in an array of \<open>n\<close> bytes, by \<open>strncpy\<close> and a final NUL, or by \<open>snprintf\<close>.\<close>

definition terminated :: "nat \<Rightarrow> char list \<Rightarrow> char list" where
  "terminated n s = (strncpy n s)[n - 1 := NUL]"

definition rtdb_data :: "connect_env \<Rightarrow> char list option \<Rightarrow> timestamp \<Rightarrow> int \<Rightarrow> int \<Rightarrow> int \<Rightarrow> byte list \<Rightarrow> byte list" where
  "rtdb_data e host started_ts objects processes memory bs =
     set_word 520 memory (set_word 516 memory (set_word 512 processes (set_word 508 processes
       (set_word 504 objects (set_word 500 objects
         (put 98 (string_bytes (terminated 402 (ce_version_id e)))
           (put 68 (string_bytes (terminated 30 (ce_version_date e)))
             (set_word 64 (e_rev (ce_ipc e))
               (put 24 (enc 8 started_ts)
                 (put 32 (string_bytes (strncpy NAME_MAXLEN
                     (case host of None \<Rightarrow> ''(default)'' | Some d \<Rightarrow> if cstr d = [] then ''(default)'' else d))) bs))))))))))"

text \<open>Lines 322-366.\<close>

definition register_rtdb :: "connect_env \<Rightarrow> char list option \<Rightarrow> nat \<Rightarrow> db_conn \<Rightarrow> rtdb \<Rightarrow> (rtdb_error + int) \<times> rtdb" where
  "register_rtdb e host procs c db =
     (let h = db_handle c
      in case kogmo_rtdb_obj_insert h (rtdb_info h (oid (procobjmeta c)) db) db of
           (Inl err, _, db) \<Rightarrow> (Inl err, db)
         | (Inr dbinfooid, m, db) \<Rightarrow>
             let bs = rtdb_data e host (created_ts (procobjmeta c)) (int (length (objmeta db))) (int procs)
                        (heap_size db) (kogmo_rtdb_obj_initdata m)
             in case kogmo_rtdb_obj_writedata h dbinfooid bs db of (r, _, db) \<Rightarrow> (r, db))"

section \<open>Connect\<close>

definition kogmo_rtdb_connect_initinfo :: "int option \<Rightarrow> char list option \<Rightarrow> char list \<Rightarrow> cfloat \<Rightarrow> connect_info" where
  "kogmo_rtdb_connect_initinfo kogmo_rev host nm cyc =
     \<lparr>procname = nm, ci_cycletime = cyc, ci_flags = 0, dbhost = host,
      version = (case kogmo_rev of Some v \<Rightarrow> v | None \<Rightarrow> 0)\<rparr>"

text \<open>Lines 144-156: the size of the heap a manager makes; a \<open>long\<close> of 64 bits.\<close>

definition suffix_factor :: "char \<Rightarrow> int" where
  "suffix_factor c =
     (if c = CHR ''k'' \<or> c = CHR ''K'' then 1024
      else if c = CHR ''m'' \<or> c = CHR ''M'' then 1024 * 1024
      else if c = CHR ''g'' \<or> c = CHR ''G'' then 1024 * 1024 * 1024 else 1)"

definition wanted_heap :: "connect_env \<Rightarrow> int" where
  "wanted_heap e = (case ce_heapsize e of None \<Rightarrow> DEFAULT_HEAP_SIZE
     | Some (v, suffix) \<Rightarrow> int64 (v * suffix_factor suffix))"

text \<open>Lines 144-145 and 162-167: the defaults the connection data get.\<close>

definition connect_defaults :: "connect_env \<Rightarrow> connect_info \<Rightarrow> connect_info" where
  "connect_defaults e ci =
     (let ci = (if ci_cycletime ci = 0 then ci\<lparr>ci_cycletime := DEFAULT_MAX_CYCLETIME\<rparr> else ci)
      in if dbhost ci = None \<or> cstr (the (dbhost ci)) = []
         then ci\<lparr>dbhost := Some (case ce_dbhost e of Some d \<Rightarrow> d | None \<Rightarrow> DEFAULT_DBHOST)\<rparr> else ci)"

text \<open>Lines 169-179: the name of the local database, \<open>Inl\<close> when another host is asked for.\<close>

definition local_dbhost :: "char list option \<Rightarrow> rtdb_error + char list option" where
  "local_dbhost host = (case host of None \<Rightarrow> Inr None
     | Some d \<Rightarrow> if cstr d = [] then Inr None
                 else if take 6 (cstr d) \<noteq> ''local:'' then Inl ERR_INVALID
                 else Inr (Some (drop 6 d)))"

text \<open>Lines 201-226.\<close>

definition connect_setup :: "connect_env \<Rightarrow> 32 word \<Rightarrow> db_conn \<Rightarrow> rtdb \<Rightarrow> rtdb" where
  "connect_setup e fl c db =
     (if this_process_is_manager (db_handle c) then trace_setup (ce_mq e) (manager_modes fl db) else db)"

text \<open>Lines 236-371, from the database's side.\<close>

definition connect_objects :: "connect_env \<Rightarrow> connect_info \<Rightarrow> int \<Rightarrow> int \<Rightarrow> nat \<Rightarrow> db_conn \<Rightarrow> rtdb
    \<Rightarrow> (rtdb_error + db_conn) \<times> rtdb" where
  "connect_objects e ci connoid dsize procs c db =
     (let h = db_handle c;
          (r, db) = (if this_process_is_manager h then local_start (ce_dsa_init e) h (dsize - ce_sizeof_local e) db
                     else (Inr 0, db))
      in case r of
           Inl err \<Rightarrow> (Inl err, db)
         | Inr _ \<Rightarrow>
             (case register_process e ci connoid c db of
                (Inl err, db) \<Rightarrow> (Inl err, db)
              | (Inr c, db) \<Rightarrow>
                  if this_process_is_manager h then
                    (case register_rtdb e (dbhost ci) procs c db of
                       (Inl err, db) \<Rightarrow> (Inl err, db)
                     | (Inr _, db) \<Rightarrow> (Inr c, db))
                  else (Inr c, db)))"

text \<open>
  \<open>c\<close> is the handle as \<open>malloc\<close> leaves it. The handle is part of the result when the call succeeds.
  \<open>None\<close>: the process waits for the manager.
\<close>

definition kogmo_rtdb_connect :: "connect_env \<Rightarrow> connect_info \<Rightarrow> db_conn \<Rightarrow> ipc_shm
    \<Rightarrow> (rtdb_error + int \<times> db_conn) outcome option \<times> ipc_shm" where
  "kogmo_rtdb_connect e ci c s =
     (let fl = ci_flags ci;
          ci = connect_defaults e ci
      in if \<not> ce_malloc e then (Some (on_error fl ERR_NOMEMORY), s)
         else if wanted_heap e < MINIMUM_HEAP_SIZE then (Some Died, s)
         else case local_dbhost (dbhost ci) of
           Inl err \<Rightarrow> (Some (on_error fl err), s)
         | Inr host \<Rightarrow>
             (case kogmo_rtdb_ipc_connect (ce_ipc e) (ipc_h c) host (procname ci) (ci_cycletime ci) fl (wanted_heap e) s of
                (None, s) \<Rightarrow> (None, s)
              | (Some Died, s) \<Rightarrow> (Some Died, s)
              | (Some Faulted, s) \<Rightarrow> (Some Faulted, s)
              | (Some (Returned (Inl err)), s) \<Rightarrow> (Some (on_error fl err), s)
              | (Some (Returned (Inr (connoid, dsize, ih))), s) \<Rightarrow>
                  let c = c\<lparr>ipc_h := ih, attached := True, rxtrace := False\<rparr>;
                      db = connect_setup e fl c (local_data s)
                  in if \<not> this_process_is_manager (db_handle c) \<and> rtdb_tracebufsize db \<noteq> 0 \<and> \<not> ce_mq_client e
                     then (Some Died, s)
                     else case connect_objects e ci connoid dsize (length (proc s)) c db of
                       (Inl err, db) \<Rightarrow> (Some (on_error fl err), s\<lparr>local_data := db\<rparr>)
                     | (Inr c, db) \<Rightarrow>
                         if this_process_is_manager (db_handle c) \<and> \<not> ce_chmod e
                         then (Some (on_error (p_flags (this_process (ipc_h c))) ERR_UNKNOWN), s\<lparr>local_data := db\<rparr>)
                         else (Some (Returned (Inr (connoid, c))), s\<lparr>local_data := db\<rparr>)))"

section \<open>Disconnect\<close>

text \<open>Lines 409-431: all objects of the process; an error of the search is returned.\<close>

definition delete_own_objects :: "nat \<Rightarrow> handle \<Rightarrow> bool \<Rightarrow> int \<Rightarrow> obj_info \<Rightarrow> rtdb \<Rightarrow> ((rtdb_error + unit) \<times> rtdb) option" where
  "delete_own_objects fuel h imm p used db =
     (case kogmo_rtdb_obj_searchinfo_deleted h (Some []) 0 0 p 0 (Some (h_stack h)) 0 db of
        (Inl err, _, db) \<Rightarrow> Some (Inl err, db)
      | (Inr _, objlist, db) \<Rightarrow> map_option (Pair (Inr ())) (delete_owned fuel h imm (the objlist) used db))"

text \<open>Lines 396-441.\<close>

definition leave_objects :: "nat \<Rightarrow> obj_info \<Rightarrow> db_conn \<Rightarrow> rtdb \<Rightarrow> ((rtdb_error + db_conn) \<times> rtdb) option" where
  "leave_objects fuel used c db =
     (let h = db_handle c;
          imm = has_flag (pr_flags (procobj c)) FLAG_IMMEDIATELYDELETE
      in case delete_own_objects fuel h imm (pr_proc_oid (procobj c)) used db of
           None \<Rightarrow> None
         | Some (Inl err, db) \<Rightarrow> Some (Inl err, db)
         | Some (Inr _, db) \<Rightarrow>
             (case kogmo_rtdb_obj_delete_imm fuel h (procobjmeta c) imm db of
                None \<Rightarrow> None
              | Some (_, m, db) \<Rightarrow>
                  let db = (if rxtrace c then db\<lparr>rtdb_trace := 0\<rparr> else db)
                  in Some (Inr (c\<lparr>procobjmeta := m\<lparr>oid := 0\<rparr>\<rparr>), db)))"

text \<open>
  The first argument bounds the recursion of the deletions. \<open>kogmo_rtdb_obj_local_destroy\<close> destroys
  mutexes in the segment, so it faults once the segment is unmapped.
\<close>

definition kogmo_rtdb_disconnect :: "nat \<Rightarrow> obj_info \<Rightarrow> db_conn \<Rightarrow> ipc_shm
    \<Rightarrow> ((rtdb_error + int) outcome \<times> db_conn \<times> ipc_shm) option" where
  "kogmo_rtdb_disconnect fuel used c s =
     (if \<not> attached c then Some (Returned (Inl ERR_NOCONN), c, s)
      else
        let manager = this_process_is_manager (db_handle c);
            s = (if oid (procobjmeta c) \<noteq> 0 \<and> manager
                 then snd (kogmo_rtdb_kill_procs 9 (snd (kogmo_rtdb_kill_procs 15 s))) else s)
        in case (if oid (procobjmeta c) \<noteq> 0 then leave_objects fuel used c (local_data s)
                 else Some (Inr c, local_data s)) of
             None \<Rightarrow> None
           | Some (Inl err, db) \<Rightarrow> Some (Returned (Inl err), c, s\<lparr>local_data := db\<rparr>)
           | Some (Inr c, db) \<Rightarrow>
               let s = s\<lparr>local_data := db\<rparr>
               in if manager \<and> \<not> mapped (ipc_h c) then Some (Faulted, c, s)
                  else let (err, ih, s) = kogmo_rtdb_ipc_disconnect (ipc_h c) s
                       in Some (Returned (Inr err), c\<lparr>ipc_h := ih\<rparr>, s))"

section \<open>Status\<close>

definition kogmo_rtdb_setstatus :: "int \<Rightarrow> char list option \<Rightarrow> db_conn \<Rightarrow> rtdb \<Rightarrow> (rtdb_error + int) \<times> db_conn \<times> rtdb" where
  "kogmo_rtdb_setstatus status msg c db =
     (let bs = (case msg of None \<Rightarrow> procobj c
                | Some m \<Rightarrow> put 44 (string_bytes (strncpy PROCSTATUS_MSG_MAXLEN m)) (procobj c));
          bs = set_word 40 status bs;
          (ts, db) = kogmo_rtdb_timestamp_now db;
          (err, bs, db) = kogmo_rtdb_obj_writedata (db_handle c) (oid (procobjmeta c)) (set_data_ts ts bs) db
      in (err, c\<lparr>procobj := bs\<rparr>, db))"

definition kogmo_rtdb_cycle_done :: "db_conn \<Rightarrow> rtdb \<Rightarrow> (rtdb_error + int) \<times> db_conn \<times> rtdb" where
  "kogmo_rtdb_cycle_done c db =
     (let bs = set_word 40 PROCSTATUS_CYCLEDONE (procobj c);
          (err, bs, db) = kogmo_rtdb_obj_writedata (db_handle c) (oid (procobjmeta c)) bs db
      in (err, c\<lparr>procobj := bs\<rparr>, db))"

end
