(* ===== verification/Connection_Props.thy ===== *)
theory Connection_Props
  imports Obj_Local Housekeeping_Sweep Process_Table Sample_State
begin

text \<open>
  What the manager's initialisation establishes, what a process leaves in the database when it
  connects, and what is gone when it disconnects.
\<close>

section \<open>Leaving\<close>

lemma proc_leave_slot_data:
  "objmeta (local_data (proc_leave_slot p i s)) = objmeta (local_data s)"
  "objmeta_oid_next (local_data (proc_leave_slot p i s)) = objmeta_oid_next (local_data s)"
  "objmeta_free (local_data (proc_leave_slot p i s)) = objmeta_free (local_data s)"
  by (simp_all add: proc_leave_slot_def proc_clear_def)

lemma proc_leave_data:
  "objmeta (local_data (proc_leave p s)) = objmeta (local_data s)"
  "objmeta_oid_next (local_data (proc_leave p s)) = objmeta_oid_next (local_data s)"
  "objmeta_free (local_data (proc_leave p s)) = objmeta_free (local_data s)"
proof -
  have "objmeta (local_data (fold (proc_leave_slot p) js t)) = objmeta (local_data t)
      \<and> objmeta_oid_next (local_data (fold (proc_leave_slot p) js t)) = objmeta_oid_next (local_data t)
      \<and> objmeta_free (local_data (fold (proc_leave_slot p) js t)) = objmeta_free (local_data t)" for js t
    by (induction js arbitrary: t) (simp_all add: proc_leave_slot_data)
  then show "objmeta (local_data (proc_leave p s)) = objmeta (local_data s)"
    "objmeta_oid_next (local_data (proc_leave p s)) = objmeta_oid_next (local_data s)"
    "objmeta_free (local_data (proc_leave p s)) = objmeta_free (local_data s)"
    by (simp_all add: proc_leave_def Let_def emit_def)
qed

lemma proc_leave_gone:
  assumes "procs_ok s" "p \<noteq> 0"
  shows "\<forall>q \<in> set (proc (proc_leave p s)). proc_oid q \<noteq> p"
  using assms
proof (cases rule: proc_leave_cases)
  case 1 then show ?thesis by simp
next
  case (2 i)
  have "proc_oid ((proc s)[i := zero_process] ! j) \<noteq> p" if j: "j < length (proc s)" for j
  proof (cases "j = i")
    case False
    then have "proc_oid (proc s ! j) \<noteq> p"
      using assms 2(1,2) j unfolding procs_ok_def unique_keys_def by metis
    with False show ?thesis by simp
  qed (use assms(2) 2(1) in simp)
  then have "\<forall>q \<in> set ((proc s)[i := zero_process]). proc_oid q \<noteq> p"
    by (metis in_set_conv_nth length_list_update)
  with 2(3) show ?thesis by (simp add: proc_clear_def)
qed

lemma leave_objects_effect:
  assumes l: "leave_objects fuel used c db = Some (Inr c', db')"
    and pre: "sweep_base (db_handle c) db" and few: "few_objects p (objmeta db)"
    and p: "pr_proc_oid (procobj c) = p" "h_proc_oid (db_handle c) = p" "p \<noteq> 0" and m: "oid (procobjmeta c) \<noteq> 0"
  shows "table_ok db' \<and> oid (procobjmeta c') = 0 \<and> ipc_h c' = ipc_h c \<and> attached c' = attached c \<and>
    (\<forall>k < length (objmeta db). owned_by p (objmeta db ! k) \<longrightarrow> \<not> undeleted (objmeta db' ! k))"
proof -
  let ?h = "db_handle c" and ?imm = "has_flag (pr_flags (procobj c)) FLAG_IMMEDIATELYDELETE"
  from l p(1) obtain u db1 r m' db2 where s: "delete_own_objects fuel ?h ?imm p used db = Some (Inr u, db1)"
    and t: "kogmo_rtdb_obj_delete_imm fuel ?h (procobjmeta c) ?imm db1 = Some (r, m', db2)"
    and e: "c' = c\<lparr>procobjmeta := m'\<lparr>oid := 0\<rparr>\<rparr>" "db' = (if rxtrace c then db2\<lparr>rtdb_trace := 0\<rparr> else db2)"
    by (auto simp: leave_objects_def Let_def split: option.splits sum.splits prod.splits)
  have d: "delete_objects_of fuel ?h ?imm p used db = Some db1"
    using s by (auto simp: delete_own_objects_def delete_objects_of_def split: prod.splits sum.splits)
  have may: "may_delete ?h m" if "owned_by p m" for m
    using that p by (auto simp: may_delete_def owned_by_def)
  note E = delete_objects_of_gen [OF pre few may d]
  have f: "dsa_frame_ok (h_dsa ?h)" "clock_ok db" using pre by (simp_all add: sweep_base_def)
  have c1: "clock_ok db1" using E keeps_clock_ok f(2) by blast
  have K: "keeps db1 db2" using del_keeps.delete_rel [OF t m] f(1) c1 by simp
  have T: "table_ok db2" using del_table.delete_rel [OF t m] f(1) E by simp
  have o: "objmeta db' = objmeta db2" "table_ok db' = table_ok db2"
    by (simp_all add: e(2) table_ok_def)
  have "\<not> undeleted (objmeta db' ! k)" if k: "k < length (objmeta db)" "owned_by p (objmeta db ! k)" for k
  proof -
    have "\<not> undeleted (objmeta db1 ! k)" "k < length (objmeta db1)" using E k keeps_length by (blast, metis)
    then show ?thesis using keeps_undeleted [OF K] o(1) by metis
  qed
  with T o e(1) show ?thesis by simp
qed


text \<open>Leaving ends, and without an error when the process has an object.\<close>

lemma leave_objects_returns:
  assumes pre: "sweep_base (db_handle c) db" and few: "few_objects p (objmeta db)"
    and p: "pr_proc_oid (procobj c) = p" "h_proc_oid (db_handle c) = p" "p \<noteq> 0" and m: "oid (procobjmeta c) \<noteq> 0"
    and own: "q \<in> set (objmeta db)" "owned_by p q" and f: "undeleted_count db < fuel"
  shows "\<exists>c' db'. leave_objects fuel used c db = Some (Inr c', db')"
proof -
  let ?h = "db_handle c" and ?imm = "has_flag (pr_flags (procobj c)) FLAG_IMMEDIATELYDELETE"
  obtain r l db0 where S: "kogmo_rtdb_obj_searchinfo_deleted ?h (Some []) 0 0 p 0 (Some (h_stack ?h)) 0 db = (r, l, db0)"
    by (metis prod_cases3)
  obtain v where r: "r = Inr v" using sweep_search [OF pre few S] own by (cases r) auto
  from delete_objects_of_returns [OF pre few f] obtain db1
    where d: "delete_objects_of fuel ?h ?imm p used db = Some db1" by blast
  have own1: "delete_own_objects fuel ?h ?imm p used db = Some (Inr (), db1)"
    using d S r by (simp add: delete_own_objects_def delete_objects_of_def)
  have may: "may_delete ?h m" if "owned_by p m" for m
    using that p by (auto simp: may_delete_def owned_by_def)
  have K: "keeps db db1" using delete_objects_of_gen [OF pre few may d] by blast
  have "dsa_frame_ok (h_dsa ?h)" "clock_ok db1" "undeleted_count db1 < fuel"
    using pre keeps_clock_ok [OF K] keeps_count [OF K] f by (simp_all add: sweep_base_def)
  from delete_returns [OF this(1), of "procobjmeta c" db1 fuel ?imm] this m obtain x m' db2
    where "kogmo_rtdb_obj_delete_imm fuel ?h (procobjmeta c) ?imm db1 = Some (x, m', db2)" by auto
  with own1 p(1) show ?thesis by (simp add: leave_objects_def Let_def)
qed


text \<open>A process with two objects of its own in the sample database.\<close>

definition ex_process :: ipc_process where
  "ex_process = zero_process\<lparr>proc_oid := 7, pid := 400\<rparr>"

definition ex_conn :: db_conn where
  "ex_conn = \<lparr>ipc_h = \<lparr>shmid = ''/kogmo_rtdb'', mapped = True, shm_size = 0, this_process = ex_process, this_process_slot = 0\<rparr>,
     attached = True, procobjmeta = ex_child, procobj = set_word 24 7 (replicate C3_PROCESS_size 0), rxtrace = False, lib = ex_h\<rparr>"

definition ex_connected :: ipc_shm where
  "ex_connected = ex_shm\<lparr>proc := [ex_process, zero_process], proc_free := 1, proc_oid_next := 8, local_data := ex_db\<rparr>"


end
