(* ===== verification/Database_Invariant.thy ===== *)
theory Database_Invariant
  imports Obj_Local Housekeeping_Sweep Sample_State
begin

text \<open>
  The database as a whole: whatever the processes insert, write, delete and the manager purges, in
  any order, from the manager's initialisation on, the object table is well formed, the rings of the
  objects are separate blocks of the heap and hold sound entries only.
\<close>

section \<open>Sound data\<close>

definition data_ok :: "(block set \<Rightarrow> rtdb \<Rightarrow> bool) \<Rightarrow> rtdb \<Rightarrow> bool" where
  "data_ok I db \<longleftrightarrow> heap_ok I db
     \<and> (\<forall>k < length (objmeta db). has_block (objmeta db ! k) \<longrightarrow> sizes_ok (heap db) (objmeta db ! k))"

lemma heap_ok_ring:
  "heap_ok I db \<Longrightarrow> k < length (objmeta db) \<Longrightarrow> has_block (objmeta db ! k) \<Longrightarrow> ring_ok (objmeta db ! k)"
  by (auto simp: heap_ok_def blocks_in_def)

lemma data_ok_obj:
  "data_ok I db \<Longrightarrow> k < length (objmeta db) \<Longrightarrow> has_block (objmeta db ! k) \<Longrightarrow> obj_ok db k"
  using heap_ok_ring by (auto simp: data_ok_def obj_ok_def)

lemma sizes_ok_kept:
  assumes "ring_ok m" "sizes_ok hp m" "\<forall>x \<in> ring_bytes m. hp' x = hp x"
  shows "sizes_ok hp' m"
  by (rule history_cong(2) [OF assms(1,2)]) (use assms(3) in \<open>simp add: ring_bytes_def\<close>)

text \<open>A ring that is all zero has no entries.\<close>

lemma sizes_ok_zero:
  assumes z: "ldb hp (buffer_idx m) (nat (block_size m)) = replicate (nat (block_size m)) 0"
    and r: "ring_ok m"
  shows "sizes_ok hp m"
proof -
  have ts: "m_committed_ts hp (ring_addr m i) = 0" for i
  proof -
    have "ldb hp (ring_addr m i) 24 = ldb (\<lambda>_. 0) (ring_addr m i) 24"
    proof (rule ldb_cong)
      fix x assume x: "ring_addr m i \<le> x" "x < ring_addr m i + int 24"
      have b: "buffer_idx m \<le> x" "x < buffer_idx m + block_size m"
        using x ring_addr_bounds [OF r, of i] ring_okD(1) [OF r] block_size_ring(1) [OF r]
        by (simp_all add: base_size_def)
      then have "ldb hp (buffer_idx m) (nat (block_size m)) ! nat (x - buffer_idx m) = 0"
        unfolding z by (subst nth_replicate) auto
      with b show "hp x = 0" by simp
    qed
    then show ?thesis using m_fields(1) [of 24 hp "ring_addr m i"] m_fields(1) [of 24 "\<lambda>_. 0" "ring_addr m i"]
      by (simp add: base_size_def m_committed_ts_def)
  qed
  have "\<not> valid hp (ring_addr m i)" for i using ts by (simp add: valid_def CMP_INT64_HIGH_def invalid_ts_def)
  then have "hist_addrs hp m = []"
    by (cases "[0..<nat (history_size m)]") (simp_all add: hist_addrs_def)
  then show ?thesis by (simp add: sizes_ok_def)
qed

definition no_keep :: "rtdb \<Rightarrow> bool" where
  "no_keep db \<longleftrightarrow> (\<forall>m \<in> set (objmeta db). \<not> keep_alloc (flags m))"

definition database_ok :: "(block set \<Rightarrow> rtdb \<Rightarrow> bool) \<Rightarrow> rtdb \<Rightarrow> bool" where
  "database_ok I db \<longleftrightarrow> table_ok db \<and> names_ok (objmeta db) \<and> data_ok I db \<and> no_keep db"

section \<open>Each operation keeps it\<close>

context heap_allocator
begin

lemma data_ok_cong:
  assumes "data_ok inv db" "objmeta db' = objmeta db" "heap db' = heap db" "heap_free db' = heap_free db"
    "heap_used db' = heap_used db" "heap_size db' = heap_size db"
  shows "data_ok inv db'"
  using assms heap_ok_cong [of db db'] by (simp add: data_ok_def)

lemma purgeslot_data_ok:
  assumes h: "h_dsa h = d" and ok: "data_ok inv db" and k: "k < length (objmeta db)" "oid (objmeta db ! k) \<noteq> 0"
  shows "data_ok inv (kogmo_rtdb_obj_purgeslot h k db)"
proof -
  let ?m = "objmeta db ! k" and ?db = "kogmo_rtdb_obj_purgeslot h k db"
  have hk: "heap_ok inv db" using ok by (simp add: data_ok_def)
  have om: "objmeta ?db = (objmeta db)[k := ?m\<lparr>oid := 0\<rparr>]" using purgeslot_objmeta(1) [of h k db] h frame_ok by simp
  have kept: "\<forall>x \<in> ring_bytes (objmeta db ! j). heap ?db x = heap db x"
    if j: "j < length (objmeta db)" "j \<noteq> k" "has_block (objmeta db ! j)" for j
  proof (cases "buffer_idx ?m = 0")
    case True then show ?thesis by (simp add: kogmo_rtdb_obj_purgeslot_def)
  next
    case False
    obtain B where B: "inv B db" "blocks_in B (objmeta db)" using hk by (auto simp: heap_ok_def)
    have hb: "has_block ?m" using False B(2) k by (auto simp: blocks_in_def has_block_def)
    then have i: "(buffer_idx ?m, block_size ?m) \<in> B" using B(2) k by (auto simp: blocks_in_def obj_block_def)
    have "obj_block (objmeta db ! j) \<in> B - {(buffer_idx ?m, block_size ?m)}" "ring_ok (objmeta db ! j)"
      using B(2) j hb k by (auto simp: blocks_in_def obj_block_def)
    then show ?thesis using free_ok [OF B(1) h i] False
      by (auto simp: kogmo_rtdb_obj_purgeslot_def Let_def ring_bytes_block)
  qed
  have "sizes_ok (heap ?db) (objmeta ?db ! j)" if j: "j < length (objmeta ?db)" "has_block (objmeta ?db ! j)" for j
  proof -
    have "j \<noteq> k" using that k om by (auto simp: has_block_def)
    then have j': "j < length (objmeta db)" "has_block (objmeta db ! j)" "objmeta ?db ! j = objmeta db ! j"
      using that om by auto
    from sizes_ok_kept [OF heap_ok_ring [OF hk j'(1,2)] _ kept [OF j'(1) \<open>j \<noteq> k\<close> j'(2)]]
    show ?thesis using ok j' by (simp add: data_ok_def)
  qed
  with purgeslot_heap_ok [OF h hk k] show ?thesis by (simp add: data_ok_def)
qed

lemma delete_mark_data_ok:
  assumes h: "h_dsa h = d" and ok: "data_ok inv db" and k: "k < length (objmeta db)" "oid (objmeta db ! k) \<noteq> 0"
  shows "data_ok inv (snd (delete_mark h k imm db))"
proof -
  let ?db = "snd (kogmo_rtdb_timestamp_now db)"
  let ?u = "(objmeta ?db ! k)\<lparr>deleted_proc := h_proc_oid h,
      deleted_ts := fst (kogmo_rtdb_timestamp_now db)\<rparr>"
  let ?db1 = "upd_meta k ?u ?db"
  let ?db2 = "if immediately_delete (flags ?u) \<or> imm then kogmo_rtdb_obj_purgeslot h k ?db1 else ?db1"
  obtain B where B: "inv B db" "blocks_in B (objmeta db)" using ok by (auto simp: data_ok_def heap_ok_def)
  have "blocks_in B ((objmeta db)[k := ?u])"
    by (rule blocks_in_same [OF B(2) k(1)]) (simp_all add: obj_block_def block_size_def)
  moreover have "inv B ?db1" by (rule inv_frame [OF B(1)]) simp_all
  ultimately have "heap_ok inv ?db1" by (auto simp: heap_ok_def)
  moreover have "sizes_ok (heap ?db1) (objmeta ?db1 ! j)"
    if "j < length (objmeta ?db1)" "has_block (objmeta ?db1 ! j)" for j
  proof -
    have "ring_addr ?u = ring_addr (objmeta db ! k)"
      by (rule ext) (simp add: ring_addr_def ring_slot_def slot_addr_def)
    then have s: "sizes_ok hp ?u = sizes_ok hp (objmeta db ! k)" for hp
      by (simp add: sizes_ok_def hist_addrs_def)
    have "j < length (objmeta db)" "has_block (objmeta db ! j)"
      using that k by (auto simp: has_block_def nth_list_update_if split: if_splits)
    then have "sizes_ok (heap db) (objmeta db ! j)" using ok by (simp add: data_ok_def)
    then show ?thesis using s k by (cases "j = k") simp_all
  qed
  ultimately have 1: "data_ok inv ?db1" by (simp add: data_ok_def)
  have 2: "data_ok inv ?db2" using 1 purgeslot_data_ok [OF h 1, of k] k by simp
  show ?thesis
    by (rule data_ok_cong [OF 2]) (simp_all add: delete_mark_def Let_def split_beta ipc_defs)
qed

lemma insert_data_ok:
  assumes t: "table_ok db" "objmeta_oid_next db < 2 ^ 31" and h: "h_dsa h = d" and ok: "data_ok inv db"
    and f: "size_ok (insert_info h (fst (kogmo_rtdb_timestamp_now db)) m)" and n: "no_keep db"
    and ins: "kogmo_rtdb_obj_insert h m db = (r, m', db')" and r: "r \<noteq> Inl ERR_NOTUNIQ"
  shows "data_ok inv db'"
proof -
  have hk: "heap_ok inv db" using ok by (simp add: data_ok_def)
  have d: "dsa_frame_ok (h_dsa h)" using h frame_ok by simp
  note H = insert_heap [OF t h hk f ins r]
  have other: "sizes_ok (heap db') (objmeta db ! j)" if j: "j < length (objmeta db)" "has_block (objmeta db ! j)" for j
    using sizes_ok_kept [OF heap_ok_ring [OF hk j], of "heap db" "heap db'"] H ok j
    by (simp add: rings_kept_def data_ok_def)
  have "sizes_ok (heap db') (objmeta db' ! j)" if j: "j < length (objmeta db')" "has_block (objmeta db' ! j)" for j
    using ins d
  proof (cases rule: insert_cases)
    case (commit b m1 db1 i)
    have "1 \<le> objmeta_oid_next db1" "objmeta_oid_next db1 < 2 ^ 31" "objmeta db1 = objmeta db"
      using commit(3) t by (simp_all add: same_table_def table_ok_def)
    note C = insert_commit_ok [OF commit(1) this(1,2)]
    have rv: "r = Inr (objmeta_oid_next db1)" using C by simp
    from H rv obtain i' where i': "i' < length (objmeta db)" "objmeta db' = (objmeta db)[i' := m']"
      "oid (objmeta db ! i') = 0 \<and> size_max m' \<noteq> 0 \<Longrightarrow>
         ldb (heap db') (buffer_idx m') (nat (block_size m')) = replicate (nat (block_size m')) 0" by auto
    show ?thesis
    proof (cases "j = i'")
      case False
      then show ?thesis using other [of j] j i'(2) by simp
    next
      case True
      then have hb: "has_block m'" "objmeta db' ! j = m'" using j i' by simp_all
      have "oid (objmeta db ! i') = 0"
      proof (rule ccontr)
        assume nz: "oid (objmeta db ! i') \<noteq> 0"
        have "\<not> keep_alloc (flags (objmeta db ! i))" using n commit(4) by (simp add: no_keep_def)
        then have z: "oid (objmeta db ! i) = 0" using commit(6) by simp
        have "objmeta db' = (objmeta db)[i := m']" using C \<open>objmeta db1 = objmeta db\<close> by simp
        then have e: "(objmeta db)[i := m'] = (objmeta db)[i' := m']" using i'(2) by simp
        have "i \<noteq> i'" using z nz by blast
        then have "objmeta db ! i' = m'"
          using arg_cong [OF e, of "\<lambda>xs. xs ! i'"] i'(1) by simp
        moreover have "oid m' = objmeta_oid_next db"
          using C commit(3) by (simp add: same_table_def commit_info_fields)
        ultimately show False using t(1) nth_mem [OF i'(1)] by (auto simp: table_ok_def)
      qed
      then show ?thesis
        using sizes_ok_zero [of "heap db'" m'] i' hb heap_ok_ring [of inv db' j] H j
        by (simp add: has_block_def)
    qed
  next
    case invalid then show ?thesis using other [of j] j by (simp add: same_table_def)
  next
    case noslot then show ?thesis using other [of j] j by (simp add: same_table_def)
  next
    case clash with r show ?thesis by simp
  qed
  with H show ?thesis by (simp add: data_ok_def)
qed

lemma writedata_data_ok:
  assumes ok: "data_ok inv db" and i: "i \<noteq> 0" and w: "kogmo_rtdb_obj_writedata h i data db = (r, data', db')"
    and t: "time_ok (fst (kogmo_rtdb_timestamp_now db))" and l: "b_size data \<le> int (length data)"
  shows "data_ok inv db'"
proof (cases r)
  case (Inl e)
  note E = writedata_error [OF w [unfolded Inl]]
  have "heap_size db' = heap_size db"
  proof (cases "kogmo_rtdb_obj_findmeta_byid i db")
    case None
    with w show ?thesis by (auto simp: kogmo_rtdb_obj_writedata_def split_beta)
  next
    case (Some k)
    with w Inl show ?thesis unfolding writedata_unfold [OF Some]
      by (auto simp: ipc_defs split: option.splits if_splits prod.splits)
  qed
  with E show ?thesis by (intro data_ok_cong [OF ok]) simp_all
next
  case (Inr v)
  note w' = w [unfolded Inr]
  obtain k where k: "kogmo_rtdb_obj_findmeta_byid i db = Some k"
    using w' by (cases "kogmo_rtdb_obj_findmeta_byid i db") (auto simp: kogmo_rtdb_obj_writedata_def split_beta)
  have kl: "k < length (objmeta db)" "oid (objmeta db ! k) \<noteq> 0"
    using k i by (auto simp: kogmo_rtdb_obj_findmeta_byid_def scan_first_Some)
  have hk: "heap_ok inv db" using ok by (simp add: data_ok_def)
  have hb: "has_block (objmeta db ! k)"
    using writedata_ok(2) [OF w' k] hk kl by (auto simp: has_block_def heap_ok_def blocks_in_def)
  have o: "obj_ok db k" by (rule data_ok_obj [OF ok kl(1) hb])
  have h': "heap_ok inv db'" by (rule writedata_heap_ok [OF hk k i w o t l])
  have bl: "base_size \<le> length data" using writedata_ok(5) [OF w' k] l by simp
  note D = writedata_db(1) [OF w' k bl]
  have "sizes_ok (heap db') (objmeta db' ! j)" if j: "j < length (objmeta db')" "has_block (objmeta db' ! j)" for j
  proof (cases "j = k")
    case True then show ?thesis using writedata_history(2) [OF w' k o t l] by (simp add: obj_ok_def)
  next
    case False
    then have j': "j < length (objmeta db)" "has_block (objmeta db ! j)" using j D by simp_all
    from writedata_others(2) [OF w k o t l False data_ok_obj [OF ok j']] blocks_distinct [OF hk j'(1) kl(1) False j'(2) hb]
    show ?thesis by (simp add: obj_ok_def)
  qed
  with h' show ?thesis by (simp add: data_ok_def)
qed

lemma purge_obj_data_ok:
  assumes "h_dsa h = d" "data_ok inv db" "i < length (objmeta db)"
  shows "data_ok inv (purge_obj h ts pk i db)"
proof (cases "purge_due db ts pk (objmeta db ! i)")
  case True
  have "data_ok inv (kogmo_rtdb_obj_purgeslot h i db)"
    using purgeslot_data_ok [OF assms] purge_due_used [OF True] by simp
  from data_ok_cong [OF this relock_cong(1,4-7)] True show ?thesis by (simp only: purge_obj_def if_True)
next
  case False with assms show ?thesis by (simp only: purge_obj_def if_False)
qed

lemma purge_objs_data_ok:
  assumes h: "h_dsa h = d" and ok: "data_ok inv db"
  shows "data_ok inv (snd (kogmo_rtdb_objmeta_purge_objs h db))"
proof -
  let ?ts = "fst (kogmo_rtdb_timestamp_now db)" and ?pk = "percent_free db < PURGE_KEEPALLOC_PERCFREE"
  let ?db = "kogmo_rtdb_objmeta_lock (snd (kogmo_rtdb_timestamp_now db))"
  have d: "dsa_frame_ok (h_dsa h)" using h frame_ok by simp
  have 0: "data_ok inv ?db" by (rule data_ok_cong [OF ok]) (simp_all add: ipc_defs)
  have "(\<lambda>a b. data_ok inv a \<longrightarrow> data_ok inv b) ?db (fold (purge_obj h ?ts ?pk) [0..<length (objmeta db)] ?db)
    \<and> length (objmeta (fold (purge_obj h ?ts ?pk) [0..<length (objmeta db)] ?db)) = length (objmeta ?db)"
    by (rule purge_fold_rel [where n = "length (objmeta db)"])
      (use d purge_obj_data_ok [OF h] in \<open>simp_all add: kogmo_rtdb_objmeta_lock_def\<close>)
  with 0 have 1: "data_ok inv (fold (purge_obj h ?ts ?pk) [0..<length (objmeta db)] ?db)" by simp
  show ?thesis
    unfolding purge_objs_unfold by (rule data_ok_cong [OF 1]) (simp_all add: ipc_defs)
qed

end

sublocale heap_allocator \<subseteq> del_data: delete_steps h
    "\<lambda>db db'. h_dsa h = d \<longrightarrow> data_ok inv db \<longrightarrow> data_ok inv db'" for h
proof (unfold_locales, goal_cases)
  case (3 db)
  show ?case by (auto intro: data_ok_cong simp: ipc_defs)
next
  case (4 i db k imm)
  show ?case
  proof (intro impI)
    assume h: "h_dsa h = d" and ok: "data_ok inv db"
    have k: "k < length (objmeta db)" "oid (objmeta db ! k) \<noteq> 0"
      using 4 by (auto simp: kogmo_rtdb_obj_findmeta_byid_def scan_first_Some)
    have ok': "data_ok inv (kogmo_rtdb_objmeta_lock db)"
      by (rule data_ok_cong [OF ok]) (simp_all add: ipc_defs)
    show "data_ok inv (snd (delete_mark h k imm (kogmo_rtdb_objmeta_lock db)))"
      using k by (intro delete_mark_data_ok [OF h ok']) simp_all
  qed
qed simp_all

section \<open>Names\<close>

text \<open>The slots keep name, type and flags, and no object comes to life.\<close>

definition same_names :: "obj_info list \<Rightarrow> obj_info list \<Rightarrow> bool" where
  "same_names xs ys \<longleftrightarrow> length ys = length xs \<and> (\<forall>k < length xs. name (ys ! k) = name (xs ! k)
     \<and> otype (ys ! k) = otype (xs ! k) \<and> flags (ys ! k) = flags (xs ! k) \<and> (live (ys ! k) \<longrightarrow> live (xs ! k)))"

lemma same_names_ok:
  assumes s: "same_names xs ys" and n: "names_ok xs"
  shows "names_ok ys"
  unfolding names_ok_def
proof (intro allI impI)
  fix i j
  assume ij: "i < length ys" "j < length ys"
    and h: "i \<noteq> j \<and> live (ys ! i) \<and> live (ys ! j) \<and> otype (ys ! i) = otype (ys ! j)
      \<and> strncmp_eq NAME_MAXLEN (name (ys ! i)) (name (ys ! j))"
  have l: "i < length xs" "j < length xs" using s ij by (simp_all add: same_names_def)
  note a = s [unfolded same_names_def, THEN conjunct2, rule_format, OF l(1)]
    and b = s [unfolded same_names_def, THEN conjunct2, rule_format, OF l(2)]
  have "\<not> unique (flags (xs ! i))"
    using n l h a b unfolding names_ok_def by metis
  then show "\<not> unique (flags (ys ! i))" using a by simp
qed

lemma same_names_keep:
  "same_names (objmeta db) (objmeta db') \<Longrightarrow> no_keep db \<Longrightarrow> no_keep db'"
  by (auto simp: same_names_def no_keep_def in_set_conv_nth) (metis nth_mem)

lemma keeps_same_names: "keeps db db' \<Longrightarrow> same_names (objmeta db) (objmeta db')"
  by (auto simp: keeps_def slot_keeps_def same_names_def live_def undeleted_def)

lemma same_names_update:
  assumes "k < length xs" "name v = name (xs ! k)" "otype v = otype (xs ! k)" "flags v = flags (xs ! k)"
    "live v \<Longrightarrow> live (xs ! k)"
  shows "same_names xs (xs[k := v])"
  unfolding same_names_def
proof (intro conjI allI)
  fix j
  show "j < length xs \<longrightarrow> name (xs[k := v] ! j) = name (xs ! j) \<and> otype (xs[k := v] ! j) = otype (xs ! j)
      \<and> flags (xs[k := v] ! j) = flags (xs ! j) \<and> (live (xs[k := v] ! j) \<longrightarrow> live (xs ! j))"
    using assms by (cases "j = k") simp_all
qed simp

lemma write_same_names:
  assumes "kogmo_rtdb_obj_writedata h i data db = (r, data', db')" "b_size data \<le> int (length data)"
  shows "same_names (objmeta db) (objmeta db') \<and> objmeta_free db' = objmeta_free db
    \<and> objmeta_oid_next db' = objmeta_oid_next db \<and> map oid (objmeta db') = map oid (objmeta db)"
proof (cases r)
  case (Inl e)
  with writedata_error [of h i data db e data' db'] assms(1) show ?thesis by (simp add: same_names_def)
next
  case (Inr v)
  with assms(1) have w: "kogmo_rtdb_obj_writedata h i data db = (Inr v, data', db')" by simp
  obtain k where k: "kogmo_rtdb_obj_findmeta_byid i db = Some k"
    using w by (cases "kogmo_rtdb_obj_findmeta_byid i db") (auto simp: kogmo_rtdb_obj_writedata_def split_beta)
  have "base_size \<le> length data" using writedata_ok(5) [OF w k] assms(2) by simp
  note D = writedata_db [OF w k this]
  have kl: "k < length (objmeta db)" using k by (auto simp: kogmo_rtdb_obj_findmeta_byid_def)
  have "same_names (objmeta db) ((objmeta db)[k := advanced (objmeta db ! k)])"
    by (rule same_names_update [OF kl]) (simp_all add: advanced_def live_def)
  moreover have "map oid ((objmeta db)[k := advanced (objmeta db ! k)]) = map oid (objmeta db)"
    using kl by (simp add: map_update list_update_same_conv advanced_def)
  ultimately show ?thesis using D by simp
qed

lemma purge_same_names:
  assumes "dsa_frame_ok (h_dsa h)"
  shows "same_names (objmeta db) (objmeta (snd (kogmo_rtdb_objmeta_purge_objs h db)))"
  by (auto simp: purge_objs_objmeta [OF assms] same_names_def purged_def live_def)

lemma table_ok_map:
  assumes "map oid (objmeta db') = map oid (objmeta db)" "objmeta_free db' = objmeta_free db"
    "objmeta_oid_next db' = objmeta_oid_next db" "table_ok db"
  shows "table_ok db'"
proof -
  have l: "length (objmeta db') = length (objmeta db)" using assms(1) by (metis length_map)
  have n: "oid (objmeta db' ! k) = oid (objmeta db ! k)" if "k < length (objmeta db)" for k
    using assms(1) that l by (metis nth_map)
  have fs: "free_slots oid xs = length (filter (\<lambda>x. x = 0) (map oid xs))" for xs
    by (simp add: free_slots_def filter_map o_def)
  have "free_slots oid (objmeta db') = free_slots oid (objmeta db)" by (simp only: fs assms(1))
  moreover have "set (map oid (objmeta db')) = set (map oid (objmeta db))" using assms(1) by simp
  then have "oid ` set (objmeta db') = oid ` set (objmeta db)" by simp
  then have "(\<forall>m \<in> set (objmeta db'). P (oid m)) \<longleftrightarrow> (\<forall>m \<in> set (objmeta db). P (oid m))" for P
    by (metis (no_types, lifting) image_iff)
  from this [of "\<lambda>i. 0 \<le> i \<and> i < objmeta_oid_next db"]
  have "(\<forall>m \<in> set (objmeta db'). 0 \<le> oid m \<and> oid m < objmeta_oid_next db)" using assms(4) by (simp add: table_ok_def)
  moreover have "unique_keys oid (objmeta db')"
    using assms(4) l n by (auto simp: table_ok_def unique_keys_def)
  ultimately show ?thesis using assms l by (simp add: table_ok_def)
qed

section \<open>The state machine\<close>

text \<open>
  What processes may do to a database under the allocator \<open>d\<close>. No object keeps its memory when it is
  deleted (\<open>keep_alloc\<close>), sizes are such that the products of the code do not overflow, ids are left,
  and no insert is turned down for its name: these are the four cases in which the code loses the
  invariant.
\<close>

inductive db_step :: "dsa \<Rightarrow> rtdb \<Rightarrow> rtdb \<Rightarrow> bool" for d where
  inserts: "h_dsa h = d \<Longrightarrow> kogmo_rtdb_obj_insert h m db = (r, m', db') \<Longrightarrow> objmeta_oid_next db < 2 ^ 31 \<Longrightarrow>
    size_ok (insert_info h (fst (kogmo_rtdb_timestamp_now db)) m) \<Longrightarrow> \<not> keep_alloc (flags m) \<Longrightarrow>
    r \<noteq> Inl ERR_NOTUNIQ \<Longrightarrow> db_step d db db'"
| writes: "kogmo_rtdb_obj_writedata h i data db = (r, data', db') \<Longrightarrow> i \<noteq> 0 \<Longrightarrow> b_size data \<le> int (length data) \<Longrightarrow>
    time_ok (fst (kogmo_rtdb_timestamp_now db)) \<Longrightarrow> db_step d db db'"
| deletes: "h_dsa h = d \<Longrightarrow> kogmo_rtdb_obj_delete_imm fuel h m imm db = Some (r, m', db') \<Longrightarrow> oid m \<noteq> 0 \<Longrightarrow>
    clock_ok db \<Longrightarrow> db_step d db db'"
| purges: "h_dsa h = d \<Longrightarrow> db_step d db (snd (kogmo_rtdb_objmeta_purge_objs h db))"
| looks: "db_step d db (db\<lparr>ticks := t, ipc_log := l\<rparr>)"
| sets_time: "db_step d db (snd (kogmo_rtdb_timestamp_set ts db))"

text \<open>From the initialisation by the manager, in a segment of any content.\<close>

inductive db_reachable :: "dsa \<Rightarrow> (int \<Rightarrow> rtdb \<Rightarrow> int \<times> rtdb) \<Rightarrow> int \<Rightarrow> nat \<Rightarrow> rtdb \<Rightarrow> bool"
  for d dsa_init hsize n where
  db_start: "h_dsa h = d \<Longrightarrow>
    db_reachable d dsa_init hsize n (kogmo_rtdb_obj_local_init dsa_init h hsize (zero_rtdb n db))"
| db_next: "db_reachable d dsa_init hsize n db \<Longrightarrow> db_step d db db' \<Longrightarrow> db_reachable d dsa_init hsize n db'"

text \<open>What the initialisation of an allocator promises: nothing is handed out.\<close>

definition init_ok :: "(int \<Rightarrow> rtdb \<Rightarrow> int \<times> rtdb) \<Rightarrow> (block set \<Rightarrow> rtdb \<Rightarrow> bool) \<Rightarrow> int \<Rightarrow> bool" where
  "init_ok dsa_init I hsize \<longleftrightarrow> (\<forall>db. heap_size db = uint64 (int32 hsize) \<longrightarrow>
     I {} (snd (kogmo_rtdb_obj_mem_init dsa_init db)) \<and> same_meta db (snd (kogmo_rtdb_obj_mem_init dsa_init db)))"

context heap_allocator
begin

lemma local_init_ok:
  assumes h: "h_dsa h = d" and i: "init_ok dsa_init inv hsize" and n: "int n < 2 ^ 32"
  shows "database_ok inv (kogmo_rtdb_obj_local_init dsa_init h hsize (zero_rtdb n db))"
proof -
  let ?db0 = "(zero_rtdb n db)\<lparr>objmeta_oid_next := 1, default_history_interval := DEFAULT_HISTORY_INTERVAL,
      default_max_cycletime := DEFAULT_MAX_CYCLETIME, default_keep_deleted_interval := KEEP_DELETED_INTERVAL,
      heap_size := uint64 (int32 hsize), objmeta_free := uint32 (int (length (objmeta (zero_rtdb n db))))\<rparr>"
  let ?db1 = "snd (kogmo_rtdb_obj_mem_init dsa_init ?db0)"
  have I: "inv {} ?db1" "same_meta ?db0 ?db1" using i by (simp_all add: init_ok_def)
  obtain p db2 where al: "kogmo_rtdb_obj_mem_alloc h 2 ?db1 = (p, db2)" by fastforce
  have e: "kogmo_rtdb_obj_local_init dsa_init h hsize (zero_rtdb n db) = db2"
    using al by (simp add: kogmo_rtdb_obj_local_init_def Let_def)
  have "same_meta ?db1 db2" using mem_alloc_frame [OF _ al] h frame_ok by simp
  note S = same_metaD [OF same_meta_trans [OF I(2) this]]
  have om: "objmeta db2 = replicate n zero_info" "objmeta_oid_next db2 = 1" "objmeta_free db2 = int n"
    using n by (simp_all add: S zero_rtdb_def)
  have z: "\<not> has_block zero_info" "\<not> live zero_info" "oid zero_info = 0" "buffer_idx zero_info = 0"
    "\<not> keep_alloc (flags zero_info)"
    by (simp_all add: has_block_def zero_info_def live_def no_flags_def)
  have "table_ok db2" using n z by (simp add: table_ok_def om unique_keys_def free_slots_def)
  moreover have "names_ok (objmeta db2)" using z by (simp add: om names_ok_def)
  moreover have "\<exists>B. inv B db2"
  proof (cases "p < 0")
    case True
    from alloc_fail [OF I(1) h _ al this] show ?thesis by (auto simp: in_int32_def)
  next
    case False
    from alloc_ok [OF I(1) h _ al] False show ?thesis by (auto simp: in_int32_def)
  qed
  then have "data_ok inv db2" using z by (auto simp: data_ok_def heap_ok_def blocks_in_def om)
  moreover have "no_keep db2" using z by (simp add: no_keep_def om)
  ultimately show ?thesis unfolding e by (simp add: database_ok_def)
qed

lemma db_step_ok:
  assumes "db_step d db db'" "database_ok inv db"
  shows "database_ok inv db'"
  using assms
proof (induction rule: db_step.induct)
  case (inserts h m db r m' db')
  have d: "dsa_frame_ok (h_dsa h)" using inserts(1) frame_ok by simp
  have ok: "table_ok db" "names_ok (objmeta db)" "data_ok inv db" "no_keep db"
    using inserts by (simp_all add: database_ok_def)
  have "no_keep db'"
  proof (cases r)
    case (Inr i)
    with inserts(2) have w: "kogmo_rtdb_obj_insert h m db = (Inr i, m', db')" by simp
    from ok(1) inserts(3) d w show ?thesis
    proof (rule insert_ok)
      fix k b
      assume k: "objmeta db' = (objmeta db)[k := m']"
        "m' = commit_info i ((insert_info h (fst (kogmo_rtdb_timestamp_now db)) m)\<lparr>buffer_idx := b\<rparr>)"
      have "flags m' = flags m" by (simp add: k(2))
      moreover have "set (objmeta db') \<subseteq> insert m' (set (objmeta db))"
        unfolding k(1) by (rule set_update_subset_insert)
      ultimately show ?thesis using ok(4) inserts(5) by (auto simp: no_keep_def)
    qed
  next
    case (Inl e)
    with inserts(2) d show ?thesis
    proof (cases rule: insert_cases)
      case (commit b m1 db1 i)
      have "1 \<le> objmeta_oid_next db1" "objmeta_oid_next db1 < 2 ^ 31"
        using commit(3) ok(1) inserts(3) by (simp_all add: same_table_def table_ok_def)
      from insert_commit_ok [OF commit(1) this] Inl show ?thesis by simp
    qed (use ok(4) Inl inserts(6) in \<open>simp_all add: same_table_def no_keep_def\<close>)
  qed
  with insert_table_ok [OF ok(1) inserts(3) d inserts(2,6)] insert_names_ok [OF ok(1) inserts(3) d ok(2) inserts(2)]
    insert_data_ok [OF ok(1) inserts(3,1) ok(3) inserts(4) ok(4) inserts(2,6)]
  show ?case by (simp add: database_ok_def)
next
  case (writes h i data db r data' db')
  note W = write_same_names [OF writes(1,3)]
  with writes writedata_data_ok [OF _ writes(2,1,4,3)] table_ok_map [of db' db]
    same_names_ok [of "objmeta db" "objmeta db'"] same_names_keep [of db db']
  show ?case by (simp add: database_ok_def)
next
  case (deletes h fuel m imm db r m' db')
  have d: "dsa_frame_ok (h_dsa h)" using deletes(1) frame_ok by simp
  have "same_names (objmeta db) (objmeta db')"
    using del_keeps.delete_rel [OF deletes(2,3)] d deletes(4) keeps_same_names by blast
  with deletes del_data.delete_rel [OF deletes(2,3)] del_table.delete_rel [OF deletes(2,3)] d
    same_names_ok same_names_keep show ?case by (auto simp: database_ok_def)
next
  case (purges h db)
  have d: "dsa_frame_ok (h_dsa h)" using purges(1) frame_ok by simp
  with purges purge_same_names [OF d, of db] purge_objs_data_ok [OF purges(1)] purge_objs_table_ok [OF d]
    same_names_ok same_names_keep show ?case by (auto simp: database_ok_def)
next
  case (looks db l t)
  then show ?case using data_ok_cong [of db "db\<lparr>ticks := t, ipc_log := l\<rparr>"]
    by (simp add: database_ok_def table_ok_def no_keep_def)
next
  case (sets_time db ts)
  then show ?case using data_ok_cong [of db "snd (kogmo_rtdb_timestamp_set ts db)"]
    by (simp add: database_ok_def table_ok_def no_keep_def kogmo_rtdb_timestamp_set_def)
qed

lemma db_reachable_ok:
  assumes "db_reachable d dsa_init hsize n db" "init_ok dsa_init inv hsize" "int n < 2 ^ 32"
  shows "database_ok inv db"
  using assms
proof (induction rule: db_reachable.induct)
  case (db_start h db) then show ?case using local_init_ok by blast
next
  case (db_next db db') then show ?case using db_step_ok by blast
qed

end

lemma static_init_ok: "0 \<le> hsize \<Longrightarrow> hsize < 2 ^ 31 \<Longrightarrow> init_ok static_init static_inv hsize"
  unfolding init_ok_def
proof (intro allI impI conjI)
  fix db :: rtdb
  assume s: "0 \<le> hsize" "hsize < 2 ^ 31" "heap_size db = uint64 (int32 hsize)"
  then have "int32 hsize = hsize" "uint64 hsize = hsize" by (simp_all add: in_int32_def)
  then have "heap_size db = hsize" using s by simp
  then show "static_inv {} (snd (kogmo_rtdb_obj_mem_init static_init db))"
    using static_init_inv [of db] s by (metis prod.collapse)
  show "same_meta db (snd (kogmo_rtdb_obj_mem_init static_init db))"
    by (cases db) (simp add: kogmo_rtdb_obj_mem_init_def static_init_def same_meta_def Let_def)
qed

text \<open>An allocator under which one block is set aside for good.\<close>

definition reserved :: "block \<Rightarrow> (block set \<Rightarrow> rtdb \<Rightarrow> bool) \<Rightarrow> block set \<Rightarrow> rtdb \<Rightarrow> bool" where
  "reserved b I B db \<longleftrightarrow> I (insert b B) db \<and> b \<notin> B"

context heap_allocator
begin

lemma reserved_allocator: "heap_allocator d (reserved b inv)"
proof
  fix B db n p db' and h :: handle
  assume r: "reserved b inv B db" "h_dsa h = d" "in_int32 n" "kogmo_rtdb_obj_mem_alloc h n db = (p, db')"
  have i: "inv (insert b B) db" "b \<notin> B" using r(1) by (simp_all add: reserved_def)
  { assume "p < 0"
    from alloc_fail [OF i(1) r(2-4) this] i(2)
    show "reserved b inv B db' \<and> (\<forall>b \<in> B. \<forall>x \<in> block_bytes b. heap db' x = heap db x)" by (simp add: reserved_def) }
  { assume "0 \<le> p"
    note K = alloc_ok [OF i(1) r(2-4) this]
    have "block_bytes (p, n) \<noteq> {}" using inv_range [of "insert (p, n) (insert b B)" db' "(p, n)"] K
      by (simp add: block_bytes_def)
    then have "b \<noteq> (p, n)" using K by auto
    with K i(2) show "reserved b inv (insert (p, n) B) db' \<and> (\<forall>b \<in> B. block_bytes b \<inter> block_bytes (p, n) = {})
        \<and> (\<forall>b \<in> B. \<forall>x \<in> block_bytes b. heap db' x = heap db x)
        \<and> ldb (heap db') p (nat n) = replicate (nat n) 0"
      by (simp add: reserved_def insert_commute) }
  next
  fix B db p n and h :: handle
  assume r: "reserved b inv B db" "h_dsa h = d" "(p, n) \<in> B"
  have i: "inv (insert b B) db" "b \<notin> B" "(p, n) \<in> insert b B" using r by (simp_all add: reserved_def)
  have e: "insert b B - {(p, n)} = insert b (B - {(p, n)})" using i(2) r(3) by auto
  from free_ok [OF i(1) r(2) i(3)] i(2) show "reserved b inv (B - {(p, n)}) (kogmo_rtdb_obj_mem_free h p n db)
        \<and> (\<forall>b \<in> B - {(p, n)}. \<forall>x \<in> block_bytes b. heap (kogmo_rtdb_obj_mem_free h p n db) x = heap db x)"
    by (simp add: reserved_def e)
  next
  fix B and db db' :: rtdb
  assume r: "reserved b inv B db" and f: "heap_free db' = heap_free db" "heap_used db' = heap_used db"
    "heap_size db' = heap_size db" "\<forall>x. (\<forall>b \<in> B. x \<notin> block_bytes b) \<longrightarrow> heap db' x = heap db x"
  then show "reserved b inv B db'" using inv_frame [of "insert b B" db db'] by (simp add: reserved_def)
  next
  fix B db
  assume "reserved b inv B db"
  then have "disjoint_blocks (insert b B)" using inv_disjoint [of "insert b B" db] by (simp add: reserved_def)
  then show "disjoint_blocks B" by (rule disjoint_blocks_subset) blast
  next
  fix B db c
  assume "reserved b inv B db" "c \<in> B"
  then show "0 \<le> fst c \<and> 0 < snd c \<and> fst c + snd c < 2 ^ 31"
    using inv_range [of "insert b B" db c] by (simp add: reserved_def)
qed

end

interpretation static_reserved: heap_allocator static_dsa "reserved (0, 2) static_inv"
  by (rule static.reserved_allocator)

section \<open>The properties\<close>



lemma static_local_init:
  assumes h: "h_dsa h = static_dsa" and s: "2 \<le> hsize" "hsize < 2 ^ 31"
  shows "static_inv {(0, 2)} (kogmo_rtdb_obj_local_init static_init h hsize (zero_rtdb n db))
    \<and> objmeta (kogmo_rtdb_obj_local_init static_init h hsize (zero_rtdb n db)) = replicate n zero_info"
proof -
  have e: "int32 hsize = hsize" "uint64 hsize = hsize" using s by (simp_all add: in_int32_def)
  show ?thesis
    using s by (simp add: kogmo_rtdb_obj_local_init_def kogmo_rtdb_obj_mem_init_def static_init_def Let_def e
        kogmo_rtdb_obj_mem_alloc_def h static_dsa_def static_alloc_def zero_rtdb_def static_inv_def
        disjoint_blocks_def ipc_defs kogmo_rtdb_heap_lock_def kogmo_rtdb_heap_unlock_def emit_def)
qed

text \<open>
  No object's data is ever at index 0 of the heap, the index that means "no data": with the
  static allocator the two bytes the initialisation allocates stay set aside for good.
\<close>
theorem no_data_at_zero:
  assumes "db_reachable static_dsa static_init hsize n db" "2 \<le> hsize" "hsize < 2 ^ 31" "int n < 2 ^ 32"
  shows "\<forall>k < length (objmeta db). has_block (objmeta db ! k) \<longrightarrow> 2 \<le> buffer_idx (objmeta db ! k)"
proof -
  have "database_ok (reserved (0, 2) static_inv) db" using assms
  proof (induction rule: db_reachable.induct)
    case (db_start h db)
    let ?db = "kogmo_rtdb_obj_local_init static_init h hsize (zero_rtdb n db)"
    have "database_ok static_inv ?db"
      using static.local_init_ok [OF db_start(1) static_init_ok] db_start by simp
    moreover have "reserved (0, 2) static_inv {} ?db" using static_local_init [OF db_start(1-3)] by (simp add: reserved_def)
    moreover have "\<not> has_block zero_info" "objmeta ?db = replicate n zero_info" "buffer_idx zero_info = 0"
      using static_local_init [OF db_start(1-3)] by (simp_all add: has_block_def zero_info_def)
    ultimately show ?case by (auto simp: database_ok_def data_ok_def heap_ok_def blocks_in_def)
  next
    case (db_next db db') then show ?case using static_reserved.db_step_ok by blast
  qed
  then obtain B where B: "static_inv (insert (0, 2) B) db" "(0, 2) \<notin> B" "blocks_in B (objmeta db)"
    by (auto simp: database_ok_def data_ok_def heap_ok_def reserved_def)
  have "2 \<le> fst b" if "b \<in> B" for b
  proof -
    have "b \<noteq> (0, 2)" using B(2) that by blast
    then have "block_bytes b \<inter> block_bytes (0, 2) = {}" "0 \<le> fst b" "0 < snd b"
      using B(1) that by (simp_all add: static_inv_def disjoint_blocks_def)
    then show ?thesis by (auto simp: block_bytes_def)
  qed
  then show ?thesis using B(3) by (force simp: blocks_in_def obj_block_def)
qed

definition ex_fresh :: rtdb where
  "ex_fresh = kogmo_rtdb_obj_local_init static_init ex_h 65536 (zero_rtdb 4 ex_db)"

definition ex_first :: obj_info where
  "ex_first = ex_obj\<lparr>oid := 0, parent_oid := 0, history_interval := 1, min_cycletime := 1, max_cycletime := 1\<rparr>"

lemma ex_fresh_insert:
  "size_ok (insert_info ex_h (fst (kogmo_rtdb_timestamp_now ex_fresh)) ex_first)"
  "fst (kogmo_rtdb_obj_insert ex_h ex_first ex_fresh) = Inr 1" "objmeta_oid_next ex_fresh = 1"
  "let m = objmeta (snd (snd (kogmo_rtdb_obj_insert ex_h ex_first ex_fresh))) ! 0 in oid m = 1 \<and> size_max m = 32"
  "length (objmeta (snd (snd (kogmo_rtdb_obj_insert ex_h ex_first ex_fresh)))) = 4"
  unfolding size_ok_def base_size_def by code_simp+

theorem no_data_at_zero_witness:
  "2 \<le> buffer_idx (objmeta (snd (snd (kogmo_rtdb_obj_insert ex_h ex_first ex_fresh))) ! 0)"
proof -
  obtain m' db' where i: "kogmo_rtdb_obj_insert ex_h ex_first ex_fresh = (Inr 1, m', db')"
    using ex_fresh_insert(2) by (metis prod.collapse)
  have s: "db_step static_dsa ex_fresh db'"
    by (rule inserts [OF _ i]) (use ex_fresh_insert in \<open>simp_all add: ex_first_def\<close>)
  have "db_reachable static_dsa static_init 65536 4 ex_fresh" unfolding ex_fresh_def by (rule db_start) simp
  from no_data_at_zero [OF db_next [OF this s], THEN spec, of 0] ex_fresh_insert(4,5) i show ?thesis
    by (cases "objmeta db' = []") (simp_all add: has_block_def Let_def)
qed

end
