(* ===== verification/Connection_Start.thy ===== *)
theory Connection_Start
  imports Connection_Props Database_Invariant Housekeeping_Stats
begin

text \<open>
  What a process finds and leaves in the database when it connects to a running manager, and what
  it publishes at the end of a cycle.
\<close>

section \<open>Inserting and writing\<close>

lemma insert_times:
  assumes "kogmo_rtdb_obj_insert h m db = (Inr i, m', db')" "dsa_frame_ok (h_dsa h)"
  shows "times_ok db' = times_ok db"
  using assms
proof (cases rule: insert_cases)
  case (commit b m1 db1 k)
  then have "clock db' = clock db1 \<and> simmode db' = simmode db1 \<and> sim_ts db' = sim_ts db1"
    by (auto simp: insert_commit_def Let_def ipc_defs split: if_splits)
  with commit(3) show ?thesis by (simp add: times_ok_def same_table_def)
qed simp_all

lemma find_new:
  assumes "table_ok db" "k < length (objmeta db)" "objmeta db' = (objmeta db)[k := m']" "oid m' = objmeta_oid_next db"
  shows "kogmo_rtdb_obj_findmeta_byid (oid m') db' = Some k"
proof -
  have "oid (objmeta db ! j) \<noteq> oid m'" if "j < length (objmeta db)" for j
    using assms(1,4) nth_mem [OF that] by (auto simp: table_ok_def)
  then show ?thesis
    using assms(2,3) by (auto simp: kogmo_rtdb_obj_findmeta_byid_def scan_first_Some)
qed

lemma insert_result_oid:
  assumes "kogmo_rtdb_obj_insert h m db = (Inr i, m', db')" "dsa_frame_ok (h_dsa h)"
  shows "i = oid m'"
  using assms by (cases rule: insert_cases) (auto simp: insert_commit_def Let_def split: if_splits)

lemma find_by_oids:
  assumes "map oid (objmeta db') = map oid (objmeta db)"
  shows "kogmo_rtdb_obj_findmeta_byid i db' = kogmo_rtdb_obj_findmeta_byid i db"
proof -
  have "scan_first (\<lambda>x. x = i) (map oid xs) = scan_first (\<lambda>m. oid m = i) xs" for xs :: "obj_info list"
    by (induction xs) simp_all
  with assms show ?thesis unfolding kogmo_rtdb_obj_findmeta_byid_def by metis
qed

text \<open>The search for an object leaves the database as it is, the log of calls aside.\<close>

lemma search_ok:
  assumes "kogmo_rtdb_obj_searchinfo h nm ot parent pr ts l n db = (r, l', db')"
  obtains x where "db' = db\<lparr>ipc_log := x\<rparr>"
  using search_same_data [OF assms [unfolded kogmo_rtdb_obj_searchinfo_def]] by blast

section \<open>The process object\<close>

lemma length_process_data [simp]: "C3_PROCESS_size \<le> length bs \<Longrightarrow> length (process_data e ci p q bs) = length bs"
  by (simp add: process_data_def set_word_def set_size_def set_data_ts_def C3_PROCESS_size_def)

lemma process_data_fields:
  assumes "C3_PROCESS_size \<le> length bs"
  shows "get 24 4 (process_data e ci p q bs) = enc 4 p" "get 28 4 (process_data e ci p q bs) = enc 4 (pid q)"
    "get 36 4 (process_data e ci p q bs) = enc 4 (uint (p_flags q))" "get 40 4 (process_data e ci p q bs) = enc 4 PROCSTATUS_UNKNOWN"
    "b_size (process_data e ci p q bs) = int C3_PROCESS_size"
  using assms by (simp_all add: process_data_def set_word_def set_size_def set_data_ts_def C3_PROCESS_size_def b_size_def
      sdec_enc_int32 int32_id in_int32_def)

definition published :: "db_conn \<Rightarrow> int \<Rightarrow> byte list \<Rightarrow> bool" where
  "published c p bs \<longleftrightarrow> pr_proc_oid bs = p \<and> pr_pid bs = uint32 (pid (this_process (ipc_h c)))
     \<and> pr_flags bs = p_flags (this_process (ipc_h c)) \<and> pr_status bs = PROCSTATUS_UNKNOWN \<and> b_committed_proc bs = p"

text \<open>The size of a process object, under the settings of this process, does not overflow.\<close>

definition process_size_ok :: "db_conn \<Rightarrow> connect_info \<Rightarrow> rtdb \<Rightarrow> bool" where
  "process_size_ok c ci db \<longleftrightarrow> (\<forall>ts q. size_ok (insert_info (db_handle c) ts (process_meta (db_handle c) ci q db)))"

lemma process_meta_fields [simp]:
  "otype (process_meta h ci q db) = OBJTYPE_C3_PROCESS" "name (process_meta h ci q db) = strncpy NAME_MAXLEN (procname ci)"
  "parent_oid (process_meta h ci q db) = q" "flags (process_meta h ci q db) = no_flags"
  "size_max (process_meta h ci q db) = int C3_PROCESS_size"
  by (simp_all add: process_meta_def kogmo_rtdb_obj_initinfo_def zero_info_def)

lemma db_handle_simps [simp]:
  "h_proc_oid (db_handle c) = proc_oid (this_process (ipc_h c))" "h_flags (db_handle c) = p_flags (this_process (ipc_h c))"
  "h_dsa (db_handle c) = h_dsa (lib c)" "db_handle (c\<lparr>procobj := bs\<rparr>) = db_handle c"
  by (simp_all add: db_handle_def)

lemma db_handle_procobjmeta:
  "db_handle (c\<lparr>procobjmeta := m\<rparr>) = (db_handle c)\<lparr>h_procobj_cycletime := min_cycletime m\<rparr>"
  by (simp add: db_handle_def)

lemma insert_info_cycletime: "insert_info (h\<lparr>h_procobj_cycletime := x\<rparr>) ts m = insert_info h ts m"
proof -
  have "insert_init (h\<lparr>h_procobj_cycletime := x\<rparr>) ts m = insert_init h ts m" for m by (simp add: insert_init_def)
  moreover have "apply_minhist (h\<lparr>h_procobj_cycletime := x\<rparr>) m = apply_minhist h m"
    "apply_maxhist (h\<lparr>h_procobj_cycletime := x\<rparr>) m = apply_maxhist h m" for m
    by (cases "h_minhist h", simp_all add: apply_minhist_def split_def) (cases "h_maxhist h", simp_all add: apply_maxhist_def split_def)
  ultimately show ?thesis by (simp only: insert_info_def)
qed

lemma process_meta_log: "process_meta h ci q (db\<lparr>ipc_log := x\<rparr>) = process_meta h ci q db"
  by (simp add: process_meta_def kogmo_rtdb_obj_initinfo_def)

text \<open>The steps of a registration that succeeds.\<close>

lemma register_steps:
  assumes "register_process e ci p c db = (Inr c', db')" and d: "dsa_frame_ok (h_dsa (lib c))"
  obtains q x m' db2 v bs where
    "fst (kogmo_rtdb_obj_searchinfo (db_handle c) (Some ''processes'') OBJTYPE_C3_PROCESSLIST 0 0 0 None 1 db) = Inr q"
    "kogmo_rtdb_obj_insert (db_handle (c\<lparr>procobjmeta := process_meta (db_handle c) ci q (db\<lparr>ipc_log := x\<rparr>)\<rparr>))
       (process_meta (db_handle c) ci q (db\<lparr>ipc_log := x\<rparr>)) (db\<lparr>ipc_log := x\<rparr>) = (Inr (oid m'), m', db2)"
    "kogmo_rtdb_obj_writedata (db_handle (c\<lparr>procobjmeta := m'\<rparr>)) (oid m')
       (process_data e ci p (this_process (ipc_h c)) (set_word 24 p (procobj c))) db2 = (Inr v, bs, db')"
    "c' = c\<lparr>procobjmeta := m', procobj := bs\<rparr>"
proof -
  obtain r l db1 where S: "kogmo_rtdb_obj_searchinfo (db_handle c) (Some ''processes'') OBJTYPE_C3_PROCESSLIST 0 0 0 None 1 db
      = (r, l, db1)" by (metis prod_cases3)
  obtain x where x: "db1 = db\<lparr>ipc_log := x\<rparr>" using search_ok [OF S] .
  obtain q where q: "r = Inr q" using assms S by (cases r) (simp_all add: register_process_def)
  let ?m = "process_meta (db_handle c) ci q db1"
  obtain i m' db2 where I: "kogmo_rtdb_obj_insert (db_handle (c\<lparr>procobjmeta := ?m\<rparr>)) ?m db1 = (Inr i, m', db2)"
    using assms(1) by (cases "kogmo_rtdb_obj_insert (db_handle (c\<lparr>procobjmeta := ?m\<rparr>)) ?m db1")
      (auto simp: register_process_def Let_def S q split: sum.splits)
  have "i = oid m'" using insert_result_oid [OF I] d by simp
  let ?d = "process_data e ci p (this_process (ipc_h c)) (set_word 24 p (procobj c))"
  obtain r3 bs db3 where W: "kogmo_rtdb_obj_writedata (db_handle (c\<lparr>procobjmeta := m'\<rparr>)) (oid m') ?d db2 = (r3, bs, db3)"
    by (metis prod_cases3)
  have f: "(case r3 of Inl err \<Rightarrow> (Inl err, db3) | Inr _ \<Rightarrow> (Inr (c\<lparr>procobjmeta := m', procobj := bs\<rparr>), db3)) = (Inr c', db')"
    using assms(1) by (simp add: register_process_def Let_def S q I W split: sum.splits)
  then obtain v where v: "r3 = Inr v" by (cases r3) simp_all
  with f v W I \<open>i = oid m'\<close> x S q show thesis by (intro that [of q x m' db2 v bs]) simp_all
qed

lemma word_of_uint32: "word_of_int (uint32 (uint w)) = (w :: 32 word)"
proof -
  have "uint32 (uint w) = uint w" using uint_ge_0 [of w] uint_lt2p [of w] by (intro uint32_id) simp_all
  then show ?thesis by simp
qed

text \<open>The fields of the entry a commit puts at the front.\<close>

lemma committed_get:
  assumes "kogmo_rtdb_obj_writedata h i data db = (Inr v, data', db')"
    and "kogmo_rtdb_obj_findmeta_byid i db = Some k" "obj_ok db k" "times_ok db"
    and l: "b_size data = int (length data)"
  shows "obj_history db' k \<noteq> []" "base_size \<le> off \<Longrightarrow> off + n \<le> length data \<Longrightarrow>
      get off n (hd (obj_history db' k)) = get off n data"
    "in_int32 (h_proc_oid h) \<Longrightarrow> b_committed_proc (hd (obj_history db' k)) = h_proc_oid h"
    "length (hd (obj_history db' k)) = length data"
proof -
  note t = times_ok_now [OF assms(4)] and l' = l [THEN eq_refl]
  note H = writedata_history [OF assms(1-3) t l'] and O = writedata_ok [OF assms(1,2)]
  have cap: "0 < nat (history_size (objmeta db ! k))"
    using assms(3) ring_okD(2) [of "objmeta db ! k"] by (simp add: obj_ok_def)
  then have hd: "obj_history db' k \<noteq> []" "hd (obj_history db' k)
      = committed (commit_time db (objmeta db ! k)) (commit_bytes h data)"
    using H(1) by (cases "nat (history_size (objmeta db ! k))"; simp)+
  have b: "base_size \<le> length data" using O(5) l by simp
  note C = commit_bytes_fields [OF O(5) l', of h]
  have lb: "base_size \<le> length (commit_bytes h data)" using C(1) O(5) by simp
  have t64: "in_int64 (commit_time db (objmeta db ! k))" using commit_time_ok [OF t, of "objmeta db ! k"] by (simp add: in_int64_def)
  show "obj_history db' k \<noteq> []" by (rule hd(1))
  show "get off n (hd (obj_history db' k)) = get off n data" if "base_size \<le> off" "off + n \<le> length data"
    unfolding hd(2) by (rule get_committed [OF that l b])
  show "b_committed_proc (hd (obj_history db' k)) = h_proc_oid h" if "in_int32 (h_proc_oid h)"
    unfolding hd(2) using committed_fields [OF lb t64] C(5) [OF that] by simp
  show "length (hd (obj_history db' k)) = length data" unfolding hd(2) using C(1) lb l by simp
qed

context heap_allocator
begin

lemma register_effect:
  assumes r: "register_process e ci p c db = (Inr c', db')"
    and ok: "database_ok inv db" and d: "h_dsa (lib c) = d" and n: "objmeta_oid_next db < 2 ^ 31"
    and z: "process_size_ok c ci db" and t: "times_ok db" and l: "length (procobj c) = C3_PROCESS_size"
    and p: "p = proc_oid (this_process (ipc_h c))" "in_int32 p"
  shows "database_ok inv db' \<and> ipc_h c' = ipc_h c \<and> lib c' = lib c \<and>
    (\<exists>k < length (objmeta db'). kogmo_rtdb_obj_findmeta_byid (oid (procobjmeta c')) db' = Some k
      \<and> otype (objmeta db' ! k) = OBJTYPE_C3_PROCESS \<and> created_proc (objmeta db' ! k) = p
      \<and> deleted_ts (objmeta db' ! k) = 0
      \<and> name (objmeta db' ! k) = (strncpy NAME_MAXLEN (procname ci))[NAME_MAXLEN - 1 := NUL]
      \<and> obj_history db' k \<noteq> [] \<and> published c p (hd (obj_history db' k)))"
proof -
  have df: "dsa_frame_ok (h_dsa (lib c))" using d frame_ok by simp
  from r df obtain q x m' db2 v bs where
    I: "kogmo_rtdb_obj_insert (db_handle (c\<lparr>procobjmeta := process_meta (db_handle c) ci q (db\<lparr>ipc_log := x\<rparr>)\<rparr>))
       (process_meta (db_handle c) ci q (db\<lparr>ipc_log := x\<rparr>)) (db\<lparr>ipc_log := x\<rparr>) = (Inr (oid m'), m', db2)"
    and W: "kogmo_rtdb_obj_writedata (db_handle (c\<lparr>procobjmeta := m'\<rparr>)) (oid m')
       (process_data e ci p (this_process (ipc_h c)) (set_word 24 p (procobj c))) db2 = (Inr v, bs, db')"
    and c': "c' = c\<lparr>procobjmeta := m', procobj := bs\<rparr>" by (rule register_steps)
  let ?h = "db_handle (c\<lparr>procobjmeta := process_meta (db_handle c) ci q (db\<lparr>ipc_log := x\<rparr>)\<rparr>)"
  let ?db1 = "db\<lparr>ipc_log := x\<rparr>" and ?d = "process_data e ci p (this_process (ipc_h c)) (set_word 24 p (procobj c))"
  let ?m = "process_meta (db_handle c) ci q ?db1"
  have s1: "db_step d db ?db1" using looks [of d db x "ticks db"] by simp
  have ok1: "database_ok inv ?db1" by (rule db_step_ok [OF s1 ok])
  then have t1: "table_ok ?db1" by (simp add: database_ok_def)
  have ii: "insert_info ?h ts ?m = insert_info (db_handle c) ts (process_meta (db_handle c) ci q db)" for ts
    by (simp add: db_handle_procobjmeta insert_info_cycletime process_meta_log)
  have s2: "db_step d ?db1 db2"
    by (rule inserts [OF _ I]) (use d n z in \<open>simp_all add: ii process_size_ok_def no_flags_def\<close>)
  have ok2: "database_ok inv db2" by (rule db_step_ok [OF s2 ok1])
  have dh: "dsa_frame_ok (h_dsa ?h)" using df by simp
  have nx: "objmeta_oid_next ?db1 < 2 ^ 31" using n by simp
  from t1 nx dh I obtain k b where k: "oid m' = objmeta_oid_next db" "k < length (objmeta db)"
      "objmeta db2 = (objmeta db)[k := m']"
      "m' = commit_info (oid m') ((insert_info ?h (fst (kogmo_rtdb_timestamp_now ?db1)) ?m)\<lparr>buffer_idx := b\<rparr>)"
    by (rule insert_ok) (auto simp del: commit_info_fields)
  have f2: "kogmo_rtdb_obj_findmeta_byid (oid m') db2 = Some k"
    by (rule find_new [of db]) (use k t1 in \<open>simp_all add: table_ok_def\<close>)
  have mf: "otype m' = OBJTYPE_C3_PROCESS" "created_proc m' = p" "deleted_ts m' = 0"
    "name m' = (strncpy NAME_MAXLEN (procname ci))[NAME_MAXLEN - 1 := NUL]"
    by (subst k(4); simp add: p(1))+
  have o0: "oid m' \<noteq> 0" using k(1) t1 by (simp add: table_ok_def)
  have "buffer_idx (objmeta db2 ! k) \<noteq> 0" using writedata_ok(2) [OF W f2] .
  then have "has_block (objmeta db2 ! k)"
    using ok2 o0 k by (auto simp: database_ok_def data_ok_def heap_ok_def blocks_in_def has_block_def)
  then have obj: "obj_ok db2 k" using data_ok_obj [of inv db2 k] ok2 k by (simp add: database_ok_def)
  have t2: "times_ok db2" using insert_times [OF I dh] t by (simp add: times_ok_def)
  have ld: "length ?d = C3_PROCESS_size" "b_size ?d = int C3_PROCESS_size"
    using l process_data_fields(5) [of "set_word 24 p (procobj c)" e ci p] by (simp_all add: set_word_def C3_PROCESS_size_def)
  have s3: "db_step d db2 db'" by (rule writes [OF W o0]) (use ld times_ok_now [OF t2] in simp_all)
  have ok3: "database_ok inv db'" by (rule db_step_ok [OF s3 ok2])
  have l3: "b_size ?d = int (length ?d)" using ld by simp
  note C = committed_get [OF W f2 obj t2 l3]
  have lw: "C3_PROCESS_size \<le> length (set_word 24 p (procobj c))" using l by (simp add: set_word_def C3_PROCESS_size_def)
  have pub: "published c p (hd (obj_history db' k))"
    unfolding published_def pr_proc_oid_def pr_pid_def pr_flags_def pr_status_def
    using C(2) C(3) process_data_fields [OF lw, of e ci p "this_process (ipc_h c)"] ld p
    by (simp add: C3_PROCESS_size_def base_size_def sdec_enc_int32 udec_enc_uint32 word_of_uint32 int32_id PROCSTATUS_UNKNOWN_def)
  have bl: "base_size \<le> length ?d" using ld by (simp add: C3_PROCESS_size_def base_size_def)
  have "objmeta db' = (objmeta db2)[k := advanced (objmeta db2 ! k)]" by (rule writedata_db(1) [OF W f2 bl])
  then have m3: "objmeta db' ! k = advanced m'" "length (objmeta db') = length (objmeta db)" using k by simp_all
  have f3: "kogmo_rtdb_obj_findmeta_byid (oid m') db' = Some k"
    using f2 write_same_names [OF W] ld find_by_oids [of db' db2] by simp
  show ?thesis
    using ok3 f3 mf m3 k(2) C(1) pub by (auto simp: c' advanced_def)
qed

end

section \<open>A client connects\<close>

lemma client_ipc_connect:
  assumes c: "kogmo_rtdb_ipc_connect e ih host nm cyc fl dsize s = (Some (Returned (Inr (p, n, ih'))), s')"
    and m: "\<not> has_flag (process_flags fl) FLAG_MANAGER"
  obtains x where "local_data s' = (local_data s)\<lparr>ipc_log := x\<rparr>" "p = proc_oid (this_process ih')"
    "p_flags (this_process ih') = process_flags fl" "in_int32 p" "length (proc s') = length (proc s)"
proof -
  let ?ih = "start_handle e host nm cyc fl ih"
  have cc: "connect_client e ?ih s = (Some (Returned (Inr (p, n, ih'))), s')"
    using c m by (rule connect_cases) simp_all
  from cc obtain q where pe: "proc_enter (this_process ?ih) s = (q, s')"
    and r: "Some (Returned (Inr (p, n, ih'))) = Some (case q of None \<Rightarrow> on_error (p_flags (this_process ?ih)) ERR_OUTOFOBJ
         | Some (i, p') \<Rightarrow> Returned (Inr (proc_oid p', data_size s, client_handle e s i p' ?ih)))"
    by (cases rule: connect_client_cases) (simp, blast)
  from r obtain i p' where q: "q = Some (i, p')" "p = proc_oid p'" "ih' = client_handle e s i p' ?ih"
    by (cases q) (auto dest: sym simp: on_error_fails)
  from pe q(1) have p': "p' = (this_process ?ih)\<lparr>proc_oid := int32 (proc_oid_next s)\<rparr>" "length (proc s') = length (proc s)"
    by (auto elim: proc_enter_cases)
  obtain x where "local_data s' = (local_data s)\<lparr>ipc_log := x\<rparr>"
    using pe q(1) by (force simp: proc_enter_def shm_emit_def emit_def Let_def split: option.splits)
  then show thesis by (rule that) (use q p' in \<open>simp_all add: client_handle_def\<close>)
qed

lemma connect_client_steps:
  assumes c: "kogmo_rtdb_connect e ci c s = (Some (Returned (Inr (p, c'))), s')"
    and m: "\<not> has_flag (process_flags (ci_flags ci)) FLAG_MANAGER"
  obtains host ih n s1 db where
    "kogmo_rtdb_ipc_connect (ce_ipc e) (ipc_h c) host (procname ci) (ci_cycletime (connect_defaults e ci)) (ci_flags ci)
       (wanted_heap e) s = (Some (Returned (Inr (p, n, ih))), s1)"
    "register_process e (connect_defaults e ci) p (c\<lparr>ipc_h := ih, attached := True, rxtrace := False\<rparr>) (local_data s1) = (Inr c', db)"
    "s' = s1\<lparr>local_data := db\<rparr>"
proof -
  let ?ci = "connect_defaults e ci"
  have ci: "procname ?ci = procname ci" "ci_flags ?ci = ci_flags ci" by (simp_all add: connect_defaults_def Let_def)
  obtain host where h: "local_dbhost (dbhost ?ci) = Inr host"
    using c by (cases "local_dbhost (dbhost ?ci)") (simp_all add: kogmo_rtdb_connect_def Let_def on_error_fails split: if_splits)
  let ?k = "kogmo_rtdb_ipc_connect (ce_ipc e) (ipc_h c) host (procname ci) (ci_cycletime ?ci) (ci_flags ci) (wanted_heap e) s"
  from c h obtain p1 n ih s1 where k: "?k = (Some (Returned (Inr (p1, n, ih))), s1)"
    by (simp add: kogmo_rtdb_connect_def Let_def ci on_error_fails
        split: if_splits prod.splits option.splits outcome.splits sum.splits)
  let ?c = "c\<lparr>ipc_h := ih, attached := True, rxtrace := False\<rparr>"
  from client_ipc_connect [OF k m] have f: "\<not> this_process_is_manager (db_handle ?c)"
    using m by (metis this_process_is_manager_def db_handle_simps(2) has_flag_def db_conn.select_convs(1)
        db_conn.update_convs(1,2,5) db_conn.surjective)
  have "\<exists>db. register_process e ?ci p1 ?c (local_data s1) = (Inr c', db) \<and> p1 = p \<and> s' = s1\<lparr>local_data := db\<rparr>"
  proof -
    obtain r db where R: "register_process e ?ci p1 ?c (local_data s1) = (r, db)" by fastforce
    show ?thesis
      using c f by (simp add: kogmo_rtdb_connect_def Let_def ci h k connect_setup_def connect_objects_def R on_error_fails
          split: if_splits sum.splits) 
  qed
  with k that show thesis by blast
qed

text \<open>
  C24: When a client has connected, the database is as sound as before and holds an undeleted process
  object of the client's name, created by it, whose newest version publishes the process id, the
  operating system's id and the flags of the client with status "unknown".
\<close>
theorem connect_registers:
  assumes a: "heap_allocator d I"
    and c: "kogmo_rtdb_connect e ci c s = (Some (Returned (Inr (p, c'))), s')" "\<not> has_flag (process_flags (ci_flags ci)) FLAG_MANAGER"
    and ok: "database_ok I (local_data s)" "times_ok (local_data s)" "objmeta_oid_next (local_data s) < 2 ^ 31"
    and h: "h_dsa (lib c) = d" "length (procobj c) = C3_PROCESS_size"
      "\<forall>ih. process_size_ok (c\<lparr>ipc_h := ih\<rparr>) (connect_defaults e ci) (local_data s)"
  shows "database_ok I (local_data s') \<and> proc_oid (this_process (ipc_h c')) = p \<and>
    (\<exists>k < length (objmeta (local_data s')).
      kogmo_rtdb_obj_findmeta_byid (oid (procobjmeta c')) (local_data s') = Some k
      \<and> otype (objmeta (local_data s') ! k) = OBJTYPE_C3_PROCESS \<and> created_proc (objmeta (local_data s') ! k) = p
      \<and> deleted_ts (objmeta (local_data s') ! k) = 0
      \<and> name (objmeta (local_data s') ! k) = (strncpy NAME_MAXLEN (procname ci))[NAME_MAXLEN - 1 := NUL]
      \<and> obj_history (local_data s') k \<noteq> [] \<and> published c' p (hd (obj_history (local_data s') k)))"
proof -
  from c obtain host ih n s1 db where
    k: "kogmo_rtdb_ipc_connect (ce_ipc e) (ipc_h c) host (procname ci) (ci_cycletime (connect_defaults e ci)) (ci_flags ci)
       (wanted_heap e) s = (Some (Returned (Inr (p, n, ih))), s1)"
    and r: "register_process e (connect_defaults e ci) p (c\<lparr>ipc_h := ih, attached := True, rxtrace := False\<rparr>) (local_data s1)
       = (Inr c', db)" and s': "s' = s1\<lparr>local_data := db\<rparr>" by (rule connect_client_steps)
  from client_ipc_connect [OF k c(2)] obtain x where x: "local_data s1 = (local_data s)\<lparr>ipc_log := x\<rparr>"
    and p: "p = proc_oid (this_process ih)" "in_int32 p" by blast
  have "database_ok I (local_data s1)"
    using heap_allocator.db_step_ok [OF a looks [of d "local_data s" x "ticks (local_data s)"] ok(1)] x by simp
  moreover have "process_size_ok (c\<lparr>ipc_h := ih, attached := True, rxtrace := False\<rparr>) (connect_defaults e ci) (local_data s1)"
    using h(3) by (simp add: process_size_ok_def x process_meta_log db_handle_def)
  moreover have "times_ok (local_data s1)" using ok(2) by (simp add: x times_ok_def)
  moreover have "procname (connect_defaults e ci) = procname ci" by (simp add: connect_defaults_def Let_def)
  ultimately show ?thesis
    using heap_allocator.register_effect [OF a r] ok(3) h(1,2) p
    by (auto simp: s' x published_def)
qed

section \<open>A sample\<close>

text \<open>A database as the manager has set it up, and a client of it.\<close>

definition ex_list :: obj_info where
  "ex_list = zero_info\<lparr>oid := 2, name := strncpy NAME_MAXLEN ''processes'', created_ts := 5000000000,
     created_proc := 1, parent_oid := 1, otype := OBJTYPE_C3_PROCESSLIST, flags := no_flags\<lparr>unique := True\<rparr>\<rparr>"

definition ex_system :: rtdb where
  "ex_system = ex_db\<lparr>objmeta := [ex_root, ex_list, zero_info, zero_info], objmeta_oid_next := 3, objmeta_free := 2,
     default_history_interval := 1, heap_size := 65536, heap_used := 2, heap_free := 65534\<rparr>"

definition ex_live :: ipc_shm where
  "ex_live = ex_shm\<lparr>local_data := ex_system\<rparr>"

definition ex_cenv :: connect_env where
  "ex_cenv = \<lparr>ce_ipc = ex_env, ce_malloc = True, ce_heapsize = None, ce_dbhost = None, ce_mq = (\<lambda>_. False),
     ce_mq_client = False, ce_dsa_init = static_init, ce_sizeof_local = 0, ce_uid = 1000, ce_version_date = [],
     ce_version_id = [], ce_chmod = True\<rparr>"

definition ex_ci :: connect_info where
  "ex_ci = kogmo_rtdb_connect_initinfo None None ''writer'' (1/10)"

definition ex_malloc :: db_conn where
  "ex_malloc = \<lparr>ipc_h = ex_ih, attached = False, procobjmeta = zero_info, procobj = replicate C3_PROCESS_size 0,
     rxtrace = False, lib = ex_h\<rparr>"

lemma ex_proc_size: "process_size_ok (ex_malloc\<lparr>ipc_h := ih\<rparr>) (connect_defaults ex_cenv ex_ci) ex_system"
proof -
  have d: "default_history_interval ex_system = 1" by code_simp
  have c: "ci_cycletime (connect_defaults ex_cenv ex_ci) = 1/10" by code_simp
  have n: "UNSIGNED_CEIL (f32 (f32 (1 / MIN_CYCLETIME (1/10) (1/10)) + 1)) = 11" by code_simp
  show ?thesis unfolding process_size_ok_def size_ok_def insert_info_def insert_init_def process_meta_def
    by (simp add: Let_def apply_minhist_def apply_maxhist_def db_handle_def ex_malloc_def d c cycle_time_def n
        kogmo_rtdb_obj_initinfo_def zero_info_def C3_PROCESS_size_def base_size_def)
qed

lemma ex_system_ok: "database_ok static_inv ex_system"
proof -
  have f: "length (objmeta ex_system) = 4" "objmeta ex_system ! 0 = ex_root" "objmeta ex_system ! 1 = ex_list"
    "objmeta ex_system ! 2 = zero_info" "objmeta ex_system ! 3 = zero_info"
    "oid ex_root = 1" "oid ex_list = 2" "oid zero_info = 0" "otype ex_root \<noteq> otype ex_list" "\<not> live zero_info"
    "size_max ex_root = 0" "size_max ex_list = 0" "size_max zero_info = 0" "buffer_idx ex_root = 0"
    "buffer_idx ex_list = 0" "buffer_idx zero_info = 0" "\<not> keep_alloc (flags ex_root)"
    "\<not> keep_alloc (flags ex_list)" "\<not> keep_alloc (flags zero_info)"
    by (simp_all add: ex_system_def ex_list_def ex_root_def zero_info_def OBJTYPE_C3_PROCESSLIST_def live_def no_flags_def)
  have all: "(\<forall>k < length (objmeta ex_system). P k) \<longleftrightarrow> P 0 \<and> P 1 \<and> P 2 \<and> P 3" for P
    by (auto simp: f(1) less_Suc_eq eval_nat_numeral)
  have mem: "set (objmeta ex_system) = {ex_root, ex_list, zero_info}" by (auto simp: ex_system_def)
  have no: "\<not> has_block (objmeta ex_system ! k)" if "k < length (objmeta ex_system)" for k
    using that all [of "\<lambda>k. \<not> has_block (objmeta ex_system ! k)"] f by (simp add: has_block_def)
  note f1 = f [unfolded One_nat_def]
  have "unique_keys oid (objmeta ex_system)" unfolding unique_keys_def all by (simp add: f1)
  moreover have "free_slots oid (objmeta ex_system) = 2" by (simp add: ex_system_def free_slots_def f)
  ultimately have "table_ok ex_system" using f by (simp add: table_ok_def mem) (simp add: ex_system_def)
  moreover have "names_ok (objmeta ex_system)" unfolding names_ok_def all using f1 by simp
  moreover have "heap_ok static_inv ex_system"
    unfolding heap_ok_def blocks_in_def using no f all [of "\<lambda>k. buffer_idx (objmeta ex_system ! k) = 0"]
    by (intro exI [of _ "{}"]) (simp add: static_inv_def disjoint_blocks_def ex_system_def)
  ultimately show ?thesis
    using no f by (simp add: database_ok_def data_ok_def no_keep_def mem)
qed

text \<open>The steps of its connect, each evaluated.\<close>

definition ex_join :: "connect_result \<times> ipc_shm" where
  "ex_join = kogmo_rtdb_ipc_connect ex_env ex_ih (Some ''system'') ''writer'' (1/10) 0 67108864 ex_live"

definition ex_joined :: db_conn where
  "ex_joined = ex_malloc\<lparr>ipc_h := \<lparr>shmid = ''/kogmo_rtdb.system'', mapped = True, shm_size = 9000 + 4096,
       this_process = (process_info ex_env ''writer'' (1/10) 0 zero_process)\<lparr>proc_oid := 2\<rparr>, this_process_slot = 0\<rparr>,
     attached := True, rxtrace := False\<rparr>"

definition ex_seen :: "(rtdb_error + int) \<times> int list option \<times> rtdb" where
  "ex_seen = kogmo_rtdb_obj_searchinfo (db_handle ex_joined) (Some ''processes'') OBJTYPE_C3_PROCESSLIST 0 0 0 None 1
     (local_data (snd ex_join))"

definition ex_me :: obj_info where
  "ex_me = process_meta (db_handle ex_joined) (connect_defaults ex_cenv ex_ci) 2 (snd (snd ex_seen))"

definition ex_entered :: "(rtdb_error + int) \<times> obj_info \<times> rtdb" where
  "ex_entered = kogmo_rtdb_obj_insert (db_handle (ex_joined\<lparr>procobjmeta := ex_me\<rparr>)) ex_me (snd (snd ex_seen))"

definition ex_ready :: db_conn where
  "ex_ready = ex_joined\<lparr>procobjmeta := fst (snd ex_entered)\<rparr>"

lemma ex_connect_steps:
  "fst ex_join = Some (Returned (Inr (2, 4096, ipc_h ex_joined)))" "fst ex_seen = Inr 2" "fst ex_entered = Inr 3"
  "rtdb_tracebufsize (local_data (snd ex_join)) = 0" "\<not> this_process_is_manager (db_handle ex_joined)"
  by code_simp+

lemma ex_connect_writes:
  "kogmo_rtdb_obj_findmeta_byid 3 (snd (snd ex_entered)) = Some 2" "oid (fst (snd ex_entered)) = 3"
  "writedata_check (db_handle ex_ready) (objmeta (snd (snd ex_entered)) ! 2) 212 = None"
  "\<not> cycle_watch (flags (objmeta (snd (snd ex_entered)) ! 2))"
  by code_simp+

lemma register_returns:
  assumes "kogmo_rtdb_obj_searchinfo (db_handle c) (Some ''processes'') OBJTYPE_C3_PROCESSLIST 0 0 0 None 1 db = (Inr q, l, db1)"
    and "kogmo_rtdb_obj_insert (db_handle (c\<lparr>procobjmeta := process_meta (db_handle c) ci q db1\<rparr>))
      (process_meta (db_handle c) ci q db1) db1 = (Inr i, m, db2)"
    and "kogmo_rtdb_obj_writedata (db_handle (c\<lparr>procobjmeta := m\<rparr>)) (oid m)
      (process_data e ci p (this_process (ipc_h c)) (set_word 24 p (procobj c))) db2 = (Inr v, bs, db')"
  shows "register_process e ci p c db = (Inr (c\<lparr>procobjmeta := m, procobj := bs\<rparr>), db')"
  using assms by (simp add: register_process_def Let_def)

lemma ex_registers:
  "\<exists>c' db'. register_process ex_cenv (connect_defaults ex_cenv ex_ci) 2 ex_joined (local_data (snd ex_join)) = (Inr c', db')
     \<and> ipc_h c' = ipc_h ex_joined"
proof -
  let ?d = "process_data ex_cenv (connect_defaults ex_cenv ex_ci) 2 (this_process (ipc_h ex_joined)) (set_word 24 2 (procobj ex_joined))"
  obtain l where S: "kogmo_rtdb_obj_searchinfo (db_handle ex_joined) (Some ''processes'') OBJTYPE_C3_PROCESSLIST 0 0 0 None 1
      (local_data (snd ex_join)) = (Inr 2, l, snd (snd ex_seen))"
    using ex_connect_steps(2) unfolding ex_seen_def by (metis prod.collapse)
  have I: "kogmo_rtdb_obj_insert (db_handle (ex_joined\<lparr>procobjmeta := ex_me\<rparr>)) ex_me (snd (snd ex_seen))
      = (Inr 3, fst (snd ex_entered), snd (snd ex_entered))"
    using ex_connect_steps(3) unfolding ex_entered_def by (metis prod.collapse)
  have "b_size ?d = 212"
    using process_data_fields(5) [of "set_word 24 2 (procobj ex_joined)"]
    by (simp add: ex_joined_def ex_malloc_def set_word_def C3_PROCESS_size_def)
  then have "fst (kogmo_rtdb_obj_writedata (db_handle ex_ready) 3 ?d (snd (snd ex_entered))) = Inr 0"
    using write_passes ex_connect_writes(1,3,4) by simp
  then obtain bs db' where W: "kogmo_rtdb_obj_writedata (db_handle ex_ready) 3 ?d (snd (snd ex_entered)) = (Inr 0, bs, db')"
    by (metis prod.collapse)
  from register_returns [OF S I [unfolded ex_me_def] W [folded ex_connect_writes(2), unfolded ex_ready_def]]
  show ?thesis by auto
qed

lemma ex_connects_to_live:
  "\<exists>c' s'. kogmo_rtdb_connect ex_cenv ex_ci ex_malloc ex_live = (Some (Returned (Inr (2, c'))), s')"
proof -
  have J: "kogmo_rtdb_ipc_connect ex_env ex_ih (Some ''system'') ''writer'' (1/10) 0 67108864 ex_live
      = (Some (Returned (Inr (2, 4096, ipc_h ex_joined))), snd ex_join)"
    using ex_connect_steps(1) unfolding ex_join_def by (metis prod.collapse)
  have ci: "ci_flags ex_ci = 0" "dbhost (connect_defaults ex_cenv ex_ci) = Some ''local:system''"
    "procname (connect_defaults ex_cenv ex_ci) = ''writer''" "ci_cycletime (connect_defaults ex_cenv ex_ci) = 1/10"
    "ci_flags (connect_defaults ex_cenv ex_ci) = 0" "local_dbhost (Some ''local:system'') = Inr (Some ''system'')"
    "wanted_heap ex_cenv = 67108864" "MINIMUM_HEAP_SIZE \<le> 67108864" by code_simp+
  have e: "ce_malloc ex_cenv" "ce_ipc ex_cenv = ex_env" "ipc_h ex_malloc = ex_ih" by (simp_all add: ex_cenv_def ex_malloc_def)
  have c: "ex_malloc\<lparr>ipc_h := ipc_h ex_joined, attached := True, rxtrace := False\<rparr> = ex_joined"
    by (simp add: ex_joined_def)
  from ex_registers obtain c' db' where
    R: "register_process ex_cenv (connect_defaults ex_cenv ex_ci) 2 ex_joined (local_data (snd ex_join)) = (Inr c', db')"
      "ipc_h c' = ipc_h ex_joined" by blast
  have "\<not> this_process_is_manager (db_handle c')"
    using ex_connect_steps(5) R(2) by (simp add: this_process_is_manager_def)
  then show ?thesis
    using ci(8) by (simp add: kogmo_rtdb_connect_def Let_def ci(1-7) e J c connect_setup_def connect_objects_def
        ex_connect_steps(4,5) R(1))
qed

theorem connect_registers_witness:
  "\<exists>c' s' k. kogmo_rtdb_connect ex_cenv ex_ci ex_malloc ex_live = (Some (Returned (Inr (2, c'))), s')
     \<and> database_ok static_inv (local_data s') \<and> created_proc (objmeta (local_data s') ! k) = 2
     \<and> published c' 2 (hd (obj_history (local_data s') k))"
proof -
  obtain c' s' where C: "kogmo_rtdb_connect ex_cenv ex_ci ex_malloc ex_live = (Some (Returned (Inr (2, c'))), s')"
    using ex_connects_to_live by blast
  have l: "local_data ex_live = ex_system" by (simp add: ex_live_def)
  have "\<not> has_flag (process_flags (ci_flags ex_ci)) FLAG_MANAGER" by code_simp
  moreover have "times_ok ex_system"
    by (simp add: times_ok_def ex_system_def ex_db_def time_ok_def kogmo_timestamp_now_def TICKSPERSECOND_def NANOSECONDSPERTICK_def
        int64_id in_int64_def)
  moreover have "objmeta_oid_next ex_system < 2 ^ 31" "h_dsa (lib ex_malloc) = static_dsa" "length (procobj ex_malloc) = C3_PROCESS_size"
    by (simp_all add: ex_system_def ex_malloc_def)
  ultimately show ?thesis
    using connect_registers [OF static.heap_allocator_axioms C] ex_system_ok ex_proc_size C l by auto
qed

end
