(* ===== verification/C_File.thy ===== *)
theory C_File
  imports C_Memory
begin

text \<open>
  The files of the recorder and the player (\<open>FILE\<close> of \<open>stdio.h\<close>): one that is written from its
  beginning to its end, on a medium with room for so many bytes, and one that is read.
\<close>

section \<open>Writing\<close>

record out_file =
  written :: "byte list"
  room :: nat

text \<open>
  \<open>fwrite(d,size,1,fp)\<close>: the number of items written, 1 or 0. An item of size 0 counts as none
  written, an item that does not fit is written in part.
\<close>

definition fwrite :: "byte list \<Rightarrow> out_file \<Rightarrow> int \<times> out_file" where
  "fwrite d f = (let f' = f\<lparr>written := written f @ take (room f) d, room := room f - length d\<rparr>
     in (if d \<noteq> [] \<and> length d \<le> room f then 1 else 0, f'))"

lemma fwrite_ok: "d \<noteq> [] \<Longrightarrow> length d \<le> room f \<Longrightarrow>
    fwrite d f = (1, f\<lparr>written := written f @ d, room := room f - length d\<rparr>)"
  by (simp add: fwrite_def)

lemma fwrite_extends: "fwrite d f = (r, f') \<Longrightarrow> \<exists>e. written f' = written f @ e"
  by (auto simp: fwrite_def)

section \<open>Reading\<close>

record in_file =
  content :: "byte list"
  fpos :: nat
  eof :: bool
  seekable :: bool

text \<open>\<open>fread(p,n,1,fp)\<close>: the number of items read and the bytes that arrive.\<close>

definition fread :: "nat \<Rightarrow> in_file \<Rightarrow> int \<times> byte list \<times> in_file" where
  "fread n f = (let d = take n (drop (fpos f) (content f))
     in if n = 0 then (0, [], f)
        else if length d = n then (1, d, f\<lparr>fpos := fpos f + n\<rparr>)
        else (0, d, f\<lparr>fpos := fpos f + length d, eof := True\<rparr>))"

text \<open>\<open>fseek(fp,n,SEEK_CUR)\<close> with \<open>n\<close> not negative; a pipe cannot be positioned.\<close>

definition fskip :: "nat \<Rightarrow> in_file \<Rightarrow> int \<times> in_file" where
  "fskip n f = (if seekable f then (0, f\<lparr>fpos := fpos f + n, eof := False\<rparr>) else (- 1, f))"

text \<open>The file is at a place where these bytes follow.\<close>

definition ahead :: "byte list \<Rightarrow> in_file \<Rightarrow> bool" where
  "ahead d f \<longleftrightarrow> take (length d) (drop (fpos f) (content f)) = d"

definition moved :: "nat \<Rightarrow> in_file \<Rightarrow> in_file" where
  "moved n f = f\<lparr>fpos := fpos f + n\<rparr>"

lemma moved_moved [simp]: "moved m (moved n f) = moved (n + m) f"
  by (simp add: moved_def)

lemma fread_ahead: "ahead d f \<Longrightarrow> d \<noteq> [] \<Longrightarrow> n = length d \<Longrightarrow> fread n f = (1, d, moved n f)"
  by (simp add: fread_def ahead_def Let_def moved_def)

lemma ahead_append: "ahead (xs @ ys) f \<longleftrightarrow> ahead xs f \<and> ahead ys (moved (length xs) f)"
proof
  assume a: "ahead (xs @ ys) f"
  let ?l = "drop (fpos f) (content f)"
  have t: "take (length xs + length ys) ?l = xs @ ys" using a by (simp add: ahead_def)
  have "take (length xs) ?l = xs" using arg_cong [OF t, of "take (length xs)"] by (simp add: min_def)
  moreover have "take (length ys) (drop (length xs) ?l) = ys"
    using arg_cong [OF t, of "drop (length xs)"] by (simp add: drop_take)
  ultimately show "ahead xs f \<and> ahead ys (moved (length xs) f)" by (simp add: ahead_def moved_def add.commute)
next
  assume "ahead xs f \<and> ahead ys (moved (length xs) f)"
  then show "ahead (xs @ ys) f" by (simp add: ahead_def moved_def take_add add.commute)
qed

lemma ahead_written: "ahead e \<lparr>content = xs @ e @ ys, fpos = length xs, eof = b, seekable = c\<rparr>"
  by (simp add: ahead_def)

end
