(* ===== verification/Avi_Codec.thy ===== *)
theory Avi_Codec
  imports C_File C_Float
begin

text \<open>
  The container the recorder writes and the player reads (\<open>record/kogmo_rtdb_avirawcodec.c\<close>): the
  header of a raw AVI file with ten streams, and chunks of data behind it. A header is a record of
  the fields of \<open>avirawheaderv1_t\<close>; \<open>header_bytes\<close> and \<open>header_of\<close> are its memory.
\<close>

section \<open>The structures\<close>

definition uint16 :: "int \<Rightarrow> int" where
  "uint16 x = take_bit 16 x"

record riffheader =
  header_fcc :: "char list"
  file_cb :: int
  file_fcc :: "char list"

record riffchunk =
  fcc :: "char list"
  cb :: int

record rifflist =
  list_fcc :: "char list"
  list_cb :: int
  type_fcc :: "char list"

record avimainheader =
  h_fcc :: "char list"
  h_cb :: int
  dwMicroSecPerFrame :: int
  dwMaxBytesPerSec :: int
  dwPaddingGranularity :: int
  h_dwFlags :: int
  dwTotalFrames :: int
  h_dwInitialFrames :: int
  dwStreams :: int
  h_dwSuggestedBufferSize :: int
  dwWidth :: int
  dwHeight :: int
  dwReserved :: "byte list"

record avistreamheader =
  s_fcc :: "char list"
  s_cb :: int
  fccType :: "char list"
  fccHandler :: "char list"
  s_dwFlags :: int
  wPriority :: int
  wLanguage :: int
  s_dwInitialFrames :: int
  dwScale :: int
  dwRate :: int
  dwStart :: int
  dwLength :: int
  s_dwSuggestedBufferSize :: int
  dwQuality :: int
  dwSampleSize :: int
  f_left :: int
  f_top :: int
  f_right :: int
  f_bottom :: int

record avibitmapheader =
  b_fcc :: "char list"
  b_cb :: int
  biSize :: int
  biWidth :: int
  biHeight :: int
  biPlanes :: int
  biBitCount :: int
  biCompression :: int
  biSizeImage :: int
  biXPelsPerMeter :: int
  biYPelsPerMeter :: int
  biClrUsed :: int
  biClrImportant :: int
  bmiColors :: "byte list"

record str_header =
  strh_header :: avistreamheader
  strf_header :: avibitmapheader

record avirawheader =
  riff_header :: riffheader
  hdrl_list :: rifflist
  avih_header :: avimainheader
  strl_list :: rifflist
  str_headers :: "str_header list"
  movi_list :: rifflist

definition NCOLORS :: nat where
  "NCOLORS = 256"

definition NSTREAMS :: nat where
  "NSTREAMS = 10"

section \<open>Their memory\<close>

definition chunk_bytes :: "riffchunk \<Rightarrow> byte list" where
  "chunk_bytes c = string_bytes (fcc c) @ enc 4 (cb c)"

definition chunk_of :: "byte list \<Rightarrow> riffchunk" where
  "chunk_of bs = \<lparr>fcc = bytes_string (get 0 4 bs), cb = udec (get 4 4 bs)\<rparr>"

definition riff_bytes :: "riffheader \<Rightarrow> byte list" where
  "riff_bytes r = string_bytes (header_fcc r) @ enc 4 (file_cb r) @ string_bytes (file_fcc r)"

definition riff_of :: "byte list \<Rightarrow> riffheader" where
  "riff_of bs = \<lparr>header_fcc = bytes_string (get 0 4 bs), file_cb = udec (get 4 4 bs), file_fcc = bytes_string (get 8 4 bs)\<rparr>"

definition list_bytes :: "rifflist \<Rightarrow> byte list" where
  "list_bytes r = string_bytes (list_fcc r) @ enc 4 (list_cb r) @ string_bytes (type_fcc r)"

definition list_of :: "byte list \<Rightarrow> rifflist" where
  "list_of bs = \<lparr>list_fcc = bytes_string (get 0 4 bs), list_cb = udec (get 4 4 bs), type_fcc = bytes_string (get 8 4 bs)\<rparr>"

definition main_bytes :: "avimainheader \<Rightarrow> byte list" where
  "main_bytes m = string_bytes (h_fcc m) @ enc 4 (h_cb m) @ enc 4 (dwMicroSecPerFrame m) @ enc 4 (dwMaxBytesPerSec m) @
     enc 4 (dwPaddingGranularity m) @ enc 4 (h_dwFlags m) @ enc 4 (dwTotalFrames m) @ enc 4 (h_dwInitialFrames m) @
     enc 4 (dwStreams m) @ enc 4 (h_dwSuggestedBufferSize m) @ enc 4 (dwWidth m) @ enc 4 (dwHeight m) @ dwReserved m"

definition main_of :: "byte list \<Rightarrow> avimainheader" where
  "main_of bs = \<lparr>h_fcc = bytes_string (get 0 4 bs), h_cb = udec (get 4 4 bs), dwMicroSecPerFrame = udec (get 8 4 bs),
     dwMaxBytesPerSec = udec (get 12 4 bs), dwPaddingGranularity = udec (get 16 4 bs), h_dwFlags = udec (get 20 4 bs),
     dwTotalFrames = udec (get 24 4 bs), h_dwInitialFrames = udec (get 28 4 bs), dwStreams = udec (get 32 4 bs),
     h_dwSuggestedBufferSize = udec (get 36 4 bs), dwWidth = udec (get 40 4 bs), dwHeight = udec (get 44 4 bs),
     dwReserved = get 48 16 bs\<rparr>"

definition strh_bytes :: "avistreamheader \<Rightarrow> byte list" where
  "strh_bytes s = string_bytes (s_fcc s) @ enc 4 (s_cb s) @ string_bytes (fccType s) @ string_bytes (fccHandler s) @
     enc 4 (s_dwFlags s) @ enc 2 (wPriority s) @ enc 2 (wLanguage s) @ enc 4 (s_dwInitialFrames s) @ enc 4 (dwScale s) @
     enc 4 (dwRate s) @ enc 4 (dwStart s) @ enc 4 (dwLength s) @ enc 4 (s_dwSuggestedBufferSize s) @ enc 4 (dwQuality s) @
     enc 4 (dwSampleSize s) @ enc 2 (f_left s) @ enc 2 (f_top s) @ enc 2 (f_right s) @ enc 2 (f_bottom s)"

definition strh_of :: "byte list \<Rightarrow> avistreamheader" where
  "strh_of bs = \<lparr>s_fcc = bytes_string (get 0 4 bs), s_cb = udec (get 4 4 bs), fccType = bytes_string (get 8 4 bs),
     fccHandler = bytes_string (get 12 4 bs), s_dwFlags = udec (get 16 4 bs), wPriority = udec (get 20 2 bs),
     wLanguage = udec (get 22 2 bs), s_dwInitialFrames = udec (get 24 4 bs), dwScale = udec (get 28 4 bs),
     dwRate = udec (get 32 4 bs), dwStart = udec (get 36 4 bs), dwLength = udec (get 40 4 bs),
     s_dwSuggestedBufferSize = udec (get 44 4 bs), dwQuality = udec (get 48 4 bs), dwSampleSize = udec (get 52 4 bs),
     f_left = udec (get 56 2 bs), f_top = udec (get 58 2 bs), f_right = udec (get 60 2 bs), f_bottom = udec (get 62 2 bs)\<rparr>"

definition strf_bytes :: "avibitmapheader \<Rightarrow> byte list" where
  "strf_bytes b = string_bytes (b_fcc b) @ enc 4 (b_cb b) @ enc 4 (biSize b) @ enc 4 (biWidth b) @ enc 4 (biHeight b) @
     enc 2 (biPlanes b) @ enc 2 (biBitCount b) @ enc 4 (biCompression b) @ enc 4 (biSizeImage b) @
     enc 4 (biXPelsPerMeter b) @ enc 4 (biYPelsPerMeter b) @ enc 4 (biClrUsed b) @ enc 4 (biClrImportant b) @ bmiColors b"

definition strf_of :: "byte list \<Rightarrow> avibitmapheader" where
  "strf_of bs = \<lparr>b_fcc = bytes_string (get 0 4 bs), b_cb = udec (get 4 4 bs), biSize = udec (get 8 4 bs),
     biWidth = sdec (get 12 4 bs), biHeight = sdec (get 16 4 bs), biPlanes = udec (get 20 2 bs), biBitCount = udec (get 22 2 bs),
     biCompression = udec (get 24 4 bs), biSizeImage = udec (get 28 4 bs), biXPelsPerMeter = sdec (get 32 4 bs),
     biYPelsPerMeter = sdec (get 36 4 bs), biClrUsed = udec (get 40 4 bs), biClrImportant = udec (get 44 4 bs),
     bmiColors = get 48 (4 * NCOLORS) bs\<rparr>"

definition str_bytes :: "str_header \<Rightarrow> byte list" where
  "str_bytes s = strh_bytes (strh_header s) @ strf_bytes (strf_header s)"

definition str_size :: nat where
  "str_size = 64 + (48 + 4 * NCOLORS)"

definition str_of :: "byte list \<Rightarrow> str_header" where
  "str_of bs = \<lparr>strh_header = strh_of (get 0 64 bs), strf_header = strf_of (get 64 (48 + 4 * NCOLORS) bs)\<rparr>"

definition header_size :: nat where
  "header_size = 12 + 12 + 64 + 12 + NSTREAMS * str_size + 12"

definition header_bytes :: "avirawheader \<Rightarrow> byte list" where
  "header_bytes h = riff_bytes (riff_header h) @ list_bytes (hdrl_list h) @ main_bytes (avih_header h) @
     list_bytes (strl_list h) @ concat (map str_bytes (str_headers h)) @ list_bytes (movi_list h)"

definition header_of :: "byte list \<Rightarrow> avirawheader" where
  "header_of bs = \<lparr>riff_header = riff_of (get 0 12 bs), hdrl_list = list_of (get 12 12 bs), avih_header = main_of (get 24 64 bs),
     strl_list = list_of (get 88 12 bs), str_headers = map (\<lambda>i. str_of (get (100 + i * str_size) str_size bs)) [0..<NSTREAMS],
     movi_list = list_of (get (100 + NSTREAMS * str_size) 12 bs)\<rparr>"

section \<open>Filling in a header\<close>

definition streamssize :: int where
  "streamssize = 0x7f000000"

definition image_size :: "int \<Rightarrow> int \<Rightarrow> int \<Rightarrow> int" where
  "image_size width height bpp = int32 (width * height * c_div bpp 8)"

text \<open>\<open>streamssize / (fps*imgsize)\<close>, in \<open>float\<close>.\<close>

definition frame_count :: "cfloat \<Rightarrow> int \<Rightarrow> int" where
  "frame_count fps imgsize = int32 (c_trunc (f32 (f32 (of_int streamssize) / f32 (fps * f32 (of_int imgsize)))))"

definition nul4 :: "char list" where
  "nul4 = replicate 4 NUL"

definition junk_stream :: str_header where
  "junk_stream =
     \<lparr>strh_header = \<lparr>s_fcc = ''JUNK'', s_cb = int str_size - 8, fccType = nul4, fccHandler = nul4, s_dwFlags = 0, wPriority = 0,
        wLanguage = 0, s_dwInitialFrames = 0, dwScale = 0, dwRate = 0, dwStart = 0, dwLength = 0, s_dwSuggestedBufferSize = 0,
        dwQuality = 0, dwSampleSize = 0, f_left = 0, f_top = 0, f_right = 0, f_bottom = 0\<rparr>,
      strf_header = \<lparr>b_fcc = nul4, b_cb = 0, biSize = 0, biWidth = 0, biHeight = 0, biPlanes = 0, biBitCount = 0,
        biCompression = 0, biSizeImage = 0, biXPelsPerMeter = 0, biYPelsPerMeter = 0, biClrUsed = 0, biClrImportant = 0,
        bmiColors = replicate (4 * NCOLORS) 0\<rparr>\<rparr>"

definition aviraw_initheader :: "cfloat \<Rightarrow> int \<Rightarrow> int \<Rightarrow> int \<Rightarrow> avirawheader \<Rightarrow> int \<times> avirawheader" where
  "aviraw_initheader fps width height bpp h =
     (if fps = 0 \<or> width = 0 \<or> height = 0 then (- 1, h)
      else
        let imgsize = image_size width height bpp
        in (0,
         \<lparr>riff_header = \<lparr>header_fcc = ''RIFF'', file_cb = uint32 (int header_size - 8 + streamssize), file_fcc = ''AVI ''\<rparr>,
          hdrl_list = \<lparr>list_fcc = ''LIST'', list_cb = 12 + 64 + 12 + int NSTREAMS * int str_size - 8, type_fcc = ''hdrl''\<rparr>,
          avih_header = \<lparr>h_fcc = ''avih'', h_cb = 64 - 8, dwMicroSecPerFrame = uint32 (c_trunc (f64 (1000000 / fps))),
            dwMaxBytesPerSec = uint32 (c_trunc (f32 (fps * f32 (of_int imgsize)))), dwPaddingGranularity = 0, h_dwFlags = 0,
            dwTotalFrames = uint32 (frame_count fps imgsize), h_dwInitialFrames = 0, dwStreams = int NSTREAMS,
            h_dwSuggestedBufferSize = uint32 (int32 (width * height)), dwWidth = uint32 width, dwHeight = uint32 height,
            dwReserved = replicate 16 0\<rparr>,
          strl_list = \<lparr>list_fcc = ''LIST'', list_cb = 12 + int NSTREAMS * int str_size - 8, type_fcc = ''strl''\<rparr>,
          str_headers = replicate NSTREAMS junk_stream,
          movi_list = \<lparr>list_fcc = ''LIST'', list_cb = uint32 (12 - 8 + streamssize), type_fcc = ''movi''\<rparr>\<rparr>))"

text \<open>The palette of grey values, whose fourth bytes stay, or a chunk to be skipped in its place.\<close>

definition grey_palette :: "byte list \<Rightarrow> byte list" where
  "grey_palette old = concat (map (\<lambda>j. [of_nat j, of_nat j, of_nat j, old ! (4 * j + 3)]) [0..<NCOLORS])"

definition no_palette :: "byte list \<Rightarrow> byte list" where
  "no_palette old = chunk_bytes \<lparr>fcc = ''JUNK'', cb = 4 * int NCOLORS - 8\<rparr> @ drop 8 old"

definition fill_stream :: "cfloat \<Rightarrow> int \<Rightarrow> int \<Rightarrow> int \<Rightarrow> int \<Rightarrow> str_header \<Rightarrow> str_header" where
  "fill_stream fps width height bpp compression_fourcc s =
     (let imgsize = image_size width height bpp; old = bmiColors (strf_header s)
      in \<lparr>strh_header = \<lparr>s_fcc = ''strh'', s_cb = 64 - 8, fccType = ''vids'', fccHandler = ''DIB '', s_dwFlags = 0, wPriority = 0,
            wLanguage = 0, s_dwInitialFrames = 0, dwScale = 1, dwRate = uint32 (c_trunc fps), dwStart = 0,
            dwLength = uint32 (frame_count fps imgsize), s_dwSuggestedBufferSize = uint32 imgsize,
            dwQuality = 0, dwSampleSize = 0, f_left = 0, f_top = 0, f_right = uint16 width, f_bottom = uint16 height\<rparr>,
          strf_header = \<lparr>b_fcc = ''strf'', b_cb = (if bpp = 8 then 48 + 4 * int NCOLORS - 8 else 48 - 8),
            biSize = 48 - 8, biWidth = width, biHeight = height, biPlanes = 1, biBitCount = uint16 bpp,
            biCompression = compression_fourcc, biSizeImage = uint32 imgsize, biXPelsPerMeter = 0, biYPelsPerMeter = 0,
            biClrUsed = (if bpp = 8 then int NCOLORS else 0), biClrImportant = 0,
            bmiColors = (if bpp = 8 then grey_palette old else no_palette old)\<rparr>\<rparr>)"

text \<open>\<open>None\<close>: stream 10 passes the check and is written behind the array of streams.\<close>

definition aviraw_initstream :: "int \<Rightarrow> cfloat \<Rightarrow> int \<Rightarrow> int \<Rightarrow> int \<Rightarrow> int \<Rightarrow> avirawheader \<Rightarrow> (int \<times> avirawheader) option" where
  "aviraw_initstream stream fps width height bpp compression_fourcc h =
     (if fps = 0 \<or> width = 0 \<or> height = 0 \<or> stream < 0 \<or> stream > 10 then Some (- 1, h)
      else if stream \<ge> int (length (str_headers h)) then None
      else Some (0, h\<lparr>str_headers := (str_headers h)[nat stream :=
             fill_stream fps width height bpp compression_fourcc (str_headers h ! nat stream)]\<rparr>))"

section \<open>Writing\<close>

text \<open>Data with the byte that makes its length even.\<close>

definition aviraw_fput_data :: "byte list \<Rightarrow> out_file \<Rightarrow> int \<times> out_file" where
  "aviraw_fput_data data fp =
     (case fwrite data fp of (ret, fp) \<Rightarrow>
        if ret \<noteq> 1 then (if ret < 0 then ret else - 1, fp)
        else if odd (length data)
          then (case fwrite [0] fp of (ret, fp) \<Rightarrow> if ret \<noteq> 1 then (if ret < 0 then ret else - 1, fp) else (0, fp))
        else (0, fp))"

definition fput_with_header :: "riffchunk \<Rightarrow> byte list \<Rightarrow> out_file \<Rightarrow> int \<times> out_file" where
  "fput_with_header c data fp =
     (case fwrite (chunk_bytes c) fp of (ret, fp) \<Rightarrow>
        if ret \<noteq> 1 then (if ret < 0 then ret else - 1, fp) else aviraw_fput_data data fp)"

definition stream_chunk :: "int \<Rightarrow> nat \<Rightarrow> riffchunk" where
  "stream_chunk stream n = \<lparr>fcc = [CHR ''0'', char_of (48 + nat stream), CHR ''d'', CHR ''b''], cb = uint32 (int n)\<rparr>"

definition aviraw_fput_stream :: "int \<Rightarrow> byte list \<Rightarrow> out_file \<Rightarrow> int \<times> out_file" where
  "aviraw_fput_stream stream data fp =
     (if stream < 0 \<or> stream > 10 then (- 1, fp)
      else fput_with_header (stream_chunk stream (length data)) data fp)"

definition aviraw_fput_junk :: "byte list \<Rightarrow> out_file \<Rightarrow> int \<times> out_file" where
  "aviraw_fput_junk data fp = fput_with_header \<lparr>fcc = ''JUNK'', cb = uint32 (int (length data))\<rparr> data fp"

definition aviraw_fput_chunk :: "riffchunk \<Rightarrow> byte list \<Rightarrow> out_file \<Rightarrow> int \<times> out_file" where
  "aviraw_fput_chunk c data fp = fput_with_header c (take (nat (cb c)) data) fp"

definition aviraw_fput_header :: "avirawheader \<Rightarrow> out_file \<Rightarrow> int \<times> out_file" where
  "aviraw_fput_header h fp =
     (case fwrite (header_bytes h) fp of (ret, fp) \<Rightarrow> if ret \<noteq> 1 then (if ret < 0 then ret else - 1, fp) else (0, fp))"

section \<open>Reading\<close>

text \<open>The buffer of the caller is part of the result; \<open>None\<close> when nothing has been read into it.\<close>

definition aviraw_fget_header :: "in_file \<Rightarrow> int \<times> avirawheader option \<times> in_file" where
  "aviraw_fget_header fp =
     (case fread header_size fp of (ret, bs, fp) \<Rightarrow>
        if ret \<noteq> 1 then (if ret < 0 then ret else - 1, None, fp)
        else let h = header_of bs
             in if \<not> strncmp_eq 4 (file_fcc (riff_header h)) ''AVI '' then (- 1, Some h, fp)
                else if \<not> strncmp_eq 4 (type_fcc (movi_list h)) ''movi'' then (- 1, Some h, fp)
                else (0, Some h, fp))"

definition aviraw_fget_chunkheader :: "in_file \<Rightarrow> int \<times> riffchunk option \<times> in_file" where
  "aviraw_fget_chunkheader fp =
     (case fread 8 fp of (ret, bs, fp) \<Rightarrow>
        if ret \<noteq> 1 then (if ret < 0 then ret else - 1, None, fp) else (0, Some (chunk_of bs), fp))"

definition aviraw_chunk_is_junk :: "riffchunk \<Rightarrow> bool" where
  "aviraw_chunk_is_junk c \<longleftrightarrow> strncmp_eq 4 (fcc c) ''JUNK''"

definition aviraw_chunk_nr_stream :: "riffchunk \<Rightarrow> int" where
  "aviraw_chunk_nr_stream c =
     (let n = of_char (fcc c ! 1) :: int
      in if fcc c ! 0 \<noteq> CHR ''0'' then - 1
         else if n < 48 \<or> n > 57 then - 1
         else if fcc c ! 2 \<noteq> CHR ''d'' then - 1
         else if fcc c ! 3 \<noteq> CHR ''b'' then - 1
         else n - 48)"

definition pad :: "int \<Rightarrow> int" where
  "pad n = (if odd n then 1 else 0)"

text \<open>The bytes that arrive in the caller's buffer of \<open>maxsize\<close> bytes, the padding byte among them.\<close>

definition aviraw_fget_chunkdata :: "riffchunk \<Rightarrow> int \<Rightarrow> in_file \<Rightarrow> int \<times> byte list \<times> in_file" where
  "aviraw_fget_chunkdata c maxsize fp =
     (if cb c > maxsize then (- 1, [], fp)
      else case fread (nat (uint32 (cb c + pad (cb c)))) fp of (ret, bs, fp) \<Rightarrow>
        if ret \<noteq> 1 then (if ret < 0 then ret else - 1, bs, fp) else (int32 (cb c), bs, fp))"

definition aviraw_fskip_chunkdata :: "riffchunk \<Rightarrow> in_file \<Rightarrow> int \<times> in_file" where
  "aviraw_fskip_chunkdata c fp =
     (case fskip (nat (uint32 (cb c + pad (cb c)))) fp of (ret, fp) \<Rightarrow> if ret \<noteq> 0 then (if ret < 0 then ret else - 1, fp) else (0, fp))"

end
