(* ===== verification/Avi_Props.thy ===== *)
theory Avi_Props
  imports Avi_Codec
begin

text \<open>
  What is written as an AVI header or chunk is read back; the headers the recorder fills in are
  records of their C types.
\<close>

section \<open>Fields within their types\<close>

definition u32 :: "int \<Rightarrow> bool" where
  "u32 x \<longleftrightarrow> 0 \<le> x \<and> x < 2 ^ 32"

definition u16 :: "int \<Rightarrow> bool" where
  "u16 x \<longleftrightarrow> 0 \<le> x \<and> x < 2 ^ 16"

definition four :: "char list \<Rightarrow> bool" where
  "four s \<longleftrightarrow> length s = 4"

lemma typed_values [simp]: "u32 (uint32 x)" "u16 (uint16 x)" "u32 0" "u16 0"
  using take_bit_int_less_exp [of 32 x] take_bit_int_less_exp [of 16 x]
  by (simp_all add: u32_def u16_def uint32_def uint16_def)

lemma udec_typed: "u32 x \<Longrightarrow> udec (enc 4 x) = x" "u16 y \<Longrightarrow> udec (enc 2 y) = y"
  by (simp_all add: udec_enc u32_def u16_def)

lemma sdec_typed: "in_int32 x \<Longrightarrow> sdec (enc 4 x) = x"
  by (simp add: sdec_enc in_int32_def)

definition typed_chunk :: "riffchunk \<Rightarrow> bool" where
  "typed_chunk c \<longleftrightarrow> four (fcc c) \<and> u32 (cb c)"

definition typed_riff :: "riffheader \<Rightarrow> bool" where
  "typed_riff r \<longleftrightarrow> four (header_fcc r) \<and> u32 (file_cb r) \<and> four (file_fcc r)"

definition typed_list :: "rifflist \<Rightarrow> bool" where
  "typed_list r \<longleftrightarrow> four (list_fcc r) \<and> u32 (list_cb r) \<and> four (type_fcc r)"

definition typed_main :: "avimainheader \<Rightarrow> bool" where
  "typed_main m \<longleftrightarrow> four (h_fcc m) \<and> (\<forall>x \<in> {h_cb m, dwMicroSecPerFrame m, dwMaxBytesPerSec m, dwPaddingGranularity m,
     h_dwFlags m, dwTotalFrames m, h_dwInitialFrames m, dwStreams m, h_dwSuggestedBufferSize m, dwWidth m, dwHeight m}. u32 x)
     \<and> length (dwReserved m) = 16"

definition typed_strh :: "avistreamheader \<Rightarrow> bool" where
  "typed_strh s \<longleftrightarrow> four (s_fcc s) \<and> four (fccType s) \<and> four (fccHandler s) \<and>
     (\<forall>x \<in> {s_cb s, s_dwFlags s, s_dwInitialFrames s, dwScale s, dwRate s, dwStart s, dwLength s, s_dwSuggestedBufferSize s,
        dwQuality s, dwSampleSize s}. u32 x) \<and>
     (\<forall>x \<in> {wPriority s, wLanguage s, f_left s, f_top s, f_right s, f_bottom s}. u16 x)"

definition typed_strf :: "avibitmapheader \<Rightarrow> bool" where
  "typed_strf b \<longleftrightarrow> four (b_fcc b) \<and> (\<forall>x \<in> {b_cb b, biSize b, biCompression b, biSizeImage b, biClrUsed b, biClrImportant b}. u32 x)
     \<and> (\<forall>x \<in> {biWidth b, biHeight b, biXPelsPerMeter b, biYPelsPerMeter b}. in_int32 x)
     \<and> u16 (biPlanes b) \<and> u16 (biBitCount b) \<and> length (bmiColors b) = 4 * NCOLORS"

definition typed_str :: "str_header \<Rightarrow> bool" where
  "typed_str s \<longleftrightarrow> typed_strh (strh_header s) \<and> typed_strf (strf_header s)"

definition typed_header :: "avirawheader \<Rightarrow> bool" where
  "typed_header h \<longleftrightarrow> typed_riff (riff_header h) \<and> typed_list (hdrl_list h) \<and> typed_main (avih_header h)
     \<and> typed_list (strl_list h) \<and> length (str_headers h) = NSTREAMS \<and> (\<forall>s \<in> set (str_headers h). typed_str s)
     \<and> typed_list (movi_list h)"

lemmas typed_defs = typed_chunk_def typed_riff_def typed_list_def typed_main_def typed_strh_def typed_strf_def four_def

section \<open>Round trips of the parts\<close>

lemma get_part: "length xs = off \<Longrightarrow> length ys = n \<Longrightarrow> get off n (xs @ ys @ zs) = ys"
  by (simp add: get_def)

lemma chunk_of_bytes: "typed_chunk c \<Longrightarrow> chunk_of (chunk_bytes c) = c \<and> length (chunk_bytes c) = 8"
  by (simp add: chunk_of_def chunk_bytes_def get_def typed_defs udec_typed)

lemma riff_of_bytes: "typed_riff r \<Longrightarrow> riff_of (riff_bytes r) = r \<and> length (riff_bytes r) = 12"
  by (simp add: riff_of_def riff_bytes_def get_def typed_defs udec_typed)

lemma list_of_bytes: "typed_list r \<Longrightarrow> list_of (list_bytes r) = r \<and> length (list_bytes r) = 12"
  by (simp add: list_of_def list_bytes_def get_def typed_defs udec_typed)

lemma main_of_bytes: "typed_main m \<Longrightarrow> main_of (main_bytes m) = m \<and> length (main_bytes m) = 64"
  by (simp add: main_of_def main_bytes_def get_def typed_defs udec_typed)

lemma strh_of_bytes: "typed_strh s \<Longrightarrow> strh_of (strh_bytes s) = s \<and> length (strh_bytes s) = 64"
  by (simp add: strh_of_def strh_bytes_def get_def typed_defs udec_typed)

lemma strf_of_bytes: "typed_strf b \<Longrightarrow> strf_of (strf_bytes b) = b \<and> length (strf_bytes b) = 48 + 4 * NCOLORS"
  by (simp add: strf_of_def strf_bytes_def get_def typed_defs udec_typed sdec_typed)

lemma str_of_bytes: "typed_str s \<Longrightarrow> str_of (str_bytes s) = s \<and> length (str_bytes s) = str_size"
  using strh_of_bytes [of "strh_header s"] strf_of_bytes [of "strf_header s"]
  by (simp add: typed_str_def str_of_def str_bytes_def get_def str_size_def)

lemma get_offset: "length xs = k \<Longrightarrow> get (k + i) n (xs @ ys) = get i n ys"
  by (simp add: get_def)

lemma get_concat:
  assumes "\<forall>x \<in> set xs. length (f x) = n" "i < length xs"
  shows "get (i * n) n (concat (map f xs) @ ys) = f (xs ! i)"
  using assms
proof (induction xs arbitrary: i)
  case (Cons x xs)
  show ?case
  proof (cases i)
    case 0 with Cons.prems show ?thesis by (simp add: get_def)
  next
    case (Suc j) with Cons show ?thesis by (simp add: get_offset)
  qed
qed simp

lemma length_concat_same: "\<forall>x \<in> set xs. length (f x) = n \<Longrightarrow> length (concat (map f xs)) = length xs * n"
  by (induction xs) simp_all

lemma header_of_bytes:
  assumes h: "typed_header h"
  shows "header_of (header_bytes h) = h \<and> length (header_bytes h) = header_size"
proof -
  note r = riff_of_bytes [of "riff_header h"] and l = list_of_bytes [of "hdrl_list h"] list_of_bytes [of "strl_list h"]
    list_of_bytes [of "movi_list h"] and m = main_of_bytes [of "avih_header h"]
  have s: "\<forall>x \<in> set (str_headers h). length (str_bytes x) = str_size"
    using h str_of_bytes by (auto simp: typed_header_def)
  note c = length_concat_same [OF s]
  let ?pre = "riff_bytes (riff_header h) @ list_bytes (hdrl_list h) @ main_bytes (avih_header h) @ list_bytes (strl_list h)"
  let ?strs = "concat (map str_bytes (str_headers h))"
  have p: "length ?pre = 100" using h r l m by (simp add: typed_header_def)
  have e: "header_bytes h = ?pre @ ?strs @ list_bytes (movi_list h)" by (simp add: header_bytes_def)
  have n: "length (str_headers h) = NSTREAMS" using h by (simp add: typed_header_def)
  have "str_of (get (100 + i * str_size) str_size (header_bytes h)) = str_headers h ! i" if "i < NSTREAMS" for i
    unfolding e get_offset [OF p] using get_concat [OF s, of i] str_of_bytes [of "str_headers h ! i"] that n h
    by (simp add: typed_header_def)
  then have "map (\<lambda>i. str_of (get (100 + i * str_size) str_size (header_bytes h))) [0..<NSTREAMS] = str_headers h"
    using n by (auto intro: nth_equalityI)
  moreover have "get (100 + NSTREAMS * str_size) 12 (header_bytes h) = list_bytes (movi_list h)"
    unfolding e get_offset [OF p] using c n h l by (simp add: get_def typed_header_def)
  moreover have "get 0 12 (header_bytes h) = riff_bytes (riff_header h)" "get 12 12 (header_bytes h) = list_bytes (hdrl_list h)"
    "get 24 64 (header_bytes h) = main_bytes (avih_header h)" "get 88 12 (header_bytes h) = list_bytes (strl_list h)"
    using h r l m by (simp_all add: header_bytes_def get_def typed_header_def)
  moreover have "length (header_bytes h) = header_size" using p c n h l by (simp add: e header_size_def typed_header_def)
  ultimately show ?thesis using h r l m by (simp add: header_of_def typed_header_def)
qed

section \<open>Headers the recorder fills in\<close>

lemma length_palettes: "length (grey_palette old) = 4 * NCOLORS"
    "length old = 4 * NCOLORS \<Longrightarrow> length (no_palette old) = 4 * NCOLORS"
proof -
  have "length (grey_palette old) = length [0..<NCOLORS] * 4"
    unfolding grey_palette_def by (rule length_concat_same) simp
  then show "length (grey_palette old) = 4 * NCOLORS" by simp
  show "length (no_palette old) = 4 * NCOLORS" if "length old = 4 * NCOLORS"
    using that by (simp add: no_palette_def chunk_bytes_def NCOLORS_def)
qed

lemma typed_numerals [simp]: "u32 1" "u16 1" "u32 (numeral k) \<longleftrightarrow> (numeral k :: int) < 2 ^ 32" "in_int32 0"
  by (simp_all add: u32_def u16_def in_int32_def)

lemma typed_fill_stream:
  assumes "typed_str s" "in_int32 width" "in_int32 height" "u32 cf"
  shows "typed_str (fill_stream fps width height bpp cf s)"
  using assms length_palettes
  by (simp add: fill_stream_def Let_def typed_str_def typed_defs NCOLORS_def)

lemma typed_junk_stream: "typed_str junk_stream"
  by (simp add: junk_stream_def typed_str_def typed_defs nul4_def str_size_def NCOLORS_def)

lemma typed_initheader:
  assumes "aviraw_initheader fps width height bpp h0 = (0, h)"
  shows "typed_header h" "file_fcc (riff_header h) = ''AVI ''" "type_fcc (movi_list h) = ''movi''"
  using assms typed_junk_stream
  by (auto simp: aviraw_initheader_def Let_def typed_header_def typed_defs NSTREAMS_def str_size_def NCOLORS_def
      split: if_splits)

lemma typed_initstream:
  assumes "typed_header h" "aviraw_initstream stream fps width height bpp cf h = Some (r, h')"
    "in_int32 width" "in_int32 height" "u32 cf"
  shows "typed_header h'" "riff_header h' = riff_header h" "movi_list h' = movi_list h"
  using assms typed_fill_stream [of "str_headers h ! nat stream"]
  by (auto simp: aviraw_initstream_def typed_header_def set_update_subset_insert [THEN subsetD] 
      split: if_splits dest!: set_update_subset_insert [THEN subsetD])

text \<open>The headers that can come about.\<close>

inductive built_header :: "avirawheader \<Rightarrow> bool" where
  built_init: "aviraw_initheader fps width height bpp h0 = (0, h) \<Longrightarrow> built_header h"
| built_stream: "built_header h \<Longrightarrow> in_int32 width \<Longrightarrow> in_int32 height \<Longrightarrow> u32 cf \<Longrightarrow>
    aviraw_initstream stream fps width height bpp cf h = Some (r, h') \<Longrightarrow> built_header h'"

lemma built_header_ok: "built_header h \<Longrightarrow>
    typed_header h \<and> file_fcc (riff_header h) = ''AVI '' \<and> type_fcc (movi_list h) = ''movi''"
  by (induction rule: built_header.induct) (auto simp: typed_initheader typed_initstream)

section \<open>Chunks\<close>

lemma fput_data_ok:
  assumes "data \<noteq> []" "length data + 1 \<le> room f"
  shows "aviraw_fput_data data f = (0, f\<lparr>written := written f @ data @ (if odd (length data) then [0] else []),
    room := room f - length data - (if odd (length data) then 1 else 0)\<rparr>)"
  using assms by (simp add: aviraw_fput_data_def fwrite_ok)

lemma fput_with_header_ok:
  assumes "data \<noteq> []" "length data + 9 \<le> room f" "typed_chunk c"
  shows "\<exists>f'. fput_with_header c data f = (0, f')
    \<and> written f' = written f @ chunk_bytes c @ data @ (if odd (length data) then [0] else [])"
proof -
  have l: "length (chunk_bytes c) = 8" using chunk_of_bytes [OF assms(3)] by simp
  then have "chunk_bytes c \<noteq> []" by auto
  then show ?thesis using assms l by (simp add: fput_with_header_def fwrite_ok fput_data_ok)
qed

text \<open>A chunk that lies ahead is read, with its data and the padding byte.\<close>

lemma fget_chunk_ok:
  assumes a: "ahead (chunk_bytes c @ data @ (if odd (length data) then [0] else [])) r"
    and c: "typed_chunk c" "cb c = int (length data)" "data \<noteq> []" "length data < 2 ^ 31" "int (length data) \<le> maxsize"
  shows "aviraw_fget_chunkheader r = (0, Some c, moved 8 r)"
    "aviraw_fget_chunkdata c maxsize (moved 8 r) = (int (length data), data @ (if odd (length data) then [0] else []),
       moved (8 + length data + (if odd (length data) then 1 else 0)) r)"
proof -
  let ?d = "data @ (if odd (length data) then [0] else [])"
  note b = chunk_of_bytes [OF c(1)]
  have a1: "ahead (chunk_bytes c) r" "ahead ?d (moved 8 r)" using a b by (simp_all add: ahead_append)
  have "chunk_bytes c \<noteq> []" using b by auto
  then show "aviraw_fget_chunkheader r = (0, Some c, moved 8 r)"
    using fread_ahead [OF a1(1)] b by (simp add: aviraw_fget_chunkheader_def)
  have n: "nat (uint32 (int (length data) + pad (int (length data)))) = length ?d"
    using c(4) by (simp add: pad_def nat_add_distrib)
  have i: "int32 (int (length data)) = int (length data)" using c(4) by (simp add: in_int32_def)
  have m: "moved (length ?d) (moved 8 r) = moved (8 + length data + (if odd (length data) then 1 else 0)) r" by simp
  have "fread (length ?d) (moved 8 r) = (1, ?d, moved (length ?d) (moved 8 r))"
    by (rule fread_ahead [OF a1(2)]) (use c(3) in simp_all)
  then show "aviraw_fget_chunkdata c maxsize (moved 8 r) = (int (length data), ?d,
       moved (8 + length data + (if odd (length data) then 1 else 0)) r)"
    using c(2,5) by (simp add: aviraw_fget_chunkdata_def n i m del: length_append moved_moved)
qed

section \<open>The properties\<close>


definition ex_avi :: avirawheader where
  "ex_avi = snd (aviraw_initheader 25 8 8 8 undefined)"


text \<open>
  Data written as chunk of a stream is read back: the header, then the number of the stream, then
  the data, and the reader stands behind the chunk, the byte that makes its length even included.
\<close>
theorem stream_roundtrip:
  assumes "aviraw_fput_stream stream data f = (ret, f')" "0 \<le> stream" "stream \<le> 9"
    and "data \<noteq> []" "length data < 2 ^ 31" "length data + 9 \<le> room f" "int (length data) \<le> maxsize"
    and "content r = written f' @ rest" "fpos r = length (written f)"
  shows "ret = 0 \<and> (\<exists>c r1 bs r2. aviraw_fget_chunkheader r = (0, Some c, r1) \<and> aviraw_chunk_nr_stream c = stream
    \<and> aviraw_fget_chunkdata c maxsize r1 = (int (length data), bs, r2) \<and> take (length data) bs = data
    \<and> fpos r2 = length (written f') \<and> content r2 = content r)"
proof -
  let ?c = "stream_chunk stream (length data)" and ?p = "if odd (length data) then [0] else []"
  have tc: "typed_chunk ?c" by (simp add: stream_chunk_def typed_defs)
  from fput_with_header_ok [OF assms(4,6) tc] assms(1-3)
  have w: "ret = 0" "written f' = written f @ chunk_bytes ?c @ data @ ?p" by (auto simp: aviraw_fput_stream_def)
  have "ahead (chunk_bytes ?c @ data @ ?p) r" using assms(8,9) w(2) by (simp add: ahead_def)
  note G = fget_chunk_ok [OF this tc _ assms(4,5,7)]
  have n: "aviraw_chunk_nr_stream ?c = stream"
  proof -
    have "(of_char (char_of (48 + nat stream) :: char) :: int) = of_nat (of_char (char_of (48 + nat stream) :: char))"
      by (rule of_nat_of_char [symmetric])
    also have "\<dots> = 48 + stream" using assms(2,3) by (simp only: of_char_of) simp
    finally have "(of_char (char_of (48 + nat stream) :: char) :: int) = 48 + stream" .
    then show ?thesis using assms(2,3) by (simp add: aviraw_chunk_nr_stream_def stream_chunk_def)
  qed
  have "cb ?c = int (length data)" using assms(5) by (simp add: stream_chunk_def)
  note G' = G [OF this]
  have "fpos (moved (8 + length data + (if odd (length data) then 1 else 0)) r) = length (written f')"
    using assms(9) w(2) chunk_of_bytes [OF tc] by (simp add: moved_def)
  with G' n w(1) show ?thesis by (auto simp: moved_def)
qed

theorem stream_roundtrip_witness:
  "\<exists>c r1 bs r2. aviraw_fget_chunkheader \<lparr>content = written (snd (aviraw_fput_stream 3 [1, 2, 3] \<lparr>written = [7], room = 100\<rparr>)),
      fpos = 1, eof = False, seekable = True\<rparr> = (0, Some c, r1)
    \<and> aviraw_chunk_nr_stream c = 3 \<and> aviraw_fget_chunkdata c 100 r1 = (3, bs, r2) \<and> take 3 bs = [1, 2, 3]"
proof -
  let ?w = "aviraw_fput_stream 3 [1, 2, 3] \<lparr>written = [7], room = 100\<rparr>"
  show ?thesis
    using stream_roundtrip [of 3 "[1, 2, 3]" "\<lparr>written = [7], room = 100\<rparr>" "fst ?w" "snd ?w" 100
        "\<lparr>content = written (snd ?w), fpos = 1, eof = False, seekable = True\<rparr>" "[]"]
    by (simp add: numeral_3_eq_3) blast
qed

text \<open>
  A header the recorder has built and written to the start of a file is accepted when it is read
  back, and is the same in every field.
\<close>
theorem header_roundtrip:
  assumes "built_header h" "header_size \<le> room f" "written f = []"
    and "content r = written (snd (aviraw_fput_header h f)) @ rest" "fpos r = 0"
  shows "fst (aviraw_fput_header h f) = 0 \<and>
    (\<exists>r'. aviraw_fget_header r = (0, Some h, r') \<and> fpos r' = header_size \<and> content r' = content r)"
proof -
  note B = built_header_ok [OF assms(1)] and L = header_of_bytes [OF conjunct1 [OF built_header_ok [OF assms(1)]]]
  have ne: "header_bytes h \<noteq> []" using L by (auto simp: header_size_def)
  have w: "aviraw_fput_header h f = (0, f\<lparr>written := header_bytes h, room := room f - header_size\<rparr>)"
    using fwrite_ok [OF ne] L assms(2,3) by (simp add: aviraw_fput_header_def)
  have "ahead (header_bytes h) r" using assms(4,5) w by (simp add: ahead_def)
  from fread_ahead [OF this ne] have "fread header_size r = (1, header_bytes h, moved header_size r)" using L by simp
  then show ?thesis using w L B assms(5) by (simp add: aviraw_fget_header_def moved_def)
qed

theorem header_roundtrip_witness:
  "fst (aviraw_fget_header \<lparr>content = written (snd (aviraw_fput_header ex_avi \<lparr>written = [], room = 12000\<rparr>)),
     fpos = 0, eof = False, seekable = True\<rparr>) = 0"
proof -
  have "fst (aviraw_initheader 25 8 8 8 undefined) = 0" by (simp add: aviraw_initheader_def Let_def)
  then have "aviraw_initheader 25 8 8 8 undefined = (0, ex_avi)" by (simp add: ex_avi_def prod_eq_iff)
  then have "built_header ex_avi" by (rule built_init)
  from header_roundtrip [OF this, of "\<lparr>written = [], room = 12000\<rparr>"
      "\<lparr>content = written (snd (aviraw_fput_header ex_avi \<lparr>written = [], room = 12000\<rparr>)), fpos = 0, eof = False, seekable = True\<rparr>" "[]"]
  show ?thesis by (auto simp: header_size_def NSTREAMS_def str_size_def NCOLORS_def)
qed

text \<open>
  Reading the data of a chunk never brings more bytes than the caller's buffer holds, with one
  exception: when the data is as long as the buffer and of odd length, the byte that pads it is
  written behind the buffer.
\<close>
theorem chunkdata_bounds:
  assumes "aviraw_fget_chunkdata c maxsize r = (ret, bs, r')" "0 \<le> cb c" "cb c < 2 ^ 32 - 1"
  shows "int (length bs) \<le> (if cb c = maxsize \<and> odd maxsize then maxsize + 1 else max 0 maxsize)
    \<and> (0 \<le> ret \<longrightarrow> int (length bs) = cb c + pad (cb c))"
proof -
  have n: "uint32 (cb c + pad (cb c)) = cb c + pad (cb c)" using assms(2,3) by (simp add: pad_def)
  have p: "cb c + pad (cb c) \<le> (if cb c = maxsize \<and> odd maxsize then maxsize + 1 else maxsize)" if "cb c \<le> maxsize"
    using that by (auto simp: pad_def) presburger
  have "0 \<le> cb c + pad (cb c)" using assms(2) by (simp add: pad_def)
  then show ?thesis using assms(1,2) p n
    by (auto simp: aviraw_fget_chunkdata_def fread_def Let_def split: if_splits)
qed

theorem chunkdata_bounds_witness:
  "case aviraw_fget_chunkdata \<lparr>fcc = ''00db'', cb = 3\<rparr> 3 \<lparr>content = [1, 2, 3, 0], fpos = 0, eof = False, seekable = True\<rparr> of
     (ret, bs, r) \<Rightarrow> ret = 3 \<and> length bs = 4"
  using chunkdata_bounds [of "\<lparr>fcc = ''00db'', cb = 3\<rparr>" 3 "\<lparr>content = [1, 2, 3, 0], fpos = 0, eof = False, seekable = True\<rparr>"]
  by (simp add: aviraw_fget_chunkdata_def fread_def Let_def pad_def in_int32_def numeral_eq_Suc)

end
