(* ===== verification/Avi_Index.thy ===== *)
theory Avi_Index
  imports Avi_Props
begin

text \<open>
  The tool that appends an index to a recording (\<open>record/kogmo_rtdb_avi_idx.c\<close>): it maps the file,
  walks over its chunks, writes the index behind them and corrects the header. The model is the
  tool after it has mapped the file; sizes below 2 GB, which it demands.
\<close>

section \<open>The index\<close>

record aviidxentry =
  dwChunkId :: "char list"
  e_dwFlags :: int
  dwOffset :: int
  dwSize :: int

definition AVIIF_KEYFRAME :: int where
  "AVIIF_KEYFRAME = 0x10"

definition AVIF_HASINDEX :: "32 word" where
  "AVIF_HASINDEX = 0x10"

definition AVIF_ISINTERLEAVED :: "32 word" where
  "AVIF_ISINTERLEAVED = 0x100"

definition entry_bytes :: "aviidxentry \<Rightarrow> byte list" where
  "entry_bytes e = string_bytes (dwChunkId e) @ enc 4 (e_dwFlags e) @ enc 4 (dwOffset e) @ enc 4 (dwSize e)"

definition index_bytes :: "aviidxentry list \<Rightarrow> byte list" where
  "index_bytes es = chunk_bytes \<lparr>fcc = ''idx1'', cb = uint32 (16 * int (length es))\<rparr> @ concat (map entry_bytes es)"

section \<open>The header\<close>

definition fix_height :: "bool \<Rightarrow> int \<Rightarrow> int" where
  "fix_height cm hgt =
     (let hgt = (if \<not> cm \<and> hgt * (- 1) < 0 then hgt * (- 1) else hgt)
      in if cm \<and> hgt < 0 then hgt * (- 1) else hgt)"

definition fix_stream :: "bool \<Rightarrow> str_header \<Rightarrow> str_header" where
  "fix_stream cm s = s\<lparr>strh_header := (strh_header s)\<lparr>dwQuality := 0\<rparr>,
     strf_header := (strf_header s)\<lparr>biHeight := int32 (fix_height cm (biHeight (strf_header s))), biSize := 48 - 8\<rparr>\<rparr>"

section \<open>The walk over the chunks\<close>

record idx_state =
  entries :: "aviidxentry list"
  per_stream :: "nat list"
  stream9used :: bool

definition is_stream_chunk :: "riffchunk \<Rightarrow> bool" where
  "is_stream_chunk c \<longleftrightarrow> aviraw_chunk_nr_stream c \<noteq> - 1"

definition index_entry :: "riffchunk \<Rightarrow> nat \<Rightarrow> aviidxentry" where
  "index_entry c off = \<lparr>dwChunkId = fcc c, e_dwFlags = AVIIF_KEYFRAME, dwOffset = uint32 (int off + 4), dwSize = uint32 (cb c)\<rparr>"

text \<open>
  A chunk is indexed when it belongs to a stream, in compatibility mode also when it is the first.
  \<open>None\<close>: the counter of its "stream" lies outside the array.
\<close>

definition index_chunk :: "bool \<Rightarrow> riffchunk \<Rightarrow> nat \<Rightarrow> idx_state \<Rightarrow> idx_state option" where
  "index_chunk cm c off st =
     (if is_stream_chunk c \<or> (cm \<and> entries st = [])
      then let streamnr = (of_char (fcc c ! 1) :: int) - 48
           in if streamnr < 0 \<or> streamnr \<ge> int (length (per_stream st)) then None
              else Some (st\<lparr>entries := entries st @ [index_entry c off],
                per_stream := (per_stream st)[nat streamnr := per_stream st ! nat streamnr + 1],
                stream9used := stream9used st \<or> fcc c ! 1 = CHR ''9''\<rparr>)
      else Some st)"

definition chunk_step :: "riffchunk \<Rightarrow> nat" where
  "chunk_step c = nat (cb c) + (if odd (nat (cb c)) then 1 else 0) + 8"

function scan_chunks :: "bool \<Rightarrow> byte list \<Rightarrow> nat \<Rightarrow> nat \<Rightarrow> idx_state \<Rightarrow> (nat \<times> idx_state) option" where
  "scan_chunks cm fm movistart ptr st =
     (if ptr + 8 < length fm
      then let c = chunk_of (get ptr 8 fm)
           in case index_chunk cm c (ptr - movistart) st of
                None \<Rightarrow> None
              | Some st \<Rightarrow>
                  if fcc c = ''idx1'' then Some (ptr + chunk_step c, st)
                  else scan_chunks cm fm movistart (ptr + chunk_step c) st
      else Some (ptr, st))"
  by pat_completeness auto
termination by (relation "measure (\<lambda>(cm, fm, movistart, ptr, st). length fm - ptr)") (auto simp: chunk_step_def)

declare scan_chunks.simps [simp del]

section \<open>The tool\<close>

definition or_flags :: "int \<Rightarrow> 32 word \<Rightarrow> int" where
  "or_flags x f = uint (or (word_of_int x) f)"

definition final_header :: "nat \<Rightarrow> idx_state \<Rightarrow> avirawheader \<Rightarrow> avirawheader" where
  "final_header newsize st h =
     (let strs = (if \<not> stream9used st then (str_headers h)[9 := str_headers h ! 0] else str_headers h)
      in h\<lparr>movi_list := (movi_list h)\<lparr>list_cb := uint32 (int newsize - int header_size + 4)\<rparr>,
           riff_header := (riff_header h)\<lparr>file_cb := uint32 (int newsize + int (length (index_bytes (entries st))) - 8)\<rparr>,
           avih_header := (avih_header h)\<lparr>h_dwFlags := or_flags (h_dwFlags (avih_header h)) (or AVIF_HASINDEX AVIF_ISINTERLEAVED),
             dwTotalFrames := uint32 (int (per_stream st ! 0))\<rparr>,
           str_headers := map (\<lambda>i. (strs ! i)\<lparr>strh_header := (strh_header (strs ! i))\<lparr>dwLength := uint32 (int (per_stream st ! i))\<rparr>\<rparr>)
             [0..<NSTREAMS]\<rparr>)"

text \<open>
  The file afterwards. A chunk whose size points behind the end of the file leaves a gap of zeros.
  A file too short for a header faults.
\<close>

definition avi_idx :: "bool \<Rightarrow> byte list \<Rightarrow> byte list outcome" where
  "avi_idx cm fm =
     (if length fm < header_size then Faulted
      else
        let h = header_of (take header_size fm)
        in if type_fcc (movi_list h) \<noteq> ''movi'' then Died
           else
             let h = h\<lparr>str_headers := map (fix_stream cm) (str_headers h)\<rparr>
             in case scan_chunks cm fm header_size header_size
                  \<lparr>entries = [], per_stream = replicate NSTREAMS 0, stream9used = False\<rparr> of
                None \<Rightarrow> Faulted
              | Some (ptr, st) \<Rightarrow>
                  Returned (header_bytes (final_header ptr st h)
                    @ take (ptr - header_size) (drop header_size fm @ replicate (ptr - length fm) 0)
                    @ index_bytes (entries st)))"

section \<open>Files of whole chunks\<close>

type_synonym data_chunk = "riffchunk \<times> byte list"

definition padding :: "byte list \<Rightarrow> byte list" where
  "padding d = (if odd (length d) then [0] else [])"

definition chunk_file :: "data_chunk \<Rightarrow> byte list" where
  "chunk_file cd = (case cd of (c, d) \<Rightarrow> chunk_bytes c @ d @ padding d)"

definition whole :: "data_chunk \<Rightarrow> bool" where
  "whole cd \<longleftrightarrow> (case cd of (c, d) \<Rightarrow> typed_chunk c \<and> cb c = int (length d) \<and> d \<noteq> [] \<and> fcc c \<noteq> ''idx1'')"

text \<open>The index such a file should get: an entry for each chunk of a stream, in order.\<close>

fun index_of :: "nat \<Rightarrow> data_chunk list \<Rightarrow> aviidxentry list" where
  "index_of off [] = []"
| "index_of off (cd # cds) = (if is_stream_chunk (fst cd) then [index_entry (fst cd) off] else []) @
     index_of (off + length (chunk_file cd)) cds"

definition frames :: "data_chunk list \<Rightarrow> nat \<Rightarrow> nat" where
  "frames cds i = length (filter (\<lambda>cd. aviraw_chunk_nr_stream (fst cd) = int i) cds)"

lemma nr_stream_range:
  "is_stream_chunk c \<Longrightarrow> aviraw_chunk_nr_stream c = of_char (fcc c ! 1) - 48 \<and> 0 \<le> aviraw_chunk_nr_stream c \<and> aviraw_chunk_nr_stream c < 10"
  by (auto simp: is_stream_chunk_def aviraw_chunk_nr_stream_def Let_def split: if_splits)

lemma length_chunk_file: "whole (c, d) \<Longrightarrow> length (chunk_file (c, d)) = chunk_step c"
  using chunk_of_bytes [of c] by (simp add: whole_def chunk_file_def chunk_step_def padding_def)

lemma index_whole:
  assumes "whole (c, d)" "length (per_stream st) = NSTREAMS"
  obtains st' where "index_chunk False c off st = Some st'"
    "entries st' = entries st @ (if is_stream_chunk c then [index_entry c off] else [])" "length (per_stream st') = NSTREAMS"
    "\<forall>i < NSTREAMS. per_stream st' ! i = per_stream st ! i + frames [(c, d)] i"
proof (cases "is_stream_chunk c")
  case True
  note r = nr_stream_range [OF True]
  show ?thesis
    by (rule that [of "st\<lparr>entries := entries st @ [index_entry c off],
        per_stream := (per_stream st)[nat (aviraw_chunk_nr_stream c) := per_stream st ! nat (aviraw_chunk_nr_stream c) + 1],
        stream9used := stream9used st \<or> fcc c ! 1 = CHR ''9''\<rparr>"])
      (use r True assms(2) in \<open>auto simp: index_chunk_def Let_def frames_def NSTREAMS_def nth_list_update_if\<close>)
next
  case False
  then have "aviraw_chunk_nr_stream c = - 1" by (simp add: is_stream_chunk_def)
  with False assms(2) show ?thesis by (intro that [of st]) (simp_all add: index_chunk_def frames_def)
qed

lemma frames_Cons: "frames (cd # cds) i = frames [cd] i + frames cds i"
  by (simp add: frames_def)

lemma scan_whole:
  assumes "\<forall>cd \<in> set cds. whole cd" "length pre = p" "ms \<le> p" "length (per_stream st) = NSTREAMS"
  shows "\<exists>st'. scan_chunks False (pre @ concat (map chunk_file cds)) ms p st = Some (p + length (concat (map chunk_file cds)), st')
    \<and> entries st' = entries st @ index_of (p - ms) cds \<and> length (per_stream st') = NSTREAMS
    \<and> (\<forall>i < NSTREAMS. per_stream st' ! i = per_stream st ! i + frames cds i)"
  using assms
proof (induction cds arbitrary: pre p st)
  case Nil
  then show ?case by (simp add: scan_chunks.simps frames_def)
next
  case (Cons cd cds)
  obtain c d where cd: "cd = (c, d)" by fastforce
  have w: "whole (c, d)" using Cons.prems(1) cd by simp
  note cb = chunk_of_bytes [of c] and l = length_chunk_file [OF w]
  let ?fm = "pre @ concat (map chunk_file (cd # cds))"
  have fm: "?fm = pre @ chunk_bytes c @ d @ padding d @ concat (map chunk_file cds)" by (simp add: cd chunk_file_def)
  have c: "chunk_of (get p 8 ?fm) = c" unfolding fm using w cb Cons.prems(2) by (simp add: get_def whole_def)
  have lt: "p + 8 < length ?fm" unfolding fm using w cb Cons.prems(2) by (simp add: whole_def)
  obtain st1 where st1: "index_chunk False c (p - ms) st = Some st1"
    "entries st1 = entries st @ (if is_stream_chunk c then [index_entry c (p - ms)] else [])" "length (per_stream st1) = NSTREAMS"
    "\<forall>i < NSTREAMS. per_stream st1 ! i = per_stream st ! i + frames [(c, d)] i"
    using index_whole [OF w Cons.prems(4)] .
  have n: "fcc c \<noteq> ''idx1''" using w by (simp add: whole_def)
  have p': "length (pre @ chunk_file cd) = p + chunk_step c" using Cons.prems(2) l cd by simp
  have ms: "ms \<le> p + chunk_step c" "p + chunk_step c - ms = p - ms + chunk_step c" using Cons.prems(3) by simp_all
  from Cons.IH [OF _ p' ms(1) st1(3)] Cons.prems(1) obtain st' where
    "scan_chunks False ?fm ms (p + chunk_step c) st1 = Some (p + chunk_step c + length (concat (map chunk_file cds)), st')"
    "entries st' = entries st1 @ index_of (p - ms + chunk_step c) cds" "length (per_stream st') = NSTREAMS"
    "\<forall>i < NSTREAMS. per_stream st' ! i = per_stream st1 ! i + frames cds i"
    by (auto simp: ms(2))
  moreover have "scan_chunks False ?fm ms p st = scan_chunks False ?fm ms (p + chunk_step c) st1"
    using lt n by (subst scan_chunks.simps) (simp only: c st1(1) Let_def if_True if_False option.case)
  ultimately show ?case using st1(2,4) l by (auto simp: cd frames_Cons [of "(c, d)" cds])
qed

lemma index_of_points:
  assumes "e \<in> set (index_of off cds)" "\<forall>cd \<in> set cds. whole cd" "length pre = k + off"
    "length pre + length (concat (map chunk_file cds)) < 2 ^ 31"
  shows "get (k + nat (dwOffset e) - 4) 8 (pre @ concat (map chunk_file cds)) = string_bytes (dwChunkId e) @ enc 4 (dwSize e)"
  using assms
proof (induction cds arbitrary: off pre)
  case (Cons cd cds)
  obtain c d where cd: "cd = (c, d)" by fastforce
  have w: "whole (c, d)" using Cons.prems(2) cd by simp
  note cb = chunk_of_bytes [of c] and l = length_chunk_file [OF w]
  show ?case
  proof (cases "e \<in> set (index_of (off + length (chunk_file cd)) cds)")
    case True
    from Cons.IH [OF True, of "pre @ chunk_file cd"] Cons.prems(2-4) show ?thesis by simp
  next
    case False
    then have e: "e = index_entry c off" using Cons.prems(1) by (auto simp: cd split: if_splits)
    have len: "length pre + 8 \<le> length pre + length (concat (map chunk_file (cd # cds)))" using l by (simp add: cd chunk_step_def)
    then have "int off + 4 < 2 ^ 32" "cb c < 2 ^ 32" "0 \<le> cb c" "8 = length (chunk_bytes c)"
      using Cons.prems(3,4) w cb by (simp_all add: whole_def typed_defs u32_def)
    then have "nat (dwOffset e) = off + 4" "dwSize e = cb c" by (simp_all add: e index_entry_def nat_add_distrib)
    then show ?thesis using Cons.prems(3) \<open>8 = _\<close>
      by (simp add: get_def cd chunk_file_def e index_entry_def chunk_bytes_def)
  qed
qed simp

section \<open>The properties\<close>

text \<open>
  C30: On a recording of whole chunks the tool leaves the chunks as they are and appends an index with
  one entry for each chunk of a stream, in their order; the header then counts the frames of every
  stream and gives the sizes of the file and of the list of chunks.
\<close>
theorem index_lists_chunks:
  assumes h: "typed_header h" "type_fcc (movi_list h) = ''movi''" and w: "\<forall>cd \<in> set cds. whole cd"
  shows "\<exists>h'. avi_idx False (header_bytes h @ concat (map chunk_file cds))
      = Returned (header_bytes h' @ concat (map chunk_file cds) @ index_bytes (index_of 0 cds))
    \<and> dwTotalFrames (avih_header h') = uint32 (int (frames cds 0))
    \<and> (\<forall>i < NSTREAMS. dwLength (strh_header (str_headers h' ! i)) = uint32 (int (frames cds i)))
    \<and> list_cb (movi_list h') = uint32 (4 + int (length (concat (map chunk_file cds))))
    \<and> file_cb (riff_header h') = uint32 (int (header_size + length (concat (map chunk_file cds))
        + length (index_bytes (index_of 0 cds))) - 8)"
proof -
  let ?cs = "concat (map chunk_file cds)" and ?st = "\<lparr>entries = [], per_stream = replicate NSTREAMS 0, stream9used = False\<rparr>"
  note b = header_of_bytes [OF h(1)]
  have len: "length (header_bytes h) = header_size" using b by simp
  from scan_whole [OF w len order.refl, of ?st] obtain st where
    st: "scan_chunks False (header_bytes h @ ?cs) header_size header_size ?st = Some (header_size + length ?cs, st)"
      "entries st = index_of 0 cds" "\<forall>i < NSTREAMS. per_stream st ! i = frames cds i" by auto
  let ?h = "final_header (header_size + length ?cs) st (h\<lparr>str_headers := map (fix_stream False) (str_headers h)\<rparr>)"
  have "avi_idx False (header_bytes h @ ?cs) = Returned (header_bytes ?h @ ?cs @ index_bytes (index_of 0 cds))"
    unfolding avi_idx_def Let_def using h(2) b st by simp
  moreover have "0 < NSTREAMS" by (simp add: NSTREAMS_def)
  ultimately show ?thesis
    using st by (intro exI [of _ ?h]) (simp add: final_header_def Let_def algebra_simps)
qed

definition ex_chunks :: "data_chunk list" where
  "ex_chunks = [(\<lparr>fcc = ''RTDB'', cb = 2\<rparr>, [1, 2]), (\<lparr>fcc = ''00db'', cb = 3\<rparr>, [1, 2, 3]), (\<lparr>fcc = ''01db'', cb = 1\<rparr>, [9])]"

lemma ex_whole: "\<forall>cd \<in> set ex_chunks. whole cd"
  by (simp add: ex_chunks_def whole_def typed_defs)

lemma ex_avi_built: "built_header ex_avi"
proof (rule built_init)
  have "fst (aviraw_initheader 25 8 8 8 undefined) = 0" by (simp add: aviraw_initheader_def Let_def)
  then show "aviraw_initheader 25 8 8 8 undefined = (0, ex_avi)" by (simp add: ex_avi_def prod_eq_iff)
qed

theorem index_lists_chunks_witness:
  "\<exists>h'. avi_idx False (header_bytes ex_avi @ concat (map chunk_file ex_chunks))
      = Returned (header_bytes h' @ concat (map chunk_file ex_chunks) @ index_bytes
          [\<lparr>dwChunkId = ''00db'', e_dwFlags = 16, dwOffset = 14, dwSize = 3\<rparr>,
           \<lparr>dwChunkId = ''01db'', e_dwFlags = 16, dwOffset = 26, dwSize = 1\<rparr>])
    \<and> dwTotalFrames (avih_header h') = 1"
proof -
  have i: "index_of 0 ex_chunks = [\<lparr>dwChunkId = ''00db'', e_dwFlags = 16, dwOffset = 14, dwSize = 3\<rparr>,
      \<lparr>dwChunkId = ''01db'', e_dwFlags = 16, dwOffset = 26, dwSize = 1\<rparr>]" "frames ex_chunks 0 = 1" by code_simp+
  from index_lists_chunks [OF _ _ ex_whole, of ex_avi] built_header_ok [OF ex_avi_built] i show ?thesis by auto
qed

text \<open>
  C31: Every entry of the index leads to its chunk: the eight bytes at its offset, counted from the code
  "movi" of the list, are the code and the size the entry gives.
\<close>
theorem index_points_to_chunks:
  assumes h: "typed_header h" and w: "\<forall>cd \<in> set cds. whole cd"
    and l: "header_size + length (concat (map chunk_file cds)) < 2 ^ 31"
    and s: "scan_chunks False (header_bytes h @ concat (map chunk_file cds)) header_size header_size
      \<lparr>entries = [], per_stream = replicate NSTREAMS 0, stream9used = False\<rparr> = Some (p, st)" and e: "e \<in> set (entries st)"
  shows "get (header_size + nat (dwOffset e) - 4) 8 (header_bytes h @ concat (map chunk_file cds))
    = string_bytes (dwChunkId e) @ enc 4 (dwSize e)"
proof -
  note b = header_of_bytes [OF h]
  from scan_whole [OF w _ order.refl, of "header_bytes h" header_size "\<lparr>entries = [], per_stream = replicate NSTREAMS 0, stream9used = False\<rparr>"]
  have "e \<in> set (index_of 0 cds)" using b s e by auto
  from index_of_points [OF this w, of "header_bytes h" header_size] b l show ?thesis by simp
qed

theorem index_points_to_chunks_witness:
  "get (header_size + 14 - 4) 8 (header_bytes ex_avi @ concat (map chunk_file ex_chunks)) = string_bytes ''00db'' @ enc 4 3"
proof -
  have t: "typed_header ex_avi" using built_header_ok [OF ex_avi_built] by simp
  let ?e = "\<lparr>dwChunkId = ''00db'', e_dwFlags = 16, dwOffset = 14, dwSize = 3\<rparr>"
  have i: "?e \<in> set (index_of 0 ex_chunks)" "length (concat (map chunk_file ex_chunks)) = 32" by code_simp+
  from scan_whole [OF ex_whole _ order.refl, of "header_bytes ex_avi" header_size
      "\<lparr>entries = [], per_stream = replicate NSTREAMS 0, stream9used = False\<rparr>"] header_of_bytes [OF t]
  obtain st where "scan_chunks False (header_bytes ex_avi @ concat (map chunk_file ex_chunks)) header_size header_size
      \<lparr>entries = [], per_stream = replicate NSTREAMS 0, stream9used = False\<rparr> = Some (header_size + 32, st)"
    "entries st = index_of 0 ex_chunks" using i by auto
  from index_points_to_chunks [OF t ex_whole _ this(1), of ?e] this(2) i show ?thesis
    by (simp add: header_size_def NSTREAMS_def str_size_def NCOLORS_def)
qed

end
