(* ===== verification/Time_Index.thy ===== *)
theory Time_Index
  imports Kogmo_Time
begin

text \<open>
  The index from times to positions in a recording (\<open>record/kogmo_rtdb_timeidx.c\<close>): entry \<open>i\<close> of a
  growing array is the first position seen at or after \<open>i\<close> intervals from the first time.
\<close>

section \<open>State\<close>

definition IDXTYPE_GLOBALTIME :: int where
  "IDXTYPE_GLOBALTIME = 1"

definition TIMEIDXINTERVAL_DEFAULT :: cfloat where
  "TIMEIDXINTERVAL_DEFAULT = f64 (1 / 10)"

definition TIMEIDXENTRIES_DEFAULT :: nat where
  "TIMEIDXENTRIES_DEFAULT = nat (c_trunc (f64 (600 / TIMEIDXINTERVAL_DEFAULT)))"

text \<open>An entry is a time and a position. The list has the length of the allocated array.\<close>

record timeidx =
  idxtype :: int
  with_timestamps :: bool
  changed :: bool
  interval :: cfloat
  first_ts :: timestamp
  last_ts :: timestamp
  last_entry :: int
  max_entries :: int
  t_entry :: "(timestamp \<times> int) list"

text \<open>
  Reading the index: from a file, which holds the structure and as many entries as its size allows,
  or a new one. The entries of the new array are zero, those \<open>realloc\<close> adds are never read before
  they are written and zero in the model, too.
\<close>

definition new_timeidx :: timeidx where
  "new_timeidx = \<lparr>idxtype = IDXTYPE_GLOBALTIME, with_timestamps = True, changed = False,
     interval = f32 TIMEIDXINTERVAL_DEFAULT, first_ts = 0, last_ts = 0, last_entry = uint32 (- 1),
     max_entries = int TIMEIDXENTRIES_DEFAULT, t_entry = replicate TIMEIDXENTRIES_DEFAULT (0, 0)\<rparr>"

definition timeidx_init :: "timeidx option \<Rightarrow> timeidx outcome" where
  "timeidx_init file =
     (case file of
        None \<Rightarrow> Returned new_timeidx
      | Some x \<Rightarrow>
          if idxtype x \<noteq> IDXTYPE_GLOBALTIME then Died
          else if \<not> with_timestamps x then Died
          else
            let x = x\<lparr>max_entries := uint32 (int (length (t_entry x)))\<rparr>;
                x = (if last_entry x > uint32 (max_entries x - 1) then x\<lparr>last_entry := uint32 (max_entries x - 1)\<rparr> else x)
            in Returned (x\<lparr>changed := False\<rparr>))"

text \<open>What is written to the file, if anything.\<close>

definition timeidx_write :: "bool \<Rightarrow> timeidx \<Rightarrow> timeidx option \<times> timeidx" where
  "timeidx_write filename x =
     (if filename \<and> changed x
      then let n = uint32 (last_entry x + 1); x' = x\<lparr>max_entries := n\<rparr>
           in (Some (x'\<lparr>t_entry := take (nat n) (t_entry x)\<rparr>), x')
      else (None, x))"

section \<open>Use\<close>

definition timeidx_next_needed :: "timeidx option \<Rightarrow> timestamp" where
  "timeidx_next_needed p = (case p of None \<Rightarrow> 0 | Some x \<Rightarrow> kogmo_timestamp_add_secs (last_ts x) (interval x))"

definition timeidx_get_first :: "timeidx option \<Rightarrow> timestamp" where
  "timeidx_get_first p = (case p of None \<Rightarrow> 0 | Some x \<Rightarrow> first_ts x)"

definition timeidx_get_last :: "timeidx option \<Rightarrow> timestamp" where
  "timeidx_get_last p = (case p of None \<Rightarrow> 0 | Some x \<Rightarrow> last_ts x)"

text \<open>\<open>(int) (kogmo_timestamp_diff_secs (first_ts, ts) / interval)\<close>, in \<open>double\<close>.\<close>

definition idx_of :: "timeidx \<Rightarrow> timestamp \<Rightarrow> int" where
  "idx_of x ts = int32 (c_trunc (f64 (kogmo_timestamp_diff_secs (first_ts x) ts / interval x)))"

definition grow :: "int \<Rightarrow> timeidx \<Rightarrow> timeidx" where
  "grow i x =
     (if i \<ge> uint32 (max_entries x - 1)
      then x\<lparr>max_entries := uint32 (max_entries x + int TIMEIDXENTRIES_DEFAULT),
             t_entry := t_entry x @ replicate TIMEIDXENTRIES_DEFAULT (0, 0)\<rparr>
      else x)"

text \<open>\<open>None\<close>: a write outside the array.\<close>

definition set_entry :: "int \<Rightarrow> timestamp \<times> int \<Rightarrow> timeidx \<Rightarrow> timeidx option" where
  "set_entry i e x = (if nat i < length (t_entry x) then Some (x\<lparr>t_entry := (t_entry x)[nat i := e]\<rparr>) else None)"

function fill_entries :: "int \<Rightarrow> int \<Rightarrow> timestamp \<times> int \<Rightarrow> timeidx \<Rightarrow> timeidx option" where
  "fill_entries i idx e x =
     (if i \<le> idx
      then (case set_entry i e (grow i x) of None \<Rightarrow> None | Some x \<Rightarrow> fill_entries (i + 1) idx e x)
      else Some x)"
  by pat_completeness auto
termination by (relation "measure (\<lambda>(i, idx, e, x). nat (idx + 1 - i))") auto

declare fill_entries.simps [simp del]

definition timeidx_add :: "timestamp \<Rightarrow> int \<Rightarrow> timeidx option \<Rightarrow> (int \<times> timeidx option) option" where
  "timeidx_add ts off p =
     (case p of
        None \<Rightarrow> Some (- 1, p)
      | Some x \<Rightarrow>
          if ts \<le> 0 \<or> off \<le> 0 then Some (- 1, p)
          else if f32 (kogmo_timestamp_diff_secs (last_ts x) ts) < interval x \<and> first_ts x \<noteq> 0 then Some (0, p)
          else if first_ts x = 0
            then map_option (\<lambda>x. (0, Some x)) (set_entry 0 (ts, off) (x\<lparr>first_ts := ts, last_ts := ts, last_entry := 0\<rparr>))
          else
            let idx = idx_of x ts
            in if idx < 0 then Some (- 1, p)
               else map_option (\<lambda>x. (0, Some (x\<lparr>last_ts := ts, last_entry := idx, changed := True\<rparr>)))
                      (fill_entries (uint32 (last_entry x + 1)) idx (ts, off) x))"

text \<open>\<open>None\<close>: a read outside the array.\<close>

definition timeidx_lookup :: "timestamp \<Rightarrow> timeidx option \<Rightarrow> int option" where
  "timeidx_lookup ts p =
     (case p of
        None \<Rightarrow> Some (- 1)
      | Some x \<Rightarrow>
          if ts > last_ts x then Some (- 1)
          else
            let idx = idx_of x ts
            in if idx < 0 then Some (- 1)
               else let idx = (if idx > int32 (last_entry x) then int32 (last_entry x) else idx)
                    in if 0 \<le> idx \<and> nat idx < length (t_entry x) then Some (snd (t_entry x ! nat idx)) else None)"

section \<open>What the index holds\<close>

text \<open>The entries a sequence of calls leads to, as a list; \<open>iv\<close> is the interval.\<close>

definition accept :: "cfloat \<Rightarrow> timestamp \<times> int \<Rightarrow> (timestamp \<times> int) list \<Rightarrow> (timestamp \<times> int) list" where
  "accept iv e A =
     (if fst e \<le> 0 \<or> snd e \<le> 0 then A
      else if A = [] then [e]
      else if f32 (kogmo_timestamp_diff_secs (fst (last A)) (fst e)) < iv then A
      else A @ [e])"

definition bin :: "cfloat \<Rightarrow> timestamp \<Rightarrow> timestamp \<Rightarrow> int" where
  "bin iv first ts = c_trunc (f64 (kogmo_timestamp_diff_secs first ts / iv))"

lemma diff_secs_mono:
  assumes "0 \<le> a" "a \<le> b" "b \<le> c" "c < 2 ^ 63"
  shows "0 \<le> kogmo_timestamp_diff_secs a b" "kogmo_timestamp_diff_secs a b \<le> kogmo_timestamp_diff_secs a c"
proof -
  have e: "int64 (b - a) = b - a" "int64 (c - a) = c - a" using assms by (simp_all add: in_int64_def)
  have p: "(0::rat) \<le> of_int TICKSPERSECOND" by (simp add: TICKSPERSECOND_def)
  show "0 \<le> kogmo_timestamp_diff_secs a b" unfolding kogmo_timestamp_diff_secs_def e
    using assms p by (intro f64_nonneg divide_nonneg_nonneg) simp_all
  show "kogmo_timestamp_diff_secs a b \<le> kogmo_timestamp_diff_secs a c" unfolding kogmo_timestamp_diff_secs_def e
    using assms p by (intro f64_mono divide_right_mono divide_nonneg_nonneg f64_nonneg) simp_all
qed

lemma bin_mono:
  assumes "0 \<le> a" "a \<le> b" "b \<le> c" "c < 2 ^ 63" "0 < iv"
  shows "0 \<le> bin iv a b" "bin iv a b \<le> bin iv a c"
proof -
  note d = diff_secs_mono [OF assms(1-4)]
  have n: "0 \<le> kogmo_timestamp_diff_secs a b / iv" using d assms(5) by simp
  have "f64 (kogmo_timestamp_diff_secs a b / iv) \<le> f64 (kogmo_timestamp_diff_secs a c / iv)"
    by (rule f64_mono [OF n]) (use d assms(5) in \<open>simp add: divide_right_mono\<close>)
  then show "0 \<le> bin iv a b" "bin iv a b \<le> bin iv a c"
    using f64_nonneg [OF n] unfolding bin_def c_trunc_def by (auto intro: floor_mono)
qed

text \<open>A difference that is not below a positive interval is one to a later time.\<close>

lemma later:
  assumes "0 \<le> a" "a < 2 ^ 63" "0 \<le> b" "b < 2 ^ 63" "0 < iv" "\<not> f32 (kogmo_timestamp_diff_secs a b) < iv"
  shows "a < b"
proof (rule ccontr)
  assume "\<not> a < b"
  then have e: "int64 (b - a) = b - a" "b - a \<le> 0" using assms by (simp_all add: in_int64_def)
  have neg: "x \<le> 0 \<Longrightarrow> rnd p emin x \<le> 0" for x :: rat and p emin
  proof -
    assume x: "x \<le> 0"
    have "rne (x / 2 powi ulp_exp p emin x) \<le> 0" using x by (intro rne_le_int) (simp add: divide_nonpos_pos)
    then show ?thesis by (simp add: rnd_def Let_def mult_nonpos_nonneg)
  qed
  have "kogmo_timestamp_diff_secs a b \<le> 0" unfolding kogmo_timestamp_diff_secs_def e(1) f64_def
    using e(2) by (intro neg divide_nonpos_pos) (simp_all add: TICKSPERSECOND_def)
  then have "f32 (kogmo_timestamp_diff_secs a b) \<le> 0" unfolding f32_def by (rule neg)
  with assms(5,6) show False by linarith
qed

end
