(* ===== verification/Time_Index_Props.thy ===== *)
theory Time_Index_Props
  imports Time_Index
begin

text \<open>The time index refines the list of the positions accepted into it.\<close>

lemma index_constants: "TIMEIDXENTRIES_DEFAULT = 6000" "0 < f32 TIMEIDXINTERVAL_DEFAULT"
  by code_simp+

definition array_ok :: "timeidx \<Rightarrow> bool" where
  "array_ok x \<longleftrightarrow> max_entries x = int (length (t_entry x)) \<and> 1 \<le> length (t_entry x) \<and> length (t_entry x) < 2 ^ 31"

text \<open>Everything but the array.\<close>

definition same_index :: "timeidx \<Rightarrow> timeidx \<Rightarrow> bool" where
  "same_index x y \<longleftrightarrow> interval y = interval x \<and> first_ts y = first_ts x \<and> last_ts y = last_ts x \<and> last_entry y = last_entry x"

lemma grow_ok:
  assumes "array_ok x" "0 \<le> i" "i \<le> 2 ^ 30" "i \<le> int (length (t_entry x))"
  shows "array_ok (grow i x) \<and> nat i < length (t_entry (grow i x)) \<and> same_index x (grow i x)
    \<and> length (t_entry x) \<le> length (t_entry (grow i x)) \<and> (\<forall>j < length (t_entry x). t_entry (grow i x) ! j = t_entry x ! j)"
proof -
  have "1 \<le> int (length (t_entry x))" "int (length (t_entry x)) < 2 ^ 31" "max_entries x = int (length (t_entry x))"
    using assms(1) by (auto simp: array_ok_def)
  then have "0 \<le> max_entries x - 1" "max_entries x - 1 < 2 ^ 32" by (linarith, simp)
  then have "uint32 (max_entries x - 1) = max_entries x - 1" by (rule uint32_id)
  then have u: "uint32 (max_entries x - 1) = int (length (t_entry x)) - 1" using assms(1) by (simp add: array_ok_def)
  show ?thesis
    using assms u by (auto simp: grow_def array_ok_def same_index_def index_constants nth_append)
qed

lemma fill_ok:
  assumes "array_ok x" "0 \<le> i" "idx < 2 ^ 30" "i \<le> int (length (t_entry x))" "i \<le> 2 ^ 30"
  shows "\<exists>y. fill_entries i idx e x = Some y \<and> array_ok y \<and> same_index x y \<and> length (t_entry x) \<le> length (t_entry y)
    \<and> (\<forall>j < nat i. t_entry y ! j = t_entry x ! j) \<and> (\<forall>j. nat i \<le> j \<and> int j \<le> idx \<longrightarrow> t_entry y ! j = e \<and> j < length (t_entry y))"
  using assms
proof (induction i idx e x rule: fill_entries.induct)
  case (1 i idx e x)
  show ?case
  proof (cases "i \<le> idx")
    case False
    then have "\<not> (nat i \<le> j \<and> int j \<le> idx)" for j by linarith
    then show ?thesis using False 1(2-6) by (subst fill_entries.simps) (auto simp: same_index_def)
  next
    case True
    let ?g = "grow i x" and ?y = "(grow i x)\<lparr>t_entry := (t_entry (grow i x))[nat i := e]\<rparr>"
    note G = grow_ok [OF 1(2,3,6,5)]
    have s: "set_entry i e ?g = Some ?y" using G by (simp add: set_entry_def)
    have y: "array_ok ?y" "same_index x ?y" "length (t_entry ?y) = length (t_entry ?g)"
      using G by (simp_all add: array_ok_def same_index_def)
    have "0 \<le> i + 1" "i + 1 \<le> int (length (t_entry ?y))" "i + 1 \<le> 2 ^ 30" using G y(3) 1(3,4) True by auto
    from 1(1) [OF True s y(1) this(1) 1(4) this(2,3)] obtain z where z: "fill_entries (i + 1) idx e ?y = Some z" "array_ok z"
      "same_index ?y z" "length (t_entry ?y) \<le> length (t_entry z)" "\<forall>j < nat (i + 1). t_entry z ! j = t_entry ?y ! j"
      "\<forall>j. nat (i + 1) \<le> j \<and> int j \<le> idx \<longrightarrow> t_entry z ! j = e \<and> j < length (t_entry z)" by blast
    have n: "nat (i + 1) = Suc (nat i)" using 1(3) by simp
    have low: "t_entry z ! j = t_entry x ! j" if "j < nat i" for j
      using z(5) G that 1(5) n by simp
    have high: "t_entry z ! j = e \<and> j < length (t_entry z)" if "nat i \<le> j" "int j \<le> idx" for j
      using z(4,5,6) G that n by (cases "j = nat i") auto
    have "fill_entries i idx e x = Some z" using True s z(1) by (subst fill_entries.simps) simp
    then show ?thesis using z(2,3,4) y G low high by (auto simp: same_index_def)
  qed
qed

section \<open>The invariant\<close>

definition index_ok :: "cfloat \<Rightarrow> (timestamp \<times> int) list \<Rightarrow> timeidx \<Rightarrow> bool" where
  "index_ok iv A x \<longleftrightarrow> array_ok x \<and> interval x = iv \<and>
     (if A = [] then first_ts x = 0 \<and> last_ts x = 0
      else first_ts x = fst (hd A) \<and> last_ts x = fst (last A)
        \<and> (\<forall>a \<in> set A. 0 < fst (hd A) \<and> fst (hd A) \<le> fst a \<and> fst a \<le> fst (last A)) \<and> fst (last A) < 2 ^ 63
        \<and> last_entry x = bin iv (fst (hd A)) (fst (last A)) \<and> last_entry x < 2 ^ 30 \<and> nat (last_entry x) < length (t_entry x)
        \<and> (\<forall>j. int j \<le> last_entry x \<longrightarrow> find (\<lambda>a. int j \<le> bin iv (fst (hd A)) (fst a)) A = Some (t_entry x ! j)))"

lemma index_okD:
  assumes "index_ok iv A x" "A \<noteq> []"
  shows "array_ok x" "interval x = iv" "first_ts x = fst (hd A)" "last_ts x = fst (last A)" "0 < fst (hd A)"
    "fst (hd A) \<le> fst (last A)" "fst (last A) < 2 ^ 63" "last_entry x = bin iv (fst (hd A)) (fst (last A))"
    "last_entry x < 2 ^ 30" "nat (last_entry x) < length (t_entry x)"
    "\<And>a. a \<in> set A \<Longrightarrow> fst (hd A) \<le> fst a \<and> fst a \<le> fst (last A)"
    "\<And>j. int j \<le> last_entry x \<Longrightarrow> find (\<lambda>a. int j \<le> bin iv (fst (hd A)) (fst a)) A = Some (t_entry x ! j)"
proof -
  have al: "\<forall>a \<in> set A. 0 < fst (hd A) \<and> fst (hd A) \<le> fst a \<and> fst a \<le> fst (last A)"
    using assms by (simp add: index_ok_def)
  from bspec [OF al last_in_set [OF assms(2)]] show "0 < fst (hd A)" "fst (hd A) \<le> fst (last A)" by simp_all
  show "fst (hd A) \<le> fst a \<and> fst a \<le> fst (last A)" if "a \<in> set A" for a using al that by blast
qed (use assms in \<open>auto simp: index_ok_def\<close>)

lemma find_append: "find P (xs @ ys) = (case find P xs of None \<Rightarrow> find P ys | Some x \<Rightarrow> Some x)"
  by (induction xs) simp_all

lemma add_ok:
  assumes ok: "index_ok iv A x" and iv: "0 < iv" and t: "ts < 2 ^ 63"
    and short: "A \<noteq> [] \<Longrightarrow> bin iv (fst (hd A)) ts < 2 ^ 30"
  shows "\<exists>r y. timeidx_add ts off (Some x) = Some (r, Some y) \<and> index_ok iv (accept iv (ts, off) A) y"
proof (cases "ts \<le> 0 \<or> off \<le> 0")
  case True
  with ok show ?thesis by (auto simp: timeidx_add_def accept_def)
next
  case pos: False
  show ?thesis
  proof (cases "A = []")
    case True
    let ?y = "x\<lparr>first_ts := ts, last_ts := ts, last_entry := 0, t_entry := (t_entry x)[0 := (ts, off)]\<rparr>"
    have z: "bin iv ts ts = 0" by (simp add: bin_def kogmo_timestamp_diff_secs_def c_trunc_def in_int64_def)
    have s: "set_entry 0 (ts, off) (x\<lparr>first_ts := ts, last_ts := ts, last_entry := 0\<rparr>) = Some ?y"
      using ok by (simp add: set_entry_def index_ok_def array_ok_def Suc_le_eq)
    have "timeidx_add ts off (Some x) = Some (0, Some ?y)"
      using ok pos True s by (simp add: timeidx_add_def index_ok_def)
    moreover have "index_ok iv [(ts, off)] ?y"
      using ok pos t z True by (auto simp: index_ok_def array_ok_def Suc_le_eq)
    ultimately show ?thesis using pos True by (simp add: accept_def)
  next
    case False
    note ne = False
    note O = index_okD [OF ok ne]
    let ?f = "fst (hd A)" and ?l = "fst (last A)"
    note r = O(5-7)
    show ?thesis
    proof (cases "f32 (kogmo_timestamp_diff_secs ?l ts) < iv")
      case True
      then show ?thesis using ok O(2-5) ne pos by (auto simp: timeidx_add_def accept_def)
    next
      case False
      have lt: "?l < ts" by (rule later [OF _ r(3) _ t iv False]) (use r pos in auto)
      note m = bin_mono [of ?f ?l ts iv] and m0 = bin_mono(1) [of ?f ts ts iv]
      have b: "0 \<le> bin iv ?f ?l" "bin iv ?f ?l \<le> bin iv ?f ts" using m r lt t iv by auto
      have idx: "idx_of x ts = bin iv ?f ts"
        using O(2,3) short [OF ne] b by (simp add: idx_of_def bin_def [symmetric] in_int32_def)
      let ?i = "last_entry x + 1"
      have i: "uint32 ?i = ?i" "0 \<le> ?i" "?i \<le> 2 ^ 30" "?i \<le> int (length (t_entry x))" "last_entry x = bin iv ?f ?l"
        using O(8-10) b by auto
      from fill_ok [OF O(1) i(2) short [OF ne] i(4,3)] obtain y where
        y: "fill_entries ?i (bin iv ?f ts) (ts, off) x = Some y" "array_ok y" "same_index x y"
          "length (t_entry x) \<le> length (t_entry y)" "\<forall>j < nat ?i. t_entry y ! j = t_entry x ! j"
          "\<forall>j. nat ?i \<le> j \<and> int j \<le> bin iv ?f ts \<longrightarrow> t_entry y ! j = (ts, off) \<and> j < length (t_entry y)" by blast
      let ?y = "y\<lparr>last_ts := ts, last_entry := bin iv ?f ts, changed := True\<rparr>"
      have add: "timeidx_add ts off (Some x) = Some (0, Some ?y)"
        using O(2-5) pos False idx i(1) y(1) b by (simp add: timeidx_add_def Let_def)
      have acc: "accept iv (ts, off) A = A @ [(ts, off)]" using ne pos False by (simp add: accept_def)
      have len: "nat (bin iv ?f ts) < length (t_entry y)"
      proof (cases "bin iv ?f ts = bin iv ?f ?l")
        case True then show ?thesis using O(10) y(4) i(5) by simp
      next
        case False
        with y(6) [rule_format, of "nat (bin iv ?f ts)"] b i(5) show ?thesis by auto
      qed
      have found: "find (\<lambda>a. int j \<le> bin iv ?f (fst a)) (A @ [(ts, off)]) = Some (t_entry y ! j)" if j: "int j \<le> bin iv ?f ts" for j
      proof (cases "int j \<le> last_entry x")
        case True
        then show ?thesis using O(12) y(5) by (simp add: find_append)
      next
        case False
        have "\<not> int j \<le> bin iv ?f (fst a)" if "a \<in> set A" for a
        proof -
          have "bin iv ?f (fst a) \<le> bin iv ?f ?l" using O(11) [OF that] r iv by (intro bin_mono) auto
          with False i(5) show ?thesis by simp
        qed
        then have "find (\<lambda>a. int j \<le> bin iv ?f (fst a)) A = None" by (fastforce simp: find_None_iff)
        moreover have "nat ?i \<le> j" using False by simp
        ultimately show ?thesis using y(6) j by (simp add: find_append)
      qed
      have "index_ok iv (A @ [(ts, off)]) ?y"
        unfolding index_ok_def using y(2,3) O(2,3) O(11) ne r lt t short len found
        by (fastforce simp: array_ok_def same_index_def)
      with add acc show ?thesis by simp
    qed
  qed
qed

lemma lookup_ok:
  assumes ok: "index_ok iv A x" and iv: "0 < iv" and t: "A \<noteq> []" "fst (hd A) \<le> t" "t \<le> fst (last A)"
  shows "\<exists>a. find (\<lambda>a. bin iv (fst (hd A)) t \<le> bin iv (fst (hd A)) (fst a)) A = Some a \<and> timeidx_lookup t (Some x) = Some (snd a)"
proof -
  let ?f = "fst (hd A)" and ?l = "fst (last A)"
  note O = index_okD [OF ok t(1)]
  have b: "0 \<le> bin iv ?f t" "bin iv ?f t \<le> bin iv ?f ?l" using bin_mono [of ?f t ?l iv] O(5-7) t iv by simp_all
  have i: "idx_of x t = bin iv ?f t" using b O(2,3,8,9) by (simp add: idx_of_def bin_def [symmetric] in_int32_def)
  have l: "int32 (last_entry x) = bin iv ?f ?l" using b O(8,9) by (simp add: in_int32_def)
  have n: "nat (bin iv ?f t) < length (t_entry x)" using b O(8,10) by simp
  from O(12) [of "nat (bin iv ?f t)"] b O(8)
  have "find (\<lambda>a. bin iv ?f t \<le> bin iv ?f (fst a)) A = Some (t_entry x ! nat (bin iv ?f t))" by simp
  moreover have "timeidx_lookup t (Some x) = Some (snd (t_entry x ! nat (bin iv ?f t)))"
    using t(3) O(4) b i l n by (simp add: timeidx_lookup_def Let_def)
  ultimately show ?thesis by blast
qed

section \<open>Sequences of calls\<close>

fun add_all :: "(timestamp \<times> int) list \<Rightarrow> timeidx option \<Rightarrow> timeidx option option" where
  "add_all [] p = Some p"
| "add_all (e # es) p = (case timeidx_add (fst e) (snd e) p of None \<Rightarrow> None | Some (_, p) \<Rightarrow> add_all es p)"

lemma accept_hd: "A \<noteq> [] \<Longrightarrow> hd (accept iv e A) = hd A" "set (accept iv e A) \<subseteq> insert e (set A)"
    "A = [] \<Longrightarrow> accept iv e A \<noteq> [] \<Longrightarrow> accept iv e A = [e] \<and> 0 < fst e"
  by (auto simp: accept_def split: if_splits)

lemma add_all_ok:
  assumes "index_ok iv A x" "0 < iv" "\<forall>e \<in> set es. fst e < 2 ^ 63"
    and "\<forall>e \<in> set es. \<forall>a \<in> set A \<union> set es. 0 < fst a \<longrightarrow> bin iv (fst a) (fst e) < 2 ^ 30"
    and "A \<noteq> [] \<Longrightarrow> 0 < fst (hd A)"
  shows "\<exists>y. add_all es (Some x) = Some (Some y) \<and> index_ok iv (fold (accept iv) es A) y"
  using assms
proof (induction es arbitrary: A x)
  case (Cons e es)
  have "\<exists>r y. timeidx_add (fst e) (snd e) (Some x) = Some (r, Some y) \<and> index_ok iv (accept iv (fst e, snd e) A) y"
    by (rule add_ok [OF Cons.prems(1,2)]) (use Cons.prems in auto)
  then obtain r y where y: "timeidx_add (fst e) (snd e) (Some x) = Some (r, Some y)" "index_ok iv (accept iv e A) y" by auto
  have p: "0 < fst (hd (accept iv e A))" if "accept iv e A \<noteq> []"
    using that Cons.prems(5) accept_hd(1,3) [of A iv e] by (cases "A = []") auto
  have q: "\<forall>e' \<in> set es. \<forall>a \<in> set (accept iv e A) \<union> set es. 0 < fst a \<longrightarrow> bin iv (fst a) (fst e') < 2 ^ 30"
  proof (intro ballI impI)
    fix e' a assume "e' \<in> set es" "a \<in> set (accept iv e A) \<union> set es" "0 < fst a"
    moreover have "a \<in> set A \<union> set (e # es)" using \<open>a \<in> _\<close> accept_hd(2) [of iv e A] by auto
    ultimately show "bin iv (fst a) (fst e') < 2 ^ 30" using bspec [OF Cons.prems(4), of e'] by (meson bspec list.set_intros(2))
  qed
  have "\<exists>z. add_all es (Some y) = Some (Some z) \<and> index_ok iv (fold (accept iv) es (accept iv e A)) z"
    by (rule Cons.IH [OF y(2) Cons.prems(2) _ q p]) (use Cons.prems(3) in simp)
  with y(1) show ?case by simp
qed simp

lemma new_index_ok: "index_ok (f32 TIMEIDXINTERVAL_DEFAULT) [] new_timeidx"
  by (simp add: index_ok_def new_timeidx_def array_ok_def index_constants)

section \<open>The properties\<close>

text \<open>
  C32: The index refines the list of accepted positions: after any sequence of calls, in whatever order
  of times, the lookup of a time between the first and the last accepted one gives the first
  position accepted in the time's interval or in a later one, and no call leaves the array.
\<close>
theorem timeidx_refines_list:
  assumes "\<forall>e \<in> set es. fst e < 2 ^ 63" and iv: "iv = f32 TIMEIDXINTERVAL_DEFAULT"
    and "\<forall>e \<in> set es. \<forall>a \<in> set es. 0 < fst a \<longrightarrow> bin iv (fst a) (fst e) < 2 ^ 30" and A: "A = fold (accept iv) es []"
  shows "\<exists>x. add_all es (Some new_timeidx) = Some (Some x) \<and>
    (\<forall>t. A \<noteq> [] \<and> fst (hd A) \<le> t \<and> t \<le> fst (last A) \<longrightarrow>
      (\<exists>a. find (\<lambda>a. bin iv (fst (hd A)) t \<le> bin iv (fst (hd A)) (fst a)) A = Some a \<and> timeidx_lookup t (Some x) = Some (snd a)))"
proof -
  have p: "0 < iv" using index_constants(2) iv by simp
  from add_all_ok [OF new_index_ok [folded iv] p assms(1)] assms(3) A
  obtain x where "add_all es (Some new_timeidx) = Some (Some x)" "index_ok iv A x" by auto
  with lookup_ok [OF _ p] show ?thesis by blast
qed

theorem timeidx_refines_list_witness:
  "\<exists>x. add_all [(1000000000, 100), (1500000000, 200)] (Some new_timeidx) = Some (Some x)
     \<and> timeidx_lookup 1200000000 (Some x) = Some 200"
proof -
  let ?es = "[(1000000000, 100), (1500000000, 200)] :: (timestamp \<times> int) list"
  let ?iv = "f32 TIMEIDXINTERVAL_DEFAULT"
  have A: "fold (accept ?iv) ?es [] = [(1000000000, 100), (1500000000, 200)]" by code_simp
  have s: "\<forall>e \<in> set ?es. \<forall>a \<in> set ?es. 0 < fst a \<longrightarrow> bin ?iv (fst a) (fst e) < 2 ^ 30"
    by (simp; intro conjI; code_simp)
  have v: "bin ?iv 1000000000 1000000000 = 0" "bin ?iv 1000000000 1200000000 = 1" "bin ?iv 1000000000 1500000000 = 4" by code_simp+
  have f: "find (\<lambda>a. bin ?iv 1000000000 1200000000 \<le> bin ?iv 1000000000 (fst a))
      [(1000000000, 100), (1500000000, 200)] = Some (1500000000, 200 :: int)" by (simp add: v)
  have "\<forall>e \<in> set ?es. fst e < 2 ^ 63" by simp
  note T = timeidx_refines_list [OF this refl s refl, unfolded A list.sel]
  from T obtain x where x0: "add_all ?es (Some new_timeidx) = Some (Some x)" by blast
  have x: "add_all ?es (Some new_timeidx) = Some (Some x)"
    "\<exists>a. find (\<lambda>a. bin ?iv 1000000000 1200000000 \<le> bin ?iv 1000000000 (fst a))
        [(1000000000, 100), (1500000000, 200)] = Some a \<and> timeidx_lookup 1200000000 (Some x) = Some (snd a)"
  proof -
    from T x0 have "\<forall>t. [(1000000000, 100), (1500000000, 200)] \<noteq> ([] :: (timestamp \<times> int) list)
        \<and> fst (1000000000 :: timestamp, 100 :: int) \<le> t
        \<and> t \<le> fst (last [(1000000000 :: timestamp, 100 :: int), (1500000000, 200)]) \<longrightarrow>
        (\<exists>a. find (\<lambda>a. bin ?iv (fst (1000000000 :: timestamp, 100 :: int)) t \<le> bin ?iv (fst (1000000000 :: timestamp, 100 :: int)) (fst a))
          [(1000000000, 100), (1500000000, 200)] = Some a \<and> timeidx_lookup t (Some x) = Some (snd a))"
      unfolding x0 option.inject by metis
    then have "\<exists>a. find (\<lambda>a. bin ?iv (fst (1000000000 :: timestamp, 100 :: int)) 1200000000
          \<le> bin ?iv (fst (1000000000 :: timestamp, 100 :: int)) (fst a))
          [(1000000000, 100), (1500000000, 200)] = Some a \<and> timeidx_lookup 1200000000 (Some x) = Some (snd a)"
      by (rule allE [of _ 1200000000]) (erule mp, simp)
    then show "\<exists>a. find (\<lambda>a. bin ?iv 1000000000 1200000000 \<le> bin ?iv 1000000000 (fst a))
        [(1000000000, 100), (1500000000, 200)] = Some a \<and> timeidx_lookup 1200000000 (Some x) = Some (snd a)"
      by (simp only: fst_conv)
  qed (rule x0)
  from x(2) have "timeidx_lookup 1200000000 (Some x) = Some 200" unfolding f by simp
  with x(1) show ?thesis by blast
qed

text \<open>
  An index that is written to a file and read again answers every lookup as before; what has been
  read is allocated exactly as long as its entries.
\<close>
theorem timeidx_file_roundtrip:
  assumes "index_ok iv A x" "A \<noteq> []" "0 < iv" "changed x" "idxtype x = IDXTYPE_GLOBALTIME" "with_timestamps x"
  shows "\<exists>f x' y. timeidx_write True x = (Some f, x') \<and> timeidx_init (Some f) = Returned y
    \<and> max_entries y = int (length (t_entry y)) \<and> (\<forall>t. timeidx_lookup t (Some y) = timeidx_lookup t (Some x))"
proof -
  let ?f = "fst (hd A)" and ?l = "fst (last A)"
  note O = index_okD [OF assms(1,2)]
  have b: "0 \<le> last_entry x" using bin_mono(1) [of ?f ?l ?l iv] O(5-8) assms(3) by simp
  let ?n = "last_entry x + 1"
  have n: "uint32 ?n = ?n" "uint32 (last_entry x) = last_entry x" using b O(9) by simp_all
  let ?w = "x\<lparr>max_entries := ?n, t_entry := take (nat ?n) (t_entry x)\<rparr>"
  have len: "length (take (nat ?n) (t_entry x)) = nat ?n" using O(10) b by simp
  have w: "timeidx_write True x = (Some ?w, x\<lparr>max_entries := ?n\<rparr>)" using assms(4) n by (simp add: timeidx_write_def Let_def)
  let ?y = "?w\<lparr>changed := False\<rparr>"
  have i: "timeidx_init (Some ?w) = Returned ?y"
    using assms(5,6) len n b by (simp add: timeidx_init_def Let_def)
  have "timeidx_lookup t (Some ?y) = timeidx_lookup t (Some x)" for t
  proof -
    have e: "idx_of ?y t = idx_of x t" by (simp add: idx_of_def)
    have l: "int32 (last_entry x) = last_entry x" using b O(9) by (simp add: in_int32_def)
    show ?thesis using b O(10) by (auto simp: timeidx_lookup_def Let_def e l)
  qed
  with w i len n b show ?thesis by (intro exI [of _ ?w] exI [of _ "x\<lparr>max_entries := ?n\<rparr>"] exI [of _ ?y]) simp
qed

theorem timeidx_file_roundtrip_witness:
  "\<exists>f x' y. timeidx_write True (new_timeidx\<lparr>first_ts := 5, last_ts := 5, last_entry := 0, t_entry := (5, 7) # replicate 5999 (0, 0),
      changed := True\<rparr>) = (Some f, x') \<and> timeidx_init (Some f) = Returned y \<and> max_entries y = int (length (t_entry y))"
proof -
  let ?iv = "f32 TIMEIDXINTERVAL_DEFAULT"
  let ?x = "new_timeidx\<lparr>first_ts := 5, last_ts := 5, last_entry := 0, t_entry := (5, 7) # replicate 5999 (0, 0), changed := True\<rparr>"
  have "bin ?iv 5 5 = 0" by (simp add: bin_def kogmo_timestamp_diff_secs_def c_trunc_def in_int64_def)
  then have "index_ok ?iv [(5, 7)] ?x" by (auto simp: index_ok_def array_ok_def new_timeidx_def index_constants)
  from timeidx_file_roundtrip [OF this _ index_constants(2)] show ?thesis by (simp add: new_timeidx_def) blast
qed

end
