(* ===== verification/Info_Codec.thy ===== *)
theory Info_Codec
  imports Rtdb_Types
begin

text \<open>
  The memory of the metadata of an object (\<open>kogmo_rtdb_obj_info_t\<close>, packed, 112 bytes), which the
  recorder writes to the file: integers little endian, a \<open>float\<close> as an IEEE single, the flags from
  the lowest bit on.
\<close>

section \<open>Singles\<close>

text \<open>
  Sign, exponent and fraction of a finite \<open>float\<close>; there is one zero. Exponent 255, which stands
  for infinities and no numbers, is never made and read like the others.
\<close>

definition mantissa32 :: "cfloat \<Rightarrow> int" where
  "mantissa32 x = \<lfloor>\<bar>x\<bar> / 2 powi (ulp_exp 24 (- 149) x)\<rfloor>"

definition single_bits :: "cfloat \<Rightarrow> int" where
  "single_bits x =
     (let m = mantissa32 x
      in (if x < 0 then 2 ^ 31 else 0) +
         (if m < 2 ^ 23 then m else (ulp_exp 24 (- 149) x + 150) * 2 ^ 23 + (m - 2 ^ 23)))"

definition single_of :: "int \<Rightarrow> cfloat" where
  "single_of b =
     (let ex = b div 2 ^ 23 mod 2 ^ 8; m = b mod 2 ^ 23
      in (if b \<ge> 2 ^ 31 then - 1 else 1) *
         (if ex = 0 then of_int m * 2 powi (- 149) else of_int (m + 2 ^ 23) * 2 powi (ex - 150)))"

definition is_single :: "cfloat \<Rightarrow> bool" where
  "is_single x \<longleftrightarrow> f32 x = x \<and> \<bar>x\<bar> < 2 ^ 128"

lemma single_parts:
  assumes "is_single x" "x \<noteq> 0"
  defines "e \<equiv> ulp_exp 24 (- 149) x"
  shows "\<bar>x\<bar> = of_int (mantissa32 x) * 2 powi e" "- 149 \<le> e" "e \<le> 104" "0 \<le> mantissa32 x" "mantissa32 x < 2 ^ 24"
    "- 149 < e \<Longrightarrow> 2 ^ 23 \<le> mantissa32 x"
proof -
  let ?m = "mantissa32 x"
  have u: "(0::rat) < 2 powi e" by simp
  have "x = of_int (rne (x / 2 powi e)) * 2 powi e"
    using assms by (simp add: is_single_def f32_def rnd_def Let_def)
  then obtain n where n: "x = of_int n * 2 powi e" by blast
  then have a: "\<bar>x\<bar> = of_int \<bar>n\<bar> * 2 powi e" by (simp add: abs_mult)
  then have "\<bar>x\<bar> / 2 powi e = of_int \<bar>n\<bar>" using u by (simp add: field_simps)
  then have m: "?m = \<bar>n\<bar>" by (simp only: mantissa32_def e_def [symmetric] floor_of_int)
  show eq: "\<bar>x\<bar> = of_int ?m * 2 powi e" using a m by simp
  show "- 149 \<le> e" by (simp add: e_def ulp_exp_def)
  show "0 \<le> ?m" using m by simp
  note b = fexp_bounds [OF assms(2)]
  have f: "fexp x \<le> 127"
  proof (rule ccontr)
    assume "\<not> fexp x \<le> 127"
    then have "(2::rat) powi 128 \<le> 2 powi fexp x" by (intro power_int_increasing) simp_all
    with b(1) assms(1) show False by (simp add: is_single_def)
  qed
  then show "e \<le> 104" by (simp add: e_def ulp_exp_def)
  have "fexp x + 1 \<le> e + 24" by (simp add: e_def ulp_exp_def)
  then have "(2::rat) powi (fexp x + 1) \<le> 2 powi (e + 24)" by (intro power_int_increasing) simp_all
  then have "\<bar>x\<bar> < 2 powi (e + 24)" by (rule less_le_trans [OF b(2)])
  then have "of_int ?m * 2 powi e < (2 ^ 24 :: rat) * 2 powi e" by (simp add: eq power_int_add)
  then have "(of_int ?m :: rat) < of_int (2 ^ 24)" using u by (simp add: mult_less_cancel_right_pos)
  then show "?m < 2 ^ 24" by (simp only: of_int_less_iff)
  assume "- 149 < e"
  then have "fexp x = e + 23" by (simp add: e_def ulp_exp_def)
  with b(1) eq have "(2 ^ 23 :: rat) * 2 powi e \<le> of_int ?m * 2 powi e" by (simp add: power_int_add)
  then have "of_int (2 ^ 23) \<le> (of_int ?m :: rat)" using u by (simp add: mult_le_cancel_right_pos)
  then show "2 ^ 23 \<le> ?m" by (simp only: of_int_le_iff)
qed

lemma single_bits_range: "is_single x \<Longrightarrow> 0 \<le> single_bits x \<and> single_bits x < 2 ^ 32"
proof (cases "x = 0")
  assume "is_single x" "x \<noteq> 0"
  from single_parts [OF this] show ?thesis by (auto simp: single_bits_def Let_def)
qed (simp add: single_bits_def mantissa32_def)

lemma bit_fields:
  assumes "0 \<le> m" "m < 2 ^ 23" "0 \<le> f" "f < 2 ^ 8"
  shows "(s * 2 ^ 31 + f * 2 ^ 23 + m) div 2 ^ 23 mod 2 ^ 8 = (f :: int)" "(s * 2 ^ 31 + f * 2 ^ 23 + m) mod 2 ^ 23 = m"
proof -
  have e: "s * 2 ^ 31 + f * 2 ^ 23 + m = m + (s * 2 ^ 8 + f) * 2 ^ 23" by simp
  show "(s * 2 ^ 31 + f * 2 ^ 23 + m) mod 2 ^ 23 = m"
    unfolding e mod_mult_self1 using assms by (intro mod_pos_pos_trivial) simp_all
  have "(s * 2 ^ 31 + f * 2 ^ 23 + m) div 2 ^ 23 = (s * 2 ^ 8 + f) + m div 2 ^ 23"
    unfolding e by (rule div_mult_self1) simp
  also have "m div 2 ^ 23 = 0" using assms by (intro div_pos_pos_trivial) simp_all
  finally have "(s * 2 ^ 31 + f * 2 ^ 23 + m) div 2 ^ 23 = f + s * 2 ^ 8" by simp
  then show "(s * 2 ^ 31 + f * 2 ^ 23 + m) div 2 ^ 23 mod 2 ^ 8 = f"
    unfolding \<open>_ = f + s * 2 ^ 8\<close> mod_mult_self1 using assms by (intro mod_pos_pos_trivial) simp_all
qed

lemma single_roundtrip:
  assumes "is_single x"
  shows "single_of (single_bits x) = x"
proof (cases "x = 0")
  case False
  note p = single_parts [OF assms False]
  let ?m = "mantissa32 x" and ?e = "ulp_exp 24 (- 149) x"
  define s :: int where "s = (if x < 0 then 1 else 0)"
  define f where "f = (if ?m < 2 ^ 23 then 0 else ?e + 150)"
  define m where "m = (if ?m < 2 ^ 23 then ?m else ?m - 2 ^ 23)"
  have r: "0 \<le> m" "m < 2 ^ 23" "0 \<le> f" "f < 2 ^ 8" using p unfolding m_def f_def by auto
  have b: "single_bits x = s * 2 ^ 31 + f * 2 ^ 23 + m" by (simp add: single_bits_def s_def f_def m_def Let_def)
  note ex = bit_fields [OF r, of s, folded b]
  have small: "?m < 2 ^ 23 \<Longrightarrow> ?e = - 149" using p(2,6) by linarith
  have s: "single_bits x \<ge> 2 ^ 31 \<longleftrightarrow> x < 0" using r b by (auto simp: s_def)
  have "single_of (single_bits x) = (if x < 0 then - 1 else 1) * (of_int ?m * 2 powi ?e)"
  proof (cases "?m < 2 ^ 23")
    case True
    then show ?thesis using ex s small by (simp add: single_of_def Let_def f_def m_def)
  next
    case False
    then have "?e + 150 \<noteq> 0" using p(2) by linarith
    then show ?thesis using ex s False by (simp add: single_of_def Let_def f_def m_def)
  qed
  then show ?thesis using p(1) by (simp split: if_splits)
qed (simp add: single_bits_def single_of_def mantissa32_def)

section \<open>The structure\<close>

definition flags_bits :: "obj_flags \<Rightarrow> int" where
  "flags_bits f = horner_sum of_bool 2 [read_deny f, write_allow f, keep_alloc f, unique f, cycle_watch f,
     persistent f, parent_delete f, no_notifies f, immediately_delete f, withhold_stale f]"

definition flags_of :: "int \<Rightarrow> obj_flags" where
  "flags_of b = \<lparr>read_deny = bit b 0, write_allow = bit b 1, keep_alloc = bit b 2, unique = bit b 3, cycle_watch = bit b 4,
     persistent = bit b 5, parent_delete = bit b 6, no_notifies = bit b 7, immediately_delete = bit b 8,
     withhold_stale = bit b 9\<rparr>"

definition info_size :: nat where
  "info_size = 112"

definition info_bytes :: "obj_info \<Rightarrow> byte list" where
  "info_bytes m = enc 4 (oid m) @ string_bytes (name m) @ enc 8 (created_ts m) @ enc 4 (created_proc m) @
     enc 8 (lastmodified_ts m) @ enc 4 (lastmodified_proc m) @ enc 8 (deleted_ts m) @ enc 4 (deleted_proc m) @
     enc 4 (parent_oid m) @ enc 4 (otype m) @ enc 4 (size_max m) @ enc 4 (single_bits (history_interval m)) @
     enc 4 (single_bits (min_cycletime m)) @ enc 4 (single_bits (max_cycletime m)) @ enc 4 (flags_bits (flags m)) @
     enc 4 (history_size m) @ enc 4 (history_slot m) @ enc 4 (buffer_idx m)"

definition info_of :: "byte list \<Rightarrow> obj_info" where
  "info_of bs = \<lparr>oid = sdec (get 0 4 bs), name = bytes_string (get 4 32 bs), created_ts = sdec (get 36 8 bs),
     created_proc = sdec (get 44 4 bs), lastmodified_ts = sdec (get 48 8 bs), lastmodified_proc = sdec (get 56 4 bs),
     deleted_ts = sdec (get 60 8 bs), deleted_proc = sdec (get 68 4 bs), parent_oid = sdec (get 72 4 bs),
     otype = sdec (get 76 4 bs), size_max = sdec (get 80 4 bs), history_interval = single_of (udec (get 84 4 bs)),
     min_cycletime = single_of (udec (get 88 4 bs)), max_cycletime = single_of (udec (get 92 4 bs)),
     flags = flags_of (udec (get 96 4 bs)), history_size = sdec (get 100 4 bs), history_slot = sdec (get 104 4 bs),
     buffer_idx = sdec (get 108 4 bs)\<rparr>"

text \<open>Metadata with fields in their C types.\<close>

definition typed_info :: "obj_info \<Rightarrow> bool" where
  "typed_info m \<longleftrightarrow> length (name m) = NAME_MAXLEN
     \<and> (\<forall>x \<in> {oid m, created_proc m, lastmodified_proc m, deleted_proc m, parent_oid m, otype m, size_max m,
          history_size m, history_slot m, buffer_idx m}. in_int32 x)
     \<and> (\<forall>x \<in> {created_ts m, lastmodified_ts m, deleted_ts m}. in_int64 x)
     \<and> (\<forall>x \<in> {history_interval m, min_cycletime m, max_cycletime m}. is_single x)"

lemma flags_roundtrip: "flags_of (flags_bits f) = f" "0 \<le> flags_bits f" "flags_bits f < 2 ^ 32"
proof -
  show "flags_of (flags_bits f) = f"
    unfolding flags_of_def flags_bits_def bit_horner_sum_bit_iff by simp
  let ?bs = "[read_deny f, write_allow f, keep_alloc f, unique f, cycle_watch f,
     persistent f, parent_delete f, no_notifies f, immediately_delete f, withhold_stale f]"
  have "flags_bits f < 2 ^ length ?bs" unfolding flags_bits_def by (rule horner_sum_of_bool_2_less)
  also have "\<dots> < 2 ^ 32" by simp
  finally show "flags_bits f < 2 ^ 32" .
  have nn: "(0::int) \<le> horner_sum of_bool 2 bs" for bs by (induction bs) simp_all
  show "0 \<le> flags_bits f" unfolding flags_bits_def by (rule nn)
qed

lemma udec_word: "0 \<le> x \<Longrightarrow> x < 2 ^ 32 \<Longrightarrow> udec (enc 4 x) = x"
  by (simp add: udec_enc)

lemma sdec_word: "in_int32 x \<Longrightarrow> sdec (enc 4 x) = x" "in_int64 y \<Longrightarrow> sdec (enc 8 y) = y"
  by (simp_all add: sdec_enc in_int32_def in_int64_def)

lemma udec_single: "is_single x \<Longrightarrow> single_of (udec (enc 4 (single_bits x))) = x"
  using single_bits_range [of x] single_roundtrip [of x] by (simp add: udec_word)

lemma udec_flags: "flags_of (udec (enc 4 (flags_bits f))) = f"
  using flags_roundtrip [of f] by (simp only: udec_word)

lemma length_info_bytes [simp]: "length (name m) = NAME_MAXLEN \<Longrightarrow> length (info_bytes m) = info_size"
  by (simp add: info_bytes_def info_size_def NAME_MAXLEN_def)

lemma info_of_bytes: "typed_info m \<Longrightarrow> info_of (info_bytes m) = m"
  by (simp add: info_of_def info_bytes_def get_def typed_info_def NAME_MAXLEN_def sdec_word udec_single
      udec_flags)

lemma info_of_take: "info_size \<le> n \<Longrightarrow> info_of (take n bs) = info_of bs"
  by (simp add: info_of_def get_take info_size_def)

lemma info_of_append: "length xs = info_size \<Longrightarrow> info_of (xs @ ys) = info_of xs"
  using info_of_take [of info_size "xs @ ys"] by simp

end
