(* ===== verification/Recorder.thy ===== *)
theory Recorder
  imports Avi_Codec Info_Codec Objdata_Slot Objmeta_Search
begin

text \<open>
  The recorder (\<open>record/kogmo_rtdb_record.c\<close>): it gets a trace message for every insert, write,
  change and delete in the database, decides whether the object is one to be recorded, reads the
  metadata and the data and appends chunks to the file. Options and set-up are arguments of the
  model: the lists that \<open>getopt\<close> fills, the objects of the video streams and the status object.
  Messages to the terminal are left out.
\<close>

section \<open>Chunks of the database\<close>

record rtdb_stream_chunk =
  k_fcc :: "char list"
  k_cb :: int
  k_ts :: timestamp
  k_oid :: int
  k_type :: int

definition STREAM_TYPE_ADDOBJ :: int where "STREAM_TYPE_ADDOBJ = 1"
definition STREAM_TYPE_DELOBJ :: int where "STREAM_TYPE_DELOBJ = 2"
definition STREAM_TYPE_UPDOBJ :: int where "STREAM_TYPE_UPDOBJ = 3"
definition STREAM_TYPE_UPDOBJ_NEXT :: int where "STREAM_TYPE_UPDOBJ_NEXT = 4"
definition STREAM_TYPE_RFROBJ :: int where "STREAM_TYPE_RFROBJ = 5"
definition STREAM_TYPE_CHGOBJ :: int where "STREAM_TYPE_CHGOBJ = 6"
definition STREAM_TYPE_ERROR :: int where "STREAM_TYPE_ERROR = 7"

lemmas stream_types = STREAM_TYPE_ADDOBJ_def STREAM_TYPE_DELOBJ_def STREAM_TYPE_UPDOBJ_def
  STREAM_TYPE_UPDOBJ_NEXT_def STREAM_TYPE_RFROBJ_def STREAM_TYPE_CHGOBJ_def STREAM_TYPE_ERROR_def

definition stream_chunk_size :: nat where
  "stream_chunk_size = 24"

definition stream_chunk_bytes :: "rtdb_stream_chunk \<Rightarrow> byte list" where
  "stream_chunk_bytes c = string_bytes (k_fcc c) @ enc 4 (k_cb c) @ enc 8 (k_ts c) @ enc 4 (k_oid c) @ enc 4 (k_type c)"

definition stream_chunk_of :: "byte list \<Rightarrow> rtdb_stream_chunk" where
  "stream_chunk_of bs = \<lparr>k_fcc = bytes_string (get 0 4 bs), k_cb = udec (get 4 4 bs), k_ts = sdec (get 8 8 bs),
     k_oid = sdec (get 16 4 bs), k_type = udec (get 20 4 bs)\<rparr>"

definition rtdb_chunk :: "timestamp \<Rightarrow> int \<Rightarrow> int \<Rightarrow> nat \<Rightarrow> rtdb_stream_chunk" where
  "rtdb_chunk ts i datatype n = \<lparr>k_fcc = ''RTDB'', k_cb = uint32 (int n + int stream_chunk_size - 8), k_ts = ts,
     k_oid = i, k_type = datatype\<rparr>"

definition aviraw_fput_rtdb :: "timestamp \<Rightarrow> int \<Rightarrow> int \<Rightarrow> byte list \<Rightarrow> out_file option \<Rightarrow> (int \<times> out_file option) outcome" where
  "aviraw_fput_rtdb ts i datatype data fp =
     (case fp of
        None \<Rightarrow> Returned (- 1, None)
      | Some f \<Rightarrow>
          (case fwrite (stream_chunk_bytes (rtdb_chunk ts i datatype (length data))) f of (ret, f) \<Rightarrow>
             if ret \<noteq> 1 then Died
             else case (if data \<noteq> [] then fwrite data f else (1, f)) of (ret, f) \<Rightarrow>
               if ret \<noteq> 1 then Died
               else case (if odd (length data) then fwrite [0] f else (1, f)) of (ret, f) \<Rightarrow>
                 if ret \<noteq> 1 then Died else Returned (0, Some f)))"

section \<open>Objects whose metadata is in the file\<close>

text \<open>The first \<open>KOGMO_RTDB_OBJIDLIST_MAX\<close> entries of \<open>knownid\<close>; the one behind them is never used.\<close>

definition known_obj :: "int \<Rightarrow> int list \<Rightarrow> (int \<times> int list) outcome" where
  "known_obj i ks =
     (if i = 0 then Returned (0, map (\<lambda>_. 0) ks)
      else if i < 0 then Returned (0, map (\<lambda>k. if k = - i then 0 else k) ks)
      else if i \<in> set ks then Returned (1, ks)
      else case scan_first (\<lambda>k. k = 0) ks of
             Some n \<Rightarrow> Returned (0, ks[n := i])
           | None \<Rightarrow> Died)"

section \<open>State\<close>

text \<open>An unused element of an option list is 0 or \<open>NULL\<close>.\<close>

record rec_opts =
  do_all :: bool
  do_log :: bool
  do_raw :: int
  do_seconds :: cfloat
  do_waitobject :: "char list option"
  oid_list :: "int list"
  tid_list :: "int list"
  name_list :: "char list option list"
  xoid_list :: "int list"
  xtid_list :: "int list"
  xname_list :: "char list option list"
  oid_stream :: "int list"
  stat_oid :: int
  tracebufsize :: int

text \<open>
  \<open>obj_data\<close> is the buffer for an object; its length stands for \<open>sizeof(obj_data)\<close>, 16 MB and a
  header in the code. \<open>olen\<close> and \<open>obj_data\<close> keep their values from one event to the next.
\<close>

record rec_state =
  knownid :: "int list"
  olen :: int
  obj_data :: "byte list"
  rec_info :: obj_info
  statobj :: "byte list"
  last_status_ts :: timestamp
  lost_messages :: int
  events_total :: int
  events_total_written :: int
  record_enable :: bool
  init_phase :: bool
  initial_ts :: timestamp
  initial_objects :: "int list"
  rfp :: "out_file option"

datatype rec_next = Goes_on | Ends

section \<open>Which objects are recorded\<close>

definition OBJTYPE_C3_RECORDERSTAT :: int where "OBJTYPE_C3_RECORDERSTAT = 0xC30006"
definition OBJTYPE_C3_RECORDERCTRL :: int where "OBJTYPE_C3_RECORDERCTRL = 0xC30007"
definition OBJTYPE_C3_PLAYERSTAT :: int where "OBJTYPE_C3_PLAYERSTAT = 0xC30008"
definition OBJTYPE_C3_PLAYERCTRL :: int where "OBJTYPE_C3_PLAYERCTRL = 0xC30009"

definition same_name :: "char list \<Rightarrow> char list \<Rightarrow> bool" where
  "same_name s nm \<longleftrightarrow> strncmp_eq NAME_MAXLEN s nm"

definition tool_object :: "obj_info \<Rightarrow> bool" where
  "tool_object m \<longleftrightarrow>
     otype m = OBJTYPE_C3_PLAYERSTAT \<and> same_name ''playerstat'' (name m) \<or>
     otype m = OBJTYPE_C3_PLAYERCTRL \<and> same_name ''playerctrl'' (name m) \<or>
     otype m = OBJTYPE_C3_RECORDERSTAT \<and> same_name ''recorderstat'' (name m) \<or>
     otype m = OBJTYPE_C3_RECORDERCTRL \<and> same_name ''recorderctrl'' (name m)"

definition hits :: "int \<Rightarrow> int list \<Rightarrow> nat" where
  "hits x xs = length (filter (\<lambda>y. y \<noteq> 0 \<and> y = x) xs)"

definition name_hits :: "char list \<Rightarrow> char list option list \<Rightarrow> nat" where
  "name_hits nm xs = length (filter (\<lambda>y. case y of None \<Rightarrow> False | Some s \<Rightarrow> same_name s nm) xs)"

text \<open>\<open>traceit\<close>, \<open>streamit\<close> and \<open>junkit\<close>.\<close>

definition select_object :: "rec_opts \<Rightarrow> int \<Rightarrow> obj_info \<Rightarrow> nat \<times> nat \<times> bool" where
  "select_object opts i m =
     (let traceit = (if do_all opts \<and> \<not> tool_object m then 1 else 0);
          traceit = traceit + hits i (oid_list opts) + hits (otype m) (tid_list opts) + name_hits (name m) (name_list opts);
          excluded = hits i (xoid_list opts) + hits (otype m) (xtid_list opts) + name_hits (name m) (xname_list opts);
          traceit = (if excluded > 0 then 0 else traceit);
          junkit = (do_raw opts \<noteq> 0 \<and> do_raw opts = otype m)
      in case scan_first (\<lambda>y. y \<noteq> 0 \<and> y = i) (take 10 (oid_stream opts)) of
           Some n \<Rightarrow> (traceit + 1, n + 1, junkit)
         | None \<Rightarrow> (traceit, 0, junkit))"

section \<open>Reading the data\<close>

text \<open>
  The data of an update, read as of the time of the event for an object of the initial list and
  from the slot the message names otherwise: look, copy, and look again whether the slot has been
  overwritten meanwhile. \<open>None\<close>: the scan of the history never ends.
\<close>

definition copy_data :: "int \<Rightarrow> int \<Rightarrow> mem \<Rightarrow> byte list \<Rightarrow> byte list" where
  "copy_data p n hp buf = (let n = (if n < int (length buf) then nat n else length buf) in ldb hp p n @ drop n buf)"

definition read_slot :: "trace_msg \<Rightarrow> rec_state \<Rightarrow> rtdb \<Rightarrow> rec_state outcome" where
  "read_slot ev st db =
     (let s = \<lparr>s_oid = tm_oid ev, s_committed_ts = tm_ts ev,
               s_object_slot = (case tm_obj_slot ev of Some k \<Rightarrow> k | None \<Rightarrow> - 1), s_history_slot = tm_hist_slot ev\<rparr>
      in case kogmo_rtdb_obj_readdataslot_ptr (- 1) 0 s db of
           None \<Rightarrow> Faulted
         | Some (r, s, p) \<Rightarrow>
             let st = st\<lparr>olen := c_ret r\<rparr>
             in case p of
                  Some p \<Rightarrow>
                    if c_ret r > 0 then
                      (let st = st\<lparr>obj_data := copy_data p (c_ret r) (heap db) (obj_data st)\<rparr>
                       in case kogmo_rtdb_obj_readdataslot_ptr 1 0 s db of
                            None \<Rightarrow> Faulted
                          | Some (r, _, _) \<Rightarrow> Returned (st\<lparr>olen := c_ret r\<rparr>))
                    else Returned st
                | None \<Rightarrow> Returned st)"

definition read_initial :: "nat \<Rightarrow> handle \<Rightarrow> trace_msg \<Rightarrow> rec_state \<Rightarrow> rtdb \<Rightarrow> (rec_state \<times> rtdb) option" where
  "read_initial fuel h ev st db =
     map_option (\<lambda>(r, buf, db). (st\<lparr>olen := c_ret r, obj_data := buf\<rparr>, db))
       (kogmo_rtdb_obj_readdata fuel h (tm_oid ev) (tm_ts ev) (obj_data st) (int (length (obj_data st))) db)"

definition fput_error :: "timestamp \<Rightarrow> int \<Rightarrow> rec_state \<Rightarrow> rec_state outcome" where
  "fput_error ts i st =
     (let st = st\<lparr>lost_messages := lost_messages st + 1\<rparr>
      in case aviraw_fput_rtdb ts i STREAM_TYPE_ERROR [] (rfp st) of
           Returned (_, f) \<Rightarrow> Returned (st\<lparr>rfp := f\<rparr>)
         | Died \<Rightarrow> Died
         | Faulted \<Rightarrow> Faulted)"

text \<open>A failure counts as a lost message, except for an object of the initial list without data.\<close>

definition check_data :: "trace_msg \<Rightarrow> rec_state \<Rightarrow> rec_state outcome" where
  "check_data ev st =
     (let clip = (\<lambda>st. if olen st < 0 then st\<lparr>olen := 0\<rparr> else st)
      in if olen st < 0 \<and> (\<not> init_phase st \<or> olen st \<noteq> - errno_of ERR_NOTFOUND)
         then (case fput_error (tm_ts ev) (tm_oid ev) st of Returned st \<Rightarrow> Returned (clip st) | Died \<Rightarrow> Died | Faulted \<Rightarrow> Faulted)
         else Returned (clip st))"

definition read_update :: "nat \<Rightarrow> handle \<Rightarrow> trace_msg \<Rightarrow> rec_state \<Rightarrow> rtdb \<Rightarrow> (rec_state outcome \<times> rtdb) option" where
  "read_update fuel h ev st db =
     (if init_phase st
      then map_option (\<lambda>(st, db). (check_data ev st, db)) (read_initial fuel h ev st db)
      else Some (case read_slot ev st db of Returned st \<Rightarrow> check_data ev st | Died \<Rightarrow> Died | Faulted \<Rightarrow> Faulted, db))"

section \<open>Writing an event\<close>

definition image_header_size :: nat where
  "image_header_size = base_size + 24"

text \<open>
  The image of a video stream or the data of a raw object behind its \<open>RTDB\<close> chunk, \<open>n\<close> being its
  size; a negative size or one behind the end of the buffer faults.
\<close>

definition put_raw :: "nat \<Rightarrow> bool \<Rightarrow> rec_state \<Rightarrow> rec_state outcome" where
  "put_raw streamit junkit st =
     (case rfp st of
        None \<Rightarrow> Returned st
      | Some f \<Rightarrow>
          if streamit = 0 \<and> \<not> junkit then Returned st
          else
            let off = (if streamit > 0 then image_header_size else base_size); n = b_size (obj_data st) - int off
            in if n < 0 \<or> off + nat n > length (obj_data st) then Faulted
               else case (if streamit > 0 then aviraw_fput_stream (int streamit - 1) (get off (nat n) (obj_data st)) f
                          else aviraw_fput_junk (get off (nat n) (obj_data st)) f) of
                      (err, f) \<Rightarrow> if err \<noteq> 0 then Died else Returned (st\<lparr>rfp := Some f\<rparr>))"

definition put_rtdb :: "trace_msg \<Rightarrow> int \<Rightarrow> byte list \<Rightarrow> rec_state \<Rightarrow> rec_state outcome" where
  "put_rtdb ev datatype data st =
     (case aviraw_fput_rtdb (tm_ts ev) (tm_oid ev) datatype data (rfp st) of
        Returned (_, f) \<Rightarrow> Returned (st\<lparr>rfp := f\<rparr>)
      | Died \<Rightarrow> Died
      | Faulted \<Rightarrow> Faulted)"

definition put_update :: "trace_msg \<Rightarrow> nat \<Rightarrow> bool \<Rightarrow> rec_state \<Rightarrow> rec_state outcome" where
  "put_update ev streamit junkit st =
     (let sz = (if junkit then int base_size else if streamit > 0 then int image_header_size else b_size (obj_data st));
          datatype = (if junkit \<or> streamit > 0 then STREAM_TYPE_UPDOBJ_NEXT else STREAM_TYPE_UPDOBJ)
      in if sz < 0 \<or> nat sz > length (obj_data st) then Faulted
         else case put_rtdb ev datatype (take (nat sz) (obj_data st)) st of
                Returned st \<Rightarrow> put_raw streamit junkit st
              | Died \<Rightarrow> Died
              | Faulted \<Rightarrow> Faulted)"

text \<open>The metadata of an object not yet in the file goes before its first update.\<close>

definition put_known :: "trace_msg \<Rightarrow> rec_state \<Rightarrow> rec_state outcome" where
  "put_known ev st =
     (if tm_event ev \<noteq> TRACE_UPDATED then Returned st
      else case known_obj (tm_oid ev) (knownid st) of
             Returned (known, ks) \<Rightarrow>
               let st = st\<lparr>knownid := ks\<rparr>
               in if known = 0 \<and> rfp st \<noteq> None then put_rtdb ev STREAM_TYPE_RFROBJ (info_bytes (rec_info st)) st
                  else Returned st
           | Died \<Rightarrow> Died
           | Faulted \<Rightarrow> Faulted)"

text \<open>Whatever the event, it is written only when \<open>olen\<close>, possibly that of an earlier event, is positive.\<close>

definition put_event :: "trace_msg \<Rightarrow> nat \<Rightarrow> bool \<Rightarrow> rec_state \<Rightarrow> rec_state outcome" where
  "put_event ev streamit junkit st =
     (case put_known ev (st\<lparr>events_total_written := events_total_written st + 1\<rparr>) of
        Returned st \<Rightarrow>
          if olen st \<le> 0 \<or> rfp st = None then Returned st
          else (case tm_event ev of
                  TRACE_INSERTED \<Rightarrow> put_rtdb ev STREAM_TYPE_ADDOBJ (info_bytes (rec_info st)) st
                | TRACE_CHANGED \<Rightarrow> put_rtdb ev STREAM_TYPE_CHGOBJ (info_bytes (rec_info st)) st
                | TRACE_DELETED \<Rightarrow> put_rtdb ev STREAM_TYPE_DELOBJ (info_bytes (rec_info st)) st
                | TRACE_UPDATED \<Rightarrow> put_update ev streamit junkit st)
      | Died \<Rightarrow> Died
      | Faulted \<Rightarrow> Faulted)"

section \<open>One event\<close>

text \<open>With a log, a deleted object is forgotten; without one it stays known.\<close>

definition log_event :: "rec_opts \<Rightarrow> trace_msg \<Rightarrow> rec_state \<Rightarrow> rec_state outcome" where
  "log_event opts ev st =
     (if do_log opts \<and> tm_event ev = TRACE_DELETED
      then (case known_obj (- tm_oid ev) (knownid st) of
              Returned (_, ks) \<Rightarrow> Returned (st\<lparr>knownid := ks\<rparr>)
            | Died \<Rightarrow> Died
            | Faulted \<Rightarrow> Faulted)
      else Returned st)"

definition record_object :: "rec_opts \<Rightarrow> nat \<Rightarrow> handle \<Rightarrow> trace_msg \<Rightarrow> rec_state \<Rightarrow> rtdb \<Rightarrow> (rec_state outcome \<times> rtdb) option" where
  "record_object opts fuel h ev st db =
     (case select_object opts (tm_oid ev) (rec_info st) of (traceit, streamit, junkit) \<Rightarrow>
        if traceit = 0 \<and> \<not> do_log opts then Some (Returned st, db)
        else case (if tm_event ev = TRACE_UPDATED then read_update fuel h ev st db else Some (Returned st, db)) of
               None \<Rightarrow> None
             | Some (Returned st, db) \<Rightarrow>
                 Some (case log_event opts ev st of
                         Returned st \<Rightarrow> if traceit = 0 then Returned st else put_event ev streamit junkit st
                       | Died \<Rightarrow> Died
                       | Faulted \<Rightarrow> Faulted, db)
             | Some (Died, db) \<Rightarrow> Some (Died, db)
             | Some (Faulted, db) \<Rightarrow> Some (Faulted, db))"

text \<open>With \<open>-W\<close>, recording starts when the named object appears and ends when it disappears.\<close>

definition wait_object :: "rec_opts \<Rightarrow> trace_msg \<Rightarrow> rec_state \<Rightarrow> rec_next \<times> rec_state" where
  "wait_object opts ev st =
     (case do_waitobject opts of
        None \<Rightarrow> (Goes_on, st)
      | Some s \<Rightarrow>
          let hit = same_name s (name (rec_info st));
              st = (if \<not> record_enable st \<and> tm_event ev = TRACE_INSERTED \<and> hit then st\<lparr>record_enable := True\<rparr> else st)
          in (if tm_event ev = TRACE_DELETED \<and> hit then Ends else Goes_on, st))"

definition handle_event :: "rec_opts \<Rightarrow> nat \<Rightarrow> handle \<Rightarrow> trace_msg \<Rightarrow> rec_state \<Rightarrow> rtdb
    \<Rightarrow> ((rec_next \<times> rec_state) outcome \<times> rtdb) option" where
  "handle_event opts fuel h ev st db =
     (case kogmo_rtdb_obj_readinfo h (tm_oid ev) (tm_ts ev) (rec_info st) db of (r, m, db) \<Rightarrow>
        if c_ret r < 0
        then Some (case fput_error (tm_ts ev) (tm_oid ev) (st\<lparr>rec_info := m\<rparr>) of
                     Returned st \<Rightarrow> Returned (Goes_on, st) | Died \<Rightarrow> Died | Faulted \<Rightarrow> Faulted, db)
        else case wait_object opts ev (st\<lparr>rec_info := m\<rparr>) of (nx, st) \<Rightarrow>
          if nx = Ends then Some (Returned (Ends, st), db)
          else if \<not> record_enable st then Some (Returned (Goes_on, st), db)
          else map_option (\<lambda>(r, db). (case r of Returned st \<Rightarrow> Returned (Goes_on, st) | Died \<Rightarrow> Died | Faulted \<Rightarrow> Faulted, db))
                 (record_object opts fuel h ev (st\<lparr>events_total := events_total st + 1\<rparr>) db))"

section \<open>The main loop\<close>

text \<open>
  A message from the queue: \<open>cur1\<close> and \<open>cur2\<close> are the numbers of messages in the queue before and
  after. \<open>ready\<close> is that tracing is on and the queue open.
\<close>

definition kogmo_rtdb_obj_trace_receive :: "bool \<Rightarrow> int \<Rightarrow> trace_msg \<Rightarrow> int \<Rightarrow> rtdb \<Rightarrow> (rtdb_error + int) \<times> trace_msg option" where
  "kogmo_rtdb_obj_trace_receive ready cur1 msg cur2 db =
     (if rtdb_tracebufsize db = 0 then (Inl ERR_INVALID, None)
      else if rtdb_trace db = 0 \<or> \<not> ready then (Inl ERR_INVALID, None)
      else (Inr (rtdb_tracebufsize db - (if cur2 > cur1 then cur2 else cur1)), Some msg))"

text \<open>The objects that exist when recording starts, by ascending id, parents before children.\<close>

definition list_initial :: "handle \<Rightarrow> rec_state \<Rightarrow> rtdb \<Rightarrow> (rec_state \<times> rtdb) outcome" where
  "list_initial h st db =
     (if initial_ts st \<noteq> 0 then Returned (st, db)
      else case kogmo_rtdb_timestamp_now db of (now, db) \<Rightarrow>
        (case kogmo_rtdb_obj_searchinfo h None 0 0 0 now (Some (initial_objects st)) 0 db of
           (Inr _, Some l, db) \<Rightarrow>
             Returned (st\<lparr>initial_ts := now, initial_objects := sort (takeWhile (\<lambda>i. i > 0) (take OBJIDLIST_MAX l))\<rparr>, db)
         | (_, _, db) \<Rightarrow> Died))"

text \<open>
  The next event: an update of the next initial object, or a message. \<open>None\<close> in place of the event:
  the list of initial objects has been worked off, go on with messages.
\<close>

definition next_initial :: "handle \<Rightarrow> rec_state \<Rightarrow> rtdb \<Rightarrow> (trace_msg option \<times> rec_state \<times> rtdb) outcome" where
  "next_initial h st db =
     (if init_phase st \<and> record_enable st
      then (case list_initial h st db of
              Returned (st, db) \<Rightarrow>
                (case initial_objects st of
                   [] \<Rightarrow> Returned (None, st\<lparr>init_phase := False\<rparr>, db)
                 | i # rest \<Rightarrow>
                     Returned (Some \<lparr>tm_oid = i, tm_ts = initial_ts st, tm_event = TRACE_UPDATED, tm_obj_slot = Some (- 1),
                       tm_hist_slot = - 1\<rparr>, st\<lparr>initial_objects := rest\<rparr>, db))
            | Died \<Rightarrow> Died
            | Faulted \<Rightarrow> Faulted)
      else Returned (None, st, db))"

definition next_event :: "handle \<Rightarrow> bool \<Rightarrow> int \<Rightarrow> trace_msg \<Rightarrow> int \<Rightarrow> rec_state \<Rightarrow> rtdb
    \<Rightarrow> (int \<times> trace_msg \<times> rec_state \<times> rtdb) outcome" where
  "next_event h ready cur1 msg cur2 st db =
     (case next_initial h st db of
        Returned (Some ev, st, db) \<Rightarrow> Returned (- 1, ev, st, db)
      | Returned (None, st, db) \<Rightarrow>
          (case kogmo_rtdb_obj_trace_receive ready cur1 msg cur2 db of
             (Inr freebuf, Some ev) \<Rightarrow>
               if freebuf < 0 then Died
               else if freebuf = 0
                 then (case fput_error (tm_ts ev) 0 st of
                         Returned st \<Rightarrow> Returned (freebuf, ev, st, db) | Died \<Rightarrow> Died | Faulted \<Rightarrow> Faulted)
               else Returned (freebuf, ev, st, db)
           | _ \<Rightarrow> Died)
      | Died \<Rightarrow> Died
      | Faulted \<Rightarrow> Faulted)"

text \<open>The status object, at most every \<open>STAT_CYCLE_TIME\<close>.\<close>

definition STAT_CYCLE_TIME :: cfloat where
  "STAT_CYCLE_TIME = f32 (f64 (1 / 10))"

definition bytes_so_far :: "rec_state \<Rightarrow> int" where
  "bytes_so_far st = (case rfp st of None \<Rightarrow> 0 | Some f \<Rightarrow> int (length (written f)))"

definition fill_status :: "rec_opts \<Rightarrow> int \<Rightarrow> timestamp \<Rightarrow> rec_state \<Rightarrow> byte list" where
  "fill_status opts freebuf ts st =
     (let b = set_data_ts ts (statobj st);
          b = put 24 (enc 8 (initial_ts st)) b;
          b = put 32 (enc 8 (bytes_so_far st)) b;
          b = put 40 (enc 4 (events_total_written st)) b;
          b = put 44 (enc 4 (events_total st)) b;
          b = put 48 (enc 4 (lost_messages st)) b;
          b = put 54 (enc 2 (tracebufsize opts)) b
      in put 52 (enc 2 freebuf) b)"

definition update_status :: "rec_opts \<Rightarrow> handle \<Rightarrow> int \<Rightarrow> timestamp \<Rightarrow> rec_state \<Rightarrow> rtdb \<Rightarrow> (rec_state \<times> rtdb) outcome" where
  "update_status opts h freebuf ts st db =
     (if kogmo_timestamp_diff_secs (last_status_ts st) ts \<ge> STAT_CYCLE_TIME
      then (case kogmo_rtdb_obj_writedata h (stat_oid opts) (fill_status opts freebuf ts st) db of (r, b, db) \<Rightarrow>
              if c_ret r < 0 then Died else Returned (st\<lparr>last_status_ts := ts, statobj := b\<rparr>, db))
      else Returned (st, db))"

text \<open>One round. \<open>None\<close>: the scan of a history never ends.\<close>

definition record_step :: "rec_opts \<Rightarrow> nat \<Rightarrow> handle \<Rightarrow> bool \<Rightarrow> int \<Rightarrow> trace_msg \<Rightarrow> int \<Rightarrow> rec_state \<Rightarrow> rtdb
    \<Rightarrow> ((rec_next \<times> rec_state) outcome \<times> rtdb) option" where
  "record_step opts fuel h ready cur1 msg cur2 st db =
     (case next_event h ready cur1 msg cur2 st db of
        Returned (freebuf, ev, st, db) \<Rightarrow>
          if do_seconds opts > 0 \<and> kogmo_timestamp_diff_secs (initial_ts st) (tm_ts ev) > do_seconds opts
          then Some (Returned (Ends, st), db)
          else (case update_status opts h freebuf (tm_ts ev) st db of
                  Returned (st, db) \<Rightarrow> handle_event opts fuel h ev st db
                | Died \<Rightarrow> Some (Died, db)
                | Faulted \<Rightarrow> Some (Faulted, db))
      | Died \<Rightarrow> Some (Died, db)
      | Faulted \<Rightarrow> Some (Faulted, db))"

end
