(* ===== verification/Oid_Map.thy ===== *)
theory Oid_Map
  imports Slot_Table
begin

text \<open>
  The player's map from recorded object ids to the ids the objects have got in the database
  (\<open>record/kogmo_rtdb_oid_map.h\<close>): a table searched linearly, an entry with \<open>src\<close> 0 being free. The
  table is the list of its first \<open>KOGMO_RTDB_OIDMAPSLOTS\<close> entries; the one behind them is never
  used.
\<close>

section \<open>State and operations\<close>

record oid_map_entry =
  src :: int
  dest :: int
  m_name :: "char list"
  m_otype :: int

type_synonym oid_map = "oid_map_entry list"

definition map_init :: "nat \<Rightarrow> nat \<Rightarrow> oid_map" where
  "map_init slots maxlen = replicate slots \<lparr>src = 0, dest = 0, m_name = replicate maxlen NUL, m_otype = 0\<rparr>"

definition clear_entry :: "oid_map_entry \<Rightarrow> oid_map_entry" where
  "clear_entry e = e\<lparr>src := 0, dest := 0, m_name := (m_name e)[0 := NUL], m_otype := 0\<rparr>"

definition find_src :: "int \<Rightarrow> oid_map \<Rightarrow> nat option" where
  "find_src s xs = scan_first (\<lambda>e. src e = s) xs"

definition map_del :: "int \<Rightarrow> oid_map \<Rightarrow> int \<times> oid_map" where
  "map_del s xs = (case find_src s xs of Some i \<Rightarrow> (1, xs[i := clear_entry (xs ! i)]) | None \<Rightarrow> (0, xs))"

definition map_add :: "int \<Rightarrow> int \<Rightarrow> char list \<Rightarrow> int \<Rightarrow> oid_map \<Rightarrow> oid_map outcome" where
  "map_add s d nm ot xs =
     (let xs = snd (map_del s xs)
      in case find_src 0 xs of
           Some i \<Rightarrow> Returned (xs[i := \<lparr>src = s, dest = d, m_name = nm, m_otype = ot\<rparr>])
         | None \<Rightarrow> Died)"

definition map_querydest :: "int \<Rightarrow> oid_map \<Rightarrow> int" where
  "map_querydest s xs = (case find_src s xs of Some i \<Rightarrow> dest (xs ! i) | None \<Rightarrow> 0)"

definition map_queryname :: "int \<Rightarrow> oid_map \<Rightarrow> char list" where
  "map_queryname s xs = (case find_src s xs of Some i \<Rightarrow> m_name (xs ! i) | None \<Rightarrow> ''?'')"

definition map_queryotype :: "int \<Rightarrow> oid_map \<Rightarrow> int" where
  "map_queryotype s xs = (case find_src s xs of Some i \<Rightarrow> m_otype (xs ! i) | None \<Rightarrow> 0)"

definition map_exists :: "int \<Rightarrow> oid_map \<Rightarrow> bool" where
  "map_exists s xs \<longleftrightarrow> find_src s xs \<noteq> None"

section \<open>The table is a map\<close>

interpretation oids: slot_table src clear_entry
  by unfold_locales (simp add: clear_entry_def)

definition the_map :: "oid_map \<Rightarrow> int \<Rightarrow> (int \<times> char list \<times> int) option" where
  "the_map xs s = (if s = 0 then None
     else map_option (\<lambda>i. (dest (xs ! i), m_name (xs ! i), m_otype (xs ! i))) (lookup_key src s xs))"

lemma find_src_key: "find_src s xs = lookup_key src s xs"
  by (simp add: find_src_def lookup_key_def)

lemma map_del_all:
  assumes "unique_keys src xs" "s \<noteq> 0"
  shows "unique_keys src (snd (map_del s xs)) \<and> the_map (snd (map_del s xs)) = (the_map xs)(s := None) \<and>
    s \<notin> used_keys src (snd (map_del s xs)) \<and> length (snd (map_del s xs)) = length xs"
proof -
  consider "lookup_key src s xs = None" "map_del s xs = (0, xs)"
    | i where "lookup_key src s xs = Some i" "i < length xs" "src (xs ! i) = s" "map_del s xs = (1, xs[i := clear_entry (xs ! i)])"
    using oids.lookup_unique [OF assms] by (cases "lookup_key src s xs") (auto simp: map_del_def find_src_key)
  then show ?thesis
  proof cases
    case 1
    then show ?thesis using assms by (auto simp: the_map_def used_keys_def lookup_key_def scan_first_None)
  next
    case (2 i)
    let ?ys = "xs[i := clear_entry (xs ! i)]"
    note r = oids.lookup_release [OF assms(1) 2(2)]
    have "the_map ?ys k = ((the_map xs)(s := None)) k" for k
    proof (cases "k = 0 \<or> k = s")
      case True then show ?thesis using r [of s] 2(3) assms(2) by (auto simp: the_map_def)
    next
      case False
      then have e: "lookup_key src k ?ys = lookup_key src k xs" using r [of k] 2(3) by simp
      moreover have "j \<noteq> i" if "lookup_key src k xs = Some j" for j
        using that False 2(3) oids.lookup_unique [OF assms(1), of k j] by auto
      ultimately show ?thesis using False by (cases "lookup_key src k xs") (auto simp: the_map_def)
    qed
    moreover have "s \<notin> used_keys src ?ys"
      using r [of s] 2(3) assms(2) by (auto simp: used_keys_def lookup_key_def scan_first_None)
    ultimately show ?thesis using 2 oids.unique_release [OF assms(1)] by auto
  qed
qed

lemmas map_del_ok = map_del_all [THEN conjunct1] map_del_all [THEN conjunct2, THEN conjunct1]
  map_del_all [THEN conjunct2, THEN conjunct2, THEN conjunct1] map_del_all [THEN conjunct2, THEN conjunct2, THEN conjunct2]

lemma map_add_ok:
  assumes "unique_keys src xs" "s \<noteq> 0" "map_add s d nm ot xs = Returned ys"
  shows "unique_keys src ys" "the_map ys = (the_map xs)(s \<mapsto> (d, nm, ot))" "length ys = length xs"
proof -
  let ?zs = "snd (map_del s xs)" and ?e = "\<lparr>src = s, dest = d, m_name = nm, m_otype = ot\<rparr>"
  note D = map_del_ok [OF assms(1,2)]
  from assms(3) obtain i where i: "find_src 0 ?zs = Some i" "ys = ?zs[i := ?e]"
    by (auto simp: map_add_def Let_def split: option.splits)
  then have i': "i < length ?zs" "src (?zs ! i) = 0" by (simp_all add: find_src_def scan_first_Some)
  show "unique_keys src ys" unfolding i(2) by (rule oids.unique_insert) (use D in simp_all)
  show "length ys = length xs" using i(2) D(4) by simp
  have "the_map ys k = ((the_map xs)(s \<mapsto> (d, nm, ot))) k" for k
  proof (cases "k = s")
    case True
    have "lookup_key src (src ?e) (?zs[i := ?e]) = Some i"
      by (rule oids.lookup_insert) (use D i' assms(2) in simp_all)
    then show ?thesis using True i' assms(2) by (simp add: the_map_def i(2))
  next
    case False
    show ?thesis
    proof (cases "k = 0")
      case False
      have e: "lookup_key src k (?zs[i := ?e]) = lookup_key src k ?zs"
        by (rule oids.lookup_insert_other) (use D i' \<open>k \<noteq> s\<close> False in simp_all)
      have "j \<noteq> i" if "lookup_key src k ?zs = Some j" for j
        using that False i'(2) oids.lookup_unique [OF D(1) False, of j] by auto
      then have "the_map ys k = the_map ?zs k" using e by (cases "lookup_key src k ?zs") (auto simp: the_map_def i(2))
      then show ?thesis using \<open>k \<noteq> s\<close> D(2) by simp
    qed (use assms(2) in \<open>simp add: the_map_def\<close>)
  qed
  then show "the_map ys = (the_map xs)(s \<mapsto> (d, nm, ot))" by blast
qed

lemma map_queries:
  assumes "s \<noteq> 0"
  shows "map_querydest s xs = (case the_map xs s of Some (d, _, _) \<Rightarrow> d | None \<Rightarrow> 0)"
    "map_queryname s xs = (case the_map xs s of Some (_, nm, _) \<Rightarrow> nm | None \<Rightarrow> ''?'')"
    "map_queryotype s xs = (case the_map xs s of Some (_, _, ot) \<Rightarrow> ot | None \<Rightarrow> 0)"
    "map_exists s xs \<longleftrightarrow> the_map xs s \<noteq> None"
proof -
  have m: "the_map xs s = map_option (\<lambda>i. (dest (xs ! i), m_name (xs ! i), m_otype (xs ! i))) (find_src s xs)"
    using assms by (simp add: the_map_def find_src_key)
  show "map_querydest s xs = (case the_map xs s of Some (d, _, _) \<Rightarrow> d | None \<Rightarrow> 0)"
    unfolding m map_querydest_def by (cases "find_src s xs") simp_all
  show "map_queryname s xs = (case the_map xs s of Some (_, nm, _) \<Rightarrow> nm | None \<Rightarrow> ''?'')"
    unfolding m map_queryname_def by (cases "find_src s xs") simp_all
  show "map_queryotype s xs = (case the_map xs s of Some (_, _, ot) \<Rightarrow> ot | None \<Rightarrow> 0)"
    unfolding m map_queryotype_def by (cases "find_src s xs") simp_all
  show "map_exists s xs \<longleftrightarrow> the_map xs s \<noteq> None" unfolding m map_exists_def by simp
qed

lemma map_init_ok: "unique_keys src (map_init n l)" "the_map (map_init n l) = Map.empty"
proof -
  show u: "unique_keys src (map_init n l)" by (simp add: map_init_def unique_keys_def)
  have "the_map (map_init n l) k = None" for k
  proof (cases "k = 0")
    case False
    then have "lookup_key src k (map_init n l) = None" by (simp add: lookup_key_def scan_first_None map_init_def)
    then show ?thesis by (simp add: the_map_def)
  qed (simp add: the_map_def)
  then show "the_map (map_init n l) = Map.empty" by blast
qed

section \<open>The property\<close>

text \<open>
  C39: The table refines a partial map on the ids other than 0: adding and deleting update the map at
  the id and nowhere else and keep the ids unique, the queries read it, and adding ends the player
  only when, the id's own entry apart, no entry is free.
\<close>
theorem oid_map_refines:
  assumes "unique_keys src xs" "s \<noteq> 0"
  shows "unique_keys src (snd (map_del s xs)) \<and> the_map (snd (map_del s xs)) = (the_map xs)(s := None)
    \<and> (case map_add s d nm ot xs of
         Returned ys \<Rightarrow> unique_keys src ys \<and> the_map ys = (the_map xs)(s \<mapsto> (d, nm, ot))
       | Died \<Rightarrow> \<forall>e \<in> set xs. src e \<noteq> 0 \<and> src e \<noteq> s
       | Faulted \<Rightarrow> False)
    \<and> map_querydest s xs = (case the_map xs s of Some (x, _, _) \<Rightarrow> x | None \<Rightarrow> 0)
    \<and> (map_exists s xs \<longleftrightarrow> the_map xs s \<noteq> None)"
proof -
  have "\<forall>e \<in> set xs. src e \<noteq> 0 \<and> src e \<noteq> s" if dead: "map_add s d nm ot xs = Died"
  proof (cases "find_src s xs")
    case None
    then have "map_del s xs = (0, xs)" by (simp add: map_del_def)
    moreover have "\<forall>e \<in> set xs. src e \<noteq> s" using None by (simp add: find_src_def scan_first_None)
    ultimately show ?thesis using dead by (auto simp: map_add_def find_src_def scan_first_None Let_def split: option.splits)
  next
    case (Some i)
    then have i: "i < length xs" "map_del s xs = (1, xs[i := clear_entry (xs ! i)])"
      by (simp add: find_src_def scan_first_Some) (simp add: map_del_def Some)
    have "clear_entry (xs ! i) \<in> set (snd (map_del s xs))" using i by (simp add: set_update_memI)
    moreover have "src (clear_entry (xs ! i)) = 0" by (simp add: clear_entry_def)
    ultimately have "find_src 0 (snd (map_del s xs)) \<noteq> None"
      unfolding find_src_def scan_first_None by blast
    then show ?thesis using dead by (auto simp: map_add_def Let_def)
  qed
  moreover have "map_add s d nm ot xs \<noteq> Faulted" by (auto simp: map_add_def Let_def split: option.split)
  ultimately show ?thesis
    using map_del_ok [OF assms] map_add_ok [OF assms] map_queries [OF assms(2)]
    by (cases "map_add s d nm ot xs") auto
qed

theorem oid_map_refines_witness:
  "\<exists>ys. map_add 7 9 ''a'' 4 (map_init 3 32) = Returned ys \<and> the_map ys = [7 \<mapsto> (9, ''a'', 4)]"
proof -
  have "map_add 7 9 ''a'' 4 (map_init 3 32) \<noteq> Died" by code_simp
  then show ?thesis
    using oid_map_refines [OF map_init_ok(1), of 7 3 32 9 "''a''" 4]
    by (cases "map_add 7 9 ''a'' 4 (map_init 3 32)") (simp_all add: map_init_ok(2))
qed

end
