(* ===== verification/Player.thy ===== *)
theory Player
  imports Recorder Oid_Map Time_Index
begin

text \<open>
  The player (\<open>record/kogmo_rtdb_play.c\<close>): it reads a recording chunk by chunk, inserts the objects
  the chunks describe, writes their versions and deletes them again, or copies the chunks to another
  file. Options are an argument, \<open>pl_db\<close> being \<open>do_db\<close>; parsing them, connecting, the files' names
  and the terminal are left out. Memory the code gets from \<open>malloc\<close> is zero in the model.
\<close>

section \<open>State\<close>

record play_opts =
  pl_db :: bool
  pl_extract :: bool
  default_playit :: bool
  pl_tids :: "int list"
  pl_names :: "char list option list"
  pl_xtids :: "int list"
  pl_xnames :: "char list option list"
  pl_player_oid :: int
  pl_stat_oid :: int
  pl_ctrl_oid :: int
  pl_input :: bool

text \<open>
  \<open>base_buf\<close> has \<open>base_bufsz\<close> bytes, a chunk is read to \<open>buf\<close>, \<open>PREBUFSZ\<close> bytes into it.
  \<open>rtdbchunk\<close> points there: \<open>None\<close> is \<open>NULL\<close>, \<open>Some False\<close> a pointer into a buffer given up.
  \<open>frames\<close> are the first \<open>frameidx_last + 1\<close> elements of \<open>frameidx_pos\<close>. \<open>naps\<close> and \<open>extracted\<close> are
  the calls of \<open>usleep\<close> and of \<open>write_extract\<close>.
\<close>

record play_state =
  pl_fp :: in_file
  pl_fout :: "out_file option"
  extracted :: "(timestamp \<times> char list \<times> int \<times> byte list \<times> bool) list"
  pl_map :: oid_map
  base_buf :: "byte list"
  rtdbchunk :: "bool option"
  pl_init_phase :: nat
  pl_initial_ts :: timestamp
  pl_idx :: "timeidx option"
  pl_begin :: timestamp
  pl_end :: timestamp
  pl_goto :: timestamp
  last_do_goto :: timestamp
  skip_pos :: int
  pl_pause :: bool
  pl_scan :: bool
  pl_loop :: bool
  keepcreated :: bool
  pl_speed :: cfloat
  last_real_time :: timestamp
  last_avi_time :: timestamp
  last_time_diff :: timestamp
  naps :: "int list"
  rawnext_oid :: int
  rawnext_ts :: timestamp
  rawnext_frame_go :: bool
  pre_buf :: "byte list"
  next_prebuf_size :: nat
  frame_oid :: int
  frame_go :: int
  frames :: "int list"
  pl_statobj :: "byte list"
  ctrlobj :: "byte list"
  last_ctrlobj_ts :: timestamp

definition PREBUFSZ :: nat where "PREBUFSZ = base_size + 24"
definition FRAME_GO_INDEX_MAX :: nat where "FRAME_GO_INDEX_MAX = 60 * 60 * 33"
definition PLAYHZ :: int where "PLAYHZ = 1000"

text \<open>Where the parts of a chunk of the database are in \<open>base_buf\<close>; \<open>info_p\<close> and \<open>base_p\<close> point behind its header.\<close>

definition info_off :: nat where "info_off = PREBUFSZ - 8 + stream_chunk_size"

definition chunk_in :: "play_state \<Rightarrow> rtdb_stream_chunk" where
  "chunk_in st = stream_chunk_of (get (PREBUFSZ - 8) stream_chunk_size (base_buf st))"

definition info_in :: "play_state \<Rightarrow> obj_info" where
  "info_in st = info_of (get info_off info_size (base_buf st))"

definition chunk_data :: "play_state \<Rightarrow> byte list" where
  "chunk_data st = drop PREBUFSZ (base_buf st)"

section \<open>Calls with results\<close>

text \<open>
  A step of the player returns, ends the process or faults, and changes the database; \<open>None\<close> says
  that a call never comes back.
\<close>

type_synonym 'a play = "('a outcome \<times> rtdb) option"

definition and_then :: "'a play \<Rightarrow> ('a \<Rightarrow> rtdb \<Rightarrow> 'b play) \<Rightarrow> 'b play" where
  "and_then r f =
     (case r of
        None \<Rightarrow> None
      | Some (Returned x, db) \<Rightarrow> f x db
      | Some (Died, db) \<Rightarrow> Some (Died, db)
      | Some (Faulted, db) \<Rightarrow> Some (Faulted, db))"

lemma and_then_simps [simp]:
  "and_then None f = None" "and_then (Some (Returned x, db)) f = f x db"
  "and_then (Some (Died, db)) f = Some (Died, db)" "and_then (Some (Faulted, db)) f = Some (Faulted, db)"
  by (simp_all add: and_then_def)

definition stop_then :: "'a outcome \<Rightarrow> ('a \<Rightarrow> 'b outcome) \<Rightarrow> 'b outcome" where
  "stop_then r f = (case r of Returned x \<Rightarrow> f x | Died \<Rightarrow> Died | Faulted \<Rightarrow> Faulted)"

lemma stop_then_simps [simp]:
  "stop_then (Returned x) f = f x" "stop_then Died f = Died" "stop_then Faulted f = Faulted"
  by (simp_all add: stop_then_def)

section \<open>Files and clock\<close>

definition ftello :: "in_file \<Rightarrow> int" where
  "ftello f = (if seekable f then int (fpos f) else - 1)"

definition fseeko :: "int \<Rightarrow> play_state \<Rightarrow> play_state" where
  "fseeko pos st =
     (if seekable (pl_fp st) \<and> pos \<ge> 0 then st\<lparr>pl_fp := (pl_fp st)\<lparr>fpos := nat pos, eof := False\<rparr>\<rparr> else st)"

definition real_now :: "rtdb \<Rightarrow> timestamp \<times> rtdb" where
  "real_now db = (kogmo_timestamp_now (clock db (ticks db)), db\<lparr>ticks := Suc (ticks db)\<rparr>)"

text \<open>The result of writing to the output file is not looked at.\<close>

definition copy_out :: "(out_file \<Rightarrow> int \<times> out_file) \<Rightarrow> play_state \<Rightarrow> play_state" where
  "copy_out write st = st\<lparr>pl_fout := map_option (\<lambda>f. snd (write f)) (pl_fout st)\<rparr>"

definition copy_chunk :: "riffchunk \<Rightarrow> play_state \<Rightarrow> play_state" where
  "copy_chunk dc st = copy_out (aviraw_fput_chunk dc (chunk_data st)) st"

text \<open>\<open>n\<close> bytes of memory that begins with \<open>d\<close>; nothing to write is an error.\<close>

definition write_extract :: "timestamp \<Rightarrow> char list \<Rightarrow> int \<Rightarrow> byte list \<Rightarrow> int \<Rightarrow> bool \<Rightarrow> play_state \<Rightarrow> play_state outcome" where
  "write_extract ts nm ot d n is_meta st =
     (if n = 0 then Died
      else if n < 0 \<or> n > int (length d) then Faulted
      else Returned (st\<lparr>extracted := (ts, cstr nm, ot, take (nat n) d, is_meta) # extracted st\<rparr>))"

text \<open>A version is written from memory that begins with \<open>d\<close>, its size is in its header; an error is only reported.\<close>

definition write_version :: "handle \<Rightarrow> int \<Rightarrow> nat \<Rightarrow> play_state \<Rightarrow> rtdb \<Rightarrow> play_state outcome \<times> rtdb" where
  "write_version h i off st db =
     (let d = drop off (base_buf st)
      in case kogmo_rtdb_obj_writedata h i d db of (r, d', db) \<Rightarrow>
        (case r of
           Inl _ \<Rightarrow> Returned (st\<lparr>base_buf := take off (base_buf st) @ d'\<rparr>)
         | Inr _ \<Rightarrow> if b_size d > int (length d) then Faulted
                    else Returned (st\<lparr>base_buf := take off (base_buf st) @ d'\<rparr>), db))"

section \<open>Metadata\<close>

definition play_wanted :: "play_opts \<Rightarrow> obj_info \<Rightarrow> bool" where
  "play_wanted opts m \<longleftrightarrow>
     hits (otype m) (pl_xtids opts) + name_hits (name m) (pl_xnames opts) = 0 \<and>
     (default_playit opts \<or> hits (otype m) (pl_tids opts) + name_hits (name m) (pl_names opts) > 0)"

definition map_to :: "int \<Rightarrow> int \<Rightarrow> obj_info \<Rightarrow> play_state \<Rightarrow> play_state outcome" where
  "map_to i d m st = stop_then (map_add i d (name m) (otype m) (pl_map st)) (\<lambda>xs. Returned (st\<lparr>pl_map := xs\<rparr>))"

definition replay_info :: "play_opts \<Rightarrow> oid_map \<Rightarrow> obj_info \<Rightarrow> obj_info" where
  "replay_info opts xs m =
     (let m = m\<lparr>oid := 0\<rparr>;
          tmpoid = map_querydest (parent_oid m) xs;
          m = m\<lparr>parent_oid := (if tmpoid \<noteq> 0 then tmpoid else pl_player_oid opts)\<rparr>
      in m\<lparr>flags := (flags m)\<lparr>cycle_watch := False\<rparr>\<rparr>)"

definition insert_object :: "play_opts \<Rightarrow> handle \<Rightarrow> int \<Rightarrow> obj_info \<Rightarrow> play_state \<Rightarrow> rtdb \<Rightarrow> play_state outcome \<times> rtdb" where
  "insert_object opts h i m st db =
     (case kogmo_rtdb_obj_insert h (replay_info opts (pl_map st) m) db of (r, m, db) \<Rightarrow>
        (map_to i (if c_ret r < 0 then 0 else c_ret r) m (st\<lparr>base_buf := put info_off (info_bytes m) (base_buf st)\<rparr>), db))"

definition play_info :: "play_opts \<Rightarrow> handle \<Rightarrow> riffchunk \<Rightarrow> play_state \<Rightarrow> rtdb \<Rightarrow> play_state outcome \<times> rtdb" where
  "play_info opts h dc st db =
     (let m = info_in st; playit = play_wanted opts m;
          st = (if playit then copy_chunk dc st else st)
      in if map_exists (oid m) (pl_map st) then (Returned st, db)
         else if \<not> playit then (map_to (oid m) 0 m st, db)
         else case (if pl_extract opts
                    then write_extract (k_ts (chunk_in st)) (name m) (otype m) (drop info_off (base_buf st)) (int info_size) True st
                    else Returned st) of
                Returned st \<Rightarrow> if \<not> pl_db opts then (map_to (oid m) 1 m st, db) else insert_object opts h (oid m) m st db
              | Died \<Rightarrow> (Died, db)
              | Faulted \<Rightarrow> (Faulted, db))"

definition play_delete :: "play_opts \<Rightarrow> nat \<Rightarrow> handle \<Rightarrow> riffchunk \<Rightarrow> play_state \<Rightarrow> rtdb \<Rightarrow> play_state play" where
  "play_delete opts fuel h dc st db =
     (let m = info_in st; destoid = map_querydest (oid m) (pl_map st);
          st = st\<lparr>pl_map := snd (map_del (oid m) (pl_map st))\<rparr>
      in if destoid = 0 then Some (Returned st, db)
         else
           let st = copy_chunk dc st
           in if \<not> pl_db opts then Some (Returned st, db)
              else map_option (\<lambda>(_, m', db). (Returned (st\<lparr>base_buf := put info_off (info_bytes m') (base_buf st),
                       pl_map := snd (map_del (oid m) (pl_map st))\<rparr>), db))
                     (kogmo_rtdb_obj_delete fuel h (m\<lparr>oid := destoid\<rparr>) db))"

section \<open>Data\<close>

text \<open>Noting where a frame is in the file, for going back to it; the padding of the chunk is not counted.\<close>

definition note_frame :: "riffchunk \<Rightarrow> play_state \<Rightarrow> play_state" where
  "note_frame dc st =
     (if int (length (frames st)) - 1 < int FRAME_GO_INDEX_MAX - 1
      then st\<lparr>frames := frames st @ [ftello (pl_fp st) - cb dc - 8]\<rparr> else st)"

definition play_update :: "play_opts \<Rightarrow> handle \<Rightarrow> riffchunk \<Rightarrow> play_state \<Rightarrow> rtdb \<Rightarrow> play_state outcome \<times> rtdb" where
  "play_update opts h dc st db =
     (let i = k_oid (chunk_in st); dst = map_querydest i (pl_map st); d = drop info_off (base_buf st)
      in if dst = 0 then (Returned st, db)
         else case (let st = copy_chunk dc st
                    in if pl_extract opts
                       then write_extract (k_ts (chunk_in st)) (map_queryname i (pl_map st)) (map_queryotype i (pl_map st)) d (b_size d) False st
                       else Returned st) of
                Returned st \<Rightarrow>
                  let st = (if dst = frame_oid st
                            then (let st = note_frame dc st in if frame_go st > 0 then st\<lparr>frame_go := frame_go st - 1\<rparr> else st)
                            else st)
                  in if \<not> pl_db opts then (Returned st, db)
                     else (case real_now db of (now, db) \<Rightarrow>
                       write_version h dst info_off
                         (st\<lparr>base_buf := put info_off (set_data_ts (int64 (b_data_ts d + (now - b_committed_ts d))) d) (base_buf st)\<rparr>) db)
              | Died \<Rightarrow> (Died, db)
              | Faulted \<Rightarrow> (Faulted, db))"

text \<open>The first part of a version, of \<open>n\<close> bytes; the second one follows as a chunk of a stream.\<close>

definition play_next :: "riffchunk \<Rightarrow> int \<Rightarrow> play_state \<Rightarrow> play_state outcome" where
  "play_next dc n st =
     (let c = chunk_in st; dst = map_querydest (k_oid c) (pl_map st)
      in if dst = 0 then Returned st
         else if n > int PREBUFSZ then Died
         else if n < 0 then Faulted
         else
           let st = st\<lparr>rawnext_oid := k_oid c, rawnext_ts := k_ts c,
                       pre_buf := put 0 (get info_off (nat n) (base_buf st)) (pre_buf st), next_prebuf_size := nat n\<rparr>;
               st = copy_chunk dc st
           in Returned (if dst = frame_oid st
                        then (let st = note_frame dc st in if frame_go st > 0 then st\<lparr>rawnext_frame_go := True\<rparr> else st)
                        else st))"

definition play_stream :: "play_opts \<Rightarrow> handle \<Rightarrow> riffchunk \<Rightarrow> play_state \<Rightarrow> rtdb \<Rightarrow> play_state outcome \<times> rtdb" where
  "play_stream opts h dc st db =
     (let st = (if rawnext_frame_go st \<and> frame_go st > 0 then st\<lparr>rawnext_frame_go := False, frame_go := frame_go st - 1\<rparr> else st)
      in if rawnext_oid st = 0 then (Returned st, db)
         else
           let off = PREBUFSZ - next_prebuf_size st;
               st = st\<lparr>base_buf := put off (take (next_prebuf_size st) (pre_buf st)) (base_buf st)\<rparr>;
               i = rawnext_oid st; dst = map_querydest i (pl_map st); d = drop off (base_buf st)
           in case (if dst \<noteq> 0
                    then (let st = copy_chunk dc st
                          in if pl_extract opts
                             then write_extract (rawnext_ts st) (map_queryname i (pl_map st)) (map_queryotype i (pl_map st)) d (b_size d) False st
                             else Returned st)
                    else Returned st) of
                Returned st \<Rightarrow>
                  let st = st\<lparr>rawnext_oid := 0\<rparr>
                  in if dst = 0 \<or> \<not> pl_db opts then (Returned st, db) else write_version h dst off st db
              | Died \<Rightarrow> (Died, db)
              | Faulted \<Rightarrow> (Faulted, db))"

end
