(* ===== verification/Player_Loop.thy ===== *)
theory Player_Loop
  imports Player
begin

text \<open>
  The loop of the player: the control object, positioning, one chunk, the pace of the replay, the
  status object, and what happens at the end of the file.
\<close>

section \<open>One chunk of the database\<close>

text \<open>The initial phase ends when the times begin to increase.\<close>

definition index_add :: "timestamp \<Rightarrow> int \<Rightarrow> play_state \<Rightarrow> play_state outcome" where
  "index_add ts pos st =
     (case timeidx_add ts pos (pl_idx st) of None \<Rightarrow> Faulted | Some (_, x) \<Rightarrow> Returned (st\<lparr>pl_idx := x\<rparr>))"

definition leave_init :: "play_state \<Rightarrow> play_state outcome" where
  "leave_init st =
     (let c = chunk_in st
      in if pl_init_phase st = 0 \<or> k_type c = STREAM_TYPE_ERROR then Returned st
         else
           let st = (if pl_init_phase st = 1 then st\<lparr>pl_initial_ts := k_ts c\<rparr> else st)\<lparr>pl_init_phase := 2\<rparr>
           in if k_ts c \<noteq> pl_initial_ts st
              then stop_then (index_add (k_ts c) 0 st) (\<lambda>st. Returned (st\<lparr>pl_init_phase := 0\<rparr>))
              else Returned st)"

definition note_position :: "play_state \<Rightarrow> play_state outcome" where
  "note_position st =
     (let c = chunk_in st
      in if pl_init_phase st = 0 \<and> k_type c \<noteq> STREAM_TYPE_ERROR \<and> k_ts c \<ge> timeidx_next_needed (pl_idx st)
         then index_add (k_ts c) (ftello (pl_fp st)) st else Returned st)"

definition paced :: "play_opts \<Rightarrow> play_state \<Rightarrow> bool" where
  "paced opts st \<longleftrightarrow> k_type (chunk_in st) \<noteq> STREAM_TYPE_ERROR \<and> k_type (chunk_in st) \<noteq> STREAM_TYPE_RFROBJ \<and>
     pl_speed st \<noteq> 0 \<and> (pl_goto st = 0 \<or> pl_scan st) \<and> pl_db opts \<and> pl_init_phase st = 0"

definition pace :: "play_opts \<Rightarrow> play_state \<Rightarrow> rtdb \<Rightarrow> play_state \<times> rtdb" where
  "pace opts st db =
     (let ts = k_ts (chunk_in st)
      in if \<not> paced opts st then (st\<lparr>last_real_time := 0\<rparr>, db)
         else if last_real_time st = 0
           then (case real_now db of (now, db) \<Rightarrow> (st\<lparr>last_real_time := now, last_avi_time := ts, last_time_diff := 0\<rparr>, db))
         else
           let real_time_diff = int64 (c_trunc (f64 (f64 (of_int (int64 (ts - last_avi_time st))) / pl_speed st)));
               sleep_time = int64 (real_time_diff - last_time_diff st)
           in if sleep_time \<le> TICKSPERSECOND div PLAYHZ then (st, db)
              else case real_now db of (now, db) \<Rightarrow>
                let ahead_by = int64 (now - int64 (last_real_time st + real_time_diff))
                in (st\<lparr>naps := uint32 (c_div sleep_time (TICKSPERSECOND div 1000000)) # naps st, last_real_time := now,
                       last_time_diff := (if ahead_by < 0 \<or> ahead_by > TICKSPERSECOND then 0 else ahead_by),
                       last_avi_time := ts\<rparr>, db))"

definition upd_statobj :: "timestamp \<Rightarrow> play_state \<Rightarrow> byte list" where
  "upd_statobj ts st =
     (let b = put 24 (enc 8 ts) (pl_statobj st);
          b = (if sdec (get 32 8 b) = 0 \<and> pl_init_phase st = 0 then put 32 (enc 8 ts) b else b)
      in if sdec (get 40 8 b) < ts then put 40 (enc 8 ts) b else b)"

definition play_status :: "play_opts \<Rightarrow> handle \<Rightarrow> play_state \<Rightarrow> rtdb \<Rightarrow> play_state outcome \<times> rtdb" where
  "play_status opts h st db =
     (let c = chunk_in st
      in if \<not> pl_db opts \<or> k_type c = STREAM_TYPE_ERROR then (Returned st, db)
         else case kogmo_rtdb_timestamp_set (k_ts c) db of (_, db) \<Rightarrow>
           (case kogmo_rtdb_obj_writedata h (pl_stat_oid opts) (upd_statobj (k_ts c) st) db of (r, b, db) \<Rightarrow>
              (if c_ret r < 0 then Died else Returned (st\<lparr>pl_statobj := b\<rparr>), db)))"

definition play_event :: "play_opts \<Rightarrow> nat \<Rightarrow> handle \<Rightarrow> riffchunk \<Rightarrow> int \<Rightarrow> play_state \<Rightarrow> rtdb \<Rightarrow> play_state play" where
  "play_event opts fuel h dc n st db =
     (let ty = k_type (chunk_in st)
      in if ty \<in> {STREAM_TYPE_ADDOBJ, STREAM_TYPE_RFROBJ, STREAM_TYPE_CHGOBJ} then Some (play_info opts h dc st db)
         else if ty = STREAM_TYPE_DELOBJ then play_delete opts fuel h dc st db
         else if ty = STREAM_TYPE_UPDOBJ then Some (play_update opts h dc st db)
         else if ty = STREAM_TYPE_UPDOBJ_NEXT then Some (play_next dc n st, db)
         else if ty = STREAM_TYPE_ERROR then Some (Returned (copy_chunk dc st), db)
         else Some (Returned st, db))"

definition chunk_pos :: "riffchunk \<Rightarrow> play_state \<Rightarrow> int" where
  "chunk_pos dc st = ftello (pl_fp st) - cb dc - 8"

text \<open>From the status object on; \<open>n\<close> is \<open>size\<close>, that of the data behind the header of the chunk.\<close>

definition play_reached :: "play_opts \<Rightarrow> nat \<Rightarrow> handle \<Rightarrow> riffchunk \<Rightarrow> int \<Rightarrow> play_state \<Rightarrow> rtdb \<Rightarrow> (rec_next \<times> play_state) play" where
  "play_reached opts fuel h dc n st db =
     and_then (Some (play_status opts h st db)) (\<lambda>st db.
       let reached = (pl_goto st \<noteq> 0 \<and> k_ts (chunk_in st) \<ge> pl_goto st);
           st = (if reached then st\<lparr>skip_pos := chunk_pos dc st, last_do_goto := pl_goto st, pl_goto := 0\<rparr> else st)
       in if reached \<and> pl_pause st \<and> \<not> pl_scan st then Some (Returned (Goes_on, st), db)
          else and_then (play_event opts fuel h dc n st db) (\<lambda>st db. Some (Returned (Goes_on, st), db)))"

definition play_rtdb :: "play_opts \<Rightarrow> nat \<Rightarrow> handle \<Rightarrow> riffchunk \<Rightarrow> int \<Rightarrow> play_state \<Rightarrow> rtdb \<Rightarrow> (rec_next \<times> play_state) play" where
  "play_rtdb opts fuel h dc n st db =
     and_then (Some (stop_then (leave_init (st\<lparr>rtdbchunk := Some True\<rparr>)) note_position, db)) (\<lambda>st db.
       case pace opts st db of (st, db) \<Rightarrow>
         let ts = k_ts (chunk_in st)
         in if pl_end st \<noteq> 0 \<and> ts > pl_end st then Some (Returned (Ends, st), db)
            else if pl_goto st \<noteq> 0 \<and> \<not> pl_scan st \<and> pl_init_phase st = 0 \<and> ts < pl_goto st
              then Some (Returned (Goes_on, st\<lparr>skip_pos := chunk_pos dc st\<rparr>), db)
            else play_reached opts fuel h dc (n - (int stream_chunk_size - 8)) st db)"

section \<open>Reading a chunk\<close>

text \<open>The headers of the file are copied: \<open>RIFF\<close> and \<open>LIST\<close>, whose data is read only if it is the list of headers.\<close>

definition is_list :: "riffchunk \<Rightarrow> bool" where
  "is_list dc \<longleftrightarrow> strncmp_eq 4 (fcc dc) ''LIST'' \<or> strncmp_eq 4 (fcc dc) ''RIFF''"

definition play_list :: "riffchunk \<Rightarrow> play_state \<Rightarrow> play_state outcome" where
  "play_list dc st =
     (let st = copy_out (aviraw_fput_data (chunk_bytes dc)) st
      in case aviraw_fget_chunkdata (dc\<lparr>cb := 4\<rparr>) 4 (pl_fp st) of (ret, listfcc, fp) \<Rightarrow>
        if ret < 0 then Died
        else
          let st = copy_out (aviraw_fput_data listfcc) (st\<lparr>pl_fp := fp\<rparr>)
          in if strncmp_eq 4 (fcc dc) ''RIFF'' \<and> bytes_string listfcc = ''AVI '' then Returned st
             else if strncmp_eq 4 (fcc dc) ''LIST'' \<and> bytes_string listfcc = ''movi'' then Returned st
             else
               let dc = dc\<lparr>cb := uint32 (cb dc - 4)\<rparr>; bufsz = int (length (base_buf st))
               in if cb dc > bufsz then Died
                  else case aviraw_fget_chunkdata dc bufsz (pl_fp st) of (ret, bs, fp) \<Rightarrow>
                    if int (length bs) > bufsz then Faulted
                    else if ret < 0 then Died
                    else
                      let st = st\<lparr>pl_fp := fp, base_buf := put 0 bs (base_buf st)\<rparr>
                      in Returned (copy_out (aviraw_fput_data (take (nat (cb dc)) (base_buf st))) st))"

text \<open>
  The size of the new buffer is computed as an \<open>int\<close>: \<open>realloc\<close> fails on a negative one and gets a
  buffer smaller than \<open>PREBUFSZ\<close> for sizes close to \<open>2\<^sup>3\<^sup>2\<close>. A new buffer is elsewhere.
\<close>

definition grow_buf :: "riffchunk \<Rightarrow> play_state \<Rightarrow> play_state outcome" where
  "grow_buf dc st =
     (if cb dc \<le> int (length (chunk_data st)) then Returned st
      else
        let n = int32 (cb dc); sz = n + int PREBUFSZ
        in if sz \<ge> 2 ^ 31 then Faulted
           else if sz < 0 then Died
           else if n < 0 then Faulted
           else Returned (st\<lparr>base_buf := base_buf st @ replicate (nat sz - length (base_buf st)) 0,
                  rtdbchunk := map_option (\<lambda>_. False) (rtdbchunk st)\<rparr>))"

text \<open>\<open>None\<close> in place of the size: the file is damaged or at its end.\<close>

definition read_chunk :: "riffchunk \<Rightarrow> play_state \<Rightarrow> (int option \<times> play_state) outcome" where
  "read_chunk dc st =
     stop_then (grow_buf dc st) (\<lambda>st.
       case aviraw_fget_chunkdata dc (int (length (chunk_data st))) (pl_fp st) of (n, bs, fp) \<Rightarrow>
         if length bs > length (chunk_data st) then Faulted
         else let st = st\<lparr>pl_fp := fp, base_buf := put PREBUFSZ bs (base_buf st)\<rparr>
              in Returned (if n < 0 then None else Some n, st))"

definition play_chunk :: "play_opts \<Rightarrow> nat \<Rightarrow> handle \<Rightarrow> riffchunk \<Rightarrow> play_state \<Rightarrow> rtdb \<Rightarrow> (rec_next \<times> play_state) play" where
  "play_chunk opts fuel h dc st db =
     (if is_list dc then and_then (Some (play_list dc st, db)) (\<lambda>st db. Some (Returned (Goes_on, st), db))
      else and_then (Some (read_chunk dc st, db)) (\<lambda>(n, st) db.
        case n of
          None \<Rightarrow> Some (Returned (Ends, st), db)
        | Some n \<Rightarrow>
            if strncmp_eq 4 (fcc dc) ''RTDB'' then play_rtdb opts fuel h dc n st db
            else if aviraw_chunk_nr_stream dc \<ge> 0
              then and_then (Some (play_stream opts h dc st db)) (\<lambda>st db. Some (Returned (Goes_on, st), db))
            else Some (Returned (Goes_on, st), db)))"

section \<open>The control object\<close>

text \<open>
  Its fields: flags at 24 (log, pause, loop, keepcreated, scan from the lowest bit on), speed at 28,
  begin, end and goto at 32, 40 and 48, the name of an object at 56, a number of frames at 88.
\<close>

definition CTRLOBJ_SIZE :: nat where "CTRLOBJ_SIZE = base_size + 66"

definition ctrl_settings :: "play_state \<Rightarrow> play_state" where
  "ctrl_settings st =
     (let b = ctrlobj st; fl = udec (get 24 4 b); speed = single_of (udec (get 28 4 b)); begin_ts = sdec (get 32 8 b)
      in st\<lparr>pl_loop := bit fl 2, keepcreated := bit fl 3,
            last_real_time := (if pl_speed st \<noteq> speed then 0 else last_real_time st), pl_speed := speed,
            skip_pos := (if begin_ts \<noteq> pl_begin st then 0 else skip_pos st), pl_begin := begin_ts,
            pl_end := sdec (get 40 8 b), pl_pause := bit fl 1, pl_scan := bit fl 4,
            last_ctrlobj_ts := b_data_ts b, pl_goto := 0\<rparr>)"

definition ctrl_goto :: "play_state \<Rightarrow> play_state outcome" where
  "ctrl_goto st =
     (let goto_ts = sdec (get 48 8 (ctrlobj st))
      in if goto_ts = 0 then Returned st
         else case timeidx_lookup goto_ts (pl_idx st) of
                None \<Rightarrow> Faulted
              | Some filepos \<Rightarrow>
                  if rtdbchunk st \<noteq> Some True then Faulted
                  else
                    let ts = k_ts (chunk_in st); st = st\<lparr>pl_goto := goto_ts\<rparr>;
                        st = (if goto_ts < ts then fseeko (if filepos \<ge> 0 then filepos else 0) st
                              else if goto_ts > ts \<and> filepos \<ge> 0 \<and> \<not> pl_scan st then fseeko filepos st
                              else st)
                    in Returned (st\<lparr>frame_go := 0, frames := [], last_real_time := 0\<rparr>))"

definition back_frames :: "int \<Rightarrow> play_state \<Rightarrow> play_state" where
  "back_frames n st =
     (let i = int (length (frames st)) - 1 + n - 1
      in if i \<ge> 0 \<and> i < int FRAME_GO_INDEX_MAX
         then (fseeko (frames st ! nat i) st)\<lparr>frames := take (nat i) (frames st), frame_go := 2\<rparr> else st)"

definition ctrl_frames :: "handle \<Rightarrow> play_state \<Rightarrow> rtdb \<Rightarrow> play_state \<times> rtdb" where
  "ctrl_frames h st db =
     (let st = st\<lparr>frame_go := 0, rawnext_frame_go := False\<rparr>; n = sdec (get 88 2 (ctrlobj st))
      in if n = 0 then (st, db)
         else case kogmo_rtdb_obj_searchinfo h (Some (bytes_string (get 56 32 (ctrlobj st)))) 0 0 0 0 None 1 db of (r, _, db) \<Rightarrow>
           if c_ret r \<le> 0 then (st, db)
           else
             let st = st\<lparr>frames := (if c_ret r \<noteq> frame_oid st then [] else frames st), frame_oid := c_ret r\<rparr>;
                 st = (if n < 0 then back_frames n st else st\<lparr>frame_go := n\<rparr>)
             in (st\<lparr>last_real_time := 0\<rparr>, db))"

definition play_control :: "play_opts \<Rightarrow> nat \<Rightarrow> handle \<Rightarrow> play_state \<Rightarrow> rtdb \<Rightarrow> play_state play" where
  "play_control opts fuel h st db =
     (if \<not> pl_db opts \<or> pl_init_phase st \<noteq> 0 \<or> rtdbchunk st = None then Some (Returned st, db)
      else case kogmo_rtdb_obj_readdata fuel h (pl_ctrl_oid opts) 0 (ctrlobj st) (int CTRLOBJ_SIZE) db of
             None \<Rightarrow> None
           | Some (r, b, db) \<Rightarrow>
               let st = st\<lparr>ctrlobj := b\<rparr>
               in if c_ret r \<noteq> int CTRLOBJ_SIZE then Some (Returned (st\<lparr>last_ctrlobj_ts := b_data_ts b\<rparr>), db)
                  else if b_data_ts b = last_ctrlobj_ts st then Some (Returned st, db)
                  else and_then (Some (ctrl_goto (ctrl_settings st), db)) (\<lambda>st db.
                    case ctrl_frames h st db of (st, db) \<Rightarrow> Some (Returned st, db)))"

section \<open>The loop\<close>

text \<open>One round of the inner loop; at the end of the file the loop ends after it.\<close>

definition play_step :: "play_opts \<Rightarrow> nat \<Rightarrow> handle \<Rightarrow> play_state \<Rightarrow> rtdb \<Rightarrow> (rec_next \<times> play_state) play" where
  "play_step opts fuel h st db =
     and_then (play_control opts fuel h st db) (\<lambda>st db.
       if pl_pause st \<and> pl_goto st = 0 \<and> pl_init_phase st = 0 \<and> frame_go st = 0
         then Some (Returned (Goes_on, st\<lparr>naps := 50000 # naps st\<rparr>), db)
       else case aviraw_fget_chunkheader (pl_fp st) of (ret, dc, fp) \<Rightarrow>
         let st = st\<lparr>pl_fp := fp\<rparr>
         in if eof fp then Some (Returned (Goes_on, st), db)
            else case dc of None \<Rightarrow> Some (Died, db) | Some dc \<Rightarrow> play_chunk opts fuel h dc st db)"

text \<open>The inner loop, for at most so many rounds.\<close>

fun play_loop :: "nat \<Rightarrow> play_opts \<Rightarrow> nat \<Rightarrow> handle \<Rightarrow> play_state \<Rightarrow> rtdb \<Rightarrow> play_state play" where
  "play_loop 0 opts fuel h st db = (if eof (pl_fp st) then Some (Returned st, db) else None)"
| "play_loop (Suc n) opts fuel h st db =
     (if eof (pl_fp st) then Some (Returned st, db)
      else and_then (play_step opts fuel h st db) (\<lambda>(nx, st) db.
        if nx = Ends then Some (Returned st, db) else play_loop n opts fuel h st db))"

text \<open>Before the loop: the file from its beginning, or from where a time is.\<close>

definition start_round :: "play_opts \<Rightarrow> play_state \<Rightarrow> play_state outcome" where
  "start_round opts st =
     (let st = st\<lparr>last_real_time := 0, last_avi_time := 0, last_time_diff := 0, next_prebuf_size := 0, rawnext_oid := 0,
                  rawnext_frame_go := False, rawnext_ts := 0, pl_init_phase := 1, frames := [], frame_go := 0\<rparr>;
          st = (if pl_input opts then st\<lparr>pl_fp := (pl_fp st)\<lparr>fpos := 0, eof := False\<rparr>\<rparr> else st);
          st = (if pl_begin st \<noteq> 0 \<and> pl_goto st = 0 then st\<lparr>pl_goto := pl_begin st\<rparr> else st)
      in if pl_goto st = 0 \<or> \<not> pl_loop st \<or> \<not> keepcreated st then Returned st
         else if skip_pos st \<noteq> 0 \<and> last_do_goto st = pl_goto st then Returned (fseeko (skip_pos st) st)
         else case timeidx_lookup (pl_goto st) (pl_idx st) of
                None \<Rightarrow> Faulted
              | Some filepos \<Rightarrow> Returned (if filepos \<ge> 0 then fseeko filepos st else st))"

text \<open>After it, the objects in the map are deleted; a failure is not reported.\<close>

fun delete_mapped :: "int list \<Rightarrow> nat \<Rightarrow> handle \<Rightarrow> obj_info \<Rightarrow> play_state \<Rightarrow> rtdb \<Rightarrow> (play_state \<times> rtdb) option" where
  "delete_mapped [] fuel h m st db = Some (st, db)"
| "delete_mapped (i # js) fuel h m st db =
     (if i = 0 then delete_mapped js fuel h m st db
      else
        let destoid = map_querydest i (pl_map st); st' = st\<lparr>pl_map := snd (map_del i (pl_map st))\<rparr>
        in if destoid = 0 then delete_mapped js fuel h m st' db
           else case kogmo_rtdb_obj_delete fuel h (m\<lparr>oid := destoid\<rparr>) db of
                  None \<Rightarrow> None
                | Some (_, m, db) \<Rightarrow> delete_mapped js fuel h m st' db)"

definition end_round :: "play_opts \<Rightarrow> nat \<Rightarrow> handle \<Rightarrow> play_state \<Rightarrow> rtdb \<Rightarrow> (play_state \<times> rtdb) option" where
  "end_round opts fuel h st db =
     (if pl_loop st \<and> keepcreated st \<or> \<not> pl_db opts then Some (st, db)
      else delete_mapped (map src (pl_map st)) fuel h zero_info st db)"

definition play_round :: "nat \<Rightarrow> play_opts \<Rightarrow> nat \<Rightarrow> handle \<Rightarrow> play_state \<Rightarrow> rtdb \<Rightarrow> play_state play" where
  "play_round n opts fuel h st db =
     and_then (Some (start_round opts st, db)) (\<lambda>st db.
       and_then (play_loop n opts fuel h st db) (\<lambda>st db.
         map_option (\<lambda>(st, db). (Returned st, db)) (end_round opts fuel h st db)))"

text \<open>The whole file, again and again with \<open>-L\<close>, for at most so many times; then the index is written to its file, if there is one.\<close>

fun play_rounds :: "nat \<Rightarrow> nat \<Rightarrow> play_opts \<Rightarrow> nat \<Rightarrow> handle \<Rightarrow> play_state \<Rightarrow> rtdb \<Rightarrow> play_state play" where
  "play_rounds 0 n opts fuel h st db = None"
| "play_rounds (Suc m) n opts fuel h st db =
     and_then (play_round n opts fuel h st db) (\<lambda>st db.
       if pl_loop st then play_rounds m n opts fuel h st db else Some (Returned st, db))"

definition play_file :: "bool \<Rightarrow> nat \<Rightarrow> nat \<Rightarrow> play_opts \<Rightarrow> nat \<Rightarrow> handle \<Rightarrow> play_state \<Rightarrow> rtdb \<Rightarrow> (timeidx option \<times> play_state) play" where
  "play_file index_file m n opts fuel h st db =
     and_then (play_rounds m n opts fuel h (st\<lparr>pl_map := map_init OBJIDLIST_MAX NAME_MAXLEN\<rparr>) db) (\<lambda>st db.
       Some (Returned (case pl_idx st of
                         None \<Rightarrow> (None, st)
                       | Some x \<Rightarrow> (case timeidx_write index_file x of (file, x) \<Rightarrow> (file, st\<lparr>pl_idx := Some x\<rparr>))), db))"

end
