(* ===== verification/Recorder_Props.thy ===== *)
theory Recorder_Props
  imports Avi_Index Recorder Sample_State
begin

text \<open>
  What a recording looks like: a sequence of units, each an \<open>RTDB\<close> chunk or, for images and raw
  data, an \<open>RTDB\<close> chunk with the beginning of an object and a chunk with the rest. An object's
  metadata comes before its first update.
\<close>

section \<open>Units\<close>

datatype rec_unit = Plain timestamp int int "byte list" | Split timestamp int "byte list" riffchunk "byte list"

definition rtdb_bytes :: "timestamp \<Rightarrow> int \<Rightarrow> int \<Rightarrow> byte list \<Rightarrow> byte list" where
  "rtdb_bytes ts i ty d = stream_chunk_bytes (rtdb_chunk ts i ty (length d)) @ d @ padding d"

fun unit_bytes :: "rec_unit \<Rightarrow> byte list" where
  "unit_bytes (Plain ts i ty d) = rtdb_bytes ts i ty d"
| "unit_bytes (Split ts i d c raw) = rtdb_bytes ts i STREAM_TYPE_UPDOBJ_NEXT d @ chunk_file (c, raw)"

definition stream_bytes :: "rec_unit list \<Rightarrow> byte list" where
  "stream_bytes us = concat (map unit_bytes us)"

definition info_types :: "int set" where
  "info_types = {STREAM_TYPE_ADDOBJ, STREAM_TYPE_DELOBJ, STREAM_TYPE_RFROBJ, STREAM_TYPE_CHGOBJ}"

text \<open>
  Metadata has its size, an error has no data, the data of an update has the size its header says.
  The rest of an image is a chunk of a stream, that of raw data a junk chunk; the size in the header
  is that of both parts.
\<close>

fun unit_ok :: "rec_unit \<Rightarrow> bool" where
  "unit_ok (Plain ts i ty d) \<longleftrightarrow>
     ty \<in> info_types \<and> length d = info_size \<or> ty = STREAM_TYPE_ERROR \<and> d = [] \<or>
     ty = STREAM_TYPE_UPDOBJ \<and> (base_size \<le> length d \<longrightarrow> b_size d = int (length d))"
| "unit_ok (Split ts i d c raw) \<longleftrightarrow> raw \<noteq> [] \<and> cb c = int (length raw) \<and>
     (is_stream_chunk c \<and> length d \<in> {base_size, image_header_size} \<and> b_size d = int (image_header_size + length raw) \<or>
      aviraw_chunk_is_junk c \<and> length d = base_size \<and> b_size d = int (base_size + length raw))"

fun unit_oid :: "rec_unit \<Rightarrow> int" where
  "unit_oid (Plain ts i ty d) = i"
| "unit_oid (Split ts i d c raw) = i"

fun is_update :: "rec_unit \<Rightarrow> bool" where
  "is_update (Plain ts i ty d) \<longleftrightarrow> ty = STREAM_TYPE_UPDOBJ"
| "is_update (Split ts i d c raw) \<longleftrightarrow> True"

definition described :: "rec_unit list \<Rightarrow> int set" where
  "described us = {i. \<exists>ts d. Plain ts i STREAM_TYPE_RFROBJ d \<in> set us}"

inductive recording :: "rec_unit list \<Rightarrow> bool" where
  recording_Nil: "recording []"
| recording_snoc: "recording us \<Longrightarrow> unit_ok u \<Longrightarrow> (is_update u \<Longrightarrow> unit_oid u \<in> described us) \<Longrightarrow> recording (us @ [u])"

lemma described_snoc [simp]: "described (us @ [Plain ts i ty d]) = (if ty = STREAM_TYPE_RFROBJ then insert i (described us) else described us)"
  "described (us @ [Split ts i d c raw]) = described us"
  by (auto simp: described_def)

lemma described_mono: "described us \<subseteq> described (us @ vs)"
  by (auto simp: described_def)

lemma stream_bytes_snoc [simp]: "stream_bytes (us @ [u]) = stream_bytes us @ unit_bytes u" "stream_bytes [] = []"
  by (simp_all add: stream_bytes_def)

section \<open>What a call appends to the file\<close>

lemma fwrite_1: "fwrite d f = (1, f') \<Longrightarrow> d \<noteq> [] \<and> written f' = written f @ d"
  by (auto simp: fwrite_def Let_def split: if_splits)

lemma stream_chunk_nonempty: "stream_chunk_bytes c \<noteq> []"
proof -
  have "length (stream_chunk_bytes c) \<ge> 20" by (simp add: stream_chunk_bytes_def)
  then show ?thesis by force
qed

lemma fput_rtdb_file:
  assumes "aviraw_fput_rtdb ts i ty d (Some f) = Returned (r, g)"
  obtains f' where "g = Some f'" "written f' = written f @ rtdb_bytes ts i ty d"
proof -
  obtain r1 f1 where 1: "fwrite (stream_chunk_bytes (rtdb_chunk ts i ty (length d))) f = (r1, f1)" by force
  obtain r2 f2 where 2: "(if d \<noteq> [] then fwrite d f1 else (1, f1)) = (r2, f2)" by (metis surj_pair)
  obtain r3 f3 where 3: "(if odd (length d) then fwrite [0] f2 else (1, f2)) = (r3, f3)" by (metis surj_pair)
  have r: "r1 = 1" "r2 = 1" "r3 = 1" "g = Some f3"
    using assms by (simp_all only: aviraw_fput_rtdb_def option.case 1 2 3 prod.case split: if_splits) auto
  have w1: "written f1 = written f @ stream_chunk_bytes (rtdb_chunk ts i ty (length d))" using fwrite_1 [of _ f f1] 1 r by simp
  have w2: "written f2 = written f1 @ d" using fwrite_1 [of d f1 f2] 2 r by (auto split: if_splits)
  have w3: "written f3 = written f2 @ padding d" using fwrite_1 [of "[0]" f2 f3] 3 r by (auto simp: padding_def split: if_splits)
  show ?thesis by (rule that [OF r(4)]) (simp add: w1 w2 w3 rtdb_bytes_def)
qed

lemma fput_data_file:
  assumes "aviraw_fput_data d f = (0, f')"
  shows "d \<noteq> [] \<and> written f' = written f @ d @ padding d"
proof -
  obtain r1 f1 where 1: "fwrite d f = (r1, f1)" by force
  obtain r2 f2 where 2: "fwrite [0] f1 = (r2, f2)" by force
  have r: "r1 = 1" using assms by (auto simp: aviraw_fput_data_def 1 split: if_splits)
  note w1 = fwrite_1 [OF 1 [unfolded r]]
  show ?thesis
  proof (cases "odd (length d)")
    case True
    then have r2: "r2 = 1" "f' = f2" using assms by (auto simp: aviraw_fput_data_def 1 2 r split: if_splits)
    then show ?thesis using w1 fwrite_1 [OF 2 [unfolded r2(1)]] True by (simp add: padding_def)
  next
    case False
    then show ?thesis using assms w1 by (simp add: aviraw_fput_data_def 1 r padding_def)
  qed
qed

lemma fput_with_header_file:
  assumes "fput_with_header c d f = (0, f')"
  shows "d \<noteq> [] \<and> written f' = written f @ chunk_file (c, d)"
proof -
  obtain r1 f1 where 1: "fwrite (chunk_bytes c) f = (r1, f1)" by force
  have r: "r1 = 1" using assms by (auto simp: fput_with_header_def 1 split: if_splits)
  have "aviraw_fput_data d f1 = (0, f')" using assms by (simp add: fput_with_header_def 1 r)
  then show ?thesis using fwrite_1 [OF 1 [unfolded r]] fput_data_file by (auto simp: chunk_file_def)
qed

lemma of_char_int: "(of_char (char_of (m :: nat) :: char) :: int) = int (m mod 256)"
proof -
  have "(of_char (char_of m :: char) :: int) = of_nat (of_char (char_of m :: char))" by (rule of_nat_of_char [symmetric])
  then show ?thesis by (simp only: of_char_of)
qed

lemma stream_chunk_stream: "n < 10 \<Longrightarrow> is_stream_chunk (stream_chunk (int n) k)"
  by (simp add: is_stream_chunk_def aviraw_chunk_nr_stream_def stream_chunk_def of_char_int)

section \<open>The recorder keeps to the format\<close>

definition rec_inv :: "byte list \<Rightarrow> rec_unit list \<Rightarrow> rec_state \<Rightarrow> bool" where
  "rec_inv B us st \<longleftrightarrow> recording us \<and> (\<exists>f. rfp st = Some f \<and> written f = B @ stream_bytes us)
     \<and> (\<forall>i \<in> set (knownid st). i \<noteq> 0 \<longrightarrow> i \<in> described us)
     \<and> image_header_size \<le> length (obj_data st) \<and> length (obj_data st) < 2 ^ 31 \<and> length (name (rec_info st)) = NAME_MAXLEN"

definition rec_ok :: "byte list \<Rightarrow> rec_state \<Rightarrow> bool" where
  "rec_ok B st \<longleftrightarrow> (\<exists>us. rec_inv B us st)"

lemma rec_ok_update [simp]:
  "rec_ok B (st\<lparr>olen := a\<rparr>) = rec_ok B st" "rec_ok B (st\<lparr>statobj := b\<rparr>) = rec_ok B st"
  "rec_ok B (st\<lparr>last_status_ts := c\<rparr>) = rec_ok B st" "rec_ok B (st\<lparr>lost_messages := d\<rparr>) = rec_ok B st"
  "rec_ok B (st\<lparr>events_total := e\<rparr>) = rec_ok B st" "rec_ok B (st\<lparr>events_total_written := e\<rparr>) = rec_ok B st"
  "rec_ok B (st\<lparr>record_enable := g\<rparr>) = rec_ok B st" "rec_ok B (st\<lparr>init_phase := g\<rparr>) = rec_ok B st"
  "rec_ok B (st\<lparr>initial_ts := c\<rparr>) = rec_ok B st" "rec_ok B (st\<lparr>initial_objects := l\<rparr>) = rec_ok B st"
  by (simp_all add: rec_ok_def rec_inv_def)

lemma rec_ok_obj_data: "rec_ok B st \<Longrightarrow> length buf = length (obj_data st) \<Longrightarrow> rec_ok B (st\<lparr>obj_data := buf\<rparr>)"
  by (simp add: rec_ok_def rec_inv_def)

lemma put_rtdb_inv:
  assumes "rec_inv B us st" "put_rtdb ev ty d st = Returned st'" "unit_ok (Plain (tm_ts ev) (tm_oid ev) ty d)"
    "ty = STREAM_TYPE_UPDOBJ \<Longrightarrow> tm_oid ev \<in> described us"
  shows "rec_inv B (us @ [Plain (tm_ts ev) (tm_oid ev) ty d]) st' \<and> st' = st\<lparr>rfp := rfp st'\<rparr>"
proof -
  from assms(1) obtain f where f: "rfp st = Some f" "written f = B @ stream_bytes us" by (auto simp: rec_inv_def)
  obtain r g where g: "aviraw_fput_rtdb (tm_ts ev) (tm_oid ev) ty d (Some f) = Returned (r, g)" "st' = st\<lparr>rfp := g\<rparr>"
    using assms(2) f(1) by (auto simp: put_rtdb_def split: outcome.splits)
  obtain f' where f': "g = Some f'" "written f' = written f @ rtdb_bytes (tm_ts ev) (tm_oid ev) ty d"
    using fput_rtdb_file [OF g(1)] by blast
  have "recording (us @ [Plain (tm_ts ev) (tm_oid ev) ty d])"
    using assms(1,3,4) by (intro recording_snoc) (auto simp: rec_inv_def)
  then show ?thesis using assms(1) f f' g(2) by (auto simp: rec_inv_def)
qed

lemma fput_error_ok:
  assumes "rec_ok B st" "fput_error ts i st = Returned st'"
  shows "rec_ok B st'"
proof -
  obtain us where us: "rec_inv B us (st\<lparr>lost_messages := lost_messages st + 1\<rparr>)"
    using assms(1) by (auto simp: rec_ok_def rec_inv_def)
  have "put_rtdb \<lparr>tm_oid = i, tm_ts = ts, tm_event = TRACE_UPDATED, tm_obj_slot = None, tm_hist_slot = 0\<rparr> STREAM_TYPE_ERROR []
      (st\<lparr>lost_messages := lost_messages st + 1\<rparr>) = Returned st'"
    using assms(2) by (simp add: fput_error_def put_rtdb_def Let_def)
  from put_rtdb_inv [OF us this] show ?thesis by (auto simp: rec_ok_def stream_types)
qed

lemma b_size_take [simp]: "base_size \<le> n \<Longrightarrow> b_size (take n bs) = b_size bs"
  by (simp add: b_size_def base_size_def)

lemma put_raw_file:
  assumes "put_raw streamit junkit st = Returned st'" "rfp st = Some f" "streamit > 0 \<or> junkit" "streamit \<le> 10"
    "length (obj_data st) < 2 ^ 31"
  defines "off \<equiv> (if streamit > 0 then image_header_size else base_size)"
  obtains c raw f' where "st' = st\<lparr>rfp := Some f'\<rparr>" "written f' = written f @ chunk_file (c, raw)" "raw \<noteq> []"
    "cb c = int (length raw)" "b_size (obj_data st) = int (off + length raw)"
    "if streamit > 0 then is_stream_chunk c else aviraw_chunk_is_junk c"
proof -
  define n where "n = b_size (obj_data st) - int off"
  define raw where "raw = get off (nat n) (obj_data st)"
  define put where "put = (if streamit > 0 then aviraw_fput_stream (int streamit - 1) raw f else aviraw_fput_junk raw f)"
  have n: "0 \<le> n" "off + nat n \<le> length (obj_data st)"
    using assms(1-3) by (auto simp: put_raw_def Let_def off_def [symmetric] n_def split: if_splits)
  obtain err f' where e: "put = (err, f')" by force
  have r: "err = 0" "st' = st\<lparr>rfp := Some f'\<rparr>"
    using assms(1-3) n e unfolding put_def
    by (auto simp: put_raw_def Let_def off_def [symmetric] n_def [symmetric] raw_def [symmetric] split: if_splits)
  have l: "length raw = nat n" using n by (simp add: raw_def)
  then have u: "uint32 (int (length raw)) = int (length raw)" using n assms(5) by simp
  define c where "c = (if streamit > 0 then stream_chunk (int streamit - 1) (length raw)
    else \<lparr>fcc = ''JUNK'', cb = uint32 (int (length raw))\<rparr>)"
  have "fput_with_header c raw f = (0, f')"
    using e r(1) assms(4) by (auto simp: put_def c_def aviraw_fput_stream_def aviraw_fput_junk_def split: if_splits)
  note w = fput_with_header_file [OF this]
  show ?thesis
  proof (rule that [OF r(2), of c raw])
    show "written f' = written f @ chunk_file (c, raw)" "raw \<noteq> []" using w by simp_all
    show "cb c = int (length raw)" using u by (simp add: c_def stream_chunk_def)
    show "b_size (obj_data st) = int (off + length raw)" using n l by (simp add: n_def)
    show "if streamit > 0 then is_stream_chunk c else aviraw_chunk_is_junk c"
      using stream_chunk_stream [of "streamit - 1" "length raw"] assms(4)
      by (auto simp: c_def aviraw_chunk_is_junk_def of_nat_diff)
  qed
qed

lemma put_update_ok:
  assumes inv: "rec_inv B us st" and p: "put_update ev streamit junkit st = Returned st'" and s: "streamit \<le> 10"
    and d: "tm_oid ev \<in> described us"
  shows "rec_ok B st'"
proof -
  let ?sz = "if junkit then int base_size else if streamit > 0 then int image_header_size else b_size (obj_data st)"
  let ?ty = "if junkit \<or> streamit > 0 then STREAM_TYPE_UPDOBJ_NEXT else STREAM_TYPE_UPDOBJ"
  let ?d = "take (nat ?sz) (obj_data st)"
  have sz: "0 \<le> ?sz" "nat ?sz \<le> length (obj_data st)" using p by (auto simp: put_update_def Let_def split: if_splits)
  then have ld: "length ?d = nat ?sz" by simp
  obtain st1 where 1: "put_rtdb ev ?ty ?d st = Returned st1" "put_raw streamit junkit st1 = Returned st'"
    using p sz by (auto simp: put_update_def Let_def split: if_splits outcome.splits)
  show ?thesis
  proof (cases "streamit > 0 \<or> junkit")
    case False
    have "rec_inv B (us @ [Plain (tm_ts ev) (tm_oid ev) ?ty ?d]) st1 \<and> st1 = st\<lparr>rfp := rfp st1\<rparr>"
      by (rule put_rtdb_inv [OF inv 1(1)]) (use False sz d in auto)
    moreover have "st' = st1" using 1(2) False by (auto simp: put_raw_def split: option.splits)
    ultimately show ?thesis by (auto simp: rec_ok_def)
  next
    case True
    from inv obtain f where f: "rfp st = Some f" "written f = B @ stream_bytes us" by (auto simp: rec_inv_def)
    obtain r g where g: "aviraw_fput_rtdb (tm_ts ev) (tm_oid ev) ?ty ?d (Some f) = Returned (r, g)" "st1 = st\<lparr>rfp := g\<rparr>"
      using 1(1) f(1) by (auto simp: put_rtdb_def split: outcome.splits)
    obtain f1 where f1: "g = Some f1" "written f1 = written f @ rtdb_bytes (tm_ts ev) (tm_oid ev) ?ty ?d"
      using fput_rtdb_file [OF g(1)] by blast
    have st1: "rfp st1 = Some f1" "length (obj_data st1) < 2 ^ 31" "obj_data st1 = obj_data st"
      using inv f1(1) g(2) by (simp_all add: rec_inv_def)
    obtain c raw f' where c: "st' = st1\<lparr>rfp := Some f'\<rparr>" "written f' = written f1 @ chunk_file (c, raw)" "raw \<noteq> []"
      "cb c = int (length raw)" "b_size (obj_data st) = int ((if streamit > 0 then image_header_size else base_size) + length raw)"
      "if streamit > 0 then is_stream_chunk c else aviraw_chunk_is_junk c"
      by (rule put_raw_file [OF 1(2) st1(1) True s st1(2), unfolded st1(3)])
    let ?u = "Split (tm_ts ev) (tm_oid ev) ?d c raw"
    have bs: "b_size ?d = b_size (obj_data st)" using True by (intro b_size_take) (auto simp: image_header_size_def)
    have "unit_ok ?u" using c True bs ld unfolding unit_ok.simps by (auto split: if_splits)
    then have "recording (us @ [?u])" using inv d by (intro recording_snoc) (auto simp: rec_inv_def)
    then have "rec_inv B (us @ [?u]) st'"
      using inv f f1 g(2) c True by (auto simp: rec_inv_def)
    then show ?thesis by (auto simp: rec_ok_def)
  qed
qed

lemma known_obj_described:
  assumes "known_obj i ks = Returned (r, ks')" "\<forall>k \<in> set ks. k \<noteq> 0 \<longrightarrow> k \<in> S"
  shows "\<forall>k \<in> set ks'. k \<noteq> 0 \<longrightarrow> k \<in> insert i S" "r \<noteq> 0 \<Longrightarrow> i \<in> S \<and> ks' = ks"
    "i \<le> 0 \<Longrightarrow> \<forall>k \<in> set ks'. k \<noteq> 0 \<longrightarrow> k \<in> S"
  using assms by (auto simp: known_obj_def split: if_splits option.splits dest!: set_update_subset_insert [THEN subsetD])

text \<open>After this the object of an update is described.\<close>

lemma put_known_inv:
  assumes inv: "rec_inv B us st" and p: "put_known ev st = Returned st'"
  obtains vs where "rec_inv B vs st'" "tm_event ev = TRACE_UPDATED \<Longrightarrow> tm_oid ev \<in> described vs" "olen st' = olen st"
    "obj_data st' = obj_data st"
proof (cases "tm_event ev = TRACE_UPDATED")
  case False
  then have "st' = st" using p by (simp add: put_known_def)
  then show ?thesis using that [of us] inv False by simp
next
  case True
  from inv obtain f where f: "rfp st = Some f" by (auto simp: rec_inv_def)
  obtain r ks where k: "known_obj (tm_oid ev) (knownid st) = Returned (r, ks)"
    using p True by (auto simp: put_known_def split: outcome.splits)
  note K = known_obj_described [OF k, of "described us"]
  have S: "\<forall>k \<in> set (knownid st). k \<noteq> 0 \<longrightarrow> k \<in> described us" using inv by (simp add: rec_inv_def)
  let ?st = "st\<lparr>knownid := ks\<rparr>" and ?d = "info_bytes (rec_info st)"
  show ?thesis
  proof (cases "r = 0")
    case False
    then have "st' = ?st" using p True by (simp add: put_known_def k)
    with K(2) [OF S False] inv show ?thesis by (intro that [of us]) (simp_all add: rec_inv_def)
  next
    case r: True
    have P: "put_rtdb ev STREAM_TYPE_RFROBJ ?d ?st = Returned st'" using p True r f by (simp add: put_known_def k)
    let ?u = "Plain (tm_ts ev) (tm_oid ev) STREAM_TYPE_RFROBJ ?d"
    obtain g where g: "aviraw_fput_rtdb (tm_ts ev) (tm_oid ev) STREAM_TYPE_RFROBJ ?d (Some f) = Returned (fst g, snd g)" "st' = ?st\<lparr>rfp := snd g\<rparr>"
      using P f by (auto simp: put_rtdb_def split: outcome.splits)
    obtain f' where f': "snd g = Some f'" "written f' = written f @ rtdb_bytes (tm_ts ev) (tm_oid ev) STREAM_TYPE_RFROBJ ?d"
      using fput_rtdb_file [OF g(1)] by blast
    have "recording (us @ [?u])"
      using inv by (intro recording_snoc) (auto simp: rec_inv_def info_types_def stream_types)
    then have "rec_inv B (us @ [?u]) st'" using inv f f' g(2) K(1) [OF S] by (auto simp: rec_inv_def)
    then show ?thesis using g(2) by (intro that [of "us @ [?u]"]) simp_all
  qed
qed

lemma put_event_ok:
  assumes "rec_ok B st" "put_event ev streamit junkit st = Returned st'" "streamit \<le> 10"
  shows "rec_ok B st'"
proof -
  have "rec_ok B (st\<lparr>events_total_written := events_total_written st + 1\<rparr>)" using assms(1) by simp
  then obtain us where us: "rec_inv B us (st\<lparr>events_total_written := events_total_written st + 1\<rparr>)" by (auto simp: rec_ok_def)
  obtain st1 where 1: "put_known ev (st\<lparr>events_total_written := events_total_written st + 1\<rparr>) = Returned st1"
    using assms(2) by (auto simp: put_event_def split: outcome.splits)
  obtain vs where vs: "rec_inv B vs st1" "tm_event ev = TRACE_UPDATED \<Longrightarrow> tm_oid ev \<in> described vs"
    using put_known_inv [OF us 1] by metis
  have info: "rec_ok B st'" if "put_rtdb ev ty (info_bytes (rec_info st1)) st1 = Returned st'" "ty \<in> info_types" for ty
  proof -
    have "unit_ok (Plain (tm_ts ev) (tm_oid ev) ty (info_bytes (rec_info st1)))" "ty \<noteq> STREAM_TYPE_UPDOBJ"
      using vs(1) that(2) by (auto simp: rec_inv_def info_types_def stream_types)
    then show ?thesis using put_rtdb_inv [OF vs(1) that(1)] by (auto simp: rec_ok_def)
  qed
  show ?thesis
  proof (cases "olen st1 \<le> 0 \<or> rfp st1 = None")
    case True
    then show ?thesis using assms(2) 1 vs(1) by (auto simp: put_event_def rec_ok_def)
  next
    case False
    show ?thesis
    proof (cases "tm_event ev = TRACE_UPDATED")
      case True
      then show ?thesis using put_update_ok [OF vs(1) _ assms(3) vs(2)] assms(2) 1 False by (simp add: put_event_def)
    next
      case F: False
      then show ?thesis using info assms(2) 1 False
        by (cases "tm_event ev") (auto simp: put_event_def info_types_def)
    qed
  qed
qed

lemma length_copy_data: "length (copy_data p n hp buf) = length buf"
  by (simp add: copy_data_def Let_def)

lemma check_data_ok: "rec_ok B st \<Longrightarrow> check_data ev st = Returned st' \<Longrightarrow> rec_ok B st'"
  using fput_error_ok [of B st "tm_ts ev" "tm_oid ev"]
  by (auto simp: check_data_def Let_def split: if_splits outcome.splits)

lemma read_slot_ok: "rec_ok B st \<Longrightarrow> read_slot ev st db = Returned st' \<Longrightarrow> rec_ok B st'"
  by (auto simp: read_slot_def Let_def rec_ok_obj_data length_copy_data split: option.splits if_splits)

lemma readdata_length:
  assumes "kogmo_rtdb_obj_readdata fuel h i ts buf (int (length buf)) db = Some (r, buf', db')" "base_size \<le> length buf"
  shows "length buf' = length buf"
proof -
  have c: "length (set_committed_ts t (set_size a (ldb (heap db) p (nat a) @ drop (nat a) buf))) = length buf"
    if "a \<le> int (length buf)" for a t p
    using that assms(2) by (cases "nat a \<le> length buf") simp_all
  obtain z where z: "readdata_select fuel h RTDBSEL_LAST i ts db = Some z"
    using assms(1) by (auto simp: kogmo_rtdb_obj_readdata_def kogmo_rtdb_obj_readdata_mode_def)
  show ?thesis
  proof (cases z)
    case (Inl e) then show ?thesis using assms(1) z by (auto simp: kogmo_rtdb_obj_readdata_def kogmo_rtdb_obj_readdata_mode_def)
  next
    case (Inr kp)
    obtain k p where kp: "kp = (k, p)" by force
    let ?a = "if m_size (heap db) p \<le> int (length buf) then m_size (heap db) p else int (length buf)"
    have "buf' = set_committed_ts (m_committed_ts (heap db) p) (set_size ?a (ldb (heap db) p (nat ?a) @ drop (nat ?a) buf))"
      using assms(1) z Inr kp
      by (auto simp: kogmo_rtdb_obj_readdata_def kogmo_rtdb_obj_readdata_mode_def Let_def split_beta split: if_splits)
    then show ?thesis using c [of ?a "m_committed_ts (heap db) p" p] by (simp split: if_splits)
  qed
qed

lemma select_object_stream: "select_object opts i m = (t, s, j) \<Longrightarrow> s \<le> 10"
  by (auto simp: select_object_def Let_def scan_first_Some split: option.splits)

lemma read_update_ok:
  assumes "rec_ok B st" "read_update fuel h ev st db = Some (Returned st', db')"
  shows "rec_ok B st'"
proof (cases "init_phase st")
  case True
  then obtain r buf d where r: "kogmo_rtdb_obj_readdata fuel h (tm_oid ev) (tm_ts ev) (obj_data st) (int (length (obj_data st))) db
      = Some (r, buf, d)" "check_data ev (st\<lparr>olen := c_ret r, obj_data := buf\<rparr>) = Returned st'"
    using assms(2) by (auto simp: read_update_def read_initial_def)
  have "base_size \<le> length (obj_data st)" using assms(1) by (auto simp: rec_ok_def rec_inv_def image_header_size_def)
  with readdata_length [OF r(1)] assms(1) have "rec_ok B ((st\<lparr>olen := c_ret r\<rparr>)\<lparr>obj_data := buf\<rparr>)"
    by (intro rec_ok_obj_data) simp_all
  with check_data_ok r(2) show ?thesis by simp
next
  case False
  then obtain st1 where "read_slot ev st db = Returned st1" "check_data ev st1 = Returned st'"
    using assms(2) by (cases "read_slot ev st db") (auto simp: read_update_def)
  with read_slot_ok [OF assms(1)] check_data_ok show ?thesis by blast
qed

lemma log_event_ok:
  assumes "rec_ok B st" "log_event opts ev st = Returned st'" "tm_event ev = TRACE_DELETED \<Longrightarrow> 0 \<le> tm_oid ev"
  shows "rec_ok B st'"
proof (cases "do_log opts \<and> tm_event ev = TRACE_DELETED")
  case True
  obtain r ks where k: "known_obj (- tm_oid ev) (knownid st) = Returned (r, ks)" "st' = st\<lparr>knownid := ks\<rparr>"
  proof (cases "known_obj (- tm_oid ev) (knownid st)")
    case (Returned rk)
    show ?thesis by (rule that [of "fst rk" "snd rk"]) (use assms(2) True Returned in \<open>simp_all add: log_event_def split_beta\<close>)
  qed (use assms(2) True in \<open>simp_all add: log_event_def\<close>)
  from assms(1) obtain us where us: "rec_inv B us st" by (auto simp: rec_ok_def)
  have "\<forall>k \<in> set ks. k \<noteq> 0 \<longrightarrow> k \<in> described us"
    by (rule known_obj_described(3) [OF k(1)]) (use us assms(3) True in \<open>simp_all add: rec_inv_def\<close>)
  then have "rec_inv B us st'" using us k(2) by (simp add: rec_inv_def)
  then show ?thesis by (auto simp: rec_ok_def)
next
  case False then show ?thesis using assms by (auto simp: log_event_def split: if_splits)
qed

lemma record_object_ok:
  assumes "rec_ok B st" "record_object opts fuel h ev st db = Some (Returned st', db')" "tm_event ev = TRACE_DELETED \<Longrightarrow> 0 \<le> tm_oid ev"
  shows "rec_ok B st'"
proof -
  obtain t s j where S: "select_object opts (tm_oid ev) (rec_info st) = (t, s, j)" by (metis surj_pair)
  show ?thesis
  proof (cases "t = 0 \<and> \<not> do_log opts")
    case True then show ?thesis using assms(1,2) S by (simp add: record_object_def)
  next
    case False
    then obtain st1 d where 1: "(if tm_event ev = TRACE_UPDATED then read_update fuel h ev st db else Some (Returned st, db)) = Some (Returned st1, d)"
      using assms(2) S by (auto simp: record_object_def split: option.splits outcome.splits prod.splits)
    then have ok1: "rec_ok B st1" using read_update_ok [OF assms(1)] assms(1) by (auto split: if_splits)
    obtain st2 where 2: "log_event opts ev st1 = Returned st2"
      "(if t = 0 then Returned st2 else put_event ev s j st2) = Returned st'"
      using assms(2) S False 1 by (cases "log_event opts ev st1") (auto simp: record_object_def simp del: not_gr_zero)
    have "rec_ok B st2" by (rule log_event_ok [OF ok1 2(1) assms(3)])
    then show ?thesis using 2(2) put_event_ok select_object_stream [OF S] by (auto split: if_splits)
  qed
qed

section \<open>Whole runs\<close>

definition names_ok :: "rtdb \<Rightarrow> bool" where
  "names_ok db \<longleftrightarrow> (\<forall>m \<in> set (objmeta db). length (name m) = NAME_MAXLEN)"

lemma readinfo_name:
  assumes "kogmo_rtdb_obj_readinfo h i ts m db = (r, m', db')" "names_ok db" "length (name m) = NAME_MAXLEN"
  shows "length (name m') = NAME_MAXLEN"
  using assms by (auto simp: kogmo_rtdb_obj_readinfo_def Let_def names_ok_def ipc_defs emit_def kogmo_rtdb_obj_findmeta_byid_def
      scan_first_Some split: option.splits if_splits)

lemma rec_inv_info: "rec_inv B us st \<Longrightarrow> length (name m) = NAME_MAXLEN \<Longrightarrow> rec_inv B us (st\<lparr>rec_info := m\<rparr>)"
  by (simp add: rec_inv_def)

lemma rec_ok_info: "rec_ok B st \<Longrightarrow> length (name m) = NAME_MAXLEN \<Longrightarrow> rec_ok B (st\<lparr>rec_info := m\<rparr>)"
  unfolding rec_ok_def using rec_inv_info by blast

lemma wait_object_ok: "rec_ok B st \<Longrightarrow> wait_object opts ev st = (nx, st') \<Longrightarrow> rec_ok B st'"
  by (auto simp: wait_object_def Let_def split: option.splits if_splits)

lemma handle_event_ok:
  assumes "rec_ok B st" "handle_event opts fuel h ev st db = Some (Returned (nx, st'), db')"
    "tm_event ev = TRACE_DELETED \<Longrightarrow> 0 \<le> tm_oid ev" "names_ok db"
  shows "rec_ok B st'"
proof -
  obtain r m d where R: "kogmo_rtdb_obj_readinfo h (tm_oid ev) (tm_ts ev) (rec_info st) db = (r, m, d)" by (metis surj_pair)
  have "length (name (rec_info st)) = NAME_MAXLEN" using assms(1) by (auto simp: rec_ok_def rec_inv_def)
  then have ok: "rec_ok B (st\<lparr>rec_info := m\<rparr>)" using readinfo_name [OF R assms(4)] assms(1) by (intro rec_ok_info)
  show ?thesis
  proof (cases "c_ret r < 0")
    case True
    then obtain st1 where "fput_error (tm_ts ev) (tm_oid ev) (st\<lparr>rec_info := m\<rparr>) = Returned st1" "st' = st1"
      using assms(2) R by (auto simp: handle_event_def split: outcome.splits)
    with fput_error_ok [OF ok] show ?thesis by blast
  next
    case False
    obtain n st1 where W: "wait_object opts ev (st\<lparr>rec_info := m\<rparr>) = (n, st1)" by force
    note ok1 = wait_object_ok [OF ok W]
    show ?thesis
    proof (cases "n = Ends \<or> \<not> record_enable st1")
      case True then show ?thesis using assms(2) R False W ok1 by (simp add: handle_event_def split: if_splits)
    next
      case F: False
      then obtain ro where ro: "record_object opts fuel h ev (st1\<lparr>events_total := events_total st1 + 1\<rparr>) d = Some (ro, db')"
          "(case ro of Returned st \<Rightarrow> Returned (Goes_on, st) | Died \<Rightarrow> Died | Faulted \<Rightarrow> Faulted) = Returned (nx, st')"
        using assms(2) R False W by (auto simp: handle_event_def)
      then have "ro = Returned st'" by (cases ro) simp_all
      with ro(1) show ?thesis using record_object_ok [of B "st1\<lparr>events_total := events_total st1 + 1\<rparr>"] ok1 assms(3) by auto
    qed
  qed
qed

lemma names_now [simp]: "names_ok (snd (kogmo_rtdb_timestamp_now db)) = names_ok db"
  by (simp add: names_ok_def)

lemma search_names:
  assumes "kogmo_rtdb_obj_searchinfo h nm ot p q ts l n db = (r, l', db')" "names_ok db"
  shows "names_ok db'"
proof -
  have "objmeta db' = objmeta db"
    using assms(1) by (auto simp: kogmo_rtdb_obj_searchinfo_def kogmo_rtdb_obj_searchinfo_internal_def Let_def split_beta ipc_defs emit_def
        split: name_query.splits option.splits if_splits)
  then show ?thesis using assms(2) by (simp add: names_ok_def)
qed

lemma list_initial_ok:
  assumes "rec_ok B st" "list_initial h st db = Returned (st', db')" "names_ok db"
  shows "rec_ok B st' \<and> names_ok db'"
proof (cases "initial_ts st = 0")
  case True
  obtain now d where n: "kogmo_rtdb_timestamp_now db = (now, d)" by force
  obtain r l d' where s: "kogmo_rtdb_obj_searchinfo h None 0 0 0 now (Some (initial_objects st)) 0 d = (r, l, d')" by (metis surj_pair)
  have "names_ok d" using names_now [of db] assms(3) n by simp
  then have "names_ok d'" by (rule search_names [OF s])
  then show ?thesis using assms(1,2) True n s by (auto simp: list_initial_def split: sum.splits option.splits)
next
  case False then show ?thesis using assms by (simp add: list_initial_def)
qed

lemma next_initial_ok:
  assumes "rec_ok B st" "next_initial h st db = Returned (e, st', db')" "names_ok db"
  shows "rec_ok B st' \<and> names_ok db' \<and> (\<forall>ev. e = Some ev \<longrightarrow> tm_event ev = TRACE_UPDATED)"
proof (cases "init_phase st \<and> record_enable st")
  case False then show ?thesis using assms by (auto simp: next_initial_def)
next
  case True
  obtain st1 d where "list_initial h st db = Returned (st1, d)"
    using assms(2) True by (cases "list_initial h st db") (auto simp: next_initial_def)
  with list_initial_ok [OF assms(1) this assms(3)] assms(2) True show ?thesis
    by (auto simp: next_initial_def split: list.splits)
qed

lemma next_event_ok:
  assumes "rec_ok B st" "next_event h ready c1 msg c2 st db = Returned (fb, ev, st', db')" "0 \<le> tm_oid msg" "names_ok db"
  shows "rec_ok B st' \<and> names_ok db' \<and> (tm_event ev = TRACE_DELETED \<longrightarrow> 0 \<le> tm_oid ev)"
proof -
  obtain e st1 d where N: "next_initial h st db = Returned (e, st1, d)"
    using assms(2) by (cases "next_initial h st db") (auto simp: next_event_def)
  note 1 = next_initial_ok [OF assms(1) N assms(4)]
  show ?thesis
  proof (cases e)
    case (Some ev1) then show ?thesis using assms(2) N 1 by (auto simp: next_event_def)
  next
    case None
    obtain r m where T: "kogmo_rtdb_obj_trace_receive ready c1 msg c2 d = (r, m)" by force
    then have m: "m = Some ev1 \<Longrightarrow> ev1 = msg" for ev1 by (auto simp: kogmo_rtdb_obj_trace_receive_def split: if_splits)
    show ?thesis using assms(2,3) N None T 1 m fput_error_ok [of B st1]
      by (auto simp: next_event_def split: sum.splits option.splits if_splits outcome.splits)
  qed
qed

lemma writedata_names:
  assumes "kogmo_rtdb_obj_writedata h i data db = (r, data', db')" "names_ok db"
  shows "names_ok db'"
proof (cases r)
  case (Inl e) then show ?thesis using writedata_error(1) assms by (simp add: names_ok_def)
next
  case (Inr v)
  show ?thesis
  proof (cases "kogmo_rtdb_obj_findmeta_byid i db")
    case None then show ?thesis using assms Inr by (auto simp: kogmo_rtdb_obj_writedata_def split_beta)
  next
    case (Some k)
    then have "k < length (objmeta db)" by (auto simp: kogmo_rtdb_obj_findmeta_byid_def)
    then have "map name (objmeta db') = map name (objmeta db)"
      using writedata_commit_db(2) [OF writedata_ok(7) [OF assms(1) [unfolded Inr] Some]]
      by (simp add: map_update list_update_same_conv advanced_def)
    then have "name ` set (objmeta db') = name ` set (objmeta db)" by (metis set_map)
    then show ?thesis using assms(2) unfolding names_ok_def by (metis (no_types, opaque_lifting) image_iff)
  qed
qed

lemma update_status_ok:
  assumes "rec_ok B st" "update_status opts h fb ts st db = Returned (st', db')" "names_ok db"
  shows "rec_ok B st' \<and> names_ok db'"
proof -
  obtain r b d where "kogmo_rtdb_obj_writedata h (stat_oid opts) (fill_status opts fb ts st) db = (r, b, d)" by (metis surj_pair)
  with writedata_names [OF this assms(3)] assms show ?thesis by (auto simp: update_status_def split: if_splits)
qed

lemma record_step_ok:
  assumes "rec_ok B st" "record_step opts fuel h ready c1 msg c2 st db = Some (Returned (nx, st'), db')" "0 \<le> tm_oid msg" "names_ok db"
  shows "rec_ok B st'"
proof -
  obtain fb ev st1 d where 1: "next_event h ready c1 msg c2 st db = Returned (fb, ev, st1, d)"
    using assms(2) by (cases "next_event h ready c1 msg c2 st db") (auto simp: record_step_def)
  note ok1 = next_event_ok [OF assms(1) 1 assms(3,4)]
  show ?thesis
  proof (cases "do_seconds opts > 0 \<and> kogmo_timestamp_diff_secs (initial_ts st1) (tm_ts ev) > do_seconds opts")
    case True then show ?thesis using assms(2) 1 ok1 by (simp add: record_step_def)
  next
    case False
    obtain st2 d2 where 2: "update_status opts h fb (tm_ts ev) st1 d = Returned (st2, d2)" "handle_event opts fuel h ev st2 d2 = Some (Returned (nx, st'), db')"
      using assms(2) 1 False by (cases "update_status opts h fb (tm_ts ev) st1 d") (auto simp: record_step_def)
    note ok2 = update_status_ok [OF conjunct1 [OF ok1] 2(1) conjunct1 [OF conjunct2 [OF ok1]]]
    show ?thesis by (rule handle_event_ok [OF conjunct1 [OF ok2] 2(2) _ conjunct2 [OF ok2]]) (use ok1 in simp)
  qed
qed

text \<open>
  A run of the recorder, one round after the other; between two rounds the other processes may do
  anything to the database that leaves the names arrays of their size.
\<close>

inductive recorder_run :: "rec_opts \<Rightarrow> handle \<Rightarrow> rec_state \<Rightarrow> rec_state \<Rightarrow> bool" for opts h st where
  run_start: "recorder_run opts h st st"
| run_step: "recorder_run opts h st st1 \<Longrightarrow> names_ok db \<Longrightarrow> 0 \<le> tm_oid msg \<Longrightarrow>
    record_step opts fuel h ready c1 msg c2 st1 db = Some (Returned (nx, st2), db') \<Longrightarrow> recorder_run opts h st st2"

lemma recorder_run_ok: "recorder_run opts h st st' \<Longrightarrow> rec_ok B st \<Longrightarrow> rec_ok B st'"
  by (induction rule: recorder_run.induct) (auto intro: record_step_ok)

end
