(* ===== verification/Player_Read.thy ===== *)
theory Player_Read
  imports Player_Loop Recorder_Props
begin

text \<open>
  The player at a chunk of its file: what the buffer holds when a chunk of a recording has been
  read, and which fields of the state this leaves alone. The replay into a database and the copy to
  another file rest on these lemmas.
\<close>

section \<open>Chunks of a recording\<close>

definition rtdb_head :: "nat \<Rightarrow> riffchunk" where
  "rtdb_head n = \<lparr>fcc = ''RTDB'', cb = int n + 16\<rparr>"

definition rtdb_body :: "timestamp \<Rightarrow> int \<Rightarrow> int \<Rightarrow> byte list \<Rightarrow> byte list" where
  "rtdb_body ts i ty d = enc 8 ts @ enc 4 i @ enc 4 ty @ d"

lemma rtdb_body_facts [simp]:
  "length (rtdb_body ts i ty d) = length d + 16" "rtdb_body ts i ty d \<noteq> []" "padding (rtdb_body ts i ty d) = padding d"
proof -
  show l: "length (rtdb_body ts i ty d) = length d + 16" by (simp add: rtdb_body_def)
  then show "rtdb_body ts i ty d \<noteq> []" by fastforce
  show "padding (rtdb_body ts i ty d) = padding d" unfolding padding_def l by simp
qed

lemma typed_rtdb_head: "length d < 2 ^ 31 - 16 \<Longrightarrow> typed_chunk (rtdb_head (length d))"
  by (simp add: typed_chunk_def rtdb_head_def four_def u32_def)

lemma rtdb_bytes_chunk:
  assumes "length d < 2 ^ 31 - 16"
  shows "rtdb_bytes ts i ty d = chunk_file (rtdb_head (length d), rtdb_body ts i ty d)"
  using assms by (simp add: rtdb_bytes_def chunk_file_def stream_chunk_bytes_def rtdb_chunk_def stream_chunk_size_def
      chunk_bytes_def rtdb_head_def add.commute) (simp add: rtdb_body_def)

section \<open>Reading one\<close>

text \<open>The chunk fits: an odd one does so with its padding, an even one that does not gets a new buffer.\<close>

definition fits :: "nat \<Rightarrow> nat \<Rightarrow> bool" where
  "fits l n \<longleftrightarrow> n < 2 ^ 31 - PREBUFSZ \<and> (even n \<or> n < l)"

lemma fits_mono: "fits l n \<Longrightarrow> l \<le> l' \<Longrightarrow> fits l' n"
  by (auto simp: fits_def)

definition holds_chunk :: "byte list \<Rightarrow> play_state \<Rightarrow> bool" where
  "holds_chunk d st \<longleftrightarrow> take (length d) (chunk_data st) = d"

lemma read_chunk_ok:
  assumes a: "ahead (chunk_file (c, d)) r" and c: "typed_chunk c" "cb c = int (length d)" "d \<noteq> []"
    and f: "fits (length (chunk_data st)) (length d)" and l: "PREBUFSZ \<le> length (base_buf st)" and r: "pl_fp st = moved 8 r"
  obtains b rc where
    "read_chunk c st = Returned (Some (int (length d)), st\<lparr>pl_fp := moved (length (chunk_file (c, d))) r, base_buf := b, rtdbchunk := rc\<rparr>)"
    "take (length d) (drop PREBUFSZ b) = d" "length (base_buf st) \<le> length b"
proof -
  let ?e = "d @ padding d"
  have n: "length d < 2 ^ 31" using f unfolding fits_def by linarith
  have lf: "length (chunk_file (c, d)) = 8 + length d + length (padding d)"
    using chunk_of_bytes [OF c(1)] by (simp add: chunk_file_def)
  have lp: "length (padding d) = (if odd (length d) then 1 else 0)" by (simp add: padding_def)
  have P: "PREBUFSZ = 48" by (simp add: PREBUFSZ_def base_size_def)
  have a': "ahead (chunk_bytes c @ d @ (if odd (length d) then [0] else [])) r" using a by (simp add: chunk_file_def padding_def)
  obtain b0 rc where g: "grow_buf c st = Returned (st\<lparr>base_buf := b0, rtdbchunk := rc\<rparr>)"
    "length (base_buf st) \<le> length b0" "length d + length (padding d) \<le> length b0 - PREBUFSZ"
  proof (cases "cb c \<le> int (length (chunk_data st))")
    case True
    then have "length d + length (padding d) \<le> length (base_buf st) - PREBUFSZ"
      using f c(2) lp by (auto simp: fits_def chunk_data_def)
    moreover have "grow_buf c st = Returned (st\<lparr>base_buf := base_buf st, rtdbchunk := rtdbchunk st\<rparr>)"
      using True by (simp add: grow_buf_def)
    ultimately show ?thesis by (intro that [of "rtdbchunk st" "base_buf st"]) simp_all
  next
    case False
    then have e: "even (length d)" "length (base_buf st) < length d + 48" using f c(2) P l by (auto simp: fits_def chunk_data_def)
    have i: "int32 (cb c) = int (length d)" using c(2) n by (simp add: in_int32_def)
    have "int (length d) + 48 < 2 ^ 31" using f by (simp add: fits_def P)
    then have "grow_buf c st = Returned (st\<lparr>base_buf := base_buf st @ replicate (nat (int (length d) + int PREBUFSZ) - length (base_buf st)) 0,
        rtdbchunk := map_option (\<lambda>_. False) (rtdbchunk st)\<rparr>)"
      using False i P unfolding grow_buf_def Let_def i by simp
    then show ?thesis by (rule that) (use e P lp in simp_all)
  qed
  have m: "int (length d) \<le> int (length (drop PREBUFSZ b0))" using g(3) by simp
  note R = fget_chunk_ok(2) [OF a' c n m]
  let ?b = "put PREBUFSZ ?e b0"
  have "read_chunk c st = Returned (Some (int (length d)), st\<lparr>pl_fp := moved (length (chunk_file (c, d))) r, base_buf := ?b, rtdbchunk := rc\<rparr>)"
    using R g(3) lf unfolding read_chunk_def g(1) stop_then_simps chunk_data_def by (simp add: r padding_def add.assoc)
  moreover have "take (length d) (drop PREBUFSZ ?b) = d" using l g(2) P by (simp add: put_def)
  moreover have "length (base_buf st) \<le> length ?b" using l g(2,3) P by simp
  ultimately show ?thesis by (rule that)
qed

text \<open>What the player sees of a chunk of the database in its buffer.\<close>

lemma chunk_seen:
  assumes h: "take (length d + 16) (drop PREBUFSZ (base_buf st)) = rtdb_body ts i ty d" and l: "PREBUFSZ \<le> length (base_buf st)"
    and t: "in_int64 ts" "in_int32 i" "0 \<le> ty" "ty < 2 ^ 32"
  shows "k_ts (chunk_in st) = ts" "k_oid (chunk_in st) = i" "k_type (chunk_in st) = ty"
    "k \<le> length d \<Longrightarrow> get info_off k (base_buf st) = take k d"
    "length d + 64 \<le> length (base_buf st)"
proof -
  let ?b = "base_buf st"
  have P: "PREBUFSZ = 48" "info_off = 64" by (simp_all add: PREBUFSZ_def base_size_def info_off_def stream_chunk_size_def)
  have part: "get (48 + a) n ?b = take n (drop a (rtdb_body ts i ty d))" if "a + n \<le> length d + 16" for a n
  proof -
    have "take n (drop a (take (length d + 16) (drop 48 ?b))) = take n (drop (48 + a) ?b)"
      using that by (simp add: drop_take min_def add.commute)
    then show ?thesis using h P by (simp add: get_def)
  qed
  have head: "get 8 8 (get 40 24 ?b) = get 48 8 ?b" "get 16 4 (get 40 24 ?b) = get 56 4 ?b" "get 20 4 (get 40 24 ?b) = get 60 4 ?b"
    by (simp_all add: get_def drop_take)
  have e: "get 48 8 ?b = enc 8 ts" "get 56 4 ?b = enc 4 i" "get 60 4 ?b = enc 4 ty"
    using part [of 0 8] part [of 8 4] part [of 12 4] by (simp_all add: rtdb_body_def)
  show "k_ts (chunk_in st) = ts" "k_oid (chunk_in st) = i" "k_type (chunk_in st) = ty"
    using t by (simp_all add: chunk_in_def stream_chunk_of_def stream_chunk_size_def P head e udec_enc)
  show "get info_off k ?b = take k d" if "k \<le> length d"
    using part [of 16 k] that by (simp add: P rtdb_body_def)
  have "length (take (length d + 16) (drop PREBUFSZ ?b)) = length d + 16" unfolding h by simp
  then show "length d + 64 \<le> length ?b" by (simp add: P)
qed

text \<open>The chunk that is copied is the one that was read.\<close>

lemma copy_chunk_ok:
  assumes h: "take (length d) (drop PREBUFSZ (base_buf st)) = d" and c: "typed_chunk c" "cb c = int (length d)" "d \<noteq> []"
    and o: "pl_fout st = Some f" "length (chunk_file (c, d)) + 1 \<le> room f"
  obtains f' where "copy_chunk c st = st\<lparr>pl_fout := Some f'\<rparr>" "written f' = written f @ chunk_file (c, d)"
    "room f - length (chunk_file (c, d)) \<le> room f'"
proof -
  have lc: "length (chunk_bytes c) = 8" "chunk_bytes c \<noteq> []" using chunk_of_bytes [OF c(1)] by auto
  have lf: "length (chunk_file (c, d)) = 8 + length d + length (padding d)" using lc by (simp add: chunk_file_def)
  have dt: "take (nat (cb c)) (chunk_data st) = d" using h c(2) by (simp add: chunk_data_def)
  let ?f1 = "f\<lparr>written := written f @ chunk_bytes c, room := room f - 8\<rparr>"
  let ?f2 = "?f1\<lparr>written := written f @ chunk_file (c, d), room := room f - 8 - length d - length (padding d)\<rparr>"
  have 1: "fwrite (chunk_bytes c) f = (1, ?f1)" using lc o(2) lf by (simp add: fwrite_ok)
  have p: "padding d = (if odd (length d) then [0] else [])" by (simp add: padding_def)
  have "length d + 1 \<le> room ?f1" using o(2) lf by simp
  from fput_data_ok [OF c(3) this] have 2: "aviraw_fput_data d ?f1 = (0, ?f2)"
    by (simp add: chunk_file_def p)
  have "aviraw_fput_chunk c (chunk_data st) f = (0, ?f2)" unfolding aviraw_fput_chunk_def dt fput_with_header_def 1 by (simp add: 2)
  then have "copy_chunk c st = st\<lparr>pl_fout := Some ?f2\<rparr>" by (simp add: copy_chunk_def copy_out_def o(1))
  then show ?thesis by (rule that) (use lf in simp_all)
qed

section \<open>The round that reads it\<close>

lemma fits_rtdb: "fits l (n + 16) \<Longrightarrow> n < 2 ^ 31 - 16"
  unfolding fits_def by linarith

lemma rtdb_code: "\<not> strncmp_eq 4 ''RTDB'' ''LIST'' \<and> \<not> strncmp_eq 4 ''RTDB'' ''RIFF''"
  by code_simp

text \<open>Nothing keeps the player from reading on.\<close>

definition reading :: "play_opts \<Rightarrow> nat \<Rightarrow> handle \<Rightarrow> play_state \<Rightarrow> rtdb \<Rightarrow> bool" where
  "reading opts fuel h st db \<longleftrightarrow> play_control opts fuel h st db = Some (Returned st, db)
     \<and> \<not> (pl_pause st \<and> pl_init_phase st = 0) \<and> \<not> eof (pl_fp st) \<and> PREBUFSZ \<le> length (base_buf st)"

lemma step_reads:
  assumes k: "reading opts fuel h st db" and a: "ahead (chunk_file (c, d)) (pl_fp st)"
    and c: "typed_chunk c" "cb c = int (length d)" "d \<noteq> []" "length d < 2 ^ 31"
  shows "play_step opts fuel h st db = play_chunk opts fuel h c (st\<lparr>pl_fp := moved 8 (pl_fp st)\<rparr>) db"
proof -
  have a': "ahead (chunk_bytes c @ d @ (if odd (length d) then [0] else [])) (pl_fp st)" using a by (simp add: chunk_file_def padding_def)
  have m: "int (length d) \<le> int (length d)" by simp
  have ctl: "play_control opts fuel h st db = Some (Returned st, db)" and p: "\<not> (pl_pause st \<and> pl_init_phase st = 0)" "\<not> eof (pl_fp st)"
    using k by (simp_all add: reading_def)
  then show ?thesis
    unfolding play_step_def ctl and_then_simps fget_chunk_ok(1) [OF a' c m] by (auto simp: moved_def)
qed

lemma rtdb_read:
  assumes k: "reading opts fuel h st db" and a: "ahead (rtdb_bytes ts i ty d) (pl_fp st)"
    and f: "fits (length (chunk_data st)) (length d + 16)"
  obtains b rc where
    "play_step opts fuel h st db = play_rtdb opts fuel h (rtdb_head (length d)) (int (length d + 16))
       (st\<lparr>pl_fp := moved (length (rtdb_bytes ts i ty d)) (pl_fp st), base_buf := b, rtdbchunk := rc\<rparr>) db"
    "take (length d + 16) (drop PREBUFSZ b) = rtdb_body ts i ty d" "length (base_buf st) \<le> length b"
proof -
  let ?c = "rtdb_head (length d)" and ?d = "rtdb_body ts i ty d"
  note n = fits_rtdb [OF f]
  note B = rtdb_bytes_chunk [OF n, of ts i ty]
  have c: "typed_chunk ?c" "cb ?c = int (length ?d)" "?d \<noteq> []" "length ?d < 2 ^ 31"
    using typed_rtdb_head [OF n] n by (simp_all add: rtdb_head_def)
  note a' = a [unfolded B]
  let ?st = "st\<lparr>pl_fp := moved 8 (pl_fp st)\<rparr>"
  have f': "fits (length (chunk_data ?st)) (length ?d)" and l': "PREBUFSZ \<le> length (base_buf ?st)"
    using f k by (simp_all add: chunk_data_def reading_def)
  obtain b rc where r: "read_chunk ?c ?st = Returned (Some (int (length ?d)), ?st\<lparr>pl_fp := moved (length (chunk_file (?c, ?d))) (pl_fp st),
      base_buf := b, rtdbchunk := rc\<rparr>)" "take (length ?d) (drop PREBUFSZ b) = ?d" "length (base_buf ?st) \<le> length b"
    by (rule read_chunk_ok [OF a' c(1-3) f' l']) simp_all
  have nl: "\<not> is_list ?c" "strncmp_eq 4 (fcc ?c) ''RTDB''" using rtdb_code by (simp_all add: is_list_def rtdb_head_def)
  have "play_chunk opts fuel h ?c ?st db = play_rtdb opts fuel h ?c (int (length d + 16))
      (st\<lparr>pl_fp := moved (length (rtdb_bytes ts i ty d)) (pl_fp st), base_buf := b, rtdbchunk := rc\<rparr>) db"
    unfolding play_chunk_def r(1) using nl by (simp add: B)
  with step_reads [OF k a' c] show ?thesis using r(2,3) by (intro that) simp_all
qed

section \<open>Where the file stands\<close>

definition before :: "byte list \<Rightarrow> play_state \<Rightarrow> bool" where
  "before bs st \<longleftrightarrow> drop (fpos (pl_fp st)) (content (pl_fp st)) = bs"

lemma before_append:
  assumes "before (xs @ ys) st"
  shows "ahead xs (pl_fp st)" "pl_fp st' = moved (length xs) (pl_fp st) \<Longrightarrow> before ys st'"
proof -
  show "ahead xs (pl_fp st)" using assms by (simp add: before_def ahead_def)
  assume m: "pl_fp st' = moved (length xs) (pl_fp st)"
  have "drop (length xs) (drop (fpos (pl_fp st)) (content (pl_fp st))) = ys" using assms by (simp add: before_def)
  then show "before ys st'" by (simp add: before_def m moved_def add.commute)
qed

lemma loop_step:
  assumes "play_step opts fuel ha st db = Some (Returned (Goes_on, st'), db')" "\<not> eof (pl_fp st)"
  shows "play_loop (Suc n) opts fuel ha st db = play_loop n opts fuel ha st' db'"
  using assms by simp

end
