(* ===== verification/Player_Replay.thy ===== *)
theory Player_Replay
  imports Player_Read Connection_Start
begin

text \<open>
  The player with a database: what a chunk of a recording makes of it. An update is committed to the
  object the map names, a description inserts an object and enters it into the map.
\<close>

section \<open>An update\<close>

text \<open>An object that a process can write: with its size, and not watched for its cycle time.\<close>

definition can_write :: "handle \<Rightarrow> int \<Rightarrow> nat \<Rightarrow> int \<Rightarrow> rtdb \<Rightarrow> bool" where
  "can_write h j k n db \<longleftrightarrow> j \<noteq> 0 \<and> kogmo_rtdb_obj_findmeta_byid j db = Some k \<and> writedata_check h (objmeta db ! k) n = None
     \<and> \<not> cycle_watch (flags (objmeta db ! k))"

lemma can_write_ok:
  assumes "can_write h j k (b_size data) db"
  obtains data' db' where "kogmo_rtdb_obj_writedata h j data db = (Inr 0, data', db')"
  using write_passes [of j db k h data] assms by (auto simp: can_write_def) (metis prod.collapse)

lemma can_write_ticks: "can_write h j k n (db\<lparr>ticks := x\<rparr>) = can_write h j k n db"
  by (simp add: can_write_def kogmo_rtdb_obj_findmeta_byid_def)

text \<open>The header of an update in the buffer, with the time of its data moved.\<close>

lemma moved_update:
  assumes D: "take (length d) D = d" and l: "b_size d = int (length d)" "base_size \<le> length d"
  shows "b_size (set_data_ts v D) = b_size d" "in_int64 v \<Longrightarrow> b_data_ts (set_data_ts v D) = v"
    "b_payload (take (length d) (set_data_ts v D)) = b_payload d" "length d \<le> length D" "base_size \<le> length D"
    "b_data_ts D = b_data_ts d" "b_committed_ts D = b_committed_ts d" "b_size D = b_size d"
proof -
  show n: "length d \<le> length D" using D by (metis length_take min.cobounded1)
  then show b: "base_size \<le> length D" using l(2) by simp
  have g: "get a n D = get a n d" if "a + n \<le> length d" for a n
  proof -
    have "get a n (take (length d) D) = get a n D" using that by (simp add: get_def drop_take min_def)
    then show ?thesis by (simp add: D)
  qed
  show "b_data_ts D = b_data_ts d" "b_committed_ts D = b_committed_ts d" and s: "b_size D = b_size d"
    using l(2) by (simp_all add: header_defs g)
  show "b_size (set_data_ts v D) = b_size d" "in_int64 v \<Longrightarrow> b_data_ts (set_data_ts v D) = v" using b s by simp_all
  have "drop base_size (take (length d) (set_data_ts v D)) = drop base_size (take (length d) D)"
    using l(2) b by (simp add: set_data_ts_def put_def base_size_def drop_take)
  then show "b_payload (take (length d) (set_data_ts v D)) = b_payload d" by (simp only: b_payload_def D)
qed

lemma update_writes:
  assumes c: "k_oid (chunk_in st) = i" "map_querydest i (pl_map st) = j" "j \<noteq> 0" "pl_db opts" "\<not> pl_extract opts"
    and w: "\<And>s. base_buf s = put info_off (set_data_ts (int64 (b_data_ts (drop info_off (base_buf st))
          + (kogmo_timestamp_now (clock db (ticks db)) - b_committed_ts (drop info_off (base_buf st))))) (drop info_off (base_buf st))) (base_buf st)
      \<Longrightarrow> write_version h j info_off s (db\<lparr>ticks := Suc (ticks db)\<rparr>) = (Returned (s\<lparr>base_buf := B\<rparr>), db')"
  obtains s where "play_update opts h dc st db = (Returned s, db')" "pl_map s = pl_map st"
proof -
  define s1 where "s1 = (let st = copy_chunk dc st
    in if j = frame_oid st then (let st = note_frame dc st in if frame_go st > 0 then st\<lparr>frame_go := frame_go st - 1\<rparr> else st) else st)"
  have s1: "base_buf s1 = base_buf st" "pl_map s1 = pl_map st" by (simp_all add: s1_def Let_def note_frame_def copy_chunk_def copy_out_def)
  define D where "D = drop info_off (base_buf st)"
  let ?s2 = "s1\<lparr>base_buf := put info_off (set_data_ts (int64 (b_data_ts D + (kogmo_timestamp_now (clock db (ticks db)) - b_committed_ts D))) D) (base_buf st)\<rparr>"
  have "write_version h j info_off ?s2 (db\<lparr>ticks := Suc (ticks db)\<rparr>) = (Returned (?s2\<lparr>base_buf := B\<rparr>), db')"
    by (rule w) (simp add: D_def)
  then have "play_update opts h dc st db = (Returned (?s2\<lparr>base_buf := B\<rparr>), db')"
    using c s1 unfolding play_update_def D_def [symmetric] s1_def Let_def by (simp add: real_now_def)
  then show ?thesis by (rule that) (simp add: s1)
qed

text \<open>The time of its data, moved by the time that has passed since it was committed.\<close>

definition moved_ts :: "byte list \<Rightarrow> rtdb \<Rightarrow> timestamp" where
  "moved_ts d db = int64 (b_data_ts d + (kogmo_timestamp_now (clock db (ticks db)) - b_committed_ts d))"

lemma update_event:
  assumes c: "take (length d + 16) (drop PREBUFSZ (base_buf st)) = rtdb_body ts i STREAM_TYPE_UPDOBJ d" "in_int64 ts" "in_int32 i"
      "b_size d = int (length d)" "base_size \<le> length d" "PREBUFSZ \<le> length (base_buf st)"
    and o: "pl_db opts" "\<not> pl_extract opts" and j: "map_querydest i (pl_map st) = j"
    and w: "can_write h j k (b_size d) db" "obj_ok db k" "times_ok db"
  obtains st' db' where "play_event opts fuel h dc n st db = Some (Returned st', db')"
    "obj_history db' k = take (nat (history_size (objmeta db ! k))) (hd (obj_history db' k) # obj_history db k)"
    "obj_history db' k \<noteq> []" "b_payload (hd (obj_history db' k)) = b_payload d" "b_size (hd (obj_history db' k)) = b_size d"
    "moved_ts d db = invalid_ts \<or> b_data_ts (hd (obj_history db' k)) = moved_ts d db"
    "pl_map st' = pl_map st" "kogmo_rtdb_obj_findmeta_byid j db' = Some k" "objmeta db' = (objmeta db)[k := advanced (objmeta db ! k)]"
    "\<And>I. heap_allocator (h_dsa h) I \<Longrightarrow> database_ok I db \<Longrightarrow> database_ok I db'"
proof -
  let ?D = "drop info_off (base_buf st)" and ?v = "int64 (b_data_ts d + (kogmo_timestamp_now (clock db (ticks db)) - b_committed_ts d))"
  have ty: "(0::int) \<le> STREAM_TYPE_UPDOBJ" "STREAM_TYPE_UPDOBJ < (2::int) ^ 32" by (simp_all add: stream_types)
  note S = chunk_seen [OF c(1,6,2,3) ty]
  have D: "take (length d) ?D = d" using S(4) [of "length d"] by (simp add: get_def)
  note M = moved_update [OF D c(4,5)]
  let ?db = "db\<lparr>ticks := Suc (ticks db)\<rparr>" and ?data = "set_data_ts ?v ?D"
  have vi: "in_int64 ?v" by simp
  have cw: "can_write h j k (b_size ?data) ?db" using w(1) M(1) by (simp add: can_write_ticks)
  then obtain data' db' where W: "kogmo_rtdb_obj_writedata h j ?data ?db = (Inr 0, data', db')" by (rule can_write_ok)
  have f: "kogmo_rtdb_obj_findmeta_byid j ?db = Some k" and j0: "j \<noteq> 0" using cw by (simp_all add: can_write_def)
  have ok: "obj_ok ?db k" and t: "times_ok ?db" using w(2,3) by (simp_all add: obj_ok_def times_ok_def)
  have ls: "length (set_data_ts ?v ?D) = length ?D" using M(5) by simp
  have lb: "b_size ?data \<le> int (length ?data)" using M(1,4) c(4) ls by simp
  note H = writedata_history [OF W f ok times_ok_now [OF t] lb]
  note O = writedata_ok [OF W f]
  let ?e = "committed (commit_time ?db (objmeta ?db ! k)) (commit_bytes h ?data)"
  have cap: "0 < nat (history_size (objmeta db ! k))" using w(2) ring_okD(2) [of "objmeta db ! k"] by (simp add: obj_ok_def)
  have hist: "obj_history db' k = take (nat (history_size (objmeta db ! k))) (?e # obj_history db k)" using H(1) by (simp add: obj_history_def)
  then have hd: "hd (obj_history db' k) = ?e" "obj_history db' k \<noteq> []" using cap by (cases "nat (history_size (objmeta db ! k))"; simp)+
  note C = commit_bytes_fields [OF O(5) lb, of h] and T = commit_time_ok [OF times_ok_now [OF t], of "objmeta ?db ! k"]
  have lc: "base_size \<le> length (commit_bytes h ?data)" using C(1) O(5) by simp
  have ti: "in_int64 (commit_time ?db (objmeta ?db ! k))" using T by (simp add: in_int64_def)
  note E = committed_fields [OF lc ti]
  have ev: "b_payload ?e = b_payload d" "b_size ?e = b_size d" "?v \<noteq> invalid_ts \<Longrightarrow> b_data_ts ?e = ?v"
    using E C M(1,3) M(2) [OF vi] c(4) by simp_all
  have bl: "base_size \<le> length ?data" using M(5) ls by simp
  have f': "kogmo_rtdb_obj_findmeta_byid j db' = Some k"
    using f write_same_names [OF W lb] find_by_oids [of db' ?db] by simp
  have om: "objmeta db' = (objmeta db)[k := advanced (objmeta db ! k)]" using writedata_db(1) [OF W f bl] by simp
  have inv': "database_ok I db'" if "heap_allocator (h_dsa h) I" "database_ok I db" for I
  proof -
    have s1: "db_step (h_dsa h) db ?db" using looks [of "h_dsa h" db "ipc_log db" "Suc (ticks db)"] by simp
    have s2: "db_step (h_dsa h) ?db db'" by (rule writes [OF W j0 lb times_ok_now [OF t]])
    show ?thesis by (rule heap_allocator.db_step_ok [OF that(1) s2 heap_allocator.db_step_ok [OF that(1) s1 that(2)]])
  qed
  have off: "info_off \<le> length (base_buf st)" using S(5) by (simp add: info_off_def PREBUFSZ_def base_size_def stream_chunk_size_def)
  have wv: "write_version h j info_off s ?db = (Returned (s\<lparr>base_buf := take info_off (base_buf st) @ data'\<rparr>), db')"
    if "base_buf s = put info_off ?data (base_buf st)" for s
  proof -
    have "drop info_off (base_buf s) = ?data" "take info_off (base_buf s) = take info_off (base_buf st)"
      using that off ls by (simp_all add: put_def)
    moreover have "\<not> int (length ?data) < b_size ?data" using lb by simp
    ultimately show ?thesis by (simp add: write_version_def W)
  qed
  obtain s where s: "play_update opts h dc st db = (Returned s, db')" "pl_map s = pl_map st"
    by (rule update_writes [OF S(2) j j0 o wv]) (auto simp: M(6,7))
  have "play_event opts fuel h dc n st db = Some (Returned s, db')" using s(1) by (simp add: play_event_def Let_def S(3) stream_types)
  then show ?thesis using hist hd ev s(2) f' om inv' by (intro that [of s db']) (auto simp: moved_ts_def)
qed

section \<open>The status object\<close>

lemma upd_statobj_ok:
  assumes "48 \<le> length (pl_statobj st)"
  shows "length (upd_statobj ts st) = length (pl_statobj st)" "b_size (upd_statobj ts st) = b_size (pl_statobj st)"
  using assms by (simp_all add: upd_statobj_def Let_def b_size_def)

text \<open>The player is connected and its status object, in slot \<open>ks\<close>, can be written.\<close>

definition ready :: "play_opts \<Rightarrow> handle \<Rightarrow> nat \<Rightarrow> play_state \<Rightarrow> rtdb \<Rightarrow> bool" where
  "ready opts h ks st db \<longleftrightarrow> pl_db opts \<and> \<not> pl_extract opts
     \<and> 48 \<le> length (pl_statobj st) \<and> b_size (pl_statobj st) = int (length (pl_statobj st))
     \<and> can_write h (pl_stat_oid opts) ks (b_size (pl_statobj st)) db \<and> deleted_ts (objmeta db ! ks) = 0"

lemma ready_same: "pl_statobj st' = pl_statobj st \<Longrightarrow> ready opts h ks st' db = ready opts h ks st db"
  by (simp add: ready_def)

lemma ready_kept:
  assumes "ready opts h ks st db" "kogmo_rtdb_obj_findmeta_byid (pl_stat_oid opts) db' = Some ks" "objmeta db' ! ks = objmeta db ! ks"
  shows "ready opts h ks st db'"
  using assms(1) unfolding ready_def can_write_def assms(2,3) by blast

lemma set_time_db:
  "snd (kogmo_rtdb_timestamp_set ts db) = db\<lparr>sim_ts := ts\<rparr>"
  by (simp add: kogmo_rtdb_timestamp_set_def Let_def)

lemma status_ok:
  assumes a: "heap_allocator d I" and r: "ready opts h ks st db" and ok: "database_ok I db" "times_ok db"
    and c: "k_type (chunk_in st) \<noteq> STREAM_TYPE_ERROR" "time_ok (k_ts (chunk_in st))"
  obtains b' db' where "play_status opts h st db = (Returned (st\<lparr>pl_statobj := b'\<rparr>), db')"
    "ready opts h ks (st\<lparr>pl_statobj := b'\<rparr>) db'" "database_ok I db'" "times_ok db'" "length (objmeta db') = length (objmeta db)"
    "\<And>k. k \<noteq> ks \<Longrightarrow> objmeta db' ! k = objmeta db ! k" "map oid (objmeta db') = map oid (objmeta db)"
    "objmeta_oid_next db' = objmeta_oid_next db"
proof -
  let ?ts = "k_ts (chunk_in st)"
  let ?db0 = "db\<lparr>sim_ts := ?ts\<rparr>" and ?b = "upd_statobj (k_ts (chunk_in st)) st"
  have R: "pl_db opts" "48 \<le> length (pl_statobj st)" "b_size (pl_statobj st) = int (length (pl_statobj st))"
    "can_write h (pl_stat_oid opts) ks (b_size (pl_statobj st)) db" "deleted_ts (objmeta db ! ks) = 0"
    using r unfolding ready_def by blast+
  note U = upd_statobj_ok [OF R(2), of ?ts]
  have t0: "times_ok ?db0" using ok(2) c(2) by (auto simp: times_ok_def)
  have cw: "can_write h (pl_stat_oid opts) ks (b_size ?b) ?db0"
    using R(4) U(2) R(3) by (simp add: can_write_def kogmo_rtdb_obj_findmeta_byid_def)
  then obtain b' db' where W: "kogmo_rtdb_obj_writedata h (pl_stat_oid opts) ?b ?db0 = (Inr 0, b', db')" by (rule can_write_ok)
  have f: "kogmo_rtdb_obj_findmeta_byid (pl_stat_oid opts) ?db0 = Some ks" "pl_stat_oid opts \<noteq> 0" using cw by (simp_all add: can_write_def)
  have lb: "b_size ?b \<le> int (length ?b)" "base_size \<le> length ?b" using U R(2,3) by (simp_all add: base_size_def)
  note D = writedata_db [OF W f(1) lb(2)] and N = write_same_names [OF W lb(1)]
  have s0: "db_step d db ?db0" using sets_time [of d db ?ts] by (simp add: set_time_db)
  have ok0: "database_ok I ?db0" by (rule heap_allocator.db_step_ok [OF a s0 ok(1)])
  have "db_step d ?db0 db'" by (rule writes [OF W f(2) lb(1) times_ok_now [OF t0]])
  from heap_allocator.db_step_ok [OF a this ok0] have ok': "database_ok I db'" .
  have t': "times_ok db'" using t0 D(9-11) by (simp add: times_ok_def)
  have f': "kogmo_rtdb_obj_findmeta_byid (pl_stat_oid opts) db' = Some ks" using f(1) N find_by_oids [of db' ?db0] by simp
  have b': "length b' = length (pl_statobj st)" "b_size b' = b_size (pl_statobj st)" using D(3) U lb(2) by simp_all
  have ksl: "ks < length (objmeta db)" using f(1) by (auto simp: kogmo_rtdb_obj_findmeta_byid_def)
  have m: "objmeta db' ! ks = advanced (objmeta db ! ks)" using D(1) ksl by simp
  have "writedata_check h (advanced (objmeta db ! ks)) n = writedata_check h (objmeta db ! ks) n" for n
    by (simp add: writedata_check_def advanced_def)
  moreover have "writedata_check h (objmeta db ! ks) (int (length (pl_statobj st))) = None" using R(3,4) by (simp add: can_write_def)
  ultimately have "ready opts h ks (st\<lparr>pl_statobj := b'\<rparr>) db'"
    using r b' f' f(2) m R(3) by (simp add: ready_def can_write_def)
  moreover obtain q where q: "kogmo_rtdb_timestamp_set ?ts db = (q, ?db0)" by (metis set_time_db prod.collapse)
  have "play_status opts h st db = (Returned (st\<lparr>pl_statobj := b'\<rparr>), db')"
    using R(1) c(1) by (simp add: play_status_def Let_def q W)
  with calculation show ?thesis using ok' t' D(1) N by (intro that [of b' db']) simp_all
qed

section \<open>A chunk of the initial phase\<close>

text \<open>
  While the times have not begun to increase the player neither looks at its control object nor waits
  nor searches.
\<close>

definition initial :: "timestamp \<Rightarrow> play_state \<Rightarrow> bool" where
  "initial ts st \<longleftrightarrow> (pl_init_phase st = 1 \<or> pl_init_phase st = 2 \<and> pl_initial_ts st = ts) \<and> pl_goto st = 0 \<and> pl_end st = 0
     \<and> \<not> eof (pl_fp st) \<and> PREBUFSZ \<le> length (base_buf st)"

lemma initial_step:
  assumes i: "initial ts st" and a: "ahead (rtdb_bytes ts i ty d) (pl_fp st)" and f: "fits (length (chunk_data st)) (length d + 16)"
    and t: "in_int64 ts" "in_int32 i" "0 \<le> ty" "ty < 2 ^ 32" "ty \<noteq> STREAM_TYPE_ERROR"
  obtains b where
    "play_step opts fuel h st db = and_then (Some (play_status opts h
        (st\<lparr>pl_fp := moved (length (rtdb_bytes ts i ty d)) (pl_fp st), base_buf := b, rtdbchunk := Some True, pl_init_phase := 2,
            pl_initial_ts := ts, last_real_time := 0\<rparr>) db))
       (\<lambda>st db. and_then (play_event opts fuel h (rtdb_head (length d)) (int (length d)) st db) (\<lambda>st db. Some (Returned (Goes_on, st), db)))"
    "take (length d + 16) (drop PREBUFSZ b) = rtdb_body ts i ty d" "length (base_buf st) \<le> length b"
proof -
  have I: "pl_init_phase st = 1 \<or> pl_init_phase st = 2 \<and> pl_initial_ts st = ts" "pl_goto st = 0" "pl_end st = 0"
    "PREBUFSZ \<le> length (base_buf st)" using i by (simp_all add: initial_def)
  have k: "reading opts fuel h st db" using i by (auto simp: reading_def initial_def play_control_def)
  obtain b rc where r: "play_step opts fuel h st db = play_rtdb opts fuel h (rtdb_head (length d)) (int (length d + 16))
       (st\<lparr>pl_fp := moved (length (rtdb_bytes ts i ty d)) (pl_fp st), base_buf := b, rtdbchunk := rc\<rparr>) db"
    "take (length d + 16) (drop PREBUFSZ b) = rtdb_body ts i ty d" "length (base_buf st) \<le> length b"
    by (rule rtdb_read [OF k a f]) auto
  let ?s0 = "st\<lparr>pl_fp := moved (length (rtdb_bytes ts i ty d)) (pl_fp st), base_buf := b, rtdbchunk := Some True\<rparr>"
  let ?s1 = "?s0\<lparr>pl_init_phase := 2, pl_initial_ts := ts\<rparr>"
  have h: "take (length d + 16) (drop PREBUFSZ (base_buf ?s0)) = rtdb_body ts i ty d" and lb: "PREBUFSZ \<le> length (base_buf ?s0)"
    using r(2,3) I(4) by simp_all
  note S = chunk_seen [OF h lb t(1-4)]
  have S1: "chunk_in ?s1 = chunk_in ?s0" by (simp add: chunk_in_def)
  have "leave_init ?s0 = Returned ?s1"
    using I(1) t(5) unfolding leave_init_def Let_def S(1,3) by auto
  moreover have "note_position ?s1 = Returned ?s1" by (simp add: note_position_def Let_def)
  ultimately have l: "stop_then (leave_init ?s0) note_position = Returned ?s1" by simp
  have pc: "pace opts ?s1 db = (?s1\<lparr>last_real_time := 0\<rparr>, db)" by (simp add: pace_def paced_def Let_def)
  have g: "pl_goto st' = 0" if "play_status opts h (?s1\<lparr>last_real_time := 0\<rparr>) db = (Returned st', db')" for st' db'
    using that I(2) unfolding play_status_def Let_def by (auto split: if_splits prod.splits)
  have "play_step opts fuel h st db = play_reached opts fuel h (rtdb_head (length d)) (int (length d)) (?s1\<lparr>last_real_time := 0\<rparr>) db"
    unfolding r(1) play_rtdb_def using l pc I(2,3) by (simp add: stream_chunk_size_def)
  also have "\<dots> = and_then (Some (play_status opts h (?s1\<lparr>last_real_time := 0\<rparr>) db))
      (\<lambda>st db. and_then (play_event opts fuel h (rtdb_head (length d)) (int (length d)) st db) (\<lambda>st db. Some (Returned (Goes_on, st), db)))"
  proof -
    obtain r db' where p: "play_status opts h (?s1\<lparr>last_real_time := 0\<rparr>) db = (r, db')" by force
    show ?thesis
    proof (cases r)
      case (Returned st')
      then show ?thesis using g [of st' db'] p unfolding play_reached_def p by simp
    qed (simp_all add: play_reached_def p)
  qed
  finally show ?thesis using r(2,3) by (intro that [of b]) simp_all
qed

section \<open>A new object and its first version\<close>

lemma info_event:
  assumes c: "take (length (info_bytes m) + 16) (drop PREBUFSZ (base_buf st)) = rtdb_body ts i STREAM_TYPE_RFROBJ (info_bytes m)"
      "in_int64 ts" "in_int32 i" "PREBUFSZ \<le> length (base_buf st)" "typed_info m"
    and o: "pl_db opts" "\<not> pl_extract opts" and p: "play_wanted opts m" "\<not> map_exists (oid m) (pl_map st)"
    and n: "kogmo_rtdb_obj_insert h (replay_info opts (pl_map st) m) db = (Inr j, m', db')" "0 < j"
    and x: "map_add (oid m) j (name m') (otype m') (pl_map st) = Returned xs"
  shows "play_event opts fuel h dc k st db = Some (Returned
    ((copy_chunk dc st)\<lparr>base_buf := put info_off (info_bytes m') (base_buf st), pl_map := xs\<rparr>), db')"
proof -
  have ty: "(0::int) \<le> STREAM_TYPE_RFROBJ" "STREAM_TYPE_RFROBJ < (2::int) ^ 32" by (simp_all add: stream_types)
  note S = chunk_seen [OF c(1,4,2,3) ty]
  have l: "length (info_bytes m) = info_size" using c(5) by (simp add: typed_info_def)
  have i: "info_in st = m" using S(4) [of info_size] info_of_bytes [OF c(5)] l by (simp add: info_in_def)
  have b: "base_buf (copy_chunk dc st) = base_buf st" "pl_map (copy_chunk dc st) = pl_map st" by (simp_all add: copy_chunk_def copy_out_def)
  have "play_info opts h dc st db =
      (Returned ((copy_chunk dc st)\<lparr>base_buf := put info_off (info_bytes m') (base_buf st), pl_map := xs\<rparr>), db')"
    unfolding play_info_def Let_def i using p o n x by (simp add: insert_object_def map_to_def b)
  then show ?thesis by (simp add: play_event_def Let_def S(3))
qed

lemma map_add_new:
  assumes "unique_keys src xs" "i \<noteq> 0" "\<not> map_exists i xs" "0 \<in> src ` set xs"
  obtains ys where "map_add i j nm ot xs = Returned ys" "map_querydest i ys = j" "unique_keys src ys"
proof -
  have "map_del i xs = (0, xs)" using assms(3) by (simp add: map_del_def map_exists_def)
  moreover have "find_src 0 xs \<noteq> None" using assms(4) by (auto simp: find_src_def scan_first_None)
  ultimately obtain ys where y: "map_add i j nm ot xs = Returned ys" unfolding map_add_def by (auto simp: Let_def)
  note Y = map_add_ok [OF assms(1,2) y]
  have "map_querydest i ys = j" using map_queries(1) [OF assms(2), of ys] Y(2) by simp
  with y Y(1) show ?thesis by (intro that) simp_all
qed

text \<open>The database when the player has noted in its status object that it is at time \<open>ts\<close>.\<close>

definition status_db :: "play_opts \<Rightarrow> handle \<Rightarrow> timestamp \<Rightarrow> play_state \<Rightarrow> rtdb \<Rightarrow> rtdb" where
  "status_db opts h ts st db = snd (snd (kogmo_rtdb_obj_writedata h (pl_stat_oid opts)
     (upd_statobj ts (st\<lparr>pl_init_phase := 2\<rparr>)) (db\<lparr>sim_ts := ts\<rparr>)))"

lemma status_db_play:
  assumes "play_status opts h s db = (Returned s', db')" "pl_db opts" "k_type (chunk_in s) \<noteq> STREAM_TYPE_ERROR"
    "k_ts (chunk_in s) = ts" "pl_statobj s = pl_statobj st" "pl_init_phase s = 2"
  shows "db' = status_db opts h ts st db"
proof -
  obtain q where q: "kogmo_rtdb_timestamp_set ts db = (q, db\<lparr>sim_ts := ts\<rparr>)" by (metis set_time_db prod.collapse)
  have u: "upd_statobj ts s = upd_statobj ts (st\<lparr>pl_init_phase := 2\<rparr>)" using assms(5,6) by (simp add: upd_statobj_def)
  show ?thesis using assms(1-4) unfolding play_status_def status_db_def Let_def by (auto simp: q u split: prod.splits if_splits)
qed

text \<open>The description is one the database takes, under the settings of the player.\<close>

definition takes :: "play_opts \<Rightarrow> handle \<Rightarrow> oid_map \<Rightarrow> obj_info \<Rightarrow> bool" where
  "takes opts h xs m \<longleftrightarrow> typed_info m \<and> oid m \<noteq> 0 \<and> play_wanted opts m \<and> \<not> map_exists (oid m) xs \<and> unique_keys src xs
     \<and> 0 \<in> src ` set xs \<and> \<not> keep_alloc (flags m) \<and> (\<forall>t. size_ok (insert_info h t (replay_info opts xs m)))"

lemma replay_info_fields [simp]:
  "flags (replay_info opts xs m) = (flags m)\<lparr>cycle_watch := False\<rparr>" "name (replay_info opts xs m) = name m"
  "otype (replay_info opts xs m) = otype m" "size_max (replay_info opts xs m) = size_max m"
  by (simp_all add: replay_info_def Let_def)

lemma insert_info_size:
  assumes "size_ok (insert_info h ts m)" "in_int32 (size_max m)"
  shows "size_max m \<le> size_max (insert_info h ts m)"
proof (cases "size_max m + 1 < 2 ^ 31")
  case True
  then have "int32 (size_max m + 1) = size_max m + 1" using assms(2) by (simp add: int32_id in_int32_def)
  then show ?thesis by (simp add: insert_info_def insert_init_def Let_def)
next
  case False
  then have "size_max m = 2 ^ 31 - 1" using assms(2) by (simp add: in_int32_def)
  then have "size_max (insert_info h ts m) = - (2 ^ 31)" by (simp add: insert_info_def insert_init_def Let_def int32_def)
  then show ?thesis using assms(1) by (simp add: size_ok_def)
qed

lemma describe_step:
  assumes a: "heap_allocator (h_dsa h) I" and r: "ready opts h ks st db" and ok: "database_ok I db" "times_ok db" "objmeta_oid_next db < 2 ^ 31"
    and i: "initial ts st" and t: "time_ok ts" "in_int32 (oid m)"
    and b: "before (rtdb_bytes ts (oid m) STREAM_TYPE_RFROBJ (info_bytes m) @ bs) st" and f: "info_size + 16 \<le> length (chunk_data st)"
    and m: "takes opts h (pl_map st) m"
    and n: "kogmo_rtdb_obj_insert h (replay_info opts (pl_map st) m) (status_db opts h ts st db) = (Inr j, m', db')"
  obtains st' k where "play_step opts fuel h st db = Some (Returned (Goes_on, st'), db')" "before bs st'" "initial ts st'"
    "ready opts h ks st' db'" "database_ok I db'" "times_ok db'" "map_querydest (oid m) (pl_map st') = j" "j \<noteq> 0"
    "kogmo_rtdb_obj_findmeta_byid j db' = Some k" "k \<noteq> ks" "objmeta db' ! k = m'" "created_proc m' = h_proc_oid h" "otype m' = otype m"
    "name m' = (name m)[NAME_MAXLEN - 1 := NUL]" "\<not> cycle_watch (flags m')" "length (base_buf st) \<le> length (base_buf st')"
    "oid m' = j" "size_max m \<le> size_max m'"
proof -
  have M: "typed_info m" "oid m \<noteq> 0" "play_wanted opts m" "\<not> map_exists (oid m) (pl_map st)" "unique_keys src (pl_map st)"
    "0 \<in> src ` set (pl_map st)" "\<not> keep_alloc (flags m)" "\<And>t. size_ok (insert_info h t (replay_info opts (pl_map st) m))"
    using m by (simp_all add: takes_def)
  have l: "length (info_bytes m) = info_size" using M(1) by (simp add: typed_info_def)
  have ti: "in_int64 ts" using t(1) by (simp add: time_ok_def in_int64_def)
  have ty: "(0::int) \<le> STREAM_TYPE_RFROBJ" "STREAM_TYPE_RFROBJ < (2::int) ^ 32" "STREAM_TYPE_RFROBJ \<noteq> STREAM_TYPE_ERROR" by (simp_all add: stream_types)
  have ft: "fits (length (chunk_data st)) (length (info_bytes m) + 16)" using f l by (simp add: fits_def info_size_def PREBUFSZ_def base_size_def)
  let ?r = "rtdb_bytes ts (oid m) STREAM_TYPE_RFROBJ (info_bytes m)"
  obtain b1 where s: "play_step opts fuel h st db = and_then (Some (play_status opts h
        (st\<lparr>pl_fp := moved (length ?r) (pl_fp st), base_buf := b1, rtdbchunk := Some True, pl_init_phase := 2,
            pl_initial_ts := ts, last_real_time := 0\<rparr>) db))
       (\<lambda>st db. and_then (play_event opts fuel h (rtdb_head (length (info_bytes m))) (int (length (info_bytes m))) st db) (\<lambda>st db. Some (Returned (Goes_on, st), db)))"
    "take (length (info_bytes m) + 16) (drop PREBUFSZ b1) = rtdb_body ts (oid m) STREAM_TYPE_RFROBJ (info_bytes m)" "length (base_buf st) \<le> length b1"
    by (rule initial_step [OF i before_append(1) [OF b] ft ti t(2) ty]) auto
  let ?s = "st\<lparr>pl_fp := moved (length ?r) (pl_fp st), base_buf := b1, rtdbchunk := Some True, pl_init_phase := 2, pl_initial_ts := ts, last_real_time := 0\<rparr>"
  have h1: "take (length (info_bytes m) + 16) (drop PREBUFSZ (base_buf ?s)) = rtdb_body ts (oid m) STREAM_TYPE_RFROBJ (info_bytes m)"
    and lb: "PREBUFSZ \<le> length (base_buf ?s)" using s(2,3) i by (simp_all add: initial_def)
  note S = chunk_seen [OF h1 lb ti t(2) ty(1,2)]
  have r': "ready opts h ks ?s db" by (rule iffD2 [OF ready_same r]) simp
  have nt: "k_type (chunk_in ?s) \<noteq> STREAM_TYPE_ERROR" "time_ok (k_ts (chunk_in ?s))" using S(1,3) ty(3) t(1) by simp_all
  obtain b' db1 where P: "play_status opts h ?s db = (Returned (?s\<lparr>pl_statobj := b'\<rparr>), db1)" "ready opts h ks (?s\<lparr>pl_statobj := b'\<rparr>) db1"
    "database_ok I db1" "times_ok db1" "objmeta_oid_next db1 = objmeta_oid_next db"
    by (rule status_ok [OF a r' ok(1,2) nt]) (rule that, assumption+)
  have e: "db1 = status_db opts h ts st db" by (rule status_db_play [OF P(1) _ nt(1) S(1)]) (use r in \<open>simp_all add: ready_def\<close>)
  note n' = n [folded e]
  have nx: "objmeta_oid_next db1 < 2 ^ 31" and t1: "table_ok db1" using P(3,5) ok(3) by (simp_all add: database_ok_def)
  have d: "dsa_frame_ok (h_dsa h)" using a storage.frame_ok by (auto simp: heap_allocator_def)
  obtain k b2 where K: "j = objmeta_oid_next db1" "k < length (objmeta db1)" "objmeta db' = (objmeta db1)[k := m']"
    "oid (objmeta db1 ! k) = 0 \<or> deleted_ts (objmeta db1 ! k) \<noteq> 0"
    "m' = commit_info j ((insert_info h (fst (kogmo_rtdb_timestamp_now db1)) (replay_info opts (pl_map st) m))\<lparr>buffer_idx := b2\<rparr>)"
    by (rule insert_ok [OF t1 nx d n']) auto
  have j0: "0 < j" using K(1) t1 by (simp add: table_ok_def)
  have mf: "otype m' = otype m" "created_proc m' = h_proc_oid h" "name m' = (name m)[NAME_MAXLEN - 1 := NUL]" "\<not> cycle_watch (flags m')" "oid m' = j"
    by (subst K(5); simp)+
  have "in_int32 (size_max (replay_info opts (pl_map st) m))" using M(1) by (simp add: typed_info_def)
  from insert_info_size [OF M(8) this] have sm: "size_max m \<le> size_max m'" by (subst K(5)) simp
  have st2: "db_step (h_dsa h) db1 db'" by (rule inserts [OF refl n' nx]) (use M(7,8) in simp_all)
  have ok2: "database_ok I db'" by (rule heap_allocator.db_step_ok [OF a st2 P(3)])
  have t2: "times_ok db'" using insert_times [OF n' d] P(4) by simp
  have fk: "kogmo_rtdb_obj_findmeta_byid j db' = Some k" using find_new [OF t1 K(2,3)] mf(5) K(1) by simp
  have ks: "kogmo_rtdb_obj_findmeta_byid (pl_stat_oid opts) db1 = Some ks" "deleted_ts (objmeta db1 ! ks) = 0" "pl_stat_oid opts \<noteq> 0"
    using P(2) by (simp_all add: ready_def can_write_def)
  have kl: "ks < length (objmeta db1)" "oid (objmeta db1 ! ks) = pl_stat_oid opts"
    using ks(1) by (auto simp: kogmo_rtdb_obj_findmeta_byid_def scan_first_Some)
  have kk: "k \<noteq> ks" using K(4) ks kl by auto
  have fs: "kogmo_rtdb_obj_findmeta_byid (pl_stat_oid opts) db' = Some ks"
  proof -
    have "oid (objmeta db1 ! ks) < objmeta_oid_next db1" using t1 nth_mem [OF kl(1)] unfolding table_ok_def by blast
    then have "j \<noteq> pl_stat_oid opts" using kl(2) K(1) by simp
    then show ?thesis using ks(1) K(2,3) kk mf(5) ks(3)
      unfolding kogmo_rtdb_obj_findmeta_byid_def by (auto simp: scan_first_Some nth_list_update_if)
  qed
  obtain xs where xs: "map_add (oid m) j (name m') (otype m') (pl_map st) = Returned xs" "map_querydest (oid m) xs = j"
    by (rule map_add_new [OF M(5,2,4,6)]) auto
  let ?s1 = "?s\<lparr>pl_statobj := b'\<rparr>"
  define st' where "st' = (copy_chunk (rtdb_head (length (info_bytes m))) ?s1)\<lparr>base_buf := put info_off (info_bytes m') (base_buf ?s1), pl_map := xs\<rparr>"
  have n1: "kogmo_rtdb_obj_insert h (replay_info opts (pl_map ?s1) m) db1 = (Inr j, m', db')" using n' by simp
  have h1': "take (length (info_bytes m) + 16) (drop PREBUFSZ (base_buf ?s1)) = rtdb_body ts (oid m) STREAM_TYPE_RFROBJ (info_bytes m)"
    "PREBUFSZ \<le> length (base_buf ?s1)" "\<not> map_exists (oid m) (pl_map ?s1)" "map_add (oid m) j (name m') (otype m') (pl_map ?s1) = Returned xs"
    using h1 lb M(4) xs(1) by simp_all
  have o: "pl_db opts" "\<not> pl_extract opts" using r by (simp_all add: ready_def)
  have E: "play_event opts fuel h (rtdb_head (length (info_bytes m))) (int (length (info_bytes m))) ?s1 db1 = Some (Returned st', db')"
    unfolding st'_def by (rule info_event [OF h1'(1) ti t(2) h1'(2) M(1) o M(3) h1'(3) n1 j0 h1'(4)])
  have step: "play_step opts fuel h st db = Some (Returned (Goes_on, st'), db')" unfolding s(1) P(1) and_then_simps E ..
  have lm: "length (info_bytes m') = info_size" using M(1) by (simp add: mf(3) typed_info_def)
  have lb1: "info_off + info_size \<le> length b1" using S(5) l by (simp add: info_off_def PREBUFSZ_def base_size_def stream_chunk_size_def)
  have ls: "length (base_buf st') = length b1" using lm lb1 by (simp add: st'_def)
  have cf: "pl_fp st' = moved (length ?r) (pl_fp st)" "pl_init_phase st' = 2" "pl_initial_ts st' = ts" "pl_goto st' = pl_goto st" "pl_end st' = pl_end st"
    "pl_statobj st' = b'" "pl_map st' = xs" by (simp_all add: st'_def copy_chunk_def copy_out_def)
  have "initial ts st'" using i ls s(3) by (simp add: initial_def cf moved_def)
  moreover have "before bs st'" by (rule before_append(2) [OF b cf(1)])
  moreover have "ready opts h ks st' db'" by (rule iffD2 [OF ready_same ready_kept [OF P(2) fs]]) (use kk K(3) cf(6) in simp_all)
  ultimately show ?thesis
    using step ok2 t2 xs(2) j0 fk kk K(2,3) mf sm ls s(3) by (intro that [of st' k]) (simp_all add: cf)
qed

text \<open>Then its first version.\<close>

lemma update_step:
  assumes a: "heap_allocator (h_dsa h) I" and r: "ready opts h ks st db" and ok: "database_ok I db" "times_ok db"
    and i: "initial ts st" and t: "time_ok ts" "in_int32 i"
    and b: "before (rtdb_bytes ts i STREAM_TYPE_UPDOBJ d @ bs) st" and f: "fits (length (chunk_data st)) (length d + 16)"
    and d: "b_size d = int (length d)" "base_size \<le> length d"
    and j: "map_querydest i (pl_map st) = j" "kogmo_rtdb_obj_findmeta_byid j db = Some k" "j \<noteq> 0" "k \<noteq> ks"
    and w: "writedata_check h (objmeta db ! k) (b_size d) = None" "\<not> cycle_watch (flags (objmeta db ! k))" "has_block (objmeta db ! k)"
  obtains st' db' where "play_step opts fuel h st db = Some (Returned (Goes_on, st'), db')" "database_ok I db'"
    "kogmo_rtdb_obj_findmeta_byid j db' = Some k" "objmeta db' ! k = advanced (objmeta db ! k)"
    "obj_history db' k \<noteq> []" "b_payload (hd (obj_history db' k)) = b_payload d" "b_size (hd (obj_history db' k)) = b_size d"
    "pl_map st' = pl_map st"
proof -
  have ti: "in_int64 ts" using t(1) by (simp add: time_ok_def in_int64_def)
  have ty: "(0::int) \<le> STREAM_TYPE_UPDOBJ" "STREAM_TYPE_UPDOBJ < (2::int) ^ 32" "STREAM_TYPE_UPDOBJ \<noteq> STREAM_TYPE_ERROR" by (simp_all add: stream_types)
  let ?r = "rtdb_bytes ts i STREAM_TYPE_UPDOBJ d"
  obtain b1 where s: "play_step opts fuel h st db = and_then (Some (play_status opts h
        (st\<lparr>pl_fp := moved (length ?r) (pl_fp st), base_buf := b1, rtdbchunk := Some True, pl_init_phase := 2,
            pl_initial_ts := ts, last_real_time := 0\<rparr>) db))
       (\<lambda>st db. and_then (play_event opts fuel h (rtdb_head (length d)) (int (length d)) st db) (\<lambda>st db. Some (Returned (Goes_on, st), db)))"
    "take (length d + 16) (drop PREBUFSZ b1) = rtdb_body ts i STREAM_TYPE_UPDOBJ d" "length (base_buf st) \<le> length b1"
    by (rule initial_step [OF i before_append(1) [OF b] f ti t(2) ty]) auto
  let ?s = "st\<lparr>pl_fp := moved (length ?r) (pl_fp st), base_buf := b1, rtdbchunk := Some True, pl_init_phase := 2, pl_initial_ts := ts, last_real_time := 0\<rparr>"
  have h1: "take (length d + 16) (drop PREBUFSZ (base_buf ?s)) = rtdb_body ts i STREAM_TYPE_UPDOBJ d"
    and lb: "PREBUFSZ \<le> length (base_buf ?s)" using s(2,3) i by (simp_all add: initial_def)
  note S = chunk_seen [OF h1 lb ti t(2) ty(1,2)]
  have r': "ready opts h ks ?s db" by (rule iffD2 [OF ready_same r]) simp
  have nt: "k_type (chunk_in ?s) \<noteq> STREAM_TYPE_ERROR" "time_ok (k_ts (chunk_in ?s))" using S(1,3) ty(3) t(1) by simp_all
  obtain b' db1 where P: "play_status opts h ?s db = (Returned (?s\<lparr>pl_statobj := b'\<rparr>), db1)" "ready opts h ks (?s\<lparr>pl_statobj := b'\<rparr>) db1"
    "database_ok I db1" "times_ok db1" "\<And>k. k \<noteq> ks \<Longrightarrow> objmeta db1 ! k = objmeta db ! k" "map oid (objmeta db1) = map oid (objmeta db)"
    by (rule status_ok [OF a r' ok(1,2) nt]) (rule that, assumption+)
  note mk = P(5) [OF j(4)]
  have fk: "kogmo_rtdb_obj_findmeta_byid j db1 = Some k" using j(2) find_by_oids [OF P(6)] by simp
  have kl: "k < length (objmeta db1)" using fk by (auto simp: kogmo_rtdb_obj_findmeta_byid_def)
  have ob: "obj_ok db1 k" using data_ok_obj [of I db1 k] P(3) mk kl w(3) by (simp add: database_ok_def)
  let ?s1 = "?s\<lparr>pl_statobj := b'\<rparr>"
  have cw: "can_write h j k (b_size d) db1" using fk w(1,2) mk j(3) by (simp add: can_write_def)
  have o: "pl_db opts" "\<not> pl_extract opts" using r by (simp_all add: ready_def)
  have h1': "take (length d + 16) (drop PREBUFSZ (base_buf ?s1)) = rtdb_body ts i STREAM_TYPE_UPDOBJ d"
    "PREBUFSZ \<le> length (base_buf ?s1)" "map_querydest i (pl_map ?s1) = j" using h1 lb j(1) by simp_all
  obtain st' db' where E: "play_event opts fuel h (rtdb_head (length d)) (int (length d)) ?s1 db1 = Some (Returned st', db')"
    "obj_history db' k \<noteq> []" "b_payload (hd (obj_history db' k)) = b_payload d" "b_size (hd (obj_history db' k)) = b_size d"
    "pl_map st' = pl_map ?s1" "kogmo_rtdb_obj_findmeta_byid j db' = Some k" "objmeta db' = (objmeta db1)[k := advanced (objmeta db1 ! k)]"
    "\<And>I. heap_allocator (h_dsa h) I \<Longrightarrow> database_ok I db1 \<Longrightarrow> database_ok I db'"
    by (rule update_event [OF h1'(1) ti t(2) d h1'(2) o h1'(3) cw ob P(4)]) (rule that, assumption+)
  have step: "play_step opts fuel h st db = Some (Returned (Goes_on, st'), db')" unfolding s(1) P(1) and_then_simps E(1) ..
  show ?thesis using step E mk kl P(3) a by (intro that [of st' db']) simp_all
qed

text \<open>Both, as a recorder writes them when a new object is committed.\<close>

lemma replay_pair:
  assumes a: "heap_allocator (h_dsa h) I" and r: "ready opts h ks st db"
    and ok: "database_ok I db" "times_ok db" "objmeta_oid_next db < 2 ^ 31" and i: "initial ts st" and t: "time_ok ts" "in_int32 (oid m)"
    and b: "before (rtdb_bytes ts (oid m) STREAM_TYPE_RFROBJ (info_bytes m) @ rtdb_bytes ts (oid m) STREAM_TYPE_UPDOBJ d @ bs) st"
    and f: "info_size + 16 \<le> length (chunk_data st)" "fits (length (chunk_data st)) (length d + 16)"
    and m: "takes opts h (pl_map st) m"
    and n: "kogmo_rtdb_obj_insert h (replay_info opts (pl_map st) m) (status_db opts h ts st db) = (Inr j, m', db1)" "buffer_idx m' \<noteq> 0"
    and d: "b_size d = int (length d)" "base_size \<le> length d" "b_size d \<le> size_max m"
  shows "\<exists>st1 st2 db2 k. play_step opts fuel h st db = Some (Returned (Goes_on, st1), db1)
    \<and> play_step opts fuel h st1 db1 = Some (Returned (Goes_on, st2), db2) \<and> database_ok I db2
    \<and> kogmo_rtdb_obj_findmeta_byid j db2 = Some k \<and> otype (objmeta db2 ! k) = otype m
    \<and> name (objmeta db2 ! k) = (name m)[NAME_MAXLEN - 1 := NUL] \<and> created_proc (objmeta db2 ! k) = h_proc_oid h
    \<and> obj_history db2 k \<noteq> [] \<and> b_payload (hd (obj_history db2 k)) = b_payload d \<and> b_size (hd (obj_history db2 k)) = b_size d
    \<and> map_querydest (oid m) (pl_map st2) = j"
proof -
  obtain st1 k where s: "play_step opts fuel h st db = Some (Returned (Goes_on, st1), db1)" "before (rtdb_bytes ts (oid m) STREAM_TYPE_UPDOBJ d @ bs) st1"
    "initial ts st1" "ready opts h ks st1 db1" "database_ok I db1" "times_ok db1" "map_querydest (oid m) (pl_map st1) = j" "j \<noteq> 0"
    "kogmo_rtdb_obj_findmeta_byid j db1 = Some k" "k \<noteq> ks" "objmeta db1 ! k = m'" "created_proc m' = h_proc_oid h" "otype m' = otype m"
    "name m' = (name m)[NAME_MAXLEN - 1 := NUL]" "\<not> cycle_watch (flags m')" "length (base_buf st) \<le> length (base_buf st1)"
    "oid m' = j" "size_max m \<le> size_max m'"
    by (rule describe_step [OF a r ok i t b f(1) m n(1)]) (rule that, assumption+)
  have f1: "fits (length (chunk_data st1)) (length d + 16)" by (rule fits_mono [OF f(2)]) (use s(16) in \<open>simp add: chunk_data_def\<close>)
  have w: "writedata_check h (objmeta db1 ! k) (b_size d) = None" "\<not> cycle_watch (flags (objmeta db1 ! k))" "has_block (objmeta db1 ! k)"
    using d s(8,11,12,15,17,18) n(2) by (auto simp: writedata_check_def has_block_def base_size_def)
  obtain st2 db2 where u: "play_step opts fuel h st1 db1 = Some (Returned (Goes_on, st2), db2)" "database_ok I db2"
    "kogmo_rtdb_obj_findmeta_byid j db2 = Some k" "objmeta db2 ! k = advanced (objmeta db1 ! k)"
    "obj_history db2 k \<noteq> []" "b_payload (hd (obj_history db2 k)) = b_payload d" "b_size (hd (obj_history db2 k)) = b_size d"
    "pl_map st2 = pl_map st1"
    by (rule update_step [OF a s(4-6,3) t s(2) f1 d(1,2) s(7,9,8,10) w]) (rule that, assumption+)
  have "otype (objmeta db2 ! k) = otype m" "name (objmeta db2 ! k) = (name m)[NAME_MAXLEN - 1 := NUL]" "created_proc (objmeta db2 ! k) = h_proc_oid h"
    using s(11-14) u(4) by (simp_all add: advanced_def)
  with s(1,7) u show ?thesis by (intro exI [of _ st1] exI [of _ st2] exI [of _ db2] exI [of _ k]) simp
qed

end
