(* ===== verification/Player_Copy.thy ===== *)
theory Player_Copy
  imports Player_Read Time_Index_Props
begin

text \<open>
  The player without a database (\<open>-D\<close>, \<open>-o\<close>): it copies the chunks of the objects to be played.
  The copy of a recording is the recording without the chunks of objects that are not wanted or not
  there.
\<close>

section \<open>The index never leaves its array\<close>

definition spans_ok :: "cfloat \<Rightarrow> timestamp set \<Rightarrow> bool" where
  "spans_ok iv T \<longleftrightarrow> 0 < iv \<and> (\<forall>a \<in> T. a < 2 ^ 63 \<and> (\<forall>b \<in> T. 0 < a \<longrightarrow> bin iv a b < 2 ^ 30))"

definition index_inv :: "cfloat \<Rightarrow> timestamp set \<Rightarrow> timeidx option \<Rightarrow> bool" where
  "index_inv iv T p \<longleftrightarrow> (\<exists>x A. p = Some x \<and> index_ok iv A x \<and> fst ` set A \<subseteq> T)"

lemma index_add_ok:
  assumes i: "index_inv iv T (pl_idx st)" and s: "spans_ok iv T" and t: "ts \<in> T"
  obtains p where "index_add ts pos st = Returned (st\<lparr>pl_idx := p\<rparr>)" "index_inv iv T p"
proof -
  obtain x A where x: "pl_idx st = Some x" "index_ok iv A x" "fst ` set A \<subseteq> T" using i by (auto simp: index_inv_def)
  have hd: "fst (hd A) \<in> T" "0 < fst (hd A)" if "A \<noteq> []" using that x(3) index_okD(5) [OF x(2) that] by auto
  have "0 < iv" "ts < 2 ^ 63" "A \<noteq> [] \<Longrightarrow> bin iv (fst (hd A)) ts < 2 ^ 30" using s t hd by (auto simp: spans_ok_def)
  from add_ok [OF x(2) this, of pos] obtain r y where
    y: "timeidx_add ts pos (Some x) = Some (r, Some y)" "index_ok iv (accept iv (ts, pos) A) y" by auto
  have "fst ` set (accept iv (ts, pos) A) \<subseteq> T"
    using image_mono [OF accept_hd(2) [of iv "(ts, pos)" A], of fst] x(3) t by auto
  then have "index_inv iv T (Some y)" using y(2) by (auto simp: index_inv_def)
  moreover have "index_add ts pos st = Returned (st\<lparr>pl_idx := Some y\<rparr>)" by (simp add: index_add_def x(1) y(1))
  ultimately show ?thesis by (rule that [rotated])
qed

lemma index_steps:
  assumes i: "index_inv iv T (pl_idx st)" and s: "spans_ok iv T" and t: "k_ts (chunk_in st) \<in> T"
  obtains p n t0 where "stop_then (leave_init st) note_position = Returned (st\<lparr>pl_idx := p, pl_init_phase := n, pl_initial_ts := t0\<rparr>)"
    "index_inv iv T p"
proof -
  obtain p n t0 where l: "leave_init st = Returned (st\<lparr>pl_idx := p, pl_init_phase := n, pl_initial_ts := t0\<rparr>)" "index_inv iv T p"
  proof (cases "pl_init_phase st = 0 \<or> k_type (chunk_in st) = STREAM_TYPE_ERROR")
    case True
    then have "leave_init st = Returned (st\<lparr>pl_idx := pl_idx st, pl_init_phase := pl_init_phase st, pl_initial_ts := pl_initial_ts st\<rparr>)"
      by (simp add: leave_init_def)
    then show ?thesis by (rule that) (rule i)
  next
    case False
    let ?st = "(if pl_init_phase st = 1 then st\<lparr>pl_initial_ts := k_ts (chunk_in st)\<rparr> else st)\<lparr>pl_init_phase := 2\<rparr>"
    have f: "?st = st\<lparr>pl_idx := pl_idx st, pl_init_phase := 2, pl_initial_ts := pl_initial_ts ?st\<rparr>" by simp
    have "index_inv iv T (pl_idx ?st)" using i by simp
    from index_add_ok [OF this s t, of 0] obtain p where
      p: "index_add (k_ts (chunk_in st)) 0 ?st = Returned (?st\<lparr>pl_idx := p\<rparr>)" "index_inv iv T p" .
    show ?thesis
    proof (cases "k_ts (chunk_in st) = pl_initial_ts ?st")
      case True
      then have "leave_init st = Returned ?st" using False unfolding leave_init_def Let_def by simp
      then show ?thesis by (subst (asm) f) (rule that, assumption, rule i)
    next
      case ne: False
      then have "leave_init st = Returned (st\<lparr>pl_idx := p, pl_init_phase := 0, pl_initial_ts := pl_initial_ts ?st\<rparr>)"
        using False p(1) unfolding leave_init_def Let_def by simp
      then show ?thesis by (rule that) (rule p(2))
    qed
  qed
  let ?st = "st\<lparr>pl_idx := p, pl_init_phase := n, pl_initial_ts := t0\<rparr>"
  have c: "chunk_in ?st = chunk_in st" by (simp add: chunk_in_def)
  have "index_inv iv T (pl_idx ?st)" using l(2) by simp
  from index_add_ok [OF this s t, of "ftello (pl_fp st)"] obtain q where
    q: "index_add (k_ts (chunk_in st)) (ftello (pl_fp st)) ?st = Returned (?st\<lparr>pl_idx := q\<rparr>)" "index_inv iv T q" .
  have "note_position ?st = Returned (?st\<lparr>pl_idx := q\<rparr>) \<or> note_position ?st = Returned (?st\<lparr>pl_idx := p\<rparr>)"
    using q(1) by (auto simp: note_position_def c Let_def)
  then show ?thesis
  proof
    assume "note_position ?st = Returned (?st\<lparr>pl_idx := q\<rparr>)"
    then show ?thesis using l(1) q(2) by (intro that [of t0 n q]) simp_all
  next
    assume "note_position ?st = Returned (?st\<lparr>pl_idx := p\<rparr>)"
    then show ?thesis using l by (intro that [of t0 n p]) simp_all
  qed
qed

section \<open>One chunk\<close>

text \<open>Nothing but the file moves the player: no control, no pause, no time to go to or to end at.\<close>

definition copying :: "play_opts \<Rightarrow> play_state \<Rightarrow> bool" where
  "copying opts st \<longleftrightarrow> \<not> pl_db opts \<and> \<not> pl_extract opts \<and> \<not> pl_pause st \<and> pl_goto st = 0 \<and> pl_end st = 0
     \<and> PREBUFSZ + info_size \<le> length (base_buf st) \<and> length (pre_buf st) = PREBUFSZ \<and> frame_oid st = 0"

lemma copying_reads: "copying opts st \<Longrightarrow> \<not> eof (pl_fp st) \<Longrightarrow> reading opts fuel h st db"
  by (simp add: reading_def copying_def play_control_def)

lemma rtdb_step:
  assumes k: "copying opts st" and a: "ahead (rtdb_bytes ts i ty d) (pl_fp st)" and e: "\<not> eof (pl_fp st)"
    and f: "fits (length (chunk_data st)) (length d + 16)" and t: "in_int64 ts" "in_int32 i" "0 \<le> ty" "ty < 2 ^ 32" "ts \<in> T"
    and x: "index_inv iv T (pl_idx st)" "spans_ok iv T"
  obtains b p n t0 where
    "play_step opts fuel h st db = and_then (play_event opts fuel h (rtdb_head (length d)) (int (length d))
       (st\<lparr>pl_fp := moved (length (rtdb_bytes ts i ty d)) (pl_fp st), base_buf := b, rtdbchunk := Some True,
           pl_idx := p, pl_init_phase := n, pl_initial_ts := t0, last_real_time := 0\<rparr>) db) (\<lambda>st db. Some (Returned (Goes_on, st), db))"
    "take (length d + 16) (drop PREBUFSZ b) = rtdb_body ts i ty d" "length (base_buf st) \<le> length b" "index_inv iv T p"
proof -
  obtain b rc where r: "play_step opts fuel h st db = play_rtdb opts fuel h (rtdb_head (length d)) (int (length d + 16))
       (st\<lparr>pl_fp := moved (length (rtdb_bytes ts i ty d)) (pl_fp st), base_buf := b, rtdbchunk := rc\<rparr>) db"
    "take (length d + 16) (drop PREBUFSZ b) = rtdb_body ts i ty d" "length (base_buf st) \<le> length b"
    by (rule rtdb_read [OF copying_reads [OF k e] a f]) auto
  let ?s0 = "st\<lparr>pl_fp := moved (length (rtdb_bytes ts i ty d)) (pl_fp st), base_buf := b, rtdbchunk := Some True\<rparr>"
  have h: "take (length d + 16) (drop PREBUFSZ (base_buf ?s0)) = rtdb_body ts i ty d" using r(2) by simp
  have lb: "PREBUFSZ \<le> length (base_buf ?s0)" using r(3) k by (simp add: copying_def)
  note S = chunk_seen [OF h lb t(1-4)]
  have i0: "index_inv iv T (pl_idx ?s0)" and t0: "k_ts (chunk_in ?s0) \<in> T" using x(1) t(5) S(1) by simp_all
  obtain p m t0 where I: "stop_then (leave_init ?s0) note_position = Returned (?s0\<lparr>pl_idx := p, pl_init_phase := m, pl_initial_ts := t0\<rparr>)"
    "index_inv iv T p"
    by (rule index_steps [OF i0 x(2) t0]) auto
  let ?s1 = "?s0\<lparr>pl_idx := p, pl_init_phase := m, pl_initial_ts := t0\<rparr>"
  have dbs: "\<not> pl_db opts" and g: "pl_goto st = 0" "pl_end st = 0" using k by (simp_all add: copying_def)
  have pc: "pace opts ?s1 db = (?s1\<lparr>last_real_time := 0\<rparr>, db)" using dbs by (simp add: pace_def paced_def)
  have "play_step opts fuel h st db = play_reached opts fuel h (rtdb_head (length d)) (int (length d)) (?s1\<lparr>last_real_time := 0\<rparr>) db"
    unfolding r(1) play_rtdb_def using I(1) pc g by (simp add: stream_chunk_size_def)
  also have "\<dots> = and_then (play_event opts fuel h (rtdb_head (length d)) (int (length d)) (?s1\<lparr>last_real_time := 0\<rparr>) db) (\<lambda>st db. Some (Returned (Goes_on, st), db))"
    unfolding play_reached_def using g dbs by (simp add: play_status_def Let_def)
  finally show ?thesis using r(2,3) I(2) by (intro that [of t0 m p b]) simp_all
qed

lemma stream_code:
  assumes "is_stream_chunk c" "typed_chunk c"
  shows "0 \<le> aviraw_chunk_nr_stream c" "\<not> is_list c" "\<not> strncmp_eq 4 (fcc c) ''RTDB''"
proof -
  have h: "fcc c ! 0 = CHR ''0''" "length (fcc c) = 4" using assms
    by (auto simp: is_stream_chunk_def aviraw_chunk_nr_stream_def Let_def typed_chunk_def four_def split: if_splits)
  show "0 \<le> aviraw_chunk_nr_stream c" using assms(1)
    by (auto simp: is_stream_chunk_def aviraw_chunk_nr_stream_def Let_def split: if_splits)
  obtain x where "fcc c = CHR ''0'' # x" using h by (cases "fcc c") auto
  moreover have "take 4 (cstr (CHR ''0'' # y)) = CHR ''0'' # take 3 (cstr y)" for y
  proof -
    have "CHR ''0'' \<noteq> NUL" by code_simp
    then show ?thesis by (simp add: cstr_def)
  qed
  moreover have "take 4 (cstr ''LIST'') = ''LIST'' \<and> take 4 (cstr ''RIFF'') = ''RIFF'' \<and> take 4 (cstr ''RTDB'') = ''RTDB''" by code_simp
  ultimately show "\<not> is_list c" "\<not> strncmp_eq 4 (fcc c) ''RTDB''" by (simp_all add: is_list_def strncmp_eq_def)
qed

lemma stream_step:
  assumes k: "copying opts st" and a: "ahead (chunk_file (c, d)) (pl_fp st)" and e: "\<not> eof (pl_fp st)"
    and f: "fits (length (chunk_data st)) (length d)" and c: "typed_chunk c" "cb c = int (length d)" "d \<noteq> []" "is_stream_chunk c"
  obtains b rc where
    "play_step opts fuel h st db = and_then (Some (play_stream opts h c
       (st\<lparr>pl_fp := moved (length (chunk_file (c, d))) (pl_fp st), base_buf := b, rtdbchunk := rc\<rparr>) db))
       (\<lambda>st db. Some (Returned (Goes_on, st), db))"
    "take (length d) (drop PREBUFSZ b) = d" "length (base_buf st) \<le> length b"
proof -
  have n: "length d < 2 ^ 31" using f unfolding fits_def by linarith
  let ?st = "st\<lparr>pl_fp := moved 8 (pl_fp st)\<rparr>"
  have f': "fits (length (chunk_data ?st)) (length d)" and l': "PREBUFSZ \<le> length (base_buf ?st)"
    using f k by (simp_all add: chunk_data_def copying_def)
  obtain b rc where r: "read_chunk c ?st = Returned (Some (int (length d)), ?st\<lparr>pl_fp := moved (length (chunk_file (c, d))) (pl_fp st),
      base_buf := b, rtdbchunk := rc\<rparr>)" "take (length d) (drop PREBUFSZ b) = d" "length (base_buf ?st) \<le> length b"
    by (rule read_chunk_ok [OF a c(1-3) f' l']) simp_all
  have "play_chunk opts fuel h c ?st db = and_then (Some (play_stream opts h c
       (st\<lparr>pl_fp := moved (length (chunk_file (c, d))) (pl_fp st), base_buf := b, rtdbchunk := rc\<rparr>) db))
       (\<lambda>st db. Some (Returned (Goes_on, st), db))"
    unfolding play_chunk_def r(1) using stream_code [OF c(4,1)] by simp
  then show ?thesis using r(2,3) step_reads [OF copying_reads [OF k e] a c(1-3) n, of fuel h db] by (intro that [of rc b]) simp_all
qed

section \<open>What is copied\<close>

text \<open>\<open>there\<close> says which objects are there and whether they are wanted.\<close>

definition adding_types :: "int set" where
  "adding_types = {STREAM_TYPE_ADDOBJ, STREAM_TYPE_RFROBJ, STREAM_TYPE_CHGOBJ}"

fun live_after :: "play_opts \<Rightarrow> (int \<rightharpoonup> bool) \<Rightarrow> rec_unit \<Rightarrow> (int \<rightharpoonup> bool)" where
  "live_after opts there (Plain ts i ty d) =
     (if ty \<in> adding_types then (if oid (info_of d) \<in> dom there then there else there(oid (info_of d) \<mapsto> play_wanted opts (info_of d)))
      else if ty = STREAM_TYPE_DELOBJ then there(oid (info_of d) := None) else there)"
| "live_after opts there (Split ts i d c raw) = there"

fun is_copied :: "play_opts \<Rightarrow> (int \<rightharpoonup> bool) \<Rightarrow> rec_unit \<Rightarrow> bool" where
  "is_copied opts there (Plain ts i ty d) \<longleftrightarrow>
     (if ty \<in> adding_types then play_wanted opts (info_of d)
      else if ty = STREAM_TYPE_DELOBJ then there (oid (info_of d)) = Some True
      else ty = STREAM_TYPE_UPDOBJ \<longrightarrow> there i = Some True)"
| "is_copied opts there (Split ts i d c raw) \<longleftrightarrow> there i = Some True"

fun copied :: "play_opts \<Rightarrow> (int \<rightharpoonup> bool) \<Rightarrow> rec_unit list \<Rightarrow> rec_unit list" where
  "copied opts there [] = []"
| "copied opts there (u # us) = (if is_copied opts there u then [u] else []) @ copied opts (live_after opts there u) us"

section \<open>The map of the player follows\<close>

definition map_rel :: "int set \<Rightarrow> (int \<rightharpoonup> bool) \<Rightarrow> oid_map \<Rightarrow> bool" where
  "map_rel I there xs \<longleftrightarrow> unique_keys src xs \<and> there = map_option (\<lambda>e. fst e \<noteq> 0) \<circ> the_map xs \<and> dom there \<subseteq> I
     \<and> finite I \<and> 0 \<notin> I \<and> card I \<le> length xs"

lemma map_rel_queries:
  assumes "map_rel I there xs" "s \<noteq> 0"
  shows "map_querydest s xs \<noteq> 0 \<longleftrightarrow> there s = Some True" "map_exists s xs \<longleftrightarrow> s \<in> dom there"
  using map_queries(1,4) [OF assms(2), of xs] assms(1) by (auto simp: map_rel_def split: option.splits prod.splits)

lemma map_rel_del:
  assumes "map_rel I there xs" "s \<noteq> 0"
  shows "map_rel I (there(s := None)) (snd (map_del s xs))"
proof -
  have "unique_keys src xs" using assms by (simp add: map_rel_def)
  from map_del_all [OF this assms(2)] assms(1) show ?thesis by (auto simp: map_rel_def fun_eq_iff)
qed

lemma map_rel_add:
  assumes r: "map_rel I there xs" and s: "s \<in> I" "s \<notin> dom there"
  obtains ys where "map_add s d nm ot xs = Returned ys" "map_rel I (there(s \<mapsto> d \<noteq> 0)) ys"
proof -
  have u: "unique_keys src xs" and z: "s \<noteq> 0" and I: "finite I" "card I \<le> length xs" "dom there \<subseteq> I"
    and lv: "there = map_option (\<lambda>e. fst e \<noteq> 0) \<circ> the_map xs"
    using r s by (auto simp: map_rel_def)
  have keys: "src e \<in> dom there" if e: "e \<in> set xs" "src e \<noteq> 0" for e
  proof -
    obtain j where "j < length xs" "xs ! j = e" using e(1) unfolding in_set_conv_nth by blast
    then have "lookup_key src (src e) xs = Some j" using oids.lookup_unique [OF u e(2)] by simp
    then show ?thesis using e(2) by (simp add: lv the_map_def dom_def)
  qed
  have "\<exists>e \<in> set xs. src e = 0"
  proof (rule ccontr)
    assume "\<not> (\<exists>e \<in> set xs. src e = 0)"
    then have nz: "src (xs ! i) \<noteq> 0" if "i < length xs" for i using that nth_mem by blast
    have "inj_on (\<lambda>i. src (xs ! i)) {..<length xs}"
      using u nz by (intro inj_onI) (auto simp: unique_keys_def)
    then have "card ((\<lambda>i. src (xs ! i)) ` {..<length xs}) = length xs" by (simp add: card_image)
    moreover have "(\<lambda>i. src (xs ! i)) ` {..<length xs} \<subseteq> I - {s}"
    proof (rule image_subsetI)
      fix i assume "i \<in> {..<length xs}"
      then have "src (xs ! i) \<in> dom there" using nz by (intro keys) simp_all
      then show "src (xs ! i) \<in> I - {s}" using I(3) s(2) by auto
    qed
    then have "card ((\<lambda>i. src (xs ! i)) ` {..<length xs}) \<le> card (I - {s})" using I(1) by (intro card_mono) simp_all
    moreover have "card (I - {s}) < card I" using I(1) s(1) by (intro psubset_card_mono) auto
    ultimately show False using I(2) by simp
  qed
  moreover have "map_del s xs = (0, xs)" using map_rel_queries(2) [OF r z] s(2) by (simp add: map_del_def map_exists_def)
  ultimately obtain ys where y: "map_add s d nm ot xs = Returned ys"
    unfolding map_add_def Let_def by (cases "find_src 0 xs") (auto simp: find_src_def scan_first_None)
  note Y = map_add_ok [OF u z y]
  have "map_rel I (there(s \<mapsto> d \<noteq> 0)) ys" using Y r s(1) by (auto simp: map_rel_def fun_eq_iff)
  with y show ?thesis by (rule that)
qed

section \<open>A unit of a recording\<close>

text \<open>
  The bounds of a recording that can be copied: chunks that fit buffers which begin with \<open>l\<close> bytes
  for a chunk, times of \<open>T\<close>, ids of objects of \<open>I\<close>, no raw objects.
\<close>

fun replayable :: "nat \<Rightarrow> timestamp set \<Rightarrow> int set \<Rightarrow> rec_unit \<Rightarrow> bool" where
  "replayable l T I (Plain ts i ty d) \<longleftrightarrow> unit_ok (Plain ts i ty d) \<and> in_int64 ts \<and> ts \<in> T \<and> in_int32 i \<and> i \<noteq> 0
     \<and> fits l (length d + 16) \<and> (ty \<in> info_types \<longrightarrow> oid (info_of d) \<in> I)"
| "replayable l T I (Split ts i d c raw) \<longleftrightarrow> unit_ok (Split ts i d c raw) \<and> in_int64 ts \<and> ts \<in> T \<and> in_int32 i \<and> i \<noteq> 0
     \<and> fits l (length d + 16) \<and> is_stream_chunk c \<and> typed_chunk c \<and> fits l (length raw)"

lemma copy_rtdb_ok:
  assumes h: "take (length d + 16) (drop PREBUFSZ (base_buf st)) = rtdb_body ts i ty d" and n: "length d < 2 ^ 31 - 16"
    and o: "pl_fout st = Some f" "length (rtdb_bytes ts i ty d) + 1 \<le> room f"
  obtains f' where "copy_chunk (rtdb_head (length d)) st = st\<lparr>pl_fout := Some f'\<rparr>" "written f' = written f @ rtdb_bytes ts i ty d"
    "room f - length (rtdb_bytes ts i ty d) \<le> room f'"
proof -
  note B = rtdb_bytes_chunk [OF n, of ts i ty]
  have c: "cb (rtdb_head (length d)) = int (length (rtdb_body ts i ty d))" by (simp add: rtdb_head_def)
  have h': "take (length (rtdb_body ts i ty d)) (drop PREBUFSZ (base_buf st)) = rtdb_body ts i ty d" using h by simp
  show ?thesis
    by (rule copy_chunk_ok [OF h' typed_rtdb_head [OF n] c rtdb_body_facts(2) o(1) o(2) [unfolded B]]) (rule that, simp_all add: B)
qed

lemma plain_event:
  assumes k: "copying opts st" and h: "take (length d + 16) (drop PREBUFSZ (base_buf st)) = rtdb_body ts i ty d"
    and u: "replayable l T I (Plain ts i ty d)" and m: "map_rel I there (pl_map st)"
    and o: "pl_fout st = Some f" "length (rtdb_bytes ts i ty d) + 1 \<le> room f"
  obtains xs f' where
    "play_event opts fuel ha (rtdb_head (length d)) (int (length d)) st db = Some (Returned (st\<lparr>pl_map := xs, pl_fout := Some f'\<rparr>), db)"
    "map_rel I (live_after opts there (Plain ts i ty d)) xs"
    "written f' = written f @ (if is_copied opts there (Plain ts i ty d) then rtdb_bytes ts i ty d else [])"
    "room f - length (rtdb_bytes ts i ty d) \<le> room f'"
proof -
  let ?c = "rtdb_head (length d)" and ?m = "info_of d"
  have fl: "fits l (length d + 16)" and tt: "in_int64 ts" "in_int32 i" "i \<noteq> 0" "ty \<in> info_types \<Longrightarrow> oid ?m \<in> I"
    and uo: "unit_ok (Plain ts i ty d)" using u by simp_all
  note n = fits_rtdb [OF fl]
  have ty: "0 \<le> ty" "ty < 2 ^ 32" "ty \<noteq> STREAM_TYPE_UPDOBJ_NEXT" "ty \<in> info_types \<Longrightarrow> length d = info_size"
    using uo by (auto simp: info_types_def stream_types)
  have lb: "PREBUFSZ \<le> length (base_buf st)" using k by (simp add: copying_def)
  note S = chunk_seen [OF h lb tt(1,2) ty(1,2)]
  obtain g where g: "copy_chunk ?c st = st\<lparr>pl_fout := Some g\<rparr>" "written g = written f @ rtdb_bytes ts i ty d"
    "room f - length (rtdb_bytes ts i ty d) \<le> room g" by (rule copy_rtdb_ok [OF h n o])
  have dbs: "\<not> pl_db opts" "\<not> pl_extract opts" "frame_oid st = 0" using k by (simp_all add: copying_def)
  have info: "info_in st = ?m" if "ty \<in> info_types"
    using S(4) [of info_size] ty(4) [OF that] by (simp add: info_in_def)
  have I0: "0 \<notin> I" using m by (simp add: map_rel_def)
  consider "ty \<in> adding_types" | "ty = STREAM_TYPE_DELOBJ" | "ty = STREAM_TYPE_UPDOBJ" | "ty = STREAM_TYPE_ERROR"
    using uo by (auto simp: adding_types_def info_types_def)
  then show ?thesis
  proof cases
    case 1
    then have ti: "ty \<in> info_types" by (auto simp: adding_types_def info_types_def)
    then have z: "oid ?m \<in> I" "oid ?m \<noteq> 0" using tt(4) I0 by auto
    have ev: "play_event opts fuel ha ?c (int (length d)) st db = Some (play_info opts ha ?c st db)"
      using 1 by (simp add: play_event_def Let_def S(3) adding_types_def)
    let ?f = "if play_wanted opts ?m then g else f"
    let ?s = "if play_wanted opts ?m then copy_chunk ?c st else st"
    have s: "?s = st\<lparr>pl_fout := Some ?f\<rparr>" using g(1) o(1) by simp
    have w: "written ?f = written f @ (if is_copied opts there (Plain ts i ty d) then rtdb_bytes ts i ty d else [])"
      "room f - length (rtdb_bytes ts i ty d) \<le> room ?f" using g(2,3) 1 by simp_all
    show ?thesis
    proof (cases "oid ?m \<in> dom there")
      case True
      then have "map_exists (oid ?m) (pl_map st)" using map_rel_queries(2) [OF m z(2)] by simp
      then have "play_info opts ha ?c st db = (Returned (st\<lparr>pl_map := pl_map st, pl_fout := Some ?f\<rparr>), db)"
        unfolding play_info_def Let_def info [OF ti] s by simp
      then show ?thesis using ev w m 1 True by (intro that [of ?f "pl_map st"]) simp_all
    next
      case False
      then have ex: "\<not> map_exists (oid ?m) (pl_map st)" using map_rel_queries(2) [OF m z(2)] by simp
      obtain xs where xs: "map_add (oid ?m) (if play_wanted opts ?m then 1 else 0) (name ?m) (otype ?m) (pl_map st) = Returned xs"
        "map_rel I (there(oid ?m \<mapsto> (if play_wanted opts ?m then 1 else 0) \<noteq> (0::int))) xs"
        by (rule map_rel_add [OF m z(1) False])
      have "play_info opts ha ?c st db = (Returned (st\<lparr>pl_map := xs, pl_fout := Some ?f\<rparr>), db)"
        using ex xs(1) dbs o(1) g(1) unfolding play_info_def Let_def info [OF ti] by (auto simp: map_to_def)
      then show ?thesis using ev w xs(2) 1 False by (intro that [of ?f xs]) (simp_all split: if_splits)
    qed
  next
    case 2
    then have ti: "ty \<in> info_types" and na: "ty \<notin> adding_types" by (auto simp: adding_types_def info_types_def stream_types)
    then have z: "oid ?m \<in> I" "oid ?m \<noteq> 0" using tt(4) I0 by auto
    let ?xs = "snd (map_del (oid ?m) (pl_map st))"
    have r: "map_rel I (there(oid ?m := None)) ?xs" by (rule map_rel_del [OF m z(2)])
    have q: "map_querydest (oid ?m) (pl_map st) \<noteq> 0 \<longleftrightarrow> there (oid ?m) = Some True" by (rule map_rel_queries(1) [OF m z(2)])
    let ?f = "if there (oid ?m) = Some True then g else f"
    have "copy_chunk ?c (st\<lparr>pl_map := ?xs\<rparr>) = (copy_chunk ?c st)\<lparr>pl_map := ?xs\<rparr>"
      by (simp add: copy_chunk_def copy_out_def chunk_data_def)
    then have "play_delete opts fuel ha ?c st db = Some (Returned (st\<lparr>pl_map := ?xs, pl_fout := Some ?f\<rparr>), db)"
      using q dbs g(1) o(1) unfolding play_delete_def Let_def info [OF ti] by auto
    then have "play_event opts fuel ha ?c (int (length d)) st db = Some (Returned (st\<lparr>pl_map := ?xs, pl_fout := Some ?f\<rparr>), db)"
      using 2 by (simp add: play_event_def Let_def S(3) stream_types)
    then show ?thesis using r g(2,3) 2 na by (intro that [of ?f ?xs]) simp_all
  next
    case 3
    let ?f = "if there i = Some True then g else f"
    have q: "map_querydest i (pl_map st) \<noteq> 0 \<longleftrightarrow> there i = Some True" by (rule map_rel_queries(1) [OF m tt(3)])
    have "play_update opts ha ?c st db = (Returned (st\<lparr>pl_map := pl_map st, pl_fout := Some ?f\<rparr>), db)"
      using q dbs g(1) o(1) unfolding play_update_def Let_def S(2) by auto
    then have "play_event opts fuel ha ?c (int (length d)) st db = Some (Returned (st\<lparr>pl_map := pl_map st, pl_fout := Some ?f\<rparr>), db)"
      using 3 by (simp add: play_event_def Let_def S(3) stream_types)
    then show ?thesis using m g(2,3) 3 by (intro that [of ?f "pl_map st"]) (simp_all add: adding_types_def stream_types)
  next
    case 4
    have "play_event opts fuel ha ?c (int (length d)) st db = Some (Returned (st\<lparr>pl_map := pl_map st, pl_fout := Some g\<rparr>), db)"
      using 4 g(1) by (simp add: play_event_def Let_def S(3) stream_types)
    then show ?thesis using m g(2,3) 4 by (intro that [of g "pl_map st"]) (simp_all add: adding_types_def stream_types)
  qed
qed

section \<open>The copy of a recording\<close>

text \<open>\<open>r\<close> is the object whose image is still to come, or 0.\<close>

definition copy_inv :: "play_opts \<Rightarrow> nat \<Rightarrow> cfloat \<Rightarrow> timestamp set \<Rightarrow> int set \<Rightarrow> (int \<rightharpoonup> bool) \<Rightarrow> int \<Rightarrow> out_file \<Rightarrow> play_state \<Rightarrow> bool" where
  "copy_inv opts l iv T I there r f st \<longleftrightarrow> copying opts st \<and> l \<le> length (chunk_data st) \<and> index_inv iv T (pl_idx st)
     \<and> rawnext_oid st = r \<and> (r \<noteq> 0 \<longrightarrow> next_prebuf_size st \<le> PREBUFSZ) \<and> pl_fout st = Some f \<and> map_rel I there (pl_map st)
     \<and> \<not> eof (pl_fp st)"

lemma plain_unit:
  assumes v: "copy_inv opts l iv T I there 0 f st" and x: "spans_ok iv T"
    and u: "replayable l T I (Plain ts i ty d)" and a: "before (rtdb_bytes ts i ty d @ bs) st"
    and o: "length (rtdb_bytes ts i ty d) + 1 \<le> room f"
  obtains st' f' where "play_step opts fuel ha st db = Some (Returned (Goes_on, st'), db)"
    "copy_inv opts l iv T I (live_after opts there (Plain ts i ty d)) 0 f' st'" "before bs st'"
    "written f' = written f @ (if is_copied opts there (Plain ts i ty d) then rtdb_bytes ts i ty d else [])"
    "room f - length (rtdb_bytes ts i ty d) \<le> room f'"
proof -
  have V: "copying opts st" "l \<le> length (chunk_data st)" "index_inv iv T (pl_idx st)" "rawnext_oid st = 0" "pl_fout st = Some f"
    "map_rel I there (pl_map st)" "\<not> eof (pl_fp st)" using v by (simp_all add: copy_inv_def)
  have fl: "fits l (length d + 16)" and tt: "in_int64 ts" "in_int32 i" "ts \<in> T" using u by simp_all
  have ty: "0 \<le> ty" "ty < 2 ^ 32" using u by (auto simp: info_types_def stream_types)
  obtain b p n t0 where b: "play_step opts fuel ha st db = and_then (play_event opts fuel ha (rtdb_head (length d)) (int (length d))
       (st\<lparr>pl_fp := moved (length (rtdb_bytes ts i ty d)) (pl_fp st), base_buf := b, rtdbchunk := Some True,
           pl_idx := p, pl_init_phase := n, pl_initial_ts := t0, last_real_time := 0\<rparr>) db) (\<lambda>st db. Some (Returned (Goes_on, st), db))"
    "take (length d + 16) (drop PREBUFSZ b) = rtdb_body ts i ty d" "length (base_buf st) \<le> length b" "index_inv iv T p"
    by (rule rtdb_step [OF V(1) before_append(1) [OF a] V(7) fits_mono [OF fl V(2)] tt(1,2) ty tt(3) V(3) x]) auto
  let ?s = "st\<lparr>pl_fp := moved (length (rtdb_bytes ts i ty d)) (pl_fp st), base_buf := b, rtdbchunk := Some True,
           pl_idx := p, pl_init_phase := n, pl_initial_ts := t0, last_real_time := 0\<rparr>"
  have k: "copying opts ?s" using V(1) b(3) by (simp add: copying_def)
  have h: "take (length d + 16) (drop PREBUFSZ (base_buf ?s)) = rtdb_body ts i ty d" and m: "map_rel I there (pl_map ?s)"
    and o': "pl_fout ?s = Some f" using b(2) V(5,6) by simp_all
  obtain xs f' where e: "play_event opts fuel ha (rtdb_head (length d)) (int (length d)) ?s db = Some (Returned (?s\<lparr>pl_map := xs, pl_fout := Some f'\<rparr>), db)"
    "map_rel I (live_after opts there (Plain ts i ty d)) xs"
    "written f' = written f @ (if is_copied opts there (Plain ts i ty d) then rtdb_bytes ts i ty d else [])"
    "room f - length (rtdb_bytes ts i ty d) \<le> room f'"
    by (rule plain_event [OF k h u m o' o]) auto
  let ?s' = "?s\<lparr>pl_map := xs, pl_fout := Some f'\<rparr>"
  have "copy_inv opts l iv T I (live_after opts there (Plain ts i ty d)) 0 f' ?s'"
    using V b(3,4) e(2) k by (auto simp: copy_inv_def copying_def moved_def chunk_data_def simp del: live_after.simps)
  moreover have "before bs ?s'" by (rule before_append(2) [OF a]) simp
  moreover have "play_step opts fuel ha st db = Some (Returned (Goes_on, ?s'), db)" unfolding b(1) e(1) by simp
  ultimately show ?thesis using e(3,4) by (intro that [of ?s' f']) blast+
qed

text \<open>An image: its header waits in \<open>pre_buf\<close> for the rest.\<close>

lemma play_event_next:
  "k_type (chunk_in st) = STREAM_TYPE_UPDOBJ_NEXT \<Longrightarrow> play_event opts fuel ha dc n st db = Some (play_next dc n st, db)"
  by (simp add: play_event_def Let_def stream_types)

lemma image_head:
  assumes v: "copy_inv opts l iv T I there 0 f st" and x: "spans_ok iv T"
    and fl: "fits l (length d + 16)" and tt: "in_int64 ts" "in_int32 i" "i \<noteq> 0" "ts \<in> T" and ld: "length d \<le> PREBUFSZ"
    and a: "before (rtdb_bytes ts i STREAM_TYPE_UPDOBJ_NEXT d @ bs) st"
    and o: "length (rtdb_bytes ts i STREAM_TYPE_UPDOBJ_NEXT d) + 1 \<le> room f"
  obtains st' f' where "play_step opts fuel ha st db = Some (Returned (Goes_on, st'), db)"
    "copy_inv opts l iv T I there (if there i = Some True then i else 0) f' st'" "before bs st'"
    "written f' = written f @ (if there i = Some True then rtdb_bytes ts i STREAM_TYPE_UPDOBJ_NEXT d else [])"
    "room f - length (rtdb_bytes ts i STREAM_TYPE_UPDOBJ_NEXT d) \<le> room f'"
proof -
  let ?r = "rtdb_bytes ts i STREAM_TYPE_UPDOBJ_NEXT d"
  have V: "copying opts st" "l \<le> length (chunk_data st)" "index_inv iv T (pl_idx st)" "rawnext_oid st = 0" "pl_fout st = Some f"
    "map_rel I there (pl_map st)" "\<not> eof (pl_fp st)" using v by (simp_all add: copy_inv_def)
  note n = fits_rtdb [OF fl]
  have ty: "(0::int) \<le> STREAM_TYPE_UPDOBJ_NEXT" "STREAM_TYPE_UPDOBJ_NEXT < (2::int) ^ 32" by (simp_all add: stream_types)
  obtain b p m t0 where b: "play_step opts fuel ha st db = and_then (play_event opts fuel ha (rtdb_head (length d)) (int (length d))
       (st\<lparr>pl_fp := moved (length ?r) (pl_fp st), base_buf := b, rtdbchunk := Some True,
           pl_idx := p, pl_init_phase := m, pl_initial_ts := t0, last_real_time := 0\<rparr>) db) (\<lambda>st db. Some (Returned (Goes_on, st), db))"
    "take (length d + 16) (drop PREBUFSZ b) = rtdb_body ts i STREAM_TYPE_UPDOBJ_NEXT d" "length (base_buf st) \<le> length b" "index_inv iv T p"
    by (rule rtdb_step [OF V(1) before_append(1) [OF a] V(7) fits_mono [OF fl V(2)] tt(1,2) ty tt(4) V(3) x]) auto
  let ?s = "st\<lparr>pl_fp := moved (length ?r) (pl_fp st), base_buf := b, rtdbchunk := Some True,
           pl_idx := p, pl_init_phase := m, pl_initial_ts := t0, last_real_time := 0\<rparr>"
  have h: "take (length d + 16) (drop PREBUFSZ (base_buf ?s)) = rtdb_body ts i STREAM_TYPE_UPDOBJ_NEXT d" using b(2) by simp
  have k: "copying opts ?s" "frame_oid st = 0" using V(1) b(3) by (simp_all add: copying_def)
  then have lb: "PREBUFSZ \<le> length (base_buf ?s)" by (simp add: copying_def)
  note S = chunk_seen [OF h lb tt(1,2) ty]
  have q: "map_querydest i (pl_map ?s) \<noteq> 0 \<longleftrightarrow> there i = Some True" using map_rel_queries(1) [OF V(6) tt(3)] by simp
  have step: "play_step opts fuel ha st db = and_then (Some (play_next (rtdb_head (length d)) (int (length d)) ?s, db)) (\<lambda>st db. Some (Returned (Goes_on, st), db))"
    unfolding b(1) play_event_next [OF S(3)] ..
  show ?thesis
  proof (cases "there i = Some True")
    case True
    let ?pb = "put 0 (take (length d) d) (pre_buf st)"
    let ?n = "?s\<lparr>rawnext_oid := i, rawnext_ts := ts, pre_buf := ?pb, next_prebuf_size := length d\<rparr>"
    have hn: "take (length d + 16) (drop PREBUFSZ (base_buf ?n)) = rtdb_body ts i STREAM_TYPE_UPDOBJ_NEXT d" and on: "pl_fout ?n = Some f"
      using h V(5) by simp_all
    obtain g where g: "copy_chunk (rtdb_head (length d)) ?n = ?n\<lparr>pl_fout := Some g\<rparr>" "written g = written f @ ?r" "room f - length ?r \<le> room g"
      by (rule copy_rtdb_ok [OF hn n on o]) auto
    have dn: "map_querydest i (pl_map ?s) \<noteq> frame_oid st" using q True k(2) by simp
    have G: "get info_off (length d) (base_buf ?s) = take (length d) d" by (rule S(4)) simp
    have "play_next (rtdb_head (length d)) (int (length d)) ?s = Returned (?n\<lparr>pl_fout := Some g\<rparr>)"
      using q True ld dn g(1) G unfolding play_next_def Let_def S(1,2) by simp
    then have "play_step opts fuel ha st db = Some (Returned (Goes_on, ?n\<lparr>pl_fout := Some g\<rparr>), db)" unfolding step by simp
    moreover have "copy_inv opts l iv T I there i g (?n\<lparr>pl_fout := Some g\<rparr>)"
      using V b(3,4) k(1) ld by (auto simp: copy_inv_def copying_def moved_def chunk_data_def)
    moreover have "before bs (?n\<lparr>pl_fout := Some g\<rparr>)" by (rule before_append(2) [OF a]) simp
    ultimately show ?thesis using g(2,3) True by (intro that [of "?n\<lparr>pl_fout := Some g\<rparr>" g]) simp_all
  next
    case False
    have "play_next (rtdb_head (length d)) (int (length d)) ?s = Returned ?s" using q False by (simp add: play_next_def Let_def S(2))
    then have "play_step opts fuel ha st db = Some (Returned (Goes_on, ?s), db)" unfolding step by simp
    moreover have "copy_inv opts l iv T I there 0 f ?s"
      using V b(3,4) k(1) by (auto simp: copy_inv_def copying_def moved_def chunk_data_def)
    moreover have "before bs ?s" by (rule before_append(2) [OF a]) simp
    ultimately show ?thesis using False by (intro that [of ?s f]) simp_all
  qed
qed

lemma image_rest:
  assumes v: "copy_inv opts l iv T I there r f st" and r: "r = (if there i = Some True then i else 0)" "i \<noteq> 0"
    and fl: "fits l (length raw)" and c: "is_stream_chunk c" "typed_chunk c" "cb c = int (length raw)" "raw \<noteq> []"
    and a: "before (chunk_file (c, raw) @ bs) st" and o: "length (chunk_file (c, raw)) + 1 \<le> room f"
  obtains st' f' where "play_step opts fuel ha st db = Some (Returned (Goes_on, st'), db)"
    "copy_inv opts l iv T I there 0 f' st'" "before bs st'"
    "written f' = written f @ (if there i = Some True then chunk_file (c, raw) else [])"
    "room f - length (chunk_file (c, raw)) \<le> room f'"
proof -
  let ?q = "chunk_file (c, raw)"
  have V: "copying opts st" "l \<le> length (chunk_data st)" "index_inv iv T (pl_idx st)" "rawnext_oid st = r" "pl_fout st = Some f"
    "map_rel I there (pl_map st)" "\<not> eof (pl_fp st)" "r \<noteq> 0 \<Longrightarrow> next_prebuf_size st \<le> PREBUFSZ" using v by (simp_all add: copy_inv_def)
  obtain b rc where b: "play_step opts fuel ha st db = and_then (Some (play_stream opts ha c
       (st\<lparr>pl_fp := moved (length ?q) (pl_fp st), base_buf := b, rtdbchunk := rc\<rparr>) db)) (\<lambda>st db. Some (Returned (Goes_on, st), db))"
      "take (length raw) (drop PREBUFSZ b) = raw" "length (base_buf st) \<le> length b"
    by (rule stream_step [OF V(1) before_append(1) [OF a] V(7) fits_mono [OF fl V(2)] c(2-4,1)]) auto
  define s where "s = (let s = st\<lparr>pl_fp := moved (length ?q) (pl_fp st), base_buf := b, rtdbchunk := rc\<rparr>
    in if rawnext_frame_go s \<and> frame_go s > 0 then s\<lparr>rawnext_frame_go := False, frame_go := frame_go s - 1\<rparr> else s)"
  have sf: "pl_fp s = moved (length ?q) (pl_fp st)" "base_buf s = b" "rawnext_oid s = r" "pl_map s = pl_map st" "pl_fout s = Some f"
    "next_prebuf_size s = next_prebuf_size st" "pre_buf s = pre_buf st" "pl_idx s = pl_idx st" "pl_pause s = pl_pause st"
    "pl_goto s = pl_goto st" "pl_end s = pl_end st" "frame_oid s = frame_oid st"
    using V(4,5) by (simp_all add: s_def Let_def)
  have k: "copying opts s" "\<not> pl_db opts" "\<not> pl_extract opts" using V(1) b(3) by (simp_all add: copying_def sf)
  have step: "play_step opts fuel ha st db = and_then (Some (play_stream opts ha c
       (st\<lparr>pl_fp := moved (length ?q) (pl_fp st), base_buf := b, rtdbchunk := rc\<rparr>) db)) (\<lambda>st db. Some (Returned (Goes_on, st), db))"
    by (rule b(1))
  show ?thesis
  proof (cases "there i = Some True")
    case True
    let ?n = "next_prebuf_size st"
    have rn: "r = i" "?n \<le> PREBUFSZ" using r True V(8) by simp_all
    define b3 where "b3 = put (PREBUFSZ - ?n) (take ?n (pre_buf st)) b"
    have l3: "length b3 = length b" and h3: "drop PREBUFSZ b3 = drop PREBUFSZ b"
    proof -
      have "length (take ?n (pre_buf st)) = ?n" "PREBUFSZ \<le> length b" using rn(2) V(1) b(3) by (simp_all add: copying_def)
      then show "length b3 = length b" "drop PREBUFSZ b3 = drop PREBUFSZ b" using rn(2) by (simp_all add: b3_def put_def)
    qed
    have c3: "take (length raw) (drop PREBUFSZ (base_buf (s\<lparr>base_buf := b3\<rparr>))) = raw" and o3: "pl_fout (s\<lparr>base_buf := b3\<rparr>) = Some f"
      using b(2) h3 by (simp_all add: sf)
    obtain g where g: "copy_chunk c (s\<lparr>base_buf := b3\<rparr>) = s\<lparr>base_buf := b3, pl_fout := Some g\<rparr>" "written g = written f @ ?q" "room f - length ?q \<le> room g"
      by (rule copy_chunk_ok [OF c3 c(2-4) o3 o]) auto
    let ?st' = "s\<lparr>base_buf := b3, pl_fout := Some g, rawnext_oid := 0\<rparr>"
    have q: "map_querydest i (pl_map st) \<noteq> 0" using map_rel_queries(1) [OF V(6) r(2)] True by simp
    have "play_stream opts ha c (st\<lparr>pl_fp := moved (length ?q) (pl_fp st), base_buf := b, rtdbchunk := rc\<rparr>) db = (Returned ?st', db)"
      unfolding play_stream_def s_def [unfolded Let_def, symmetric] Let_def
      using q r(2) rn(1) k(2,3) g(1) by (simp add: sf b3_def [symmetric])
    then have "play_step opts fuel ha st db = Some (Returned (Goes_on, ?st'), db)" unfolding step by simp
    moreover have "before bs ?st'" by (rule before_append(2) [OF a]) (simp add: sf)
    moreover have "copy_inv opts l iv T I there 0 g ?st'"
      using V b(3) k(1) l3 by (auto simp: copy_inv_def copying_def moved_def chunk_data_def sf)
    ultimately show ?thesis using True g(2,3) by (intro that [of ?st' g]) simp_all
  next
    case False
    then have "play_stream opts ha c (st\<lparr>pl_fp := moved (length ?q) (pl_fp st), base_buf := b, rtdbchunk := rc\<rparr>) db = (Returned s, db)"
      unfolding play_stream_def s_def [unfolded Let_def, symmetric] Let_def using r by (simp add: sf)
    then have "play_step opts fuel ha st db = Some (Returned (Goes_on, s), db)" unfolding step by simp
    moreover have "before bs s" by (rule before_append(2) [OF a]) (simp add: sf)
    moreover have "copy_inv opts l iv T I there 0 f s"
      using V b(3) k(1) r False by (auto simp: copy_inv_def copying_def moved_def chunk_data_def sf)
    ultimately show ?thesis using False by (intro that [of s f]) simp_all
  qed
qed

section \<open>The whole file\<close>

lemma stream_bytes_Cons [simp]: "stream_bytes (u # us) = unit_bytes u @ stream_bytes us"
  by (simp add: stream_bytes_def)

lemma end_step:
  assumes "copying opts st" "before [] st"
  obtains st' where "play_step opts fuel ha st db = Some (Returned (Goes_on, st'), db)" "eof (pl_fp st')" "pl_fout st' = pl_fout st" "pl_map st' = pl_map st"
proof -
  let ?fp = "(pl_fp st)\<lparr>eof := True\<rparr>"
  have "fread 8 (pl_fp st) = (0, [], ?fp)" using assms(2) by (simp add: fread_def before_def Let_def)
  then have "aviraw_fget_chunkheader (pl_fp st) = (- 1, None, ?fp)" by (simp add: aviraw_fget_chunkheader_def)
  then have "play_step opts fuel ha st db = Some (Returned (Goes_on, st\<lparr>pl_fp := ?fp\<rparr>), db)"
    using assms(1) by (simp add: play_step_def play_control_def copying_def)
  then show ?thesis by (rule that) simp_all
qed

lemma copy_run:
  assumes "copy_inv opts l iv T I there 0 f st" "spans_ok iv T" "\<forall>u \<in> set us. replayable l T I u" "before (stream_bytes us) st"
    and "length (stream_bytes us) + 1 \<le> room f" "2 * length us < n"
  shows "\<exists>st' f'. play_loop n opts fuel ha st db = Some (Returned st', db) \<and> pl_fout st' = Some f'
    \<and> written f' = written f @ stream_bytes (copied opts there us) \<and> map_rel I (fold (\<lambda>u m. live_after opts m u) us there) (pl_map st')"
  using assms
proof (induction us arbitrary: there f st n)
  case Nil
  have k: "copying opts st" "before [] st" "\<not> eof (pl_fp st)" "pl_fout st = Some f" "map_rel I there (pl_map st)"
    using Nil.prems(1,4) by (simp_all add: copy_inv_def)
  obtain st' where s: "play_step opts fuel ha st db = Some (Returned (Goes_on, st'), db)" "eof (pl_fp st')" "pl_fout st' = pl_fout st" "pl_map st' = pl_map st"
    by (rule end_step [OF k(1,2)]) auto
  obtain m where "n = Suc m" using Nil.prems(6) by (cases n) auto
  then have "play_loop n opts fuel ha st db = play_loop m opts fuel ha st' db" using loop_step [OF s(1) k(3)] by simp
  also have "\<dots> = Some (Returned st', db)" using s(2) by (cases m) simp_all
  finally show ?case using s k by simp
next
  case (Cons u us)
  have e: "\<not> eof (pl_fp st)" using Cons.prems(1) by (simp add: copy_inv_def)
  have ru: "replayable l T I u" and rs: "\<forall>u \<in> set us. replayable l T I u" using Cons.prems(3) by simp_all
  have a: "before (unit_bytes u @ stream_bytes us) st" and o: "length (unit_bytes u) + length (stream_bytes us) + 1 \<le> room f"
    using Cons.prems(4,5) by simp_all
  obtain k st' f' where s: "play_loop n opts fuel ha st db = play_loop k opts fuel ha st' db" "2 * length us < k"
    "copy_inv opts l iv T I (live_after opts there u) 0 f' st'" "before (stream_bytes us) st'"
    "written f' = written f @ (if is_copied opts there u then unit_bytes u else [])" "room f - length (unit_bytes u) \<le> room f'"
  proof (cases u)
    case (Plain ts i ty d)
    obtain m where m: "n = Suc m" "2 * length us < m" using Cons.prems(6) by (cases n) auto
    have o': "length (rtdb_bytes ts i ty d) + 1 \<le> room f" and a': "before (rtdb_bytes ts i ty d @ stream_bytes us) st"
      using o a Plain by simp_all
    show ?thesis
      by (rule plain_unit [OF Cons.prems(1,2) ru [unfolded Plain] a' o', of fuel ha db])
        (rule that, unfold m(1), rule loop_step [OF _ e], use m(2) Plain in simp_all)
  next
    case (Split ts i d c raw)
    obtain m where m: "n = Suc (Suc m)" "2 * length us < m" using Cons.prems(6) by (cases n; cases "n - 1") auto
    let ?r = "rtdb_bytes ts i STREAM_TYPE_UPDOBJ_NEXT d" and ?q = "chunk_file (c, raw)"
    have R: "fits l (length d + 16)" "in_int64 ts" "in_int32 i" "i \<noteq> 0" "ts \<in> T" "length d \<le> PREBUFSZ"
      "fits l (length raw)" "is_stream_chunk c" "typed_chunk c" "cb c = int (length raw)" "raw \<noteq> []"
      using ru Split by (auto simp: PREBUFSZ_def image_header_size_def)
    have o1: "length ?r + 1 \<le> room f" and a1: "before (?r @ ?q @ stream_bytes us) st" using o a Split by simp_all
    obtain s1 f1 where 1: "play_step opts fuel ha st db = Some (Returned (Goes_on, s1), db)"
      "copy_inv opts l iv T I there (if there i = Some True then i else 0) f1 s1" "before (?q @ stream_bytes us) s1"
      "written f1 = written f @ (if there i = Some True then ?r else [])" "room f - length ?r \<le> room f1"
      by (rule image_head [OF Cons.prems(1,2) R(1-6) a1 o1]) auto
    have e1: "\<not> eof (pl_fp s1)" using 1(2) by (simp add: copy_inv_def)
    have o2: "length ?q + 1 \<le> room f1" using o 1(5) Split by simp
    obtain s2 f2 where 2: "play_step opts fuel ha s1 db = Some (Returned (Goes_on, s2), db)" "copy_inv opts l iv T I there 0 f2 s2"
      "before (stream_bytes us) s2" "written f2 = written f1 @ (if there i = Some True then ?q else [])" "room f1 - length ?q \<le> room f2"
      by (rule image_rest [OF 1(2) refl R(4,7-11) 1(3) o2]) auto
    have "play_loop n opts fuel ha st db = play_loop m opts fuel ha s2 db"
      unfolding m(1) loop_step [OF 1(1) e] by (rule loop_step [OF 2(1) e1])
    then show ?thesis using m(2) 2 1(4,5) Split by (intro that [of m s2 f2]) simp_all
  qed
  have o'': "length (stream_bytes us) + 1 \<le> room f'" using o s(6) by linarith
  from Cons.IH [OF s(3) Cons.prems(2) rs s(4) o'' s(2)] s(1,5) show ?case by auto
qed

section \<open>The properties\<close>


lemma copied_snoc: "copied opts m (us @ [u]) =
    copied opts m us @ (if is_copied opts (fold (\<lambda>u m. live_after opts m u) us m) u then [u] else [])"
  by (induction us arbitrary: m) simp_all

definition plays_all :: "play_opts \<Rightarrow> rec_unit list \<Rightarrow> bool" where
  "plays_all opts us \<longleftrightarrow> (\<forall>ts i ty d. Plain ts i ty d \<in> set us \<longrightarrow>
     ty \<noteq> STREAM_TYPE_DELOBJ \<and> (ty \<in> info_types \<longrightarrow> oid (info_of d) = i \<and> play_wanted opts (info_of d)))"

lemma copied_all:
  assumes "recording us" "plays_all opts us"
  shows "copied opts Map.empty us = us \<and> (\<forall>i \<in> described us. fold (\<lambda>u m. live_after opts m u) us Map.empty i = Some True)
    \<and> (\<forall>i b. fold (\<lambda>u m. live_after opts m u) us Map.empty i = Some b \<longrightarrow> b)"
  using assms
proof (induction rule: recording.induct)
  case recording_Nil
  then show ?case by (simp add: described_def)
next
  case (recording_snoc us u)
  let ?m = "fold (\<lambda>u m. live_after opts m u) us Map.empty"
  have "plays_all opts us" using recording_snoc.prems by (auto simp: plays_all_def)
  from recording_snoc.IH [OF this] have I: "copied opts Map.empty us = us" "\<And>i. i \<in> described us \<Longrightarrow> ?m i = Some True" "\<And>i b. ?m i = Some b \<Longrightarrow> b"
    by auto
  show ?case
  proof (cases u)
    case (Plain ts i ty d)
    have p: "ty \<noteq> STREAM_TYPE_DELOBJ" "ty \<in> info_types \<Longrightarrow> oid (info_of d) = i \<and> play_wanted opts (info_of d)"
      using recording_snoc.prems Plain by (auto simp: plays_all_def)
    have up: "ty = STREAM_TYPE_UPDOBJ \<Longrightarrow> ?m i = Some True" using recording_snoc.hyps(3) I(2) Plain by auto
    have ia: "ty \<in> adding_types \<Longrightarrow> ty \<in> info_types" "STREAM_TYPE_RFROBJ \<in> adding_types" by (auto simp: adding_types_def info_types_def)
    have c: "is_copied opts ?m u" using Plain p up ia by simp
    have cc: "copied opts Map.empty (us @ [u]) = us @ [u]" unfolding copied_snoc using c I(1) by simp
    have D: "described (us @ [u]) = (if ty = STREAM_TYPE_RFROBJ then insert i (described us) else described us)" using Plain by simp
    have F: "fold (\<lambda>u m. live_after opts m u) (us @ [u]) Map.empty = live_after opts ?m u" by simp
    have dm: "?m i = Some True" if "i \<in> dom ?m" using that I(3) by auto
    show ?thesis
    proof (cases "ty \<in> adding_types")
      case True
      then have m': "live_after opts ?m u = (if i \<in> dom ?m then ?m else ?m(i \<mapsto> True))" using p ia Plain by simp
      have "live_after opts ?m u j = (if j = i then Some True else ?m j)" for j using dm by (simp add: m')
      then show ?thesis unfolding cc F D using I by auto
    next
      case False
      then have "live_after opts ?m u = ?m" "ty \<noteq> STREAM_TYPE_RFROBJ" using p(1) ia(2) Plain by auto
      then show ?thesis unfolding cc F D using I by auto
    qed
  next
    case (Split ts i d c raw)
    have "?m i = Some True" using recording_snoc.hyps(3) I(2) Split by simp
    then show ?thesis using I Split by (auto simp: copied_snoc)
  qed
qed


section \<open>A small recording\<close>

definition ex_play :: play_opts where
  "ex_play = \<lparr>pl_db = False, pl_extract = False, default_playit = True, pl_tids = [], pl_names = [], pl_xtids = [], pl_xnames = [],
     pl_player_oid = 0, pl_stat_oid = 0, pl_ctrl_oid = 0, pl_input = True\<rparr>"

definition ex_player :: "byte list \<Rightarrow> play_state" where
  "ex_player bs = \<lparr>pl_fp = \<lparr>content = bs, fpos = 0, eof = False, seekable = True\<rparr>, pl_fout = Some \<lparr>written = [], room = 1000\<rparr>,
     extracted = [], pl_map = map_init 10 NAME_MAXLEN, base_buf = replicate 1048 0, rtdbchunk = None, pl_init_phase = 1,
     pl_initial_ts = 0, pl_idx = Some new_timeidx, pl_begin = 0, pl_end = 0, pl_goto = 0, last_do_goto = 0, skip_pos = 0,
     pl_pause = False, pl_scan = False, pl_loop = False, keepcreated = False, pl_speed = 1, last_real_time = 0,
     last_avi_time = 0, last_time_diff = 0, naps = [], rawnext_oid = 0, rawnext_ts = 0, rawnext_frame_go = False,
     pre_buf = replicate PREBUFSZ 0, next_prebuf_size = 0, frame_oid = 0, frame_go = 0, frames = [],
     pl_statobj = replicate 48 0, ctrlobj = replicate CTRLOBJ_SIZE 0, last_ctrlobj_ts = 0\<rparr>"

definition ex_units :: "rec_unit list" where
  "ex_units = [Plain 10000000000 2 STREAM_TYPE_RFROBJ (info_bytes ex_obj), Plain 10000000000 2 STREAM_TYPE_UPDOBJ ex_data,
     Plain 10000000000 2 STREAM_TYPE_ERROR []]"

lemma ex_player_inv:
  "copy_inv (ex_play\<lparr>pl_xtids := xs\<rparr>) 1000 (f32 TIMEIDXINTERVAL_DEFAULT) {10000000000} {2} Map.empty 0 \<lparr>written = [], room = 1000\<rparr> (ex_player bs)"
proof -
  have i: "index_inv (f32 TIMEIDXINTERVAL_DEFAULT) {10000000000} (Some new_timeidx)"
    unfolding index_inv_def using new_index_ok by (intro exI [of _ new_timeidx] exI [of _ "[]"]) simp
  have m: "map_rel {2} Map.empty (map_init 10 NAME_MAXLEN)"
    using map_init_ok [of 10 NAME_MAXLEN] by (simp add: map_rel_def fun_eq_iff) (simp add: map_init_def)
  show ?thesis using i m
    by (simp add: copy_inv_def copying_def ex_play_def ex_player_def chunk_data_def PREBUFSZ_def base_size_def info_size_def)
qed

lemma ex_spans: "spans_ok (f32 TIMEIDXINTERVAL_DEFAULT) {10000000000}"
proof -
  have "bin (f32 TIMEIDXINTERVAL_DEFAULT) 10000000000 10000000000 = 0"
    by (simp add: bin_def kogmo_timestamp_diff_secs_def c_trunc_def in_int64_def)
  then show ?thesis by (simp add: spans_ok_def index_constants(2))
qed

lemma ex_typed: "typed_info ex_obj"
  by (simp add: typed_info_def ex_obj_def zero_info_def in_int32_def in_int64_def is_single_def)

lemma ex_infos: "length (info_bytes ex_obj) = 112" "info_of (info_bytes ex_obj) = ex_obj"
  using info_of_bytes [OF ex_typed] ex_typed length_info_bytes [of ex_obj] by (simp_all add: typed_info_def info_size_def)

lemma ex_wanted: "play_wanted ex_play ex_obj" "\<not> play_wanted (ex_play\<lparr>pl_xtids := [9]\<rparr>) ex_obj"
  by (simp_all add: play_wanted_def ex_play_def hits_def name_hits_def)

lemma ex_units_ok:
  "\<forall>u \<in> set ex_units. replayable 1000 {10000000000} {2} u" "length (stream_bytes ex_units) = 212" "recording ex_units" "plays_all ex_play ex_units"
  "copied (ex_play\<lparr>pl_xtids := [9]\<rparr>) Map.empty ex_units = [Plain 10000000000 2 STREAM_TYPE_ERROR []]"
proof -
  show R: "\<forall>u \<in> set ex_units. replayable 1000 {10000000000} {2} u"
    using ex_infos by (simp add: ex_units_def info_types_def stream_types info_size_def fits_def PREBUFSZ_def base_size_def in_int64_def in_int32_def)
  show "length (stream_bytes ex_units) = 212"
    using ex_infos(1) by (simp add: ex_units_def stream_bytes_def rtdb_bytes_def padding_def stream_chunk_bytes_def rtdb_chunk_def)
  have "recording []" by (rule recording_Nil)
  then have "recording ([] @ [ex_units ! 0])" by (rule recording_snoc) (use R in \<open>simp_all add: ex_units_def stream_types\<close>)
  then have "recording (([] @ [ex_units ! 0]) @ [ex_units ! 1])"
    by (rule recording_snoc) (use R in \<open>simp_all add: ex_units_def described_def\<close>)
  then have "recording ((([] @ [ex_units ! 0]) @ [ex_units ! 1]) @ [ex_units ! 2])"
    by (rule recording_snoc) (use R in \<open>simp_all add: ex_units_def stream_types\<close>)
  then show "recording ex_units" by (simp add: ex_units_def)
  show "plays_all ex_play ex_units" using ex_infos(2) ex_wanted by (auto simp: plays_all_def ex_units_def stream_types info_types_def)
  show "copied (ex_play\<lparr>pl_xtids := [9]\<rparr>) Map.empty ex_units = [Plain 10000000000 2 STREAM_TYPE_ERROR []]"
    using ex_infos(2) ex_wanted by (simp add: ex_units_def stream_types adding_types_def)
qed



end
