(* ===== verification/Recorder_Commit.thy ===== *)
theory Recorder_Commit
  imports Recorder_Props
begin

text \<open>
  From a commit to the file: the message a write sends leads the recorder to the entry it has
  committed, and the entry is what the recorder appends.
\<close>

section \<open>The message of a write\<close>

lemma writedata_message:
  assumes w: "kogmo_rtdb_obj_writedata h i data db = (Inr v, data', db')"
    and k: "kogmo_rtdb_obj_findmeta_byid i db = Some k" and l: "base_size \<le> length data"
    and tr: "rtdb_tracebufsize db \<noteq> 0" "rtdb_trace db \<noteq> 0"
  shows "hd (ipc_log db') = Mq_send \<lparr>tm_oid = i, tm_ts = commit_time db (objmeta db ! k), tm_event = TRACE_UPDATED,
    tm_obj_slot = Some (int k), tm_hist_slot = next_slot (objmeta db ! k)\<rparr>"
proof -
  have c: "commit_ts (commit_start k db) p t = commit_ts (snd (kogmo_rtdb_timestamp_now db)) p t" for p t
    by (simp add: commit_ts_def)
  have n: "rtdb_tracebufsize (commit_start k db) = rtdb_tracebufsize db" "rtdb_trace (commit_start k db) = rtdb_trace db"
    by (simp_all add: commit_start_def Let_def ipc_defs emit_def kogmo_rtdb_timestamp_now_def)
  show ?thesis
    using writedata_ok(7) [OF w k] tr n
    by (auto simp: writedata_commit_def Let_def kogmo_rtdb_obj_trace_send_def ipc_defs emit_def upd_meta_def c commit_time_def
        split: if_splits)
qed

section \<open>Reading the entry a message names\<close>

definition names_entry :: "trace_msg \<Rightarrow> rtdb \<Rightarrow> nat \<Rightarrow> nat \<Rightarrow> bool" where
  "names_entry ev db k j \<longleftrightarrow> j < length (obj_history db k) \<and> k < length (objmeta db) \<and> oid (objmeta db ! k) = tm_oid ev
     \<and> tm_obj_slot ev = Some (int k) \<and> tm_hist_slot ev = ring_slot (objmeta db ! k) j
     \<and> tm_ts ev = b_committed_ts (obj_history db k ! j)"

lemma entry_size:
  assumes ok: "obj_ok db k" and j: "j < length (obj_history db k)"
  shows "base_size \<le> length (obj_history db k ! j)" "b_size (obj_history db k ! j) = int (length (obj_history db k ! j))"
proof -
  let ?m = "objmeta db ! k" and ?e = "obj_history db k ! j"
  note H = history_entry [OF ok j]
  have l: "j < length (hist_addrs (heap db) ?m)" using j by (simp add: obj_history_def length_history)
  then have "ring_addr ?m j \<in> set (hist_addrs (heap db) ?m)" using hist_addrs_nth(1) [OF l] by (metis nth_mem)
  then have "int base_size \<le> m_size (heap db) (ring_addr ?m j)" using ok by (auto simp: obj_ok_def sizes_ok_def)
  then have "int base_size \<le> int (length ?e)" unfolding H(2) .
  then show b: "base_size \<le> length ?e" by (simp only: of_nat_le_iff)
  have eq: "?e = ldb (heap db) (ring_addr ?m j) (length ?e)" using H(2,4) by (simp add: entry_def)
  show "b_size ?e = int (length ?e)" using m_fields(3) [OF b, of "heap db" "ring_addr ?m j"] H(2) eq by simp
qed

lemma look_at_entry:
  assumes ok: "obj_ok db k" and e: "names_entry ev db k j"
  defines "s \<equiv> \<lparr>s_oid = tm_oid ev, s_committed_ts = tm_ts ev, s_object_slot = int k, s_history_slot = tm_hist_slot ev\<rparr>"
  shows "kogmo_rtdb_obj_readdataslot_ptr (- 1) 0 s db =
    Some (Inr (int (length (obj_history db k ! j))), s, Some (ring_addr (objmeta db ! k) j))"
    "at_entry db k j s"
proof -
  let ?m = "objmeta db ! k"
  have r: "ring_ok ?m" using ok by (simp add: obj_ok_def)
  have j: "j < length (obj_history db k)" using e by (simp add: names_entry_def)
  note H = history_entry [OF ok j]
  have hs: "history_size ?m \<noteq> 0" using ring_okD(2) [OF r] by simp
  have mv: "c_rem (int32 (int32 (ring_slot ?m j + c_rem 0 (history_size ?m)) + history_size ?m)) (history_size ?m) = ring_slot ?m j"
    by (rule ring_slot_move [OF r]) (use ring_okD(2) [OF r] in simp_all)
  show "kogmo_rtdb_obj_readdataslot_ptr (- 1) 0 s db =
    Some (Inr (int (length (obj_history db k ! j))), s, Some (ring_addr ?m j))"
    using e hs mv H by (simp add: kogmo_rtdb_obj_readdataslot_ptr_def slot_step_def names_entry_def s_def Let_def slot_addr_ring [OF r])
  show "at_entry db k j s" using e by (simp add: at_entry_def names_entry_def s_def)
qed

lemma read_slot_entry:
  assumes ok: "obj_ok db k" and e: "names_entry ev db k j" and l: "length (obj_history db k ! j) \<le> length (obj_data st)"
  shows "read_slot ev st db = Returned (st\<lparr>olen := int (length (obj_history db k ! j)),
    obj_data := obj_history db k ! j @ drop (length (obj_history db k ! j)) (obj_data st)\<rparr>)"
proof -
  let ?m = "objmeta db ! k" and ?e = "obj_history db k ! j"
  let ?s = "\<lparr>s_oid = tm_oid ev, s_committed_ts = tm_ts ev, s_object_slot = int k, s_history_slot = tm_hist_slot ev\<rparr>"
  note L = look_at_entry [OF ok e]
  have j: "j < length (obj_history db k)" using e by (simp add: names_entry_def)
  have r: "ring_ok ?m" using ok by (simp add: obj_ok_def)
  note H = history_entry [OF ok j]
  have eq: "?e = ldb (heap db) (ring_addr ?m j) (length ?e)"
    using H(2,4) by (simp add: entry_def)
  have pos: "0 < length ?e" using entry_size(1) [OF ok j] unfolding base_size_def by linarith
  have 2: "kogmo_rtdb_obj_readdataslot_ptr 1 0 ?s db = Some (Inr (int (length ?e)), ?s\<lparr>s_history_slot := ring_slot ?m j, s_committed_ts := b_committed_ts ?e\<rparr>, Some (ring_addr ?m j))"
    using step_to_entry [OF ok L(2) j, of 0] ring_okD(2) [OF r] by simp
  have "copy_data (ring_addr ?m j) (int (length ?e)) (heap db) (obj_data st) = ?e @ drop (length ?e) (obj_data st)"
  proof (cases "length ?e < length (obj_data st)")
    case True then show ?thesis by (simp add: copy_data_def eq [symmetric])
  next
    case False
    with l have "length (obj_data st) = length ?e" by simp
    then show ?thesis by (simp add: copy_data_def eq [symmetric])
  qed
  then show ?thesis using L(1) 2 pos e by (simp add: read_slot_def names_entry_def)
qed

section \<open>Appending it\<close>

lemma length_stream_chunk: "length (stream_chunk_bytes (rtdb_chunk ts i ty n)) = 24"
  by (simp add: stream_chunk_bytes_def rtdb_chunk_def)

lemma fput_rtdb_ok:
  assumes "length d + 25 \<le> room f"
  obtains f' where "aviraw_fput_rtdb ts i ty d (Some f) = Returned (0, Some f')" "written f' = written f @ rtdb_bytes ts i ty d"
    "room f - (length d + 25) \<le> room f'"
proof -
  let ?c = "stream_chunk_bytes (rtdb_chunk ts i ty (length d))"
  let ?f1 = "f\<lparr>written := written f @ ?c, room := room f - 24\<rparr>"
  let ?f2 = "f\<lparr>written := written f @ ?c @ d, room := room f - 24 - length d\<rparr>"
  have 1: "fwrite ?c f = (1, ?f1)" using assms stream_chunk_nonempty by (simp add: fwrite_ok length_stream_chunk)
  have 2: "(if d \<noteq> [] then fwrite d ?f1 else (1, ?f1)) = (1, ?f2)" using assms by (auto simp: fwrite_ok)
  have 3: "(if odd (length d) then fwrite [0] ?f2 else (1, ?f2)) =
    (1, ?f2\<lparr>written := written f @ rtdb_bytes ts i ty d, room := room f - 24 - length d - length (padding d)\<rparr>)"
    using assms by (auto simp: fwrite_ok rtdb_bytes_def padding_def)
  have w: "aviraw_fput_rtdb ts i ty d (Some f) =
      Returned (0, Some (?f2\<lparr>written := written f @ rtdb_bytes ts i ty d, room := room f - 24 - length d - length (padding d)\<rparr>))"
    unfolding aviraw_fput_rtdb_def option.case 1 2 3 prod.case by simp
  have "room f - (length d + 25) \<le> room f - 24 - length d - length (padding d)" by (simp add: padding_def diff_le_mono2)
  then show ?thesis by (intro that [OF w]) simp_all
qed

lemma put_rtdb_ok:
  assumes "rfp st = Some f" "length d + 25 \<le> room f"
  obtains f' where "put_rtdb ev ty d st = Returned (st\<lparr>rfp := Some f'\<rparr>)" "written f' = written f @ rtdb_bytes (tm_ts ev) (tm_oid ev) ty d"
    "room f - (length d + 25) \<le> room f'"
proof -
  obtain f' where f': "aviraw_fput_rtdb (tm_ts ev) (tm_oid ev) ty d (Some f) = Returned (0, Some f')"
    "written f' = written f @ rtdb_bytes (tm_ts ev) (tm_oid ev) ty d" "room f - (length d + 25) \<le> room f'"
    using fput_rtdb_ok [OF assms(2)] by metis
  show ?thesis by (rule that [OF _ f'(2,3)]) (simp add: put_rtdb_def assms(1) f'(1))
qed

text \<open>An update of an object that is neither a video stream nor raw.\<close>

lemma put_known_ok:
  assumes "rfp st = Some f" "tm_event ev = TRACE_UPDATED" "0 < tm_oid ev" "tm_oid ev \<in> set (knownid st) \<or> 0 \<in> set (knownid st)"
    and "length (name (rec_info st)) = NAME_MAXLEN" "info_size + 25 \<le> room f"
  obtains f' ks where "put_known ev st = Returned (st\<lparr>knownid := ks, rfp := Some f'\<rparr>)" "tm_oid ev \<in> set ks"
    "written f' = written f @ (if tm_oid ev \<in> set (knownid st) then []
       else rtdb_bytes (tm_ts ev) (tm_oid ev) STREAM_TYPE_RFROBJ (info_bytes (rec_info st)))"
    "room f - (info_size + 25) \<le> room f'"
proof (cases "tm_oid ev \<in> set (knownid st)")
  case True
  show ?thesis by (rule that [of f "knownid st"]) (use assms True in \<open>simp_all add: put_known_def known_obj_def\<close>)
next
  case False
  then obtain n where n: "scan_first (\<lambda>k. k = 0) (knownid st) = Some n" "n < length (knownid st)"
    using assms(4) scan_first_None [of "\<lambda>k. k = 0" "knownid st"]
    by (cases "scan_first (\<lambda>k. k = 0) (knownid st)") (auto simp: scan_first_Some)
  let ?ks = "(knownid st)[n := tm_oid ev]"
  obtain f' where f': "put_rtdb ev STREAM_TYPE_RFROBJ (info_bytes (rec_info st)) (st\<lparr>knownid := ?ks\<rparr>)
      = Returned (st\<lparr>knownid := ?ks, rfp := Some f'\<rparr>)"
    "written f' = written f @ rtdb_bytes (tm_ts ev) (tm_oid ev) STREAM_TYPE_RFROBJ (info_bytes (rec_info st))"
    "room f - (info_size + 25) \<le> room f'"
    using put_rtdb_ok [of "st\<lparr>knownid := ?ks\<rparr>" f "info_bytes (rec_info st)" ev STREAM_TYPE_RFROBJ] assms(1,5,6) by auto
  have k: "known_obj (tm_oid ev) (knownid st) = Returned (0, ?ks)" using assms(3) False n(1) by (simp add: known_obj_def)
  show ?thesis
    by (rule that [of f' ?ks]) (use assms(1,2) f' k n(2) False in \<open>simp_all add: put_known_def set_update_memI\<close>)
qed

lemma handle_update:
  assumes ok: "obj_ok db k" and e: "names_entry ev db k j" and ev: "tm_event ev = TRACE_UPDATED" "0 < tm_oid ev"
    and k: "kogmo_rtdb_obj_findmeta_byid (tm_oid ev) db = Some k"
    and alive: "created_ts (objmeta db ! k) \<le> tm_ts ev" "deleted_ts (objmeta db ! k) = 0 \<or> tm_ts ev \<le> deleted_ts (objmeta db ! k)" "tm_ts ev \<noteq> 0"
    and st: "rfp st = Some f" "\<not> init_phase st" "record_enable st" "tm_oid ev \<in> set (knownid st) \<or> 0 \<in> set (knownid st)"
    and sel: "select_object opts (tm_oid ev) (objmeta db ! k) = (Suc n, 0, False)" "do_waitobject opts = None"
    and sz: "length (obj_history db k ! j) \<le> length (obj_data st)" "length (name (objmeta db ! k)) = NAME_MAXLEN"
    and rm: "info_size + length (obj_history db k ! j) + 50 \<le> room f"
  shows "\<exists>st' f'. map_option fst (handle_event opts fuel h ev st db) = Some (Returned (Goes_on, st')) \<and> rfp st' = Some f'
    \<and> written f' = written f @ (if tm_oid ev \<in> set (knownid st) then []
         else rtdb_bytes (tm_ts ev) (tm_oid ev) STREAM_TYPE_RFROBJ (info_bytes (objmeta db ! k)))
       @ rtdb_bytes (tm_ts ev) (tm_oid ev) STREAM_TYPE_UPDOBJ (obj_history db k ! j)
    \<and> tm_oid ev \<in> set (knownid st') \<and> lost_messages st' = lost_messages st"
proof -
  let ?m = "objmeta db ! k" and ?e = "obj_history db k ! j"
  let ?db = "kogmo_rtdb_objmeta_unlock (kogmo_rtdb_objmeta_lock db)"
  have same: "kogmo_rtdb_obj_findmeta_byid i ?db = kogmo_rtdb_obj_findmeta_byid i db" "objmeta ?db = objmeta db" "heap ?db = heap db" for i
    by (simp_all add: ipc_defs emit_def kogmo_rtdb_obj_findmeta_byid_def)
  have R: "kogmo_rtdb_obj_readinfo h (tm_oid ev) (tm_ts ev) (rec_info st) db = (Inr 0, ?m, ?db)"
    using k alive by (auto simp: kogmo_rtdb_obj_readinfo_def kogmo_rtdb_obj_findmeta_byid_def ipc_defs emit_def Let_def)
  let ?st1 = "st\<lparr>rec_info := ?m, events_total := events_total st + 1\<rparr>"
  have S: "obj_ok ?db k" "names_entry ev ?db k j" "obj_history ?db k = obj_history db k"
    using ok e same by (simp_all add: obj_ok_def names_entry_def obj_history_def)
  let ?st2 = "?st1\<lparr>olen := int (length ?e), obj_data := ?e @ drop (length ?e) (obj_data st)\<rparr>"
  have D: "read_update fuel h ev ?st1 ?db = Some (Returned ?st2, ?db)"
    using read_slot_entry [OF S(1,2), of ?st1] S(3) sz(1) st(2) by (simp add: read_update_def check_data_def)
  let ?st3 = "?st2\<lparr>events_total_written := events_total_written st + 1\<rparr>"
  obtain f1 ks where K: "put_known ev ?st3 = Returned (?st3\<lparr>knownid := ks, rfp := Some f1\<rparr>)" "tm_oid ev \<in> set ks"
    "written f1 = written f @ (if tm_oid ev \<in> set (knownid ?st3) then []
       else rtdb_bytes (tm_ts ev) (tm_oid ev) STREAM_TYPE_RFROBJ (info_bytes (rec_info ?st3)))" "room f - (info_size + 25) \<le> room f1"
  proof (rule put_known_ok [of ?st3 f ev])
    show "rfp ?st3 = Some f" "tm_oid ev \<in> set (knownid ?st3) \<or> 0 \<in> set (knownid ?st3)"
      "length (name (rec_info ?st3)) = NAME_MAXLEN" "info_size + 25 \<le> room f" using st sz(2) rm by simp_all
  qed (use ev in blast)+
  let ?st4 = "?st3\<lparr>knownid := ks, rfp := Some f1\<rparr>"
  obtain f2 where P: "put_rtdb ev STREAM_TYPE_UPDOBJ ?e ?st4 = Returned (?st4\<lparr>rfp := Some f2\<rparr>)"
    "written f2 = written f1 @ rtdb_bytes (tm_ts ev) (tm_oid ev) STREAM_TYPE_UPDOBJ ?e"
  proof (rule put_rtdb_ok [of ?st4 f1 ?e ev STREAM_TYPE_UPDOBJ])
    show "length ?e + 25 \<le> room f1" using K(4) rm by linarith
  qed simp_all
  have j: "j < length (obj_history db k)" using e by (simp add: names_entry_def)
  note B = entry_size [OF ok j]
  have bs: "b_size (?e @ drop (length ?e) (obj_data st)) = int (length ?e)"
    using b_size_take [OF B(1), of "?e @ drop (length ?e) (obj_data st)"] B(2) by simp
  have ne: "?e \<noteq> []" using B(1) by (auto simp: base_size_def)
  have U: "put_update ev 0 False ?st4 = Returned (?st4\<lparr>rfp := Some f2\<rparr>)"
    using P(1) bs by (simp add: put_update_def put_raw_def)
  have E: "put_event ev 0 False ?st2 = Returned (?st4\<lparr>rfp := Some f2\<rparr>)"
    using K(1) U ev(1) ne by (simp add: put_event_def)
  have "record_object opts fuel h ev ?st1 ?db = Some (Returned (?st4\<lparr>rfp := Some f2\<rparr>), ?db)"
    using sel(1) D E ev(1) by (simp add: record_object_def log_event_def)
  then have "handle_event opts fuel h ev st db = Some (Returned (Goes_on, ?st4\<lparr>rfp := Some f2\<rparr>), ?db)"
    using R sel(2) st(3) by (simp add: handle_event_def wait_object_def)
  then show ?thesis using P(2) K(2,3) by auto
qed

section \<open>The property\<close>

text \<open>
  The entry an object got in \<open>db1\<close> is entry \<open>j\<close> of its history in \<open>db2\<close>, in its old slot; the object
  is the same and was not deleted before the commit.
\<close>

definition still_there :: "rtdb \<Rightarrow> rtdb \<Rightarrow> int \<Rightarrow> nat \<Rightarrow> nat \<Rightarrow> bool" where
  "still_there db1 db2 i k j \<longleftrightarrow> obj_ok db2 k \<and> kogmo_rtdb_obj_findmeta_byid i db2 = Some k
     \<and> j < length (obj_history db2 k) \<and> obj_history db2 k ! j = hd (obj_history db1 k)
     \<and> ring_slot (objmeta db2 ! k) j = history_slot (objmeta db1 ! k)
     \<and> created_ts (objmeta db2 ! k) \<le> b_committed_ts (hd (obj_history db1 k))
     \<and> (deleted_ts (objmeta db2 ! k) = 0 \<or> b_committed_ts (hd (obj_history db1 k)) \<le> deleted_ts (objmeta db2 ! k))
     \<and> length (name (objmeta db2 ! k)) = NAME_MAXLEN"

text \<open>The recorder is past the initial objects and has room for the object and for what it writes.\<close>

definition can_record :: "int \<Rightarrow> nat \<Rightarrow> out_file \<Rightarrow> rec_state \<Rightarrow> bool" where
  "can_record i n f st \<longleftrightarrow> rfp st = Some f \<and> \<not> init_phase st \<and> record_enable st \<and> (i \<in> set (knownid st) \<or> 0 \<in> set (knownid st))
     \<and> n \<le> length (obj_data st) \<and> info_size + n + 50 \<le> room f"

lemma commit_recorded:
  assumes w: "kogmo_rtdb_obj_writedata h i data db = (Inr v, data', db1)"
    and k: "kogmo_rtdb_obj_findmeta_byid i db = Some k" and ok: "obj_ok db k"
    and t: "time_ok (fst (kogmo_rtdb_timestamp_now db))" and l: "b_size data \<le> int (length data)"
    and tr: "rtdb_tracebufsize db \<noteq> 0" "rtdb_trace db \<noteq> 0" "0 < i"
    and db2: "still_there db1 db2 i k j" and st: "can_record i (nat (b_size data)) f st"
    and sel: "select_object opts i (objmeta db2 ! k) = (Suc n, 0, False)" "do_waitobject opts = None"
  shows "\<exists>msg st' f'. hd (ipc_log db1) = Mq_send msg
    \<and> map_option fst (handle_event opts fuel h2 msg st db2) = Some (Returned (Goes_on, st')) \<and> rfp st' = Some f'
    \<and> written f' = written f
       @ (if i \<in> set (knownid st) then [] else rtdb_bytes (commit_time db (objmeta db ! k)) i STREAM_TYPE_RFROBJ (info_bytes (objmeta db2 ! k)))
       @ rtdb_bytes (commit_time db (objmeta db ! k)) i STREAM_TYPE_UPDOBJ (committed (commit_time db (objmeta db ! k)) (commit_bytes h data))
    \<and> i \<in> set (knownid st') \<and> lost_messages st' = lost_messages st"
proof -
  let ?m = "objmeta db ! k"
  let ?ts = "commit_time db ?m" and ?e = "committed (commit_time db ?m) (commit_bytes h data)"
  note O = writedata_ok [OF w k]
  have bl: "base_size \<le> length data" using O(5) l by simp
  note H = writedata_history [OF w k ok t l] and C = commit_bytes_fields [OF O(5) l, of h] and T = commit_time_ok [OF t, of ?m]
  have cap: "0 < nat (history_size ?m)" using ok ring_okD(2) [of ?m] by (simp add: obj_ok_def)
  have hd: "hd (obj_history db1 k) = ?e" using H(1) cap by (cases "nat (history_size ?m)") simp_all
  have kl: "k < length (objmeta db)" using k by (auto simp: kogmo_rtdb_obj_findmeta_byid_def)
  have m1: "objmeta db1 ! k = advanced ?m" using writedata_db(1) [OF w k bl] kl by simp
  have lb: "base_size \<le> length (commit_bytes h data)" using C(1) O(5) by simp
  have ts: "b_committed_ts ?e = ?ts" using committed_fields(1) [OF lb] T by (simp add: in_int64_def)
  have le: "length ?e = nat (b_size data)" using C(1) lb by simp
  let ?msg = "\<lparr>tm_oid = i, tm_ts = ?ts, tm_event = TRACE_UPDATED, tm_obj_slot = Some (int k), tm_hist_slot = next_slot ?m\<rparr>"
  have msg: "hd (ipc_log db1) = Mq_send ?msg" by (rule writedata_message [OF w k bl tr(1,2)])
  have D: "obj_ok db2 k" "kogmo_rtdb_obj_findmeta_byid i db2 = Some k" "obj_history db2 k ! j = ?e"
    "created_ts (objmeta db2 ! k) \<le> ?ts" "deleted_ts (objmeta db2 ! k) = 0 \<or> ?ts \<le> deleted_ts (objmeta db2 ! k)"
    "length (name (objmeta db2 ! k)) = NAME_MAXLEN" "j < length (obj_history db2 k)"
    "ring_slot (objmeta db2 ! k) j = next_slot ?m"
    using db2 hd ts m1 by (simp_all add: still_there_def advanced_def)
  have "k < length (objmeta db2) \<and> oid (objmeta db2 ! k) = i"
    using D(2) by (auto simp: kogmo_rtdb_obj_findmeta_byid_def scan_first_Some)
  then have e: "names_entry ?msg db2 k j" using D ts by (simp add: names_entry_def)
  have "\<exists>st' f'. map_option fst (handle_event opts fuel h2 ?msg st db2) = Some (Returned (Goes_on, st')) \<and> rfp st' = Some f'
    \<and> written f' = written f @ (if tm_oid ?msg \<in> set (knownid st) then []
         else rtdb_bytes (tm_ts ?msg) (tm_oid ?msg) STREAM_TYPE_RFROBJ (info_bytes (objmeta db2 ! k)))
       @ rtdb_bytes (tm_ts ?msg) (tm_oid ?msg) STREAM_TYPE_UPDOBJ (obj_history db2 k ! j)
    \<and> tm_oid ?msg \<in> set (knownid st') \<and> lost_messages st' = lost_messages st"
    by (rule handle_update [OF D(1) e]) (use D st sel tr(3) T(1) le in \<open>simp_all add: can_record_def\<close>)
  with msg show ?thesis unfolding D(3) trace_msg.select_convs by (intro exI [of _ ?msg]) blast
qed

text \<open>
  C33: What a process commits is recorded. A successful write with tracing on sends a message, and
  when the recorder handles it, at a time the entry has not been overwritten, it appends the entry
  as committed, with the commit time and the object's id, and before it the metadata when the object
  is new to the file; no message counts as lost.
\<close>
theorem commit_is_recorded:
  assumes w: "kogmo_rtdb_obj_writedata h i data db = (Inr v, data', db1)"
    and k: "kogmo_rtdb_obj_findmeta_byid i db = Some k" and ok: "obj_ok db k"
    and t: "time_ok (fst (kogmo_rtdb_timestamp_now db))" and l: "b_size data \<le> int (length data)"
    and tr: "rtdb_tracebufsize db \<noteq> 0" "rtdb_trace db \<noteq> 0" "0 < i"
    and db2: "still_there db1 db2 i k j" and st: "can_record i (nat (b_size data)) f st"
    and sel: "select_object opts i (objmeta db2 ! k) = (Suc n, 0, False)" "do_waitobject opts = None"
  shows "\<exists>msg st' f'. hd (ipc_log db1) = Mq_send msg
    \<and> map_option fst (handle_event opts fuel h2 msg st db2) = Some (Returned (Goes_on, st')) \<and> rfp st' = Some f'
    \<and> written f' = written f
       @ (if i \<in> set (knownid st) then [] else rtdb_bytes (commit_time db (objmeta db ! k)) i STREAM_TYPE_RFROBJ (info_bytes (objmeta db2 ! k)))
       @ rtdb_bytes (commit_time db (objmeta db ! k)) i STREAM_TYPE_UPDOBJ (committed (commit_time db (objmeta db ! k)) (commit_bytes h data))
    \<and> i \<in> set (knownid st') \<and> lost_messages st' = lost_messages st"
  by (rule commit_recorded [OF assms])

section \<open>An example\<close>

definition ex_traced :: rtdb where
  "ex_traced = ex_db\<lparr>rtdb_trace := 1, rtdb_tracebufsize := 300\<rparr>"

definition ex_traced1 :: rtdb where
  "ex_traced1 = snd (snd (kogmo_rtdb_obj_writedata ex_h 2 ex_data ex_traced))"

definition ex_opts :: rec_opts where
  "ex_opts = \<lparr>do_all = True, do_log = False, do_raw = 0, do_seconds = 0, do_waitobject = None, oid_list = [], tid_list = [],
     name_list = [], xoid_list = [], xtid_list = [], xname_list = [], oid_stream = [], stat_oid = 0, tracebufsize = 300\<rparr>"

definition ex_rec :: rec_state where
  "ex_rec = \<lparr>knownid = replicate 3 0, olen = 0, obj_data = replicate 64 0, rec_info = zero_info, statobj = [],
     last_status_ts = 10000000000, lost_messages = 0, events_total = 0, events_total_written = 0, record_enable = True,
     init_phase = False, initial_ts = 9000000000, initial_objects = [], rfp = Some \<lparr>written = [], room = 1000\<rparr>\<rparr>"

lemma ex_traced_facts [simp]:
  "kogmo_rtdb_obj_findmeta_byid 2 ex_traced = Some 1" "objmeta ex_traced = objmeta ex_db" "heap ex_traced = heap ex_db"
  "fst (kogmo_rtdb_timestamp_now ex_traced) = 10000000000" "obj_ok ex_traced 1" "commit_time ex_traced ex_obj = 10000000000"
  "rtdb_trace ex_traced = 1" "rtdb_tracebufsize ex_traced = 300"
proof -
  have n: "kogmo_rtdb_timestamp_now ex_traced = (10000000000, ex_traced\<lparr>ticks := 1\<rparr>)"
    by (simp add: ex_traced_def ex_db_def kogmo_rtdb_timestamp_now_def kogmo_timestamp_now_def TICKSPERSECOND_def in_int64_def)
  then show "fst (kogmo_rtdb_timestamp_now ex_traced) = 10000000000" by simp
  show "commit_time ex_traced ex_obj = 10000000000"
    by (simp add: commit_time_def commit_ts_def m_committed_ts_def n) (simp add: ex_traced_def)
  show "obj_ok ex_traced 1" using ex_obj_ok by (simp add: obj_ok_def ex_traced_def)
  show "kogmo_rtdb_obj_findmeta_byid 2 ex_traced = Some 1"
    using ex_find(2) by (simp add: ex_traced_def kogmo_rtdb_obj_findmeta_byid_def)
qed (simp_all add: ex_traced_def)

lemma ex_traced_write: "kogmo_rtdb_obj_writedata ex_h 2 ex_data ex_traced
    = (Inr 0, fst (snd (kogmo_rtdb_obj_writedata ex_h 2 ex_data ex_traced)), ex_traced1)"
proof -
  have "fst (kogmo_rtdb_obj_writedata ex_h 2 ex_data ex_traced) = Inr 0"
    by (simp add: writedata_result Let_def too_fast_def base_size_def)
  then show ?thesis by (simp add: ex_traced1_def prod_eq_iff)
qed

lemma ex_traced1_facts:
  "obj_ok ex_traced1 1" "obj_history ex_traced1 1 = [committed 10000000000 (commit_bytes ex_h ex_data)]"
  "objmeta ex_traced1 = [ex_root, advanced ex_obj, ex_child, zero_info]" "kogmo_rtdb_obj_findmeta_byid 2 ex_traced1 = Some 1"
proof -
  have t: "time_ok (fst (kogmo_rtdb_timestamp_now ex_traced))" by (simp add: time_ok_def)
  note H = writedata_history [OF ex_traced_write ex_traced_facts(1,5) t ex_data_len]
  show "obj_ok ex_traced1 1" by (rule H(2))
  show "obj_history ex_traced1 1 = [committed 10000000000 (commit_bytes ex_h ex_data)]"
    using H(1) by (simp add: obj_history_def history_def)
  show m: "objmeta ex_traced1 = [ex_root, advanced ex_obj, ex_child, zero_info]"
    using writedata_db(1) [OF ex_traced_write ex_traced_facts(1)] by (simp add: base_size_def)
  show "kogmo_rtdb_obj_findmeta_byid 2 ex_traced1 = Some 1" by (simp add: kogmo_rtdb_obj_findmeta_byid_def m)
qed

lemma ex_still_there: "still_there ex_traced1 ex_traced1 2 1 0"
proof -
  have lb: "base_size \<le> length (commit_bytes ex_h ex_data)"
    using commit_bytes_fields(1) [of ex_data ex_h] by (simp add: base_size_def)
  have "b_committed_ts (committed 10000000000 (commit_bytes ex_h ex_data)) = 10000000000"
    using committed_fields(1) [OF lb] by (simp add: in_int64_def)
  moreover have "created_ts (advanced ex_obj) = 6000000000" "length (name (advanced ex_obj)) = NAME_MAXLEN"
    by (simp_all add: advanced_def) (simp add: ex_obj_def length_strncpy)
  ultimately show ?thesis using ex_traced1_facts
    by (simp add: still_there_def ring_slot_def next_slot_def c_rem_def)
qed

lemmas ex_select_defs = select_object_def ex_opts_def ex_traced1_facts tool_object_def hits_def name_hits_def advanced_def Let_def
  OBJTYPE_C3_RECORDERSTAT_def OBJTYPE_C3_RECORDERCTRL_def OBJTYPE_C3_PLAYERSTAT_def OBJTYPE_C3_PLAYERCTRL_def

lemma ex_select: "select_object ex_opts 2 (objmeta ex_traced1 ! 1) = (Suc 0, 0, False)"
  by (simp add: ex_select_defs)

theorem commit_is_recorded_witness:
  "\<exists>msg st' f'. hd (ipc_log ex_traced1) = Mq_send msg
    \<and> map_option fst (handle_event ex_opts 0 ex_h msg ex_rec ex_traced1) = Some (Returned (Goes_on, st')) \<and> rfp st' = Some f'
    \<and> written f' = rtdb_bytes 10000000000 2 STREAM_TYPE_RFROBJ (info_bytes (advanced ex_obj))
       @ rtdb_bytes 10000000000 2 STREAM_TYPE_UPDOBJ (committed 10000000000 (commit_bytes ex_h ex_data))"
proof -
  have t: "time_ok (fst (kogmo_rtdb_timestamp_now ex_traced))" by (simp add: time_ok_def)
  have c: "can_record 2 (nat (b_size ex_data)) \<lparr>written = [], room = 1000\<rparr> ex_rec"
    by (simp add: can_record_def ex_rec_def info_size_def)
  show ?thesis
    using commit_is_recorded [OF ex_traced_write ex_traced_facts(1,5) t ex_data_len _ _ _ ex_still_there c ex_select, of 0 ex_h]
    by (auto simp: ex_traced1_facts ex_rec_def ex_opts_def)
qed

section \<open>A run\<close>

text \<open>
  C34: However the database and the messages change, what the recorder has appended to its file is a
  recording: a sequence of whole, padded chunks, each of a form the player knows, with the metadata
  of an object before its first update.
\<close>
theorem recording_wellformed:
  assumes "recorder_run opts h st st'" "rfp st = Some f" "set (knownid st) \<subseteq> {0}"
    and "image_header_size \<le> length (obj_data st)" "length (obj_data st) < 2 ^ 31" "length (name (rec_info st)) = NAME_MAXLEN"
  shows "\<exists>us f'. rfp st' = Some f' \<and> written f' = written f @ stream_bytes us \<and> recording us"
proof -
  have "rec_inv (written f) [] st" using assms(2-) by (auto simp: rec_inv_def recording_Nil)
  then have "rec_ok (written f) st" by (auto simp: rec_ok_def)
  from recorder_run_ok [OF assms(1) this] show ?thesis by (auto simp: rec_ok_def rec_inv_def)
qed

definition ex_msg :: trace_msg where
  "ex_msg = \<lparr>tm_oid = 2, tm_ts = 10000000000, tm_event = TRACE_UPDATED, tm_obj_slot = Some 1, tm_hist_slot = 0\<rparr>"

lemma ex_named: "names_entry ex_msg ex_traced1 1 0"
proof -
  have "b_committed_ts (committed 10000000000 (commit_bytes ex_h ex_data)) = 10000000000"
    using committed_fields(1) [of "commit_bytes ex_h ex_data"] commit_bytes_fields(1) [of ex_data ex_h] by (simp add: base_size_def in_int64_def)
  then show ?thesis using ex_traced1_facts by (simp add: names_entry_def ex_msg_def advanced_def ring_slot_def next_slot_def c_rem_def)
qed

lemma ex_recorded: "\<exists>st'. map_option fst (handle_event ex_opts 0 ex_h ex_msg ex_rec ex_traced1) = Some (Returned (Goes_on, st'))
    \<and> 2 \<in> set (knownid st')"
proof -
  let ?m = "objmeta ex_traced1 ! 1"
  have "length (commit_bytes ex_h ex_data) = 28" using commit_bytes_fields(1) [of ex_data ex_h] by (simp add: base_size_def)
  then have le: "length (obj_history ex_traced1 1 ! 0) = 28" using ex_traced1_facts(2) by (simp add: base_size_def)
  have m: "created_ts ?m = 6000000000" "deleted_ts ?m = 0" "length (name ?m) = NAME_MAXLEN"
    by (simp_all add: ex_traced1_facts advanced_def) (simp add: ex_obj_def length_strncpy)
  have "\<exists>st' f'. map_option fst (handle_event ex_opts 0 ex_h ex_msg ex_rec ex_traced1) = Some (Returned (Goes_on, st')) \<and> rfp st' = Some f'
    \<and> written f' = [] @ (if tm_oid ex_msg \<in> set (knownid ex_rec) then []
         else rtdb_bytes (tm_ts ex_msg) (tm_oid ex_msg) STREAM_TYPE_RFROBJ (info_bytes ?m))
       @ rtdb_bytes (tm_ts ex_msg) (tm_oid ex_msg) STREAM_TYPE_UPDOBJ (obj_history ex_traced1 1 ! 0)
    \<and> tm_oid ex_msg \<in> set (knownid st') \<and> lost_messages st' = lost_messages ex_rec"
    using handle_update [OF ex_traced1_facts(1) ex_named, where f = "\<lparr>written = [], room = 1000\<rparr>" and st = ex_rec
        and opts = ex_opts and n = 0 and fuel = 0 and h = ex_h]
      m ex_select le ex_traced1_facts(4) by (simp add: ex_rec_def ex_msg_def ex_opts_def info_size_def)
  then show ?thesis by (auto simp: ex_msg_def)
qed

lemma ex_step:
  assumes "map_option fst (handle_event ex_opts 0 ex_h ex_msg ex_rec ex_traced1) = Some (Returned (nx, st'))"
  shows "\<exists>db'. record_step ex_opts 0 ex_h True 0 ex_msg 0 ex_rec ex_traced1 = Some (Returned (nx, st'), db')"
proof -
  have tr: "rtdb_tracebufsize ex_traced1 = 300" "rtdb_trace ex_traced1 = 1" by code_simp+
  have n: "next_event ex_h True 0 ex_msg 0 ex_rec ex_traced1 = Returned (300, ex_msg, ex_rec, ex_traced1)"
    by (simp add: next_event_def next_initial_def kogmo_rtdb_obj_trace_receive_def tr) (simp add: ex_rec_def)
  have "kogmo_timestamp_diff_secs 10000000000 10000000000 = 0" by (simp add: kogmo_timestamp_diff_secs_def f64_def int64_def)
  moreover have "0 < STAT_CYCLE_TIME" by code_simp
  ultimately have u: "update_status ex_opts ex_h 300 (tm_ts ex_msg) ex_rec ex_traced1 = Returned (ex_rec, ex_traced1)"
    by (simp add: update_status_def ex_msg_def ex_rec_def)
  obtain db' where "handle_event ex_opts 0 ex_h ex_msg ex_rec ex_traced1 = Some (Returned (nx, st'), db')"
    using assms by auto
  then show ?thesis using n u by (simp add: record_step_def ex_opts_def)
qed

theorem recording_wellformed_witness:
  "\<exists>st' us f'. recorder_run ex_opts ex_h ex_rec st' \<and> st' \<noteq> ex_rec \<and> rfp st' = Some f' \<and> written f' = stream_bytes us \<and> recording us"
proof -
  obtain st' where 1: "map_option fst (handle_event ex_opts 0 ex_h ex_msg ex_rec ex_traced1) = Some (Returned (Goes_on, st'))" "2 \<in> set (knownid st')"
    using ex_recorded by blast
  then obtain db' where s: "record_step ex_opts 0 ex_h True 0 ex_msg 0 ex_rec ex_traced1 = Some (Returned (Goes_on, st'), db')"
    using ex_step by blast
  have "names_ok ex_traced1"
    by (simp add: names_ok_def ex_traced1_facts advanced_def) (simp add: ex_root_def ex_obj_def ex_child_def zero_info_def length_strncpy)
  then have r: "recorder_run ex_opts ex_h ex_rec st'" by (rule run_step [OF run_start _ _ s]) (simp add: ex_msg_def)
  have "st' \<noteq> ex_rec" using 1(2) by (auto simp: ex_rec_def)
  moreover have "\<exists>us f'. rfp st' = Some f' \<and> written f' = stream_bytes us \<and> recording us"
    using recording_wellformed [OF r, of "\<lparr>written = [], room = 1000\<rparr>"]
    by (simp add: ex_rec_def image_header_size_def base_size_def zero_info_def)
  ultimately show ?thesis using r by blast
qed

end
