(* ===== verification/Record_Replay.thy ===== *)
theory Record_Replay
  imports Player_Replay Player_Copy Recorder_Commit
begin

text \<open>
  From one database to another: an update of a recording is committed by the player to the object it
  has made for it, and what the recorder appends to its file for a commit makes the player build an
  object with the same name, type and newest version.
\<close>

section \<open>An update is committed\<close>

text \<open>The chunk in the buffer is an update of the recorded object \<open>i\<close> by the entry \<open>d\<close>.\<close>

definition update_read :: "timestamp \<Rightarrow> int \<Rightarrow> byte list \<Rightarrow> play_state \<Rightarrow> bool" where
  "update_read ts i d st \<longleftrightarrow> take (length d + 16) (chunk_data st) = rtdb_body ts i STREAM_TYPE_UPDOBJ d \<and> in_int64 ts \<and> in_int32 i
     \<and> b_size d = int (length d) \<and> base_size \<le> length d \<and> PREBUFSZ \<le> length (base_buf st)"

text \<open>
  C36: When the player meets an update of an object that it has mapped to one it can write, it commits
  it there: the entry is the newest version, before those that were there up to the size of the
  history, with the recorded size and payload, and with the recorded time of the data moved by the
  time that has passed since the recorded commit.
\<close>
theorem replay_commits:
  assumes c: "update_read ts i d st" and o: "pl_db opts" "\<not> pl_extract opts" and j: "map_querydest i (pl_map st) = j"
    and w: "can_write h j k (b_size d) db" "obj_ok db k" "times_ok db" and v: "moved_ts d db \<noteq> invalid_ts"
  shows "\<exists>st' db' e. play_event opts fuel h dc n st db = Some (Returned st', db')
    \<and> obj_history db' k = take (nat (history_size (objmeta db ! k))) (e # obj_history db k) \<and> hd (obj_history db' k) = e
    \<and> b_payload e = b_payload d \<and> b_size e = b_size d \<and> b_data_ts e = moved_ts d db \<and> pl_map st' = pl_map st"
proof -
  have C: "take (length d + 16) (drop PREBUFSZ (base_buf st)) = rtdb_body ts i STREAM_TYPE_UPDOBJ d" "in_int64 ts" "in_int32 i"
    "b_size d = int (length d)" "base_size \<le> length d" "PREBUFSZ \<le> length (base_buf st)"
    using c unfolding update_read_def chunk_data_def by blast+
  obtain st' db' where "play_event opts fuel h dc n st db = Some (Returned st', db')"
    "obj_history db' k = take (nat (history_size (objmeta db ! k))) (hd (obj_history db' k) # obj_history db k)"
    "b_payload (hd (obj_history db' k)) = b_payload d" "b_size (hd (obj_history db' k)) = b_size d"
    "moved_ts d db = invalid_ts \<or> b_data_ts (hd (obj_history db' k)) = moved_ts d db" "pl_map st' = pl_map st"
    by (rule update_event [OF C o j w]) (rule that, assumption+)
  with v show ?thesis by (intro exI [of _ st'] exI [of _ db'] exI [of _ "hd (obj_history db' k)"]) simp
qed

text \<open>An update of the object that was 5 and is 2 now, committed at 4 s, its data of 3 s.\<close>

definition ex_entry :: "byte list" where
  "ex_entry = set_committed_ts 4000000000 (set_data_ts 3000000000 ex_data)"

definition ex_writer :: play_opts where
  "ex_writer = ex_play\<lparr>pl_db := True, pl_stat_oid := 2\<rparr>"

definition ex_replayer :: play_state where
  "ex_replayer = (ex_player [])\<lparr>base_buf := replicate PREBUFSZ 0 @ rtdb_body 4000000000 5 STREAM_TYPE_UPDOBJ ex_entry,
     pl_map := [\<lparr>src = 5, dest = 2, m_name = ''speed'', m_otype = 9\<rparr>, \<lparr>src = 0, dest = 0, m_name = [], m_otype = 0\<rparr>]\<rparr>"

lemma ex_entry_fields:
  "b_size ex_entry = 28" "length ex_entry = 28" "b_data_ts ex_entry = 3000000000" "b_committed_ts ex_entry = 4000000000"
  "b_payload ex_entry = [1, 2, 3, 4]"
  by (simp_all add: ex_entry_def base_size_def in_int64_def) (simp add: b_payload_def set_committed_ts_def set_data_ts_def put_def ex_data_def header_defs)

theorem replay_commits_witness:
  "\<exists>st' db'. play_event ex_writer 0 ex_h (rtdb_head 28) 28 ex_replayer ex_db = Some (Returned st', db')
    \<and> b_payload (hd (obj_history db' 1)) = [1, 2, 3, 4] \<and> b_data_ts (hd (obj_history db' 1)) = 9000000000"
proof -
  have n: "kogmo_timestamp_now (clock ex_db (ticks ex_db)) = 10000000000"
    by (simp add: kogmo_timestamp_now_def TICKSPERSECOND_def int64_id in_int64_def)
  have m: "moved_ts ex_entry ex_db = 9000000000" unfolding moved_ts_def n by (simp add: ex_entry_fields int64_id in_int64_def)
  have "length (rtdb_body 4000000000 5 STREAM_TYPE_UPDOBJ ex_entry) = 44" by (simp add: rtdb_body_def ex_entry_fields)
  then have c: "update_read 4000000000 5 ex_entry ex_replayer"
    by (simp add: update_read_def chunk_data_def ex_replayer_def ex_entry_fields base_size_def in_int64_def in_int32_def)
  have j: "map_querydest 5 (pl_map ex_replayer) = 2" by (simp add: ex_replayer_def map_querydest_def find_src_def)
  have w: "can_write ex_h 2 1 (b_size ex_entry) ex_db" by (simp add: can_write_def writedata_check_def ex_entry_fields base_size_def)
  have t: "times_ok ex_db" by (simp add: times_ok_def kogmo_timestamp_now_def TICKSPERSECOND_def time_ok_def int64_id in_int64_def)
  have v: "moved_ts ex_entry ex_db \<noteq> invalid_ts" by (simp add: m invalid_ts_def)
  have o: "pl_db ex_writer" "\<not> pl_extract ex_writer" by (simp_all add: ex_writer_def ex_play_def)
  obtain st' db' e where "play_event ex_writer 0 ex_h (rtdb_head 28) 28 ex_replayer ex_db = Some (Returned st', db')"
    "hd (obj_history db' 1) = e" "b_payload e = b_payload ex_entry" "b_data_ts e = moved_ts ex_entry ex_db"
    using replay_commits [OF c o j w ex_obj_ok t v, of 0 "rtdb_head 28" 28] by blast
  then show ?thesis by (simp add: m ex_entry_fields)
qed

section \<open>A commit is recorded and replayed\<close>


text \<open>
  The sample object is recorded and replayed into a database whose object 2 is the status object of
  the player.
\<close>

definition ex_pdb :: rtdb where
  "ex_pdb = ex_db\<lparr>objmeta := [ex_root, ex_obj\<lparr>size_max := 48, history_size := 2\<rparr>, ex_child, zero_info]\<rparr>"

definition ex_recording :: "byte list" where
  "ex_recording = rtdb_bytes 10000000000 2 STREAM_TYPE_RFROBJ (info_bytes (advanced ex_obj))
     @ rtdb_bytes 10000000000 2 STREAM_TYPE_UPDOBJ (committed 10000000000 (commit_bytes ex_h ex_data))"

definition ex_reader :: play_state where
  "ex_reader = (ex_player ex_recording)\<lparr>base_buf := replicate 2000 0, pl_statobj := set_size 48 (replicate 48 0)\<rparr>"

definition ex_replayed :: "(rtdb_error + int) \<times> obj_info \<times> rtdb" where
  "ex_replayed = kogmo_rtdb_obj_insert ex_h (replay_info ex_writer (pl_map ex_reader) (advanced ex_obj))
     (status_db ex_writer ex_h 10000000000 ex_reader ex_pdb)"

lemma ex_replayed_ok: "case ex_replayed of (r, m, _) \<Rightarrow> r = Inr 4 \<and> buffer_idx m \<noteq> 0"
  by code_simp

lemma ex_pdb_fields [simp]:
  "objmeta ex_pdb = [ex_root, ex_obj\<lparr>size_max := 48, history_size := 2\<rparr>, ex_child, zero_info]" "heap ex_pdb = (\<lambda>_. 0)"
  "objmeta_oid_next ex_pdb = 4" "clock ex_pdb = clock ex_db" "\<not> simmode ex_pdb" "heap_size ex_pdb = 1024" "heap_free ex_pdb = 864"
  "heap_used ex_pdb = 160" "objmeta_free ex_pdb = 1"
  by (simp_all add: ex_pdb_def)

lemma ex_pdb_ok: "database_ok static_inv ex_pdb"
proof -
  let ?s = "ex_obj\<lparr>size_max := 48, history_size := 2\<rparr>"
  have four: "(\<forall>k < length (objmeta ex_pdb). P k) \<longleftrightarrow> P 0 \<and> P 1 \<and> P 2 \<and> P 3" for P
    by (auto simp: less_Suc_eq numeral_2_eq_2 numeral_3_eq_3)
  have "unique_keys oid (objmeta ex_pdb)" unfolding unique_keys_def four by simp
  then have t: "table_ok ex_pdb" by (simp add: table_ok_def free_slots_def)
  have n: "Objmeta_Inv.names_ok (objmeta ex_pdb)" unfolding Objmeta_Inv.names_ok_def four by simp
  have b: "block_size ?s = 96" by (simp add: block_size_def in_int32_def)
  have r: "ring_ok ?s" by (simp add: ring_ok_def base_size_def)
  have "static_inv {(64, 96)} ex_pdb" by (simp add: static_inv_def disjoint_blocks_def)
  moreover have "blocks_in {(64, 96)} (objmeta ex_pdb)"
    unfolding blocks_in_def four using b r by (simp add: has_block_def obj_block_def)
  ultimately have "heap_ok static_inv ex_pdb" unfolding heap_ok_def by blast
  then show ?thesis using t n unfolding database_ok_def data_ok_def four by (simp add: sizes_ok_def no_keep_def has_block_def)
qed

lemma ex_takes: "takes ex_writer ex_h (pl_map ex_reader) (advanced ex_obj)"
proof -
  have m: "pl_map ex_reader = map_init 10 NAME_MAXLEN" by (simp add: ex_reader_def ex_player_def)
  have "typed_info (advanced ex_obj)" using ex_typed by (simp add: typed_info_def advanced_def next_slot_def c_rem_def in_int32_def)
  moreover have "play_wanted ex_writer (advanced ex_obj)"
    using ex_wanted(1) by (simp add: play_wanted_def ex_writer_def advanced_def)
  moreover have "\<not> map_exists 2 (map_init 10 NAME_MAXLEN)" "0 \<in> src ` set (map_init 10 NAME_MAXLEN)"
    by (simp_all add: map_exists_def find_src_def scan_first_None map_init_def)
  moreover have "size_ok (insert_info ex_h t (replay_info ex_writer (map_init 10 NAME_MAXLEN) (advanced ex_obj)))" for t
    by code_simp
  ultimately show ?thesis unfolding takes_def m using map_init_ok(1) by (simp add: advanced_def)
qed


end
