(* ===== verification/Waiting.thy ===== *)
theory Waiting
  imports Ipc_Sync Objdata_Props
begin

text \<open>
  Waiting for changes: the wait side of the notifications (\<open>rtdb/kogmo_rtdb_proc_obj_notify.h\<close>), for
  new data (\<open>rtdb/kogmo_rtdb_objdata.c\<close>) and for objects that come and go
  (\<open>rtdb/kogmo_rtdb_objmeta.c\<close>). What ends a wait and what the others do meanwhile is an argument: a
  list with an element for each wait. \<open>None\<close> is a call that still waits when the list is used up.
\<close>

section \<open>Notifications\<close>

definition kogmo_rtdb_obj_wait_notify_prepare :: "nat \<Rightarrow> rtdb \<Rightarrow> rtdb" where
  "kogmo_rtdb_obj_wait_notify_prepare k = emit (Lock (Changenotify_lock k))"

definition kogmo_rtdb_obj_wait_notify_done :: "nat \<Rightarrow> rtdb \<Rightarrow> rtdb" where
  "kogmo_rtdb_obj_wait_notify_done k = emit (Unlock (Changenotify_lock k))"

definition kogmo_rtdb_obj_wait_notify :: "nat \<Rightarrow> timestamp \<Rightarrow> wake \<Rightarrow> rtdb \<Rightarrow> (rtdb_error + int) \<times> rtdb" where
  "kogmo_rtdb_obj_wait_notify k wakeup_ts w db =
     (case kogmo_rtdb_ipc_condvar_wait (Changenotify_lock k) wakeup_ts w db of
        (ret, db) \<Rightarrow> (ret, emit (Unlock (Changenotify_lock k)) db))"

definition kogmo_rtdb_obj_wait_metanotify_prepare :: "rtdb \<Rightarrow> rtdb" where
  "kogmo_rtdb_obj_wait_metanotify_prepare = emit (Lock Objmeta_lock)"

definition kogmo_rtdb_obj_wait_metanotify_done :: "rtdb \<Rightarrow> rtdb" where
  "kogmo_rtdb_obj_wait_metanotify_done = emit (Unlock Objmeta_lock)"

definition kogmo_rtdb_obj_wait_metanotify :: "timestamp \<Rightarrow> wake \<Rightarrow> rtdb \<Rightarrow> (rtdb_error + int) \<times> rtdb" where
  "kogmo_rtdb_obj_wait_metanotify wakeup_ts w db =
     (case kogmo_rtdb_ipc_condvar_wait Objmeta_lock wakeup_ts w db of
        (ret, db) \<Rightarrow> (ret, emit (Unlock Objmeta_lock) db))"

lemmas wait_defs = kogmo_rtdb_obj_wait_notify_prepare_def kogmo_rtdb_obj_wait_notify_done_def
  kogmo_rtdb_obj_wait_notify_def kogmo_rtdb_obj_wait_metanotify_prepare_def
  kogmo_rtdb_obj_wait_metanotify_done_def kogmo_rtdb_obj_wait_metanotify_def

section \<open>New data\<close>

text \<open>
  What a look at the header of the newest version shows: it is newer than \<open>old_ts\<close>, or the call fails,
  or goes on waiting with this result. The local \<open>base_obj\<close> is filled by a successful read.
\<close>

datatype look = Newer | Fails rtdb_error | Waits "rtdb_error + int"

definition look_newer :: "nat \<Rightarrow> handle \<Rightarrow> int \<Rightarrow> timestamp \<Rightarrow> nat \<Rightarrow> rtdb \<Rightarrow> (look \<times> rtdb) option" where
  "look_newer fuel h i old_ts k db =
     (case kogmo_rtdb_obj_readdata fuel h i 0 (replicate base_size 0) (int base_size) db of
        None \<Rightarrow> None
      | Some (ret, base_obj, db) \<Rightarrow> Some
          (case ret of
             Inr n \<Rightarrow> if old_ts < b_committed_ts base_obj then Newer else Waits ret
           | Inl e \<Rightarrow> if e \<noteq> ERR_NOTFOUND then Fails e
                      else if deleted_ts (objmeta db ! k) \<noteq> invalid_ts then Fails ERR_NOTFOUND else Waits ret, db))"

text \<open>With notifications: \<open>None\<close> as the first component when the object has new data.\<close>

fun notified_loop :: "nat \<Rightarrow> handle \<Rightarrow> int \<Rightarrow> timestamp \<Rightarrow> nat \<Rightarrow> timestamp \<Rightarrow> wake list \<Rightarrow> rtdb
    \<Rightarrow> ((rtdb_error + int) option \<times> rtdb) option" where
  "notified_loop fuel h i old_ts k wakeup_ts ws db =
     (case look_newer fuel h i old_ts k (kogmo_rtdb_obj_wait_notify_prepare k db) of
        None \<Rightarrow> None
      | Some (Newer, db) \<Rightarrow> Some (None, kogmo_rtdb_obj_wait_notify_done k db)
      | Some (Fails e, db) \<Rightarrow> Some (Some (Inl e), kogmo_rtdb_obj_wait_notify_done k db)
      | Some (Waits _, db) \<Rightarrow>
          (case ws of
             [] \<Rightarrow> None
           | w # ws \<Rightarrow>
               (case kogmo_rtdb_obj_wait_notify k wakeup_ts w db of (ret, db) \<Rightarrow>
                  if ret = Inl ERR_TIMEOUT then Some (Some ret, kogmo_rtdb_obj_wait_notify_done k db)
                  else notified_loop fuel h i old_ts k wakeup_ts ws db)))"

declare notified_loop.simps [simp del]

text \<open>Without: the object is looked at again after a part of its cycle time.\<close>

definition KOGMO_RTDB_NONOTIFIES_POLLTIME_FACTOR :: cfloat where
  "KOGMO_RTDB_NONOTIFIES_POLLTIME_FACTOR = f64 (1/10)"

definition KOGMO_RTDB_NONOTIFIES_POLLTIME_MAX :: cfloat where
  "KOGMO_RTDB_NONOTIFIES_POLLTIME_MAX = f64 (1/10)"

definition poll_time :: "obj_info \<Rightarrow> cfloat" where
  "poll_time m =
     (let t = f32 (f64 (KOGMO_RTDB_NONOTIFIES_POLLTIME_FACTOR * MIN_CYCLETIME (min_cycletime m) (max_cycletime m)))
      in if t < KOGMO_RTDB_NONOTIFIES_POLLTIME_MAX then t else f32 KOGMO_RTDB_NONOTIFIES_POLLTIME_MAX)"

fun polled_loop :: "nat \<Rightarrow> handle \<Rightarrow> int \<Rightarrow> timestamp \<Rightarrow> nat \<Rightarrow> timestamp \<Rightarrow> nap list list \<Rightarrow> rtdb
    \<Rightarrow> ((rtdb_error + int) option \<times> rtdb) option" where
  "polled_loop fuel h i old_ts k wakeup_ts nss db =
     (case look_newer fuel h i old_ts k db of
        None \<Rightarrow> None
      | Some (Newer, db) \<Rightarrow> Some (None, db)
      | Some (Fails e, db) \<Rightarrow> Some (Some (Inl e), db)
      | Some (Waits ret, db) \<Rightarrow>
          (let poll_ts = kogmo_timestamp_add_secs (kogmo_timestamp_now (clock db (ticks db))) (poll_time (objmeta db ! k));
               db = db\<lparr>ticks := Suc (ticks db)\<rparr>
           in if wakeup_ts \<noteq> 0 \<and> poll_ts > wakeup_ts then Some (Some ret, kogmo_rtdb_obj_wait_notify_done k db)
              else case nss of
                     [] \<Rightarrow> None
                   | ns # nss \<Rightarrow>
                       (case kogmo_rtdb_sleep_until poll_ts ns db of
                          None \<Rightarrow> None
                        | Some (_, _, _, db) \<Rightarrow> polled_loop fuel h i old_ts k wakeup_ts nss db)))"

declare polled_loop.simps [simp del]

definition wait_newer :: "nat \<Rightarrow> handle \<Rightarrow> int \<Rightarrow> timestamp \<Rightarrow> timestamp \<Rightarrow> wake list \<Rightarrow> nap list list \<Rightarrow> rtdb
    \<Rightarrow> ((rtdb_error + int) option \<times> rtdb) option" where
  "wait_newer fuel h i old_ts wakeup_ts ws nss db =
     (case kogmo_rtdb_obj_findmeta_byid i db of
        None \<Rightarrow> Some (Some (Inl ERR_NOTFOUND), db)
      | Some k \<Rightarrow>
          if no_notifies (flags (objmeta db ! k)) \<or> db_no_notifies db
          then polled_loop fuel h i old_ts k wakeup_ts nss db
          else notified_loop fuel h i old_ts k wakeup_ts ws db)"

definition kogmo_rtdb_obj_readdata_waitnext_until ::
    "nat \<Rightarrow> handle \<Rightarrow> int \<Rightarrow> timestamp \<Rightarrow> byte list \<Rightarrow> int \<Rightarrow> timestamp \<Rightarrow> wake list \<Rightarrow> nap list list \<Rightarrow> rtdb
      \<Rightarrow> ((rtdb_error + int) \<times> byte list \<times> rtdb) option" where
  "kogmo_rtdb_obj_readdata_waitnext_until fuel h i old_ts buf sz wakeup_ts ws nss db =
     (case wait_newer fuel h i old_ts wakeup_ts ws nss db of
        None \<Rightarrow> None
      | Some (Some ret, db) \<Rightarrow> Some (ret, buf, db)
      | Some (None, db) \<Rightarrow> kogmo_rtdb_obj_readdata fuel h i 0 buf sz db)"

definition kogmo_rtdb_obj_readdata_waitnext_until_ptr ::
    "nat \<Rightarrow> handle \<Rightarrow> int \<Rightarrow> timestamp \<Rightarrow> timestamp \<Rightarrow> wake list \<Rightarrow> nap list list \<Rightarrow> rtdb
      \<Rightarrow> ((rtdb_error + int) \<times> int option \<times> rtdb) option" where
  "kogmo_rtdb_obj_readdata_waitnext_until_ptr fuel h i old_ts wakeup_ts ws nss db =
     (case wait_newer fuel h i old_ts wakeup_ts ws nss db of
        None \<Rightarrow> None
      | Some (Some ret, db) \<Rightarrow> Some (ret, None, db)
      | Some (None, db) \<Rightarrow> map_option (\<lambda>(ret, p). (ret, p, db)) (kogmo_rtdb_obj_readdata_ptr fuel h i 0 db))"

definition kogmo_rtdb_obj_readdata_waitnext where
  "kogmo_rtdb_obj_readdata_waitnext fuel h i old_ts buf sz = kogmo_rtdb_obj_readdata_waitnext_until fuel h i old_ts buf sz 0"

definition kogmo_rtdb_obj_readdata_waitnext_ptr where
  "kogmo_rtdb_obj_readdata_waitnext_ptr fuel h i old_ts = kogmo_rtdb_obj_readdata_waitnext_until_ptr fuel h i old_ts 0"

section \<open>Objects that appear and disappear\<close>

fun kogmo_rtdb_obj_searchinfo_wait_until ::
    "handle \<Rightarrow> char list option \<Rightarrow> int \<Rightarrow> int \<Rightarrow> int \<Rightarrow> timestamp \<Rightarrow> wake list \<Rightarrow> rtdb \<Rightarrow> ((rtdb_error + int) \<times> rtdb) option" where
  "kogmo_rtdb_obj_searchinfo_wait_until h nm ot parent prc wakeup_ts ws db =
     (case kogmo_rtdb_obj_searchinfo_nolock h nm ot parent prc 0 None 1 (kogmo_rtdb_obj_wait_metanotify_prepare db) of
        (ret, _, db) \<Rightarrow>
          if ret \<noteq> Inl ERR_NOTFOUND then Some (ret, kogmo_rtdb_obj_wait_metanotify_done db)
          else case ws of
                 [] \<Rightarrow> None
               | w # ws \<Rightarrow>
                   (case kogmo_rtdb_obj_wait_metanotify wakeup_ts w db of (ret, db) \<Rightarrow>
                      if ret = Inl ERR_TIMEOUT then Some (ret, kogmo_rtdb_obj_wait_metanotify_done db)
                      else kogmo_rtdb_obj_searchinfo_wait_until h nm ot parent prc wakeup_ts ws db))"

declare kogmo_rtdb_obj_searchinfo_wait_until.simps [simp del]

definition kogmo_rtdb_obj_searchinfo_wait where
  "kogmo_rtdb_obj_searchinfo_wait h nm ot parent prc = kogmo_rtdb_obj_searchinfo_wait_until h nm ot parent prc 0"

text \<open>An array of ids up to the zero that ends it, and the ids of one that are not in another.\<close>

definition ids_of :: "int list \<Rightarrow> int list" where
  "ids_of = takeWhile (\<lambda>i. i \<noteq> 0)"

definition id_diff :: "int list \<Rightarrow> int list \<Rightarrow> int list" where
  "id_diff xs ys = filter (\<lambda>i. i \<notin> set ys) xs"

definition put_ids :: "int list \<Rightarrow> int list \<Rightarrow> int list" where
  "put_ids js l = js @ 0 # drop (Suc (length js)) l"

text \<open>The known ids, the ones added and the ones deleted, in the arrays of the caller.\<close>

record id_lists =
  known_idlist :: "int list"
  added_idlist :: "int list"
  deleted_idlist :: "int list"

definition compare_lists :: "int list \<Rightarrow> id_lists \<Rightarrow> int \<times> id_lists" where
  "compare_lists newidlist l =
     (let added = id_diff (ids_of newidlist) (ids_of (known_idlist l));
          deleted = id_diff (ids_of (known_idlist l)) (ids_of newidlist)
      in (int (length added + length deleted),
          l\<lparr>added_idlist := put_ids added (added_idlist l), deleted_idlist := put_ids deleted (deleted_idlist l)\<rparr>))"

definition take_over :: "int list \<Rightarrow> id_lists \<Rightarrow> id_lists" where
  "take_over newidlist l = l\<lparr>known_idlist := put_ids (ids_of newidlist) (known_idlist l)\<rparr>"

definition fails :: "rtdb_error + int \<Rightarrow> bool" where
  "fails ret = (case ret of Inl e \<Rightarrow> e \<noteq> ERR_NOTFOUND | Inr _ \<Rightarrow> False)"

text \<open>\<open>newidlist\<close> is a local array: at the start it holds what is on the stack.\<close>

fun waitnext_loop ::
    "handle \<Rightarrow> char list option \<Rightarrow> int \<Rightarrow> int \<Rightarrow> int \<Rightarrow> timestamp \<Rightarrow> wake list \<Rightarrow> int list \<Rightarrow> id_lists \<Rightarrow> rtdb
      \<Rightarrow> ((rtdb_error + int) \<times> id_lists \<times> rtdb) option" where
  "waitnext_loop h nm ot parent prc wakeup_ts ws newidlist l db =
     (case kogmo_rtdb_obj_searchinfo_nolock h nm ot parent prc 0 (Some newidlist) 0 (kogmo_rtdb_obj_wait_metanotify_prepare db) of
        (ret, new, db) \<Rightarrow>
          if fails ret then Some (ret, l, kogmo_rtdb_obj_wait_metanotify_done db)
          else let newidlist = the new; (n, l) = compare_lists newidlist l
               in if n > 0 then Some (Inr n, take_over newidlist l, kogmo_rtdb_obj_wait_metanotify_done db)
                  else case ws of
                         [] \<Rightarrow> None
                       | w # ws \<Rightarrow>
                           (case kogmo_rtdb_obj_wait_metanotify wakeup_ts w db of (ret, db) \<Rightarrow>
                              if ret = Inl ERR_TIMEOUT then Some (ret, l, kogmo_rtdb_obj_wait_metanotify_done db)
                              else waitnext_loop h nm ot parent prc wakeup_ts ws newidlist l db))"

declare waitnext_loop.simps [simp del]

definition kogmo_rtdb_obj_searchinfo_waitnext_until where
  "kogmo_rtdb_obj_searchinfo_waitnext_until h nm ot parent prc l wakeup_ts ws db =
     waitnext_loop h nm ot parent prc wakeup_ts ws (h_stack h) l db"

definition kogmo_rtdb_obj_searchinfo_waitnext where
  "kogmo_rtdb_obj_searchinfo_waitnext h nm ot parent prc l = kogmo_rtdb_obj_searchinfo_waitnext_until h nm ot parent prc l 0"

definition kogmo_rtdb_obj_searchinfo_lists_nonblocking ::
    "handle \<Rightarrow> char list option \<Rightarrow> int \<Rightarrow> int \<Rightarrow> int \<Rightarrow> id_lists \<Rightarrow> rtdb \<Rightarrow> (rtdb_error + int) \<times> id_lists \<times> rtdb" where
  "kogmo_rtdb_obj_searchinfo_lists_nonblocking h nm ot parent prc l db =
     (case kogmo_rtdb_obj_searchinfo_nolock h nm ot parent prc 0 (Some (h_stack h)) 0 (kogmo_rtdb_obj_wait_metanotify_prepare db) of
        (ret, new, db) \<Rightarrow>
          if fails ret then (ret, l, kogmo_rtdb_obj_wait_metanotify_done db)
          else let (n, l) = compare_lists (the new) l
               in (Inr n, take_over (the new) l, kogmo_rtdb_obj_wait_metanotify_done db))"

end
