(* ===== verification/Waiting_Props.thy ===== *)
theory Waiting_Props
  imports Waiting
begin

text \<open>
  What a wait returns: data that is newer, or what has changed among the objects; and that no
  wake-up is lost.
\<close>

section \<open>New data is newer\<close>

lemma select_same:
  assumes "objmeta db' = objmeta db" "heap db' = heap db"
  shows "readdata_select fuel h mode i ts db' = readdata_select fuel h mode i ts db"
  by (simp only: readdata_select_def kogmo_rtdb_obj_findmeta_byid_def assms)

lemma emit_fields [simp]: "objmeta (emit c db) = objmeta db" "heap (emit c db) = heap db"
  by (simp_all add: emit_def)

lemma select_log [simp]: "readdata_select fuel h mode i ts (emit c db) = readdata_select fuel h mode i ts db"
  by (rule select_same) simp_all

lemma sdec_int64: "length bs = 8 \<Longrightarrow> in_int64 (sdec bs)"
  using signed_take_bit_int_less_exp [of 63 "udec bs"] signed_take_bit_int_greater_eq_minus_exp [of 63 "udec bs"]
  by (simp add: sdec_def in_int64_def)

text \<open>A read that succeeds leaves the time of the commit in the buffer.\<close>

lemma read_time:
  assumes r: "kogmo_rtdb_obj_readdata fuel h i ts buf sz db = Some (Inr n, buf', db')"
    and l: "base_size \<le> length buf" "int base_size \<le> sz"
  obtains k p where "readdata_select fuel h RTDBSEL_LAST i ts db = Some (Inr (k, p))"
    "b_committed_ts buf' = m_committed_ts (heap db) p" "objmeta db' = objmeta db" "heap db' = heap db" "ipc_log db' = ipc_log db"
proof -
  obtain q where q: "readdata_select fuel h RTDBSEL_LAST i ts db = Some q"
    using r unfolding kogmo_rtdb_obj_readdata_def kogmo_rtdb_obj_readdata_mode_def by blast
  have "\<exists>k p. q = Inr (k, p)"
    using r unfolding kogmo_rtdb_obj_readdata_def kogmo_rtdb_obj_readdata_mode_def q by (cases q) auto
  then obtain k p where s: "readdata_select fuel h RTDBSEL_LAST i ts db = Some (Inr (k, p))" using q by blast
  let ?a = "if m_size (heap db) p \<le> sz then m_size (heap db) p else sz"
  let ?b = "set_size ?a (ldb (heap db) p (nat ?a) @ drop (nat ?a) buf)"
  have b: "buf' = set_committed_ts (m_committed_ts (heap db) p) ?b"
    and d: "db' = db \<or> db' = snd (kogmo_rtdb_timestamp_now db)"
    using r unfolding kogmo_rtdb_obj_readdata_def kogmo_rtdb_obj_readdata_mode_def s
    by (auto simp: Let_def split: prod.splits if_splits)
  have len: "base_size \<le> length ?b" using l by simp
  have i: "in_int64 (m_committed_ts (heap db) p)" by (simp add: m_committed_ts_def sdec_int64)
  have "b_committed_ts buf' = m_committed_ts (heap db) p" unfolding b using len i by simp
  moreover have "objmeta db' = objmeta db \<and> heap db' = heap db \<and> ipc_log db' = ipc_log db"
    using d by (auto simp: kogmo_rtdb_timestamp_now_def)
  ultimately show thesis using s by (intro that [of k p]) simp_all
qed

lemma look_is_newer:
  assumes "look_newer fuel h i old_ts k db = Some (Newer, db')"
  obtains k' p where "readdata_select fuel h RTDBSEL_LAST i 0 db' = Some (Inr (k', p))" "old_ts < m_committed_ts (heap db') p"
proof -
  obtain n b where r: "kogmo_rtdb_obj_readdata fuel h i 0 (replicate base_size 0) (int base_size) db = Some (Inr n, b, db')" "old_ts < b_committed_ts b"
    using assms by (auto simp: look_newer_def split: option.splits sum.splits if_splits)
  obtain k' p where s: "readdata_select fuel h RTDBSEL_LAST i 0 db = Some (Inr (k', p))"
    "b_committed_ts b = m_committed_ts (heap db) p" "objmeta db' = objmeta db" "heap db' = heap db"
    by (rule read_time [OF r(1)]) auto
  have "readdata_select fuel h RTDBSEL_LAST i 0 db' = readdata_select fuel h RTDBSEL_LAST i 0 db"
    by (rule select_same [OF s(3,4)])
  with r(2) s show thesis by (intro that [of k' p]) simp_all
qed

lemma notified_is_newer:
  assumes "notified_loop fuel h i old_ts k wakeup_ts ws db = Some (None, db')"
  obtains k' p where "readdata_select fuel h RTDBSEL_LAST i 0 db' = Some (Inr (k', p))" "old_ts < m_committed_ts (heap db') p"
proof -
  have "\<exists>k' p. readdata_select fuel h RTDBSEL_LAST i 0 db' = Some (Inr (k', p)) \<and> old_ts < m_committed_ts (heap db') p"
    using assms
  proof (induction fuel h i old_ts k wakeup_ts ws db rule: notified_loop.induct)
    case (1 fuel h i old_ts k wakeup_ts ws db)
    obtain q db1 where L: "look_newer fuel h i old_ts k (kogmo_rtdb_obj_wait_notify_prepare k db) = Some (q, db1)"
      using 1(2) by (subst (asm) notified_loop.simps) (auto split: option.splits)
    show ?case
    proof (cases q)
      case Newer
      then have d: "db' = kogmo_rtdb_obj_wait_notify_done k db1" using 1(2) L by (simp add: notified_loop.simps)
      obtain k' p where "readdata_select fuel h RTDBSEL_LAST i 0 db1 = Some (Inr (k', p))" "old_ts < m_committed_ts (heap db1) p"
        by (rule look_is_newer [OF L [unfolded Newer]])
      then show ?thesis by (auto simp: d wait_defs)
    next
      case (Fails e)
      then show ?thesis using 1(2) L by (simp add: notified_loop.simps)
    next
      case (Waits r)
      then obtain w ws' where w: "ws = w # ws'" using 1(2) L by (cases ws) (simp_all add: notified_loop.simps)
      obtain ret db2 where W: "kogmo_rtdb_obj_wait_notify k wakeup_ts w db1 = (ret, db2)" by force
      have t: "ret \<noteq> Inl ERR_TIMEOUT" using 1(2) L Waits w W by (subst (asm) notified_loop.simps) auto
      then have "notified_loop fuel h i old_ts k wakeup_ts ws' db2 = Some (None, db')"
        using 1(2) L Waits w W by (subst (asm) notified_loop.simps) auto
      then show ?thesis using 1(1) [OF L refl Waits w W [symmetric] t] by blast
    qed
  qed
  then show thesis using that by blast
qed

text \<open>The loop ends with a newer version or an error, never with a number.\<close>

lemma notified_returns: "notified_loop fuel h i old_ts k wakeup_ts ws db = Some (r, db') \<Longrightarrow> r = None \<or> (\<exists>e. r = Some (Inl e))"
proof (induction fuel h i old_ts k wakeup_ts ws db rule: notified_loop.induct)
  case (1 fuel h i old_ts k wakeup_ts ws db)
  obtain q db1 where L: "look_newer fuel h i old_ts k (kogmo_rtdb_obj_wait_notify_prepare k db) = Some (q, db1)"
    using 1(2) by (subst (asm) notified_loop.simps) (auto split: option.splits)
  show ?case
  proof (cases q)
    case (Waits x)
    then obtain w ws' where w: "ws = w # ws'" using 1(2) L by (cases ws) (simp_all add: notified_loop.simps)
    obtain ret db2 where W: "kogmo_rtdb_obj_wait_notify k wakeup_ts w db1 = (ret, db2)" by force
    show ?thesis
    proof (cases "ret = Inl ERR_TIMEOUT")
      case True
      then show ?thesis using 1(2) L Waits w W by (subst (asm) notified_loop.simps) auto
    next
      case False
      then have "notified_loop fuel h i old_ts k wakeup_ts ws' db2 = Some (r, db')"
        using 1(2) L Waits w W by (subst (asm) notified_loop.simps) auto
      then show ?thesis by (rule 1(1) [OF L refl Waits w W [symmetric] False])
    qed
  qed (use 1(2) L in \<open>auto simp: notified_loop.simps\<close>)
qed

text \<open>
  C14: With notifications on, a wait for new data that succeeds returns data committed after \<open>old_ts\<close>:
  the newest version there is when it returns.
\<close>
theorem waitnext_returns_newer:
  assumes w: "kogmo_rtdb_obj_readdata_waitnext_until fuel h i old_ts buf sz wakeup_ts ws nss db = Some (Inr n, buf', db')"
    and k: "kogmo_rtdb_obj_findmeta_byid i db = Some k" "\<not> no_notifies (flags (objmeta db ! k))" "\<not> db_no_notifies db"
    and l: "base_size \<le> length buf" "int base_size \<le> sz"
  shows "old_ts < b_committed_ts buf' \<and> (\<exists>k' p. readdata_select fuel h RTDBSEL_LAST i 0 db' = Some (Inr (k', p))
    \<and> m_committed_ts (heap db') p = b_committed_ts buf')"
proof -
  obtain r db1 where L: "notified_loop fuel h i old_ts k wakeup_ts ws db = Some (r, db1)"
    using w k by (auto simp: kogmo_rtdb_obj_readdata_waitnext_until_def wait_newer_def split: option.splits)
  have R: "case r of Some ret \<Rightarrow> ret = Inr n \<and> buf' = buf \<and> db' = db1 | None \<Rightarrow> kogmo_rtdb_obj_readdata fuel h i 0 buf sz db1 = Some (Inr n, buf', db')"
    using w k L by (auto simp: kogmo_rtdb_obj_readdata_waitnext_until_def wait_newer_def split: option.splits)
  have "r = None" using notified_returns [OF L] R by (auto split: option.splits)
  then have r: "kogmo_rtdb_obj_readdata fuel h i 0 buf sz db1 = Some (Inr n, buf', db')" using R by simp
  obtain k1 p1 where 1: "readdata_select fuel h RTDBSEL_LAST i 0 db1 = Some (Inr (k1, p1))" "old_ts < m_committed_ts (heap db1) p1"
    by (rule notified_is_newer [OF L [unfolded \<open>r = None\<close>]])
  obtain k' p where 2: "readdata_select fuel h RTDBSEL_LAST i 0 db1 = Some (Inr (k', p))"
    "b_committed_ts buf' = m_committed_ts (heap db1) p" "objmeta db' = objmeta db1" "heap db' = heap db1"
    by (rule read_time [OF r l])
  have "readdata_select fuel h RTDBSEL_LAST i 0 db' = Some (Inr (k', p))" using select_same [OF 2(3,4)] 2(1) by simp
  with 1 2 show ?thesis by simp
qed

text \<open>A look at an object that can be read, in terms of its history.\<close>

lemma look_history:
  assumes k: "kogmo_rtdb_obj_findmeta_byid i db = Some k" "buffer_idx (objmeta db ! k) \<noteq> 0"
    and a: "may_read h (objmeta db ! k)" "obj_ok db k" "0 \<le> history_slot (objmeta db ! k)" "nat (history_size (objmeta db ! k)) \<le> fuel"
      "\<not> withhold_stale (flags (objmeta db ! k))" "deleted_ts (objmeta db ! k) = invalid_ts"
    and e: "obj_history db k = e # es"
  shows "look_newer fuel h i old_ts k db = Some (if old_ts < b_committed_ts e then Newer else Waits (Inr (int (length e))), db)"
proof -
  obtain p ps where p: "hist_addrs (heap db) (objmeta db ! k) = p # ps" "e = entry (heap db) p"
    using e by (auto simp: obj_history_def history_def map_eq_Cons_conv)
  have r: "ring_ok (objmeta db ! k)" "int base_size \<le> m_size (heap db) p" using a(2) p(1) by (auto simp: obj_ok_def sizes_ok_def)
  have s: "readdata_select fuel h RTDBSEL_LAST i 0 db = Some (Inr (k, p))"
    using readdata_select_pick [OF k a(1) r(1) a(3,4), of RTDBSEL_LAST 0] p(1) a(6) by (simp add: pick_def invalid_ts_def)
  note E = entry_fields [OF r(2)]
  let ?avail = "if m_size (heap db) p \<le> int base_size then m_size (heap db) p else int base_size"
  have "in_int64 (m_committed_ts (heap db) p)" by (simp add: m_committed_ts_def sdec_int64)
  then have "b_committed_ts (set_committed_ts (m_committed_ts (heap db) p)
      (set_size ?avail (ldb (heap db) p (nat ?avail) @ drop (nat ?avail) (replicate base_size 0)))) = b_committed_ts e"
    using r(2) E by (simp add: p(2))
  then show ?thesis
    using a(5) E r(2) unfolding look_newer_def kogmo_rtdb_obj_readdata_def kogmo_rtdb_obj_readdata_mode_def s
    by (simp add: Let_def p(2))
qed

text \<open>Woken after a commit, the call returns what has been committed.\<close>

lemma waitnext_woken:
  assumes k: "kogmo_rtdb_obj_findmeta_byid i db = Some k" "\<not> no_notifies (flags (objmeta db ! k))" "\<not> db_no_notifies db"
    and q: "look_newer fuel h i old_ts k (kogmo_rtdb_obj_wait_notify_prepare k db) = Some (Waits x, db1)"
    and f: "f (emit (Wait (Changenotify_lock k)) db1) = db2"
    and r: "kogmo_rtdb_obj_findmeta_byid i db2 = Some k" "buffer_idx (objmeta db2 ! k) \<noteq> 0"
      "may_read h (objmeta db2 ! k)" "obj_ok db2 k" "0 \<le> history_slot (objmeta db2 ! k)" "nat (history_size (objmeta db2 ! k)) \<le> fuel"
      "\<not> withhold_stale (flags (objmeta db2 ! k))" "deleted_ts (objmeta db2 ! k) = invalid_ts" "size_max (objmeta db2 ! k) \<le> sz"
    and e: "obj_history db2 k = e # es" "old_ts < b_committed_ts e"
  shows "\<exists>db'. kogmo_rtdb_obj_readdata_waitnext_until fuel h i old_ts buf sz wakeup_ts (Signalled f # ws) nss db
    = Some (Inr (int (length e)), e @ drop (length e) buf, db')"
proof -
  let ?L = "Changenotify_lock k"
  have w: "kogmo_rtdb_obj_wait_notify k wakeup_ts (Signalled f) db1 = (Inr 0, emit (Unlock ?L) db2)"
    by (simp add: wait_defs kogmo_rtdb_ipc_condvar_wait_def f)
  let ?db = "emit (Lock ?L) (emit (Unlock ?L) db2)"
  have log: "obj_ok (emit c d) k = obj_ok d k" "obj_history (emit c d) k = obj_history d k"
    "kogmo_rtdb_obj_findmeta_byid i (emit c d) = kogmo_rtdb_obj_findmeta_byid i d" for c d
    by (simp_all add: obj_ok_def obj_history_def kogmo_rtdb_obj_findmeta_byid_def)
  have n: "look_newer fuel h i old_ts k (kogmo_rtdb_obj_wait_notify_prepare k (emit (Unlock ?L) db2)) = Some (Newer, ?db)"
    using look_history [of i ?db k h fuel e es old_ts] r(1-8) e by (simp add: log wait_defs)
  have 2: "notified_loop fuel h i old_ts k wakeup_ts ws (emit (Unlock ?L) db2) = Some (None, emit (Unlock ?L) ?db)"
    by (subst notified_loop.simps) (simp add: n, simp add: wait_defs)
  have 1: "notified_loop fuel h i old_ts k wakeup_ts (Signalled f # ws) db = Some (None, emit (Unlock ?L) ?db)"
    by (subst notified_loop.simps) (simp add: q w 2)
  let ?d = "emit (Unlock ?L) ?db"
  have "kogmo_rtdb_obj_readdata fuel h i 0 buf sz ?d = Some (Inr (int (length e)), e @ drop (length e) buf, ?d)"
    using readdata_history [of i ?d k h fuel sz RTDBSEL_LAST 0 buf] r e(1)
    by (simp add: log kogmo_rtdb_obj_readdata_def pick_def invalid_ts_def)
  then show ?thesis using k by (simp add: kogmo_rtdb_obj_readdata_waitnext_until_def wait_newer_def 1)
qed

lemma ex_look: "look_newer 3 ex_h 2 5 1 (kogmo_rtdb_obj_wait_notify_prepare 1 ex_db)
  = Some (Waits (Inl ERR_NOTFOUND), kogmo_rtdb_obj_wait_notify_prepare 1 ex_db)"
proof -
  have "readdata_select 3 ex_h RTDBSEL_LAST 2 0 ex_db = Some (Inl ERR_NOTFOUND)"
    by (simp add: readdata_select_def Let_def kogmo_rtdb_obj_histscan_def CMP_INT64_HIGH_def m_committed_ts_def invalid_ts_def)
  then show ?thesis
    by (simp add: look_newer_def kogmo_rtdb_obj_readdata_def kogmo_rtdb_obj_readdata_mode_def wait_defs invalid_ts_def)
qed

theorem waitnext_returns_newer_witness:
  "\<exists>b db'. kogmo_rtdb_obj_readdata_waitnext_until 3 ex_h 2 5 (replicate 32 0) 32 0 [Signalled (\<lambda>_. ex_db1)] [] ex_db
      = Some (Inr 28, b, db') \<and> 5 < b_committed_ts b"
proof -
  have l: "length ex_entry = 28"
    using commit_bytes_fields(1) [of ex_data ex_h] by (simp add: ex_entry_def base_size_def)
  have o: "objmeta ex_db1 ! 1 = advanced ex_obj" by (simp add: ex_db1_objmeta)
  have "\<exists>db'. kogmo_rtdb_obj_readdata_waitnext_until 3 ex_h 2 5 (replicate 32 0) 32 0 [Signalled (\<lambda>_. ex_db1)] [] ex_db
      = Some (Inr (int (length ex_entry)), ex_entry @ drop (length ex_entry) (replicate 32 0), db')"
    by (rule waitnext_woken [OF ex_find(2) _ _ ex_look refl ex_db1_facts(4) _ _ ex_db1_facts(2,3) _ _ _ _ ex_db1_facts(1)])
      (use o in \<open>simp_all add: advanced_def may_read_def invalid_ts_def ex_entry_ts\<close>)
  then obtain b db' where w: "kogmo_rtdb_obj_readdata_waitnext_until 3 ex_h 2 5 (replicate 32 0) 32 0 [Signalled (\<lambda>_. ex_db1)] [] ex_db
      = Some (Inr 28, b, db')" using l by auto
  from waitnext_returns_newer [OF this ex_find(2)] w show ?thesis by (simp add: base_size_def)
qed

section \<open>Time-outs\<close>

lemma look_never_times_out: "look_newer fuel h i old_ts k db \<noteq> Some (Fails ERR_TIMEOUT, db')"
proof
  assume a: "look_newer fuel h i old_ts k db = Some (Fails ERR_TIMEOUT, db')"
  then obtain b d where r: "kogmo_rtdb_obj_readdata fuel h i 0 (replicate base_size 0) (int base_size) db = Some (Inl ERR_TIMEOUT, b, d)"
    by (auto simp: look_newer_def split: option.splits sum.splits if_splits)
  obtain q where q: "readdata_select fuel h RTDBSEL_LAST i 0 db = Some q"
    using r unfolding kogmo_rtdb_obj_readdata_def kogmo_rtdb_obj_readdata_mode_def by blast
  have "q \<noteq> Inl ERR_TIMEOUT"
    using q by (auto simp: readdata_select_def Let_def split: option.splits if_splits prod.splits)
  then show False using r unfolding kogmo_rtdb_obj_readdata_def kogmo_rtdb_obj_readdata_mode_def q
    by (cases q) (auto simp: Let_def split: if_splits prod.splits)
qed

text \<open>When a wait for data times out, the lock has been given back twice.\<close>

lemma timeout_unlocks_twice:
  "notified_loop fuel h i old_ts k wakeup_ts ws db = Some (Some (Inl ERR_TIMEOUT), db') \<Longrightarrow>
    \<exists>cs. ipc_log db' = Unlock (Changenotify_lock k) # Unlock (Changenotify_lock k) # cs"
proof (induction fuel h i old_ts k wakeup_ts ws db rule: notified_loop.induct)
  case (1 fuel h i old_ts k wakeup_ts ws db)
  obtain q db1 where L: "look_newer fuel h i old_ts k (kogmo_rtdb_obj_wait_notify_prepare k db) = Some (q, db1)"
    using 1(2) by (subst (asm) notified_loop.simps) (auto split: option.splits)
  have nf: "q \<noteq> Fails ERR_TIMEOUT" using look_never_times_out L by metis
  show ?case
  proof (cases q)
    case (Waits x)
    then obtain w ws' where w: "ws = w # ws'" using 1(2) L by (cases ws) (simp_all add: notified_loop.simps)
    obtain ret db2 where W: "kogmo_rtdb_obj_wait_notify k wakeup_ts w db1 = (ret, db2)" by force
    show ?thesis
    proof (cases "ret = Inl ERR_TIMEOUT")
      case True
      then have "db' = kogmo_rtdb_obj_wait_notify_done k db2"
        using 1(2) L Waits w W by (subst (asm) notified_loop.simps) auto
      moreover have "\<exists>cs. ipc_log db2 = Unlock (Changenotify_lock k) # cs"
        using W by (auto simp: wait_defs emit_def split: prod.splits)
      ultimately show ?thesis by (auto simp: wait_defs emit_def)
    next
      case False
      then have "notified_loop fuel h i old_ts k wakeup_ts ws' db2 = Some (Some (Inl ERR_TIMEOUT), db')"
        using 1(2) L Waits w W by (subst (asm) notified_loop.simps) auto
      then show ?thesis by (rule 1(1) [OF L refl Waits w W [symmetric] False])
    qed
  qed (use 1(2) L nf in \<open>auto simp: notified_loop.simps\<close>)
qed

text \<open>
  Without notifications the call then returns what it has read of the old version: its size, a
  success, with nothing in the buffer, and gives back a lock it has not taken.
\<close>

lemma polled_timeout_succeeds:
  assumes "kogmo_rtdb_obj_findmeta_byid i db = Some k" "no_notifies (flags (objmeta db ! k))"
    and "look_newer fuel h i old_ts k db = Some (Waits ret, db1)" "wakeup_ts \<noteq> 0"
    and "wakeup_ts < kogmo_timestamp_add_secs (kogmo_timestamp_now (clock db1 (ticks db1))) (poll_time (objmeta db1 ! k))"
  shows "kogmo_rtdb_obj_readdata_waitnext_until fuel h i old_ts buf sz wakeup_ts ws nss db
    = Some (ret, buf, emit (Unlock (Changenotify_lock k)) (db1\<lparr>ticks := Suc (ticks db1)\<rparr>))"
  using assms by (simp add: kogmo_rtdb_obj_readdata_waitnext_until_def wait_newer_def polled_loop.simps Let_def wait_defs)

section \<open>Objects that have come and gone\<close>

lemma ids_up_to_zero: "0 \<notin> set js \<Longrightarrow> ids_of (js @ 0 # xs) = js"
  by (induction js) (auto simp: ids_of_def)

lemma ids_of_put: "0 \<notin> set js \<Longrightarrow> ids_of (put_ids js l) = js"
  by (simp add: put_ids_def ids_up_to_zero)

lemma ids_nonzero: "0 \<notin> set (ids_of l)"
  by (auto simp: ids_of_def dest: set_takeWhileD)

lemma matching_oids: "0 \<notin> set (map oid (matching rx ot parent prc ts incl db))"
proof
  assume "0 \<in> set (map oid (matching rx ot parent prc ts incl db))"
  then obtain m where "search_match rx ot parent prc ts incl m" "oid m = 0" by (auto simp: matching_def)
  then show False by (simp add: search_match_def)
qed

text \<open>What the search leaves in the array.\<close>

lemma search_ids:
  assumes q: "parse_name h nm ot = Query rx ot'" and l: "length l = Suc OBJIDLIST_MAX"
    and M: "M = matching rx ot' parent prc 0 False db" "length M < OBJIDLIST_MAX"
    and s: "kogmo_rtdb_obj_searchinfo_nolock h nm ot parent prc 0 (Some l) 0 db = (ret, new, db')"
  shows "db' = db" "length (the new) = Suc OBJIDLIST_MAX" "ids_of (the new) = map oid M"
proof -
  have z: "0 \<notin> set (map oid M)" unfolding M(1) by (rule matching_oids)
  show d: "db' = db"
    using s q by (auto simp: kogmo_rtdb_obj_searchinfo_nolock_def kogmo_rtdb_obj_searchinfo_internal_def Let_def split: prod.splits if_splits option.splits)
  have "length (the new) = Suc OBJIDLIST_MAX \<and> ids_of (the new) = map oid M"
  proof (cases "M = []")
    case True
    obtain f l1 where sl: "search_loop (search_match rx ot' parent prc 0 False) 0 (objmeta db) (0, 0, Some l) = (0, f, Some l1)" "length l1 = length l"
      using search_loop_all [of 0 0 l "search_match rx ot' parent prc 0 False" "objmeta db" 0] l True M(1) by (auto simp: matching_def)
    have "the new = l1[0 := 0]"
      using s q sl unfolding kogmo_rtdb_obj_searchinfo_nolock_def kogmo_rtdb_obj_searchinfo_internal_def
      by (auto simp: Let_def split: if_splits option.splits)
    moreover obtain y ys where "l1 = y # ys" using sl(2) l by (cases l1) simp_all
    ultimately show ?thesis
      using sl(2) l True by (simp_all add: ids_of_def)
  next
    case False
    obtain l' d where S: "kogmo_rtdb_obj_searchinfo_internal h nm ot parent prc 0 (Some l) 0 True False db = (Inr (int (length M)), Some l', d)"
      "take (min (length M) (OBJIDLIST_MAX - 1)) l' = map oid (take (OBJIDLIST_MAX - 1) M)"
      "l' ! min (length M) OBJIDLIST_MAX = 0" "length l' = Suc OBJIDLIST_MAX"
      using search_list [OF q l M(1) False, of True] by blast
    have n: "the new = l'" using s S(1) by (auto simp: kogmo_rtdb_obj_searchinfo_nolock_def)
    have t: "take (length M) l' = map oid M" "l' ! length M = 0" "length M < length l'" using S(2-4) M(2) by (simp_all add: min_absorb1)
    have "l' = map oid M @ 0 # drop (Suc (length M)) l'"
      using id_take_nth_drop [OF t(3)] t by simp
    then have "ids_of l' = map oid M" using ids_up_to_zero [OF z] by metis
    with n S(4) show ?thesis by simp
  qed
  then show "length (the new) = Suc OBJIDLIST_MAX" "ids_of (the new) = map oid M" by simp_all
qed

text \<open>
  What one look leaves in the caller's arrays: \<open>new\<close> are the objects there are, the others are compared
  with the ids that were known.
\<close>

definition reports :: "int list \<Rightarrow> id_lists \<Rightarrow> id_lists \<Rightarrow> int \<Rightarrow> bool" where
  "reports new l l' n \<longleftrightarrow> ids_of (known_idlist l') = new
     \<and> ids_of (added_idlist l') = filter (\<lambda>i. i \<notin> set (ids_of (known_idlist l))) new
     \<and> ids_of (deleted_idlist l') = filter (\<lambda>i. i \<notin> set new) (ids_of (known_idlist l))
     \<and> n = int (length (ids_of (added_idlist l')) + length (ids_of (deleted_idlist l')))"

lemma compare_reports:
  assumes "compare_lists newidlist l = (n, l1)" "ids_of newidlist = new" "0 \<notin> set new"
  shows "reports new l (take_over newidlist l1) n" "known_idlist l1 = known_idlist l"
proof -
  have "0 \<notin> set (id_diff new (ids_of (known_idlist l)))" "0 \<notin> set (id_diff (ids_of (known_idlist l)) new)"
    using assms(3) ids_nonzero by (auto simp: id_diff_def)
  then show "reports new l (take_over newidlist l1) n" "known_idlist l1 = known_idlist l"
    using assms by (auto simp: compare_lists_def Let_def reports_def take_over_def ids_of_put) (simp_all add: id_diff_def)
qed

lemma search_length:
  assumes q: "parse_name h nm ot = Query rx ot'" and l: "length l = Suc OBJIDLIST_MAX"
    and s: "kogmo_rtdb_obj_searchinfo_nolock h nm ot parent prc 0 (Some l) 0 db = (ret, new, db')"
  shows "\<exists>l2. new = Some l2 \<and> length l2 = Suc OBJIDLIST_MAX"
proof -
  obtain f l1 where "search_loop (search_match rx ot' parent prc 0 False) 0 (objmeta db) (0, 0, Some l)
      = (int (length (matching rx ot' parent prc 0 False db)), f, Some l1)" "length l1 = length l"
    using search_loop_all [of 0 0 l "search_match rx ot' parent prc 0 False" "objmeta db" 0] l by (auto simp: matching_def)
  then show ?thesis
    using s q l unfolding kogmo_rtdb_obj_searchinfo_nolock_def kogmo_rtdb_obj_searchinfo_internal_def
    by (auto simp: Let_def split: if_splits option.splits)
qed

lemma waitnext_cases:
  assumes q: "parse_name h nm ot = Query rx ot'"
    and r: "waitnext_loop h nm ot parent prc wakeup_ts ws newidlist l db = Some (Inr n, l', db')"
    and s: "length newidlist = Suc OBJIDLIST_MAX"
  obtains (found) ret new l1 db1 where
      "kogmo_rtdb_obj_searchinfo_nolock h nm ot parent prc 0 (Some newidlist) 0 (kogmo_rtdb_obj_wait_metanotify_prepare db) = (ret, Some new, db1)"
      "compare_lists new l = (n, l1)" "0 < n" "l' = take_over new l1" "db' = kogmo_rtdb_obj_wait_metanotify_done db1"
    | (again) new l1 w ws' db2 where "ws = w # ws'" "length new = Suc OBJIDLIST_MAX" "known_idlist l1 = known_idlist l"
      "waitnext_loop h nm ot parent prc wakeup_ts ws' new l1 db2 = Some (Inr n, l', db')"
proof -
  obtain ret new0 db1 where S0: "kogmo_rtdb_obj_searchinfo_nolock h nm ot parent prc 0 (Some newidlist) 0
      (kogmo_rtdb_obj_wait_metanotify_prepare db) = (ret, new0, db1)" by (metis prod_cases3)
  obtain new where new: "new0 = Some new" "length new = Suc OBJIDLIST_MAX" using search_length [OF q s S0] by blast
  note S = S0 [unfolded new(1)]
  have nf: "\<not> fails ret" using r by (auto simp: waitnext_loop.simps S fails_def split: sum.splits if_splits)
  obtain n1 l1 where C: "compare_lists new l = (n1, l1)" by force
  have kn: "known_idlist l1 = known_idlist l" using C by (auto simp: compare_lists_def Let_def)
  show thesis
  proof (cases "0 < n1")
    case True
    then have "n1 = n \<and> l' = take_over new l1 \<and> db' = kogmo_rtdb_obj_wait_metanotify_done db1"
      using r nf by (simp add: waitnext_loop.simps S C)
    then show thesis using found [OF S] C True by simp
  next
    case False
    then obtain w ws' where w: "ws = w # ws'" using r nf by (cases ws) (simp_all add: waitnext_loop.simps S C)
    obtain ret2 db2 where W: "kogmo_rtdb_obj_wait_metanotify wakeup_ts w db1 = (ret2, db2)" by force
    have "waitnext_loop h nm ot parent prc wakeup_ts ws' new l1 db2 = Some (Inr n, l', db')"
      using r nf False by (subst (asm) waitnext_loop.simps) (auto simp: S C w W split: if_splits)
    then show thesis by (rule again [OF w new(2) kn])
  qed
qed

lemma found_reports:
  assumes q: "parse_name h nm ot = Query rx ot'" and l: "length newidlist = Suc OBJIDLIST_MAX"
    and S: "kogmo_rtdb_obj_searchinfo_nolock h nm ot parent prc 0 (Some newidlist) 0 db = (ret, Some new, db1)"
    and C: "compare_lists new l = (n, l1)" and M: "length (matching rx ot' parent prc 0 False (emit c db1)) < OBJIDLIST_MAX"
  shows "reports (map oid (matching rx ot' parent prc 0 False (emit c db1))) l (take_over new l1) n"
proof -
  have d: "db1 = db"
    using S q by (auto simp: kogmo_rtdb_obj_searchinfo_nolock_def kogmo_rtdb_obj_searchinfo_internal_def Let_def split: prod.splits if_splits option.splits)
  have m: "matching rx ot' parent prc 0 False (emit c db1) = matching rx ot' parent prc 0 False db" by (simp add: matching_def d)
  have "ids_of new = map oid (matching rx ot' parent prc 0 False db)"
    using search_ids(3) [OF q l refl _ S] M by (simp add: m)
  from compare_reports(1) [OF C this matching_oids] show ?thesis by (simp add: m)
qed

lemma reports_known: "known_idlist l1 = known_idlist l \<Longrightarrow> reports new l1 l' n = reports new l l' n"
  by (simp add: reports_def)

lemma waitnext_loop_reports:
  assumes q: "parse_name h nm ot = Query rx ot'" and M: "length (matching rx ot' parent prc 0 False db') < OBJIDLIST_MAX"
    and r: "waitnext_loop h nm ot parent prc wakeup_ts ws newidlist l db = Some (Inr n, l', db')"
    and s: "length newidlist = Suc OBJIDLIST_MAX"
  shows "0 < n \<and> reports (map oid (matching rx ot' parent prc 0 False db')) l l' n"
  using r s
proof (induction ws arbitrary: newidlist l db)
  case (Nil newidlist l db)
  from q Nil show ?case
  proof (cases rule: waitnext_cases)
    case (found ret new l1 db1)
    then show ?thesis using found_reports [OF q Nil(2) found(1,2)] M by (simp add: wait_defs)
  qed simp
next
  case (Cons w ws newidlist l db)
  from q Cons(2,3) show ?case
  proof (cases rule: waitnext_cases)
    case (found ret new l1 db1)
    then show ?thesis using found_reports [OF q Cons(3) found(1,2)] M by (simp add: wait_defs)
  next
    case (again new l1 w' ws' db2)
    from again(1) have "ws' = ws" by simp
    from Cons(1) [OF again(4) [unfolded this] again(2)] reports_known [OF again(3)] show ?thesis by blast
  qed
qed

text \<open>
  C15: When a wait for changes among the objects returns, there are some, and the caller's arrays hold
  them: the ids of the matching objects there are then, in slot order, the ones of them that were not
  known, and the known ones that are gone; the result is their number.
\<close>
theorem waitnext_reports_changes:
  assumes r: "kogmo_rtdb_obj_searchinfo_waitnext_until h nm ot parent prc l wakeup_ts ws db = Some (Inr n, l', db')"
    and q: "parse_name h nm ot = Query rx ot'" and s: "length (h_stack h) = Suc OBJIDLIST_MAX"
    and M: "length (filter (search_match rx ot' parent prc 0 False) (objmeta db')) < OBJIDLIST_MAX"
  shows "0 < n \<and> reports (map oid (filter (search_match rx ot' parent prc 0 False) (objmeta db'))) l l' n"
  using waitnext_loop_reports [OF q, of parent prc db' wakeup_ts ws "h_stack h" l db n l'] assms
  by (simp add: kogmo_rtdb_obj_searchinfo_waitnext_until_def matching_def)

theorem waitnext_reports_changes_witness:
  "\<exists>l' db'. kogmo_rtdb_obj_searchinfo_waitnext_until ex_h None 0 2 0 \<lparr>known_idlist = [7, 0], added_idlist = [0, 0], deleted_idlist = [0, 0]\<rparr> 0 [] ex_db
      = Some (Inr 2, l', db') \<and> ids_of (added_idlist l') = [3] \<and> ids_of (deleted_idlist l') = [7]"
proof -
  let ?l = "\<lparr>known_idlist = [7, 0], added_idlist = [0, 0], deleted_idlist = [0, 0]\<rparr> :: id_lists"
  have q: "parse_name ex_h None 0 = Query (\<lambda>_. True) 0" by (simp add: parse_name_def)
  let ?M = "matching (\<lambda>_. True) 0 2 0 0 False"
  have m: "?M ex_db = [ex_child]" "?M (emit c ex_db) = [ex_child]" for c by (simp_all add: matching_def search_match_def)
  have big: "length [ex_child] < OBJIDLIST_MAX" by (simp add: OBJIDLIST_MAX_def)
  have s: "length (h_stack ex_h) = Suc OBJIDLIST_MAX" by simp
  let ?db = "kogmo_rtdb_obj_wait_metanotify_prepare ex_db"
  have mp: "?M ?db = [ex_child]" by (simp add: wait_defs m)
  obtain new db1 where S: "kogmo_rtdb_obj_searchinfo_nolock ex_h None 0 2 0 0 (Some (h_stack ex_h)) 0 ?db = (Inr 1, Some new, db1)"
    using search_list [OF q s refl, of 2 0 0 False ?db True] mp by (auto simp: kogmo_rtdb_obj_searchinfo_nolock_def)
  have "ids_of new = [3]" "db1 = ?db" using search_ids(1,3) [OF q s refl _ S] mp big by simp_all
  then have C: "compare_lists new ?l = (2, ?l\<lparr>added_idlist := [3, 0], deleted_idlist := [7, 0]\<rparr>)"
    by (simp add: compare_lists_def id_diff_def put_ids_def) (simp add: ids_of_def id_diff_def put_ids_def)
  obtain l' db' where r: "kogmo_rtdb_obj_searchinfo_waitnext_until ex_h None 0 2 0 ?l 0 [] ex_db = Some (Inr 2, l', db')" "objmeta db' = objmeta ex_db"
    using S C \<open>db1 = ?db\<close> by (simp add: kogmo_rtdb_obj_searchinfo_waitnext_until_def waitnext_loop.simps fails_def wait_defs)
  have f: "filter (search_match (\<lambda>_. True) 0 2 0 0 False) (objmeta db') = [ex_child]" using m(1) r(2) by (simp add: matching_def)
  have "reports [3] ?l l' 2" using waitnext_reports_changes [OF r(1) q s] f big by simp
  then have "ids_of (added_idlist l') = [3] \<and> ids_of (deleted_idlist l') = [7]" by (simp add: reports_def ids_of_def)
  with r(1) show ?thesis by blast
qed

end
