(* ===== verification/Waiting_Notify.thy ===== *)
theory Waiting_Notify
  imports Ipc_Sync
begin

text \<open>
  Committing and waiting at the same time (\<open>rtdb/kogmo_rtdb_proc_obj_notify.h\<close>, used by
  \<open>kogmo_rtdb_obj_writedata\<close> and \<open>kogmo_rtdb_obj_readdata_waitnext_until\<close> in
  \<open>rtdb/kogmo_rtdb_objdata.c\<close>): any number of processes that wait for data of one object or commit it,
  each step one call, interleaved in any way. The lock is an error-checking mutex; a process asleep
  on the condition variable may also wake up without a signal or by a time-out.
\<close>

section \<open>The steps\<close>

text \<open>
  A waiting process has the time of the version it knows. It holds the lock when it is about to look,
  has found a newer version, has found none (\<open>Still\<close>), or has got the lock again after it was woken; a
  writer holds it before the commit, after it, and after the signal.
\<close>

datatype notify_pc = Elsewhere | Looking timestamp | Found | Still timestamp | Asleep timestamp | Woken timestamp bool
  | Relocked timestamp bool | Unlocked timestamp bool | Blocking | Committed | Notified

record notify_state =
  changenotify_lock :: mutex
  newest :: timestamp
  pc_of :: "nat \<Rightarrow> notify_pc"

definition go_to :: "nat \<Rightarrow> notify_pc \<Rightarrow> notify_state \<Rightarrow> notify_state" where
  "go_to p c s = s\<lparr>pc_of := (pc_of s)(p := c)\<rparr>"

text \<open>Taking the lock when nobody has it, and giving it back: no effect when the caller does not have it.\<close>

definition take_notify_lock :: "nat \<Rightarrow> notify_state \<Rightarrow> notify_state" where
  "take_notify_lock p s = s\<lparr>changenotify_lock := Some p\<rparr>"

definition give_notify_lock :: "nat \<Rightarrow> notify_state \<Rightarrow> notify_state" where
  "give_notify_lock p s = s\<lparr>changenotify_lock := snd (kogmo_rtdb_ipc_mutex_unlock p (changenotify_lock s))\<rparr>"

text \<open>A look at the newest version, and the wait, which gives the lock back and goes to sleep at once.\<close>

definition look_at_newest :: "nat \<Rightarrow> timestamp \<Rightarrow> notify_state \<Rightarrow> notify_state" where
  "look_at_newest p old_ts s = go_to p (if old_ts < newest s then Found else Still old_ts) s"

definition fall_asleep :: "nat \<Rightarrow> timestamp \<Rightarrow> notify_state \<Rightarrow> notify_state" where
  "fall_asleep p old_ts s = go_to p (Asleep old_ts) (give_notify_lock p s)"

text \<open>A version is made valid and becomes the newest one; then all that sleep are signalled.\<close>

definition make_newest :: "nat \<Rightarrow> timestamp \<Rightarrow> notify_state \<Rightarrow> notify_state" where
  "make_newest p ts s = go_to p Committed (s\<lparr>newest := ts\<rparr>)"

definition signal_all :: "nat \<Rightarrow> notify_state \<Rightarrow> notify_state" where
  "signal_all p s = go_to p Notified
     (s\<lparr>pc_of := (\<lambda>q. case pc_of s q of Asleep old_ts \<Rightarrow> Woken old_ts False | c \<Rightarrow> c)\<rparr>)"

text \<open>
  After the wait the lock is given back; after a time-out it is given back again, otherwise the loop
  takes it again.
\<close>

inductive notify_step :: "notify_state \<Rightarrow> notify_state \<Rightarrow> bool" where
  wait_prepare: "pc_of s p = Elsewhere \<or> pc_of s p = Unlocked old_ts False \<Longrightarrow> changenotify_lock s = None
     \<Longrightarrow> notify_step s (go_to p (Looking old_ts) (take_notify_lock p s))"
| wait_look: "pc_of s p = Looking old_ts \<Longrightarrow> notify_step s (look_at_newest p old_ts s)"
| wait_found: "pc_of s p = Found \<Longrightarrow> notify_step s (go_to p Elsewhere (give_notify_lock p s))"
| wait_sleep: "pc_of s p = Still old_ts \<Longrightarrow> notify_step s (fall_asleep p old_ts s)"
| wait_wakes: "pc_of s p = Asleep old_ts \<Longrightarrow> notify_step s (go_to p (Woken old_ts timeout) s)"
| wait_relock: "pc_of s p = Woken old_ts timeout \<Longrightarrow> changenotify_lock s = None
     \<Longrightarrow> notify_step s (go_to p (Relocked old_ts timeout) (take_notify_lock p s))"
| wait_unlock: "pc_of s p = Relocked old_ts timeout \<Longrightarrow> notify_step s (go_to p (Unlocked old_ts timeout) (give_notify_lock p s))"
| wait_timeout: "pc_of s p = Unlocked old_ts True \<Longrightarrow> notify_step s (go_to p Elsewhere (give_notify_lock p s))"
| commit_prepare: "pc_of s p = Elsewhere \<Longrightarrow> changenotify_lock s = None
     \<Longrightarrow> notify_step s (go_to p Blocking (take_notify_lock p s))"
| commit_valid: "pc_of s p = Blocking \<Longrightarrow> newest s < ts \<Longrightarrow> notify_step s (make_newest p ts s)"
| commit_signal: "pc_of s p = Committed \<Longrightarrow> notify_step s (signal_all p s)"
| commit_done: "pc_of s p = Notified \<Longrightarrow> notify_step s (go_to p Elsewhere (give_notify_lock p s))"

inductive_cases notify_stepE: "notify_step s s'"

definition notify_start :: notify_state where
  "notify_start = \<lparr>changenotify_lock = None, newest = 0, pc_of = (\<lambda>_. Elsewhere)\<rparr>"

inductive notify_reachable :: "notify_state \<Rightarrow> bool" where
  notify_init: "notify_reachable notify_start"
| notify_next: "notify_reachable s \<Longrightarrow> notify_step s s' \<Longrightarrow> notify_reachable s'"

section \<open>The invariant\<close>

fun holds_lock :: "notify_pc \<Rightarrow> bool" where
  "holds_lock (Looking _) = True"
| "holds_lock Found = True"
| "holds_lock (Still _) = True"
| "holds_lock (Relocked _ _) = True"
| "holds_lock Blocking = True"
| "holds_lock Committed = True"
| "holds_lock Notified = True"
| "holds_lock _ = False"

definition lock_owned :: "notify_state \<Rightarrow> bool" where
  "lock_owned s \<longleftrightarrow> (\<forall>p. holds_lock (pc_of s p) \<longleftrightarrow> changenotify_lock s = Some p)"

text \<open>Who has decided to sleep has seen the newest version; who sleeps has, or will be signalled.\<close>

definition none_missed :: "notify_state \<Rightarrow> bool" where
  "none_missed s \<longleftrightarrow> (\<forall>p old_ts. pc_of s p = Still old_ts \<longrightarrow> newest s \<le> old_ts)
     \<and> (\<forall>p old_ts. pc_of s p = Asleep old_ts \<longrightarrow> newest s \<le> old_ts \<or> (\<exists>q. pc_of s q = Committed))"

lemmas notify_defs = go_to_def take_notify_lock_def give_notify_lock_def look_at_newest_def fall_asleep_def
  make_newest_def signal_all_def

lemma unlock_effect: "snd (kogmo_rtdb_ipc_mutex_unlock p m) = (if m = Some p then None else m)"
  by (simp add: mutex_defs)

lemma holds_lock_woken: "holds_lock (case c of Asleep old_ts \<Rightarrow> Woken old_ts False | c \<Rightarrow> c) = holds_lock c"
  by (cases c) simp_all

lemma lock_owned_step: "notify_step s s' \<Longrightarrow> lock_owned s \<Longrightarrow> lock_owned s'"
  unfolding lock_owned_def
  by (erule notify_stepE; simp add: notify_defs unlock_effect holds_lock_woken; (metis holds_lock.simps)?)

lemma none_missed_move:
  assumes "none_missed s" "pc_of s1 = pc_of s" "newest s1 = newest s" "pc_of s p \<noteq> Committed"
    and "\<And>old_ts. c = Still old_ts \<or> c = Asleep old_ts \<Longrightarrow> newest s \<le> old_ts"
  shows "none_missed (go_to p c s1)"
  unfolding none_missed_def
proof (intro conjI allI impI)
  fix q old_ts
  show "newest (go_to p c s1) \<le> old_ts" if "pc_of (go_to p c s1) q = Still old_ts"
    using that assms by (cases "q = p") (auto simp: go_to_def none_missed_def)
  assume a: "pc_of (go_to p c s1) q = Asleep old_ts"
  show "newest (go_to p c s1) \<le> old_ts \<or> (\<exists>q. pc_of (go_to p c s1) q = Committed)"
  proof (cases "q = p")
    case True
    then show ?thesis using a assms(3) assms(5) [of old_ts] by (simp add: go_to_def)
  next
    case False
    then have "newest s \<le> old_ts \<or> (\<exists>q. pc_of s q = Committed)" using a assms(1,2) by (simp add: go_to_def none_missed_def)
    then show ?thesis
    proof
      assume "\<exists>q. pc_of s q = Committed"
      then obtain r where "pc_of s r = Committed" by blast
      then have "pc_of (go_to p c s1) r = Committed" using assms(2,4) by (auto simp: go_to_def)
      then show ?thesis by blast
    qed (use assms(3) in \<open>simp add: go_to_def\<close>)
  qed
qed

text \<open>The lock keeps a commit out from the look to the sleep.\<close>

lemma none_missed_step:
  assumes "notify_step s s'" "lock_owned s" "none_missed s"
  shows "none_missed s'"
  using assms(1)
proof (cases rule: notify_step.cases)
  case (commit_valid p ts)
  have "\<not> holds_lock (pc_of s q)" if "q \<noteq> p" for q
    using assms(2) commit_valid(2) that unfolding lock_owned_def by (metis holds_lock.simps(5) option.inject)
  then have "pc_of s q \<noteq> Still old_ts" for q old_ts using commit_valid(2) by (metis holds_lock.simps(3) notify_pc.distinct)
  then show ?thesis unfolding commit_valid(1) by (auto simp: none_missed_def notify_defs)
next
  case (commit_signal p)
  then show ?thesis using assms(3) by (auto simp: none_missed_def notify_defs split: notify_pc.splits)
next
  case (wait_sleep p old_ts)
  then have "newest s \<le> old_ts" using assms(3) by (simp add: none_missed_def)
  with wait_sleep show ?thesis by (auto simp: fall_asleep_def give_notify_lock_def intro!: none_missed_move [OF assms(3)])
qed (auto simp: look_at_newest_def give_notify_lock_def take_notify_lock_def intro!: none_missed_move [OF assms(3)])

lemma notify_invariant: "notify_reachable s \<Longrightarrow> lock_owned s \<and> none_missed s"
proof (induction rule: notify_reachable.induct)
  case notify_init
  then show ?case by (simp add: notify_start_def lock_owned_def none_missed_def)
next
  case (notify_next s s')
  then show ?case using lock_owned_step none_missed_step by blast
qed

section \<open>No wake-up is lost\<close>

text \<open>
  C13: No wake-up is lost: whenever a process sleeps while there is a version newer than the one it
  knows, some process has made the version valid and not yet signalled, holds the lock, and its next
  step wakes all sleepers.
\<close>
theorem no_lost_wakeup:
  assumes "notify_reachable s" "pc_of s p = Asleep old_ts" "old_ts < newest s"
  shows "\<exists>q. pc_of s q = Committed \<and> changenotify_lock s = Some q \<and> notify_step s (signal_all q s)
    \<and> pc_of (signal_all q s) p = Woken old_ts False"
proof -
  from notify_invariant [OF assms(1)] have i: "lock_owned s" "none_missed s" by blast+
  with assms(2,3) obtain q where q: "pc_of s q = Committed" unfolding none_missed_def by (meson leD)
  then have "changenotify_lock s = Some q" using i(1) unfolding lock_owned_def by (metis holds_lock.simps(6))
  moreover have "q \<noteq> p" using q assms(2) by auto
  ultimately show ?thesis using q assms(2) commit_signal [OF q] by (auto simp: notify_defs)
qed

text \<open>Process 1 waits for something newer than 5 and sleeps; process 2 commits at 7.\<close>

definition ex_sleeping :: notify_state where
  "ex_sleeping = fall_asleep 1 5 (look_at_newest 1 5 (go_to 1 (Looking 5) (take_notify_lock 1 notify_start)))"

definition ex_committing :: notify_state where
  "ex_committing = make_newest 2 7 (go_to 2 Blocking (take_notify_lock 2 ex_sleeping))"

lemma ex_notify:
  "pc_of ex_sleeping = (\<lambda>_. Elsewhere)(1 := Asleep 5)" "changenotify_lock ex_sleeping = None" "newest ex_sleeping = 0"
  by (simp_all add: ex_sleeping_def notify_defs notify_start_def unlock_effect)

lemma ex_committing_reachable: "notify_reachable ex_committing"
proof -
  let ?a = "go_to 1 (Looking 5) (take_notify_lock 1 notify_start)"
  have 1: "notify_step notify_start ?a" by (rule wait_prepare) (simp_all add: notify_start_def)
  have 2: "notify_step ?a (look_at_newest 1 5 ?a)" by (rule wait_look) (simp add: notify_defs)
  have 3: "notify_step (look_at_newest 1 5 ?a) ex_sleeping"
    unfolding ex_sleeping_def by (rule wait_sleep) (simp add: notify_defs notify_start_def)
  have 4: "notify_step ex_sleeping (go_to 2 Blocking (take_notify_lock 2 ex_sleeping))"
    by (rule commit_prepare) (simp_all add: ex_notify)
  have 5: "notify_step (go_to 2 Blocking (take_notify_lock 2 ex_sleeping)) ex_committing"
    unfolding ex_committing_def by (rule commit_valid) (simp_all add: notify_defs ex_notify)
  note R = notify_next [OF notify_next [OF notify_next [OF notify_init 1] 2] 3]
  show ?thesis by (rule notify_next [OF notify_next [OF R 4] 5])
qed

theorem no_lost_wakeup_witness:
  "\<exists>q. pc_of ex_committing q = Committed \<and> pc_of (signal_all q ex_committing) 1 = Woken 5 False"
proof -
  have "pc_of ex_committing 1 = Asleep 5" "newest ex_committing = 7"
    by (simp_all add: ex_committing_def notify_defs ex_notify)
  with no_lost_wakeup [OF ex_committing_reachable, of 1 5] show ?thesis by auto
qed

end
