(* ===== verification/Mirror.thy ===== *)
theory Mirror
  imports Objmeta_Props Objdata_Props Info_Codec Housekeeping
begin

text \<open>
  Access to a database over UDP (\<open>udprmon/\<close>): the packets (\<open>udpsimple.h\<close>), the server that answers them
  from its database (\<open>udpsimpleserver.c\<close>) and the library a client uses instead of the real one
  (\<open>libkogmo_rtdb_udpmon.c\<close>), as the Makefile builds them, with compression. The compressor and the
  JPEG codec are arguments, and so is what the network delivers.
\<close>

section \<open>Packets\<close>

definition BUFSIZE :: nat where
  "BUFSIZE = 650000"

definition udpmon_protocol_version :: int where
  "udpmon_protocol_version = 2"

definition UDPSIMPLEFLAG_INFO :: int where "UDPSIMPLEFLAG_INFO = 1"
definition UDPSIMPLEFLAG_DATA :: int where "UDPSIMPLEFLAG_DATA = 2"
definition UDPSIMPLEFLAG_LIST :: int where "UDPSIMPLEFLAG_LIST = 4"
definition UDPSIMPLEFLAG_WRITE :: int where "UDPSIMPLEFLAG_WRITE = 8"
definition UDPSIMPLEFLAG_JPEGIMAGE :: int where "UDPSIMPLEFLAG_JPEGIMAGE = 128"

record udp_req =
  q_fcc :: "char list"
  q_version :: int
  q_request :: int
  q_flags :: int
  q_oid :: int
  q_ts :: timestamp
  q_name :: "char list"
  q_otype :: int
  q_parent_oid :: int
  q_proc_oid :: int
  q_nth :: int

definition req_size :: nat where
  "req_size = 70"

definition req_bytes :: "udp_req \<Rightarrow> byte list" where
  "req_bytes q = string_bytes (q_fcc q) @ enc 2 (q_version q) @ enc 2 (q_request q) @ enc 2 (q_flags q) @ enc 4 (q_oid q) @
     enc 8 (q_ts q) @ string_bytes (q_name q) @ enc 4 (q_otype q) @ enc 4 (q_parent_oid q) @ enc 4 (q_proc_oid q) @ enc 4 (q_nth q)"

definition req_of :: "byte list \<Rightarrow> udp_req" where
  "req_of bs = \<lparr>q_fcc = bytes_string (get 0 4 bs), q_version = udec (get 4 2 bs), q_request = udec (get 6 2 bs),
     q_flags = udec (get 8 2 bs), q_oid = sdec (get 10 4 bs), q_ts = sdec (get 14 8 bs), q_name = bytes_string (get 22 32 bs),
     q_otype = sdec (get 54 4 bs), q_parent_oid = sdec (get 58 4 bs), q_proc_oid = sdec (get 62 4 bs), q_nth = sdec (get 66 4 bs)\<rparr>"

record udp_rply =
  r_fcc :: "char list"
  r_version :: int
  r_reply :: int
  r_flags :: int
  r_oid :: int

definition rply_size :: nat where
  "rply_size = 14"

definition rply_bytes :: "udp_rply \<Rightarrow> byte list" where
  "rply_bytes r = string_bytes (r_fcc r) @ enc 2 (r_version r) @ enc 2 (r_reply r) @ enc 2 (r_flags r) @ enc 4 (r_oid r)"

definition rply_of :: "byte list \<Rightarrow> udp_rply" where
  "rply_of bs = \<lparr>r_fcc = bytes_string (get 0 4 bs), r_version = udec (get 4 2 bs), r_reply = udec (get 6 2 bs),
     r_flags = udec (get 8 2 bs), r_oid = sdec (get 10 4 bs)\<rparr>"

definition has_bit :: "int \<Rightarrow> int \<Rightarrow> bool" where
  "has_bit fl b \<longleftrightarrow> and fl b \<noteq> 0"

text \<open>An array of ids in memory.\<close>

definition ids_bytes :: "int list \<Rightarrow> byte list" where
  "ids_bytes l = concat (map (enc 4) l)"

section \<open>Images\<close>

text \<open>
  What the build links to: the compressor, and the JPEG codec of \<open>jmemio.c\<close>, which gives the bytes of a
  compressed picture, and for these the content of the memory behind the header of the image.
\<close>

record mirror_env =
  bzip :: "byte list \<Rightarrow> byte list"
  bunzip :: "byte list \<Rightarrow> byte list option"
  write_JPEG_memory :: "byte list \<Rightarrow> int \<Rightarrow> int \<Rightarrow> int \<Rightarrow> byte list"
  read_JPEG_memory :: "byte list \<Rightarrow> byte list"

definition OBJTYPE_A2_IMAGE :: int where "OBJTYPE_A2_IMAGE = 0xA20030"
definition A2_IMAGE_COLORMODEL_RGBJPEG :: int where "A2_IMAGE_COLORMODEL_RGBJPEG = 16"

definition a2_image_size :: nat where "a2_image_size = 48"

definition img_width :: "byte list \<Rightarrow> int" where "img_width bs = sdec (get 24 4 bs)"
definition img_height :: "byte list \<Rightarrow> int" where "img_height bs = sdec (get 28 4 bs)"
definition img_channels :: "byte list \<Rightarrow> int" where "img_channels bs = sdec (get 36 4 bs)"
definition img_colormodell :: "byte list \<Rightarrow> int" where "img_colormodell bs = sdec (get 40 4 bs)"
definition img_widthstep :: "byte list \<Rightarrow> int" where "img_widthstep bs = sdec (get 44 4 bs)"

text \<open>The pixels of a line are grouped by four, of which the first three become equal.\<close>

definition flatten_line :: "nat \<Rightarrow> nat \<Rightarrow> byte list \<Rightarrow> byte list" where
  "flatten_line ws line bs =
     fold (\<lambda>i bs. put (a2_image_size + ws * line + 4 * i + 1) (replicate 2 (bs ! (a2_image_size + ws * line + 4 * i))) bs)
       [0..<(ws + 3) div 4] bs"

definition copy_line :: "nat \<Rightarrow> nat \<Rightarrow> nat \<Rightarrow> byte list \<Rightarrow> byte list" where
  "copy_line ws line dst bs = put (a2_image_size + ws * dst) (get (a2_image_size + ws * line) ws bs) bs"

text \<open>For a picture whose height and line size are not negative.\<close>

definition reduce_a2_image :: "byte list \<Rightarrow> byte list" where
  "reduce_a2_image bs =
     (let ws = nat (img_widthstep bs); h = nat (img_height bs);
          bs = put a2_image_size (replicate (ws * h div 2) 0) bs;
          bs = fold (\<lambda>j bs. let line = h div 2 + 4 * j; bs = flatten_line ws line bs
                 in copy_line ws line (line + 3) (copy_line ws line (line + 2) (copy_line ws line (line + 1) bs)))
               [0..<(h - h div 2 + 3) div 4] bs
      in put (a2_image_size + ws * h * 7 div 8) (replicate (ws * h div 8) 0) bs)"

text \<open>The size, 0 when the picture does not get smaller, and the object.\<close>

definition jpeg_compress_a2_image :: "mirror_env \<Rightarrow> byte list \<Rightarrow> int \<times> byte list" where
  "jpeg_compress_a2_image env bs =
     (let jpeg = write_JPEG_memory env (drop a2_image_size bs) (img_width bs) (img_height bs) (img_channels bs);
          usedsize = int (length jpeg) + int a2_image_size
      in if usedsize > b_size bs then (0, bs) else (usedsize, set_size usedsize (put a2_image_size jpeg bs)))"

definition jpeg_decompress_a2_image :: "mirror_env \<Rightarrow> byte list \<Rightarrow> byte list" where
  "jpeg_decompress_a2_image env bs =
     set_size (int32 (img_widthstep bs * img_height bs + int a2_image_size))
       (take a2_image_size bs @ read_JPEG_memory env (take (nat (b_size bs - int a2_image_size)) (drop a2_image_size bs)))"

section \<open>The server\<close>

text \<open>What the arrays on the stack of the server hold before a packet is handled.\<close>

record server_stack =
  recv_rest :: "nat \<Rightarrow> byte"
  buf_rest :: "nat \<Rightarrow> byte"
  idlist_rest :: "int list"
  info_rest :: obj_info

definition reply_header :: "udp_req \<Rightarrow> int \<Rightarrow> int \<Rightarrow> byte list" where
  "reply_header q fl i = rply_bytes \<lparr>r_fcc = ''RTDB'', r_version = udpmon_protocol_version, r_reply = q_request q, r_flags = fl, r_oid = i\<rparr>"

text \<open>The data of an object as it goes into the packet, and its flags.\<close>

definition send_data :: "mirror_env \<Rightarrow> udp_req \<Rightarrow> obj_info \<Rightarrow> byte list \<Rightarrow> int \<times> byte list" where
  "send_data env q m bs =
     (if b_size bs > 20000 \<and> otype m = OBJTYPE_A2_IMAGE \<and> img_colormodell bs \<noteq> A2_IMAGE_COLORMODEL_RGBJPEG
      then if has_bit (q_flags q) UDPSIMPLEFLAG_JPEGIMAGE
           then (case jpeg_compress_a2_image env bs of (n, bs) \<Rightarrow> (or UDPSIMPLEFLAG_DATA UDPSIMPLEFLAG_JPEGIMAGE, take (nat n) bs))
           else (UDPSIMPLEFLAG_DATA, take (nat (b_size bs)) (reduce_a2_image bs))
      else (UDPSIMPLEFLAG_DATA, take (nat (b_size bs)) bs))"

definition reply_entry :: "udp_req \<Rightarrow> int \<Rightarrow> obj_info \<Rightarrow> int \<Rightarrow> byte list \<Rightarrow> byte list" where
  "reply_entry q i m fl data =
     (if has_bit (q_flags q) UDPSIMPLEFLAG_INFO then reply_header q (or UDPSIMPLEFLAG_INFO fl) i @ info_bytes m @ data
      else reply_header q fl i @ data)"

text \<open>
  Each entry ends at an even place; the byte that fills it up is what the buffer held (of a longer
  picture sent before in the same packet the model does not keep the rest).
\<close>

definition padded :: "server_stack \<Rightarrow> byte list \<Rightarrow> byte list" where
  "padded stk out = (if odd (length out) then out @ [buf_rest stk (length out)] else out)"

text \<open>
  The entries for the objects of a request to read: \<open>out\<close> is the packet up to the last entry that is
  complete. An object that does not fit or cannot be read ends it.
\<close>

fun serve_objects :: "mirror_env \<Rightarrow> nat \<Rightarrow> handle \<Rightarrow> server_stack \<Rightarrow> udp_req \<Rightarrow> int list \<Rightarrow> byte list \<Rightarrow> rtdb \<Rightarrow> (byte list \<times> rtdb) option" where
  "serve_objects env fuel h stk q [] out db = Some (out, db)"
| "serve_objects env fuel h stk q (i # js) out db =
     (let info = has_bit (q_flags q) UDPSIMPLEFLAG_INFO;
          hdr = length out + rply_size;
          start = hdr + (if info then info_size else 0)
      in if hdr \<ge> BUFSIZE \<or> hdr + info_size \<ge> BUFSIZE then Some (out, db)
         else case kogmo_rtdb_obj_readinfo h i (q_ts q) (info_rest stk) db of
           (Inl _, _, db) \<Rightarrow> Some (out, db)
         | (Inr _, m, db) \<Rightarrow>
             if has_bit (q_flags q) UDPSIMPLEFLAG_DATA then
               if int start + size_max m \<ge> int BUFSIZE then Some (out, db)
               else case kogmo_rtdb_obj_readdata fuel h i (q_ts q) (map (buf_rest stk) [start..<BUFSIZE]) (size_max m) db of
                      None \<Rightarrow> None
                    | Some (osize, bs, db) \<Rightarrow>
                        (case if c_ret osize > 0 then send_data env q m bs else (0, []) of (fl, data) \<Rightarrow>
                           serve_objects env fuel h stk q js (padded stk (out @ reply_entry q i m fl data)) db)
             else serve_objects env fuel h stk q js (padded stk (out @ reply_entry q i m 0 [])) db)"

declare serve_objects.simps [simp del]

text \<open>A request to write: insert or delete an object, then commit a version; \<open>Inl\<close> when there is no reply.\<close>

definition serve_write :: "nat \<Rightarrow> handle \<Rightarrow> udp_req \<Rightarrow> int list \<Rightarrow> nat \<Rightarrow> byte list \<Rightarrow> rtdb \<Rightarrow> (int option \<times> rtdb) option" where
  "serve_write fuel h q idlist recvlen rb db =
     (let write_info =
        (if has_bit (q_flags q) UDPSIMPLEFLAG_INFO then
           if recvlen < req_size + info_size then Some (None, req_size, db)
           else let m = info_of (get req_size info_size rb)
                in if deleted_ts m \<noteq> 0
                   then map_option (\<lambda>(r, m, db). (Some (c_ret r), req_size + info_size, db)) (kogmo_rtdb_obj_delete fuel h m db)
                   else case kogmo_rtdb_obj_insert h m db of (r, m, db) \<Rightarrow> Some (Some (c_ret r), req_size + info_size, db)
         else Some (Some (idlist ! 0), req_size, db))
      in case write_info of
           None \<Rightarrow> None
         | Some (None, _, db) \<Rightarrow> Some (None, db)
         | Some (Some i, recvidx, db) \<Rightarrow>
             if has_bit (q_flags q) UDPSIMPLEFLAG_DATA \<and> i > 0 then
               let data = drop recvidx rb
               in if b_size data \<noteq> int recvlen - int recvidx then Some (None, db)
                  else case kogmo_rtdb_obj_writedata h (idlist ! 0) data db of
                         (r, _, db) \<Rightarrow> Some (Some (if c_ret r < 0 then c_ret r else i), db)
             else Some (Some i, db))"

text \<open>
  The list of ids is nulled from the number of objects on; with a negative number, an error, the loop
  begins before the array.
\<close>

definition null_list :: "int \<Rightarrow> int list \<Rightarrow> int list outcome" where
  "null_list n l = (if n < 0 then Faulted
     else Returned (map (\<lambda>i. if int i < n \<or> i = OBJIDLIST_MAX then l ! i else 0) [0..<Suc OBJIDLIST_MAX]))"

definition serve :: "mirror_env \<Rightarrow> nat \<Rightarrow> handle \<Rightarrow> server_stack \<Rightarrow> byte list \<Rightarrow> rtdb \<Rightarrow> (byte list option outcome \<times> rtdb) option" where
  "serve env fuel h stk pkt db =
     (let got = take BUFSIZE pkt;
          rb = got @ map (recv_rest stk) [length got..<BUFSIZE];
          q = req_of rb; q = q\<lparr>q_name := (q_name q)[NAME_MAXLEN - 1 := NUL]\<rparr>;
          writes = has_bit (q_flags q) UDPSIMPLEFLAG_WRITE;
          reads = has_bit (q_flags q) UDPSIMPLEFLAG_INFO \<or> has_bit (q_flags q) UDPSIMPLEFLAG_DATA
      in if length got < req_size \<or> \<not> strncmp_eq 4 (q_fcc q) ''RTDB'' \<or> q_version q \<noteq> udpmon_protocol_version
         then Some (Returned None, db)
         else case if q_oid q > 0 \<or> writes \<and> has_bit (q_flags q) UDPSIMPLEFLAG_INFO
                   then (1, (idlist_rest stk)[0 := q_oid q, 1 := 0], db)
                   else (case kogmo_rtdb_obj_searchinfo h (Some (q_name q)) (q_otype q) (q_parent_oid q) (q_proc_oid q) (q_ts q)
                             (Some (idlist_rest stk)) (q_nth q) db of (r, l, db) \<Rightarrow> (c_ret r, the l, db)) of
           (listoids, idlist, db) \<Rightarrow>
             (case if has_bit (q_flags q) UDPSIMPLEFLAG_LIST \<and> \<not> writes
                   then (case null_list listoids idlist of
                           Returned l \<Rightarrow> Returned (reply_header q UDPSIMPLEFLAG_LIST listoids @ ids_bytes l, l)
                         | Died \<Rightarrow> Died
                         | Faulted \<Rightarrow> Faulted)
                   else Returned ([], idlist) of
                Died \<Rightarrow> Some (Died, db)
              | Faulted \<Rightarrow> Some (Faulted, db)
              | Returned (out, idlist) \<Rightarrow>
                  if listoids \<le> 0 then Some (Returned (Some (bzip env (out @ reply_header q 0 listoids))), db)
                  else if reads \<and> \<not> writes then
                    if listoids > int (length idlist) then Some (Faulted, db)
                    else map_option (\<lambda>(out, db). (Returned (Some (bzip env out)), db))
                           (serve_objects env fuel h stk q (sort (take (nat listoids) idlist)) out db)
                  else if writes then
                    map_option (\<lambda>(r, db). (Returned (map_option (\<lambda>i. bzip env (out @ reply_header q 0 i)) r), db))
                      (serve_write fuel h q idlist (length got) rb db)
                  else Some (Returned (Some (bzip env out)), db)))"

section \<open>The client\<close>

text \<open>
  The network gets a packet and says what the calls to receive return until the request ends: a packet,
  or \<open>None\<close> when none has come in time; \<open>None\<close> as a whole is a packet that could not be sent. A call
  that waits for more than the network delivers does not return.
\<close>

type_synonym network = "byte list \<Rightarrow> byte list option list option"

definition unpack :: "mirror_env \<Rightarrow> byte list \<Rightarrow> byte list option" where
  "unpack env p = (if p = [] then Some [] else case bunzip env (take BUFSIZE p) of
     None \<Rightarrow> None | Some d \<Rightarrow> if length d \<le> BUFSIZE then Some d else None)"

text \<open>The data of a reply, and the length the caller is told.\<close>

definition reply_data :: "mirror_env \<Rightarrow> byte list \<Rightarrow> int \<times> byte list" where
  "reply_data env d =
     (let data = drop rply_size d
      in if has_bit (r_flags (rply_of d)) UDPSIMPLEFLAG_JPEGIMAGE
         then (let img = jpeg_decompress_a2_image env data in (b_size img, img)) else (int (length data), data))"

definition answers :: "udp_req \<Rightarrow> byte list \<Rightarrow> bool" where
  "answers q d \<longleftrightarrow> rply_size \<le> length d \<and> strncmp_eq 4 (r_fcc (rply_of d)) ''RTDB'' \<and> r_version (rply_of d) = udpmon_protocol_version
     \<and> r_reply (rply_of d) = q_request q \<and> \<not> (q_oid q \<noteq> 0 \<and> r_oid (rply_of d) \<noteq> q_oid q)"

text \<open>The result, the id in the reply, and the buffer of the caller.\<close>

fun await_reply :: "mirror_env \<Rightarrow> udp_req \<Rightarrow> int \<Rightarrow> byte list \<Rightarrow> byte list option list \<Rightarrow> (int \<times> int \<times> byte list) option" where
  "await_reply env q sz buf [] = None"
| "await_reply env q sz buf (None # ps) = Some (- 1, 0, buf)"
| "await_reply env q sz buf (Some p # ps) =
     (case unpack env p of
        None \<Rightarrow> await_reply env q sz buf ps
      | Some d \<Rightarrow> if \<not> answers q d then await_reply env q sz buf ps
                  else case reply_data env d of (datalen, data) \<Rightarrow>
                    (let n = nat (min datalen sz) in Some (datalen, r_oid (rply_of d), take n data @ drop n buf)))"

definition zero_req :: udp_req where
  "zero_req = \<lparr>q_fcc = replicate 4 NUL, q_version = 0, q_request = 0, q_flags = 0, q_oid = 0, q_ts = 0,
     q_name = replicate NAME_MAXLEN NUL, q_otype = 0, q_parent_oid = 0, q_proc_oid = 0, q_nth = 0\<rparr>"

text \<open>\<open>serial\<close> is the number of the last request of the process.\<close>

definition sent_req :: "udp_req \<Rightarrow> int \<Rightarrow> udp_req" where
  "sent_req q serial = q\<lparr>q_fcc := ''RTDB'', q_version := udpmon_protocol_version, q_request := (serial + 1) mod 2 ^ 16,
     q_flags := or (q_flags q) UDPSIMPLEFLAG_JPEGIMAGE\<rparr>"

definition req_packet :: "udp_req \<Rightarrow> int \<Rightarrow> byte list \<Rightarrow> byte list" where
  "req_packet q sz buf = req_bytes q @ (if has_bit (q_flags q) UDPSIMPLEFLAG_WRITE then take (nat sz) buf else [])"

definition udpmon_request ::
    "mirror_env \<Rightarrow> network \<Rightarrow> udp_req \<Rightarrow> int \<Rightarrow> byte list \<Rightarrow> int \<Rightarrow> (int \<times> int \<times> byte list) outcome option" where
  "udpmon_request env net q serial buf sz =
     (let q = sent_req q serial
      in if has_bit (q_flags q) UDPSIMPLEFLAG_WRITE \<and> int req_size + sz > int BUFSIZE then Some Faulted
         else case net (req_packet q sz buf) of
                None \<Rightarrow> Some (Returned (- 1, 0, buf))
              | Some ps \<Rightarrow> map_option Returned (await_reply env q sz buf ps))"

definition udpmon_fake_oid :: int where
  "udpmon_fake_oid = 0x7ffffff"

definition udpmon_obj_readdata ::
    "mirror_env \<Rightarrow> network \<Rightarrow> int \<Rightarrow> int \<Rightarrow> timestamp \<Rightarrow> byte list \<Rightarrow> int \<Rightarrow> (int \<times> byte list) outcome option" where
  "udpmon_obj_readdata env net serial i ts buf sz =
     map_option (\<lambda>r. case r of Returned (ret, _, buf) \<Rightarrow> Returned (ret, if ret > 0 then set_size ret buf else buf) | Died \<Rightarrow> Died | Faulted \<Rightarrow> Faulted)
       (udpmon_request env net (zero_req\<lparr>q_flags := UDPSIMPLEFLAG_DATA, q_oid := i, q_ts := ts\<rparr>) serial buf sz)"

definition udpmon_obj_readdata_older where
  "udpmon_obj_readdata_older env net serial i ts = udpmon_obj_readdata env net serial i (int64 (ts - TICKSPERSECOND))"

definition udpmon_obj_readdata_younger where
  "udpmon_obj_readdata_younger env net serial i ts = udpmon_obj_readdata env net serial i (int64 (ts + TICKSPERSECOND))"

definition udpmon_obj_readdata_datatime where
  "udpmon_obj_readdata_datatime = udpmon_obj_readdata"

definition udpmon_obj_readdata_dataolder where
  "udpmon_obj_readdata_dataolder env net serial i ts = udpmon_obj_readdata env net serial i (int64 (ts - TICKSPERSECOND))"

definition udpmon_obj_readdata_datayounger where
  "udpmon_obj_readdata_datayounger env net serial i ts = udpmon_obj_readdata env net serial i (int64 (ts + TICKSPERSECOND))"

definition udpmon_obj_readinfo ::
    "mirror_env \<Rightarrow> network \<Rightarrow> int \<Rightarrow> int \<Rightarrow> timestamp \<Rightarrow> obj_info \<Rightarrow> ((rtdb_error + int) \<times> obj_info) outcome option" where
  "udpmon_obj_readinfo env net serial i ts m =
     map_option (\<lambda>r. case r of Returned (ret, _, buf) \<Rightarrow> Returned (if ret \<noteq> int info_size then Inl ERR_NOTFOUND else Inr 0, info_of buf)
                             | Died \<Rightarrow> Died | Faulted \<Rightarrow> Faulted)
       (udpmon_request env net (zero_req\<lparr>q_flags := UDPSIMPLEFLAG_INFO, q_oid := i, q_ts := ts\<rparr>) serial (info_bytes m) (int info_size))"

text \<open>The array of ids of the caller, or a local one.\<close>

definition ids_in :: "byte list \<Rightarrow> int list" where
  "ids_in bs = map (\<lambda>k. sdec (get (4 * k) 4 bs)) [0..<Suc OBJIDLIST_MAX]"

definition udpmon_obj_searchinfo ::
    "mirror_env \<Rightarrow> network \<Rightarrow> int \<Rightarrow> char list option \<Rightarrow> int \<Rightarrow> int \<Rightarrow> int \<Rightarrow> timestamp \<Rightarrow> int list \<Rightarrow> int
      \<Rightarrow> ((rtdb_error + int) \<times> int list) outcome option" where
  "udpmon_obj_searchinfo env net serial nm ot parent prc ts idlist nth_ob =
     map_option (\<lambda>r. case r of
         Returned (ret, _, buf) \<Rightarrow>
           let l = ids_in buf
           in Returned (if ret \<noteq> 4 * int (Suc OBJIDLIST_MAX) then Inl ERR_UNKNOWN
                else if nth_ob > 0 then (if l ! nat (nth_ob - 1) > 0 then Inr (l ! nat (nth_ob - 1)) else Inl ERR_NOTFOUND)
                else Inr (int (length (takeWhile (\<lambda>i. i \<noteq> 0) (take OBJIDLIST_MAX l)))), l)
       | Died \<Rightarrow> Died | Faulted \<Rightarrow> Faulted)
       (udpmon_request env net (zero_req\<lparr>q_flags := UDPSIMPLEFLAG_LIST,
          q_name := (case nm of None \<Rightarrow> replicate NAME_MAXLEN NUL | Some n \<Rightarrow> strncpy NAME_MAXLEN (cstr n)),
          q_otype := ot, q_parent_oid := parent, q_proc_oid := prc, q_ts := ts, q_nth := 0\<rparr>) serial (ids_bytes idlist) (4 * int (Suc OBJIDLIST_MAX)))"

definition udpmon_obj_initdata :: "obj_info \<Rightarrow> byte list" where
  "udpmon_obj_initdata m = set_size (size_max m) (replicate (nat (size_max m)) 0)"

definition udpmon_obj_writedata :: "mirror_env \<Rightarrow> network \<Rightarrow> int \<Rightarrow> int \<Rightarrow> byte list \<Rightarrow> (int \<times> byte list) outcome option" where
  "udpmon_obj_writedata env net serial i data =
     (if i = udpmon_fake_oid then Some (Returned (0, data))
      else map_option (\<lambda>r. case r of Returned (ret, _, buf) \<Rightarrow> Returned (if ret < 0 then ret else 0, buf) | Died \<Rightarrow> Died | Faulted \<Rightarrow> Faulted)
        (udpmon_request env net (zero_req\<lparr>q_flags := or UDPSIMPLEFLAG_WRITE UDPSIMPLEFLAG_DATA, q_oid := i\<rparr>) serial data (b_size data)))"

definition udpmon_obj_initinfo :: "char list \<Rightarrow> int \<Rightarrow> int \<Rightarrow> obj_info" where
  "udpmon_obj_initinfo nm ot sz = zero_info\<lparr>name := strncpy NAME_MAXLEN nm, otype := ot, size_max := sz\<rparr>"

definition udpmon_obj_insert :: "mirror_env \<Rightarrow> network \<Rightarrow> int \<Rightarrow> obj_info \<Rightarrow> (int \<times> obj_info) outcome option" where
  "udpmon_obj_insert env net serial m =
     map_option (\<lambda>r. case r of
         Returned (ret, i, buf) \<Rightarrow> Returned (if ret < 0 then (ret, info_of buf) else (i, (info_of buf)\<lparr>oid := i\<rparr>))
       | Died \<Rightarrow> Died | Faulted \<Rightarrow> Faulted)
       (udpmon_request env net (zero_req\<lparr>q_flags := or UDPSIMPLEFLAG_WRITE UDPSIMPLEFLAG_INFO\<rparr>) serial (info_bytes m) (int info_size))"

text \<open>
  The time of the server is the commit time of its own object; \<open>nets n\<close> is the network at the n-th
  request, \<open>ids\<close> and \<open>c3\<close> are what the local variables hold. The second result is the number of requests.
\<close>

definition udpmon_timestamp_now ::
    "mirror_env \<Rightarrow> (nat \<Rightarrow> network) \<Rightarrow> int \<Rightarrow> int list \<Rightarrow> byte list \<Rightarrow> (timestamp \<times> nat) outcome option" where
  "udpmon_timestamp_now env nets serial ids c3 =
     (case udpmon_obj_searchinfo env (nets 0) serial (Some ''rtdb'') OBJTYPE_C3_RTDB 0 0 0 ids 1 of
        None \<Rightarrow> None
      | Some Died \<Rightarrow> Some Died
      | Some Faulted \<Rightarrow> Some Faulted
      | Some (Returned (Inl _, _)) \<Rightarrow> Some (Returned (0, 1))
      | Some (Returned (Inr i, _)) \<Rightarrow>
          map_option (\<lambda>r. case r of Returned (olen, bs) \<Rightarrow> Returned (if olen < 0 then 0 else b_committed_ts bs, 2) | Died \<Rightarrow> Died | Faulted \<Rightarrow> Faulted)
            (udpmon_obj_readdata env (nets 1) (serial + 1) i 0 c3 (int C3_RTDB_size)))"

definition udpmon_obj_delete ::
    "mirror_env \<Rightarrow> (nat \<Rightarrow> network) \<Rightarrow> int \<Rightarrow> int list \<Rightarrow> byte list \<Rightarrow> obj_info \<Rightarrow> (int \<times> obj_info) outcome option" where
  "udpmon_obj_delete env nets serial ids c3 m =
     (case udpmon_timestamp_now env nets serial ids c3 of
        None \<Rightarrow> None
      | Some Died \<Rightarrow> Some Died
      | Some Faulted \<Rightarrow> Some Faulted
      | Some (Returned (now, sent)) \<Rightarrow>
          map_option (\<lambda>r. case r of
              Returned (ret, _, buf) \<Rightarrow> Returned (if ret < 0 then (ret, info_of buf) else (0, (info_of buf)\<lparr>oid := 0\<rparr>))
            | Died \<Rightarrow> Died | Faulted \<Rightarrow> Faulted)
            (udpmon_request env (nets sent) (zero_req\<lparr>q_flags := or UDPSIMPLEFLAG_WRITE UDPSIMPLEFLAG_INFO, q_oid := oid m\<rparr>) (serial + int sent)
               (info_bytes (m\<lparr>deleted_ts := now\<rparr>)) (int info_size)))"

text \<open>The calls that wait look again and again; the network of each look is an element of a list.\<close>

fun udpmon_obj_searchinfo_wait ::
    "mirror_env \<Rightarrow> network list \<Rightarrow> int \<Rightarrow> char list option \<Rightarrow> int \<Rightarrow> int \<Rightarrow> int \<Rightarrow> int list \<Rightarrow> int outcome option" where
  "udpmon_obj_searchinfo_wait env [] serial nm ot parent prc l = None"
| "udpmon_obj_searchinfo_wait env (net # ns) serial nm ot parent prc l =
     (case udpmon_obj_searchinfo env net serial nm ot parent prc 0 l 1 of
        None \<Rightarrow> None
      | Some (Returned (Inr i, _)) \<Rightarrow> Some (Returned i)
      | Some (Returned (Inl _, _)) \<Rightarrow> udpmon_obj_searchinfo_wait env ns (serial + 1) nm ot parent prc l
      | Some Died \<Rightarrow> Some Died
      | Some Faulted \<Rightarrow> Some Faulted)"

fun udpmon_obj_readdata_waitnext ::
    "mirror_env \<Rightarrow> network list \<Rightarrow> int \<Rightarrow> int \<Rightarrow> timestamp \<Rightarrow> byte list \<Rightarrow> int \<Rightarrow> (int \<times> byte list) outcome option" where
  "udpmon_obj_readdata_waitnext env [] serial i old_ts buf sz = None"
| "udpmon_obj_readdata_waitnext env (net # ns) serial i old_ts buf sz =
     (case udpmon_obj_readdata env net serial i 0 buf sz of
        Some (Returned (ret, buf)) \<Rightarrow>
          if ret < 0 \<or> old_ts < b_committed_ts buf then Some (Returned (ret, buf))
          else udpmon_obj_readdata_waitnext env ns (serial + 1) i old_ts buf sz
      | r \<Rightarrow> r)"

end
