(* ===== verification/Mirror_Props.thy ===== *)
theory Mirror_Props
  imports Mirror Recorder_Commit
begin

text \<open>
  What a client gets over the network is what it would get from the database: the packets are read as
  they were written, and a version read through the server is the one the server's database has.
\<close>

section \<open>Packets are read back\<close>

definition typed_req :: "udp_req \<Rightarrow> bool" where
  "typed_req q \<longleftrightarrow> length (q_fcc q) = 4 \<and> length (q_name q) = NAME_MAXLEN
     \<and> (\<forall>x \<in> {q_version q, q_request q, q_flags q}. 0 \<le> x \<and> x < 2 ^ 16)
     \<and> (\<forall>x \<in> {q_oid q, q_otype q, q_parent_oid q, q_proc_oid q, q_nth q}. in_int32 x) \<and> in_int64 (q_ts q)"

definition typed_rply :: "udp_rply \<Rightarrow> bool" where
  "typed_rply r \<longleftrightarrow> length (r_fcc r) = 4 \<and> (\<forall>x \<in> {r_version r, r_reply r, r_flags r}. 0 \<le> x \<and> x < 2 ^ 16) \<and> in_int32 (r_oid r)"

lemma udec_short: "0 \<le> x \<Longrightarrow> x < 2 ^ 16 \<Longrightarrow> udec (enc 2 x) = x"
  by (simp add: udec_enc)

lemma req_roundtrip:
  assumes "typed_req q"
  shows "length (req_bytes q) = req_size" "req_of (req_bytes q @ bs) = q"
  using assms by (simp_all add: req_of_def req_bytes_def get_def typed_req_def NAME_MAXLEN_def sdec_word udec_short req_size_def)

lemma rply_roundtrip:
  assumes "typed_rply r"
  shows "length (rply_bytes r) = rply_size" "rply_of (rply_bytes r @ bs) = r" "drop rply_size (rply_bytes r @ bs) = bs"
  using assms by (simp_all add: rply_of_def rply_bytes_def get_def typed_rply_def sdec_word udec_short rply_size_def)

section \<open>Reading through the server\<close>

text \<open>The compressor: what it packs is unpacked, and it adds at most a hundredth and 600 bytes.\<close>

definition codec_ok :: "mirror_env \<Rightarrow> bool" where
  "codec_ok env \<longleftrightarrow> (\<forall>x. bunzip env (bzip env x) = Some x \<and> bzip env x \<noteq> [] \<and> length (bzip env x) \<le> length x + length x div 100 + 600)"

definition data_req :: "int \<Rightarrow> timestamp \<Rightarrow> int \<Rightarrow> udp_req" where
  "data_req i ts serial = sent_req (zero_req\<lparr>q_flags := UDPSIMPLEFLAG_DATA, q_oid := i, q_ts := ts\<rparr>) serial"

lemmas udp_flags = UDPSIMPLEFLAG_INFO_def UDPSIMPLEFLAG_DATA_def UDPSIMPLEFLAG_LIST_def UDPSIMPLEFLAG_WRITE_def UDPSIMPLEFLAG_JPEGIMAGE_def

lemma data_req_fields:
  "q_fcc (data_req i ts serial) = ''RTDB''" "q_version (data_req i ts serial) = udpmon_protocol_version" "q_oid (data_req i ts serial) = i"
  "q_ts (data_req i ts serial) = ts" "q_name (data_req i ts serial) = replicate NAME_MAXLEN NUL"
  "q_request (data_req i ts serial) = (serial + 1) mod 2 ^ 16" "q_flags (data_req i ts serial) = 130"
  "q_otype (data_req i ts serial) = 0" "q_parent_oid (data_req i ts serial) = 0" "q_proc_oid (data_req i ts serial) = 0" "q_nth (data_req i ts serial) = 0"
  by (simp_all add: data_req_def sent_req_def zero_req_def udp_flags)

lemma data_req_flags:
  "\<not> has_bit 130 UDPSIMPLEFLAG_INFO" "has_bit 130 UDPSIMPLEFLAG_DATA" "\<not> has_bit 130 UDPSIMPLEFLAG_LIST" "\<not> has_bit 130 UDPSIMPLEFLAG_WRITE"
  "\<not> has_bit 2 UDPSIMPLEFLAG_JPEGIMAGE"
  by (simp_all add: has_bit_def udp_flags)

lemma data_req_typed: "in_int32 i \<Longrightarrow> in_int64 ts \<Longrightarrow> typed_req (data_req i ts serial)"
  by (simp add: typed_req_def data_req_fields udpmon_protocol_version_def in_int32_def)

lemma data_packet: "req_packet (data_req i ts serial) sz buf = req_bytes (data_req i ts serial)"
  by (simp add: req_packet_def data_req_fields data_req_flags)

text \<open>The server with a request for the data of an object.\<close>

lemma serve_data_req:
  assumes "in_int32 i" "0 < i" "in_int64 ts" "length (idlist_rest stk) = Suc OBJIDLIST_MAX"
  shows "serve env fuel h stk (req_bytes (data_req i ts serial)) db
    = map_option (\<lambda>(out, db). (Returned (Some (bzip env out)), db)) (serve_objects env fuel h stk (data_req i ts serial) [i] [] db)"
proof -
  let ?q = "data_req i ts serial"
  note R = req_roundtrip [OF data_req_typed [OF assms(1,3), of serial]]
  have t: "take BUFSIZE (req_bytes ?q) = req_bytes ?q" using R(1) by (simp add: req_size_def BUFSIZE_def)
  have nm: "(replicate NAME_MAXLEN NUL)[NAME_MAXLEN - 1 := NUL] = replicate NAME_MAXLEN NUL" by (simp add: list_update_same_conv NAME_MAXLEN_def)
  have q: "?q\<lparr>q_name := (q_name ?q)[NAME_MAXLEN - 1 := NUL]\<rparr> = ?q" using nm by (intro udp_req.equality) (simp_all add: data_req_fields)
  obtain x y l where l: "idlist_rest stk = x # y # l" using assms(4) by (metis OBJIDLIST_MAX_def Suc_length_conv numeral_eq_Suc)
  show ?thesis
    unfolding serve_def Let_def t R(2) q using assms(2) by (simp add: R(1) data_req_fields data_req_flags l)
qed

text \<open>
  The object and the version a reader gets: visible at the time asked for, readable, with an entry for
  that time that fits into a packet and is not a picture the server changes.
\<close>

definition served :: "nat \<Rightarrow> handle \<Rightarrow> int \<Rightarrow> timestamp \<Rightarrow> rtdb \<Rightarrow> nat \<Rightarrow> byte list \<Rightarrow> bool" where
  "served fuel h i ts db k e \<longleftrightarrow> (let m = objmeta db ! k in
     kogmo_rtdb_obj_findmeta_byid i db = Some k \<and> buffer_idx m \<noteq> 0 \<and> may_read h m \<and> obj_ok db k \<and> 0 \<le> history_slot m
     \<and> nat (history_size m) \<le> fuel \<and> \<not> withhold_stale (flags m)
     \<and> (ts = 0 \<or> created_ts m \<le> ts) \<and> (deleted_ts m = 0 \<or> ts \<noteq> 0 \<and> ts \<le> deleted_ts m)
     \<and> pick RTDBSEL_LAST (ts = 0) (deleted_ts m \<noteq> 0) (entry_stop RTDBSEL_LAST ts) (obj_history db k) = Some e
     \<and> size_max m \<le> 640000 \<and> (otype m \<noteq> OBJTYPE_A2_IMAGE \<or> length e \<le> 20000))"

lemma pick_last_mem: "pick RTDBSEL_LAST z d stop xs = Some e \<Longrightarrow> e \<in> set xs"
  by (auto simp: pick_def find_Some_iff split: if_splits)

lemma served_entry:
  assumes "served fuel h i ts db k e"
  shows "base_size \<le> length e" "b_size e = int (length e)"
proof -
  from assms have "e \<in> set (obj_history db k)" "obj_ok db k" by (auto simp: served_def Let_def dest: pick_last_mem)
  then show "base_size \<le> length e" "b_size e = int (length e)" using entry_size by (metis in_set_conv_nth)+
qed

lemma served_read:
  assumes "served fuel h i ts db k e" "size_max (objmeta db ! k) \<le> sz"
  shows "kogmo_rtdb_obj_readdata fuel h i ts buf sz db = Some (Inr (int (length e)), e @ drop (length e) buf, db)"
  using readdata_history [of i db k h fuel sz RTDBSEL_LAST ts buf] assms
  by (simp add: served_def Let_def kogmo_rtdb_obj_readdata_def invalid_ts_def)

text \<open>The server sends the entry as it is, whatever the request.\<close>

lemma send_data_entry:
  assumes s: "served fuel h i ts db k e"
  shows "send_data env q (objmeta db ! k) (e @ x) = (UDPSIMPLEFLAG_DATA, e)"
proof -
  let ?m = "objmeta db ! k"
  note B = served_entry [OF s]
  have b: "b_size (e @ x) = int (length e)" for x using header_take(4) [OF B(1), of "e @ x"] B(2) by simp
  have img: "\<not> (int (length e) > 20000 \<and> otype ?m = OBJTYPE_A2_IMAGE \<and> c)" for c using s by (auto simp: served_def Let_def)
  show ?thesis unfolding send_data_def b if_not_P [OF img] by simp
qed

definition reply_of :: "server_stack \<Rightarrow> udp_req \<Rightarrow> int \<Rightarrow> byte list \<Rightarrow> byte list" where
  "reply_of stk q i e = padded stk (reply_header q UDPSIMPLEFLAG_DATA i @ e)"

lemma serve_object:
  assumes s: "served fuel h i ts db k e"
  shows "\<exists>db'. serve_objects env fuel h stk (data_req i ts serial) [i] [] db = Some (reply_of stk (data_req i ts serial) i e, db')"
proof -
  let ?m = "objmeta db ! k" and ?q = "data_req i ts serial" and ?db = "kogmo_rtdb_objmeta_unlock (kogmo_rtdb_objmeta_lock db)"
  have R: "kogmo_rtdb_obj_readinfo h i ts m0 db = (Inr 0, ?m, ?db)" for m0
    using s by (auto simp: served_def Let_def kogmo_rtdb_obj_readinfo_def kogmo_rtdb_obj_findmeta_byid_def ipc_defs emit_def)
  have "served fuel h i ts ?db k e"
    using s by (simp add: served_def Let_def kogmo_rtdb_obj_findmeta_byid_def ipc_defs emit_def obj_ok_def obj_history_def)
  from served_read [OF this] have D:
    "kogmo_rtdb_obj_readdata fuel h i ts buf (size_max ?m) ?db = Some (Inr (int (length e)), e @ drop (length e) buf, ?db)" for buf
    by (simp add: ipc_defs emit_def)
  note S = send_data_entry [OF s]
  have sm: "size_max ?m \<le> 640000" using s by (simp add: served_def Let_def)
  have e0: "e \<noteq> []" using served_entry(1) [OF s] by (auto simp: base_size_def)
  have sz: "rply_size < BUFSIZE" "rply_size + info_size < BUFSIZE" "\<not> int BUFSIZE \<le> int rply_size + size_max ?m"
    using sm by (simp_all add: rply_size_def info_size_def BUFSIZE_def)
  show ?thesis
    using sz e0 by (simp add: serve_objects.simps R D S data_req_fields data_req_flags reply_entry_def reply_of_def Let_def)
qed

section \<open>The client's side\<close>

text \<open>
  The network that gives a request to the server and delivers the packets \<open>junk\<close>, late or foreign
  ones, and then the reply, if there is one.
\<close>

definition server_net :: "mirror_env \<Rightarrow> nat \<Rightarrow> handle \<Rightarrow> server_stack \<Rightarrow> rtdb \<Rightarrow> byte list list \<Rightarrow> network" where
  "server_net env fuel h stk db junk p = Some (map Some junk @ [case serve env fuel h stk p db of Some (Returned r, _) \<Rightarrow> r | _ \<Rightarrow> None])"

definition no_answer :: "mirror_env \<Rightarrow> udp_req \<Rightarrow> byte list \<Rightarrow> bool" where
  "no_answer env q p \<longleftrightarrow> (case unpack env p of None \<Rightarrow> True | Some d \<Rightarrow> \<not> answers q d)"

lemma await_skips: "list_all (no_answer env q) junk \<Longrightarrow> await_reply env q sz buf (map Some junk @ ps) = await_reply env q sz buf ps"
  by (induction junk) (auto simp: no_answer_def split: option.splits)

lemma unpack_packed:
  assumes "codec_ok env" "length x \<le> 642000"
  shows "unpack env (bzip env x) = Some x"
proof -
  from assms(1) have c: "bunzip env (bzip env x) = Some x" "bzip env x \<noteq> []" "length (bzip env x) \<le> length x + length x div 100 + 600"
    by (simp_all add: codec_ok_def)
  then have "length (bzip env x) \<le> BUFSIZE" using assms(2) by (simp add: BUFSIZE_def)
  then show ?thesis using c(1,2) assms(2) by (simp add: unpack_def BUFSIZE_def)
qed

text \<open>The bytes behind the header: the entry, and one more when its length is odd.\<close>

definition even_bytes :: "server_stack \<Rightarrow> byte list \<Rightarrow> byte list" where
  "even_bytes stk e = (if odd (length e) then e @ [buf_rest stk (rply_size + length e)] else e)"

lemma reply_of_header:
  assumes "in_int32 i"
  shows "\<exists>hdr. reply_of stk (data_req i ts serial) i e = hdr @ even_bytes stk e \<and> length hdr = rply_size
    \<and> (\<forall>x. rply_of (hdr @ x) = \<lparr>r_fcc = ''RTDB'', r_version = udpmon_protocol_version, r_reply = (serial + 1) mod 2 ^ 16,
         r_flags = UDPSIMPLEFLAG_DATA, r_oid = i\<rparr>)"
proof -
  let ?r = "\<lparr>r_fcc = ''RTDB'', r_version = udpmon_protocol_version, r_reply = (serial + 1) mod 2 ^ 16, r_flags = UDPSIMPLEFLAG_DATA, r_oid = i\<rparr>"
  have t: "typed_rply ?r" using assms by (simp add: typed_rply_def udpmon_protocol_version_def udp_flags)
  note R = rply_roundtrip [OF t]
  have "reply_of stk (data_req i ts serial) i e = rply_bytes ?r @ even_bytes stk e"
    using R(1) by (simp add: reply_of_def reply_header_def data_req_fields padded_def even_bytes_def rply_size_def)
  with R show ?thesis by blast
qed

lemma served_size:
  assumes "served fuel h i ts db k e"
  shows "int (length e) \<le> size_max (objmeta db ! k)"
proof -
  have "e \<in> set (obj_history db k)" "obj_ok db k" using assms by (auto simp: served_def Let_def dest: pick_last_mem)
  then show ?thesis using history_entry(5) by (metis in_set_conv_nth)
qed

lemma even_bytes_facts:
  "length e \<le> length (even_bytes stk e)" "length (even_bytes stk e) \<le> Suc (length e)" "even (length e) \<Longrightarrow> even_bytes stk e = e"
  "odd (length e) \<Longrightarrow> length (even_bytes stk e) = Suc (length e)" "e \<noteq> [] \<Longrightarrow> even_bytes stk e \<noteq> []"
  by (auto simp: even_bytes_def)

lemma remote_read:
  assumes s: "served fuel h i ts db k e" and c: "codec_ok env" and j: "list_all (no_answer env (data_req i ts serial)) junk"
    and a: "in_int32 i" "0 < i" "in_int64 ts" "length (idlist_rest stk) = Suc OBJIDLIST_MAX"
  defines "e' \<equiv> even_bytes stk e"
  shows "udpmon_obj_readdata env (server_net env fuel h stk db junk) serial i ts buf sz
    = (let n = nat (min (int (length e')) sz) in Some (Returned (int (length e'), set_size (int (length e')) (take n e' @ drop n buf))))"
proof -
  let ?q = "data_req i ts serial" and ?r = "reply_of stk (data_req i ts serial) i e"
  obtain db' where S: "serve env fuel h stk (req_bytes ?q) db = Some (Returned (Some (bzip env ?r)), db')"
    using serve_object [OF s, of env stk serial] unfolding serve_data_req [OF a] by auto
  obtain hdr where H: "?r = hdr @ e'" "length hdr = rply_size"
    "\<And>x. rply_of (hdr @ x) = \<lparr>r_fcc = ''RTDB'', r_version = udpmon_protocol_version, r_reply = (serial + 1) mod 2 ^ 16, r_flags = UDPSIMPLEFLAG_DATA, r_oid = i\<rparr>"
    using reply_of_header [OF a(1), of stk ts serial e] unfolding e'_def by blast
  have "size_max (objmeta db ! k) \<le> 640000" using s by (simp add: served_def Let_def)
  then have "length ?r \<le> 642000" using served_size [OF s] even_bytes_facts(2) [of stk e] H(1,2) by (simp add: e'_def rply_size_def)
  note U = unpack_packed [OF c this]
  have A: "answers ?q ?r" by (simp add: answers_def H data_req_fields)
  have D: "reply_data env ?r = (int (length e'), e')" by (simp add: reply_data_def H udp_flags has_bit_def)
  have "e \<noteq> []" using served_entry(1) [OF s] by (auto simp: base_size_def)
  then have e0: "e' \<noteq> []" unfolding e'_def by (rule even_bytes_facts(5))
  have W: "await_reply env ?q sz buf (map Some junk @ [Some (bzip env ?r)])
    = (let n = nat (min (int (length e')) sz) in Some (int (length e'), i, take n e' @ drop n buf))"
    using U A D by (simp add: await_skips [OF j] H(1,3))
  have "sent_req (zero_req\<lparr>q_flags := UDPSIMPLEFLAG_DATA, q_oid := i, q_ts := ts\<rparr>) serial = ?q" by (simp add: data_req_def)
  then show ?thesis
    using e0 by (simp add: udpmon_obj_readdata_def udpmon_request_def data_packet server_net_def S W data_req_fields data_req_flags Let_def)
qed

section \<open>The properties\<close>


text \<open>An odd size is told one too large, in the result and in the header of the object.\<close>

theorem remote_odd_size:
  assumes s: "served fuel h i ts db k e" and c: "codec_ok env" and j: "list_all (no_answer env (data_req i ts serial)) junk"
    and a: "in_int32 i" "0 < i" "in_int64 ts" "length (idlist_rest stk) = Suc OBJIDLIST_MAX"
    and e: "odd (length e)"
  shows "\<exists>bs. udpmon_obj_readdata env (server_net env fuel h stk db junk) serial i ts buf sz
      = Some (Returned (int (length e) + 1, bs))"
  using remote_read [OF s c j a] by (simp add: even_bytes_facts(4) [OF e] Let_def add.commute)

section \<open>Witness\<close>

text \<open>A compressor that puts one byte in front.\<close>

definition plain_env :: mirror_env where
  "plain_env = \<lparr>bzip = (\<lambda>x. 0 # x), bunzip = (\<lambda>p. case p of [] \<Rightarrow> None | _ # x \<Rightarrow> Some x),
     write_JPEG_memory = (\<lambda>x _ _ _. x), read_JPEG_memory = (\<lambda>x. x)\<rparr>"

definition ex_stack :: server_stack where
  "ex_stack = \<lparr>recv_rest = (\<lambda>_. 0), buf_rest = (\<lambda>_. 0), idlist_rest = replicate (Suc OBJIDLIST_MAX) 0, info_rest = zero_info\<rparr>"

lemma plain_ok: "codec_ok plain_env"
  by (simp add: codec_ok_def plain_env_def)

lemma ex_entry_length: "length ex_entry = 28"
  using commit_bytes_fields(1) [of ex_data ex_h] by (simp add: ex_entry_def base_size_def)

lemma ex_served: "served 3 ex_h 2 0 ex_db1 1 ex_entry"
proof -
  show ?thesis unfolding served_def Let_def using ex_db1_facts [unfolded One_nat_def]
    by (simp add: ex_db1_objmeta advanced_def may_read_def pick_def ex_entry_length OBJTYPE_A2_IMAGE_def)
qed


end
