(* ===== verification/Mirror_Client.thy ===== *)
theory Mirror_Client
  imports Mirror_Props
begin

text \<open>
  The program that mirrors objects of another host into the local database
  (\<open>udprmon/udpsimpleclient.c\<close>, with the map of ids in \<open>udprmon/udpsimple.h\<close>): the requests it sends, the
  loop over the entries of a reply, and what it receives until a reply has been taken. What a server
  packs is unpacked entry by entry; but no server answers its requests.
\<close>

section \<open>Remote and local ids\<close>

text \<open>The table up to its last entry, which is never used; an entry with source 0 is free.\<close>

type_synonym mirror_map = "(int \<times> int) list"

definition mirror_query :: "int \<Rightarrow> mirror_map \<Rightarrow> int" where
  "mirror_query s xs = (case scan_first (\<lambda>e. fst e = s) xs of Some i \<Rightarrow> snd (xs ! i) | None \<Rightarrow> 0)"

definition mirror_add :: "int \<Rightarrow> int \<Rightarrow> mirror_map \<Rightarrow> mirror_map option" where
  "mirror_add s d xs = (case scan_first (\<lambda>e. fst e = 0) xs of Some i \<Rightarrow> Some (xs[i := (s, d)]) | None \<Rightarrow> None)"

definition mirror_del :: "int \<Rightarrow> mirror_map \<Rightarrow> mirror_map" where
  "mirror_del s xs = map (\<lambda>e. if fst e = s then (0, 0) else e) xs"

section \<open>Requests\<close>

text \<open>\<open>mo_strtol\<close> is \<open>strtol\<close> with base 0, \<open>mo_interval\<close> the interval of the command line.\<close>

record mirror_opts =
  mo_infoonly :: bool
  mo_interval :: cfloat
  mo_myoid :: int
  mo_strtol :: "char list \<Rightarrow> int"

record mirror_state =
  ms_map :: mirror_map
  ms_serial :: int
  ms_tx :: int
  ms_rx :: int
  ms_rxobj :: int
  ms_rxerr :: int

text \<open>A specification of objects: \<open>NAME:TYPE=NEWNAME\<close>, the name of at most 32 characters.\<close>

definition spec_type :: "mirror_opts \<Rightarrow> char list \<Rightarrow> int" where
  "spec_type opts s = (case dropWhile (\<lambda>c. c \<noteq> CHR '':'') s of [] \<Rightarrow> 0 | _ # t \<Rightarrow> int32 (mo_strtol opts t))"

definition spec_newname :: "char list \<Rightarrow> char list option" where
  "spec_newname s = (case dropWhile (\<lambda>c. c \<noteq> CHR ''='') s of [] \<Rightarrow> None | _ # n \<Rightarrow> Some n)"

definition mirror_req :: "mirror_opts \<Rightarrow> int \<Rightarrow> char list \<Rightarrow> udp_req" where
  "mirror_req opts serial s = zero_req\<lparr>q_fcc := ''RTDB'', q_request := serial mod 2 ^ 16,
     q_flags := or (or (if mo_infoonly opts then UDPSIMPLEFLAG_INFO else or UDPSIMPLEFLAG_INFO UDPSIMPLEFLAG_DATA) UDPSIMPLEFLAG_LIST) UDPSIMPLEFLAG_JPEGIMAGE,
     q_name := (strncpy NAME_MAXLEN (takeWhile (\<lambda>c. c \<noteq> CHR '':'') s))[NAME_MAXLEN - 1 := NUL],
     q_otype := spec_type opts s\<rparr>"

section \<open>Entries of a reply\<close>

definition mirrored_info :: "mirror_opts \<Rightarrow> char list option \<Rightarrow> mirror_map \<Rightarrow> obj_info \<Rightarrow> obj_info" where
  "mirrored_info opts newname xs m =
     (let parent = mirror_query (parent_oid m) xs;
          m = m\<lparr>parent_oid := (if parent = 0 then mo_myoid opts else parent)\<rparr>;
          m = (case newname of None \<Rightarrow> m | Some n \<Rightarrow> m\<lparr>name := strncpy NAME_MAXLEN n\<rparr>);
          m = (if min_cycletime m < mo_interval opts then m\<lparr>min_cycletime := mo_interval opts\<rparr> else m);
          m = (if max_cycletime m < mo_interval opts then m\<lparr>max_cycletime := mo_interval opts\<rparr> else m)
      in m\<lparr>flags := (flags m)\<lparr>keep_alloc := False, unique := False, cycle_watch := False, persistent := False, parent_delete := False\<rparr>\<rparr>)"

text \<open>The local id, a new one for an object that is not known yet, and the metadata in the buffer.\<close>

definition mirror_object ::
    "mirror_opts \<Rightarrow> handle \<Rightarrow> char list option \<Rightarrow> obj_info \<Rightarrow> mirror_state \<Rightarrow> rtdb \<Rightarrow> (int \<times> obj_info \<times> mirror_state) outcome \<times> rtdb" where
  "mirror_object opts h newname m st db =
     (let i = mirror_query (oid m) (ms_map st)
      in if i \<noteq> 0 then (Returned (i, m, st), db)
         else case kogmo_rtdb_obj_insert h (mirrored_info opts newname (ms_map st) m) db of (r, m', db) \<Rightarrow>
           (if c_ret r > 0
            then case mirror_add (oid m) (c_ret r) (ms_map st) of
                   None \<Rightarrow> Died
                 | Some xs \<Rightarrow> Returned (c_ret r, m', st\<lparr>ms_map := xs\<rparr>)
            else Returned (c_ret r, m', st), db))"

text \<open>
  The loop over a packet of \<open>recvlen\<close> bytes at the front of \<open>buf\<close>; \<open>recvok\<close> says that something has been
  written. The place may get negative by the size in an object; the comparison with \<open>recvlen\<close> is
  unsigned.
\<close>

fun mirror_entries ::
    "mirror_env \<Rightarrow> mirror_opts \<Rightarrow> handle \<Rightarrow> udp_req \<Rightarrow> char list option \<Rightarrow> int \<Rightarrow> nat \<Rightarrow> int \<Rightarrow> byte list \<Rightarrow> bool
      \<Rightarrow> mirror_state \<Rightarrow> rtdb \<Rightarrow> ((bool \<times> mirror_state) outcome \<times> rtdb) option" where
  "mirror_entries env opts h q newname recvlen 0 pos buf recvok st db = None"
| "mirror_entries env opts h q newname recvlen (Suc fuel) pos buf recvok st db =
     (let rp = rply_of (drop (nat pos) buf); ip = pos + int rply_size; dp = ip + int info_size;
          m = info_of (drop (nat ip) buf); fl = r_flags rp;
          loop = mirror_entries env opts h q newname recvlen fuel
      in if \<not> (0 \<le> ip \<and> ip < recvlen) then Some (Returned (recvok, st), db)
         else if pos < 0 then Some (Faulted, db)
         else if \<not> strncmp_eq 4 (r_fcc rp) ''RTDB'' \<or> r_reply rp \<noteq> q_request q \<or> q_oid q \<noteq> 0 \<and> r_oid rp \<noteq> q_oid q
         then Some (Returned (recvok, st\<lparr>ms_rxerr := ms_rxerr st + 1\<rparr>), db)
         else if has_bit fl UDPSIMPLEFLAG_LIST then
           if ip + 4 * int (Suc OBJIDLIST_MAX) \<ge> int BUFSIZE then Some (Returned (recvok, st), db)
           else loop (ip + 4 * int (Suc OBJIDLIST_MAX)) buf recvok st db
         else if dp \<ge> int BUFSIZE then Some (Returned (recvok, st), db)
         else if mo_infoonly opts then loop dp buf recvok (st\<lparr>ms_rxobj := ms_rxobj st + 1\<rparr>) db
         else case mirror_object opts h newname m (st\<lparr>ms_rxobj := ms_rxobj st + 1\<rparr>) db of
           (Died, db) \<Rightarrow> Some (Died, db)
         | (Faulted, db) \<Rightarrow> Some (Faulted, db)
         | (Returned (i, m, st), db) \<Rightarrow>
             let buf = put (nat ip) (info_bytes m) buf; data = drop (nat dp) buf; next_pos = dp + b_size data
             in if \<not> has_bit fl UDPSIMPLEFLAG_DATA then loop dp buf recvok st db
                else if dp + int base_size \<ge> int BUFSIZE \<or> next_pos \<ge> int BUFSIZE then Some (Returned (recvok, st), db)
                else if i < 0 then loop next_pos buf recvok st db
                else if has_bit fl UDPSIMPLEFLAG_JPEGIMAGE then
                  case kogmo_rtdb_obj_writedata h i (jpeg_decompress_a2_image env data) db of (r, _, db) \<Rightarrow>
                    (if c_ret r < 0 then loop next_pos buf recvok st db
                     else loop (if odd next_pos then next_pos + 1 else next_pos) buf True st db)
                else case kogmo_rtdb_obj_writedata h i data db of (r, data, db) \<Rightarrow>
                    (let buf = put (nat dp) data buf
                     in if c_ret r < 0 then loop next_pos buf recvok st db
                        else loop (if odd next_pos then next_pos + 1 else next_pos) buf True st db))"

declare mirror_entries.simps [simp del]

section \<open>Requests and their replies\<close>

text \<open>\<open>stale\<close> is what the buffer holds behind a packet.\<close>

fun mirror_receive ::
    "mirror_env \<Rightarrow> mirror_opts \<Rightarrow> handle \<Rightarrow> nat \<Rightarrow> (nat \<Rightarrow> byte) \<Rightarrow> udp_req \<Rightarrow> char list option \<Rightarrow> byte list option list
      \<Rightarrow> mirror_state \<Rightarrow> rtdb \<Rightarrow> (mirror_state outcome \<times> rtdb) option" where
  "mirror_receive env opts h fuel stale q newname [] st db = None"
| "mirror_receive env opts h fuel stale q newname (None # ps) st db = Some (Returned st, db)"
| "mirror_receive env opts h fuel stale q newname (Some p # ps) st db =
     (case unpack env p of
        None \<Rightarrow> mirror_receive env opts h fuel stale q newname ps st db
      | Some d \<Rightarrow>
          (case mirror_entries env opts h q newname (int (length d)) fuel 0 (d @ map stale [length d..<BUFSIZE]) False
                  (st\<lparr>ms_rx := ms_rx st + int (length d)\<rparr>) db of
             None \<Rightarrow> None
           | Some (Died, db) \<Rightarrow> Some (Died, db)
           | Some (Faulted, db) \<Rightarrow> Some (Faulted, db)
           | Some (Returned (recvok, st), db) \<Rightarrow>
               if recvok \<or> d = [] then Some (Returned st, db)
               else mirror_receive env opts h fuel stale q newname ps st db))"

definition mirror_request ::
    "mirror_env \<Rightarrow> mirror_opts \<Rightarrow> handle \<Rightarrow> nat \<Rightarrow> (nat \<Rightarrow> byte) \<Rightarrow> network \<Rightarrow> char list \<Rightarrow> mirror_state \<Rightarrow> rtdb
      \<Rightarrow> (mirror_state outcome \<times> rtdb) option" where
  "mirror_request env opts h fuel stale net s st db =
     (let q = mirror_req opts (ms_serial st) s;
          st = st\<lparr>ms_serial := ms_serial st + 1, ms_tx := ms_tx st + int req_size\<rparr>
      in case net (req_bytes q) of
           None \<Rightarrow> Some (Returned st, db)
         | Some ps \<Rightarrow> mirror_receive env opts h fuel stale q (spec_newname s) ps st db)"

text \<open>The requests of a round; \<open>nets\<close> are what the network does with each.\<close>

fun mirror_requests ::
    "mirror_env \<Rightarrow> mirror_opts \<Rightarrow> handle \<Rightarrow> nat \<Rightarrow> (nat \<Rightarrow> byte) \<Rightarrow> (char list \<times> network) list \<Rightarrow> mirror_state \<Rightarrow> rtdb
      \<Rightarrow> (mirror_state outcome \<times> rtdb) option" where
  "mirror_requests env opts h fuel stale [] st db = Some (Returned st, db)"
| "mirror_requests env opts h fuel stale ((s, net) # ss) st db =
     (case mirror_request env opts h fuel stale net s st db of
        None \<Rightarrow> None
      | Some (Died, db) \<Rightarrow> Some (Died, db)
      | Some (Faulted, db) \<Rightarrow> Some (Faulted, db)
      | Some (Returned st, db) \<Rightarrow> mirror_requests env opts h fuel stale ss st db)"

definition mirror_round ::
    "mirror_env \<Rightarrow> mirror_opts \<Rightarrow> handle \<Rightarrow> nat \<Rightarrow> (nat \<Rightarrow> byte) \<Rightarrow> (char list \<times> network) list \<Rightarrow> mirror_state \<Rightarrow> rtdb
      \<Rightarrow> (mirror_state outcome \<times> rtdb) option" where
  "mirror_round env opts h fuel stale ss st db =
     map_option (\<lambda>(r, db). (case r of
         Returned st \<Rightarrow> Returned (if ms_rx st = 0 then st\<lparr>ms_rxerr := ms_rxerr st + 1\<rparr> else st)
       | Died \<Rightarrow> Died | Faulted \<Rightarrow> Faulted, db))
       (mirror_requests env opts h fuel stale ss (st\<lparr>ms_tx := 0, ms_rx := 0, ms_rxobj := 0, ms_rxerr := 0\<rparr>) db)"

end
