(* ===== verification/Mirror_Client_Props.thy ===== *)
theory Mirror_Client_Props
  imports Mirror_Client
begin

text \<open>
  The mirroring program against the server: its requests have no version and are never answered; and
  what a server packs for objects and their versions is taken out again, entry by entry.
\<close>

section \<open>The requests are not answered\<close>

lemma mirror_req_typed: "typed_req (mirror_req opts serial s)"
proof -
  have "0 \<le> q_flags (mirror_req opts serial s) \<and> q_flags (mirror_req opts serial s) < 2 ^ 16"
    by (simp add: mirror_req_def udp_flags)
  then show ?thesis
    using in_int32_int32 by (auto simp: typed_req_def mirror_req_def zero_req_def NAME_MAXLEN_def in_int32_def in_int64_def spec_type_def split: list.split)
qed

lemma mirror_unanswered: "serve env fuel h stk (req_bytes (mirror_req opts serial s)) db = Some (Returned None, db)"
proof -
  let ?q = "mirror_req opts serial s"
  note R = req_roundtrip [OF mirror_req_typed, of opts serial s]
  have t: "take BUFSIZE (req_bytes ?q) = req_bytes ?q" using R(1) by (simp add: req_size_def BUFSIZE_def)
  have "q_version ?q \<noteq> udpmon_protocol_version" by (simp add: mirror_req_def zero_req_def udpmon_protocol_version_def)
  then show ?thesis unfolding serve_def Let_def t R(2) by simp
qed

lemma mirror_request_lost:
  "mirror_request env opts h fuel stale (server_net env fuel' h' stk rdb []) s st db
    = Some (Returned (st\<lparr>ms_serial := ms_serial st + 1, ms_tx := ms_tx st + int req_size\<rparr>), db)"
  by (simp add: mirror_request_def Let_def server_net_def mirror_unanswered)


section \<open>A write takes the object at the front\<close>

lemma put_front: "off + length xs \<le> length bs \<Longrightarrow> put off xs (bs @ ys) = put off xs bs @ ys"
  by (simp add: put_def)

lemma b_size_front: "base_size \<le> length e \<Longrightarrow> b_size (e @ x) = b_size e"
  by (simp add: b_size_def get_def base_size_def)

lemma writedata_front:
  assumes "base_size \<le> length e" "b_size e = int (length e)"
  shows "kogmo_rtdb_obj_writedata h i (e @ x) db
    = (case kogmo_rtdb_obj_writedata h i e db of (r, d, db) \<Rightarrow> (r, d @ x, db))"
proof -
  have s: "set_committed_ts v (d @ x) = set_committed_ts v d @ x" "set_committed_proc p (d @ x) = set_committed_proc p d @ x"
    if "base_size \<le> length d" for v p d
    using that by (simp_all add: header_defs put_front)
  let ?d = "set_committed_proc (h_proc_oid h) e"
  have l: "length ?d = length e" "b_size ?d = int (length e)" "b_size (?d @ x) = int (length e)"
    using assms by (simp_all add: b_size_front)
  have c: "writedata_commit h i k (?d @ x) ts db = (case writedata_commit h i k ?d ts db of (d, db) \<Rightarrow> (d @ x, db))" for k ts db
    unfolding writedata_commit_def Let_def l using assms(1) by (simp add: s l)
  show ?thesis
    using assms by (auto simp: kogmo_rtdb_obj_writedata_def Let_def b_size_front s c split: option.splits prod.splits)
qed

lemma length_writedata:
  assumes "base_size \<le> length e" "kogmo_rtdb_obj_writedata h i e db = (r, d, db')"
  shows "length d = length e"
  using assms by (auto simp: kogmo_rtdb_obj_writedata_def Let_def writedata_commit_def split: option.splits prod.splits if_splits)

section \<open>An inserted object keeps the length of its name\<close>

lemma insert_slot_name: "insert_slot h ts m db = (s, m', p, db') \<Longrightarrow> name m' = name m"
  by (auto simp: insert_slot_def insert_alloc_def insert_memory_def Let_def split: option.splits prod.splits if_splits)

lemma insert_finish_name: "insert_finish h (s, m, p, db) = (r, m', db') \<Longrightarrow> name m' = name m"
  by (auto simp: insert_commit_def Let_def split: option.splits if_splits)

lemma insert_name_length:
  assumes "kogmo_rtdb_obj_insert h m db = (r, m', db')"
  shows "length (name m') = length (name m)"
proof -
  obtain ts d where n: "kogmo_rtdb_timestamp_now db = (ts, d)" by (metis surj_pair)
  let ?m = "insert_init h ts (apply_maxhist h (apply_minhist h (m\<lparr>name := (name m)[NAME_MAXLEN - 1 := NUL]\<rparr>)))"
  have l: "name (insert_init h ts x) = name x" "name (apply_maxhist h x) = name x" "name (apply_minhist h x) = name x" for x
    by (simp_all add: insert_init_def apply_maxhist_def apply_minhist_def Let_def split: option.split)
  obtain s y p e where S: "insert_slot h ts ?m (kogmo_rtdb_objmeta_lock d) = (s, y, p, e)" by (metis prod_cases4)
  show ?thesis
    using assms insert_slot_name [OF S] insert_finish_name [of h s y p e r m' db']
    unfolding kogmo_rtdb_obj_insert_def n Let_def prod.case S l
    by (auto simp del: insert_finish.simps split: if_splits)
qed

lemma mirrored_name: "length (name m) = NAME_MAXLEN \<Longrightarrow> length (name (mirrored_info opts newname xs m)) = NAME_MAXLEN"
  by (simp add: mirrored_info_def Let_def split: option.split)

lemma mirror_object_name:
  assumes "mirror_object opts h newname m st db = (Returned (i, m', st'), db')" "length (name m) = NAME_MAXLEN"
  shows "length (info_bytes m') = info_size"
proof -
  have "length (name m') = NAME_MAXLEN"
    using assms mirrored_name [OF assms(2), of opts newname "ms_map st"]
    by (auto simp: mirror_object_def Let_def split: if_splits option.splits prod.splits dest: insert_name_length)
  then show ?thesis by simp
qed

section \<open>The entries of a packet\<close>

text \<open>What the server packs for an object that is not a large picture.\<close>

definition packed :: "udp_req \<Rightarrow> obj_info \<times> byte list \<Rightarrow> byte list" where
  "packed q x = reply_entry q (oid (fst x)) (fst x) UDPSIMPLEFLAG_DATA (snd x)"

definition packed_ok :: "obj_info \<times> byte list \<Rightarrow> bool" where
  "packed_ok x \<longleftrightarrow> typed_info (fst x) \<and> base_size \<le> length (snd x) \<and> b_size (snd x) = int (length (snd x)) \<and> even (length (snd x))"

definition reads_all :: "udp_req \<Rightarrow> bool" where
  "reads_all q \<longleftrightarrow> has_bit (q_flags q) UDPSIMPLEFLAG_INFO \<and> q_oid q = 0 \<and> 0 \<le> q_request q \<and> q_request q < 2 ^ 16"

text \<open>The objects taken over one after the other.\<close>

fun mirror_all ::
    "mirror_opts \<Rightarrow> handle \<Rightarrow> char list option \<Rightarrow> (obj_info \<times> byte list) list \<Rightarrow> bool \<Rightarrow> mirror_state \<Rightarrow> rtdb
      \<Rightarrow> (bool \<times> mirror_state) outcome \<times> rtdb" where
  "mirror_all opts h newname [] recvok st db = (Returned (recvok, st), db)"
| "mirror_all opts h newname ((m, e) # xs) recvok st db =
     (case mirror_object opts h newname m (st\<lparr>ms_rxobj := ms_rxobj st + 1\<rparr>) db of
        (Died, db) \<Rightarrow> (Died, db)
      | (Faulted, db) \<Rightarrow> (Faulted, db)
      | (Returned (i, _, st), db) \<Rightarrow>
          if i < 0 then mirror_all opts h newname xs recvok st db
          else case kogmo_rtdb_obj_writedata h i e db of
            (r, _, db) \<Rightarrow> mirror_all opts h newname xs (recvok \<or> c_ret r \<ge> 0) st db)"

lemma entry_parts:
  assumes "packed_ok x" "reads_all q"
  obtains hdr where "packed q x = hdr @ info_bytes (fst x) @ snd x" "length hdr = rply_size"
    "\<And>y. rply_of (hdr @ y) = \<lparr>r_fcc = ''RTDB'', r_version = udpmon_protocol_version, r_reply = q_request q, r_flags = 3, r_oid = oid (fst x)\<rparr>"
    "length (info_bytes (fst x)) = info_size" "\<And>y. info_of (info_bytes (fst x) @ y) = fst x"
proof -
  let ?r = "\<lparr>r_fcc = ''RTDB'', r_version = udpmon_protocol_version, r_reply = q_request q, r_flags = 3, r_oid = oid (fst x)\<rparr>"
  have m: "typed_info (fst x)" using assms by (simp add: packed_ok_def)
  then have l: "length (info_bytes (fst x)) = info_size" by (simp add: typed_info_def)
  have t: "typed_rply ?r" using assms m by (simp add: typed_rply_def udpmon_protocol_version_def reads_all_def typed_info_def)
  have "packed q x = rply_bytes ?r @ info_bytes (fst x) @ snd x"
    using assms by (simp add: packed_def reply_entry_def reads_all_def reply_header_def udp_flags)
  then show ?thesis using that [of "rply_bytes ?r"] rply_roundtrip [OF t] l info_of_bytes [OF m] info_of_append [OF l] by simp
qed

lemma drop_put_before: "off + length xs = pos \<Longrightarrow> pos \<le> length bs \<Longrightarrow> drop pos (put off xs bs) = drop pos bs"
  by (auto simp: put_def)

lemma drop_put_there: "length ys = length (drop pos bs) \<Longrightarrow> pos \<le> length bs \<Longrightarrow> drop pos (put pos ys bs) = ys"
  by (simp add: put_def)

lemma drop_parts: "drop n xs = ys @ zs \<Longrightarrow> length ys = k \<Longrightarrow> drop (n + k) xs = zs"
  by (metis append_eq_conv_conj drop_drop add.commute)

text \<open>One round of the loop, for an entry at the place \<open>pos\<close> with \<open>rest\<close> behind it.\<close>

lemma entry_step:
  assumes x: "packed_ok (m, e)" "reads_all q" "\<not> mo_infoonly opts"
    and b: "drop pos buf = packed q (m, e) @ rest" "int (pos + length (packed q (m, e))) \<le> recvlen" "recvlen < int BUFSIZE"
    and pos: "even pos"
  shows "\<exists>buf'. drop (pos + length (packed q (m, e))) buf' = rest \<and>
    mirror_entries env opts h q newname recvlen (Suc fuel) (int pos) buf recvok st db
    = (case mirror_object opts h newname m (st\<lparr>ms_rxobj := ms_rxobj st + 1\<rparr>) db of
        (Died, db) \<Rightarrow> Some (Died, db)
      | (Faulted, db) \<Rightarrow> Some (Faulted, db)
      | (Returned (i, _, st), db) \<Rightarrow>
          if i < 0 then mirror_entries env opts h q newname recvlen fuel (int (pos + length (packed q (m, e)))) buf' recvok st db
          else case kogmo_rtdb_obj_writedata h i e db of (r, _, db) \<Rightarrow>
            mirror_entries env opts h q newname recvlen fuel (int (pos + length (packed q (m, e)))) buf' (recvok \<or> c_ret r \<ge> 0) st db)"
proof -
  obtain hdr where H: "packed q (m, e) = hdr @ info_bytes m @ e" "length hdr = rply_size"
    "\<And>y. rply_of (hdr @ y) = \<lparr>r_fcc = ''RTDB'', r_version = udpmon_protocol_version, r_reply = q_request q, r_flags = 3, r_oid = oid m\<rparr>"
    "length (info_bytes m) = info_size" "\<And>y. info_of (info_bytes m @ y) = m"
    using entry_parts [OF x(1,2)] by auto
  have E: "base_size \<le> length e" "b_size e = int (length e)" "even (length e)" "length (name m) = NAME_MAXLEN"
    using x(1) by (simp_all add: packed_ok_def typed_info_def)
  obtain ip dp np where P: "ip = pos + rply_size" "dp = ip + info_size" "np = dp + length e" by blast
  have np: "pos + length (packed q (m, e)) = np" using H P by simp
  have d: "drop pos buf = hdr @ info_bytes m @ e @ rest" "drop ip buf = info_bytes m @ e @ rest" "drop dp buf = e @ rest" "drop np buf = rest"
  proof -
    show 1: "drop pos buf = hdr @ info_bytes m @ e @ rest" using b(1) H(1) by simp
    show 2: "drop ip buf = info_bytes m @ e @ rest" unfolding P(1) by (rule drop_parts [OF 1 H(2)])
    show 3: "drop dp buf = e @ rest" unfolding P(2) by (rule drop_parts [OF 2 H(4)])
    show "drop np buf = rest" unfolding P(3) by (rule drop_parts [OF 3 refl])
  qed
  have lb: "np \<le> length buf"
    using arg_cong [OF d(1), of length] E(1) H(2,4) P by (simp add: base_size_def)
  have c: "0 \<le> int ip \<and> int ip < recvlen" "\<not> int pos < 0" "\<not> int BUFSIZE \<le> int dp" "\<not> int BUFSIZE \<le> int dp + int base_size"
    "\<not> int BUFSIZE \<le> int np" using b(2,3) E(1) P unfolding np by (simp_all add: base_size_def info_size_def)
  have h: "rply_of (drop pos buf) = \<lparr>r_fcc = ''RTDB'', r_version = udpmon_protocol_version, r_reply = q_request q, r_flags = 3, r_oid = oid m\<rparr>"
    "info_of (drop ip buf) = m" unfolding d(1,2) by (rule H)+
  have f: "\<not> has_bit 3 UDPSIMPLEFLAG_LIST" "has_bit 3 UDPSIMPLEFLAG_DATA" "\<not> has_bit 3 UDPSIMPLEFLAG_JPEGIMAGE"
    by (simp_all add: has_bit_def udp_flags)
  have q: "q_oid q = 0" using x(2) by (simp add: reads_all_def)
  obtain r db1 where M: "mirror_object opts h newname m (st\<lparr>ms_rxobj := ms_rxobj st + 1\<rparr>) db = (r, db1)" by (metis surj_pair)
  let ?buf1 = "\<lambda>m'. put ip (info_bytes m') buf"
  have i: "int pos + int rply_size = int ip" "int ip + int info_size = int dp" "int dp + int (length e) = int np" "odd (int np) = odd np" using P by simp_all
  let ?loop = "mirror_entries env opts h q newname recvlen fuel"
  note step = mirror_entries.simps(2) [of env opts h q newname recvlen fuel "int pos" buf recvok st db]
  show ?thesis
  proof (cases r)
    case Died
    then show ?thesis unfolding step Let_def nat_int i(1,2) h using c f q d(4) np by (intro exI [of _ buf]) (simp add: M np x(3))
  next
    case Faulted
    then show ?thesis unfolding step Let_def nat_int i(1,2) h using c f q d(4) np by (intro exI [of _ buf]) (simp add: M np x(3))
  next
    case (Returned a)
    obtain j m' st' where a: "a = (j, m', st')" by (metis prod_cases3)
    have l: "length (info_bytes m') = info_size" using M E(4) unfolding Returned a by (rule mirror_object_name)
    let ?b = "put ip (info_bytes m') buf"
    have b1: "drop dp ?b = e @ rest" using drop_put_before [of ip "info_bytes m'" dp buf] l lb d(3) P by simp
    have b2: "drop np ?b = rest" unfolding P(3) by (rule drop_parts [OF b1 refl])
    have lb1: "length ?b = length buf" using l lb P by simp
    have z: "b_size (e @ rest) = int (length e)" using E(1,2) by (simp add: b_size_front)
    obtain v d' db2 where W: "kogmo_rtdb_obj_writedata h j e db1 = (v, d', db2)" by (metis prod_cases3)
    have W': "kogmo_rtdb_obj_writedata h j (e @ rest) db1 = (v, d' @ rest, db2)" using writedata_front [OF E(1,2)] W by simp
    have ev: "even np" using pos E(3) P by (simp add: rply_size_def info_size_def)
    let ?b2 = "put dp (d' @ rest) ?b"
    have "length (d' @ rest) = length (drop dp ?b)" using length_writedata [OF E(1) W] b1 by simp
    moreover have "dp \<le> length ?b" using lb P(3) unfolding lb1 by simp
    ultimately have "drop dp ?b2 = d' @ rest" by (rule drop_put_there)
    from drop_parts [OF this length_writedata [OF E(1) W]] have b3: "drop np ?b2 = rest" unfolding P(3) .
    have S: "mirror_entries env opts h q newname recvlen (Suc fuel) (int pos) buf recvok st db
      = (if j < 0 then ?loop (int np) ?b recvok st' db1
         else if c_ret v < 0 then ?loop (int np) ?b2 recvok st' db2 else ?loop (int np) ?b2 True st' db2)"
      unfolding step Let_def nat_int i(1,2) h using c f q i(3,4) ev by (simp add: M Returned a b1 z x(3) W')
    show ?thesis unfolding S np
      using b2 b3 by (cases "j < 0"; intro exI [of _ "if j < 0 then ?b else ?b2"]) (simp_all add: M Returned a W)
  qed
qed

text \<open>The whole packet: the loop takes over the objects one after the other.\<close>

lemma entries_mirrored:
  assumes "list_all packed_ok xs" "reads_all q" "\<not> mo_infoonly opts" "even pos"
    and "drop pos buf = concat (map (packed q) xs) @ rest" "recvlen = int (pos + length (concat (map (packed q) xs)))"
      "recvlen < int BUFSIZE" "length xs < fuel"
  shows "mirror_entries env opts h q newname recvlen fuel (int pos) buf recvok st db = Some (mirror_all opts h newname xs recvok st db)"
  using assms
proof (induction xs arbitrary: pos buf recvok st db fuel)
  case Nil
  then obtain f where "fuel = Suc f" by (cases fuel) auto
  then show ?case using Nil by (simp add: mirror_entries.simps Let_def rply_size_def)
next
  case (Cons x xs)
  obtain m e where x: "x = (m, e)" by (metis surj_pair)
  from Cons.prems obtain f where f: "fuel = Suc f" "length xs < f" by (cases fuel) auto
  let ?pos = "pos + length (packed q (m, e))"
  have ok: "packed_ok (m, e)" "list_all packed_ok xs" using Cons.prems(1) x by simp_all
  have d: "drop pos buf = packed q (m, e) @ concat (map (packed q) xs) @ rest" using Cons.prems(5) x by simp
  have r: "int ?pos \<le> recvlen" "recvlen = int (?pos + length (concat (map (packed q) xs)))" using Cons.prems(6) x by simp_all
  obtain hdr where "packed q (m, e) = hdr @ info_bytes m @ e" "length hdr = rply_size" "length (info_bytes m) = info_size"
    by (rule entry_parts [OF ok(1) Cons.prems(2)]) simp
  then have ev: "even ?pos" using Cons.prems(4) ok(1) by (simp add: packed_ok_def rply_size_def info_size_def)
  obtain buf' where B: "drop ?pos buf' = concat (map (packed q) xs) @ rest"
    "mirror_entries env opts h q newname recvlen (Suc f) (int pos) buf recvok st db
    = (case mirror_object opts h newname m (st\<lparr>ms_rxobj := ms_rxobj st + 1\<rparr>) db of
        (Died, db) \<Rightarrow> Some (Died, db)
      | (Faulted, db) \<Rightarrow> Some (Faulted, db)
      | (Returned (i, _, st), db) \<Rightarrow>
          if i < 0 then mirror_entries env opts h q newname recvlen f (int ?pos) buf' recvok st db
          else case kogmo_rtdb_obj_writedata h i e db of (r, _, db) \<Rightarrow>
            mirror_entries env opts h q newname recvlen f (int ?pos) buf' (recvok \<or> c_ret r \<ge> 0) st db)"
    using entry_step [OF ok(1) Cons.prems(2,3) d r(1) Cons.prems(7,4)] by blast
  note IH = Cons.IH [OF ok(2) Cons.prems(2,3) ev B(1) r(2) Cons.prems(7) f(2)]
  show ?case unfolding f(1) B(2) x mirror_all.simps IH
    by (auto split: outcome.splits prod.splits)
qed

section \<open>What the server packs\<close>

lemma served_locked:
  "served fuel h i ts db k e \<Longrightarrow> served fuel h i ts (kogmo_rtdb_objmeta_unlock (kogmo_rtdb_objmeta_lock db)) k e"
  "objmeta (kogmo_rtdb_objmeta_unlock (kogmo_rtdb_objmeta_lock db)) = objmeta db"
  by (simp_all add: served_def Let_def kogmo_rtdb_obj_findmeta_byid_def ipc_defs emit_def obj_ok_def obj_history_def)

text \<open>An object of the server with the version it sends: id, slot and version.\<close>

definition sends :: "nat \<Rightarrow> handle \<Rightarrow> timestamp \<Rightarrow> rtdb \<Rightarrow> int \<times> nat \<times> byte list \<Rightarrow> bool" where
  "sends fuel h ts db x \<longleftrightarrow> (case x of (i, k, e) \<Rightarrow> served fuel h i ts db k e \<and> even (length e) \<and> typed_info (objmeta db ! k))"

definition sent_object :: "rtdb \<Rightarrow> int \<times> nat \<times> byte list \<Rightarrow> obj_info \<times> byte list" where
  "sent_object db x = (case x of (i, k, e) \<Rightarrow> (objmeta db ! k, e))"

definition sent_room :: "rtdb \<Rightarrow> int \<times> nat \<times> byte list \<Rightarrow> nat" where
  "sent_room db x = (case x of (i, k, e) \<Rightarrow> rply_size + info_size + nat (size_max (objmeta db ! k)))"

lemma sends_facts:
  assumes "sends fuel h ts db x"
  shows "packed_ok (sent_object db x)" "oid (fst (sent_object db x)) = fst x"
    "length (info_bytes (fst (sent_object db x))) = info_size" "length (snd (sent_object db x)) \<le> nat (size_max (fst (sent_object db x)))"
proof -
  obtain i k e where x: "x = (i, k, e)" by (metis prod_cases3)
  have s: "served fuel h i ts db k e" "even (length e)" "typed_info (objmeta db ! k)" using assms by (simp_all add: sends_def x)
  have "kogmo_rtdb_obj_findmeta_byid i db = Some k" using s(1) by (simp add: served_def Let_def)
  then show "packed_ok (sent_object db x)" "oid (fst (sent_object db x)) = fst x" "length (info_bytes (fst (sent_object db x))) = info_size"
    "length (snd (sent_object db x)) \<le> nat (size_max (fst (sent_object db x)))"
    using s served_entry [OF s(1)] served_size [OF s(1)]
    by (auto simp: packed_ok_def sent_object_def x typed_info_def kogmo_rtdb_obj_findmeta_byid_def dest: scan_first_sat)
qed

lemma length_packed:
  assumes "sends fuel h ts db x" "reads_all q"
  shows "even (length (packed q (sent_object db x)))" "length (packed q (sent_object db x)) \<le> sent_room db x"
proof -
  obtain hdr where "packed q (sent_object db x) = hdr @ info_bytes (fst (sent_object db x)) @ snd (sent_object db x)"
    "length hdr = rply_size" "length (info_bytes (fst (sent_object db x))) = info_size"
    by (rule entry_parts [OF sends_facts(1) [OF assms(1)] assms(2)]) simp
  then show "even (length (packed q (sent_object db x)))" "length (packed q (sent_object db x)) \<le> sent_room db x"
    using sends_facts(1,4) [OF assms(1)]
    by (auto simp: packed_ok_def rply_size_def info_size_def sent_room_def sent_object_def split: prod.splits)
qed

lemma serve_entries:
  assumes "list_all (sends fuel h (q_ts q) db) xs" "reads_all q" "has_bit (q_flags q) UDPSIMPLEFLAG_DATA" "even (length out)"
    and "length out + sum_list (map (sent_room db) xs) < BUFSIZE"
  shows "\<exists>db'. serve_objects env fuel h stk q (map fst xs) out db = Some (out @ concat (map (\<lambda>x. packed q (sent_object db x)) xs), db')"
  using assms
proof (induction xs arbitrary: out db)
  case Nil then show ?case by (simp add: serve_objects.simps)
next
  case (Cons x xs)
  obtain i k e where x: "x = (i, k, e)" by (metis prod_cases3)
  let ?m = "objmeta db ! k" and ?db = "kogmo_rtdb_objmeta_unlock (kogmo_rtdb_objmeta_lock db)"
  have s: "served fuel h i (q_ts q) db k e" "sends fuel h (q_ts q) db x" using Cons.prems(1) by (simp_all add: sends_def x)
  have R: "kogmo_rtdb_obj_readinfo h i (q_ts q) m0 db = (Inr 0, ?m, ?db)" for m0
    using s(1) by (auto simp: served_def Let_def kogmo_rtdb_obj_readinfo_def kogmo_rtdb_obj_findmeta_byid_def ipc_defs emit_def)
  from served_read [OF served_locked(1) [OF s(1)]] have D:
    "kogmo_rtdb_obj_readdata fuel h i (q_ts q) buf (size_max ?m) ?db = Some (Inr (int (length e)), e @ drop (length e) buf, ?db)" for buf
    by (simp add: served_locked(2))
  note P = sends_facts [OF s(2)] length_packed [OF s(2) Cons.prems(2)]
  note S = send_data_entry [OF s(1)]
  have pk: "packed q (sent_object db x) = reply_entry q i ?m UDPSIMPLEFLAG_DATA e"
    using P(2) by (simp add: packed_def sent_object_def x)
  have f: "has_bit (q_flags q) UDPSIMPLEFLAG_INFO" using Cons.prems(2) by (simp add: reads_all_def)
  have rm: "sent_room db x = rply_size + info_size + nat (size_max ?m)" by (simp add: sent_room_def x)
  have e0: "e \<noteq> []" using served_entry(1) [OF s(1)] by (auto simp: base_size_def)
  have b: "\<not> BUFSIZE \<le> length out + rply_size" "\<not> BUFSIZE \<le> length out + rply_size + info_size"
    "\<not> int BUFSIZE \<le> int (length out + rply_size + info_size) + size_max ?m"
    using Cons.prems(5) unfolding list.map sum_list.Cons rm by linarith+
  let ?out = "out @ packed q (sent_object db x)"
  have ev: "even (length ?out)" using Cons.prems(4) P(5) by simp
  then have pd: "padded stk ?out = ?out" by (simp add: padded_def)
  have "list_all (sends fuel h (q_ts q) ?db) xs"
    using Cons.prems(1) by (auto simp: list_all_iff sends_def served_locked split: prod.splits intro: served_locked(1))
  moreover have "sent_room ?db = sent_room db" "sent_object ?db = sent_object db"
    by (simp_all add: fun_eq_iff sent_room_def sent_object_def served_locked(2))
  moreover have "length ?out + sum_list (map (sent_room db) xs) < BUFSIZE" using Cons.prems(5) P(6) by simp
  ultimately obtain db' where "serve_objects env fuel h stk q (map fst xs) ?out ?db
    = Some (?out @ concat (map (\<lambda>x. packed q (sent_object db x)) xs), db')"
    using Cons.IH [of ?db ?out, OF _ Cons.prems(2,3) ev] by auto
  then show ?case
    using b e0 unfolding pk
    by (simp add: x serve_objects.simps(2) Let_def f Cons.prems(3) R D S pd [unfolded pk] pk [unfolded x])
qed

section \<open>From the server to the local database\<close>

text \<open>The list of ids that comes first.\<close>

definition list_bytes :: "udp_req \<Rightarrow> int \<Rightarrow> int list \<Rightarrow> byte list" where
  "list_bytes q n l = reply_header q UDPSIMPLEFLAG_LIST n @ ids_bytes l"

lemma length_ids_bytes: "length (ids_bytes l) = 4 * length l"
  by (induction l) (simp_all add: ids_bytes_def)

lemma list_bytes_facts:
  assumes "reads_all q" "in_int32 n" "length l = Suc OBJIDLIST_MAX"
  shows "length (list_bytes q n l) = rply_size + 4 * Suc OBJIDLIST_MAX"
    "rply_of (list_bytes q n l @ x) = \<lparr>r_fcc = ''RTDB'', r_version = udpmon_protocol_version, r_reply = q_request q, r_flags = UDPSIMPLEFLAG_LIST, r_oid = n\<rparr>"
proof -
  let ?r = "\<lparr>r_fcc = ''RTDB'', r_version = udpmon_protocol_version, r_reply = q_request q, r_flags = UDPSIMPLEFLAG_LIST, r_oid = n\<rparr>"
  have t: "typed_rply ?r" using assms by (simp add: typed_rply_def udpmon_protocol_version_def reads_all_def udp_flags)
  from rply_roundtrip [OF t] assms(3)
  show "length (list_bytes q n l) = rply_size + 4 * Suc OBJIDLIST_MAX" "rply_of (list_bytes q n l @ x) = ?r"
    by (simp_all add: list_bytes_def reply_header_def length_ids_bytes)
qed

lemma list_skipped:
  assumes "reads_all q" "in_int32 n" "length l = Suc OBJIDLIST_MAX" "int rply_size < recvlen"
  shows "mirror_entries env opts h q newname recvlen (Suc fuel) 0 (list_bytes q n l @ x) recvok st db
    = mirror_entries env opts h q newname recvlen fuel (int (length (list_bytes q n l))) (list_bytes q n l @ x) recvok st db"
proof -
  have f: "has_bit UDPSIMPLEFLAG_LIST UDPSIMPLEFLAG_LIST" by (simp add: has_bit_def udp_flags)
  have q: "q_oid q = 0" using assms(1) by (simp add: reads_all_def)
  have c: "\<not> int BUFSIZE \<le> int rply_size + 4 * int (Suc OBJIDLIST_MAX)" by (simp add: BUFSIZE_def rply_size_def OBJIDLIST_MAX_def)
  show ?thesis
    using c assms(4) by (simp add: mirror_entries.simps(2) Let_def list_bytes_facts [OF assms(1-3)] f q)
qed


section \<open>Witness\<close>

definition ex_mirror :: mirror_opts where
  "ex_mirror = \<lparr>mo_infoonly = False, mo_interval = 0, mo_myoid = 1, mo_strtol = (\<lambda>_. 9)\<rparr>"

definition ex_mirror_state :: mirror_state where
  "ex_mirror_state = \<lparr>ms_map = [(2, 2), (0, 0)], ms_serial = 1, ms_tx = 0, ms_rx = 0, ms_rxobj = 0, ms_rxerr = 0\<rparr>"

lemma ex_mirror_reads: "reads_all (mirror_req ex_mirror 1 ''speed:9'')" "has_bit (q_flags (mirror_req ex_mirror 1 ''speed:9'')) UDPSIMPLEFLAG_DATA"
  "q_ts (mirror_req ex_mirror 1 ''speed:9'') = 0"
  by (simp_all add: reads_all_def mirror_req_def zero_req_def ex_mirror_def has_bit_def udp_flags)

lemma ex_sends: "list_all (sends 3 ex_h (q_ts (mirror_req ex_mirror 1 ''speed:9'')) ex_db1) [(2, 1, ex_entry)]"
proof -
  have "typed_info (advanced ex_obj)"
    by (simp add: typed_info_def advanced_def ex_obj_def zero_info_def in_int32_def in_int64_def is_single_def next_slot_def)
  then show ?thesis using ex_served by (simp add: sends_def ex_mirror_reads(3) ex_entry_length ex_db1_objmeta)
qed


end
